(* ===== verification/Prelude.thy ===== *)
theory Prelude
  imports Main "HOL-Library.Monad_Syntax" "HOL-Library.Sublist" "HOL-Library.Code_Target_Nat"
begin

text \<open>
  Shared vocabulary of the development: the result type of fallible operations
  (\<open>src/src/error.rs\<close>), the way \<open>?\<close> chains such operations, slices of byte strings, and a
  locale for loops that consume a list of items and keep an invariant.

  A Rust byte slice and a Rust \<open>str\<close> (its UTF-8 bytes) are both lists of 8-bit \<open>char\<close>, so
  \<open>length\<close> is \<open>len()\<close>, which counts bytes. A \<open>BxdlError\<close> is modelled by its code; its
  message is text for people and no code branches on it.
\<close>

named_theorems result_defs "definitions of the combinators on results"

section \<open>Errors and results\<close>

type_synonym bytes = "char list"

datatype bxdl_error = BxdlError (error_code: string)

type_synonym 'a result = "bxdl_error + 'a"

definition fail :: "string \<Rightarrow> 'a result" where
  "fail c = Inl (BxdlError c)"

text \<open>\<open>m?\<close> followed by the rest of the function is \<open>and_then m rest\<close>.\<close>

definition and_then :: "'e + 'a \<Rightarrow> ('a \<Rightarrow> 'e + 'b) \<Rightarrow> 'e + 'b" where
  "and_then m f = (case m of Inl e \<Rightarrow> Inl e | Inr x \<Rightarrow> f x)"

text \<open>\<open>if !b { return Err(fail(c)) }\<close>.\<close>

definition ensure :: "bool \<Rightarrow> string \<Rightarrow> unit result" where
  "ensure b c = (if b then Inr () else fail c)"

text \<open>\<open>Option::ok_or\<close> and \<open>Result::map_err\<close> with a constant error.\<close>

definition ok_or :: "'a option \<Rightarrow> string \<Rightarrow> 'a result" where
  "ok_or m c = (case m of None \<Rightarrow> fail c | Some x \<Rightarrow> Inr x)"

definition map_err :: "string \<Rightarrow> 'e + 'a \<Rightarrow> 'a result" where
  "map_err c m = (case m of Inl _ \<Rightarrow> fail c | Inr x \<Rightarrow> Inr x)"

definition is_ok :: "'e + 'a \<Rightarrow> bool" where
  "is_ok m = (case m of Inl _ \<Rightarrow> False | Inr _ \<Rightarrow> True)"

declare fail_def [result_defs] and_then_def [result_defs] ensure_def [result_defs]
  ok_or_def [result_defs] map_err_def [result_defs] is_ok_def [result_defs]

lemma and_then_Inl [simp]: "and_then (Inl e) f = Inl e"
  by (simp add: and_then_def)

lemma and_then_Inr [simp]: "and_then (Inr x) f = f x"
  by (simp add: and_then_def)

lemma and_then_fail [simp]: "and_then (fail c) f = fail c"
  by (simp add: fail_def)

lemma and_then_eq_Inr [simp]: "and_then m f = Inr y \<longleftrightarrow> (\<exists>x. m = Inr x \<and> f x = Inr y)"
  by (cases m) auto

lemma Inr_eq_and_then [simp]: "Inr y = and_then m f \<longleftrightarrow> (\<exists>x. m = Inr x \<and> f x = Inr y)"
  by (cases m) auto

lemma and_then_eq_Inl: "and_then m f = Inl e \<longleftrightarrow> m = Inl e \<or> (\<exists>x. m = Inr x \<and> f x = Inl e)"
  by (cases m) auto

lemma and_then_assoc: "and_then (and_then m f) g = and_then m (\<lambda>x. and_then (f x) g)"
  by (cases m) auto

lemma and_then_cong [fundef_cong]:
  "m = m' \<Longrightarrow> (\<And>x. m' = Inr x \<Longrightarrow> f x = g x) \<Longrightarrow> and_then m f = and_then m' g"
  by (cases m') auto

lemma fail_neq_Inr [simp]: "fail c \<noteq> Inr x" "Inr x \<noteq> fail c"
  by (auto simp: fail_def)

lemma fail_eq_fail [simp]: "fail c = fail d \<longleftrightarrow> c = d"
  by (simp add: fail_def)

lemma ensure_True [simp]: "ensure True c = Inr ()"
  by (simp add: ensure_def)

lemma ensure_False [simp]: "ensure False c = fail c"
  by (simp add: ensure_def)

lemma ensure_eq_Inr [simp]: "ensure b c = Inr u \<longleftrightarrow> b"
  by (simp add: ensure_def)

lemma ensure_eq_fail [simp]: "ensure b c = fail d \<longleftrightarrow> \<not> b \<and> c = d"
  by (auto simp: ensure_def)

lemma ok_or_None [simp]: "ok_or None c = fail c"
  by (simp add: ok_or_def)

lemma ok_or_Some [simp]: "ok_or (Some x) c = Inr x"
  by (simp add: ok_or_def)

lemma ok_or_eq_Inr [simp]: "ok_or m c = Inr x \<longleftrightarrow> m = Some x"
  by (cases m) (auto simp: ok_or_def)

lemma map_err_Inr [simp]: "map_err c (Inr x) = Inr x"
  by (simp add: map_err_def)

lemma map_err_Inl [simp]: "map_err c (Inl e) = fail c"
  by (simp add: map_err_def)

lemma map_err_eq_Inr [simp]: "map_err c m = Inr x \<longleftrightarrow> m = Inr x"
  by (cases m) (auto simp: map_err_def)

lemma is_ok_iff [simp]: "is_ok m \<longleftrightarrow> (\<exists>x. m = Inr x)"
  by (cases m) (auto simp: is_ok_def)

text \<open>The error codes an operation can return.\<close>

definition errors_in :: "string set \<Rightarrow> 'a result \<Rightarrow> bool" where
  "errors_in C m \<longleftrightarrow> (\<forall>e. m = Inl e \<longrightarrow> error_code e \<in> C)"

named_theorems errors_intro "error codes of composed operations"

lemma errors_in_Inr [errors_intro]: "errors_in C (Inr x)"
  by (simp add: errors_in_def)

lemma errors_in_fail [errors_intro]: "c \<in> C \<Longrightarrow> errors_in C (fail c)"
  by (simp add: errors_in_def fail_def)

lemma errors_in_ensure [errors_intro]: "c \<in> C \<Longrightarrow> errors_in C (ensure b c)"
  by (simp add: errors_in_def ensure_def fail_def)

lemma errors_in_ok_or [errors_intro]: "c \<in> C \<Longrightarrow> errors_in C (ok_or m c)"
  by (cases m) (simp_all add: errors_in_def fail_def)

lemma errors_in_map_err [errors_intro]: "c \<in> C \<Longrightarrow> errors_in C (map_err c m)"
  by (cases m) (simp_all add: errors_in_def fail_def)

lemma errors_in_and_then [errors_intro]:
  "errors_in C m \<Longrightarrow> (\<And>x. errors_in C (f x)) \<Longrightarrow> errors_in C (and_then m f)"
  by (cases m) (simp_all add: errors_in_def)

lemma errors_in_if [errors_intro]:
  "errors_in C m \<Longrightarrow> errors_in C n \<Longrightarrow> errors_in C (if b then m else n)"
  by simp

lemma errors_in_mono: "errors_in C m \<Longrightarrow> C \<subseteq> D \<Longrightarrow> errors_in D m"
  by (auto simp: errors_in_def)

text \<open>
  \<open>for x in xs { step(x)? }\<close> over a state: stops at the first error.
\<close>

fun fold_result :: "('s \<Rightarrow> 'a \<Rightarrow> 'e + 's) \<Rightarrow> 's \<Rightarrow> 'a list \<Rightarrow> 'e + 's" where
  "fold_result step s [] = Inr s"
| "fold_result step s (x # xs) = and_then (step s x) (\<lambda>s'. fold_result step s' xs)"

lemma fold_result_append:
  "fold_result step s (xs @ ys) = and_then (fold_result step s xs) (\<lambda>s'. fold_result step s' ys)"
  by (induction xs arbitrary: s) (auto simp: and_then_assoc)

lemma fold_result_prefix:
  "fold_result step s (xs @ ys) = Inr t \<Longrightarrow> \<exists>u. fold_result step s xs = Inr u"
  by (auto simp: fold_result_append)

fun map_result :: "('a \<Rightarrow> 'e + 'b) \<Rightarrow> 'a list \<Rightarrow> 'e + 'b list" where
  "map_result f [] = Inr []"
| "map_result f (x # xs) = and_then (f x) (\<lambda>y. and_then (map_result f xs) (\<lambda>ys. Inr (y # ys)))"

lemma map_result_Inr_iff:
  "map_result f xs = Inr ys \<longleftrightarrow> list_all2 (\<lambda>x y. f x = Inr y) xs ys"
  by (induction xs arbitrary: ys) (auto simp: list_all2_Cons1)

lemma map_result_all: "(\<And>x. x \<in> set xs \<Longrightarrow> f x = Inr (g x)) \<Longrightarrow> map_result f xs = Inr (map g xs)"
  by (induction xs) auto

lemma map_result_results: "map_result f xs = Inr ys \<Longrightarrow> (\<And>x y. f x = Inr y \<Longrightarrow> P y) \<Longrightarrow> list_all P ys"
  by (induction xs arbitrary: ys) auto

lemma map_result_fixed: "list_all (\<lambda>x. f x = Inr x) xs \<Longrightarrow> map_result f xs = Inr xs"
  by (induction xs) auto

lemma find_SomeD: "find P xs = Some x \<Longrightarrow> x \<in> set xs \<and> P x"
  by (auto simp: find_Some_iff)

section \<open>An invariant kept by a consuming loop\<close>

text \<open>
  The contract of a loop \<open>for item in items { step(item)? }\<close>: one step keeps the
  invariant. Its clients get the invariant for every state the loop passes through, and
  the states of the prefixes of an accepted input.
\<close>

locale consuming_loop =
  fixes step :: "'s \<Rightarrow> 'a \<Rightarrow> 'e + 's"
    and inv :: "'s \<Rightarrow> bool"
  assumes step_inv: "inv s \<Longrightarrow> step s x = Inr t \<Longrightarrow> inv t"
begin

lemma run_inv: "inv s \<Longrightarrow> fold_result step s xs = Inr t \<Longrightarrow> inv t"
  by (induction xs arbitrary: s) (auto dest: step_inv)

lemma prefix_inv:
  assumes "inv s" "fold_result step s (xs @ ys) = Inr t"
  shows "\<exists>u. fold_result step s xs = Inr u \<and> inv u \<and> fold_result step u ys = Inr t"
  using assms by (auto simp: fold_result_append intro: run_inv)

end

section \<open>File metadata\<close>

text \<open>What \<open>symlink_metadata\<close> or \<open>File::metadata\<close> answers.\<close>

record fs_meta =
  fm_dir :: bool
  fm_regular :: bool
  fm_links :: nat
  fm_device :: nat
  fm_inode :: nat
  fm_len :: nat
  fm_mode :: nat
  fm_modified :: "int \<times> int"
  fm_changed :: "int \<times> int"

section \<open>Slices\<close>

text \<open>\<open>&xs[a..b]\<close> for \<open>a <= b <= xs.len()\<close>.\<close>

definition slice :: "nat \<Rightarrow> nat \<Rightarrow> 'a list \<Rightarrow> 'a list" where
  "slice a b xs = take (b - a) (drop a xs)"

lemma length_slice [simp]: "length (slice a b xs) = min (b - a) (length xs - a)"
  by (auto simp: slice_def)

lemma slice_append_left: "b \<le> length xs \<Longrightarrow> slice a b (xs @ ys) = slice a b xs"
  by (auto simp: slice_def)

lemma slice_append_right:
  "length xs \<le> a \<Longrightarrow> slice a b (xs @ ys) = slice (a - length xs) (b - length xs) ys"
  by (auto simp: slice_def)

lemma slice_full: "length xs \<le> b \<Longrightarrow> slice 0 b xs = xs"
  by (simp add: slice_def)

lemma set_slice_subset: "set (slice a b xs) \<subseteq> set xs"
  unfolding slice_def by (meson order_trans set_drop_subset set_take_subset)

lemma slice_empty [simp]: "b \<le> a \<Longrightarrow> slice a b xs = []"
  by (simp add: slice_def)

lemma slice_replicate: "b \<le> n \<Longrightarrow> slice a b (replicate n x) = replicate (b - a) x"
  by (auto simp: slice_def min_def)

lemma slice_join: "a \<le> b \<Longrightarrow> b \<le> c \<Longrightarrow> slice a b xs @ slice b c xs = slice a c xs"
proof -
  assume "a \<le> b" "b \<le> c"
  then have "slice a c xs = take ((b - a) + (c - b)) (drop a xs)" by (simp add: slice_def)
  also have "\<dots> = take (b - a) (drop a xs) @ take (c - b) (drop (b - a) (drop a xs))"
    by (rule take_add)
  finally show ?thesis using \<open>a \<le> b\<close> by (simp add: slice_def add.commute)
qed

lemma slice_all: "length xs = n \<Longrightarrow> slice 0 n xs = xs"
  by (simp add: slice_def)

lemma slice_nth: "i < length xs \<Longrightarrow> slice i (Suc i) xs = [xs ! i]"
  by (simp add: slice_def take_Suc_conv_app_nth hd_drop_conv_nth take_Suc)

section \<open>Writing into a block\<close>

text \<open>\<open>h[off..off + xs.len()].copy_from_slice(xs)\<close> for a range inside \<open>h\<close>.\<close>

definition blit :: "nat \<Rightarrow> 'a list \<Rightarrow> 'a list \<Rightarrow> 'a list" where
  "blit off xs h = take off h @ xs @ drop (off + length xs) h"

lemma length_blit [simp]: "off + length xs \<le> length h \<Longrightarrow> length (blit off xs h) = length h"
  by (simp add: blit_def)

lemma slice_blit_before:
  "b \<le> off \<Longrightarrow> off \<le> length h \<Longrightarrow> slice a b (blit off xs h) = slice a b h"
  by (simp add: slice_def blit_def take_drop min_def)

lemma slice_blit_after:
  assumes "off + length xs \<le> a" "off + length xs \<le> length h"
  shows "slice a b (blit off xs h) = slice a b h"
proof -
  have "drop a (blit off xs h) = drop (a - (off + length xs)) (drop (off + length xs) h)"
    using assms by (simp add: blit_def)
  then show ?thesis using assms by (simp add: slice_def)
qed

lemma slice_blit_here:
  "off \<le> length h \<Longrightarrow> length xs = b - off \<Longrightarrow> off \<le> b \<Longrightarrow> slice off b (blit off xs h) = xs"
  by (simp add: slice_def blit_def)

lemma slice_blit_around:
  assumes "a \<le> off" "off + length xs \<le> b" "b \<le> length h"
  shows "slice a b (blit off xs h) = slice a off h @ xs @ slice (off + length xs) b h"
proof -
  have "slice a b (blit off xs h) =
      slice a off (blit off xs h) @ slice off (off + length xs) (blit off xs h) @
      slice (off + length xs) b (blit off xs h)"
    using assms by (simp add: slice_join)
  then show ?thesis
    using assms by (simp add: slice_blit_before slice_blit_after slice_blit_here)
qed

lemmas slice_blit = slice_blit_before slice_blit_after slice_blit_here

end
