(* ===== verification/Text.thy ===== *)
theory Text
  imports Prelude
begin

text \<open>
  The parts of Rust's standard text library the sources use, on UTF-8 byte strings:
  ASCII classes, \<open>from_utf8\<close>, \<open>trim\<close>, \<open>split\<close>, \<open>strip_prefix\<close>, case mapping, and the
  reading and printing of integers in base 8, 10 and 16 with the width of the target type.
\<close>

section \<open>ASCII classes of a byte\<close>

abbreviation byte_val :: "char \<Rightarrow> nat" where
  "byte_val \<equiv> of_char"

definition is_digit :: "char \<Rightarrow> bool" where
  "is_digit c \<longleftrightarrow> 48 \<le> byte_val c \<and> byte_val c \<le> 57"

definition is_lower :: "char \<Rightarrow> bool" where
  "is_lower c \<longleftrightarrow> 97 \<le> byte_val c \<and> byte_val c \<le> 122"

definition is_upper :: "char \<Rightarrow> bool" where
  "is_upper c \<longleftrightarrow> 65 \<le> byte_val c \<and> byte_val c \<le> 90"

definition is_alphanumeric :: "char \<Rightarrow> bool" where
  "is_alphanumeric c \<longleftrightarrow> is_digit c \<or> is_lower c \<or> is_upper c"

definition is_lower_hex :: "char \<Rightarrow> bool" where
  "is_lower_hex c \<longleftrightarrow> is_digit c \<or> 97 \<le> byte_val c \<and> byte_val c \<le> 102"

definition is_hexdigit :: "char \<Rightarrow> bool" where
  "is_hexdigit c \<longleftrightarrow> is_lower_hex c \<or> 65 \<le> byte_val c \<and> byte_val c \<le> 70"

definition is_octal :: "char \<Rightarrow> bool" where
  "is_octal c \<longleftrightarrow> 48 \<le> byte_val c \<and> byte_val c \<le> 55"

text \<open>\<open>u8::is_ascii_whitespace\<close>: tab, line feed, form feed, carriage return, space.\<close>

definition is_ascii_space :: "char \<Rightarrow> bool" where
  "is_ascii_space c \<longleftrightarrow> byte_val c \<in> {9, 10, 12, 13, 32}"

definition lower_byte :: "char \<Rightarrow> char" where
  "lower_byte c = (if is_upper c then char_of (byte_val c + 32) else c)"

text \<open>\<open>str::to_ascii_lowercase\<close>.\<close>

definition to_ascii_lowercase :: "string \<Rightarrow> string" where
  "to_ascii_lowercase s = map lower_byte s"

lemma byte_val_less [simp]: "byte_val c < 256"
  using of_char_mod_256 [of c, where 'a = nat] by (metis mod_less_divisor zero_less_numeral)

lemma byte_val_char_of [simp]: "n < 256 \<Longrightarrow> byte_val (char_of n) = n"
  by simp

lemma char_of_eq_iff [simp]: "m < 256 \<Longrightarrow> n < 256 \<Longrightarrow> char_of (m::nat) = char_of n \<longleftrightarrow> m = n"
  by (metis byte_val_char_of)

lemma char_eq_byte: "c = d \<longleftrightarrow> byte_val c = byte_val d"
  by simp

lemma lower_byte_idem [simp]: "lower_byte (lower_byte c) = lower_byte c"
  by (auto simp: lower_byte_def is_upper_def)

lemma to_ascii_lowercase_idem [simp]:
  "to_ascii_lowercase (to_ascii_lowercase s) = to_ascii_lowercase s"
  by (simp add: to_ascii_lowercase_def)

lemma length_to_ascii_lowercase [simp]: "length (to_ascii_lowercase s) = length s"
  by (simp add: to_ascii_lowercase_def)

lemma lower_byte_fixed: "\<not> is_upper c \<Longrightarrow> lower_byte c = c"
  by (simp add: lower_byte_def)

lemma is_lower_hex_lower_byte [simp]: "is_hexdigit c \<Longrightarrow> is_lower_hex (lower_byte c)"
  by (auto simp: lower_byte_def is_hexdigit_def is_lower_hex_def is_upper_def is_digit_def)

lemma is_lower_hex_hexdigit: "is_lower_hex c \<Longrightarrow> is_hexdigit c"
  by (simp add: is_hexdigit_def)

lemma lower_byte_lower_hex: "is_lower_hex c \<Longrightarrow> lower_byte c = c"
  by (auto simp: lower_byte_def is_lower_hex_def is_upper_def is_digit_def)

section \<open>UTF-8\<close>

definition is_cont :: "char \<Rightarrow> bool" where
  "is_cont c \<longleftrightarrow> 128 \<le> byte_val c \<and> byte_val c \<le> 191"

text \<open>\<open>std::str::from_utf8(bytes).is_ok()\<close>, by the table of well-formed byte sequences.\<close>

fun valid_utf8 :: "bytes \<Rightarrow> bool" where
  "valid_utf8 [] \<longleftrightarrow> True"
| "valid_utf8 (a # rest) \<longleftrightarrow>
     (let x = byte_val a in
      if x < 128 then valid_utf8 rest
      else (case rest of [] \<Rightarrow> False | b # r1 \<Rightarrow>
        (let y = byte_val b in
         if 194 \<le> x \<and> x \<le> 223 then is_cont b \<and> valid_utf8 r1
         else (case r1 of [] \<Rightarrow> False | c # r2 \<Rightarrow>
           if 224 \<le> x \<and> x \<le> 239
           then (if x = 224 then 160 \<le> y \<and> y \<le> 191
                 else if x = 237 then 128 \<le> y \<and> y \<le> 159 else is_cont b) \<and>
                is_cont c \<and> valid_utf8 r2
           else (case r2 of [] \<Rightarrow> False | d # r3 \<Rightarrow>
             240 \<le> x \<and> x \<le> 244 \<and>
             (if x = 240 then 144 \<le> y \<and> y \<le> 191
              else if x = 244 then 128 \<le> y \<and> y \<le> 143 else is_cont b) \<and>
             is_cont c \<and> is_cont d \<and> valid_utf8 r3)))))"

definition is_ascii :: "bytes \<Rightarrow> bool" where
  "is_ascii s \<longleftrightarrow> list_all (\<lambda>c. byte_val c < 128) s"

lemma valid_utf8_ascii: "is_ascii s \<Longrightarrow> valid_utf8 s"
  by (induction s) (auto simp: is_ascii_def Let_def)

lemma is_ascii_Cons [simp]: "is_ascii (c # s) \<longleftrightarrow> byte_val c < 128 \<and> is_ascii s"
  by (simp add: is_ascii_def)

lemma is_ascii_Nil [simp]: "is_ascii []"
  by (simp add: is_ascii_def)

lemma is_ascii_append [simp]: "is_ascii (s @ t) \<longleftrightarrow> is_ascii s \<and> is_ascii t"
  by (simp add: is_ascii_def)

lemma valid_utf8_append_ascii: "is_ascii s \<Longrightarrow> valid_utf8 (s @ t) \<longleftrightarrow> valid_utf8 t"
  by (induction s) (auto simp: Let_def)

text \<open>An ASCII byte is a boundary between characters.\<close>

lemma is_cont_ascii: "byte_val c < 128 \<Longrightarrow> \<not> is_cont c"
  by (simp add: is_cont_def)

lemma valid_utf8_at_ascii:
  "byte_val c < 128 \<Longrightarrow> valid_utf8 (a @ c # b) \<longleftrightarrow> valid_utf8 a \<and> valid_utf8 b"
proof (induction a rule: length_induct)
  case (1 a)
  then have IH: "valid_utf8 (r @ c # b) \<longleftrightarrow> valid_utf8 r \<and> valid_utf8 b"
    if "length r < length a" for r
    using that by blast
  have c: "\<not> is_cont c" using 1 by (simp add: is_cont_ascii)
  have low: "byte_val c < 128" by fact
  show ?case
  proof (cases a)
    case Nil
    then show ?thesis using low by simp
  next
    case [simp]: (Cons x a1)
    show ?thesis
    proof (cases a1)
      case [simp]: Nil
      show ?thesis using c low by (cases b; cases "tl b") (simp_all add: Let_def)
    next
      case [simp]: (Cons y a2)
      show ?thesis
      proof (cases a2)
        case [simp]: Nil
        show ?thesis using c low IH [of "[]"] IH [of a1]
          by (cases b) (simp_all add: Let_def)
      next
        case [simp]: (Cons z a3)
        show ?thesis
        proof (cases a3)
          case Nil
          then show ?thesis using c IH [of "[]"] IH [of a2] IH [of a1]
            by (simp add: Let_def)
        next
          case (Cons w a4)
          then show ?thesis using c IH [of a4] IH [of a3] IH [of a2] IH [of a1]
            by (simp add: Let_def)
        qed
      qed
    qed
  qed
qed

text \<open>
  \<open>s.chars().any(char::is_control)\<close> for valid UTF-8: the general category Cc is U+0000 to
  U+001F and U+007F to U+009F, and U+0080 to U+009F are the byte pairs C2 80 to C2 9F.
\<close>

fun has_control :: "string \<Rightarrow> bool" where
  "has_control [] \<longleftrightarrow> False"
| "has_control (c # s) \<longleftrightarrow>
     byte_val c < 32 \<or> byte_val c = 127 \<or>
     (byte_val c = 194 \<and> (case s of [] \<Rightarrow> False | d # _ \<Rightarrow> 128 \<le> byte_val d \<and> byte_val d \<le> 159)) \<or>
     has_control s"

text \<open>
  The encodings of the scalar values with the property White\_Space, which \<open>str::trim\<close>
  removes at both ends.
\<close>

definition whitespace_encodings :: "string list" where
  "whitespace_encodings = map (map char_of)
     [[9], [10], [11], [12], [13], [32], [194, 133], [194, 160 :: nat], [225, 154, 128],
      [226, 128, 128], [226, 128, 129], [226, 128, 130], [226, 128, 131], [226, 128, 132],
      [226, 128, 133], [226, 128, 134], [226, 128, 135], [226, 128, 136], [226, 128, 137],
      [226, 128, 138], [226, 128, 168], [226, 128, 169], [226, 128, 175], [226, 129, 159],
      [227, 128, 128]]"

text \<open>\<open>s.trim() == s\<close>.\<close>

definition is_trimmed :: "string \<Rightarrow> bool" where
  "is_trimmed s \<longleftrightarrow> list_all (\<lambda>w. \<not> prefix w s \<and> \<not> suffix w s) whitespace_encodings"

text \<open>
  \<open>str::to_lowercase\<close> up to non-ASCII output: the only scalar values outside ASCII whose
  lower case contains an ASCII letter are U+212A (Kelvin sign, to \<open>k\<close>) and U+0130 (to \<open>i\<close>
  and U+0307); every other one stays outside ASCII. The sources compare the result with
  ASCII literals only.
\<close>

fun to_lowercase :: "string \<Rightarrow> string" where
  "to_lowercase [] = []"
| "to_lowercase (c # s) =
     (if take 3 (c # s) = map char_of [226, 132, 170 :: nat] then CHR ''k'' # to_lowercase (drop 2 s)
      else if take 2 (c # s) = map char_of [196, 176 :: nat]
      then CHR ''i'' # char_of (204::nat) # char_of (135::nat) # to_lowercase (drop 1 s)
      else lower_byte c # to_lowercase s)"

lemma to_lowercase_ascii: "is_ascii s \<Longrightarrow> to_lowercase s = map lower_byte s"
proof (induction s)
  case (Cons c s)
  then have "c \<noteq> char_of (226::nat)" "c \<noteq> char_of (196::nat)" by (auto simp: char_eq_byte [of c])
  with Cons show ?case by simp
qed simp

lemma has_control_ascii:
  "is_ascii s \<Longrightarrow> has_control s \<longleftrightarrow> list_ex (\<lambda>c. byte_val c < 32 \<or> byte_val c = 127) s"
  by (induction s) auto

lemma suffix_last: "suffix x p \<Longrightarrow> x \<noteq> [] \<Longrightarrow> last x = last p"
  by (auto simp: suffix_def)

section \<open>Splitting and stripping\<close>

text \<open>\<open>s.split(c)\<close>: always at least one piece.\<close>

fun split_on :: "char \<Rightarrow> string \<Rightarrow> string list" where
  "split_on c [] = [[]]"
| "split_on c (x # xs) =
     (if x = c then [] # split_on c xs
      else (case split_on c xs of [] \<Rightarrow> [[x]] | p # ps \<Rightarrow> (x # p) # ps))"

fun join_with :: "char \<Rightarrow> string list \<Rightarrow> string" where
  "join_with c [] = []"
| "join_with c [p] = p"
| "join_with c (p # q # ps) = p @ c # join_with c (q # ps)"

lemma split_on_not_Nil [simp]: "split_on c s \<noteq> []"
  by (induction s) (auto split: list.splits)

lemma join_split_on [simp]: "join_with c (split_on c s) = s"
proof (induction s)
  case (Cons x xs)
  then show ?case by (cases "split_on c xs"; cases "tl (split_on c xs)") auto
qed simp

lemma split_on_pieces: "p \<in> set (split_on c s) \<Longrightarrow> c \<notin> set p"
  by (induction s arbitrary: p) (auto split: list.splits if_splits)

lemma split_on_no_sep: "c \<notin> set s \<Longrightarrow> split_on c s = [s]"
  by (induction s) auto

lemma split_on_append: "c \<notin> set p \<Longrightarrow> split_on c (p @ c # s) = p # split_on c s"
  by (induction p) auto

lemma split_on_append_sep: "split_on c (p @ c # s) = split_on c p @ split_on c s"
  by (induction p) (auto split: list.splits)

lemma split_on_join:
  "ps \<noteq> [] \<Longrightarrow> \<forall>p\<in>set ps. c \<notin> set p \<Longrightarrow> split_on c (join_with c ps) = ps"
  by (induction c ps rule: join_with.induct) (auto simp: split_on_no_sep split_on_append)

fun strip_prefix :: "string \<Rightarrow> string \<Rightarrow> string option" where
  "strip_prefix [] s = Some s"
| "strip_prefix (p # ps) [] = None"
| "strip_prefix (p # ps) (x # xs) = (if p = x then strip_prefix ps xs else None)"

lemma strip_prefix_iff [simp]: "strip_prefix p s = Some r \<longleftrightarrow> s = p @ r"
  by (induction p s rule: strip_prefix.induct) auto

lemma strip_prefix_None: "strip_prefix p s = None \<longleftrightarrow> \<not> prefix p s"
  by (induction p s rule: strip_prefix.induct) auto

lemma strip_prefix_append [simp]: "strip_prefix p (p @ r) = Some r"
  by simp

definition strip_suffix :: "string \<Rightarrow> string \<Rightarrow> string option" where
  "strip_suffix p s = map_option rev (strip_prefix (rev p) (rev s))"

lemma strip_suffix_iff [simp]: "strip_suffix p s = Some r \<longleftrightarrow> s = r @ p"
  by (auto simp: strip_suffix_def rev_swap)

text \<open>\<open>s.split_once(pat)\<close>: the first occurrence of a non-empty pattern.\<close>

fun split_once :: "string \<Rightarrow> string \<Rightarrow> (string \<times> string) option" where
  "split_once p [] = (if p = [] then Some ([], []) else None)"
| "split_once p (x # xs) =
     (case strip_prefix p (x # xs) of
        Some r \<Rightarrow> Some ([], r)
      | None \<Rightarrow> map_option (\<lambda>(a, b). (x # a, b)) (split_once p xs))"

lemma split_once_Some: "split_once p s = Some (a, b) \<Longrightarrow> s = a @ p @ b"
  by (induction s arbitrary: a b) (auto split: option.splits if_splits)

text \<open>\<open>s.rsplit_once(c)\<close>: the text before and after the last occurrence.\<close>

fun rsplit_once :: "char \<Rightarrow> string \<Rightarrow> (string \<times> string) option" where
  "rsplit_once c [] = None"
| "rsplit_once c (x # xs) =
     (case rsplit_once c xs of
        Some (a, b) \<Rightarrow> Some (x # a, b)
      | None \<Rightarrow> if x = c then Some ([], xs) else None)"

lemma rsplit_once_None [simp]: "rsplit_once c s = None \<longleftrightarrow> c \<notin> set s"
  by (induction s) (auto split: option.splits)

lemma rsplit_once_SomeD: "rsplit_once c s = Some (a, b) \<Longrightarrow> s = a @ c # b \<and> c \<notin> set b"
  by (induction s arbitrary: a b) (auto split: option.splits if_splits)

lemma rsplit_once_SomeI: "c \<notin> set b \<Longrightarrow> rsplit_once c (a @ c # b) = Some (a, b)"
  by (induction a) (auto split: option.splits dest: rsplit_once_SomeD)

lemma rsplit_once_Some_iff: "rsplit_once c s = Some (a, b) \<longleftrightarrow> s = a @ c # b \<and> c \<notin> set b"
  by (auto dest: rsplit_once_SomeD intro: rsplit_once_SomeI)

lemma rsplit_once_length: "rsplit_once c s = Some (a, b) \<Longrightarrow> length a < length s"
  by (simp add: rsplit_once_Some_iff)

section \<open>Integers as text\<close>

definition digit_val :: "char \<Rightarrow> nat" where
  "digit_val c =
     (if is_digit c then byte_val c - 48
      else if is_lower c then byte_val c - 87
      else if is_upper c then byte_val c - 55 else 36)"

definition digit_char :: "nat \<Rightarrow> char" where
  "digit_char d = char_of (if d < 10 then 48 + d else 87 + d)"

definition read_radix :: "nat \<Rightarrow> string \<Rightarrow> nat" where
  "read_radix b s = foldl (\<lambda>a c. a * b + digit_val c) 0 s"

text \<open>The digits \<open>format!("{n:o}")\<close> (base 8) and \<open>n.to_string()\<close> (base 10) print.\<close>

fun show_radix :: "nat \<Rightarrow> nat \<Rightarrow> string" where
  "show_radix b n =
     (if n < b \<or> b < 2 then [digit_char n] else show_radix b (n div b) @ [digit_char (n mod b)])"

declare show_radix.simps [simp del]

text \<open>\<open>from_str_radix\<close> of an unsigned type with largest value \<open>m\<close>: an optional plus sign,
  then at least one digit of the radix.\<close>

definition parse_uint :: "nat \<Rightarrow> nat \<Rightarrow> string \<Rightarrow> nat option" where
  "parse_uint b m s =
     (let ds = (case s of c # r \<Rightarrow> if c = CHR ''+'' then r else s | [] \<Rightarrow> [])
      in if ds \<noteq> [] \<and> list_all (\<lambda>c. digit_val c < b) ds \<and> read_radix b ds \<le> m
         then Some (read_radix b ds) else None)"

text \<open>\<open>parse\<close> of a signed type with values from \<open>- lo\<close> to \<open>hi\<close>.\<close>

definition parse_sint :: "nat \<Rightarrow> nat \<Rightarrow> string \<Rightarrow> int option" where
  "parse_sint lo hi s =
     (case s of
        [] \<Rightarrow> None
      | c # r \<Rightarrow>
          if c = CHR ''-'' then
            (if r \<noteq> [] \<and> list_all is_digit r \<and> read_radix 10 r \<le> lo
             then Some (- int (read_radix 10 r)) else None)
          else map_option int (parse_uint 10 hi s))"

abbreviation u16_max :: nat where "u16_max \<equiv> 65535"
abbreviation u32_max :: nat where "u32_max \<equiv> 4294967295"
abbreviation u64_max :: nat where "u64_max \<equiv> 18446744073709551615"
abbreviation i32_max :: nat where "i32_max \<equiv> 2147483647"
abbreviation i64_max :: nat where "i64_max \<equiv> 9223372036854775807"

definition parse_i64 :: "string \<Rightarrow> int option" where
  "parse_i64 = parse_sint (Suc i64_max) i64_max"

definition parse_i32 :: "string \<Rightarrow> int option" where
  "parse_i32 = parse_sint (Suc i32_max) i32_max"

definition show_int :: "int \<Rightarrow> string" where
  "show_int i = (if i < 0 then CHR ''-'' # show_radix 10 (nat (- i)) else show_radix 10 (nat i))"

lemma read_radix_Nil [simp]: "read_radix b [] = 0"
  by (simp add: read_radix_def)

lemma read_radix_snoc [simp]: "read_radix b (s @ [c]) = read_radix b s * b + digit_val c"
  by (simp add: read_radix_def)

lemma foldl_radix_shift:
  "foldl (\<lambda>a c. a * b + digit_val c) x s = x * b ^ length s + read_radix b s"
proof (induction s arbitrary: x rule: rev_induct)
  case (snoc c s)
  show ?case by (simp add: snoc.IH add_mult_distrib)
qed simp

lemma read_radix_append: "read_radix b (s @ t) = read_radix b s * b ^ length t + read_radix b t"
proof -
  have "read_radix b (s @ t) = foldl (\<lambda>a c. a * b + digit_val c) (read_radix b s) t"
    by (simp add: read_radix_def)
  then show ?thesis by (simp only: foldl_radix_shift)
qed

lemma read_radix_Cons: "read_radix b (c # s) = digit_val c * b ^ length s + read_radix b s"
  using read_radix_append [of b "[c]" s] by (simp add: read_radix_def)

lemma digit_val_char [simp]: "d < 36 \<Longrightarrow> digit_val (digit_char d) = d"
  by (auto simp: digit_val_def digit_char_def is_digit_def is_lower_def is_upper_def)

lemma byte_val_digit_char: "d < 10 \<Longrightarrow> byte_val (digit_char d) = 48 + d"
  by (simp add: digit_char_def)

lemma digit_char_0: "digit_char 0 = CHR ''0''"
  by (simp add: char_eq_byte [of "digit_char 0"] byte_val_digit_char del: of_char_eq_iff)

lemma digit_val_zero [simp]: "digit_val (CHR ''0'') = 0"
  by (simp add: digit_val_def is_digit_def)

lemma read_radix_zeros [simp]: "read_radix b (replicate n (CHR ''0'') @ s) = read_radix b s"
  by (induction n) (auto simp: read_radix_Cons)

lemma digit_char_less: "d < 10 \<Longrightarrow> is_digit (digit_char d)"
  by (auto simp: is_digit_def digit_char_def)

lemma show_radix_small: "n < b \<Longrightarrow> show_radix b n = [digit_char n]"
  by (subst show_radix.simps) simp

lemma show_radix_step:
  "b \<le> n \<Longrightarrow> 2 \<le> b \<Longrightarrow> show_radix b n = show_radix b (n div b) @ [digit_char (n mod b)]"
  by (subst show_radix.simps) simp

lemma read_show_radix [simp]: "2 \<le> b \<Longrightarrow> b \<le> 36 \<Longrightarrow> read_radix b (show_radix b n) = n"
proof (induction b n rule: show_radix.induct)
  case (1 b n)
  show ?case
  proof (cases "n < b")
    case True
    with 1 show ?thesis by (simp add: show_radix_small read_radix_def)
  next
    case False
    with 1 have "read_radix b (show_radix b (n div b)) = n div b" by simp
    moreover have "n mod b < 36" using 1 by (auto intro: less_le_trans [OF mod_less_divisor])
    ultimately show ?thesis using False 1 by (simp add: show_radix_step)
  qed
qed

lemma show_radix_not_Nil [simp]: "show_radix b n \<noteq> []"
  by (subst show_radix.simps) simp

lemma show_radix_digits:
  "2 \<le> b \<Longrightarrow> b \<le> 36 \<Longrightarrow> c \<in> set (show_radix b n) \<Longrightarrow> \<exists>d<b. c = digit_char d"
proof (induction b n rule: show_radix.induct)
  case (1 b n)
  show ?case
  proof (cases "n < b")
    case True
    with "1.prems"(3) show ?thesis by (auto simp: show_radix_small)
  next
    case False
    with "1.prems" have "c \<in> set (show_radix b (n div b)) \<or> c = digit_char (n mod b)"
      by (simp add: show_radix_step disj_commute)
    moreover have "n mod b < b" using "1.prems"(1) by simp
    moreover have "c \<in> set (show_radix b (n div b)) \<Longrightarrow> \<exists>d<b. c = digit_char d"
      using "1.IH" "1.prems"(1,2) False by simp
    ultimately show ?thesis by blast
  qed
qed

lemma length_show_radix_le: "2 \<le> b \<Longrightarrow> n < b ^ k \<Longrightarrow> 0 < k \<Longrightarrow> length (show_radix b n) \<le> k"
proof (induction k arbitrary: n)
  case (Suc k)
  show ?case
  proof (cases "n < b")
    case True
    then show ?thesis by (simp add: show_radix_small)
  next
    case False
    with Suc.prems have "0 < k" by (cases k) auto
    moreover from Suc.prems have "n div b < b ^ k"
      by (simp add: less_mult_imp_div_less mult.commute)
    ultimately have "length (show_radix b (n div b)) \<le> k" using Suc.IH Suc.prems(1) by blast
    with False Suc.prems(1) show ?thesis by (simp add: show_radix_step)
  qed
qed simp

lemma read_radix_upper: "list_all (\<lambda>c. digit_val c < b) s \<Longrightarrow> read_radix b s < b ^ length s"
proof (induction s rule: rev_induct)
  case (snoc c s)
  then have c: "digit_val c < b" and "read_radix b s < b ^ length s" by simp_all
  then have "Suc (read_radix b s) * b \<le> b ^ length s * b" by (intro mult_le_mono1) simp
  with c show ?case by (simp add: mult.commute)
qed simp

section \<open>Trimming\<close>

text \<open>\<open>str::trim\<close>.\<close>

lemma whitespace_not_Nil: "[] \<notin> set whitespace_encodings"
  by (simp add: whitespace_encodings_def)

lemma find_whitespace_length:
  assumes "find P whitespace_encodings = Some w"
  shows "0 < length w"
  using find_SomeD [OF assms] whitespace_not_Nil by (cases w) auto

function trim_start :: "string \<Rightarrow> string" where
  "trim_start s =
     (case find (\<lambda>w. prefix w s) whitespace_encodings of
        None \<Rightarrow> s
      | Some w \<Rightarrow> trim_start (drop (length w) s))"
  by pat_completeness auto
termination
proof (relation "measure length")
  fix s w
  assume "find (\<lambda>w. prefix w s) whitespace_encodings = Some w"
  then have "0 < length w" "length w \<le> length s"
    by (rule find_whitespace_length, auto dest: find_SomeD prefix_length_le)
  then show "(drop (length w) s, s) \<in> measure length" by (simp del: length_greater_0_conv)
qed simp

declare trim_start.simps [simp del]

function trim_end :: "string \<Rightarrow> string" where
  "trim_end s =
     (case find (\<lambda>w. suffix w s) whitespace_encodings of
        None \<Rightarrow> s
      | Some w \<Rightarrow> trim_end (take (length s - length w) s))"
  by pat_completeness auto
termination
proof (relation "measure length")
  fix s w
  assume "find (\<lambda>w. suffix w s) whitespace_encodings = Some w"
  then have "0 < length w" "length w \<le> length s"
    by (rule find_whitespace_length, auto dest: find_SomeD suffix_length_le)
  then show "(take (length s - length w) s, s) \<in> measure length"
    by (simp del: length_greater_0_conv)
qed simp

declare trim_end.simps [simp del]

definition trim :: "string \<Rightarrow> string" where
  "trim s = trim_end (trim_start s)"

section \<open>Decimal digits\<close>

lemma is_digit_not_plus: "is_digit c \<Longrightarrow> c \<noteq> CHR ''+''"
  by (auto simp: is_digit_def)

lemma is_digit_val: "is_digit c \<Longrightarrow> digit_val c < 10"
  by (auto simp: is_digit_def digit_val_def is_lower_def is_upper_def)

lemma digit_val_inj: "is_digit c \<Longrightarrow> is_digit d \<Longrightarrow> digit_val c = digit_val d \<Longrightarrow> c = d"
  by (auto simp: is_digit_def digit_val_def is_lower_def is_upper_def char_eq_byte simp del: of_char_eq_iff)

lemma read_radix_inj:
  "length s = length t \<Longrightarrow> list_all is_digit s \<Longrightarrow> list_all is_digit t \<Longrightarrow> read_radix 10 s = read_radix 10 t \<Longrightarrow> s = t"
proof (induction s arbitrary: t rule: rev_induct)
  case (snoc c s)
  then obtain t' d where t: "t = t' @ [d]" by (cases t rule: rev_cases) auto
  have "digit_val c < 10" "digit_val d < 10" using snoc.prems t by (auto intro: is_digit_val)
  moreover have "read_radix 10 s * 10 + digit_val c = read_radix 10 t' * 10 + digit_val d"
    using snoc.prems t by simp
  ultimately have "read_radix 10 s = read_radix 10 t'" "digit_val c = digit_val d" by presburger+
  then show ?case using snoc t digit_val_inj by auto
qed simp

lemma show_radix_is_digit: "list_all is_digit (show_radix 10 n)"
  using show_radix_digits [of 10 _ n] digit_char_less by (fastforce simp: list_all_iff)

lemma parse_uint_digits:
  "list_all is_digit s \<Longrightarrow> s \<noteq> [] \<Longrightarrow> parse_uint 10 m s = (if read_radix 10 s \<le> m then Some (read_radix 10 s) else None)"
  using is_digit_not_plus [of "hd s"] is_digit_val
  by (auto simp: parse_uint_def Let_def list_all_iff split: list.splits)

lemma show_radix_leading:
  "2 \<le> b \<Longrightarrow> b \<le> 36 \<Longrightarrow> hd (show_radix b n) = CHR ''0'' \<Longrightarrow> length (show_radix b n) = 1"
proof (induction b n rule: show_radix.induct)
  case (1 b n)
  show ?case
  proof (cases "n < b")
    case False
    then have "hd (show_radix b (n div b)) = CHR ''0''" using 1 by (simp add: show_radix_step)
    then have "length (show_radix b (n div b)) = 1" using 1 False by simp
    then obtain c where "show_radix b (n div b) = [c]" by (auto simp: length_Suc_conv)
    then have "show_radix b (n div b) = ''0''"
      using \<open>hd (show_radix b (n div b)) = CHR ''0''\<close> by simp
    then have "n div b = 0" using read_show_radix [of b "n div b"] 1 by (simp add: read_radix_def)
    then show ?thesis using False 1 by (simp add: div_eq_0_iff)
  qed (simp add: show_radix_small)
qed

lemma digit_char_val: "is_digit c \<Longrightarrow> digit_char (digit_val c) = c"
  using is_digit_val [of c] by (intro digit_val_inj) (simp_all add: digit_char_less)

text \<open>A digit text without leading zeros is what its value prints as.\<close>

lemma show_read_decimal:
  "list_all is_digit s \<Longrightarrow> s \<noteq> [] \<Longrightarrow> hd s \<noteq> CHR ''0'' \<or> s = ''0'' \<Longrightarrow> show_radix 10 (read_radix 10 s) = s"
proof (induction s rule: rev_induct)
  case (snoc c s)
  show ?case
  proof (cases "s = []")
    case True
    then show ?thesis using snoc.prems is_digit_val by (simp add: read_radix_def show_radix_small digit_char_val)
  next
    case False
    then have h: "hd s \<noteq> CHR ''0''" using snoc.prems by (cases s) auto
    then have IH: "show_radix 10 (read_radix 10 s) = s" using snoc False by simp
    have "read_radix 10 s \<noteq> 0"
    proof
      assume "read_radix 10 s = 0"
      then have "s = [digit_char 0]" using IH by (simp add: show_radix_small)
      then show False using h by (simp add: digit_char_0)
    qed
    moreover have "digit_val c < 10" using snoc.prems by (auto intro: is_digit_val)
    ultimately show ?thesis using IH snoc.prems by (simp add: show_radix_step digit_char_val)
  qed
qed simp

text \<open>Among digit texts of one length the lexicographic order is the numeric one.\<close>

lemma read_decimal_mono:
  "length s = length t \<Longrightarrow> list_all is_digit s \<Longrightarrow> list_all is_digit t \<Longrightarrow>
     (s, t) \<in> lexord {(x, y). byte_val x < byte_val y} \<longleftrightarrow> read_radix 10 s < read_radix 10 t"
proof (induction s t rule: list_induct2)
  case (Cons x s y t)
  have v: "byte_val z = 48 + digit_val z" if "is_digit z" for z
    using that by (auto simp: is_digit_def digit_val_def)
  have "read_radix 10 z < 10 ^ length z" if "list_all is_digit z" for z
    by (rule read_radix_upper) (use that is_digit_val in \<open>simp add: list_all_iff\<close>)
  then have "read_radix 10 s < 10 ^ length s" "read_radix 10 t < 10 ^ length t"
    using Cons.prems by auto
  moreover have "x = y \<longleftrightarrow> digit_val x = digit_val y" using Cons.prems digit_val_inj by auto
  moreover have "byte_val x < byte_val y \<longleftrightarrow> digit_val x < digit_val y" "byte_val y < byte_val x \<longleftrightarrow> digit_val y < digit_val x"
    using Cons.prems v by simp_all
  moreover have "digit_val x < digit_val y \<Longrightarrow> digit_val x * 10 ^ length s + 10 ^ length s \<le> digit_val y * 10 ^ length s"
    "digit_val y < digit_val x \<Longrightarrow> digit_val y * 10 ^ length s + 10 ^ length s \<le> digit_val x * 10 ^ length s"
    by (metis Suc_leI add.commute mult_Suc mult_le_mono1)+
  ultimately show ?case
    using Cons by (cases "digit_val x" "digit_val y" rule: linorder_cases) (auto simp: read_radix_Cons)
qed simp

end
