(* ===== verification/Json.thy ===== *)
theory Json
  imports Text
begin

text \<open>
  JSON values and the strict decoders (\<open>artifact/json.rs\<close>, \<open>engine/json.rs\<close>, the
  \<open>NullableSeed\<close> of \<open>engine/runtime_result.rs\<close>).

  The tokenizer of \<open>serde_json\<close> is not part of the repository: it is the parameter \<open>parse\<close>,
  which gives the syntax tree of exactly one document (with duplicate keys and nulls still in
  it) or \<open>None\<close>. The seeds, which are the repository's own visitors, then walk that tree. A
  \<open>serde_json::Map\<close> is only ever read by key, so an object stays an association list.
  Decoding a value into a struct follows what \<open>#[derive(Deserialize)]\<close> generates: an object
  with exactly the declared fields, or an array with the fields in order.
\<close>

datatype json =
  JNull
| JBool bool
| JInt int
| JFloat string
| JStr string
| JArr "json list"
| JObj "(string \<times> json) list"

section \<open>Seeds\<close>

record seed =
  max_depth :: nat
  allow_null :: bool
  allow_float :: bool

fun seed_value :: "seed \<Rightarrow> nat \<Rightarrow> json \<Rightarrow> json option"
  and seed_items :: "seed \<Rightarrow> nat \<Rightarrow> json list \<Rightarrow> json list option"
  and seed_entries :: "seed \<Rightarrow> nat \<Rightarrow> string list \<Rightarrow> (string \<times> json) list \<Rightarrow> (string \<times> json) list option"
where
  "seed_value p d JNull = (if d \<le> max_depth p \<and> allow_null p then Some JNull else None)"
| "seed_value p d (JBool b) = (if d \<le> max_depth p then Some (JBool b) else None)"
| "seed_value p d (JInt i) = (if d \<le> max_depth p then Some (JInt i) else None)"
| "seed_value p d (JFloat x) = (if d \<le> max_depth p \<and> allow_float p then Some (JFloat x) else None)"
| "seed_value p d (JStr s) = (if d \<le> max_depth p then Some (JStr s) else None)"
| "seed_value p d (JArr vs) =
     (if d \<le> max_depth p then map_option JArr (seed_items p (Suc d) vs) else None)"
| "seed_value p d (JObj es) =
     (if d \<le> max_depth p then map_option JObj (seed_entries p (Suc d) [] es) else None)"
| "seed_items p d [] = Some []"
| "seed_items p d (v # vs) =
     do { w \<leftarrow> seed_value p d v; ws \<leftarrow> seed_items p d vs; Some (w # ws) }"
| "seed_entries p d seen [] = Some []"
| "seed_entries p d seen ((k, v) # es) =
     (if k \<in> set seen then None
      else do { w \<leftarrow> seed_value p d v; ws \<leftarrow> seed_entries p d (k # seen) es; Some ((k, w) # ws) })"

definition artifact_seed :: seed where
  "artifact_seed = \<lparr>max_depth = 32, allow_null = False, allow_float = True\<rparr>"

definition engine_seed :: seed where
  "engine_seed = \<lparr>max_depth = 16, allow_null = False, allow_float = True\<rparr>"

definition nullable_seed :: seed where
  "nullable_seed = \<lparr>max_depth = 16, allow_null = True, allow_float = False\<rparr>"

subsection \<open>What a seed admits\<close>

fun json_height :: "json \<Rightarrow> nat" where
  "json_height (JArr vs) = (if vs = [] then 0 else Suc (Max (set (map json_height vs))))"
| "json_height (JObj es) = (if es = [] then 0 else Suc (Max (set (map (\<lambda>e. json_height (snd e)) es))))"
| "json_height _ = 0"

fun unique_keys :: "json \<Rightarrow> bool" where
  "unique_keys (JArr vs) \<longleftrightarrow> list_all unique_keys vs"
| "unique_keys (JObj es) \<longleftrightarrow> distinct (map fst es) \<and> list_all (\<lambda>e. unique_keys (snd e)) es"
| "unique_keys _ \<longleftrightarrow> True"

fun has_null :: "json \<Rightarrow> bool" where
  "has_null JNull \<longleftrightarrow> True"
| "has_null (JArr vs) \<longleftrightarrow> list_ex has_null vs"
| "has_null (JObj es) \<longleftrightarrow> list_ex (\<lambda>e. has_null (snd e)) es"
| "has_null _ \<longleftrightarrow> False"

fun has_float :: "json \<Rightarrow> bool" where
  "has_float (JFloat x) \<longleftrightarrow> True"
| "has_float (JArr vs) \<longleftrightarrow> list_ex has_float vs"
| "has_float (JObj es) \<longleftrightarrow> list_ex (\<lambda>e. has_float (snd e)) es"
| "has_float _ \<longleftrightarrow> False"

definition admits :: "seed \<Rightarrow> nat \<Rightarrow> json \<Rightarrow> bool" where
  "admits p d v \<longleftrightarrow> d + json_height v \<le> max_depth p \<and> unique_keys v \<and>
     (has_null v \<longrightarrow> allow_null p) \<and> (has_float v \<longrightarrow> allow_float p)"

lemma Suc_add_Max_le:
  "finite S \<Longrightarrow> S \<noteq> {} \<Longrightarrow> Suc (d + Max S) \<le> m \<longleftrightarrow> (\<forall>x\<in>S. Suc (d + x) \<le> m)"
  by (meson Max_ge Max_in Suc_le_mono add_le_mono le_refl order_trans)

lemma height_bound:
  assumes "finite S" "S \<noteq> {}"
  shows "Suc (d + Max (f ` S)) \<le> m \<longleftrightarrow> d \<le> m \<and> (\<forall>x\<in>S. Suc (d + f x) \<le> m)"
proof -
  have "Suc (d + Max (f ` S)) \<le> m \<longleftrightarrow> (\<forall>x\<in>S. Suc (d + f x) \<le> m)"
    using assms by (subst Suc_add_Max_le) auto
  moreover from assms obtain a where "a \<in> S" by blast
  ultimately show ?thesis by (meson Suc_leD add_leD1)
qed

lemma admits_JArr:
  "admits p d (JArr vs) \<longleftrightarrow> d \<le> max_depth p \<and> list_all (admits p (Suc d)) vs"
  by (cases "vs = []") (auto simp: admits_def list_all_iff list_ex_iff height_bound)

lemma admits_JObj:
  "admits p d (JObj es) \<longleftrightarrow>
     d \<le> max_depth p \<and> distinct (map fst es) \<and> list_all (\<lambda>e. admits p (Suc d) (snd e)) es"
  by (cases "es = []") (auto simp: admits_def list_all_iff list_ex_iff height_bound)

lemma seed_admits:
  "seed_value p d v = Some w \<longleftrightarrow> w = v \<and> admits p d v"
  "seed_items p d vs = Some ws \<longleftrightarrow> ws = vs \<and> list_all (admits p d) vs"
  "seed_entries p d seen es = Some xs \<longleftrightarrow>
     xs = es \<and> distinct (map fst es) \<and> set seen \<inter> fst ` set es = {} \<and>
     list_all (\<lambda>e. admits p d (snd e)) es"
proof (induction p d v and p d vs and p d seen es arbitrary: w and ws and xs
    rule: seed_value_seed_items_seed_entries.induct)
  case (6 p d vs)
  then show ?case by (auto simp: admits_JArr)
next
  case (7 p d es)
  then show ?case by (auto simp: admits_JObj)
next
  case (9 p d v vs)
  then show ?case by (auto simp: bind_eq_Some_conv)
next
  case (11 p d seen k v es)
  then show ?case by (auto simp: bind_eq_Some_conv)
qed (auto simp: admits_def)

lemma seed_value_eq: "seed_value p d v = (if admits p d v then Some v else None)"
  using seed_admits(1) [of p d v] by (cases "seed_value p d v") auto

section \<open>The decoders\<close>

definition max_manifest_bytes :: nat where
  "max_manifest_bytes = 1048576"

definition decode_strict_json ::
    "(bytes \<Rightarrow> json option) \<Rightarrow> (json \<Rightarrow> 'a option) \<Rightarrow> bytes \<Rightarrow> 'a result" where
  "decode_strict_json parse typed data =
     and_then (ensure (\<not> (data = [] \<or> max_manifest_bytes < length data \<or> \<not> valid_utf8 data))
                 ''JSON_INVALID'') (\<lambda>_.
     and_then (ok_or (Option.bind (parse data) (seed_value artifact_seed 0)) ''JSON_INVALID'')
       (\<lambda>v. ok_or (typed v) ''JSON_INVALID''))"

definition engine_decode :: "(bytes \<Rightarrow> json option) \<Rightarrow> (json \<Rightarrow> 'a option) \<Rightarrow> bytes \<Rightarrow> 'a option" where
  "engine_decode parse typed raw =
     (if raw = [] \<or> 262144 < length raw then None
      else do { v \<leftarrow> parse raw; w \<leftarrow> seed_value engine_seed 0 v; typed w })"

lemma decode_strict_json_iff:
  "decode_strict_json parse typed data = Inr x \<longleftrightarrow>
     data \<noteq> [] \<and> length data \<le> max_manifest_bytes \<and> valid_utf8 data \<and>
     (\<exists>v. parse data = Some v \<and> admits artifact_seed 0 v \<and> typed v = Some x)"
  by (auto simp: decode_strict_json_def seed_value_eq bind_eq_Some_conv)

lemma engine_decode_iff:
  "engine_decode parse typed raw = Some x \<longleftrightarrow>
     raw \<noteq> [] \<and> length raw \<le> 262144 \<and>
     (\<exists>v. parse raw = Some v \<and> admits engine_seed 0 v \<and> typed v = Some x)"
  by (auto simp: engine_decode_def seed_value_eq bind_eq_Some_conv)

section \<open>Derived struct decoding\<close>

text \<open>
  \<open>req\<close> are the fields a struct declares, \<open>opt\<close> the trailing ones with a serde default. The
  fields of an object may come in any order and none may be unknown; an array gives them by
  position.
\<close>

definition struct_fields :: "string list \<Rightarrow> string list \<Rightarrow> json \<Rightarrow> (string \<rightharpoonup> json) option" where
  "struct_fields req opt v =
     (case v of
        JObj es \<Rightarrow>
          if distinct (map fst es) \<and> set req \<subseteq> fst ` set es \<and> fst ` set es \<subseteq> set (req @ opt)
          then Some (map_of es) else None
      | JArr vs \<Rightarrow>
          if length req \<le> length vs \<and> length vs \<le> length (req @ opt)
          then Some (map_of (zip (req @ opt) vs)) else None
      | _ \<Rightarrow> None)"

definition get_str :: "(string \<rightharpoonup> json) \<Rightarrow> string \<Rightarrow> string option" where
  "get_str m k = (case m k of Some (JStr s) \<Rightarrow> Some s | _ \<Rightarrow> None)"

definition get_bool :: "(string \<rightharpoonup> json) \<Rightarrow> string \<Rightarrow> bool option" where
  "get_bool m k = (case m k of Some (JBool b) \<Rightarrow> Some b | _ \<Rightarrow> None)"

definition get_uint :: "nat \<Rightarrow> (string \<rightharpoonup> json) \<Rightarrow> string \<Rightarrow> nat option" where
  "get_uint mx m k =
     (case m k of Some (JInt i) \<Rightarrow> if 0 \<le> i \<and> i \<le> int mx then Some (nat i) else None | _ \<Rightarrow> None)"

definition get_i64 :: "(string \<rightharpoonup> json) \<Rightarrow> string \<Rightarrow> int option" where
  "get_i64 m k =
     (case m k of Some (JInt i) \<Rightarrow>
        if - 9223372036854775808 \<le> i \<and> i \<le> 9223372036854775807 then Some i else None
      | _ \<Rightarrow> None)"

fun map_opt :: "('a \<Rightarrow> 'b option) \<Rightarrow> 'a list \<Rightarrow> 'b list option" where
  "map_opt f [] = Some []"
| "map_opt f (x # xs) = do { y \<leftarrow> f x; ys \<leftarrow> map_opt f xs; Some (y # ys) }"

text \<open>A \<open>Vec\<close> field; \<open>absent\<close> is the value of a missing field with a default.\<close>

definition get_vec :: "(json \<Rightarrow> 'a option) \<Rightarrow> 'a list option \<Rightarrow> (string \<rightharpoonup> json) \<Rightarrow> string \<Rightarrow> 'a list option" where
  "get_vec f absent m k =
     (case m k of None \<Rightarrow> absent | Some (JArr vs) \<Rightarrow> map_opt f vs | Some _ \<Rightarrow> None)"

definition as_str :: "json \<Rightarrow> string option" where
  "as_str v = (case v of JStr s \<Rightarrow> Some s | _ \<Rightarrow> None)"

definition as_bool :: "json \<Rightarrow> bool option" where
  "as_bool v = (case v of JBool b \<Rightarrow> Some b | _ \<Rightarrow> None)"

text \<open>An optional field, and how it is written when \<open>None\<close> is skipped.\<close>

definition get_opt :: "(json \<Rightarrow> 'a option) \<Rightarrow> (string \<rightharpoonup> json) \<Rightarrow> string \<Rightarrow> 'a option option" where
  "get_opt f m k = (case m k of None \<Rightarrow> Some None | Some v \<Rightarrow> map_option Some (f v))"

definition opt_field :: "string \<Rightarrow> ('a \<Rightarrow> json) \<Rightarrow> 'a option \<Rightarrow> (string \<times> json) list" where
  "opt_field k f x = (case x of None \<Rightarrow> [] | Some y \<Rightarrow> [(k, f y)])"

text \<open>\<open>Value::as_object\<close> together with the exact key set, as the consumers' \<open>object\<close> checks it.\<close>

definition exact_object :: "json \<Rightarrow> string list \<Rightarrow> (string \<rightharpoonup> json) option" where
  "exact_object v keys =
     (case v of
        JObj es \<Rightarrow>
          if length es = length keys \<and> list_all (\<lambda>k. k \<in> fst ` set es) keys
          then Some (map_of es) else None
      | _ \<Rightarrow> None)"

lemma as_str_Some [simp]: "as_str v = Some s \<longleftrightarrow> v = JStr s"
  by (auto simp: as_str_def split: json.splits)

lemma as_bool_Some [simp]: "as_bool v = Some b \<longleftrightarrow> v = JBool b"
  by (auto simp: as_bool_def split: json.splits)

lemma get_str_Some [simp]: "get_str m k = Some s \<longleftrightarrow> m k = Some (JStr s)"
  by (auto simp: get_str_def split: option.splits json.splits)

lemma get_bool_Some [simp]: "get_bool m k = Some b \<longleftrightarrow> m k = Some (JBool b)"
  by (auto simp: get_bool_def split: option.splits json.splits)

lemma get_uint_Some: "get_uint mx m k = Some n \<longleftrightarrow> m k = Some (JInt (int n)) \<and> n \<le> mx"
  by (auto simp: get_uint_def split: option.splits json.splits if_splits)

lemma exact_object_not_JObj: "exact_object v keys = Some m \<Longrightarrow> \<exists>es. v = JObj es \<and> m = map_of es"
  by (auto simp: exact_object_def split: json.splits if_splits)

lemma exact_object_dom:
  assumes "exact_object v keys = Some m" and "k \<in> set keys"
  shows "\<exists>w. m k = Some w"
proof -
  from assms obtain es where "m = map_of es" "k \<in> fst ` set es"
    by (auto simp: exact_object_def list_all_iff split: json.splits if_splits)
  then show ?thesis by (cases "map_of es k") (auto simp: map_of_eq_None_iff)
qed

lemma exact_object_keys:
  assumes "exact_object (JObj es) keys = Some m" "distinct (map fst es)" "distinct keys"
  shows "set (map fst es) = set keys"
proof -
  have "length es = length keys" "set keys \<subseteq> set (map fst es)"
    using assms(1) by (auto simp: exact_object_def list_all_iff split: if_splits)
  moreover have "card (set (map fst es)) = length es" "card (set keys) = length keys"
    using assms(2,3) distinct_card by fastforce+
  ultimately show ?thesis by (metis card_subset_eq finite_set)
qed

lemma map_opt_Some_iff: "map_opt f xs = Some ys \<longleftrightarrow> list_all2 (\<lambda>x y. f x = Some y) xs ys"
  by (induction xs arbitrary: ys) (auto simp: list_all2_Cons1 bind_eq_Some_conv)

end
