(* ===== verification/Package.thy ===== *)
theory Package
  imports Json
begin

text \<open>
  The package manifest and its checks (\<open>src/src/artifact/types.rs\<close>): the path policy
  \<open>validate_path\<close> and the manifest policy \<open>validate_manifest\<close>, each with the declarative
  condition it decides. \<open>u64\<close> sizes are naturals: the size test of every entry comes before
  the addition, so no sum leaves the type (\<open>check_manifest_files_total\<close>).
\<close>

section \<open>Data\<close>

record file_entry =
  file_path :: string
  file_size :: nat
  file_sha256 :: string
  file_mode :: nat

record product =
  product_name :: string
  product_version :: string
  product_revision :: string

record platform =
  platform_os :: string
  platform_arch :: string
  platform_libc :: string
  platform_min_glibc :: string
  platform_java_major :: nat
  platform_backend :: string

record pkg_engine =
  engine_revision :: string
  engine_jar_sha256 :: string
  engine_contract_status :: string
  engine_contract_revision :: string

record pkg_runtime =
  runtime_vendor :: string
  runtime_version :: string
  runtime_java_sha256 :: string

record manifest =
  schema_version :: nat
  kind :: string
  product :: product
  channel :: string
  platform :: platform
  engine :: pkg_engine
  runtime :: pkg_runtime
  files :: "file_entry list"

definition max_archive_bytes :: nat where "max_archive_bytes = 1073741824"
definition max_total_bytes :: nat where "max_total_bytes = 4294967296"
definition max_file_bytes :: nat where "max_file_bytes = 536870912"
definition max_files :: nat where "max_files = 10000"

text \<open>The modes \<open>0o644\<close> and \<open>0o755\<close>.\<close>

abbreviation mode_644 :: nat where "mode_644 \<equiv> 420"
abbreviation mode_755 :: nat where "mode_755 \<equiv> 493"

section \<open>Typed decoding\<close>

definition file_entry_of_json :: "json \<Rightarrow> file_entry option" where
  "file_entry_of_json v =
     do { m \<leftarrow> struct_fields [''path'', ''size'', ''sha256'', ''mode''] [] v;
          p \<leftarrow> get_str m ''path''; s \<leftarrow> get_uint u64_max m ''size'';
          h \<leftarrow> get_str m ''sha256''; md \<leftarrow> get_uint u32_max m ''mode'';
          Some \<lparr>file_path = p, file_size = s, file_sha256 = h, file_mode = md\<rparr> }"

definition product_of_json :: "json \<Rightarrow> product option" where
  "product_of_json v =
     do { m \<leftarrow> struct_fields [''name'', ''version'', ''revision''] [] v;
          n \<leftarrow> get_str m ''name''; ver \<leftarrow> get_str m ''version''; r \<leftarrow> get_str m ''revision'';
          Some \<lparr>product_name = n, product_version = ver, product_revision = r\<rparr> }"

definition platform_of_json :: "json \<Rightarrow> platform option" where
  "platform_of_json v =
     do { m \<leftarrow> struct_fields [''os'', ''arch'', ''libc'', ''minGlibc'', ''javaMajor'', ''backend''] [] v;
          os \<leftarrow> get_str m ''os''; arch \<leftarrow> get_str m ''arch''; lc \<leftarrow> get_str m ''libc'';
          mg \<leftarrow> get_str m ''minGlibc''; jm \<leftarrow> get_uint u32_max m ''javaMajor'';
          b \<leftarrow> get_str m ''backend'';
          Some \<lparr>platform_os = os, platform_arch = arch, platform_libc = lc,
                platform_min_glibc = mg, platform_java_major = jm, platform_backend = b\<rparr> }"

definition pkg_engine_of_json :: "json \<Rightarrow> pkg_engine option" where
  "pkg_engine_of_json v =
     do { m \<leftarrow> struct_fields [''revision'', ''jarSha256'', ''contractStatus'', ''contractRevision''] [] v;
          r \<leftarrow> get_str m ''revision''; j \<leftarrow> get_str m ''jarSha256'';
          cs \<leftarrow> get_str m ''contractStatus''; cr \<leftarrow> get_str m ''contractRevision'';
          Some \<lparr>engine_revision = r, engine_jar_sha256 = j, engine_contract_status = cs,
                engine_contract_revision = cr\<rparr> }"

definition pkg_runtime_of_json :: "json \<Rightarrow> pkg_runtime option" where
  "pkg_runtime_of_json v =
     do { m \<leftarrow> struct_fields [''vendor'', ''version'', ''javaSha256''] [] v;
          vd \<leftarrow> get_str m ''vendor''; ver \<leftarrow> get_str m ''version''; j \<leftarrow> get_str m ''javaSha256'';
          Some \<lparr>runtime_vendor = vd, runtime_version = ver, runtime_java_sha256 = j\<rparr> }"

text \<open>\<open>files\<close> is the only field with a default (\<open>#[serde(default)]\<close>).\<close>

definition manifest_of_json :: "json \<Rightarrow> manifest option" where
  "manifest_of_json v =
     do { m \<leftarrow> struct_fields [''schemaVersion'', ''kind'', ''product'', ''channel'', ''platform'',
                             ''engine'', ''runtime''] [''files''] v;
          sv \<leftarrow> get_uint u32_max m ''schemaVersion''; k \<leftarrow> get_str m ''kind'';
          p \<leftarrow> Option.bind (m ''product'') product_of_json; c \<leftarrow> get_str m ''channel'';
          pf \<leftarrow> Option.bind (m ''platform'') platform_of_json;
          e \<leftarrow> Option.bind (m ''engine'') pkg_engine_of_json;
          r \<leftarrow> Option.bind (m ''runtime'') pkg_runtime_of_json;
          fs \<leftarrow> get_vec file_entry_of_json (Some []) m ''files'';
          Some \<lparr>schema_version = sv, kind = k, product = p, channel = c, platform = pf,
                engine = e, runtime = r, files = fs\<rparr> }"

section \<open>Field syntax\<close>

definition hash_string :: "string \<Rightarrow> nat \<Rightarrow> bool" where
  "hash_string s n \<longleftrightarrow> length s = n \<and> list_all is_lower_hex s"

definition label :: "string \<Rightarrow> bool" where
  "label s \<longleftrightarrow> s \<noteq> [] \<and> length s \<le> 128 \<and> is_trimmed s \<and> \<not> has_control s"

section \<open>Paths\<close>

definition path_roots :: "string list" where
  "path_roots = [''bin'', ''engine'', ''runtime'', ''deploy'', ''schemas'', ''docs'', ''licenses'']"

definition forbidden_parts :: "string list" where
  "forbidden_parts = [''.git'', ''node_modules'', ''secret'', ''secrets'', ''key'', ''keys'', ''db'',
     ''data'', ''wal'', ''credentials'', ''passwords'']"

definition forbidden_suffixes :: "string list" where
  "forbidden_suffixes = [''.key'', ''.pem'', ''.p12'', ''.pfx'', ''.jks'', ''.db'', ''.wal'', ''.env'']"

abbreviation slash :: char where "slash \<equiv> CHR ''/''"
abbreviation NUL :: char where "NUL \<equiv> CHR 0x00"

definition validate_path :: "string \<Rightarrow> unit result" where
  "validate_path p =
     and_then (ensure (\<not> (p = [] \<or> 255 < length p \<or>
                 list_ex (\<lambda>c. c \<in> {CHR 0x5C, CHR '':'', NUL}) p \<or>
                 prefix ''/'' p \<or> suffix ''/'' p \<or> has_control p)) ''PATH_INVALID'') (\<lambda>_.
     let parts = split_on slash p in
     and_then (ensure (\<not> (length parts < 2 \<or> 100 < length (last parts) \<or>
                 list_ex (\<lambda>s. s = [] \<or> s = ''.'' \<or> s = ''..'') parts)) ''PATH_INVALID'') (\<lambda>_.
     and_then (ensure (List.member path_roots (hd parts)) ''PATH_INVALID'') (\<lambda>_.
     and_then (ensure (\<not> (hd parts = ''bin'' \<and> p \<noteq> ''bin/bxdl'' \<or>
                 hd parts = ''engine'' \<and> p \<noteq> ''engine/nigo-node.jar'')) ''PATH_INVALID'') (\<lambda>_.
     and_then (ensure (\<not> list_ex (\<lambda>s. List.member forbidden_parts (to_lowercase s)) parts)
                 ''PATH_FORBIDDEN'') (\<lambda>_.
     ensure (\<not> list_ex (\<lambda>x. suffix x (to_lowercase p)) forbidden_suffixes) ''PATH_FORBIDDEN'')))))"

text \<open>What an accepted path looks like.\<close>

definition clean_parts :: "string list \<Rightarrow> bool" where
  "clean_parts ps \<longleftrightarrow> 2 \<le> length ps \<and> length (last ps) \<le> 100 \<and> hd ps \<in> set path_roots \<and>
     (\<forall>s\<in>set ps. s \<noteq> [] \<and> s \<noteq> ''.'' \<and> s \<noteq> ''..'' \<and> slash \<notin> set s \<and>
        to_lowercase s \<notin> set forbidden_parts)"

lemma validate_path_parts:
  assumes "validate_path p = Inr ()"
  shows "clean_parts (split_on slash p) \<and> join_with slash (split_on slash p) = p \<and>
    length p \<le> 255 \<and> NUL \<notin> set p \<and> \<not> has_control p"
proof -
  from assms have *: "2 \<le> length (split_on slash p)" "length (last (split_on slash p)) \<le> 100"
    "hd (split_on slash p) \<in> set path_roots"
    "\<forall>s\<in>set (split_on slash p). s \<noteq> [] \<and> s \<noteq> ''.'' \<and> s \<noteq> ''..''"
    "\<forall>s\<in>set (split_on slash p). to_lowercase s \<notin> set forbidden_parts"
    "length p \<le> 255" "\<not> has_control p"
    by (simp_all add: validate_path_def Let_def list_ex_iff not_less)
  moreover from assms have "NUL \<notin> set p"
    by (simp add: validate_path_def Let_def list_ex_iff) blast
  ultimately show ?thesis
    by (auto simp: clean_parts_def dest: split_on_pieces)
qed

lemma validate_path_errors:
  "{''PATH_INVALID'', ''PATH_FORBIDDEN''} \<subseteq> C \<Longrightarrow> errors_in C (validate_path p)"
  unfolding validate_path_def Let_def
  by (intro errors_intro; simp)

text \<open>The length tests of the first two guards do not give a path a USTAR encoding: see
  \<open>Ustar.validate_path_not_encodable\<close>.\<close>

section \<open>Inventory\<close>

text \<open>The entries seen so far, newest first, and the sum of their sizes.\<close>

fun check_manifest_files :: "file_entry list \<Rightarrow> nat \<Rightarrow> file_entry list \<Rightarrow> (file_entry list \<times> nat) result" where
  "check_manifest_files seen tot [] = Inr (seen, tot)"
| "check_manifest_files seen tot (f # fs) =
     and_then (validate_path (file_path f)) (\<lambda>_.
     and_then (ensure (\<not> list_ex (\<lambda>g. file_path g = file_path f) seen) ''INVENTORY_DUPLICATE'') (\<lambda>_.
     and_then (ensure (\<not> (max_file_bytes < file_size f \<or> max_total_bytes - file_size f < tot))
                 ''LIMIT_EXCEEDED'') (\<lambda>_.
     and_then (ensure (hash_string (file_sha256 f) 64 \<and> file_mode f \<in> {mode_644, mode_755})
                 ''MANIFEST_INVALID'') (\<lambda>_.
     check_manifest_files (f # seen) (tot + file_size f) fs))))"

text \<open>\<open>while let Some((prefix, _)) = parent.rsplit_once('/')\<close>.\<close>

function parent_listed :: "string list \<Rightarrow> string \<Rightarrow> bool" where
  "parent_listed names parent =
     (case rsplit_once slash parent of
        None \<Rightarrow> False
      | Some (pre, _) \<Rightarrow> List.member names pre \<or> parent_listed names pre)"
  by pat_completeness auto
termination
  by (relation "measure (\<lambda>(names, parent). length parent)") (auto dest: rsplit_once_length)

declare parent_listed.simps [simp del]

definition lookup_file :: "string \<Rightarrow> file_entry list \<Rightarrow> file_entry option" where
  "lookup_file p fs = find (\<lambda>f. file_path f = p) fs"

definition required_files :: "string list" where
  "required_files = [''bin/bxdl'', ''engine/nigo-node.jar'', ''runtime/bin/java'',
     ''licenses/THIRD_PARTY_NOTICES'', ''licenses/SBOM.json'']"

definition file_mode_of :: "string \<Rightarrow> file_entry list \<Rightarrow> nat option" where
  "file_mode_of p fs = map_option file_mode (lookup_file p fs)"

definition file_hash_of :: "string \<Rightarrow> file_entry list \<Rightarrow> string option" where
  "file_hash_of p fs = map_option file_sha256 (lookup_file p fs)"

definition validate_manifest :: "manifest \<Rightarrow> bool \<Rightarrow> unit result" where
  "validate_manifest m complete =
     and_then (ensure (\<not> (schema_version m \<noteq> 1 \<or> kind m \<noteq> ''bxdl-package'' \<or>
                 product_name (product m) \<noteq> ''BXDL'' \<or> channel m \<noteq> ''development''))
                 ''MANIFEST_INVALID'') (\<lambda>_.
     and_then (ensure (label (product_version (product m)) \<and>
                 (hash_string (product_revision (product m)) 40 \<or>
                  product_revision (product m) = ''development'')) ''MANIFEST_INVALID'') (\<lambda>_.
     let p = platform m;
         linux = (platform_os p = ''linux'' \<and> platform_arch p = ''amd64'' \<and>
                  platform_libc p = ''glibc'' \<and> platform_min_glibc p = ''2.34'');
         mac = (platform_os p = ''darwin'' \<and> platform_arch p = ''arm64'' \<and>
                platform_libc p = ''none'' \<and> platform_min_glibc p = ''none'') in
     and_then (ensure ((linux \<or> mac) \<and> platform_java_major p = 21 \<and> platform_backend p = ''rocksdb'')
                 ''PLATFORM_UNSUPPORTED'') (\<lambda>_.
     and_then (ensure (hash_string (engine_revision (engine m)) 40 \<and>
                 hash_string (engine_jar_sha256 (engine m)) 64 \<and>
                 engine_contract_status (engine m) = ''proposed'' \<and>
                 label (engine_contract_revision (engine m))) ''MANIFEST_INVALID'') (\<lambda>_.
     and_then (ensure (label (runtime_vendor (runtime m)) \<and> label (runtime_version (runtime m)) \<and>
                 hash_string (runtime_java_sha256 (runtime m)) 64) ''MANIFEST_INVALID'') (\<lambda>_.
     if \<not> complete \<and> files m = [] then Inr ()
     else
     and_then (ensure (files m \<noteq> [] \<and> length (files m) \<le> max_files) ''LIMIT_EXCEEDED'') (\<lambda>_.
     and_then (check_manifest_files [] 0 (files m)) (\<lambda>(seen, tot).
     let names = map file_path seen in
     and_then (ensure (\<not> list_ex (parent_listed names) names) ''INVENTORY_CONFLICT'') (\<lambda>_.
     and_then (ensure (list_all (\<lambda>r. case lookup_file r seen of
                         None \<Rightarrow> False | Some f \<Rightarrow> file_size f \<noteq> 0) required_files)
                 ''REQUIRED_FILE_MISSING'') (\<lambda>_.
     and_then (ensure (file_mode_of ''bin/bxdl'' seen = Some mode_755 \<and>
                 file_mode_of ''runtime/bin/java'' seen = Some mode_755) ''MANIFEST_INVALID'') (\<lambda>_.
     ensure (file_hash_of ''engine/nigo-node.jar'' seen = Some (engine_jar_sha256 (engine m)) \<and>
             file_hash_of ''runtime/bin/java'' seen = Some (runtime_java_sha256 (runtime m)))
            ''IDENTITY_MISMATCH''))))))))))"

lemma check_manifest_files_errors:
  "{''PATH_INVALID'', ''PATH_FORBIDDEN'', ''INVENTORY_DUPLICATE'', ''LIMIT_EXCEEDED'',
    ''MANIFEST_INVALID''} \<subseteq> C \<Longrightarrow> errors_in C (check_manifest_files seen tot fs)"
proof (induction fs arbitrary: seen tot)
  case (Cons f fs)
  then show ?case unfolding check_manifest_files.simps
    by (intro errors_intro validate_path_errors) auto
qed (simp add: errors_intro)

subsection \<open>What the inventory loop decides\<close>

definition entry_ok :: "file_entry \<Rightarrow> bool" where
  "entry_ok f \<longleftrightarrow> validate_path (file_path f) = Inr () \<and> file_size f \<le> max_file_bytes \<and>
     hash_string (file_sha256 f) 64 \<and> file_mode f \<in> {mode_644, mode_755}"

abbreviation total_size :: "file_entry list \<Rightarrow> nat" where
  "total_size fs \<equiv> sum_list (map file_size fs)"

lemma check_manifest_files_iff:
  assumes "tot \<le> max_total_bytes"
  shows "check_manifest_files seen tot fs = Inr r \<longleftrightarrow>
    r = (rev fs @ seen, tot + total_size fs) \<and> list_all entry_ok fs \<and>
    distinct (map file_path fs) \<and> file_path ` set fs \<inter> file_path ` set seen = {} \<and>
    tot + total_size fs \<le> max_total_bytes"
  using assms
proof (induction fs arbitrary: seen tot)
  case Nil
  then show ?case by auto
next
  case (Cons f fs)
  have room: "max_total_bytes - file_size f < tot \<longleftrightarrow> max_total_bytes < tot + file_size f"
    if "file_size f \<le> max_file_bytes"
    using that by (auto simp: max_total_bytes_def max_file_bytes_def)
  have dup: "list_ex (\<lambda>g. file_path g = file_path f) seen \<longleftrightarrow> file_path f \<in> file_path ` set seen"
    by (simp add: list_ex_iff image_iff eq_commute)
  show ?case
  proof (cases "entry_ok f \<and> file_path f \<notin> file_path ` set seen \<and> tot + file_size f \<le> max_total_bytes")
    case True
    then have "check_manifest_files seen tot (f # fs) = check_manifest_files (f # seen) (tot + file_size f) fs"
      using room dup by (auto simp: entry_ok_def simp del: list_ex_iff)
    with True Cons.IH [of "tot + file_size f" "f # seen"] show ?thesis
      by (auto simp: add.assoc)
  next
    case False
    then have "check_manifest_files seen tot (f # fs) \<noteq> Inr r"
      using room dup by (auto simp: entry_ok_def simp del: list_ex_iff)
    with False show ?thesis by (auto simp: image_iff)
  qed
qed

lemma check_manifest_files_total:
  "check_manifest_files [] 0 fs = Inr (seen, tot) \<Longrightarrow> tot \<le> max_total_bytes \<and> tot \<le> u64_max"
  by (subst (asm) check_manifest_files_iff) (auto simp: max_total_bytes_def)

text \<open>A listed path that is a proper parent directory of \<open>p\<close>.\<close>

lemma parent_listed_iff:
  "parent_listed names p \<longleftrightarrow> (\<exists>q\<in>set names. \<exists>r. p = q @ slash # r)"
proof (induction names p rule: parent_listed.induct)
  case (1 names p)
  show ?case
  proof (cases "rsplit_once slash p")
    case None
    then have "slash \<notin> set p" by simp
    moreover have "\<not> parent_listed names p"
      by (subst parent_listed.simps) (simp add: None del: rsplit_once_None)
    ultimately show ?thesis by auto
  next
    case (Some ab)
    then obtain a b where ab: "rsplit_once slash p = Some (a, b)" by (cases ab) auto
    then have p: "p = a @ slash # b" "slash \<notin> set b" by (auto simp: rsplit_once_Some_iff)
    have split: "(\<exists>r. p = q @ slash # r) \<longleftrightarrow> q = a \<or> (\<exists>r. a = q @ slash # r)" for q
    proof
      assume "\<exists>r. p = q @ slash # r"
      then obtain r where "a @ slash # b = q @ slash # r" using p by auto
      then obtain us where "(a = q @ us \<and> us @ slash # b = slash # r) \<or>
          (a @ us = q \<and> slash # b = us @ slash # r)"
        by (auto simp: append_eq_append_conv2)
      with p(2) show "q = a \<or> (\<exists>r. a = q @ slash # r)"
        by (cases us) auto
    qed (use p in auto)
    from ab have "parent_listed names p \<longleftrightarrow> a \<in> set names \<or> parent_listed names a"
      by (subst parent_listed.simps) simp
    with "1.IH" [OF ab] split show ?thesis by auto
  qed
qed

lemma lookup_file_SomeD: "lookup_file p fs = Some f \<Longrightarrow> f \<in> set fs \<and> file_path f = p"
  unfolding lookup_file_def by (auto simp: find_Some_iff)

lemma lookup_file_None: "lookup_file p fs = None \<longleftrightarrow> p \<notin> file_path ` set fs"
  unfolding lookup_file_def by (auto simp: find_None_iff)

lemma lookup_file_Some_iff:
  assumes "distinct (map file_path fs)"
  shows "lookup_file p fs = Some f \<longleftrightarrow> f \<in> set fs \<and> file_path f = p"
proof
  assume f: "f \<in> set fs \<and> file_path f = p"
  then obtain g where g: "lookup_file p fs = Some g"
    by (cases "lookup_file p fs") (auto simp: lookup_file_None)
  then have "g \<in> set fs" "file_path g = file_path f" using f by (auto dest: lookup_file_SomeD)
  with assms f g show "lookup_file p fs = Some f" by (auto simp: distinct_map dest: inj_onD)
qed (rule lookup_file_SomeD)

lemma lookup_file_rev:
  assumes "distinct (map file_path fs)"
  shows "lookup_file p (rev fs) = lookup_file p fs"
proof -
  from assms have "distinct (map file_path (rev fs))" by (simp add: rev_map [symmetric])
  with assms have "lookup_file p (rev fs) = Some f \<longleftrightarrow> lookup_file p fs = Some f" for f
    by (simp add: lookup_file_Some_iff)
  then show ?thesis by (metis not_Some_eq)
qed

section \<open>The manifest policy, declaratively\<close>

definition supported_platform :: "platform \<Rightarrow> bool" where
  "supported_platform p \<longleftrightarrow>
     (platform_os p, platform_arch p, platform_libc p, platform_min_glibc p)
       \<in> {(''linux'', ''amd64'', ''glibc'', ''2.34''), (''darwin'', ''arm64'', ''none'', ''none'')} \<and>
     platform_java_major p = 21 \<and> platform_backend p = ''rocksdb''"

definition header_ok :: "manifest \<Rightarrow> bool" where
  "header_ok m \<longleftrightarrow>
     schema_version m = 1 \<and> kind m = ''bxdl-package'' \<and> channel m = ''development'' \<and>
     product_name (product m) = ''BXDL'' \<and> label (product_version (product m)) \<and>
     (hash_string (product_revision (product m)) 40 \<or> product_revision (product m) = ''development'') \<and>
     supported_platform (platform m) \<and>
     hash_string (engine_revision (engine m)) 40 \<and> hash_string (engine_jar_sha256 (engine m)) 64 \<and>
     engine_contract_status (engine m) = ''proposed'' \<and> label (engine_contract_revision (engine m)) \<and>
     label (runtime_vendor (runtime m)) \<and> label (runtime_version (runtime m)) \<and>
     hash_string (runtime_java_sha256 (runtime m)) 64"

definition listed :: "file_entry list \<Rightarrow> string \<Rightarrow> (file_entry \<Rightarrow> bool) \<Rightarrow> bool" where
  "listed fs p Q \<longleftrightarrow> (\<exists>f\<in>set fs. file_path f = p \<and> Q f)"

text \<open>No path of the inventory lies below another one.\<close>

definition prefix_free :: "string list \<Rightarrow> bool" where
  "prefix_free ps \<longleftrightarrow> (\<forall>p\<in>set ps. \<forall>q\<in>set ps. \<forall>r. p \<noteq> q @ slash # r)"

definition inventory_ok :: "manifest \<Rightarrow> bool" where
  "inventory_ok m \<longleftrightarrow>
     files m \<noteq> [] \<and> length (files m) \<le> max_files \<and>
     list_all entry_ok (files m) \<and> distinct (map file_path (files m)) \<and>
     total_size (files m) \<le> max_total_bytes \<and> prefix_free (map file_path (files m)) \<and>
     (\<forall>r\<in>set required_files. listed (files m) r (\<lambda>f. file_size f \<noteq> 0)) \<and>
     listed (files m) ''bin/bxdl'' (\<lambda>f. file_mode f = mode_755) \<and>
     listed (files m) ''runtime/bin/java'' (\<lambda>f. file_mode f = mode_755) \<and>
     listed (files m) ''engine/nigo-node.jar'' (\<lambda>f. file_sha256 f = engine_jar_sha256 (engine m)) \<and>
     listed (files m) ''runtime/bin/java'' (\<lambda>f. file_sha256 f = runtime_java_sha256 (runtime m))"

lemma lookup_listed:
  assumes "distinct (map file_path fs)"
  shows "(\<exists>f. lookup_file p (rev fs) = Some f \<and> Q f) \<longleftrightarrow> listed fs p Q"
  unfolding lookup_file_rev [OF assms] lookup_file_Some_iff [OF assms] listed_def by blast

lemma required_listed:
  assumes "distinct (map file_path fs)"
  shows "(case lookup_file r (rev fs) of None \<Rightarrow> False | Some f \<Rightarrow> Q f) \<longleftrightarrow> listed fs r Q"
  unfolding lookup_listed [OF assms, symmetric] by (auto split: option.split)

lemma no_parent_iff: "\<not> list_ex (parent_listed ns) ns \<longleftrightarrow> prefix_free ns"
  by (auto simp: list_ex_iff parent_listed_iff prefix_free_def)

lemma prefix_free_rev: "prefix_free (rev ns) \<longleftrightarrow> prefix_free ns"
  by (simp add: prefix_free_def)

lemma validate_header:
  "validate_manifest m complete = Inr () \<longleftrightarrow> header_ok m \<and>
     (if \<not> complete \<and> files m = [] then True
      else files m \<noteq> [] \<and> length (files m) \<le> max_files \<and>
        (\<exists>seen tot. check_manifest_files [] 0 (files m) = Inr (seen, tot) \<and>
           \<not> list_ex (parent_listed (map file_path seen)) (map file_path seen) \<and>
           list_all (\<lambda>r. case lookup_file r seen of None \<Rightarrow> False | Some f \<Rightarrow> file_size f \<noteq> 0)
             required_files \<and>
           file_mode_of ''bin/bxdl'' seen = Some mode_755 \<and>
           file_mode_of ''runtime/bin/java'' seen = Some mode_755 \<and>
           file_hash_of ''engine/nigo-node.jar'' seen = Some (engine_jar_sha256 (engine m)) \<and>
           file_hash_of ''runtime/bin/java'' seen = Some (runtime_java_sha256 (runtime m))))"
  unfolding validate_manifest_def header_ok_def supported_platform_def
  by (cases complete; cases "files m = []") (simp_all add: Let_def split_beta conj_ac)

text \<open>C5. The manifest check accepts exactly the manifests of the declarative policy: a supported
  identity, and an inventory of pairwise distinct, policy-conforming, nowhere nested paths
  within the size limits that lists the required files with the pinned hashes and modes; an
  empty inventory is accepted only for a build spec.\<close>

theorem validate_manifest_iff:
  "validate_manifest m complete = Inr () \<longleftrightarrow>
     header_ok m \<and> (\<not> complete \<and> files m = [] \<or> inventory_ok m)"
proof (cases "distinct (map file_path (files m))")
  case True
  have "inventory_ok m \<Longrightarrow> files m \<noteq> []" by (simp add: inventory_ok_def)
  then show ?thesis
    unfolding validate_header
    by (auto simp: check_manifest_files_iff inventory_ok_def file_mode_of_def file_hash_of_def
        no_parent_iff prefix_free_rev rev_map [symmetric] required_listed [OF True]
        lookup_listed [OF True] list_all_iff simp del: list_ex_iff)
next
  case False
  then show ?thesis
    unfolding validate_header by (auto simp: check_manifest_files_iff inventory_ok_def)
qed

end
