(* ===== verification/Ustar.thy ===== *)
theory Ustar
  imports Package
begin

text \<open>
  One physical USTAR header block: the reader \<open>read_header\<close> with \<open>octal\<close>, \<open>c_string\<close> and
  \<open>read_padding\<close> (\<open>artifact/verify.rs\<close>) and the writer \<open>tar_header\<close> with \<open>write_octal\<close> and
  \<open>write_padding\<close> (\<open>artifact/build.rs\<close>). The management bundle has its own copy of the number
  and string readers with other error codes, so those take the error code as an argument.
\<close>

section \<open>Numeric and string fields\<close>

abbreviation space :: char where "space \<equiv> CHR '' ''"

definition all_zero :: "bytes \<Rightarrow> bool" where
  "all_zero b \<longleftrightarrow> list_all (\<lambda>c. c = NUL) b"

definition is_pad :: "char \<Rightarrow> bool" where
  "is_pad c \<longleftrightarrow> c = NUL \<or> c = space"

text \<open>\<open>trim_matches(['\0', ' '])\<close>.\<close>

definition trim_pad :: "bytes \<Rightarrow> bytes" where
  "trim_pad s = rev (dropWhile is_pad (rev (dropWhile is_pad s)))"

definition octal_field :: "string \<Rightarrow> bytes \<Rightarrow> nat result" where
  "octal_field e b =
     and_then (ensure (valid_utf8 b) e) (\<lambda>_.
     let t = trim_pad b in
     if t = [] then Inr 0
     else and_then (ensure (list_all is_octal t) e) (\<lambda>_.
          ok_or (parse_uint 8 u64_max t) e))"

definition octal :: "bytes \<Rightarrow> nat result" where
  "octal = octal_field ''ARCHIVE_INVALID''"

text \<open>The text before the first NUL; only NULs may follow it.\<close>

definition c_string_field :: "string \<Rightarrow> bytes \<Rightarrow> string result" where
  "c_string_field e b =
     (let t = takeWhile (\<lambda>c. c \<noteq> NUL) b in
      and_then (ensure (all_zero (drop (length t) b)) e) (\<lambda>_.
      and_then (ensure (valid_utf8 t) e) (\<lambda>_. Inr t)))"

definition c_string :: "bytes \<Rightarrow> string result" where
  "c_string = c_string_field ''ARCHIVE_INVALID''"

text \<open>The sum of the 512 bytes with the checksum field read as spaces.\<close>

definition header_sum :: "bytes \<Rightarrow> nat" where
  "header_sum block =
     sum_list (map (\<lambda>(i, c). if 148 \<le> i \<and> i < 156 then byte_val space else byte_val c)
                   (enumerate 0 block))"

definition magic :: bytes where "magic = ''ustar'' @ [NUL]"

section \<open>Reading a header block\<close>

record header =
  header_name :: string
  header_size :: nat
  header_mode :: nat

text \<open>The part of \<open>read_header\<close> after the block turned out not to be all zero.\<close>

definition parse_block :: "bytes \<Rightarrow> header result" where
  "parse_block block =
     and_then (ensure (slice 156 157 block \<in> {[NUL], [CHR ''0'']}) ''ENTRY_TYPE_FORBIDDEN'') (\<lambda>_.
     and_then (ensure (slice 257 263 block = magic \<and> slice 263 265 block = ''00'' \<and>
                 all_zero (slice 157 257 block) \<and> all_zero (slice 500 512 block))
                 ''ARCHIVE_INVALID'') (\<lambda>_.
     and_then (octal (slice 148 156 block)) (\<lambda>checksum.
     and_then (ensure (checksum = header_sum block) ''ARCHIVE_INVALID'') (\<lambda>_.
     and_then (octal (slice 100 108 block)) (\<lambda>mode.
     and_then (octal (slice 124 136 block)) (\<lambda>sz.
     and_then (map_result octal [slice 108 116 block, slice 116 124 block, slice 136 148 block,
                 slice 329 337 block, slice 337 345 block]) (\<lambda>_.
     and_then (ensure (\<not> (max_file_bytes < sz \<or> mode \<notin> {mode_644, mode_755}))
                 ''ENTRY_INVALID'') (\<lambda>_.
     and_then (c_string (slice 0 100 block)) (\<lambda>name.
     and_then (c_string (slice 345 500 block)) (\<lambda>pre.
     Inr \<lparr>header_name = (if pre = [] then name else pre @ slash # name),
          header_size = sz, header_mode = mode\<rparr>))))))))))"

section \<open>Writing a header block\<close>

definition write_octal_field :: "string \<Rightarrow> nat \<Rightarrow> nat \<Rightarrow> bytes result" where
  "write_octal_field e n v =
     (let t = show_radix 8 v in
      and_then (ensure (length t < n) e) (\<lambda>_.
      Inr (replicate (n - 1 - length t) (CHR ''0'') @ t @ [NUL])))"

definition write_octal :: "nat \<Rightarrow> nat \<Rightarrow> bytes result" where
  "write_octal = write_octal_field ''BUILD_IO''"

text \<open>\<open>path.match_indices('/').rev().find_map(...)\<close>: the last slash that splits the path
  into a prefix of at most 155 and a name of at most 100 bytes.\<close>

definition slash_offsets :: "string \<Rightarrow> nat list" where
  "slash_offsets p = filter (\<lambda>i. p ! i = slash) [0..<length p]"

definition split_header_path :: "string \<Rightarrow> (string \<times> string) option" where
  "split_header_path path =
     (if length path \<le> 100 then Some ([], path)
      else map_option (\<lambda>off. (take off path, drop (Suc off) path))
             (find (\<lambda>off. off \<le> 155 \<and> length path - Suc off \<le> 100) (rev (slash_offsets path))))"

text \<open>\<open>format!("{checksum:06o}")\<close>.\<close>

definition pad6 :: "string \<Rightarrow> string" where
  "pad6 t = replicate (6 - length t) (CHR ''0'') @ t"

text \<open>The block with every field set and the checksum field still spaces.\<close>

definition unsigned_header :: "string \<Rightarrow> string \<Rightarrow> bytes \<Rightarrow> bytes \<Rightarrow> bytes \<Rightarrow> bytes \<Rightarrow> bytes \<Rightarrow> bytes" where
  "unsigned_header name pre md uid gid sz mtime =
     blit 263 ''00'' (blit 257 magic (blit 156 ''0'' (blit 148 (replicate 8 space)
     (blit 136 mtime (blit 124 sz (blit 116 gid (blit 108 uid (blit 100 md
     (blit 345 pre (blit 0 name (replicate 512 NUL)))))))))))"

definition sign_header :: "string \<Rightarrow> bytes \<Rightarrow> bytes result" where
  "sign_header e h =
     (let t = pad6 (show_radix 8 (sum_list (map byte_val h))) in
      and_then (ensure (length t = 6) e) (\<lambda>_. Inr (blit 148 (t @ [NUL, space]) h)))"

definition tar_header :: "string \<Rightarrow> nat \<Rightarrow> nat \<Rightarrow> bytes result" where
  "tar_header path sz mode =
     and_then (ok_or (split_header_path path) ''BUILD_IO'') (\<lambda>(pre, name).
     and_then (write_octal 8 mode) (\<lambda>md.
     and_then (write_octal 8 0) (\<lambda>uid.
     and_then (write_octal 8 0) (\<lambda>gid.
     and_then (write_octal 12 sz) (\<lambda>szf.
     and_then (write_octal 12 0) (\<lambda>mt.
     sign_header ''BUILD_IO'' (unsigned_header name pre md uid gid szf mt)))))))"

section \<open>Padding\<close>

definition padding :: "nat \<Rightarrow> nat" where
  "padding n = (512 - n mod 512) mod 512"

definition write_padding :: "nat \<Rightarrow> bytes" where
  "write_padding n = replicate (padding n) NUL"

lemma padding_aligns: "512 dvd n + padding n"
proof -
  have "(n + (512 - n mod 512) mod 512) mod 512 = (n mod 512 + (512 - n mod 512)) mod 512"
    by (simp only: mod_add_right_eq mod_add_left_eq)
  also have "n mod 512 + (512 - n mod 512) = 512"
    using mod_less_divisor [of 512 n] by simp
  finally show ?thesis by (simp add: padding_def mod_eq_0_iff_dvd)
qed

lemma padding_less: "padding n < 512"
  by (simp add: padding_def)

section \<open>Field round trips\<close>

lemma all_zero_replicate [simp]: "all_zero (replicate n NUL)"
  by (simp add: all_zero_def list_all_iff)

lemma all_zero_Nil [simp]: "all_zero []"
  by (simp add: all_zero_def)

lemma all_zero_append [simp]: "all_zero (a @ b) \<longleftrightarrow> all_zero a \<and> all_zero b"
  by (simp add: all_zero_def)

lemma is_pad_byte: "is_pad c \<longleftrightarrow> byte_val c = 0 \<or> byte_val c = 32"
  unfolding is_pad_def by (simp add: char_eq_byte [of c] del: of_char_eq_iff)

text \<open>A byte that \<open>show_radix 8\<close> prints.\<close>

definition octal_digit :: "char \<Rightarrow> bool" where
  "octal_digit c \<longleftrightarrow> (\<exists>d<8. c = digit_char d)"

lemma octal_digitD:
  assumes "octal_digit c"
  shows "is_octal c" "digit_val c < 8" "\<not> is_pad c" "byte_val c < 128" "c \<noteq> CHR ''+''"
  using assms by (auto simp: octal_digit_def is_octal_def is_pad_byte byte_val_digit_char
      char_eq_byte [of _ "CHR ''+''"] simp del: of_char_eq_iff)

lemma octal_digits_all:
  "list_all octal_digit (replicate k (CHR ''0'') @ show_radix 8 v)"
proof -
  have "octal_digit (CHR ''0'')"
    unfolding octal_digit_def by (rule exI [of _ 0]) (simp add: digit_char_0)
  moreover have "octal_digit c" if "c \<in> set (show_radix 8 v)" for c
    using show_radix_digits [OF _ _ that] by (simp add: octal_digit_def)
  ultimately show ?thesis by (auto simp: list_all_iff)
qed

lemma trim_pad_digits:
  assumes "ds \<noteq> []" "list_all (\<lambda>c. \<not> is_pad c) ds" "list_all is_pad tail"
  shows "trim_pad (ds @ tail) = ds"
proof -
  have "dropWhile is_pad (ds @ tail) = ds @ tail"
    using assms by (cases ds) auto
  moreover have "dropWhile is_pad (rev tail @ rev ds) = dropWhile is_pad (rev ds)"
    using assms(3) by (intro dropWhile_append2) (auto simp: list_all_iff)
  moreover have "dropWhile is_pad (rev ds) = rev ds"
    using assms by (cases "rev ds") (auto simp: list_all_iff simp flip: set_rev [of ds])
  ultimately show ?thesis by (simp add: trim_pad_def)
qed

lemma parse_octal_digits:
  assumes "ds \<noteq> []" "list_all octal_digit ds" "read_radix 8 ds \<le> u64_max"
  shows "parse_uint 8 u64_max ds = Some (read_radix 8 ds)"
proof -
  from assms obtain c r where ds: "ds = c # r" "octal_digit c" by (cases ds) auto
  then have "c \<noteq> CHR ''+''" by (simp add: octal_digitD)
  moreover have "list_all (\<lambda>c. digit_val c < 8) ds"
    using assms(2) by (rule list.pred_mono_strong) (rule octal_digitD)
  ultimately show ?thesis using assms(3) ds(1) by (simp add: parse_uint_def)
qed

lemma octal_field_digits:
  assumes "list_all is_pad tail" "v \<le> u64_max"
  shows "octal_field e (replicate k (CHR ''0'') @ show_radix 8 v @ tail) = Inr v"
proof -
  define ds where "ds = replicate k (CHR ''0'') @ show_radix 8 v"
  have ds: "list_all octal_digit ds" "ds \<noteq> []" "read_radix 8 ds = v"
    unfolding ds_def by (rule octal_digits_all) simp_all
  have "list_all (\<lambda>c. byte_val c < 128) ds" "list_all is_octal ds" "list_all (\<lambda>c. \<not> is_pad c) ds"
    using ds(1) by (rule list.pred_mono_strong, simp add: octal_digitD)+
  moreover have "list_all (\<lambda>c. byte_val c < 128) tail"
    using assms(1) by (rule list.pred_mono_strong) (auto simp: is_pad_byte)
  ultimately have "valid_utf8 (ds @ tail)" "trim_pad (ds @ tail) = ds" "list_all is_octal ds"
    using ds assms(1) by (auto intro: valid_utf8_ascii trim_pad_digits simp: is_ascii_def)
  then have "octal_field e (ds @ tail) = Inr v"
    using ds parse_octal_digits [of ds] assms(2) by (simp add: octal_field_def)
  then show ?thesis by (simp add: ds_def)
qed

lemma write_octal_read:
  assumes "write_octal_field e n v = Inr b" "v \<le> u64_max"
  shows "octal_field e' b = Inr v"
  using assms octal_field_digits [of "[NUL]" v e'] by (auto simp: write_octal_field_def Let_def is_pad_def)

lemma length_write_octal: "write_octal_field e n v = Inr b \<Longrightarrow> length b = n"
  by (auto simp: write_octal_field_def Let_def)

lemma octal_zero_field: "octal_field e (replicate n NUL) = Inr 0"
proof -
  have "dropWhile is_pad (replicate n NUL) = []" by (simp add: is_pad_def)
  moreover have "valid_utf8 (replicate n NUL)"
    by (intro valid_utf8_ascii) (simp add: is_ascii_def list_all_iff)
  ultimately show ?thesis by (simp add: octal_field_def trim_pad_def Let_def)
qed

lemma c_string_padded:
  assumes "NUL \<notin> set s" "valid_utf8 s"
  shows "c_string_field e (s @ replicate n NUL) = Inr s"
proof -
  have "takeWhile (\<lambda>c. c \<noteq> NUL) (s @ replicate n NUL) = s"
    using assms(1) by (induction s) (auto simp: takeWhile_replicate)
  then show ?thesis using assms(2) by (simp add: c_string_field_def)
qed

section \<open>Header round trip\<close>

subsection \<open>The checksum\<close>

lemma sum_range_out:
  assumes "\<forall>i. n \<le> i \<and> i < n + length xs \<longrightarrow> \<not> P i"
  shows "map (\<lambda>(i, c). if P i then k else f c) (enumerate n xs) = map f xs"
  using assms
proof (induction xs arbitrary: n)
  case (Cons x xs)
  moreover from Cons.prems have "\<not> P n" by (auto dest: spec [of _ n])
  ultimately show ?case by simp
qed simp

lemma sum_range_in:
  assumes "\<forall>i. n \<le> i \<and> i < n + length xs \<longrightarrow> P i"
  shows "map (\<lambda>(i, c). if P i then k else f c) (enumerate n xs) = replicate (length xs) k"
  using assms
proof (induction xs arbitrary: n)
  case (Cons x xs)
  moreover from Cons.prems have "P n" by (auto dest: spec [of _ n])
  ultimately show ?case by simp
qed simp

lemma header_sum_parts:
  assumes "length a = 148" "length m = 8"
  shows "header_sum (a @ m @ b) = sum_list (map byte_val a) + 256 + sum_list (map byte_val b)"
proof -
  let ?P = "\<lambda>i. 148 \<le> i \<and> i < (156::nat)"
  let ?g = "\<lambda>(i, c). if 148 \<le> i \<and> i < 156 then byte_val space else byte_val c"
  have "map ?g (enumerate 0 a) = map byte_val a"
    using assms by (intro sum_range_out [where P = ?P]) auto
  moreover have "map ?g (enumerate 148 m) = replicate (length m) (byte_val space)"
    using assms by (intro sum_range_in [where P = ?P]) auto
  moreover have "map ?g (enumerate 156 b) = map byte_val b"
    by (intro sum_range_out [where P = ?P]) auto
  moreover have "byte_val space = 32" by simp
  ultimately show ?thesis
    using assms by (simp add: header_sum_def enumerate_append_eq sum_list_replicate)
qed

lemma blit_parts:
  assumes "length h = 512" "length t = 8"
  shows "blit 148 t h = take 148 h @ t @ drop 156 h"
  using assms by (simp add: blit_def)

text \<open>Overwriting the checksum field does not change the sum the reader computes.\<close>

lemma header_sum_blit:
  assumes "length h = 512" "length t = 8" "slice 148 156 h = replicate 8 space"
  shows "header_sum (blit 148 t h) = sum_list (map byte_val h)"
proof -
  have "take 8 (drop 148 h) = replicate 8 space" using assms(3) by (simp add: slice_def)
  moreover have "h = take 148 h @ take 8 (drop 148 h) @ drop 8 (drop 148 h)"
    by (simp only: append_take_drop_id)
  ultimately have "h = take 148 h @ replicate 8 space @ drop 156 h" by simp
  then have "sum_list (map byte_val h) =
      sum_list (map byte_val (take 148 h @ replicate 8 space @ drop 156 h))"
    by (rule arg_cong)
  also have "\<dots> = sum_list (map byte_val (take 148 h)) + 256 + sum_list (map byte_val (drop 156 h))"
    by (simp add: sum_list_replicate)
  finally have "sum_list (map byte_val h) =
      sum_list (map byte_val (take 148 h)) + 256 + sum_list (map byte_val (drop 156 h))" .
  then show ?thesis
    using assms by (simp add: blit_parts header_sum_parts)
qed

subsection \<open>The fields of a written block\<close>

lemma unsigned_header_fields:
  assumes lens: "length name \<le> 100" "length pre \<le> 155" "length md = 8" "length uid = 8"
    "length gid = 8" "length szf = 12" "length mt = 12"
  defines "h \<equiv> unsigned_header name pre md uid gid szf mt"
  shows "length h = 512" "slice 148 156 h = replicate 8 space"
    "slice 0 100 h = name @ replicate (100 - length name) NUL"
    "slice 345 500 h = pre @ replicate (155 - length pre) NUL"
    "slice 100 108 h = md" "slice 108 116 h = uid" "slice 116 124 h = gid"
    "slice 124 136 h = szf" "slice 136 148 h = mt"
    "slice 156 157 h = ''0''" "slice 157 257 h = replicate 100 NUL" "slice 257 263 h = magic"
    "slice 263 265 h = ''00''" "slice 329 337 h = replicate 8 NUL"
    "slice 337 345 h = replicate 8 NUL" "slice 500 512 h = replicate 12 NUL"
proof -
  define h1 where "h1 = blit 0 name (replicate 512 NUL)"
  define h2 where "h2 = blit 345 pre h1"
  define h3 where "h3 = blit 136 mt (blit 124 szf (blit 116 gid (blit 108 uid (blit 100 md h2))))"
  define h4 where "h4 = blit 156 ''0'' (blit 148 (replicate 8 space) h3)"
  define h5 where "h5 = blit 257 magic h4"
  have h: "h = blit 263 ''00'' h5"
    by (simp add: h_def unsigned_header_def h1_def h2_def h3_def h4_def h5_def)
  have l1: "length h1 = 512" unfolding h1_def using lens(1) by simp
  have l2: "length h2 = 512" unfolding h2_def using l1 lens(2) by simp
  have l3: "length h3 = 512" unfolding h3_def using l2 lens by simp
  have l4: "length h4 = 512" unfolding h4_def using l3 by simp
  have m: "length magic = 6" by (simp add: magic_def)
  have l5: "length h5 = 512" unfolding h5_def using l4 m by simp
  show "length h = 512" unfolding h using l5 by simp
  have low: "slice a b h = slice a b h4" if "b \<le> 257" for a b
    using that l4 l5 unfolding h by (simp add: slice_blit_before h5_def)
  have high: "slice a b h = slice a b h2" if "265 \<le> a" for a b
  proof -
    have "slice a b h = slice a b h4"
      using that l4 l5 m unfolding h by (simp add: slice_blit_after h5_def)
    also have "\<dots> = slice a b h3"
      using that l3 unfolding h4_def by (simp add: slice_blit_after)
    also have "\<dots> = slice a b h2"
      using that l2 lens unfolding h3_def by (simp add: slice_blit_after)
    finally show ?thesis .
  qed
  have mid: "slice a b h = slice a b h3" if "b \<le> 148" for a b
    using that l3 low [of b a] unfolding h4_def by (simp add: slice_blit_before)
  show "slice 148 156 h = replicate 8 space" "slice 156 157 h = ''0''"
    using l3 by (simp_all add: low h4_def slice_blit)
  have "slice 157 257 h = slice 157 257 h3" using l3 by (simp add: low h4_def slice_blit_after)
  also have "\<dots> = slice 157 257 h2" using l2 lens unfolding h3_def by (simp add: slice_blit_after)
  also have "\<dots> = replicate 100 NUL"
    using l1 lens by (simp add: h2_def h1_def slice_blit slice_replicate)
  finally show "slice 157 257 h = replicate 100 NUL" .
  show "slice 257 263 h = magic" "slice 263 265 h = ''00''"
    using l4 l5 m unfolding h h5_def by (simp_all add: slice_blit)
  show "slice 0 100 h = name @ replicate (100 - length name) NUL"
    using l1 l2 lens by (simp add: mid h3_def h2_def h1_def slice_blit slice_blit_around slice_replicate)
  show "slice 100 108 h = md" "slice 108 116 h = uid" "slice 116 124 h = gid"
    "slice 124 136 h = szf" "slice 136 148 h = mt"
    using l2 lens by (simp_all add: mid h3_def slice_blit)
  show "slice 345 500 h = pre @ replicate (155 - length pre) NUL"
    "slice 329 337 h = replicate 8 NUL" "slice 337 345 h = replicate 8 NUL"
    "slice 500 512 h = replicate 12 NUL"
    using l1 lens
    by (simp_all add: high h2_def h1_def slice_blit slice_blit_around slice_replicate)
qed

subsection \<open>Signing\<close>

lemma byte_sum_bound: "sum_list (map byte_val h) \<le> 255 * length h"
proof (induction h)
  case (Cons c h)
  have "byte_val c \<le> 255" using byte_val_less [of c] by linarith
  with Cons show ?case by (simp add: add_mono)
qed simp

lemma sign_header_length:
  assumes "length h = 512"
  shows "length (pad6 (show_radix 8 (sum_list (map byte_val h)))) = 6"
proof -
  have "sum_list (map byte_val h) < 8 ^ 6" using byte_sum_bound [of h] assms by simp
  then have "length (show_radix 8 (sum_list (map byte_val h))) \<le> 6"
    by (intro length_show_radix_le) simp_all
  then show ?thesis by (simp add: pad6_def)
qed

lemma sign_header_eq:
  assumes "length h = 512"
  shows "sign_header e h =
    Inr (blit 148 (pad6 (show_radix 8 (sum_list (map byte_val h))) @ [NUL, space]) h)"
  using sign_header_length [OF assms] by (simp add: sign_header_def Let_def)

lemma checksum_field:
  "v \<le> u64_max \<Longrightarrow> octal_field e (pad6 (show_radix 8 v) @ [NUL, space]) = Inr v"
  unfolding pad6_def append_assoc by (rule octal_field_digits) (simp_all add: is_pad_def)

text \<open>What the writers of both archives put in a block.\<close>

definition number_fields :: "nat \<Rightarrow> nat \<Rightarrow> bytes \<Rightarrow> bytes \<Rightarrow> bytes \<Rightarrow> bytes \<Rightarrow> bytes \<Rightarrow> bool" where
  "number_fields mode sz md uid gid szf mt \<longleftrightarrow>
     length md = 8 \<and> length uid = 8 \<and> length gid = 8 \<and> length szf = 12 \<and> length mt = 12 \<and>
     (\<forall>e. octal_field e md = Inr mode \<and> octal_field e szf = Inr sz \<and>
        octal_field e uid = Inr 0 \<and> octal_field e gid = Inr 0 \<and> octal_field e mt = Inr 0)"

lemma number_fieldsI:
  assumes "write_octal_field e 8 mode = Inr md" "write_octal_field e 8 0 = Inr uid"
    "write_octal_field e 8 0 = Inr gid" "write_octal_field e 12 sz = Inr szf"
    "write_octal_field e 12 0 = Inr mt" "mode \<le> u64_max" "sz \<le> u64_max"
  shows "number_fields mode sz md uid gid szf mt"
  using assms write_octal_read length_write_octal unfolding number_fields_def by blast

lemma signed_block_fields:
  assumes nf: "number_fields mode sz md uid gid szf mt"
    and n: "length name \<le> 100" "NUL \<notin> set name" "valid_utf8 name"
    and p: "length pre \<le> 155" "NUL \<notin> set pre" "valid_utf8 pre"
    and b: "sign_header e (unsigned_header name pre md uid gid szf mt) = Inr b"
  shows "length b = 512" "slice 156 157 b = ''0''" "slice 257 263 b = magic" "slice 263 265 b = ''00''"
    "slice 157 257 b = replicate 100 NUL" "slice 500 512 b = replicate 12 NUL"
    "octal_field e' (slice 148 156 b) = Inr (header_sum b)"
    "octal_field e' (slice 100 108 b) = Inr mode" "octal_field e' (slice 124 136 b) = Inr sz"
    "\<And>f. f \<in> {slice 108 116 b, slice 116 124 b, slice 136 148 b, slice 329 337 b, slice 337 345 b}
       \<Longrightarrow> octal_field e' f = Inr 0"
    "c_string_field e' (slice 0 100 b) = Inr name" "c_string_field e' (slice 345 500 b) = Inr pre"
proof -
  define h where "h = unsigned_header name pre md uid gid szf mt"
  define t where "t = pad6 (show_radix 8 (sum_list (map byte_val h))) @ [NUL, space]"
  from nf have lens: "length md = 8" "length uid = 8" "length gid = 8" "length szf = 12" "length mt = 12"
    and nums: "octal_field e' md = Inr mode" "octal_field e' szf = Inr sz" "octal_field e' uid = Inr 0"
      "octal_field e' gid = Inr 0" "octal_field e' mt = Inr 0"
    by (simp_all add: number_fields_def)
  note hf = unsigned_header_fields [OF n(1) p(1) lens, folded h_def]
  from sign_header_length [OF hf(1)] have t: "length t = 8" by (simp add: t_def)
  from b have b_eq: "b = blit 148 t h"
    unfolding h_def [symmetric] sign_header_eq [OF hf(1)] t_def by simp
  have before: "\<And>a c. c \<le> 148 \<Longrightarrow> slice a c b = slice a c h"
    unfolding b_eq using hf(1) by (intro slice_blit_before) simp_all
  have after: "\<And>a c. 156 \<le> a \<Longrightarrow> slice a c b = slice a c h"
    unfolding b_eq using hf(1) t by (intro slice_blit_after) simp_all
  have here: "slice 148 156 b = t"
    unfolding b_eq using hf(1) t by (intro slice_blit_here) simp_all
  have sum: "header_sum b = sum_list (map byte_val h)"
    unfolding b_eq using hf t by (intro header_sum_blit) simp_all
  have bound: "sum_list (map byte_val h) \<le> u64_max" using byte_sum_bound [of h] hf(1) by simp
  show "length b = 512" unfolding b_eq using hf(1) t by simp
  show "octal_field e' (slice 148 156 b) = Inr (header_sum b)"
    unfolding here sum unfolding t_def by (rule checksum_field [OF bound])
  show "slice 156 157 b = ''0''" "slice 257 263 b = magic" "slice 263 265 b = ''00''"
    "slice 157 257 b = replicate 100 NUL" "slice 500 512 b = replicate 12 NUL"
    using hf by (simp_all add: after)
  show "octal_field e' (slice 100 108 b) = Inr mode" "octal_field e' (slice 124 136 b) = Inr sz"
    using hf nums by (simp_all add: before)
  show "c_string_field e' (slice 0 100 b) = Inr name" "c_string_field e' (slice 345 500 b) = Inr pre"
    using hf n p by (simp_all add: before after c_string_padded)
  fix f assume "f \<in> {slice 108 116 b, slice 116 124 b, slice 136 148 b, slice 329 337 b, slice 337 345 b}"
  then have "f \<in> {uid, gid, mt, replicate 8 NUL}" using hf by (auto simp: before after)
  then show "octal_field e' f = Inr 0" using nums by (auto simp: octal_zero_field)
qed

subsection \<open>The artifact header\<close>

lemma slash_offsets_split: "i \<in> set (slash_offsets p) \<Longrightarrow> p = take i p @ slash # drop (Suc i) p"
  by (auto simp: slash_offsets_def dest: id_take_nth_drop)

lemma split_header_path_SomeD:
  assumes "split_header_path path = Some (pre, name)"
  shows "length name \<le> 100" "length pre \<le> 155" "pre = [] \<and> path = name \<or> path = pre @ slash # name"
proof -
  have "length name \<le> 100 \<and> length pre \<le> 155 \<and> (pre = [] \<and> path = name \<or> path = pre @ slash # name)"
  proof (cases "length path \<le> 100")
    case False
    with assms obtain i where i: "find (\<lambda>off. off \<le> 155 \<and> length path - Suc off \<le> 100)
        (rev (slash_offsets path)) = Some i" "pre = take i path" "name = drop (Suc i) path"
      by (auto simp: split_header_path_def)
    from find_SomeD [OF i(1)]
    have "i \<in> set (slash_offsets path)" "i \<le> 155" "length path - Suc i \<le> 100" by simp_all
    with i slash_offsets_split [of i path] show ?thesis by simp
  qed (use assms in \<open>auto simp: split_header_path_def\<close>)
  then show "length name \<le> 100" "length pre \<le> 155"
    "pre = [] \<and> path = name \<or> path = pre @ slash # name" by blast+
qed

lemma split_header_path_SomeI:
  assumes "length pre \<le> 155" "length name \<le> 100"
  shows "\<exists>r. split_header_path (pre @ slash # name) = Some r"
proof -
  let ?p = "pre @ slash # name"
  have "length pre \<in> set (slash_offsets ?p)" by (simp add: slash_offsets_def nth_append)
  then have "length pre \<in> set (rev (slash_offsets ?p))" by (simp only: set_rev)
  with assms have "find (\<lambda>off. off \<le> 155 \<and> length ?p - Suc off \<le> 100) (rev (slash_offsets ?p)) \<noteq> None"
    unfolding find_None_iff by auto
  then show ?thesis by (auto simp: split_header_path_def)
qed

text \<open>The paths USTAR can name.\<close>

definition encodable_path :: "string \<Rightarrow> bool" where
  "encodable_path path \<longleftrightarrow> length path \<le> 100 \<or>
     (\<exists>pre name. path = pre @ slash # name \<and> length pre \<le> 155 \<and> length name \<le> 100)"

lemma split_header_path_iff: "(\<exists>r. split_header_path path = Some r) \<longleftrightarrow> encodable_path path"
proof
  assume "\<exists>r. split_header_path path = Some r"
  then obtain pre name where "split_header_path path = Some (pre, name)" by auto
  from split_header_path_SomeD [OF this] show "encodable_path path"
    unfolding encodable_path_def by blast
next
  assume "encodable_path path"
  then show "\<exists>r. split_header_path path = Some r"
    unfolding encodable_path_def
    by (elim disjE exE conjE; simp only: split_header_path_SomeI) (simp add: split_header_path_def)
qed

lemma length_show_octal: "length (show_radix 8 v) \<le> k \<longleftrightarrow> v < 8 ^ k" if "0 < k" for k
proof
  assume "length (show_radix 8 v) \<le> k"
  moreover have "list_all (\<lambda>c. digit_val c < 8) (show_radix 8 v)"
    using octal_digits_all [of 0 v] by (auto intro: list.pred_mono_strong octal_digitD)
  then have "v < 8 ^ length (show_radix 8 v)" using read_radix_upper by fastforce
  ultimately show "v < 8 ^ k" by (meson less_le_trans one_le_numeral power_increasing)
qed (use that in \<open>simp add: length_show_radix_le\<close>)

lemma write_octal_total:
  "1 < n \<Longrightarrow> (\<exists>b. write_octal_field e n v = Inr b) \<longleftrightarrow> v < 8 ^ (n - 1)"
  using length_show_octal [of "n - 1" v] by (auto simp: write_octal_field_def Let_def)

lemma tar_header_total:
  "(\<exists>b. tar_header path sz mode = Inr b) \<longleftrightarrow> encodable_path path \<and> mode < 8 ^ 7 \<and> sz < 8 ^ 11"
proof
  assume "\<exists>b. tar_header path sz mode = Inr b"
  then show "encodable_path path \<and> mode < 8 ^ 7 \<and> sz < 8 ^ 11"
    using split_header_path_iff [of path] write_octal_total [of 8 "''BUILD_IO''" mode]
      write_octal_total [of 12 "''BUILD_IO''" sz]
    by (auto simp: tar_header_def write_octal_def)
next
  assume *: "encodable_path path \<and> mode < 8 ^ 7 \<and> sz < 8 ^ 11"
  then obtain pre name where s: "split_header_path path = Some (pre, name)"
    using split_header_path_iff [of path] by auto
  obtain md uid szf mt where w: "write_octal 8 mode = Inr md" "write_octal 8 0 = Inr uid"
    "write_octal 12 sz = Inr szf" "write_octal 12 0 = Inr mt"
    using * write_octal_total [of 8 "''BUILD_IO''"] write_octal_total [of 12 "''BUILD_IO''"]
    by (fastforce simp: write_octal_def)
  then have "length (unsigned_header name pre md uid uid szf mt) = 512"
    using split_header_path_SomeD [OF s]
    by (intro unsigned_header_fields) (auto simp: write_octal_def intro: length_write_octal)
  then show "\<exists>b. tar_header path sz mode = Inr b"
    by (auto simp: tar_header_def s w sign_header_eq)
qed

lemma magic_not_zero: "slice 257 263 b = magic \<Longrightarrow> \<not> all_zero b"
  using set_slice_subset [of 257 263 b]
  by (auto simp: magic_def all_zero_def list_all_iff)

lemma tar_header_parse:
  assumes b: "tar_header path sz mode = Inr b"
    and path: "NUL \<notin> set path" "valid_utf8 path" "\<not> prefix ''/'' path"
    and sm: "sz \<le> max_file_bytes" "mode \<in> {mode_644, mode_755}"
  shows "length b = 512 \<and> \<not> all_zero b \<and>
    parse_block b = Inr \<lparr>header_name = path, header_size = sz, header_mode = mode\<rparr>"
proof -
  from b obtain pre name md uid gid szf mt where s: "split_header_path path = Some (pre, name)"
    and w: "write_octal 8 mode = Inr md" "write_octal 8 0 = Inr uid" "write_octal 8 0 = Inr gid"
      "write_octal 12 sz = Inr szf" "write_octal 12 0 = Inr mt"
    and sign: "sign_header ''BUILD_IO'' (unsigned_header name pre md uid gid szf mt) = Inr b"
    by (auto simp: tar_header_def)
  from sm have nf: "number_fields mode sz md uid gid szf mt"
    using w unfolding write_octal_def by (intro number_fieldsI) (auto simp: max_file_bytes_def)
  note split = split_header_path_SomeD [OF s]
  have "path = pre @ slash # name \<Longrightarrow> pre \<noteq> []" using path(3) by auto
  then have whole: "path = (if pre = [] then name else pre @ slash # name)" using split(3) by auto
  have parts: "NUL \<notin> set name" "valid_utf8 name" "NUL \<notin> set pre" "valid_utf8 pre"
    using path whole by (auto simp: valid_utf8_at_ascii split: if_splits)
  note f = signed_block_fields [OF nf split(1) parts(1,2) split(2) parts(3,4) sign]
  have rest: "octal_field e (slice 108 116 b) = Inr 0" "octal_field e (slice 116 124 b) = Inr 0"
    "octal_field e (slice 136 148 b) = Inr 0" "octal_field e (slice 329 337 b) = Inr 0"
    "octal_field e (slice 337 345 b) = Inr 0" for e
    by (rule f(10); simp)+
  have "parse_block b = Inr \<lparr>header_name = path, header_size = sz, header_mode = mode\<rparr>"
    unfolding parse_block_def octal_def c_string_def using f(2-9,11,12) rest sm
    by (simp add: whole [symmetric])
  then show ?thesis using f(1) magic_not_zero [OF f(3)] by simp
qed

section \<open>Interfaces: a header codec and the archive it frames\<close>

text \<open>
  What the framed archives rely on: a header fills one block that is not the end-of-archive
  block, and reading it gives the header back. Writer and reader of the two archives meet it.
\<close>

locale header_codec =
  fixes encode :: "'h \<Rightarrow> bytes result"
    and decode :: "bytes \<Rightarrow> 'h result"
    and fits :: "'h \<Rightarrow> bool"
    and body_size :: "'h \<Rightarrow> nat"
  assumes encode_total: "fits h \<Longrightarrow> \<exists>b. encode h = Inr b"
    and encode_block: "fits h \<Longrightarrow> encode h = Inr b \<Longrightarrow> length b = 512 \<and> \<not> all_zero b"
    and decode_encode: "fits h \<Longrightarrow> encode h = Inr b \<Longrightarrow> decode b = Inr h"
begin

lemma encode_inj: "fits h \<Longrightarrow> fits h' \<Longrightarrow> encode h = Inr b \<Longrightarrow> encode h' = Inr b \<Longrightarrow> h = h'"
  by (drule decode_encode, assumption, drule decode_encode, assumption) simp

text \<open>An entry: its header, its payload, its padding; an archive: entries, then two zero blocks.\<close>

definition frame :: "'h \<times> bytes \<Rightarrow> bytes result" where
  "frame e = and_then (encode (fst e)) (\<lambda>b. Inr (b @ snd e @ write_padding (length (snd e))))"

definition frames :: "('h \<times> bytes) list \<Rightarrow> bytes result" where
  "frames es = and_then (map_result frame es) (\<lambda>bs. Inr (concat bs @ replicate 1024 NUL))"

definition fitting :: "'h \<times> bytes \<Rightarrow> bool" where
  "fitting e \<longleftrightarrow> fits (fst e) \<and> length (snd e) = body_size (fst e)"

lemma frame_total: "fitting e \<Longrightarrow> \<exists>b. frame e = Inr b"
  using encode_total by (auto simp: frame_def fitting_def)

lemma frames_Nil: "frames [] = Inr (replicate 1024 NUL)"
  by (simp add: frames_def)

lemma frames_Cons:
  "frames (e # es) = and_then (frame e) (\<lambda>b. and_then (frames es) (\<lambda>rest. Inr (b @ rest)))"
  by (cases "frame e"; cases "map_result frame es") (simp_all add: frames_def)

lemma frame_split:
  assumes "fitting e" "frame e = Inr b"
  shows "\<exists>h. b = h @ snd e @ write_padding (length (snd e)) \<and> length h = 512 \<and> \<not> all_zero h \<and>
    decode h = Inr (fst e)"
  using assms encode_block decode_encode by (auto simp: frame_def fitting_def)

lemma frames_total: "list_all fitting es \<Longrightarrow> \<exists>b. frames es = Inr b"
proof (induction es)
  case (Cons e es)
  then show ?case using frame_total [of e] by (auto simp: frames_Cons)
qed (simp add: frames_Nil)

text \<open>The archive determines its entries: no two inventories share a byte stream.\<close>

lemma frames_inj:
  assumes "frames es = Inr a" "frames fs = Inr a" "list_all fitting es" "list_all fitting fs"
  shows "es = fs"
  using assms
proof (induction es arbitrary: fs a)
  case Nil
  show ?case
  proof (cases fs)
    case (Cons f fs')
    with Nil obtain b rest where fb: "encode (fst f) = Inr b"
      "replicate 1024 NUL = b @ snd f @ rest"
      by (auto simp: frames_Cons frames_Nil frame_def) metis
    then have "length b = 512" "\<not> all_zero b"
      using Nil Cons encode_block by (auto simp: fitting_def)
    moreover from fb(2) have "all_zero (b @ snd f @ rest)" by (metis all_zero_replicate)
    ultimately show ?thesis by simp
  qed simp
next
  case (Cons e es)
  from Cons.prems obtain b rest where e: "encode (fst e) = Inr b" "frames es = Inr rest"
    "a = b @ snd e @ write_padding (length (snd e)) @ rest"
    by (auto simp: frames_Cons frame_def)
  have fe: "fits (fst e)" "length (snd e) = body_size (fst e)"
    using Cons.prems by (auto simp: fitting_def)
  then have b: "length b = 512" "\<not> all_zero b" using encode_block e(1) by blast+
  show ?case
  proof (cases fs)
    case Nil
    with Cons.prems e have "replicate 1024 NUL = b @ snd e @ write_padding (length (snd e)) @ rest"
      by (simp add: frames_Nil)
    then have "all_zero (b @ snd e @ write_padding (length (snd e)) @ rest)"
      by (metis all_zero_replicate)
    with b show ?thesis by simp
  next
    case fs: (Cons f fs')
    with Cons.prems obtain b' rest' where f: "encode (fst f) = Inr b'" "frames fs' = Inr rest'"
      "a = b' @ snd f @ write_padding (length (snd f)) @ rest'"
      by (auto simp: frames_Cons frame_def)
    have ff: "fits (fst f)" "length (snd f) = body_size (fst f)"
      using Cons.prems fs by (auto simp: fitting_def)
    then have "length b' = 512" using encode_block f(1) by blast
    with b e(3) f(3) have "b = b'" by (simp add: append_eq_append_conv)
    with encode_inj fe ff e(1) f(1) have h: "fst e = fst f" by blast
    then have "length (snd e) = length (snd f)" using fe ff by simp
    moreover have "snd e @ write_padding (length (snd e)) @ rest =
        snd f @ write_padding (length (snd f)) @ rest'"
      using \<open>b = b'\<close> e(3) f(3) by simp
    ultimately have body: "snd e = snd f" "rest = rest'"
      by (simp_all add: append_eq_append_conv)
    have "es = fs'"
      using Cons.IH [of rest fs'] Cons.prems(3,4) e(2) f(2) fs body(2) by simp
    with h body(1) fs show ?thesis by (simp add: prod_eq_iff)
  qed
qed

end

text \<open>Instance: the artifact's \<open>tar_header\<close> and \<open>read_header\<close>.\<close>

definition artifact_fits :: "header \<Rightarrow> bool" where
  "artifact_fits h \<longleftrightarrow> NUL \<notin> set (header_name h) \<and> valid_utf8 (header_name h) \<and>
     \<not> prefix ''/'' (header_name h) \<and> encodable_path (header_name h) \<and>
     header_size h \<le> max_file_bytes \<and> header_mode h \<in> {mode_644, mode_755}"

definition encode_header :: "header \<Rightarrow> bytes result" where
  "encode_header h = tar_header (header_name h) (header_size h) (header_mode h)"

interpretation artifact: header_codec encode_header parse_block artifact_fits header_size
proof unfold_locales
  fix h b
  assume fits: "artifact_fits h"
  then show "\<exists>b. encode_header h = Inr b"
    by (auto simp: encode_header_def artifact_fits_def tar_header_total max_file_bytes_def)
  assume "encode_header h = Inr b"
  with fits have "length b = 512 \<and> \<not> all_zero b \<and> parse_block b = Inr h"
    unfolding encode_header_def artifact_fits_def using tar_header_parse by force
  then show "length b = 512 \<and> \<not> all_zero b" "parse_block b = Inr h" by blast+
qed

section \<open>Properties of the header codec\<close>

text \<open>\<open>tar_header\<close> succeeds exactly for the paths USTAR can name (at most 100 bytes, or a
  slash that leaves at most 155 bytes before and 100 after it) and the numbers its fields hold.\<close>

theorem tar_header_defined:
  "(\<exists>b. tar_header path sz mode = Inr b) \<longleftrightarrow> encodable_path path \<and> mode < 8 ^ 7 \<and> sz < 8 ^ 11"
  by (rule tar_header_total)

text \<open>A header written for a payload entry is one 512-byte block, is not mistaken for the end
  of the archive, and the verifier's reader gets back the same path, size and mode, whether or
  not the path was split into prefix and name.\<close>

theorem header_roundtrip:
  assumes "artifact_fits h"
  shows "\<exists>b. tar_header (header_name h) (header_size h) (header_mode h) = Inr b \<and>
    length b = 512 \<and> \<not> all_zero b \<and> parse_block b = Inr h"
  using artifact.encode_total [OF assms] artifact.encode_block [OF assms]
    artifact.decode_encode [OF assms] by (auto simp: encode_header_def)

theorem header_roundtrip_witness:
  "\<exists>b. tar_header ''docs/readme.md'' 700 mode_644 = Inr b \<and>
     parse_block b = Inr \<lparr>header_name = ''docs/readme.md'', header_size = 700, header_mode = mode_644\<rparr>"
proof -
  have "artifact_fits \<lparr>header_name = ''docs/readme.md'', header_size = 700, header_mode = mode_644\<rparr>"
    by (simp add: artifact_fits_def encodable_path_def max_file_bytes_def Let_def)
  from header_roundtrip [OF this] show ?thesis by auto
qed

text \<open>The staged path of the concrete case below: 246 bytes, its last component 80.\<close>

definition long_path :: string where
  "long_path = ''docs/'' @ replicate 160 (CHR ''a'') @ slash # replicate 80 (CHR ''a'')"

lemma long_path_parts:
  "split_on slash long_path = [''docs'', replicate 160 (CHR ''a''), replicate 80 (CHR ''a'')]"
proof -
  have "slash \<notin> set (replicate n (CHR ''a''))" for n by simp
  then show ?thesis
    unfolding long_path_def using split_on_append [of slash "''docs''"]
    by (simp add: split_on_append split_on_no_sep del: set_replicate)
qed

lemma long_path_letters: "set long_path = set ''docs/a''"
  unfolding long_path_def by auto

lemma long_path_length: "length long_path = 246"
  unfolding long_path_def by simp

lemma long_path_not_encodable: "\<not> encodable_path long_path"
proof
  assume "encodable_path long_path"
  then obtain pre name where p: "long_path = pre @ slash # name" "length pre \<le> 155" "length name \<le> 100"
    unfolding encodable_path_def long_path_length by auto
  have "length pre + length name = 245" using long_path_length unfolding p(1) by simp
  with p(2,3) have "145 \<le> length pre" by simp
  with p(2) have "long_path ! length pre = CHR ''a''" by (auto simp: long_path_def nth_append nth_Cons')
  then show False unfolding p(1) by (simp add: nth_append)
qed

lemma long_path_valid: "validate_path long_path = Inr ()"
proof -
  have ascii: "is_ascii long_path"
    unfolding is_ascii_def list_all_iff long_path_letters by simp
  have part: "to_lowercase p = p" if "p \<in> set (split_on slash long_path)" for p
  proof -
    have "set p \<subseteq> set ''docsa''" using that unfolding long_path_parts by auto
    then have *: "\<forall>c\<in>set p. byte_val c < 128 \<and> lower_byte c = c"
      by (auto simp: lower_byte_def is_upper_def)
    then have "is_ascii p" by (simp add: is_ascii_def list_all_iff)
    then show ?thesis using * by (simp add: to_lowercase_ascii map_idI)
  qed
  have whole: "to_lowercase long_path = long_path"
    unfolding to_lowercase_ascii [OF ascii]
    by (rule map_idI) (auto simp: long_path_letters lower_byte_def is_upper_def)
  have last: "last long_path = CHR ''a''" by (simp add: long_path_def)
  have "\<not> suffix x long_path" if "x \<in> set forbidden_suffixes" for x
    using that suffix_last [of x long_path] last by (auto simp: forbidden_suffixes_def)
  then have no_suffix: "\<not> list_ex (\<lambda>x. suffix x (to_lowercase long_path)) forbidden_suffixes"
    by (simp add: list_ex_iff whole)
  have short: "\<forall>w\<in>set forbidden_parts. length w < 80 \<and> w \<noteq> ''docs''"
    by (simp add: forbidden_parts_def)
  have "p \<notin> set forbidden_parts" if "p \<in> set (split_on slash long_path)" for p
    using that short unfolding long_path_parts by auto
  then have no_part: "\<not> list_ex (\<lambda>s. List.member forbidden_parts (to_lowercase s)) (split_on slash long_path)"
    by (simp add: list_ex_iff part)
  have control: "\<not> has_control long_path"
    unfolding has_control_ascii [OF ascii] list_ex_iff long_path_letters by simp
  have edge: "\<not> suffix ''/'' long_path" using suffix_last [of "''/''" long_path] last by auto
  have "\<not> prefix ''/'' long_path" "long_path \<noteq> []" by (simp_all add: long_path_def)
  moreover have "\<not> list_ex (\<lambda>c. c \<in> {CHR 0x5C, CHR '':'', NUL}) long_path"
    unfolding list_ex_iff long_path_letters by simp
  moreover have "replicate n (CHR ''a'') \<notin> {[], ''.'', ''..''}" if "80 \<le> n" for n
    using that by (auto dest: arg_cong [where f = length])
  then have "\<not> (length (split_on slash long_path) < 2 \<or> 100 < length (last (split_on slash long_path)) \<or>
      list_ex (\<lambda>s. s = [] \<or> s = ''.'' \<or> s = ''..'') (split_on slash long_path))"
    "hd (split_on slash long_path) = ''docs''"
    unfolding long_path_parts by simp_all
  ultimately show ?thesis
    unfolding validate_path_def using no_suffix no_part control edge long_path_length
    by (simp add: path_roots_def Let_def del: list_ex_iff)
qed

text \<open>C12. The path policy does not imply that a path has a USTAR header: it accepts a path of 246
  bytes for which the writer fails with \<open>BUILD_IO\<close>, although its message promises a
  USTAR-compatible path.\<close>

theorem validate_path_not_encodable:
  "validate_path long_path = Inr () \<and> tar_header long_path sz mode = fail ''BUILD_IO''"
  using long_path_valid long_path_not_encodable split_header_path_iff [of long_path]
  by (auto simp: tar_header_def ok_or_def split: option.split)

end
