(* ===== verification/BundleTar.thy ===== *)
theory BundleTar
  imports Ustar
begin

text \<open>
  The tar codec of the management bundle (\<open>src/src/management/bundle/tar.rs\<close>) with the payload
  table and limits of \<open>management/bundle.rs\<close>. A \<open>BTreeMap\<close> from names to mode and bytes is an
  association list with distinct keys; its order is never observed, because the writer asks for
  the names in a fixed order. Every error is the one code \<open>CLI_BUNDLE_INVALID\<close>.
\<close>

section \<open>The fixed inventory\<close>

definition payloads :: "(string \<times> nat) list" where
  "payloads = [(''bin/bxdl'', mode_755), (''docs/completion.md'', mode_644),
     (''docs/management-cli.md'', mode_644), (''share/zsh/site-functions/_bxdl'', mode_644)]"

definition max_binary :: nat where "max_binary = 50331648"
definition max_text :: nat where "max_text = 1048576"
definition max_metadata :: nat where "max_metadata = 16384"
definition max_raw :: nat where "max_raw = 54525952"

definition entry_limit :: "string \<Rightarrow> nat" where
  "entry_limit path =
     (if path = ''bin/bxdl'' then max_binary else if path = ''manifest.json'' then max_metadata
      else if path = ''manifest.sig'' then 128 else max_text)"

definition entry_order :: "string list" where
  "entry_order = [''manifest.json'', ''manifest.sig''] @ map fst payloads"

definition bundle_invalid :: string where
  "bundle_invalid = ''CLI_BUNDLE_INVALID''"

type_synonym entries = "(string \<times> nat \<times> bytes) list"

section \<open>Reading\<close>

definition number :: "bytes \<Rightarrow> nat result" where
  "number = octal_field bundle_invalid"

definition text_field :: "bytes \<Rightarrow> string result" where
  "text_field = c_string_field bundle_invalid"

text \<open>The checks of one block that is not all zero, without those on the entries so far.\<close>

definition bundle_block :: "bytes \<Rightarrow> header result" where
  "bundle_block h =
     and_then (ensure (\<not> (slice 156 157 h \<notin> {[NUL], ''0''} \<or> slice 257 263 h \<noteq> magic \<or>
                 slice 263 265 h \<noteq> ''00'' \<or> \<not> all_zero (slice 157 257 h) \<or>
                 \<not> all_zero (slice 500 512 h))) bundle_invalid) (\<lambda>_.
     and_then (number (slice 148 156 h)) (\<lambda>checksum.
     and_then (ensure (checksum = header_sum h) bundle_invalid) (\<lambda>_.
     and_then (text_field (slice 0 100 h)) (\<lambda>name.
     and_then (text_field (slice 345 500 h)) (\<lambda>pre.
     and_then (ensure (pre = []) bundle_invalid) (\<lambda>_.
     and_then (ensure (List.member entry_order name) bundle_invalid) (\<lambda>_.
     and_then (number (slice 100 108 h)) (\<lambda>mode.
     and_then (number (slice 124 136 h)) (\<lambda>sz.
     and_then (ensure (\<not> (sz = 0 \<or> entry_limit name < sz \<or> mode \<notin> {mode_644, mode_755}))
                 bundle_invalid) (\<lambda>_.
     and_then (map_result number [slice 108 116 h, slice 116 124 h, slice 136 148 h,
                 slice 329 337 h, slice 337 345 h]) (\<lambda>_.
     Inr \<lparr>header_name = name, header_size = sz, header_mode = mode\<rparr>)))))))))))"

text \<open>\<open>raw.get(offset..offset + n)\<close> on what is left.\<close>

definition get_bytes :: "nat \<Rightarrow> bytes \<Rightarrow> (bytes \<times> bytes) result" where
  "get_bytes n raw =
     and_then (ensure (n \<le> length raw) bundle_invalid) (\<lambda>_. Inr (take n raw, drop n raw))"

lemma get_bytes_Inr: "get_bytes n raw = Inr (a, b) \<longleftrightarrow> raw = a @ b \<and> length a = n"
  by (auto simp: get_bytes_def)

definition read_tail :: "bytes \<Rightarrow> unit result" where
  "read_tail rest =
     and_then (get_bytes 512 rest) (\<lambda>(z, tail).
     and_then (ensure (all_zero z) bundle_invalid) (\<lambda>_.
     ensure (\<not> (1048576 < length tail \<or> \<not> all_zero tail)) bundle_invalid))"

function read_from :: "bytes \<Rightarrow> entries \<Rightarrow> entries result" where
  "read_from raw acc =
     and_then (get_bytes 512 raw) (\<lambda>(h, rest).
     if all_zero h then and_then (read_tail rest) (\<lambda>_. Inr acc)
     else
       and_then (ensure (length acc < 6) bundle_invalid) (\<lambda>_.
       and_then (bundle_block h) (\<lambda>hd.
       and_then (ensure (\<not> (acc = [] \<and> header_name hd \<noteq> ''manifest.json'')) bundle_invalid) (\<lambda>_.
       and_then (get_bytes (header_size hd) rest) (\<lambda>(b, rest).
       and_then (get_bytes (padding (header_size hd)) rest) (\<lambda>(pad, rest).
       and_then (ensure (all_zero pad) bundle_invalid) (\<lambda>_.
       and_then (ensure (header_name hd \<notin> fst ` set acc) bundle_invalid) (\<lambda>_.
       read_from rest (acc @ [(header_name hd, header_mode hd, b)])))))))))"
  by pat_completeness auto
termination
  by (relation "measure (\<lambda>(raw, acc). length raw)") (auto simp: get_bytes_Inr)

declare read_from.simps [simp del]

definition read_tar :: "bytes \<Rightarrow> entries result" where
  "read_tar raw = read_from raw []"

section \<open>Writing\<close>

definition bundle_header :: "header \<Rightarrow> bytes result" where
  "bundle_header h =
     and_then (write_octal_field bundle_invalid 8 (header_mode h)) (\<lambda>md.
     and_then (write_octal_field bundle_invalid 8 0) (\<lambda>uid.
     and_then (write_octal_field bundle_invalid 8 0) (\<lambda>gid.
     and_then (write_octal_field bundle_invalid 12 (header_size h)) (\<lambda>sz.
     and_then (write_octal_field bundle_invalid 12 0) (\<lambda>mt.
     sign_header bundle_invalid (unsigned_header (header_name h) [] md uid gid sz mt))))))"

text \<open>The entries in the writer's order.\<close>

definition in_order :: "entries \<Rightarrow> entries" where
  "in_order es = List.map_filter (\<lambda>n. map_option (\<lambda>v. (n, v)) (map_of es n)) entry_order"

definition entry_frame :: "string \<times> nat \<times> bytes \<Rightarrow> header \<times> bytes" where
  "entry_frame = (\<lambda>(n, mode, b). (\<lparr>header_name = n, header_size = length b, header_mode = mode\<rparr>, b))"

definition write_entry :: "string \<times> nat \<times> bytes \<Rightarrow> bytes result" where
  "write_entry e =
     and_then (bundle_header (fst (entry_frame e))) (\<lambda>h.
     Inr (h @ snd (entry_frame e) @ write_padding (length (snd (entry_frame e)))))"

definition write_tar :: "entries \<Rightarrow> bytes result" where
  "write_tar es =
     and_then (map_result write_entry (in_order es)) (\<lambda>bs.
     let raw = concat bs @ replicate 1024 NUL in
     and_then (ensure (\<not> max_raw < length raw) bundle_invalid) (\<lambda>_. Inr raw))"

section \<open>The header codec\<close>

definition bundle_fits :: "header \<Rightarrow> bool" where
  "bundle_fits h \<longleftrightarrow> header_name h \<in> set entry_order \<and> 0 < header_size h \<and>
     header_size h \<le> entry_limit (header_name h) \<and> header_mode h \<in> {mode_644, mode_755}"

lemma entry_order_names:
  "n \<in> set entry_order \<Longrightarrow> length n \<le> 100 \<and> NUL \<notin> set n \<and> is_ascii n"
  by (auto simp: entry_order_def payloads_def)

lemma entry_limit_bound: "entry_limit n \<le> max_binary"
  by (simp add: entry_limit_def max_binary_def max_metadata_def max_text_def)

lemma bundle_header_total:
  assumes "bundle_fits h"
  shows "\<exists>b. bundle_header h = Inr b"
proof -
  have "header_mode h < 8 ^ 7" using assms by (auto simp: bundle_fits_def)
  moreover have "header_size h < 8 ^ 11"
    using assms entry_limit_bound [of "header_name h"] by (simp add: bundle_fits_def max_binary_def)
  ultimately obtain md z szf mt where w: "write_octal_field bundle_invalid 8 (header_mode h) = Inr md"
    "write_octal_field bundle_invalid 8 0 = Inr z" "write_octal_field bundle_invalid 12 (header_size h) = Inr szf"
    "write_octal_field bundle_invalid 12 0 = Inr mt"
    using write_octal_total [of 8 bundle_invalid] write_octal_total [of 12 bundle_invalid] by fastforce
  have "length (unsigned_header (header_name h) [] md z z szf mt) = 512"
    using w entry_order_names [of "header_name h"] assms
    by (intro unsigned_header_fields) (auto simp: bundle_fits_def intro: length_write_octal)
  then show ?thesis by (auto simp: bundle_header_def w sign_header_eq)
qed

lemma bundle_header_block:
  assumes fits: "bundle_fits h" and b: "bundle_header h = Inr b"
  shows "length b = 512 \<and> \<not> all_zero b \<and> bundle_block b = Inr h"
proof -
  from b obtain md uid gid szf mt where
    w: "write_octal_field bundle_invalid 8 (header_mode h) = Inr md"
      "write_octal_field bundle_invalid 8 0 = Inr uid" "write_octal_field bundle_invalid 8 0 = Inr gid"
      "write_octal_field bundle_invalid 12 (header_size h) = Inr szf"
      "write_octal_field bundle_invalid 12 0 = Inr mt"
    and sign: "sign_header bundle_invalid (unsigned_header (header_name h) [] md uid gid szf mt) = Inr b"
    by (auto simp: bundle_header_def)
  have "header_mode h \<le> u64_max" "header_size h \<le> u64_max"
    using fits entry_limit_bound [of "header_name h"] by (auto simp: bundle_fits_def max_binary_def)
  then have nf: "number_fields (header_mode h) (header_size h) md uid gid szf mt"
    using w by (intro number_fieldsI)
  have n: "length (header_name h) \<le> 100" "NUL \<notin> set (header_name h)" "valid_utf8 (header_name h)"
    using entry_order_names [of "header_name h"] fits by (auto simp: bundle_fits_def intro: valid_utf8_ascii)
  have e: "length ([] :: bytes) \<le> 155" "NUL \<notin> set []" "valid_utf8 []" by simp_all
  note f = signed_block_fields [OF nf n e sign]
  have rest: "octal_field x (slice 108 116 b) = Inr 0" "octal_field x (slice 116 124 b) = Inr 0"
    "octal_field x (slice 136 148 b) = Inr 0" "octal_field x (slice 329 337 b) = Inr 0"
    "octal_field x (slice 337 345 b) = Inr 0" for x
    by (rule f(10); simp)+
  have "bundle_block b = Inr h"
    unfolding bundle_block_def number_def text_field_def using f(2-9,11,12) rest fits
    by (simp add: bundle_fits_def not_less)
  then show ?thesis using f(1) magic_not_zero [OF f(3)] by simp
qed

interpretation cli_tar: header_codec bundle_header bundle_block bundle_fits header_size
  by unfold_locales (use bundle_header_total bundle_header_block in blast)+

lemma write_entry_frame: "write_entry e = cli_tar.frame (entry_frame e)"
  by (simp add: write_entry_def cli_tar.frame_def)


section \<open>What the reader accepts\<close>

text \<open>The invariant of the reader's map: the inventory, the limits and the modes.\<close>

definition bundle_entry_ok :: "string \<times> nat \<times> bytes \<Rightarrow> bool" where
  "bundle_entry_ok e \<longleftrightarrow> bundle_fits (fst (entry_frame e))"

definition entries_ok :: "entries \<Rightarrow> bool" where
  "entries_ok es \<longleftrightarrow> list_all bundle_entry_ok es \<and> distinct (map fst es) \<and> length es \<le> 6 \<and>
     (es \<noteq> [] \<longrightarrow> fst (hd es) = ''manifest.json'')"

lemma bundle_entry_ok_iff: "bundle_entry_ok (n, mode, b) \<longleftrightarrow>
    n \<in> set entry_order \<and> 0 < length b \<and> length b \<le> entry_limit n \<and> mode \<in> {mode_644, mode_755}"
  by (simp add: bundle_entry_ok_def entry_frame_def bundle_fits_def)

lemma bundle_block_fits: "bundle_block h = Inr hdr \<Longrightarrow> bundle_fits hdr"
  by (auto simp: bundle_block_def bundle_fits_def)

lemma entries_ok_snoc:
  assumes "entries_ok acc" "length acc < 6" "bundle_fits hdr" "length b = header_size hdr"
    "acc = [] \<Longrightarrow> header_name hdr = ''manifest.json''" "header_name hdr \<notin> fst ` set acc"
  shows "entries_ok (acc @ [(header_name hdr, header_mode hdr, b)])"
  using assms by (cases acc) (simp_all add: entries_ok_def bundle_entry_ok_iff bundle_fits_def, metis)

lemma read_from_ok: "entries_ok acc \<Longrightarrow> read_from raw acc = Inr es \<Longrightarrow> entries_ok es"
proof (induction raw acc arbitrary: es rule: read_from.induct)
  case (1 raw acc)
  obtain h rest where raw: "get_bytes 512 raw = Inr (h, rest)"
    using 1(3) by (subst (asm) read_from.simps) auto
  show ?case
  proof (cases "all_zero h")
    case True
    then show ?thesis using 1(2,3) raw by (subst (asm) read_from.simps) auto
  next
    case False
    then obtain hdr b rest1 pad rest2 where acc: "length acc < 6" and hdr: "bundle_block h = Inr hdr"
      and first: "\<not> (acc = [] \<and> header_name hdr \<noteq> ''manifest.json'')"
      and b: "get_bytes (header_size hdr) rest = Inr (b, rest1)"
      and pad: "get_bytes (padding (header_size hdr)) rest1 = Inr (pad, rest2)" "all_zero pad"
      and new: "header_name hdr \<notin> fst ` set acc"
      and rec: "read_from rest2 (acc @ [(header_name hdr, header_mode hdr, b)]) = Inr es"
      using 1(3) raw by (subst (asm) read_from.simps) auto
    have "entries_ok (acc @ [(header_name hdr, header_mode hdr, b)])"
      using 1(2) acc first new bundle_block_fits [OF hdr] b
      by (intro entries_ok_snoc) (auto simp: get_bytes_Inr)
    then show ?thesis
      using 1(1) [OF raw refl False _ hdr _ b refl pad(1) refl _ _ _ rec] acc first pad new by simp
  qed
qed

lemma read_tar_ok: "read_tar raw = Inr es \<Longrightarrow> entries_ok es"
  using read_from_ok [of "[]" raw es] by (simp add: read_tar_def entries_ok_def)

section \<open>Round trip\<close>

lemma get_bytes_append: "length a = n \<Longrightarrow> get_bytes n (a @ b) = Inr (a, b)"
  by (simp add: get_bytes_Inr)

lemma read_from_trailer: "read_from (replicate 1024 NUL) acc = Inr acc"
proof -
  have g: "get_bytes 512 (replicate 1024 NUL) = Inr (replicate 512 NUL, replicate 512 NUL)"
    "get_bytes 512 (replicate 512 NUL) = Inr (replicate 512 NUL, [])"
    by (simp_all add: get_bytes_def)
  show ?thesis by (subst read_from.simps) (simp add: g read_tail_def)
qed

lemma read_from_entry:
  assumes e: "bundle_entry_ok e" "write_entry e = Inr b" and acc: "length acc < 6"
    "acc = [] \<Longrightarrow> fst e = ''manifest.json''" "fst e \<notin> fst ` set acc"
  shows "read_from (b @ rest) acc = read_from rest (acc @ [e])"
proof -
  obtain n mode d where e_eq: "e = (n, mode, d)" by (cases e)
  have fr: "entry_frame e = (\<lparr>header_name = n, header_size = length d, header_mode = mode\<rparr>, d)"
    by (simp add: e_eq entry_frame_def)
  have "cli_tar.fitting (entry_frame e)"
    using e(1) by (simp add: cli_tar.fitting_def bundle_entry_ok_def fr)
  from cli_tar.frame_split [OF this] e(2) obtain h where
    b: "b = h @ d @ write_padding (length d)" and h: "length h = 512" "\<not> all_zero h"
    and dec: "bundle_block h = Inr \<lparr>header_name = n, header_size = length d, header_mode = mode\<rparr>"
    by (auto simp: write_entry_frame fr)
  have pad: "length (write_padding (length d)) = padding (length d)" "all_zero (write_padding (length d))"
    by (simp_all add: write_padding_def)
  show ?thesis
    using acc h by (subst read_from.simps)
      (simp add: b get_bytes_append [OF h(1)] dec get_bytes_append [OF refl] get_bytes_append [OF pad(1)]
        pad(2) e_eq)
qed

lemma read_from_written:
  assumes "map_result write_entry es = Inr bs" "entries_ok (acc @ es)"
  shows "read_from (concat bs @ replicate 1024 NUL) acc = Inr (acc @ es)"
  using assms
proof (induction es arbitrary: acc bs)
  case (Cons e es)
  then obtain b bs' where b: "write_entry e = Inr b" "map_result write_entry es = Inr bs'" "bs = b # bs'"
    by auto
  have "read_from (b @ concat bs' @ replicate 1024 NUL) acc =
      read_from (concat bs' @ replicate 1024 NUL) (acc @ [e])"
    using Cons.prems(2) b(1) by (intro read_from_entry) (auto simp: entries_ok_def)
  then show ?case using Cons.IH [of bs' "acc @ [e]"] Cons.prems b by simp
qed (simp add: read_from_trailer)


text \<open>The writer's order is a reordering of the map.\<close>

lemma map_of_select:
  "map_of (List.map_filter (\<lambda>n. map_option (\<lambda>v. (n, v)) (m n)) ns) k = (if k \<in> set ns then m k else None)"
  by (induction ns) (auto simp: map_filter_simps split: option.splits)

lemma keys_select:
  "map fst (List.map_filter (\<lambda>n. map_option (\<lambda>v. (n, v)) (m n)) ns) = filter (\<lambda>n. m n \<noteq> None) ns"
  by (induction ns) (auto simp: map_filter_simps split: option.splits)

text \<open>A map the writer can be given: the entries of \<open>payload\<close> in \<open>build\<close>.\<close>

definition writable :: "entries \<Rightarrow> bool" where
  "writable es \<longleftrightarrow> list_all bundle_entry_ok es \<and> distinct (map fst es) \<and>
     ''manifest.json'' \<in> fst ` set es"

lemma in_order_same_map:
  assumes "writable es"
  shows "map_of (in_order es) = map_of es"
proof
  fix k
  have "k \<notin> set entry_order \<Longrightarrow> map_of es k = None"
    using assms by (fastforce simp: writable_def list_all_iff bundle_entry_ok_iff map_of_eq_None_iff)
  then show "map_of (in_order es) k = map_of es k" by (simp add: in_order_def map_of_select)
qed

lemma distinct_entry_order: "distinct entry_order"
  by (simp add: entry_order_def payloads_def)

lemma in_order_ok:
  assumes "writable es"
  shows "entries_ok (in_order es)"
proof -
  have keys: "map fst (in_order es) = filter (\<lambda>n. map_of es n \<noteq> None) entry_order"
    by (simp only: in_order_def keys_select)
  have d: "distinct (map fst (in_order es))" unfolding keys by (simp add: distinct_entry_order)
  have "length (in_order es) = length (map fst (in_order es))" by simp
  also have "\<dots> \<le> length entry_order" unfolding keys by (rule length_filter_le)
  finally have len: "length (in_order es) \<le> 6" by (simp add: entry_order_def payloads_def)
  have "map_of es ''manifest.json'' \<noteq> None"
    using assms by (simp add: writable_def map_of_eq_None_iff)
  then have "hd (map fst (in_order es)) = ''manifest.json''"
    unfolding keys by (simp add: entry_order_def)
  then have first: "in_order es \<noteq> [] \<longrightarrow> fst (hd (in_order es)) = ''manifest.json''"
    by (cases "in_order es") simp_all
  have "list_all bundle_entry_ok (in_order es)"
  proof (unfold list_all_iff, rule ballI)
    fix e assume "e \<in> set (in_order es)"
    then have "map_of (in_order es) (fst e) = Some (snd e)" using d by (simp add: map_of_eq_Some_iff)
    then have "e \<in> set es" unfolding in_order_same_map [OF assms] by (auto dest: map_of_SomeD)
    then show "bundle_entry_ok e" using assms by (auto simp: writable_def list_all_iff)
  qed
  with d len first show ?thesis by (simp add: entries_ok_def)
qed

subsection \<open>The writer's own limit is never reached\<close>

lemma write_entry_total:
  assumes "bundle_entry_ok e"
  shows "\<exists>b. write_entry e = Inr b \<and> length b \<le> 1023 + entry_limit (fst e)"
proof -
  obtain n mode d where e: "e = (n, mode, d)" by (cases e)
  have "cli_tar.fitting (entry_frame e)"
    using assms by (simp add: cli_tar.fitting_def bundle_entry_ok_def entry_frame_def e)
  moreover from cli_tar.frame_total [OF this] obtain b where b: "write_entry e = Inr b"
    by (auto simp: write_entry_frame)
  ultimately obtain h where "b = h @ d @ write_padding (length d)" "length h = 512"
    using cli_tar.frame_split [of "entry_frame e" b] by (auto simp: write_entry_frame e entry_frame_def)
  then show ?thesis
    using b assms padding_less [of "length d"] by (simp add: write_padding_def e bundle_entry_ok_iff)
qed

lemma write_entries_total:
  assumes "list_all bundle_entry_ok es"
  shows "\<exists>bs. map_result write_entry es = Inr bs \<and>
    length (concat bs) \<le> sum_list (map (\<lambda>n. 1023 + entry_limit n) (map fst es))"
  using assms
proof (induction es)
  case (Cons e es)
  then obtain b bs where "write_entry e = Inr b" "length b \<le> 1023 + entry_limit (fst e)"
    "map_result write_entry es = Inr bs"
    "length (concat bs) \<le> sum_list (map (\<lambda>n. 1023 + entry_limit n) (map fst es))"
    using write_entry_total [of e] by auto
  then show ?case by (intro exI [of _ "b # bs"]) simp
qed simp

lemma sum_list_filter_le: "sum_list (map f (filter P xs)) \<le> sum_list (map f xs)" for f :: "'a \<Rightarrow> nat"
  by (induction xs) auto

lemma write_tar_total:
  assumes "writable es"
  shows "\<exists>bs. map_result write_entry (in_order es) = Inr bs \<and>
    write_tar es = Inr (concat bs @ replicate 1024 NUL) \<and> length (concat bs) \<le> 53500026"
proof -
  have "list_all bundle_entry_ok (in_order es)" using in_order_ok [OF assms] by (simp add: entries_ok_def)
  from write_entries_total [OF this] obtain bs where bs: "map_result write_entry (in_order es) = Inr bs"
    "length (concat bs) \<le> sum_list (map (\<lambda>n. 1023 + entry_limit n) (map fst (in_order es)))" by blast
  have "map fst (in_order es) = filter (\<lambda>n. map_of es n \<noteq> None) entry_order"
    by (simp only: in_order_def keys_select)
  then have "length (concat bs) \<le> sum_list (map (\<lambda>n. 1023 + entry_limit n) entry_order)"
    using bs(2) sum_list_filter_le [of "\<lambda>n. 1023 + entry_limit n"] by (metis order_trans)
  also have "\<dots> = 53500026"
    by (simp add: entry_order_def payloads_def entry_limit_def max_binary_def max_metadata_def max_text_def)
  finally have len: "length (concat bs) \<le> 53500026" .
  then have "length (concat bs @ replicate 1024 NUL) \<le> max_raw" by (simp add: max_raw_def)
  then show ?thesis using bs(1) len by (simp add: write_tar_def Let_def not_less)
qed

lemma write_read_tar:
  assumes "writable es"
  shows "\<exists>raw. write_tar es = Inr raw \<and> read_tar raw = Inr (in_order es) \<and> map_of (in_order es) = map_of es"
  using write_tar_total [OF assms] in_order_ok [OF assms] read_from_written [of "in_order es" _ "[]"]
    in_order_same_map [OF assms] by (auto simp: read_tar_def)

section \<open>Properties\<close>

text \<open>Every archive the reader accepts holds at most six entries with distinct names of the fixed
  inventory, the manifest first, each non-empty, within its own limit and with one of the two modes.\<close>

theorem bundle_archive_bounded:
  "read_tar raw = Inr es \<Longrightarrow>
     length es \<le> 6 \<and> distinct (map fst es) \<and> (es \<noteq> [] \<longrightarrow> fst (hd es) = ''manifest.json'') \<and>
     (\<forall>(n, mode, b) \<in> set es. n \<in> set entry_order \<and> 0 < length b \<and> length b \<le> entry_limit n \<and>
        mode \<in> {mode_644, mode_755})"
  by (drule read_tar_ok) (auto simp: entries_ok_def list_all_iff bundle_entry_ok_iff)

text \<open>Writing never fails on a map of inventory entries within their limits (its size limit is
  never reached), and reading the archive back gives the same map.\<close>

theorem bundle_tar_roundtrip:
  assumes "writable es"
  shows "\<exists>raw es'. write_tar es = Inr raw \<and> read_tar raw = Inr es' \<and> map_of es' = map_of es"
  using write_read_tar [OF assms] by blast

definition sample_entries :: entries where
  "sample_entries = [(''docs/completion.md'', mode_644, ''hints''), (''manifest.json'', mode_644, ''{}'')]"

lemma sample_writable: "writable sample_entries"
  by (simp add: writable_def sample_entries_def bundle_entry_ok_iff entry_order_def payloads_def
      entry_limit_def max_metadata_def max_text_def)

theorem bundle_tar_roundtrip_witness:
  "\<exists>raw es'. write_tar sample_entries = Inr raw \<and> read_tar raw = Inr es' \<and>
     map_of es' ''docs/completion.md'' = Some (mode_644, ''hints'')"
proof -
  from bundle_tar_roundtrip [OF sample_writable] obtain raw es' where
    "write_tar sample_entries = Inr raw" "read_tar raw = Inr es'" "map_of es' = map_of sample_entries"
    by blast
  moreover have "map_of sample_entries ''docs/completion.md'' = Some (mode_644, ''hints'')"
    by (simp add: sample_entries_def)
  ultimately show ?thesis by metis
qed

theorem bundle_archive_bounded_witness:
  "length (in_order sample_entries) \<le> 6 \<and> fst (hd (in_order sample_entries)) = ''manifest.json''"
proof -
  obtain raw where "read_tar raw = Inr (in_order sample_entries)"
    using write_read_tar [OF sample_writable] by blast
  from bundle_archive_bounded [OF this] show ?thesis
    by (simp add: in_order_def sample_entries_def entry_order_def map_filter_simps)
qed

end
