(* ===== verification/Verify.thy ===== *)
theory Verify
  imports Ustar "HOL-Library.Multiset"
begin

text \<open>
  The streaming verifier (\<open>src/src/artifact/verify.rs\<close>): \<open>verify_inner\<close> with its readers, its
  payload loop, the sink it feeds and the checks after the end of the tar stream.

  Third-party code is a parameter: \<open>gunzip\<close> (flate2's single-member decoder), the hash, base64,
  the signature check and the JSON parser, collected in the record \<open>crypto\<close>. The file system's
  answers are the record \<open>archive_file\<close>.
\<close>

section \<open>The limited decompressed stream\<close>

text \<open>
  What \<open>GzDecoder\<close> makes of a compressed file: the bytes it gives, whether the end of the member
  (its checksum) is sound, and the bytes of the file after the member (\<open>None\<close>: they cannot be
  read).
\<close>

record gz_member =
  gz_output :: bytes
  gz_sound :: bool
  gz_rest :: "bytes option"

text \<open>\<open>raw\<close>: what the decoder still gives and what \<open>take\<close> still allows.\<close>

record stream =
  pending :: bytes
  allowance :: nat

definition raw_limit :: nat where
  "raw_limit = max_total_bytes + max_manifest_bytes + (max_files + 2) * 1024 + 1048576"

text \<open>\<open>r.read_exact\<close>: every failure (end of output, end of the allowance, a decoder error) is
  mapped to one error by each caller.\<close>

definition read_exact :: "nat \<Rightarrow> string \<Rightarrow> stream \<Rightarrow> (bytes \<times> stream) result" where
  "read_exact n e s =
     and_then (ensure (n \<le> length (pending s) \<and> n \<le> allowance s) e) (\<lambda>_.
     Inr (take n (pending s),
          s\<lparr>pending := drop n (pending s), allowance := allowance s - n\<rparr>))"

definition read_header :: "stream \<Rightarrow> (header option \<times> stream) result" where
  "read_header s =
     and_then (read_exact 512 ''ARCHIVE_INVALID'' s) (\<lambda>(block, s).
     if all_zero block then
       and_then (read_exact 512 ''ARCHIVE_INVALID'' s) (\<lambda>(second, s).
       and_then (ensure (all_zero second) ''ARCHIVE_INVALID'') (\<lambda>_. Inr (None, s)))
     else and_then (parse_block block) (\<lambda>h. Inr (Some h, s)))"

definition read_padding :: "nat \<Rightarrow> stream \<Rightarrow> stream result" where
  "read_padding n s =
     and_then (read_exact (padding n) ''ARCHIVE_INVALID'' s) (\<lambda>(pad, s).
     and_then (ensure (all_zero pad) ''ARCHIVE_INVALID'') (\<lambda>_. Inr s))"

definition read_small :: "nat \<Rightarrow> stream \<Rightarrow> (bytes \<times> stream) result" where
  "read_small n s =
     and_then (read_exact n ''ARCHIVE_INVALID'' s) (\<lambda>(b, s).
     and_then (read_padding n s) (\<lambda>s. Inr (b, s)))"

section \<open>The sink\<close>

text \<open>The calls of the trait \<open>PayloadSink\<close>; a sink is a fallible step on its state.\<close>

datatype sink_call =
    SinkBegin manifest bytes "bytes option"
  | StartFile file_entry
  | WriteChunk bytes
  | FinishFile

type_synonym 's sink = "sink_call \<Rightarrow> 's \<Rightarrow> 's result"

text \<open>\<open>sink = None\<close>.\<close>

definition no_sink :: "unit sink" where
  "no_sink c s = Inr s"

text \<open>A sink that keeps the calls it got.\<close>

definition recording_sink :: "sink_call list sink" where
  "recording_sink c log = Inr (log @ [c])"

section \<open>Payload entries\<close>

abbreviation chunk_size :: nat where "chunk_size \<equiv> 32768"

text \<open>The loop over one payload; \<open>done\<close> is what the digest has seen.\<close>

function read_payload :: "'s sink \<Rightarrow> nat \<Rightarrow> bytes \<Rightarrow> stream \<Rightarrow> 's \<Rightarrow> (bytes \<times> stream \<times> 's) result" where
  "read_payload sink remaining seen s st =
     (if remaining = 0 then Inr (seen, s, st)
      else
        let amount = min remaining chunk_size in
        and_then (read_exact amount ''ARCHIVE_INVALID'' s) (\<lambda>(chunk, s).
        and_then (sink (WriteChunk chunk) st) (\<lambda>st.
        read_payload sink (remaining - amount) (seen @ chunk) s st)))"
  by pat_completeness auto
termination
  by (relation "measure (\<lambda>(sink, remaining, seen, s, st). remaining)") auto

declare read_payload.simps [simp del]

text \<open>\<open>inventory.remove(name)\<close>; the paths of a valid manifest are distinct.\<close>

definition without :: "string \<Rightarrow> file_entry list \<Rightarrow> file_entry list" where
  "without p fs = filter (\<lambda>f. file_path f \<noteq> p) fs"

lemma length_without: "lookup_file p fs = Some f \<Longrightarrow> length (without p fs) < length fs"
  using lookup_file_SomeD [of p fs f] by (auto simp: without_def intro!: length_filter_less)

record ('a, 'k) crypto =
  gunzip :: "bytes \<Rightarrow> gz_member"
  sha256_hex :: "bytes \<Rightarrow> string"
  base64_decode :: "string \<Rightarrow> bytes option"
  signature_of :: "bytes \<Rightarrow> 'a option"
  verify_strict :: "'k \<Rightarrow> bytes \<Rightarrow> 'a \<Rightarrow> bool"
  parse_json :: "bytes \<Rightarrow> json option"

text \<open>One turn of the loop over headers: everything before the next header is read.\<close>

definition verify_entry ::
  "('a, 'k) crypto \<Rightarrow> 's sink \<Rightarrow> header \<Rightarrow> file_entry \<Rightarrow> stream \<Rightarrow> 's \<Rightarrow> (stream \<times> 's) result" where
  "verify_entry c sink h f s st =
     and_then (ensure (\<not> (header_size h \<noteq> file_size f \<or> header_mode h \<noteq> file_mode f))
                 ''INVENTORY_MISMATCH'') (\<lambda>_.
     and_then (sink (StartFile f) st) (\<lambda>st.
     and_then (read_payload sink (header_size h) [] s st) (\<lambda>(payload, s, st).
     and_then (ensure (sha256_hex c payload = file_sha256 f) ''HASH_MISMATCH'') (\<lambda>_.
     and_then (read_padding (header_size h) s) (\<lambda>s.
     and_then (sink FinishFile st) (\<lambda>st. Inr (s, st)))))))"

function verify_entries ::
  "('a, 'k) crypto \<Rightarrow> 's sink \<Rightarrow> header option \<Rightarrow> file_entry list \<Rightarrow> nat \<Rightarrow> nat \<Rightarrow> stream \<Rightarrow> 's
     \<Rightarrow> (file_entry list \<times> nat \<times> nat \<times> stream \<times> 's) result" where
  "verify_entries c sink next inventory nfiles nbytes s st =
     (case next of
        None \<Rightarrow> Inr (inventory, nfiles, nbytes, s, st)
      | Some h \<Rightarrow>
          and_then (validate_path (header_name h)) (\<lambda>_.
          case lookup_file (header_name h) inventory of
            None \<Rightarrow> fail ''INVENTORY_MISMATCH''
          | Some f \<Rightarrow>
              and_then (verify_entry c sink h f s st) (\<lambda>(s, st).
              and_then (read_header s) (\<lambda>(next, s).
              verify_entries c sink next (without (header_name h) inventory)
                (Suc nfiles) (nbytes + header_size h) s st))))"
  by pat_completeness auto
termination
  by (relation "measure (\<lambda>(c, sink, next, inventory, nfiles, nbytes, s, st). length inventory)")
    (auto dest: length_without)

declare verify_entries.simps [simp del]

section \<open>After the end of the tar stream\<close>

text \<open>
  The loop that reads what follows the two zero blocks. How many bytes one \<open>read\<close> returns is
  the decoder's choice \<open>give\<close>, between one and the \<open>room\<close> bytes that fit and are left.
\<close>

function drain :: "(nat \<Rightarrow> nat) \<Rightarrow> bool \<Rightarrow> nat \<Rightarrow> stream \<Rightarrow> stream result" where
  "drain give sound sofar s =
     (let room = min (length (pending s)) (min chunk_size (allowance s));
          n = min (max 1 (give room)) room in
      and_then (ensure (allowance s = 0 \<or> pending s \<noteq> [] \<or> sound) ''ARCHIVE_INVALID'') (\<lambda>_.
      let chunk = take n (pending s);
          s' = s\<lparr>pending := drop n (pending s), allowance := allowance s - n\<rparr> in
      and_then (ensure (\<not> (1048576 < sofar + n \<or> allowance s' = 0)) ''LIMIT_EXCEEDED'') (\<lambda>_.
      and_then (ensure (all_zero chunk) ''ARCHIVE_TRAILING_DATA'') (\<lambda>_.
      if n = 0 then Inr s' else drain give sound (sofar + n) s'))))"
  by pat_completeness (simp only: prod.inject)
termination
proof (relation "measure (\<lambda>(give, sound, sofar, s). length (pending s))")
  fix give :: "nat \<Rightarrow> nat" and sound sofar s room n chunk s'
  assume room: "room = min (length (pending s)) (min chunk_size (allowance s))"
    and n: "n = min (max 1 (give room)) room" "n \<noteq> 0"
    and s': "s' = s\<lparr>pending := drop n (pending s), allowance := allowance s - n\<rparr>"
  have "n \<le> room" unfolding n(1) by (rule min.cobounded2)
  also have "room \<le> length (pending s)" unfolding room by (rule min.cobounded1)
  finally have "n \<le> length (pending s)" .
  moreover have "pending s' = drop n (pending s)" unfolding s' by simp
  moreover have "0 < n" using n(2) by (rule neq0_conv [THEN iffD1])
  ultimately have "length (pending s') < length (pending s)" by (simp only: length_drop)
  then show "((give, sound, sofar + n, s'), give, sound, sofar, s) \<in> measure (\<lambda>(give, sound, sofar, s). length (pending s))"
    by simp
qed simp

declare drain.simps [simp del]

section \<open>The manifest and its signature\<close>

text \<open>Reads \<open>manifest.sig\<close> and checks it against the trusted key.\<close>

definition verify_signature ::
  "('a, 'k) crypto \<Rightarrow> 'k option \<Rightarrow> bytes \<Rightarrow> header \<Rightarrow> stream \<Rightarrow> (bytes \<times> stream) result" where
  "verify_signature c key manifest_bytes h s =
     and_then (ensure (\<not> (header_size h = 0 \<or> 128 < header_size h \<or> header_mode h \<noteq> mode_644))
                 ''SIGNATURE_INVALID'') (\<lambda>_.
     and_then (read_small (header_size h) s) (\<lambda>(raw, s).
     and_then (ensure (valid_utf8 raw) ''SIGNATURE_INVALID'') (\<lambda>_.
     and_then (ok_or (base64_decode c (trim raw)) ''SIGNATURE_INVALID'') (\<lambda>decoded.
     and_then (ok_or (signature_of c decoded) ''SIGNATURE_INVALID'') (\<lambda>signature.
     and_then (ok_or key ''TRUST_KEY_REQUIRED'') (\<lambda>trusted.
     and_then (ensure (verify_strict c trusted manifest_bytes signature) ''SIGNATURE_INVALID'') (\<lambda>_.
     Inr (raw, s))))))))"

definition read_manifest ::
  "('a, 'k) crypto \<Rightarrow> stream \<Rightarrow> (bytes \<times> manifest \<times> stream) result" where
  "read_manifest c s =
     and_then (read_header s) (\<lambda>(first, s).
     and_then (ok_or first ''MANIFEST_INVALID'') (\<lambda>first.
     and_then (ensure (\<not> (header_name first \<noteq> ''manifest.json'' \<or> header_mode first \<noteq> mode_644 \<or>
                 header_size first = 0 \<or> max_manifest_bytes < header_size first))
                 ''MANIFEST_INVALID'') (\<lambda>_.
     and_then (read_small (header_size first) s) (\<lambda>(mb, s).
     and_then (decode_strict_json (parse_json c) manifest_of_json mb) (\<lambda>m.
     and_then (validate_manifest m True) (\<lambda>_.
     Inr (mb, m, s)))))))"

text \<open>The signature decision: the header after it, the signature's bytes, what it establishes.\<close>

definition authenticate ::
  "('a, 'k) crypto \<Rightarrow> 'k option \<Rightarrow> bool \<Rightarrow> bytes \<Rightarrow> header option \<Rightarrow> stream
     \<Rightarrow> (header option \<times> bytes option \<times> string \<times> stream) result" where
  "authenticate c key allow_unsigned mb next s =
     (case next of
        Some h \<Rightarrow>
          if header_name h = ''manifest.sig'' then
            and_then (verify_signature c key mb h s) (\<lambda>(raw, s).
            and_then (read_header s) (\<lambda>(next, s).
            Inr (next, Some raw, ''verified-external-ed25519'', s)))
          else and_then (ensure (\<not> (\<not> allow_unsigned \<or> key \<noteq> None)) ''SIGNATURE_REQUIRED'') (\<lambda>_.
               Inr (next, None, ''unsigned-development'', s))
      | None \<Rightarrow> and_then (ensure (\<not> (\<not> allow_unsigned \<or> key \<noteq> None)) ''SIGNATURE_REQUIRED'') (\<lambda>_.
               Inr (next, None, ''unsigned-development'', s)))"

section \<open>The whole verification\<close>

record report =
  report_manifest :: manifest
  archive_sha256 :: string
  manifest_sha256 :: string
  authenticity :: string
  files_verified :: nat
  bytes_verified :: nat

text \<open>From the decompressed stream to the end-of-stream checks.\<close>

definition verify_stream ::
  "('a, 'k) crypto \<Rightarrow> 'k option \<Rightarrow> bool \<Rightarrow> 's sink \<Rightarrow> (nat \<Rightarrow> nat) \<Rightarrow> gz_member \<Rightarrow> 's
     \<Rightarrow> (bytes \<times> manifest \<times> string \<times> nat \<times> nat \<times> 's) result" where
  "verify_stream c key allow_unsigned sink give gz st =
     and_then (read_manifest c \<lparr>pending = gz_output gz, allowance = raw_limit\<rparr>) (\<lambda>(mb, m, s).
     and_then (read_header s) (\<lambda>(next, s).
     and_then (authenticate c key allow_unsigned mb next s) (\<lambda>(next, sig, auth, s).
     and_then (sink (SinkBegin m mb sig) st) (\<lambda>st.
     and_then (verify_entries c sink next (files m) 0 0 s st)
              (\<lambda>(inventory, nfiles, nbytes, s, st).
     and_then (ensure (inventory = []) ''INVENTORY_MISMATCH'') (\<lambda>_.
     and_then (drain give (gz_sound gz) 0 s) (\<lambda>_.
     and_then (ok_or (gz_rest gz) ''ARCHIVE_INVALID'') (\<lambda>rest.
     and_then (ensure (rest = []) ''ARCHIVE_TRAILING_DATA'') (\<lambda>_.
     Inr (mb, m, auth, nfiles, nbytes, st))))))))))"

record file_meta =
  meta_regular :: bool
  meta_len :: nat
  meta_node :: "nat \<times> nat"
  meta_modified :: "nat option"

text \<open>The answers the file system gives during one verification (\<open>None\<close>: an error).\<close>

record archive_file =
  meta_before :: "file_meta option"
  meta_opened :: "file_meta option option"
  content :: bytes
  meta_after :: "file_meta option"

definition verify_inner ::
  "('a, 'k) crypto \<Rightarrow> archive_file \<Rightarrow> 'k option \<Rightarrow> bool \<Rightarrow> 's sink \<Rightarrow> (nat \<Rightarrow> nat) \<Rightarrow> 's
     \<Rightarrow> (report \<times> 's) result" where
  "verify_inner c a key allow_unsigned sink give st =
     and_then (ok_or (meta_before a) ''ARCHIVE_INVALID'') (\<lambda>before.
     and_then (ensure (meta_regular before) ''ARCHIVE_INVALID'') (\<lambda>_.
     and_then (ensure (\<not> (meta_len before = 0 \<or> max_archive_bytes < meta_len before))
                 ''LIMIT_EXCEEDED'') (\<lambda>_.
     and_then (ok_or (meta_opened a) ''ARCHIVE_INVALID'') (\<lambda>opened.
     and_then (ok_or opened ''ARCHIVE_INVALID'') (\<lambda>opened.
     and_then (ensure (\<not> (\<not> meta_regular opened \<or> meta_node before \<noteq> meta_node opened \<or>
                 meta_len before \<noteq> meta_len opened)) ''ARCHIVE_INVALID'') (\<lambda>_.
     let read = take (Suc max_archive_bytes) (content a) in
     and_then (verify_stream c key allow_unsigned sink give (gunzip c read) st)
              (\<lambda>(mb, m, auth, nfiles, nbytes, st).
     and_then (ensure (\<not> max_archive_bytes < length read) ''LIMIT_EXCEEDED'') (\<lambda>_.
     and_then (ok_or (meta_after a) ''ARCHIVE_CHANGED'') (\<lambda>after.
     and_then (ensure (\<not> (meta_len after \<noteq> meta_len before \<or>
                 meta_modified after \<noteq> meta_modified before)) ''ARCHIVE_CHANGED'') (\<lambda>_.
     Inr (\<lparr>report_manifest = m, archive_sha256 = sha256_hex c read,
           manifest_sha256 = sha256_hex c mb, authenticity = auth,
           files_verified = nfiles, bytes_verified = nbytes\<rparr>, st)))))))))))"

section \<open>What the readers accept\<close>

text \<open>\<open>s\<close> gives the bytes \<open>b\<close> and continues as \<open>s'\<close>.\<close>

definition consumes :: "stream \<Rightarrow> bytes \<Rightarrow> stream \<Rightarrow> bool" where
  "consumes s b s' \<longleftrightarrow> pending s = b @ pending s' \<and> allowance s = length b + allowance s'"

lemma consumes_Nil [simp]: "consumes s [] s' \<longleftrightarrow> s' = s"
  by (cases s; cases s') (auto simp: consumes_def)

lemma consumes_append: "consumes s (a @ b) u \<longleftrightarrow> (\<exists>t. consumes s a t \<and> consumes t b u)"
proof
  assume "consumes s (a @ b) u"
  then show "\<exists>t. consumes s a t \<and> consumes t b u"
    by (intro exI [of _ "\<lparr>pending = b @ pending u, allowance = length b + allowance u\<rparr>"])
      (simp add: consumes_def)
qed (auto simp: consumes_def)

lemma read_exact_Inr:
  "read_exact n e s = Inr (b, s') \<longleftrightarrow> length b = n \<and> consumes s b s'"
  by (cases s; cases s') (auto simp: read_exact_def consumes_def)

text \<open>A block that reads as the header \<open>h\<close>.\<close>

definition block_for :: "header \<Rightarrow> bytes \<Rightarrow> bool" where
  "block_for h b \<longleftrightarrow> length b = 512 \<and> \<not> all_zero b \<and> parse_block b = Inr h"

lemma all_zero_iff: "all_zero b \<longleftrightarrow> b = replicate (length b) NUL"
  by (induction b) (auto simp: all_zero_def)

lemma read_header_Some:
  "read_header s = Inr (Some h, s') \<longleftrightarrow> (\<exists>b. block_for h b \<and> consumes s b s')"
  by (auto simp: read_header_def read_exact_Inr block_for_def split: if_splits)

lemma read_header_None:
  "read_header s = Inr (None, s') \<longleftrightarrow> consumes s (replicate 1024 NUL) s'"
proof -
  have "replicate 1024 NUL = replicate 512 NUL @ replicate 512 NUL"
    by (simp flip: replicate_add)
  moreover have zero: "length b = 512 \<and> all_zero b \<longleftrightarrow> b = replicate 512 NUL" for b
    using all_zero_iff [of b] all_zero_replicate [of 512] length_replicate [of 512 NUL] by metis
  have "read_header s = Inr (None, s') \<longleftrightarrow>
      (\<exists>a t c. (length a = 512 \<and> all_zero a) \<and> (length c = 512 \<and> all_zero c) \<and>
         consumes s a t \<and> consumes t c s')"
    by (auto simp: read_header_def read_exact_Inr split: if_splits)
  ultimately show ?thesis unfolding zero by (simp add: consumes_append)
qed

lemma read_padding_Inr: "read_padding n s = Inr s' \<longleftrightarrow> consumes s (write_padding n) s'"
proof -
  have "all_zero b \<longleftrightarrow> b = write_padding n" if "length b = padding n" for b
    using all_zero_iff [of b] that by (simp add: write_padding_def)
  moreover have "length (write_padding n) = padding n" by (simp add: write_padding_def)
  ultimately show ?thesis by (auto simp: read_padding_def read_exact_Inr)
qed

lemma read_small_Inr:
  "read_small n s = Inr (b, s') \<longleftrightarrow> length b = n \<and> consumes s (b @ write_padding n) s'"
  by (auto simp: read_small_def read_exact_Inr read_padding_Inr consumes_append)

subsection \<open>One payload\<close>

function chunks :: "bytes \<Rightarrow> bytes list" where
  "chunks p = (if p = [] then [] else take chunk_size p # chunks (drop chunk_size p))"
  by pat_completeness auto
termination by (relation "measure length") auto

declare chunks.simps [simp del]

lemma concat_chunks: "concat (chunks p) = p"
  by (induction p rule: chunks.induct) (subst chunks.simps, simp)

definition entry_calls :: "file_entry \<Rightarrow> bytes \<Rightarrow> sink_call list" where
  "entry_calls f p = StartFile f # map WriteChunk (chunks p) @ [FinishFile]"

definition run_sink :: "'s sink \<Rightarrow> 's \<Rightarrow> sink_call list \<Rightarrow> 's result" where
  "run_sink sink = fold_result (\<lambda>st c. sink c st)"

lemma run_sink_append:
  "run_sink sink st (a @ b) = and_then (run_sink sink st a) (\<lambda>st. run_sink sink st b)"
  by (simp add: run_sink_def fold_result_append)

lemma run_sink_Cons: "run_sink sink st (c # b) = and_then (sink c st) (\<lambda>st. run_sink sink st b)"
  by (simp add: run_sink_def)

lemma run_sink_Nil [simp]: "run_sink sink st [] = Inr st"
  by (simp add: run_sink_def)

lemma run_recording [simp]: "run_sink recording_sink log cs = Inr (log @ cs)"
  by (induction cs arbitrary: log) (simp_all add: run_sink_Cons recording_sink_def)

lemma run_no_sink [simp]: "run_sink no_sink st cs = Inr st"
  by (induction cs) (simp_all add: run_sink_Cons no_sink_def)

lemma read_payload_Inr:
  "read_payload sink n seen s st = Inr (r, s', st') \<longleftrightarrow>
     (\<exists>p. length p = n \<and> consumes s p s' \<and> r = seen @ p \<and>
        run_sink sink st (map WriteChunk (chunks p)) = Inr st')"
proof (induction n arbitrary: seen s st rule: less_induct)
  case (less n)
  show ?case
  proof (cases "n = 0")
    case True
    then show ?thesis by (subst read_payload.simps) (auto simp: chunks.simps)
  next
    case False
    define k where "k = min n chunk_size"
    have k: "k \<le> n" "n - k < n" using False by (auto simp: k_def)
    have split: "p = take k p @ drop k p" for p :: bytes by simp
    have chunk: "chunks p = take k p # chunks (drop k p)" if "length p = n" for p
    proof -
      have "take chunk_size p = take k p" "drop chunk_size p = drop k p"
        using that by (auto simp: k_def min_def)
      moreover have "p \<noteq> []" using that False by auto
      ultimately show ?thesis by (subst chunks.simps) simp
    qed
    have step: "read_payload sink n seen s st = Inr (r, s', st') \<longleftrightarrow>
        (\<exists>c t u. length c = k \<and> consumes s c t \<and> sink (WriteChunk c) st = Inr u \<and>
           read_payload sink (n - k) (seen @ c) t u = Inr (r, s', st'))"
      using False by (subst read_payload.simps) (auto simp: Let_def k_def read_exact_Inr)
    show ?thesis
    proof
      assume "read_payload sink n seen s st = Inr (r, s', st')"
      then obtain c t u q where c: "length c = k" "consumes s c t" "sink (WriteChunk c) st = Inr u"
        and q: "length q = n - k" "consumes t q s'" "r = (seen @ c) @ q"
          "run_sink sink u (map WriteChunk (chunks q)) = Inr st'"
        unfolding step less.IH [OF k(2)] by blast
      have "length (c @ q) = n" using c q k by simp
      moreover from chunk [OF this] c(1) have "chunks (c @ q) = c # chunks q" by simp
      ultimately show "\<exists>p. length p = n \<and> consumes s p s' \<and> r = seen @ p \<and>
          run_sink sink st (map WriteChunk (chunks p)) = Inr st'"
        using c q by (intro exI [of _ "c @ q"]) (auto simp: consumes_append run_sink_Cons)
    next
      assume "\<exists>p. length p = n \<and> consumes s p s' \<and> r = seen @ p \<and>
          run_sink sink st (map WriteChunk (chunks p)) = Inr st'"
      then obtain p where p: "length p = n" "consumes s (take k p @ drop k p) s'" "r = seen @ p"
        "run_sink sink st (map WriteChunk (chunks p)) = Inr st'" by auto
      from p(2) obtain t where t: "consumes s (take k p) t" "consumes t (drop k p) s'"
        unfolding consumes_append by blast
      from p(4) obtain u where u: "sink (WriteChunk (take k p)) st = Inr u"
        "run_sink sink u (map WriteChunk (chunks (drop k p))) = Inr st'"
        by (auto simp: chunk [OF p(1)] run_sink_Cons)
      have "read_payload sink (n - k) (seen @ take k p) t u = Inr (r, s', st')"
        unfolding less.IH [OF k(2)] using p t u by (intro exI [of _ "drop k p"]) simp
      then show "read_payload sink n seen s st = Inr (r, s', st')"
        unfolding step using t(1) u(1) p(1) k(1)
        by (intro exI [of _ "take k p"] exI [of _ t] exI [of _ u]) simp
    qed
  qed
qed

subsection \<open>The payload entries\<close>

text \<open>A payload entry of the stream: its header block, the inventory entry it matched, its bytes.\<close>

type_synonym item = "bytes \<times> file_entry \<times> bytes"

definition entry_header :: "file_entry \<Rightarrow> header" where
  "entry_header f = \<lparr>header_name = file_path f, header_size = file_size f, header_mode = file_mode f\<rparr>"

definition raw_item :: "item \<Rightarrow> bytes" where
  "raw_item = (\<lambda>(b, f, p). b @ p @ write_padding (length p))"

definition item_ok :: "('a, 'k) crypto \<Rightarrow> item \<Rightarrow> bool" where
  "item_ok c = (\<lambda>(b, f, p). block_for (entry_header f) b \<and> validate_path (file_path f) = Inr () \<and>
     length p = file_size f \<and> sha256_hex c p = file_sha256 f)"

definition item_calls :: "item \<Rightarrow> sink_call list" where
  "item_calls = (\<lambda>(b, f, p). entry_calls f p)"

abbreviation item_file :: "item \<Rightarrow> file_entry" where
  "item_file i \<equiv> fst (snd i)"

abbreviation item_payload :: "item \<Rightarrow> bytes" where
  "item_payload i \<equiv> snd (snd i)"

text \<open>Each item takes its entry out of the inventory.\<close>

fun take_items :: "file_entry list \<Rightarrow> item list \<Rightarrow> file_entry list option" where
  "take_items stock [] = Some stock"
| "take_items stock (i # is) =
     (if lookup_file (file_path (item_file i)) stock = Some (item_file i)
      then take_items (without (file_path (item_file i)) stock) is else None)"

lemma verify_entry_Inr:
  "verify_entry c sink h f s st = Inr (s', st') \<longleftrightarrow>
     (\<exists>p. header_size h = file_size f \<and> header_mode h = file_mode f \<and> length p = file_size f \<and>
        sha256_hex c p = file_sha256 f \<and> consumes s (p @ write_padding (length p)) s' \<and>
        run_sink sink st (entry_calls f p) = Inr st')"
proof
  assume "verify_entry c sink h f s st = Inr (s', st')"
  then obtain st1 p t st2 where *: "header_size h = file_size f" "header_mode h = file_mode f"
    "sink (StartFile f) st = Inr st1" "length p = header_size h" "consumes s p t"
    "run_sink sink st1 (map WriteChunk (chunks p)) = Inr st2" "sha256_hex c p = file_sha256 f"
    "consumes t (write_padding (header_size h)) s'" "sink FinishFile st2 = Inr st'"
    by (auto simp: verify_entry_def read_payload_Inr read_padding_Inr)
  then have "consumes s (p @ write_padding (length p)) s'"
    "run_sink sink st (entry_calls f p) = Inr st'"
    by (auto simp: consumes_append entry_calls_def run_sink_Cons run_sink_append)
  with * show "\<exists>p. header_size h = file_size f \<and> header_mode h = file_mode f \<and> length p = file_size f \<and>
      sha256_hex c p = file_sha256 f \<and> consumes s (p @ write_padding (length p)) s' \<and>
      run_sink sink st (entry_calls f p) = Inr st'"
    by (intro exI [of _ p]) simp
next
  assume "\<exists>p. header_size h = file_size f \<and> header_mode h = file_mode f \<and> length p = file_size f \<and>
      sha256_hex c p = file_sha256 f \<and> consumes s (p @ write_padding (length p)) s' \<and>
      run_sink sink st (entry_calls f p) = Inr st'"
  then obtain p t st1 st2 where *: "header_size h = file_size f" "header_mode h = file_mode f"
    "length p = file_size f" "sha256_hex c p = file_sha256 f" "consumes s p t"
    "consumes t (write_padding (header_size h)) s'" "sink (StartFile f) st = Inr st1"
    "run_sink sink st1 (map WriteChunk (chunks p)) = Inr st2" "sink FinishFile st2 = Inr st'"
    by (auto simp: consumes_append entry_calls_def run_sink_Cons run_sink_append)
  then have "read_payload sink (header_size h) [] s st1 = Inr (p, t, st2)"
    by (simp add: read_payload_Inr)
  with * show "verify_entry c sink h f s st = Inr (s', st')"
    by (simp add: verify_entry_def read_padding_Inr)
qed

definition read_entries ::
  "('a, 'k) crypto \<Rightarrow> 's sink \<Rightarrow> file_entry list \<Rightarrow> nat \<Rightarrow> nat \<Rightarrow> stream \<Rightarrow> 's
     \<Rightarrow> (file_entry list \<times> nat \<times> nat \<times> stream \<times> 's) result" where
  "read_entries c sink stock nf nb s st =
     and_then (read_header s) (\<lambda>(next, s). verify_entries c sink next stock nf nb s st)"

text \<open>One turn of the loop, seen from before the header.\<close>

lemma read_entries_step:
  "read_entries c sink stock nf nb s st = Inr r \<longleftrightarrow>
     (\<exists>s'. consumes s (replicate 1024 NUL) s' \<and> r = (stock, nf, nb, s', st)) \<or>
     (\<exists>b f p t u. item_ok c (b, f, p) \<and> lookup_file (file_path f) stock = Some f \<and>
        consumes s (raw_item (b, f, p)) t \<and> run_sink sink st (entry_calls f p) = Inr u \<and>
        read_entries c sink (without (file_path f) stock) (Suc nf) (nb + file_size f) t u = Inr r)"
  (is "?L \<longleftrightarrow> ?A \<or> ?B")
proof
  assume ?L
  then obtain nx t where n: "read_header s = Inr (nx, t)"
    and v: "verify_entries c sink nx stock nf nb t st = Inr r"
    by (auto simp: read_entries_def)
  show "?A \<or> ?B"
  proof (cases nx)
    case None
    with n v show ?thesis by (auto simp: read_header_None verify_entries.simps [of _ _ None])
  next
    case (Some h)
    from v obtain f u st2 where vp: "validate_path (header_name h) = Inr ()"
      and f: "lookup_file (header_name h) stock = Some f"
      and e: "verify_entry c sink h f t st = Inr (u, st2)"
      and rest: "read_entries c sink (without (header_name h) stock) (Suc nf) (nb + header_size h) u st2 = Inr r"
      unfolding Some read_entries_def
      by (subst (asm) verify_entries.simps) (auto split: option.splits)
    have name: "file_path f = header_name h" using f by (auto dest: lookup_file_SomeD)
    from e obtain p where p: "header_size h = file_size f" "header_mode h = file_mode f"
      "length p = file_size f" "sha256_hex c p = file_sha256 f"
      "consumes t (p @ write_padding (length p)) u" "run_sink sink st (entry_calls f p) = Inr st2"
      by (auto simp: verify_entry_Inr)
    from n Some obtain b where b: "block_for h b" "consumes s b t" by (auto simp: read_header_Some)
    have h: "h = entry_header f" using name p by (simp add: entry_header_def)
    have "item_ok c (b, f, p)" using b(1) vp p name by (simp add: item_ok_def h)
    moreover have "consumes s (raw_item (b, f, p)) u"
      using b(2) p(5) unfolding raw_item_def prod.case consumes_append by blast
    ultimately have ?B using f p(1,6) rest unfolding name [symmetric] p(1) by blast
    then show ?thesis ..
  qed
next
  assume "?A \<or> ?B"
  then show ?L
  proof
    assume ?A
    then show ?L by (auto simp: read_entries_def read_header_None [symmetric] verify_entries.simps [of _ _ None])
  next
    assume ?B
    then obtain b f p t u where i: "item_ok c (b, f, p)" "lookup_file (file_path f) stock = Some f"
      "consumes s (raw_item (b, f, p)) t" "run_sink sink st (entry_calls f p) = Inr u"
      "read_entries c sink (without (file_path f) stock) (Suc nf) (nb + file_size f) t u = Inr r" by blast
    from i(3) obtain v where v: "consumes s b v" "consumes v (p @ write_padding (length p)) t"
      by (auto simp: raw_item_def consumes_append)
    have "read_header s = Inr (Some (entry_header f), v)"
      using i(1) v(1) by (auto simp: read_header_Some item_ok_def)
    moreover have "verify_entry c sink (entry_header f) f v st = Inr (t, u)"
      using i v(2) by (auto simp: verify_entry_Inr entry_header_def item_ok_def)
    ultimately show ?L
      using i by (simp add: read_entries_def verify_entries.simps [of _ _ "Some _"] entry_header_def
          item_ok_def)
  qed
qed

abbreviation items_size :: "item list \<Rightarrow> nat" where
  "items_size is \<equiv> sum_list (map (\<lambda>i. file_size (item_file i)) is)"

lemma read_entries_Inr:
  "read_entries c sink stock nf nb s st = Inr (stock', nf', nb', s', st') \<longleftrightarrow>
     (\<exists>is. list_all (item_ok c) is \<and> take_items stock is = Some stock' \<and>
        consumes s (concat (map raw_item is) @ replicate 1024 NUL) s' \<and>
        nf' = nf + length is \<and> nb' = nb + items_size is \<and>
        run_sink sink st (concat (map item_calls is)) = Inr st')"
  (is "_ \<longleftrightarrow> (\<exists>is. ?P stock nf nb s st is)")
proof (induction "length stock" arbitrary: stock nf nb s st rule: less_induct)
  case less
  let ?r = "(stock', nf', nb', s', st')"
  show ?case
  proof
    assume "read_entries c sink stock nf nb s st = Inr ?r"
    then consider "consumes s (replicate 1024 NUL) s'" "stock' = stock" "nf' = nf" "nb' = nb" "st' = st"
      | b f p t u where "item_ok c (b, f, p)" "lookup_file (file_path f) stock = Some f"
        "consumes s (raw_item (b, f, p)) t" "run_sink sink st (entry_calls f p) = Inr u"
        "read_entries c sink (without (file_path f) stock) (Suc nf) (nb + file_size f) t u = Inr ?r"
      by (subst (asm) read_entries_step) blast
    then show "\<exists>is. ?P stock nf nb s st is"
    proof cases
      case 1
      then show ?thesis by (intro exI [of _ "[]"]) simp
    next
      case 2
      from less [OF length_without [OF 2(2)]] 2(5) obtain "is"
        where "?P (without (file_path f) stock) (Suc nf) (nb + file_size f) t u is" by blast
      with 2 show ?thesis
        by (intro exI [of _ "(b, f, p) # is"])
          (auto simp: consumes_append run_sink_append item_calls_def)
    qed
  next
    assume "\<exists>is. ?P stock nf nb s st is"
    then obtain "is" where P: "?P stock nf nb s st is" by blast
    show "read_entries c sink stock nf nb s st = Inr ?r"
    proof (cases "is")
      case Nil
      with P show ?thesis by (subst read_entries_step) simp
    next
      case (Cons i js)
      obtain b f p where i: "i = (b, f, p)" by (cases i)
      from P Cons i have l: "lookup_file (file_path f) stock = Some f"
        and tk: "take_items (without (file_path f) stock) js = Some stock'"
        by (auto split: if_splits)
      from P Cons i obtain t where t: "consumes s (raw_item (b, f, p)) t"
        "consumes t (concat (map raw_item js) @ replicate 1024 NUL) s'"
        by (auto simp: consumes_append)
      from P Cons i obtain u where u: "run_sink sink st (entry_calls f p) = Inr u"
        "run_sink sink u (concat (map item_calls js)) = Inr st'"
        by (auto simp: run_sink_append item_calls_def)
      have "?P (without (file_path f) stock) (Suc nf) (nb + file_size f) t u js"
        using P Cons i tk t u by simp
      with less [OF length_without [OF l]]
      have "read_entries c sink (without (file_path f) stock) (Suc nf) (nb + file_size f) t u = Inr ?r"
        by blast
      moreover have "item_ok c (b, f, p)" using P Cons i by simp
      ultimately show ?thesis
        using l t(1) u(1) by (subst read_entries_step) blast
    qed
  qed
qed

subsection \<open>After the end of the tar stream\<close>

lemma all_zero_take_drop: "all_zero (take n b) \<and> all_zero (drop n b) \<longleftrightarrow> all_zero b"
  by (metis all_zero_append append_take_drop_id)

lemma min_eq_0: "min a b = (0 :: nat) \<longleftrightarrow> a = 0 \<or> b = 0"
  by (auto simp: min_def)

lemma drain_Inr:
  "is_ok (drain give sound sofar s) \<longleftrightarrow>
    sound \<and> all_zero (pending s) \<and> sofar + length (pending s) \<le> 1048576 \<and>
    length (pending s) < allowance s"
proof (induction "length (pending s)" arbitrary: sofar s rule: less_induct)
  case less
  define room where "room = min (length (pending s)) (min chunk_size (allowance s))"
  define n where "n = min (max (Suc 0) (give room)) room"
  define s' where "s' = s\<lparr>pending := drop n (pending s), allowance := allowance s - n\<rparr>"
  have s': "pending s' = drop n (pending s)" "allowance s' = allowance s - n"
    by (simp_all add: s'_def)
  have "n \<le> room" unfolding n_def by (rule min.cobounded2)
  moreover have "room \<le> length (pending s)" "room \<le> allowance s"
    unfolding room_def by (rule min.cobounded1, rule order_trans [OF min.cobounded2 min.cobounded2])
  ultimately have n: "n \<le> length (pending s)" "n \<le> allowance s" by linarith+
  have n0: "n = 0 \<longleftrightarrow> pending s = [] \<or> allowance s = 0"
  proof -
    have "n = 0 \<longleftrightarrow> room = 0" unfolding n_def min_eq_0 by simp
    also have "room = 0 \<longleftrightarrow> pending s = [] \<or> allowance s = 0"
      unfolding room_def min_eq_0 by simp
    finally show ?thesis .
  qed
  have step: "is_ok (drain give sound sofar s) \<longleftrightarrow>
      (allowance s = 0 \<or> pending s \<noteq> [] \<or> sound) \<and> sofar + n \<le> 1048576 \<and>
      allowance s - n \<noteq> 0 \<and> all_zero (take n (pending s)) \<and>
      (n = 0 \<or> is_ok (drain give sound (sofar + n) s'))"
    by (subst drain.simps)
      (simp add: Let_def room_def [symmetric] n_def [symmetric] s'_def [symmetric] s' not_less conj_ac
        split: if_splits del: is_ok_iff,
       auto simp: s'_def)
  show ?case
  proof (cases "n = 0")
    case True
    with n0 show ?thesis unfolding step by auto
  next
    case False
    then have "length (pending s') < length (pending s)" using n(1) by (simp add: s')
    from less [OF this] have "is_ok (drain give sound (sofar + n) s') \<longleftrightarrow>
        sound \<and> all_zero (drop n (pending s)) \<and> sofar + n + (length (pending s) - n) \<le> 1048576 \<and>
        length (pending s) - n < allowance s - n"
      by (simp add: s')
    then show ?thesis
      unfolding step using False n n0 all_zero_take_drop [of n "pending s"] by auto
  qed
qed

subsection \<open>The manifest and the trust decision\<close>

definition manifest_header :: "bytes \<Rightarrow> header" where
  "manifest_header mb = \<lparr>header_name = ''manifest.json'', header_size = length mb, header_mode = mode_644\<rparr>"

definition signature_header :: "bytes \<Rightarrow> header" where
  "signature_header raw = \<lparr>header_name = ''manifest.sig'', header_size = length raw, header_mode = mode_644\<rparr>"

definition small_entry :: "bytes \<Rightarrow> bytes \<Rightarrow> bytes" where
  "small_entry b raw = b @ raw @ write_padding (length raw)"

lemma decoded_bounds:
  "decode_strict_json parse typed mb = Inr m \<Longrightarrow> mb \<noteq> [] \<and> length mb \<le> max_manifest_bytes"
  by (simp add: decode_strict_json_iff)

lemma header_eq_iff:
  "h = \<lparr>header_name = n, header_size = z, header_mode = md\<rparr> \<longleftrightarrow>
     header_name h = n \<and> header_size h = z \<and> header_mode h = md"
  by (cases h) simp

lemma read_manifest_Inr:
  "read_manifest c s = Inr (mb, m, s') \<longleftrightarrow>
     (\<exists>b. block_for (manifest_header mb) b \<and> consumes s (small_entry b mb) s') \<and>
     decode_strict_json (parse_json c) manifest_of_json mb = Inr m \<and>
     validate_manifest m True = Inr ()"  (is "?L \<longleftrightarrow> ?R")
proof
  assume ?L
  then obtain h t where h: "read_header s = Inr (Some h, t)" "header_name h = ''manifest.json''"
    "header_mode h = mode_644" "length mb = header_size h"
    "consumes t (mb @ write_padding (header_size h)) s'"
    "decode_strict_json (parse_json c) manifest_of_json mb = Inr m" "validate_manifest m True = Inr ()"
    by (auto simp: read_manifest_def read_small_Inr)
  from h(1) obtain b where b: "block_for h b" "consumes s b t" by (auto simp: read_header_Some)
  have "h = manifest_header mb" using h by (simp add: manifest_header_def header_eq_iff)
  moreover have "consumes s (small_entry b mb) s'"
    using b h unfolding small_entry_def consumes_append [of _ b] by auto
  ultimately show ?R using b h by auto
next
  assume ?R
  then obtain b t where b: "block_for (manifest_header mb) b" "consumes s b t"
    "consumes t (mb @ write_padding (length mb)) s'"
    and d: "decode_strict_json (parse_json c) manifest_of_json mb = Inr m"
      "validate_manifest m True = Inr ()"
    unfolding small_entry_def consumes_append [of _ _ "mb @ _"] by blast
  then have "read_header s = Inr (Some (manifest_header mb), t)" by (auto simp: read_header_Some)
  moreover have "read_small (length mb) t = Inr (mb, s')" using b by (simp add: read_small_Inr)
  ultimately show ?L
    using d decoded_bounds [OF d(1)] by (simp add: read_manifest_def manifest_header_def)
qed

text \<open>What a \<open>manifest.sig\<close> entry has to hold for the trusted key.\<close>

definition signed_by :: "('a, 'k) crypto \<Rightarrow> 'k option \<Rightarrow> bytes \<Rightarrow> bytes \<Rightarrow> bool" where
  "signed_by c key mb raw \<longleftrightarrow> raw \<noteq> [] \<and> length raw \<le> 128 \<and> valid_utf8 raw \<and>
     (\<exists>k d sg. key = Some k \<and> base64_decode c (trim raw) = Some d \<and> signature_of c d = Some sg \<and>
        verify_strict c k mb sg)"

lemma verify_signature_Inr:
  "verify_signature c key mb h s = Inr (raw, s') \<longleftrightarrow>
     header_size h = length raw \<and> header_mode h = mode_644 \<and> signed_by c key mb raw \<and>
     consumes s (raw @ write_padding (length raw)) s'"
  by (auto simp: verify_signature_def read_small_Inr signed_by_def not_less)

text \<open>The trust decision on the raw signature entry, if there is one.\<close>

definition trusted :: "('a, 'k) crypto \<Rightarrow> 'k option \<Rightarrow> bool \<Rightarrow> bytes \<Rightarrow> bytes option \<Rightarrow> bool" where
  "trusted c key allow_unsigned mb sig =
     (case sig of None \<Rightarrow> allow_unsigned \<and> key = None | Some raw \<Rightarrow> signed_by c key mb raw)"

definition auth_label :: "bytes option \<Rightarrow> string" where
  "auth_label sig = (case sig of None \<Rightarrow> ''unsigned-development'' | Some _ \<Rightarrow> ''verified-external-ed25519'')"

text \<open>The bytes of the signature entry.\<close>

definition signature_bytes :: "bytes option \<Rightarrow> bytes \<Rightarrow> bool" where
  "signature_bytes sig bs =
     (case sig of None \<Rightarrow> bs = []
      | Some raw \<Rightarrow> \<exists>b. block_for (signature_header raw) b \<and> bs = small_entry b raw)"

lemma authenticate_Inr:
  "and_then (read_header s) (\<lambda>(nx, s). authenticate c key au mb nx s) = Inr (nx', sig, auth, s') \<longleftrightarrow>
     trusted c key au mb sig \<and> auth = auth_label sig \<and>
     (\<exists>bs t. signature_bytes sig bs \<and> consumes s bs t \<and> read_header t = Inr (nx', s')) \<and>
     (sig = None \<longrightarrow> (\<forall>h. nx' = Some h \<longrightarrow> header_name h \<noteq> ''manifest.sig''))"
  (is "?L \<longleftrightarrow> ?R")
proof
  assume ?L
  then obtain nx t where n: "read_header s = Inr (nx, t)"
    and a: "authenticate c key au mb nx t = Inr (nx', sig, auth, s')" by auto
  show ?R
  proof (cases "\<exists>h. nx = Some h \<and> header_name h = ''manifest.sig''")
    case True
    then obtain h where h: "nx = Some h" "header_name h = ''manifest.sig''" by blast
    with a obtain raw u where r: "verify_signature c key mb h t = Inr (raw, u)"
      "read_header u = Inr (nx', s')" "sig = Some raw" "auth = ''verified-external-ed25519''"
      by (auto simp: authenticate_def)
    from r(1) have v: "signed_by c key mb raw" "consumes t (raw @ write_padding (length raw)) u"
      and "h = signature_header raw"
      using h(2) by (simp_all add: verify_signature_Inr signature_header_def header_eq_iff)
    with n h(1) obtain blk where blk: "block_for (signature_header raw) blk" "consumes s blk t"
      by (auto simp: read_header_Some)
    with v(2) have "consumes s (small_entry blk raw) u"
      unfolding small_entry_def consumes_append [of s blk] by blast
    moreover have "signature_bytes sig (small_entry blk raw)"
      using blk(1) r(3) by (auto simp: signature_bytes_def)
    ultimately show ?thesis
      using r v(1) by (auto simp: trusted_def auth_label_def)
  next
    case False
    with a n show ?thesis
      by (auto simp: authenticate_def trusted_def auth_label_def signature_bytes_def split: option.splits if_splits)
  qed
next
  assume R: ?R
  then obtain bs t where b: "signature_bytes sig bs" "consumes s bs t" "read_header t = Inr (nx', s')"
    by blast
  show ?L
  proof (cases sig)
    case None
    with R b show ?thesis
      by (auto simp: authenticate_def trusted_def auth_label_def signature_bytes_def split: option.splits)
  next
    case (Some raw)
    with b(1) obtain blk where blk: "block_for (signature_header raw) blk" "bs = small_entry blk raw"
      by (auto simp: signature_bytes_def)
    with b(2) obtain u where u: "consumes s blk u" "consumes u (raw @ write_padding (length raw)) t"
      unfolding small_entry_def by (auto simp: consumes_append [of s blk])
    from blk u(1) have "read_header s = Inr (Some (signature_header raw), u)" by (auto simp: read_header_Some)
    moreover have "verify_signature c key mb (signature_header raw) u = Inr (raw, t)"
      using R Some u by (simp add: verify_signature_Inr signature_header_def trusted_def)
    ultimately show ?thesis
      using R Some b by (simp add: authenticate_def signature_header_def auth_label_def)
  qed
qed

section \<open>Correctness of the verification\<close>

lemma without_eq_remove1:
  "distinct (map file_path fs) \<Longrightarrow> f \<in> set fs \<Longrightarrow> without (file_path f) fs = remove1 f fs"
proof (induction fs)
  case (Cons g fs)
  show ?case
  proof (cases "f = g")
    case True
    have "file_path h \<noteq> file_path g" if "h \<in> set fs" for h
    proof -
      have "file_path h \<in> set (map file_path fs)" using that by simp
      moreover have "file_path g \<notin> set (map file_path fs)" using Cons.prems(1) by simp
      ultimately show ?thesis by metis
    qed
    then have "filter (\<lambda>h. file_path h \<noteq> file_path g) fs = fs"
      by (simp add: filter_id_conv)
    with True show ?thesis by (simp add: without_def)
  next
    case False
    with Cons.prems have "f \<in> set fs" by simp
    then have "file_path f \<in> set (map file_path fs)" by simp
    moreover have "file_path g \<notin> set (map file_path fs)" using Cons.prems(1) by simp
    ultimately have "file_path f \<noteq> file_path g" by metis
    with False Cons show ?thesis by (simp add: without_def)
  qed
qed simp

lemma remove_mset_iff: "x \<in># M \<Longrightarrow> N = M - {#x#} \<longleftrightarrow> add_mset x N = M"
  by (metis add_mset_remove_trivial insert_DiffM)

text \<open>The items exhaust the inventory exactly when they are a permutation of it.\<close>

lemma take_items_all:
  "distinct (map file_path fs) \<Longrightarrow>
     take_items fs is = Some [] \<longleftrightarrow> mset (map item_file is) = mset fs"
proof (induction "is" arbitrary: fs)
  case (Cons i js)
  let ?f = "item_file i"
  show ?case
  proof (cases "?f \<in> set fs")
    case True
    then have "take_items fs (i # js) = take_items (remove1 ?f fs) js"
      using Cons.prems by (simp add: lookup_file_Some_iff without_eq_remove1)
    moreover have "distinct (map file_path (remove1 ?f fs))"
      using Cons.prems True by (metis distinct_filter distinct_map_filter without_def without_eq_remove1)
    ultimately have "take_items fs (i # js) = Some [] \<longleftrightarrow>
        mset (map item_file js) = mset fs - {#?f#}"
      using Cons.IH by simp
    also have "\<dots> \<longleftrightarrow> mset (map item_file (i # js)) = mset fs"
      using True remove_mset_iff [of ?f "mset fs"] by simp
    finally show ?thesis .
  next
    case False
    moreover have "mset (map item_file (i # js)) \<noteq> mset fs"
      using False by (metis list.set_intros(1) list.simps(9) mset_eq_setD)
    moreover have "lookup_file (file_path ?f) fs \<noteq> Some ?f"
      using False by (auto dest: lookup_file_SomeD)
    ultimately show ?thesis by simp
  qed
qed simp

text \<open>
  The streams the verifier accepts: the manifest entry, the signature entry where there is one,
  one entry for every file of the inventory in some order, two zero blocks and at most one
  mebibyte of zero padding, in one sound gzip member with nothing after it.
\<close>

definition stream_layout ::
  "('a, 'k) crypto \<Rightarrow> 'k option \<Rightarrow> bool \<Rightarrow> gz_member \<Rightarrow> bytes \<Rightarrow> manifest \<Rightarrow> bytes option \<Rightarrow> item list \<Rightarrow> bool" where
  "stream_layout c key allow_unsigned gz mb m sig is \<longleftrightarrow>
     (\<exists>b bs z. block_for (manifest_header mb) b \<and> signature_bytes sig bs \<and> z \<le> 1048576 \<and>
        gz_output gz = small_entry b mb @ bs @ concat (map raw_item is) @ replicate 1024 NUL @ replicate z NUL) \<and>
     length (gz_output gz) < raw_limit \<and> gz_sound gz \<and> gz_rest gz = Some [] \<and>
     decode_strict_json (parse_json c) manifest_of_json mb = Inr m \<and> validate_manifest m True = Inr () \<and>
     trusted c key allow_unsigned mb sig \<and>
     list_all (item_ok c) is \<and> mset (map item_file is) = mset (files m)"

definition stream_calls :: "manifest \<Rightarrow> bytes \<Rightarrow> bytes option \<Rightarrow> item list \<Rightarrow> sink_call list" where
  "stream_calls m mb sig is = SinkBegin m mb sig # concat (map item_calls is)"

lemma valid_manifest_distinct:
  "validate_manifest m True = Inr () \<Longrightarrow> distinct (map file_path (files m))"
  unfolding validate_header by (auto simp: check_manifest_files_iff split: if_splits)

lemma items_size_total:
  "mset (map item_file is) = mset fs \<Longrightarrow> length is = length fs \<and> items_size is = total_size fs"
proof -
  assume *: "mset (map item_file is) = mset fs"
  then have "length (map item_file is) = length fs" by (rule mset_eq_length)
  moreover from * have "sum_mset (image_mset file_size (mset (map item_file is))) =
      sum_mset (image_mset file_size (mset fs))" by simp
  then have "sum_list (map file_size (map item_file is)) = sum_list (map file_size fs)"
    by (simp only: sum_mset_sum_list mset_map [symmetric])
  ultimately show ?thesis by (simp add: comp_def)
qed

lemma signature_name_not_payload: "validate_path ''manifest.sig'' \<noteq> Inr ()"
  by (simp add: validate_path_def Let_def)

lemma drain_zeros:
  "(\<exists>s'. drain give sound 0 s = Inr s') \<longleftrightarrow>
     sound \<and> (\<exists>z\<le>1048576. pending s = replicate z NUL) \<and> length (pending s) < allowance s"
proof -
  have "all_zero (pending s) \<longleftrightarrow> (\<exists>z. pending s = replicate z NUL)"
    using all_zero_iff [of "pending s"] by auto
  then show ?thesis using drain_Inr [of give sound 0 s] by auto
qed

lemma verify_entries_name:
  assumes "verify_entries c sink (Some h) stock nf nb s st = Inr r"
  shows "header_name h \<noteq> ''manifest.sig''"
proof -
  from assms have "validate_path (header_name h) = Inr ()"
    by (subst (asm) verify_entries.simps) simp
  then show ?thesis using signature_name_not_payload by auto
qed

abbreviation raw_stream :: "gz_member \<Rightarrow> stream" where
  "raw_stream gz \<equiv> \<lparr>pending = gz_output gz, allowance = raw_limit\<rparr>"

lemma verify_stream_reads:
  "verify_stream c key au sink give gz st = Inr (mb, m, auth, nf, nb, st') \<longleftrightarrow>
     (\<exists>s1 sig bs t st1 s4. read_manifest c (raw_stream gz) = Inr (mb, m, s1) \<and>
        trusted c key au mb sig \<and> auth = auth_label sig \<and> signature_bytes sig bs \<and>
        consumes s1 bs t \<and> sink (SinkBegin m mb sig) st = Inr st1 \<and>
        read_entries c sink (files m) 0 0 t st1 = Inr ([], nf, nb, s4, st') \<and>
        (\<exists>s'. drain give (gz_sound gz) 0 s4 = Inr s') \<and> gz_rest gz = Some [])"
  (is "?L \<longleftrightarrow> ?R")
proof
  assume ?L
  then obtain s1 nx s2 nx' sig s3 st1 s4 where
    a: "read_manifest c (raw_stream gz) = Inr (mb, m, s1)" "read_header s1 = Inr (nx, s2)"
      "authenticate c key au mb nx s2 = Inr (nx', sig, auth, s3)"
    and b: "sink (SinkBegin m mb sig) st = Inr st1"
      "verify_entries c sink nx' (files m) 0 0 s3 st1 = Inr ([], nf, nb, s4, st')"
      "\<exists>s'. drain give (gz_sound gz) 0 s4 = Inr s'" "gz_rest gz = Some []"
    unfolding verify_stream_def by auto
  have "and_then (read_header s1) (\<lambda>(nx, s). authenticate c key au mb nx s) = Inr (nx', sig, auth, s3)"
    using a by simp
  then obtain bs t where t: "trusted c key au mb sig" "auth = auth_label sig"
    "signature_bytes sig bs" "consumes s1 bs t" "read_header t = Inr (nx', s3)"
    unfolding authenticate_Inr by blast
  then have "read_entries c sink (files m) 0 0 t st1 = Inr ([], nf, nb, s4, st')"
    using b(2) by (simp add: read_entries_def)
  with a(1) t b show ?R by blast
next
  assume ?R
  then obtain s1 sig bs t st1 s4 where r: "read_manifest c (raw_stream gz) = Inr (mb, m, s1)"
    "trusted c key au mb sig" "auth = auth_label sig" "signature_bytes sig bs" "consumes s1 bs t"
    "sink (SinkBegin m mb sig) st = Inr st1"
    "read_entries c sink (files m) 0 0 t st1 = Inr ([], nf, nb, s4, st')"
    "\<exists>s'. drain give (gz_sound gz) 0 s4 = Inr s'" "gz_rest gz = Some []" by blast
  from r(7) obtain nx' s3 where n: "read_header t = Inr (nx', s3)"
    "verify_entries c sink nx' (files m) 0 0 s3 st1 = Inr ([], nf, nb, s4, st')"
    by (auto simp: read_entries_def)
  have "\<forall>h. nx' = Some h \<longrightarrow> header_name h \<noteq> ''manifest.sig''"
  proof (intro allI impI)
    fix h assume e: "nx' = Some h"
    show "header_name h \<noteq> ''manifest.sig''" by (rule verify_entries_name [OF n(2) [unfolded e]])
  qed
  with r n have "and_then (read_header s1) (\<lambda>(nx, s). authenticate c key au mb nx s) =
      Inr (nx', sig, auth, s3)"
    unfolding authenticate_Inr by blast
  then obtain nx s2 where "read_header s1 = Inr (nx, s2)"
    "authenticate c key au mb nx s2 = Inr (nx', sig, auth, s3)" by auto
  with r n show ?L by (auto simp: verify_stream_def)
qed

lemma verify_stream_accepts:
  "verify_stream c key au sink give gz st = Inr (mb, m, auth, nf, nb, st') \<longleftrightarrow>
     (\<exists>sig is. stream_layout c key au gz mb m sig is \<and> auth = auth_label sig \<and>
        nf = length (files m) \<and> nb = total_size (files m) \<and>
        run_sink sink st (stream_calls m mb sig is) = Inr st')"
  (is "?L \<longleftrightarrow> ?R")
proof
  assume ?L
  then obtain s1 sig bs t st1 s4 b "is" z where
    m: "block_for (manifest_header mb) b" "consumes (raw_stream gz) (small_entry b mb) s1"
      "decode_strict_json (parse_json c) manifest_of_json mb = Inr m" "validate_manifest m True = Inr ()"
    and r: "trusted c key au mb sig" "auth = auth_label sig" "signature_bytes sig bs" "consumes s1 bs t"
      "sink (SinkBegin m mb sig) st = Inr st1" "gz_rest gz = Some []"
    and i: "list_all (item_ok c) is" "take_items (files m) is = Some []"
      "consumes t (concat (map raw_item is) @ replicate 1024 NUL) s4"
      "nf = length is" "nb = items_size is" "run_sink sink st1 (concat (map item_calls is)) = Inr st'"
    and d: "gz_sound gz" "z \<le> 1048576" "pending s4 = replicate z NUL" "length (pending s4) < allowance s4"
    unfolding verify_stream_reads read_manifest_Inr read_entries_Inr drain_zeros by force
  have perm: "mset (map item_file is) = mset (files m)"
    using i(2) take_items_all [OF valid_manifest_distinct [OF m(4)]] by simp
  have "consumes (raw_stream gz) (small_entry b mb @ bs @ concat (map raw_item is) @ replicate 1024 NUL) s4"
    using m(2) r(4) i(3) unfolding consumes_append [of _ "small_entry b mb"] consumes_append [of _ bs] by blast
  then have "gz_output gz = small_entry b mb @ bs @ concat (map raw_item is) @ replicate 1024 NUL @ replicate z NUL"
    "length (gz_output gz) < raw_limit"
    using d unfolding consumes_def by simp_all
  then have "stream_layout c key au gz mb m sig is"
    unfolding stream_layout_def using m r i d perm by blast
  then show ?R
    using r i items_size_total [OF perm]
    by (intro exI [of _ sig] exI [of _ "is"]) (simp add: stream_calls_def run_sink_Cons)
next
  assume ?R
  then obtain sig "is" b bs z where
    l: "block_for (manifest_header mb) b" "signature_bytes sig bs" "z \<le> 1048576"
      "gz_output gz = small_entry b mb @ bs @ concat (map raw_item is) @ replicate 1024 NUL @ replicate z NUL"
      "length (gz_output gz) < raw_limit" "gz_sound gz" "gz_rest gz = Some []"
      "decode_strict_json (parse_json c) manifest_of_json mb = Inr m" "validate_manifest m True = Inr ()"
      "trusted c key au mb sig" "list_all (item_ok c) is" "mset (map item_file is) = mset (files m)"
    and o: "auth = auth_label sig" "nf = length (files m)" "nb = total_size (files m)"
      "run_sink sink st (stream_calls m mb sig is) = Inr st'"
    unfolding stream_layout_def by blast
  define s4 where "s4 = \<lparr>pending = replicate z NUL, allowance = raw_limit - (length (gz_output gz) - z)\<rparr>"
  have "consumes (raw_stream gz) (small_entry b mb @ bs @ concat (map raw_item is) @ replicate 1024 NUL) s4"
    using l(5) unfolding consumes_def s4_def l(4) by simp
  then obtain s1 t where st: "consumes (raw_stream gz) (small_entry b mb) s1" "consumes s1 bs t"
    "consumes t (concat (map raw_item is) @ replicate 1024 NUL) s4"
    unfolding consumes_append [of _ "small_entry b mb"] consumes_append [of _ bs] by blast
  have d: "\<exists>s'. drain give (gz_sound gz) 0 s4 = Inr s'"
    unfolding drain_zeros using l(3,5,6) by (auto simp: s4_def l(4))
  have tk: "take_items (files m) is = Some []"
    using l(12) take_items_all [OF valid_manifest_distinct [OF l(9)]] by simp
  from o(4) obtain st1 where k: "sink (SinkBegin m mb sig) st = Inr st1"
    "run_sink sink st1 (concat (map item_calls is)) = Inr st'"
    by (auto simp: stream_calls_def run_sink_Cons)
  have "read_entries c sink (files m) 0 0 t st1 = Inr ([], nf, nb, s4, st')"
    unfolding read_entries_Inr using tk l(11) st(3) k(2) o(2,3) items_size_total [OF l(12)] by auto
  moreover have "read_manifest c (raw_stream gz) = Inr (mb, m, s1)"
    unfolding read_manifest_Inr using l st by blast
  ultimately show ?L
    unfolding verify_stream_reads using l st k d o(1) by blast
qed

text \<open>C1. The streams the verifier accepts are exactly the specified layouts, whatever sink listens
  and however the decoder splits its output: manifest entry, signature entry as the trust
  decision needs it, one entry per inventory file with its size, mode and hash, two zero blocks,
  at most one mebibyte of zeros, one sound gzip member and nothing after it. The counters are
  those of the inventory and the sink has seen exactly those payloads, chunk by chunk.\<close>

theorem verify_stream_iff:
  "verify_stream c key au sink give gz st = Inr (mb, m, auth, nf, nb, st') \<longleftrightarrow>
     (\<exists>sig is. stream_layout c key au gz mb m sig is \<and> auth = auth_label sig \<and>
        nf = length (files m) \<and> nb = total_size (files m) \<and>
        run_sink sink st (stream_calls m mb sig is) = Inr st')"
  by (rule verify_stream_accepts)

lemma verify_inner_stream:
  assumes "verify_inner c a key au sink give st = Inr (rep, st')"
  shows "\<exists>mb. verify_stream c key au sink give (gunzip c (content a)) st =
      Inr (mb, report_manifest rep, authenticity rep, files_verified rep, bytes_verified rep, st') \<and>
    manifest_sha256 rep = sha256_hex c mb \<and> archive_sha256 rep = sha256_hex c (content a)"
proof -
  from assms obtain mb where v: "verify_stream c key au sink give (gunzip c (take (Suc max_archive_bytes) (content a))) st =
      Inr (mb, report_manifest rep, authenticity rep, files_verified rep, bytes_verified rep, st')"
    and l: "length (take (Suc max_archive_bytes) (content a)) \<le> max_archive_bytes"
    and h: "manifest_sha256 rep = sha256_hex c mb"
      "archive_sha256 rep = sha256_hex c (take (Suc max_archive_bytes) (content a))"
    unfolding verify_inner_def by (auto simp: Let_def not_less)
  from l have "length (content a) \<le> max_archive_bytes" by simp
  then have "take (Suc max_archive_bytes) (content a) = content a" by simp
  with v h show ?thesis by auto
qed

text \<open>C2. With a trusted key, an accepted package carries a signature of that key over the exact
  manifest bytes whose hash is reported, and the reported manifest is what those bytes decode
  to; an unsigned package is never accepted.\<close>

theorem verified_package_signed:
  assumes "verify_inner c a (Some k) au sink give st = Inr (rep, st')"
  shows "\<exists>mb raw. signed_by c (Some k) mb raw \<and> manifest_sha256 rep = sha256_hex c mb \<and>
    decode_strict_json (parse_json c) manifest_of_json mb = Inr (report_manifest rep) \<and>
    validate_manifest (report_manifest rep) True = Inr () \<and>
    authenticity rep = ''verified-external-ed25519''"
proof -
  obtain mb sig "is" where l: "stream_layout c (Some k) au (gunzip c (content a)) mb (report_manifest rep) sig is"
    "authenticity rep = auth_label sig" "manifest_sha256 rep = sha256_hex c mb"
    using verify_inner_stream [OF assms] unfolding verify_stream_accepts by blast
  then show ?thesis
    by (cases sig) (auto simp: stream_layout_def trusted_def auth_label_def)
qed

text \<open>C3. What a sink has been given when verification succeeds: first the manifest, then every
  file of the inventory exactly once, its bytes in chunks that concatenate to a payload of the
  listed size and hash, with a start and a finish call around them.\<close>

theorem delivered_payloads:
  assumes "verify_inner c a key au recording_sink give [] = Inr (rep, log)"
  shows "\<exists>mb sig is. log = SinkBegin (report_manifest rep) mb sig #
      concat (map (\<lambda>i. StartFile (item_file i) # map WriteChunk (chunks (item_payload i)) @ [FinishFile]) is) \<and>
    mset (map item_file is) = mset (files (report_manifest rep)) \<and>
    list_all (\<lambda>i. concat (chunks (item_payload i)) = item_payload i \<and>
      length (item_payload i) = file_size (item_file i) \<and>
      sha256_hex c (item_payload i) = file_sha256 (item_file i)) is"
proof -
  obtain mb sig "is" where l: "stream_layout c key au (gunzip c (content a)) mb (report_manifest rep) sig is"
    "log = stream_calls (report_manifest rep) mb sig is"
    using verify_inner_stream [OF assms] unfolding verify_stream_accepts by auto
  have "list_all (\<lambda>i. concat (chunks (item_payload i)) = item_payload i \<and>
      length (item_payload i) = file_size (item_file i) \<and>
      sha256_hex c (item_payload i) = file_sha256 (item_file i)) is"
    using l(1) by (auto simp: stream_layout_def list_all_iff item_ok_def concat_chunks)
  moreover have "item_calls = (\<lambda>i. StartFile (item_file i) # map WriteChunk (chunks (item_payload i)) @ [FinishFile])"
    by (simp add: item_calls_def entry_calls_def fun_eq_iff)
  moreover have "mset (map item_file is) = mset (files (report_manifest rep))"
    using l(1) by (simp add: stream_layout_def)
  ultimately show ?thesis
    using l(2) unfolding stream_calls_def
    by (intro exI [of _ mb] exI [of _ sig] exI [of _ "is"] conjI) (assumption | simp)+
qed

end
