(* ===== verification/Build.thy ===== *)
theory Build
  imports Verify "HOL-Library.List_Lexorder" "HOL-Library.Char_ord"
begin

text \<open>
  Package assembly (\<open>src/src/artifact/build.rs\<close>): the scan of the staging tree, the reading of a
  staged file with its identity checks, the archive writer, and \<open>build\<close> itself.

  The file system is given by what it answers: the staging tree as one listing with the answers
  for every file, at each of the three times the build looks at it. The encoders \<open>gzip\<close>, base64,
  the signature and the JSON printer are parameters.
\<close>

section \<open>Staged files\<close>

record identity =
  id_device :: nat
  id_inode :: nat
  id_size :: nat
  id_mode :: nat
  id_seconds :: int
  id_nanos :: int

definition same_file :: "identity \<Rightarrow> identity \<Rightarrow> bool" where
  "same_file a b \<longleftrightarrow> id_device a = id_device b \<and> id_inode a = id_inode b"

record staged_file =
  staged_entry :: file_entry
  staged_identity :: identity

text \<open>
  The answers one reading of a staged file gets: the metadata of its path, of the opened file, its
  content, and both metadata again at the end. A metadata answer is whether the file is regular
  and its identity; \<open>None\<close> is an error.
\<close>

record stage_read =
  seen_path :: "(bool \<times> identity) option"
  seen_opened :: "(bool \<times> identity) option option"
  seen_content :: "bytes option"
  seen_after :: "(bool \<times> identity) option"
  seen_current :: "(bool \<times> identity) option"

definition unchanged :: "staged_file \<Rightarrow> bool \<times> identity \<Rightarrow> bool" where
  "unchanged st = (\<lambda>(regular, i). regular \<and> i = staged_identity st)"

text \<open>
  \<open>stream_stage_file\<close>: at most one byte more than the recorded size is read, so a longer file
  is an error whatever its length. The result is what went to the writer and its digest.
\<close>

definition stream_stage_file :: "(bytes \<Rightarrow> string) \<Rightarrow> staged_file \<Rightarrow> stage_read \<Rightarrow> (bytes \<times> string) result" where
  "stream_stage_file sha st r =
     and_then (ok_or (seen_path r) ''INPUT_CHANGED'') (\<lambda>path_info.
     and_then (ensure (unchanged st path_info) ''INPUT_CHANGED'') (\<lambda>_.
     and_then (ok_or (seen_opened r) ''INPUT_CHANGED'') (\<lambda>opened.
     and_then (ok_or opened ''INPUT_CHANGED'') (\<lambda>opened.
     and_then (ensure (unchanged st opened) ''INPUT_CHANGED'') (\<lambda>_.
     and_then (ok_or (seen_content r) ''BUILD_IO'') (\<lambda>content.
     let sz = file_size (staged_entry st); read = take (Suc sz) content in
     and_then (ensure (\<not> sz < length read) ''INPUT_CHANGED'') (\<lambda>_.
     and_then (ok_or (seen_after r) ''INPUT_CHANGED'') (\<lambda>after.
     and_then (ok_or (seen_current r) ''INPUT_CHANGED'') (\<lambda>current.
     and_then (ensure (length read = sz \<and> unchanged st after \<and> unchanged st current)
                 ''INPUT_CHANGED'') (\<lambda>_.
     let digest = sha read in
     and_then (ensure (\<not> (file_sha256 (staged_entry st) \<noteq> [] \<and> file_sha256 (staged_entry st) \<noteq> digest))
                 ''INPUT_CHANGED'') (\<lambda>_.
     Inr (read, digest))))))))))))"

section \<open>The scan of the staging tree\<close>

record stage_file =
  sf_mode :: nat
  sf_len :: nat
  sf_identity :: identity
  sf_read :: stage_read

text \<open>
  A directory as \<open>read_dir\<close> enumerates it: an enumeration error at some point, or the next name
  with what inspecting it gives. \<open>StageOther\<close> is neither a directory nor a regular file.
\<close>

datatype stage_entry =
    StageDir stage_listing
  | StageFile stage_file
  | StageOther
  | StageUnreadable
and stage_listing =
    ListingError
  | ListingEnd
  | ListingEntry string stage_entry stage_listing

text \<open>The files found so far (latest first) and the sum of their sizes.\<close>

type_synonym scan = "staged_file list \<times> nat"

definition child_path :: "string option \<Rightarrow> string \<Rightarrow> string" where
  "child_path dir name = (case dir of None \<Rightarrow> name | Some d \<Rightarrow> d @ slash # name)"

definition collect_file :: "(bytes \<Rightarrow> string) \<Rightarrow> string \<Rightarrow> stage_file \<Rightarrow> scan \<Rightarrow> scan result" where
  "collect_file sha path f = (\<lambda>(fs, tot).
     let mode = sf_mode f mod 4096 in
     and_then (ensure (\<not> (mode \<noteq> mode_644 \<and> mode \<noteq> mode_755)) ''INVALID_STAGE'') (\<lambda>_.
     and_then (ensure (\<not> (max_file_bytes < sf_len f \<or> max_files \<le> length fs \<or>
                 max_total_bytes - tot < sf_len f)) ''PACKAGE_LIMIT'') (\<lambda>_.
     let e = \<lparr>file_path = path, file_size = sf_len f, file_sha256 = [], file_mode = mode\<rparr>;
         st = \<lparr>staged_entry = e, staged_identity = sf_identity f\<rparr> in
     and_then (stream_stage_file sha st (sf_read f)) (\<lambda>(_, digest).
     Inr (st\<lparr>staged_entry := e\<lparr>file_sha256 := digest\<rparr>\<rparr> # fs, tot + sf_len f)))))"

fun collect_entry :: "(bytes \<Rightarrow> string) \<Rightarrow> string \<Rightarrow> stage_entry \<Rightarrow> scan \<Rightarrow> scan result"
and collect_directory :: "(bytes \<Rightarrow> string) \<Rightarrow> string option \<Rightarrow> stage_listing \<Rightarrow> scan \<Rightarrow> scan result" where
  "collect_entry sha path (StageDir l) acc =
     (let first = hd (split_on slash path) in
      and_then (ensure (List.member path_roots first) ''INVALID_STAGE'') (\<lambda>_.
      and_then (if path \<noteq> first then validate_path path else Inr ()) (\<lambda>_.
      collect_directory sha (Some path) l acc)))"
| "collect_entry sha path (StageFile f) acc =
     and_then (validate_path path) (\<lambda>_. collect_file sha path f acc)"
| "collect_entry sha path StageOther acc = and_then (validate_path path) (\<lambda>_. fail ''INVALID_STAGE'')"
| "collect_entry sha path StageUnreadable acc = fail ''INVALID_STAGE''"
| "collect_directory sha dir ListingError acc = fail ''INVALID_STAGE''"
| "collect_directory sha dir ListingEnd acc = Inr acc"
| "collect_directory sha dir (ListingEntry name e rest) acc =
     (let path = child_path dir name in
      and_then (ensure (valid_utf8 path) ''INVALID_STAGE'') (\<lambda>_.
      and_then (collect_entry sha path e acc) (\<lambda>acc.
      collect_directory sha dir rest acc)))"

definition staged_path :: "staged_file \<Rightarrow> string" where
  "staged_path st = file_path (staged_entry st)"

definition collect_stage :: "(bytes \<Rightarrow> string) \<Rightarrow> stage_listing \<Rightarrow> staged_file list result" where
  "collect_stage sha root =
     and_then (collect_directory sha None root ([], 0)) (\<lambda>(fs, tot).
     Inr (sort_key staged_path (rev fs)))"

definition check_stage_unchanged :: "(bytes \<Rightarrow> string) \<Rightarrow> stage_listing \<Rightarrow> staged_file list \<Rightarrow> unit result" where
  "check_stage_unchanged sha root fs =
     and_then (map_err ''INPUT_CHANGED'' (collect_stage sha root)) (\<lambda>again.
     ensure (\<not> (length fs \<noteq> length again \<or>
               list_ex (\<lambda>(a, b). staged_identity a \<noteq> staged_identity b \<or> staged_entry a \<noteq> staged_entry b)
                 (zip fs again))) ''INPUT_CHANGED'')"

section \<open>The archive writer\<close>

definition write_small_entry :: "string \<Rightarrow> bytes \<Rightarrow> bytes result" where
  "write_small_entry name b =
     and_then (tar_header name (length b) mode_644) (\<lambda>h. Inr (h @ b @ write_padding (length b)))"

definition write_file :: "(bytes \<Rightarrow> string) \<Rightarrow> staged_file \<times> stage_read \<Rightarrow> bytes result" where
  "write_file sha = (\<lambda>(st, r).
     and_then (tar_header (file_path (staged_entry st)) (file_size (staged_entry st))
                 (file_mode (staged_entry st))) (\<lambda>h.
     and_then (stream_stage_file sha st r) (\<lambda>(payload, _).
     Inr (h @ payload @ write_padding (file_size (staged_entry st))))))"

text \<open>The bytes that go into the compressor.\<close>

definition write_raw :: "(bytes \<Rightarrow> string) \<Rightarrow> bytes \<Rightarrow> bytes option \<Rightarrow> (staged_file \<times> stage_read) list \<Rightarrow> bytes result" where
  "write_raw sha mb sig fs =
     and_then (write_small_entry ''manifest.json'' mb) (\<lambda>m.
     and_then (case sig of None \<Rightarrow> Inr [] | Some raw \<Rightarrow> write_small_entry ''manifest.sig'' raw) (\<lambda>s.
     and_then (map_result (write_file sha) fs) (\<lambda>bs.
     Inr (m @ s @ concat bs @ replicate 1024 NUL))))"

text \<open>\<open>ArchiveWriter\<close> refuses what would take the compressed file over the limit.\<close>

definition write_archive ::
  "(bytes \<Rightarrow> bytes) \<Rightarrow> (bytes \<Rightarrow> string) \<Rightarrow> bytes \<Rightarrow> bytes option \<Rightarrow> (staged_file \<times> stage_read) list \<Rightarrow> bytes result" where
  "write_archive gzip sha mb sig fs =
     and_then (write_raw sha mb sig fs) (\<lambda>raw.
     and_then (ensure (length (gzip raw) \<le> max_archive_bytes) ''BUILD_IO'') (\<lambda>_. Inr (gzip raw)))"

section \<open>From the specification to the signed manifest\<close>

text \<open>
  The part of \<open>build\<close> between reading the specification and creating the output: the staged tree
  has to match the pinned identities and must not contain the signing key.
\<close>

definition staged_ok :: "identity option \<Rightarrow> manifest \<Rightarrow> staged_file \<Rightarrow> unit result" where
  "staged_ok signing m st =
     and_then (ensure (\<not> (case signing of None \<Rightarrow> False | Some k \<Rightarrow> same_file k (staged_identity st)))
                 ''INVALID_STAGE'') (\<lambda>_.
     and_then (ensure (\<not> (staged_path st = ''engine/nigo-node.jar'' \<and>
                 file_sha256 (staged_entry st) \<noteq> engine_jar_sha256 (engine m))) ''HASH_MISMATCH'') (\<lambda>_.
     ensure (\<not> (staged_path st = ''runtime/bin/java'' \<and>
               file_sha256 (staged_entry st) \<noteq> runtime_java_sha256 (runtime m))) ''HASH_MISMATCH''))"

definition assemble_manifest ::
  "(bytes \<Rightarrow> json option) \<Rightarrow> (manifest \<Rightarrow> bytes option) \<Rightarrow> (bytes \<Rightarrow> string) \<Rightarrow> identity option \<Rightarrow> bytes
     \<Rightarrow> stage_listing \<Rightarrow> (manifest \<times> bytes \<times> staged_file list) result" where
  "assemble_manifest parse print sha signing spec root =
     and_then (map_err ''INVALID_SPEC'' (decode_strict_json parse manifest_of_json spec)) (\<lambda>m.
     and_then (ensure (files m = []) ''INVALID_SPEC'') (\<lambda>_.
     and_then (ensure (hash_string (engine_jar_sha256 (engine m)) 64 \<and>
                 hash_string (runtime_java_sha256 (runtime m)) 64) ''INVALID_SPEC'') (\<lambda>_.
     and_then (validate_manifest m False) (\<lambda>_.
     and_then (collect_stage sha root) (\<lambda>fs.
     and_then (map_result (staged_ok signing m) fs) (\<lambda>_.
     let m' = m\<lparr>files := map staged_entry fs\<rparr> in
     and_then (validate_manifest m' True) (\<lambda>_.
     and_then (ok_or (print m') ''INVALID_SPEC'') (\<lambda>mb.
     and_then (ensure (length (mb @ [CHR 0x0A]) \<le> max_manifest_bytes) ''INVALID_SPEC'') (\<lambda>_.
     Inr (m', mb @ [CHR 0x0A], fs))))))))))"

section \<open>What a scan finds\<close>

text \<open>The facts the scan establishes of each file; its digest is that of bytes of its size.\<close>

definition staged_good :: "(bytes \<Rightarrow> string) \<Rightarrow> staged_file \<Rightarrow> bool" where
  "staged_good sha st \<longleftrightarrow> validate_path (staged_path st) = Inr () \<and> valid_utf8 (staged_path st) \<and>
     file_size (staged_entry st) \<le> max_file_bytes \<and> file_mode (staged_entry st) \<in> {mode_644, mode_755} \<and>
     (\<exists>b. length b = file_size (staged_entry st) \<and> file_sha256 (staged_entry st) = sha b)"

abbreviation staged_size :: "staged_file list \<Rightarrow> nat" where
  "staged_size fs \<equiv> sum_list (map (\<lambda>st. file_size (staged_entry st)) fs)"

definition scan_ok :: "(bytes \<Rightarrow> string) \<Rightarrow> scan \<Rightarrow> bool" where
  "scan_ok sha = (\<lambda>(fs, tot). list_all (staged_good sha) fs \<and> length fs \<le> max_files \<and>
     tot = staged_size fs \<and> tot \<le> max_total_bytes)"

lemma stream_stage_file_Inr:
  assumes "stream_stage_file sha st r = Inr (b, d)"
  shows "length b = file_size (staged_entry st)" "d = sha b"
    "file_sha256 (staged_entry st) \<in> {[], d}"
  using assms by (auto simp: stream_stage_file_def Let_def)

lemma collect_file_ok:
  assumes "collect_file sha path f acc = Inr acc'" "scan_ok sha acc"
    "validate_path path = Inr ()" "valid_utf8 path"
  shows "scan_ok sha acc'"
proof -
  obtain fs tot where acc: "acc = (fs, tot)" by (cases acc)
  define e where "e = \<lparr>file_path = path, file_size = sf_len f, file_sha256 = [], file_mode = sf_mode f mod 4096\<rparr>"
  define st where "st = \<lparr>staged_entry = e, staged_identity = sf_identity f\<rparr>"
  from assms(1) obtain b d where lims: "sf_len f \<le> max_file_bytes" "length fs < max_files"
      "sf_len f \<le> max_total_bytes - tot" "sf_mode f mod 4096 \<in> {mode_644, mode_755}"
    and b: "stream_stage_file sha st (sf_read f) = Inr (b, d)"
    and acc': "acc' = (st\<lparr>staged_entry := e\<lparr>file_sha256 := d\<rparr>\<rparr> # fs, tot + sf_len f)"
    unfolding acc collect_file_def by (auto simp: Let_def not_le not_less e_def st_def)
  have "staged_good sha (st\<lparr>staged_entry := e\<lparr>file_sha256 := d\<rparr>\<rparr>)"
    using assms(3,4) lims stream_stage_file_Inr [OF b]
    by (auto simp: staged_good_def staged_path_def st_def e_def)
  then show ?thesis
    using assms(2) lims unfolding acc acc' scan_ok_def by (auto simp: st_def e_def)
qed

lemma collect_ok:
  "collect_entry sha path e acc = Inr acc' \<Longrightarrow> valid_utf8 path \<Longrightarrow> scan_ok sha acc \<Longrightarrow> scan_ok sha acc'"
  "collect_directory sha dir l acc = Inr acc' \<Longrightarrow> scan_ok sha acc \<Longrightarrow> scan_ok sha acc'"
  by (induction sha path e acc and sha dir l acc arbitrary: acc' and acc'
      rule: collect_entry_collect_directory.induct)
    (auto simp: Let_def split: if_splits dest: collect_file_ok)

lemma collect_stage_ok:
  assumes "collect_stage sha root = Inr fs"
  shows "scan_ok sha (fs, staged_size fs)" "sorted (map staged_path fs)"
proof -
  from assms obtain gs tot where g: "collect_directory sha None root ([], 0) = Inr (gs, tot)"
    "fs = sort_key staged_path (rev gs)" by (auto simp: collect_stage_def)
  have "scan_ok sha (gs, tot)"
    using collect_ok(2) [OF g(1)] by (simp add: scan_ok_def)
  moreover have perm: "mset fs = mset gs" by (simp add: g(2))
  then have "mset (map (\<lambda>st. file_size (staged_entry st)) fs) = mset (map (\<lambda>st. file_size (staged_entry st)) gs)"
    by (simp only: mset_map)
  then have "staged_size fs = staged_size gs" by (metis sum_mset_sum_list)
  moreover have "set fs = set gs" "length fs = length gs"
    using perm by (auto dest: mset_eq_setD mset_eq_length)
  ultimately show "scan_ok sha (fs, staged_size fs)" by (simp add: scan_ok_def list_all_iff)
  show "sorted (map staged_path fs)" by (simp add: g(2))
qed

section \<open>The archive that is written is the archive that is accepted\<close>

lemma validate_path_not_absolute: "validate_path p = Inr () \<Longrightarrow> \<not> prefix ''/'' p"
  by (simp add: validate_path_def)

lemma validate_path_no_NUL: "validate_path p = Inr () \<Longrightarrow> NUL \<notin> set p"
  using validate_path_parts by blast

lemma write_small_entry_Inr:
  assumes "write_small_entry name b = Inr bs" "NUL \<notin> set name" "is_ascii name" "\<not> prefix ''/'' name"
    "length b \<le> max_file_bytes"
  shows "\<exists>h. block_for \<lparr>header_name = name, header_size = length b, header_mode = mode_644\<rparr> h \<and>
    bs = small_entry h b"
proof -
  from assms(1) obtain h where h: "tar_header name (length b) mode_644 = Inr h"
    "bs = h @ b @ write_padding (length b)" by (auto simp: write_small_entry_def)
  from tar_header_parse [OF h(1) assms(2) valid_utf8_ascii [OF assms(3)] assms(4,5)]
  show ?thesis using h(2) by (auto simp: block_for_def small_entry_def)
qed

lemma write_file_Inr:
  assumes w: "write_file (sha256_hex c) (st, r) = Inr bs" and e: "entry_ok (staged_entry st)"
    and u: "valid_utf8 (staged_path st)"
  shows "\<exists>i. item_ok c i \<and> item_file i = staged_entry st \<and> bs = raw_item i"
proof -
  let ?e = "staged_entry st"
  from w obtain h p d where h: "tar_header (file_path ?e) (file_size ?e) (file_mode ?e) = Inr h"
    and p: "stream_stage_file (sha256_hex c) st r = Inr (p, d)"
    and bs: "bs = h @ p @ write_padding (file_size ?e)"
    by (auto simp: write_file_def)
  have v: "validate_path (file_path ?e) = Inr ()" using e by (simp add: entry_ok_def)
  have "block_for (entry_header ?e) h"
    using tar_header_parse [OF h] e u validate_path_no_NUL [OF v] validate_path_not_absolute [OF v]
    by (simp add: block_for_def entry_header_def entry_ok_def staged_path_def)
  moreover have "length p = file_size ?e" "sha256_hex c p = file_sha256 ?e"
    using stream_stage_file_Inr [OF p] e by (auto simp: entry_ok_def hash_string_def)
  ultimately have "item_ok c (h, ?e, p)" using v by (simp add: item_ok_def)
  moreover have "bs = raw_item (h, ?e, p)"
    using bs \<open>length p = file_size ?e\<close> by (simp add: raw_item_def)
  ultimately show ?thesis by (intro exI [of _ "(h, ?e, p)"]) simp
qed

lemma write_files_Inr:
  assumes "map_result (write_file (sha256_hex c)) fs = Inr bs"
    "list_all (\<lambda>(st, r). entry_ok (staged_entry st) \<and> valid_utf8 (staged_path st)) fs"
  shows "\<exists>is. list_all (item_ok c) is \<and> map item_file is = map (staged_entry \<circ> fst) fs \<and>
    concat bs = concat (map raw_item is)"
  using assms
proof (induction fs arbitrary: bs)
  case (Cons f fs)
  obtain st r where f: "f = (st, r)" by (cases f)
  from Cons.prems obtain b bs' where b: "write_file (sha256_hex c) (st, r) = Inr b"
    "map_result (write_file (sha256_hex c)) fs = Inr bs'" "bs = b # bs'"
    by (auto simp: f)
  from write_file_Inr [OF b(1)] Cons.prems(2) obtain i where
    "item_ok c i" "item_file i = staged_entry st" "b = raw_item i" by (auto simp: f)
  moreover from Cons.IH [OF b(2)] Cons.prems(2) obtain "is" where
    "list_all (item_ok c) is" "map item_file is = map (staged_entry \<circ> fst) fs"
    "concat bs' = concat (map raw_item is)" by auto
  ultimately show ?case using b(3) f by (intro exI [of _ "i # is"]) simp
qed simp

text \<open>The reader's allowance covers every archive the writer can make.\<close>

lemma length_raw_item: "item_ok c i \<Longrightarrow> length (raw_item i) \<le> file_size (item_file i) + 1023"
  using padding_less [of "length (item_payload i)"]
  by (auto simp: item_ok_def raw_item_def block_for_def write_padding_def)

lemma length_raw_items:
  "list_all (item_ok c) is \<Longrightarrow> length (concat (map raw_item is)) \<le> items_size is + 1023 * length is"
proof (induction "is")
  case (Cons i js)
  then show ?case using length_raw_item [of c i] by simp
qed simp

lemma length_small_entry: "block_for h b \<Longrightarrow> length (small_entry b raw) \<le> length raw + 1023"
  using padding_less [of "length raw"] by (simp add: small_entry_def block_for_def write_padding_def)

lemma valid_manifest_bounds:
  assumes "validate_manifest m True = Inr ()"
  shows "list_all entry_ok (files m)" "length (files m) \<le> max_files"
    "total_size (files m) \<le> max_total_bytes"
  using assms unfolding validate_header by (auto simp: check_manifest_files_iff split: if_splits)

text \<open>The reading of a file that nobody touches: compression and decompression agree on it.\<close>

definition whole_member :: "bytes \<Rightarrow> gz_member" where
  "whole_member raw = \<lparr>gz_output = raw, gz_sound = True, gz_rest = Some []\<rparr>"

definition files_ready :: "manifest \<Rightarrow> (staged_file \<times> stage_read) list \<Rightarrow> bool" where
  "files_ready m fs \<longleftrightarrow> files m = map (staged_entry \<circ> fst) fs \<and>
     list_all (\<lambda>(st, r). valid_utf8 (staged_path st)) fs"

lemma written_layout:
  assumes w: "write_raw (sha256_hex c) mb sig fs = Inr raw" and fs: "files_ready m fs"
    and m: "decode_strict_json (parse_json c) manifest_of_json mb = Inr m" "validate_manifest m True = Inr ()"
    and t: "trusted c key au mb sig"
  shows "\<exists>is. stream_layout c key au (whole_member raw) mb m sig is"
proof -
  from w obtain mbs sbs bs where parts: "write_small_entry ''manifest.json'' mb = Inr mbs"
    "(case sig of None \<Rightarrow> Inr [] | Some r \<Rightarrow> write_small_entry ''manifest.sig'' r) = Inr sbs"
    "map_result (write_file (sha256_hex c)) fs = Inr bs" "raw = mbs @ sbs @ concat bs @ replicate 1024 NUL"
    by (auto simp: write_raw_def)
  have mb: "length mb \<le> max_manifest_bytes" using decoded_bounds [OF m(1)] by simp
  then obtain b where b: "block_for (manifest_header mb) b" "mbs = small_entry b mb"
    using write_small_entry_Inr [OF parts(1)]
    by (auto simp: manifest_header_def max_manifest_bytes_def max_file_bytes_def)
  have s: "signature_bytes sig sbs \<and> length sbs \<le> 1151"
  proof (cases sig)
    case (Some r)
    with t have r: "length r \<le> 128" by (auto simp: trusted_def signed_by_def)
    with Some parts(2) obtain h where h: "block_for (signature_header r) h" "sbs = small_entry h r"
      using write_small_entry_Inr [of "''manifest.sig''" r sbs]
      by (auto simp: signature_header_def max_file_bytes_def)
    then have "length sbs \<le> length r + 1023" using length_small_entry by blast
    with Some h r show ?thesis by (auto simp: signature_bytes_def)
  qed (use parts(2) in \<open>simp add: signature_bytes_def\<close>)
  note bounds = valid_manifest_bounds [OF m(2)]
  have "list_all (\<lambda>(st, r). entry_ok (staged_entry st) \<and> valid_utf8 (staged_path st)) fs"
    using fs bounds(1) unfolding files_ready_def by (auto simp: list_all_iff)
  from write_files_Inr [OF parts(3) this] fs obtain "is" where i: "list_all (item_ok c) is"
    "map item_file is = files m" "concat bs = concat (map raw_item is)"
    by (auto simp: files_ready_def)
  have perm: "mset (map item_file is) = mset (files m)" using i(2) by simp
  have "length (concat (map raw_item is)) \<le> max_total_bytes + 1023 * max_files"
    using length_raw_items [OF i(1)] items_size_total [OF perm] bounds(2,3) by simp
  moreover have "length mbs \<le> max_manifest_bytes + 1023"
    using length_small_entry [OF b(1), of mb] b(2) mb by simp
  ultimately have "length raw < raw_limit"
    using s unfolding parts(4) i(3)
    by (simp add: raw_limit_def max_total_bytes_def max_files_def max_manifest_bytes_def)
  moreover have "\<exists>b bs z. block_for (manifest_header mb) b \<and> signature_bytes sig bs \<and> z \<le> 1048576 \<and>
      raw = small_entry b mb @ bs @ concat (map raw_item is) @ replicate 1024 NUL @ replicate z NUL"
    using b s parts(4) i(3) by (intro exI [of _ b] exI [of _ sbs] exI [of _ 0]) simp
  ultimately have "stream_layout c key au (whole_member raw) mb m sig is"
    using i(1) m t perm unfolding stream_layout_def whole_member_def by simp
  then show ?thesis ..
qed

text \<open>A file whose metadata stay the same during the verification.\<close>

definition stable_file :: "file_meta \<Rightarrow> bytes \<Rightarrow> archive_file" where
  "stable_file meta b = \<lparr>meta_before = Some meta, meta_opened = Some (Some meta), content = b,
     meta_after = Some meta\<rparr>"

text \<open>C4. Building, then verifying: if the writer produced an archive for a valid manifest and
  the staged files it lists, and the decompressor undoes the compressor, then the verifier
  accepts the stable file with that archive under the same trust decision, and reports the
  manifest, the hashes and the totals of the inventory. In particular the reader's byte
  allowance is never too small for a package the policy admits.\<close>

theorem build_verify_roundtrip:
  assumes "write_archive gzip (sha256_hex c) mb sig fs = Inr archive"
    and "files_ready m fs"
    and "decode_strict_json (parse_json c) manifest_of_json mb = Inr m"
    and "validate_manifest m True = Inr ()"
    and "trusted c key au mb sig"
    and "\<And>raw. gunzip c (gzip raw) = whole_member raw"
    and "meta_regular meta" "meta_len meta = length archive" "archive \<noteq> []"
  shows "verify_inner c (stable_file meta archive) key au no_sink give () =
    Inr (\<lparr>report_manifest = m, archive_sha256 = sha256_hex c archive,
          manifest_sha256 = sha256_hex c mb, authenticity = auth_label sig,
          files_verified = length (files m), bytes_verified = total_size (files m)\<rparr>, ())"
proof -
  from assms(1) obtain raw where raw: "write_raw (sha256_hex c) mb sig fs = Inr raw"
    "archive = gzip raw" "length archive \<le> max_archive_bytes"
    by (auto simp: write_archive_def)
  from written_layout [OF raw(1) assms(2-5)] obtain "is"
    where "stream_layout c key au (whole_member raw) mb m sig is" by blast
  then have "verify_stream c key au no_sink give (whole_member raw) () =
      Inr (mb, m, auth_label sig, length (files m), total_size (files m), ())"
    unfolding verify_stream_accepts by auto
  then show ?thesis
    using assms(6-9) raw(2,3) by (simp add: verify_inner_def stable_file_def Let_def)
qed

section \<open>A concrete package\<close>

text \<open>Five one-byte files, one for each required path, with a hash function that is constant.\<close>

definition sample_hash :: string where
  "sample_hash = replicate 64 (CHR ''a'')"

definition sample_entry :: "string \<times> nat \<Rightarrow> file_entry" where
  "sample_entry = (\<lambda>(p, mode). \<lparr>file_path = p, file_size = 1, file_sha256 = sample_hash, file_mode = mode\<rparr>)"

definition sample_paths :: "(string \<times> nat) list" where
  "sample_paths = [(''bin/bxdl'', mode_755), (''engine/nigo-node.jar'', mode_644),
     (''licenses/SBOM.json'', mode_644), (''licenses/THIRD_PARTY_NOTICES'', mode_644),
     (''runtime/bin/java'', mode_755)]"

definition sample_manifest :: manifest where
  "sample_manifest = \<lparr>schema_version = 1, kind = ''bxdl-package'',
     product = \<lparr>product_name = ''BXDL'', product_version = ''0.1.0'', product_revision = ''development''\<rparr>,
     channel = ''development'',
     platform = \<lparr>platform_os = ''darwin'', platform_arch = ''arm64'', platform_libc = ''none'',
       platform_min_glibc = ''none'', platform_java_major = 21, platform_backend = ''rocksdb''\<rparr>,
     engine = \<lparr>engine_revision = replicate 40 (CHR ''b''), engine_jar_sha256 = sample_hash,
       engine_contract_status = ''proposed'', engine_contract_revision = ''r1''\<rparr>,
     runtime = \<lparr>runtime_vendor = ''v'', runtime_version = ''21'', runtime_java_sha256 = sample_hash\<rparr>,
     files = map sample_entry sample_paths\<rparr>"

definition sample_json :: json where
  "sample_json = JObj
     [(''schemaVersion'', JInt 1), (''kind'', JStr ''bxdl-package''),
      (''product'', JObj [(''name'', JStr ''BXDL''), (''version'', JStr ''0.1.0''), (''revision'', JStr ''development'')]),
      (''channel'', JStr ''development''),
      (''platform'', JObj [(''os'', JStr ''darwin''), (''arch'', JStr ''arm64''), (''libc'', JStr ''none''),
         (''minGlibc'', JStr ''none''), (''javaMajor'', JInt 21), (''backend'', JStr ''rocksdb'')]),
      (''engine'', JObj [(''revision'', JStr (replicate 40 (CHR ''b''))), (''jarSha256'', JStr sample_hash),
         (''contractStatus'', JStr ''proposed''), (''contractRevision'', JStr ''r1'')]),
      (''runtime'', JObj [(''vendor'', JStr ''v''), (''version'', JStr ''21''), (''javaSha256'', JStr sample_hash)]),
      (''files'', JArr (map (\<lambda>(p, mode). JObj [(''path'', JStr p), (''size'', JInt 1),
         (''sha256'', JStr sample_hash), (''mode'', JInt (int mode))]) sample_paths))]"

definition sample_identity :: identity where
  "sample_identity = \<lparr>id_device = 1, id_inode = 1, id_size = 1, id_mode = mode_644, id_seconds = 0, id_nanos = 0\<rparr>"

definition sample_read :: stage_read where
  "sample_read = (let a = Some (True, sample_identity) in
     \<lparr>seen_path = a, seen_opened = Some a, seen_content = Some ''x'', seen_after = a, seen_current = a\<rparr>)"

definition sample_files :: "(staged_file \<times> stage_read) list" where
  "sample_files = map (\<lambda>p. (\<lparr>staged_entry = sample_entry p, staged_identity = sample_identity\<rparr>, sample_read)) sample_paths"

definition sample_crypto :: "(bytes, unit) crypto" where
  "sample_crypto = \<lparr>gunzip = whole_member, sha256_hex = (\<lambda>_. sample_hash), base64_decode = Some,
     signature_of = Some, verify_strict = (\<lambda>_ _ _. True), parse_json = (\<lambda>_. Some sample_json)\<rparr>"

lemma sample_decodes:
  "decode_strict_json (parse_json sample_crypto) manifest_of_json ''{}'' = Inr sample_manifest"
  by code_simp

lemma sample_valid: "validate_manifest sample_manifest True = Inr ()"
  by code_simp

lemma sample_paths_encodable: "list_all (\<lambda>p. encodable_path (fst p)) sample_paths"
  by (simp add: sample_paths_def encodable_path_def)

lemma write_file_sample:
  assumes "p \<in> set sample_paths"
  shows "\<exists>b. write_file (sha256_hex sample_crypto)
    (\<lparr>staged_entry = sample_entry p, staged_identity = sample_identity\<rparr>, sample_read) = Inr b"
proof -
  obtain path mode where p: "p = (path, mode)" by (cases p)
  have "encodable_path path" using assms sample_paths_encodable by (auto simp: list_all_iff p)
  moreover have "mode < 8 ^ 7" using assms by (auto simp: sample_paths_def p)
  ultimately obtain h where "tar_header path 1 mode = Inr h"
    using tar_header_total [of path 1 mode] by auto
  then show ?thesis
    by (simp add: write_file_def p sample_entry_def stream_stage_file_def sample_read_def Let_def
        unchanged_def sample_crypto_def)
qed

lemma map_result_total: "list_all (\<lambda>x. \<exists>y. f x = Inr y) xs \<Longrightarrow> \<exists>ys. map_result f xs = Inr ys"
  by (induction xs) auto

text \<open>The sample package with and without a signature entry.\<close>

lemma sample_trusted:
  "trusted sample_crypto None True ''{}'' None" "trusted sample_crypto (Some ()) False ''{}'' (Some ''sg'')"
proof -
  have "valid_utf8 ''sg''" by code_simp
  then show "trusted sample_crypto (Some ()) False ''{}'' (Some ''sg'')"
    by (simp add: trusted_def signed_by_def sample_crypto_def)
qed (simp add: trusted_def)

lemma sample_ready: "files_ready sample_manifest sample_files"
  by code_simp

lemma sample_totals: "length (files sample_manifest) = 5" "total_size (files sample_manifest) = 5"
  by (simp_all add: sample_manifest_def sample_paths_def sample_entry_def)

lemma write_small_entry_total:
  assumes "encodable_path name" "length b < 8 ^ 11"
  shows "\<exists>bs. write_small_entry name b = Inr bs"
  using assms tar_header_total [of name "length b" mode_644] by (auto simp: write_small_entry_def)

lemma sample_writes:
  assumes t: "trusted sample_crypto key au ''{}'' sig" and sg: "sig \<in> {None, Some ''sg''}"
  shows "\<exists>a. write_archive id (sha256_hex sample_crypto) ''{}'' sig sample_files = Inr a \<and> a \<noteq> []"
proof -
  obtain mbs where mbs: "write_small_entry ''manifest.json'' ''{}'' = Inr mbs"
    using write_small_entry_total [of "''manifest.json''" "''{}''"] by (auto simp: encodable_path_def)
  obtain sbs where sbs: "write_small_entry ''manifest.sig'' ''sg'' = Inr sbs"
    using write_small_entry_total [of "''manifest.sig''" "''sg''"] by (auto simp: encodable_path_def)
  have files: "list_all (\<lambda>x. \<exists>y. write_file (sha256_hex sample_crypto) x = Inr y) sample_files"
    using write_file_sample by (auto simp: sample_files_def list_all_iff)
  then obtain bs where "map_result (write_file (sha256_hex sample_crypto)) sample_files = Inr bs"
    using map_result_total by blast
  with mbs sbs sg obtain raw where raw: "write_raw (sha256_hex sample_crypto) ''{}'' sig sample_files = Inr raw"
    by (auto simp: write_raw_def)
  obtain "is" where "stream_layout sample_crypto key au (whole_member raw) ''{}'' sample_manifest sig is"
    using written_layout [OF raw sample_ready sample_decodes sample_valid t] by blast
  then obtain b bs z where l: "block_for (manifest_header ''{}'') b" "z \<le> 1048576" "signature_bytes sig bs"
    "raw = small_entry b ''{}'' @ bs @ concat (map raw_item is) @ replicate 1024 NUL @ replicate z NUL"
    and i: "list_all (item_ok sample_crypto) is" "mset (map item_file is) = mset (files sample_manifest)"
    by (auto simp: stream_layout_def whole_member_def)
  have "length (concat (map raw_item is)) \<le> 5 + 1023 * 5"
    using length_raw_items [OF i(1)] items_size_total [OF i(2)] by (simp add: sample_totals)
  moreover have "length bs \<le> 2 + 1023"
    using l(3) sg length_small_entry [of _ _ "''sg''"] by (fastforce simp: signature_bytes_def)
  ultimately have "length raw \<le> max_archive_bytes"
    using length_small_entry [OF l(1), of "''{}''"] l(2)
    unfolding l(4) by (simp add: max_archive_bytes_def)
  then show ?thesis using raw by (auto simp: write_archive_def write_raw_def)
qed

definition sample_meta :: "nat \<Rightarrow> file_meta" where
  "sample_meta n = \<lparr>meta_regular = True, meta_len = n, meta_node = (1, 1), meta_modified = Some 0\<rparr>"

definition sample_report :: "bytes option \<Rightarrow> report" where
  "sample_report sig = \<lparr>report_manifest = sample_manifest, archive_sha256 = sample_hash,
     manifest_sha256 = sample_hash, authenticity = auth_label sig, files_verified = 5, bytes_verified = 5\<rparr>"

definition sample_file :: "bytes \<Rightarrow> archive_file" where
  "sample_file a = stable_file (sample_meta (length a)) a"

text \<open>The verifier accepts both sample packages.\<close>

lemma sample_verifies:
  assumes t: "trusted sample_crypto key au ''{}'' sig" and sg: "sig \<in> {None, Some ''sg''}"
    and s: "\<And>cs. \<exists>st'. run_sink sink st cs = Inr st'"
  shows "\<exists>a st'. verify_inner sample_crypto (sample_file a) key au sink give st = Inr (sample_report sig, st')"
proof -
  obtain a where "write_archive id (sha256_hex sample_crypto) ''{}'' sig sample_files = Inr a" "a \<noteq> []"
    using sample_writes [OF t sg] by blast
  then obtain raw where raw: "write_raw (sha256_hex sample_crypto) ''{}'' sig sample_files = Inr raw"
    "length raw \<le> max_archive_bytes" "raw \<noteq> []"
    by (auto simp: write_archive_def)
  obtain "is" where l: "stream_layout sample_crypto key au (whole_member raw) ''{}'' sample_manifest sig is"
    using written_layout [OF raw(1) sample_ready sample_decodes sample_valid t] by blast
  obtain st' where "run_sink sink st (stream_calls sample_manifest ''{}'' sig is) = Inr st'"
    using s by blast
  with l have "verify_stream sample_crypto key au sink give (whole_member raw) st =
      Inr (''{}'', sample_manifest, auth_label sig, 5, 5, st')"
    unfolding verify_stream_accepts sample_totals by blast
  then show ?thesis
    using raw(2,3)
    by (intro exI [of _ raw] exI [of _ st'])
      (simp add: verify_inner_def sample_file_def stable_file_def sample_meta_def Let_def
        sample_crypto_def sample_report_def)
qed

theorem build_verify_roundtrip_witness:
  "\<exists>a. write_archive id (sha256_hex sample_crypto) ''{}'' None sample_files = Inr a \<and>
     verify_inner sample_crypto (sample_file a) None True no_sink (\<lambda>n. n) () = Inr (sample_report None, ())"
proof -
  obtain a where a: "write_archive id (sha256_hex sample_crypto) ''{}'' None sample_files = Inr a" "a \<noteq> []"
    using sample_writes [OF sample_trusted(1)] by blast
  have "verify_inner sample_crypto (stable_file (sample_meta (length a)) a) None True no_sink (\<lambda>n. n) () =
    Inr (\<lparr>report_manifest = sample_manifest, archive_sha256 = sha256_hex sample_crypto a,
          manifest_sha256 = sha256_hex sample_crypto ''{}'', authenticity = auth_label None,
          files_verified = length (files sample_manifest), bytes_verified = total_size (files sample_manifest)\<rparr>, ())"
    by (rule build_verify_roundtrip [OF a(1) sample_ready sample_decodes sample_valid sample_trusted(1)])
      (simp_all add: sample_crypto_def sample_meta_def a(2))
  with a show ?thesis
    by (simp add: sample_file_def sample_report_def sample_totals sample_crypto_def)
qed

theorem verified_package_signed_witness:
  "\<exists>mb raw. signed_by sample_crypto (Some ()) mb raw \<and> sample_hash = sha256_hex sample_crypto mb \<and>
    decode_strict_json (parse_json sample_crypto) manifest_of_json mb = Inr sample_manifest \<and>
    validate_manifest sample_manifest True = Inr ()"
proof -
  obtain a where a: "verify_inner sample_crypto (sample_file a) (Some ()) False no_sink (\<lambda>n. n) () =
      Inr (sample_report (Some ''sg''), ())"
    using sample_verifies [OF sample_trusted(2), of no_sink "()"] by auto
  show ?thesis using verified_package_signed [OF a] unfolding sample_report_def report.simps by blast
qed

theorem delivered_payloads_witness:
  "\<exists>log mb sig is. log = SinkBegin sample_manifest mb sig #
      concat (map (\<lambda>i. StartFile (item_file i) # map WriteChunk (chunks (item_payload i)) @ [FinishFile]) is) \<and>
    length is = 5"
proof -
  obtain a log where a: "verify_inner sample_crypto (sample_file a) None True recording_sink (\<lambda>n. n) [] =
      Inr (sample_report None, log)"
    using sample_verifies [OF sample_trusted(1), of recording_sink "[]" "\<lambda>n. n"] by auto
  show ?thesis
    using delivered_payloads [OF a] items_size_total sample_totals
    unfolding sample_report_def report.simps by metis
qed

section \<open>Properties of the scan\<close>

text \<open>A successful scan lists only files with policy-conforming UTF-8 paths and the two
  allowed modes, each with the digest of bytes of its recorded size, in path order and within
  the package limits.\<close>

theorem collect_stage_sound:
  assumes "collect_stage sha root = Inr fs"
  shows "sorted (map staged_path fs) \<and> length fs \<le> max_files \<and> staged_size fs \<le> max_total_bytes \<and>
    list_all (staged_good sha) fs"
  using collect_stage_ok [OF assms] by (simp add: scan_ok_def)

definition sample_tree :: stage_listing where
  "sample_tree = ListingEntry ''docs'' (StageDir (ListingEntry ''a.md''
     (StageFile \<lparr>sf_mode = 33188, sf_len = 1, sf_identity = sample_identity, sf_read = sample_read\<rparr>)
     ListingEnd)) ListingEnd"

definition sample_found :: staged_file where
  "sample_found = \<lparr>staged_entry = sample_entry (''docs/a.md'', mode_644), staged_identity = sample_identity\<rparr>"

lemma sample_tree_scan: "collect_stage (\<lambda>_. sample_hash) sample_tree = Inr [sample_found]"
proof -
  have paths: "validate_path ''docs/a.md'' = Inr ()" "valid_utf8 ''docs/a.md''" "valid_utf8 ''docs''"
    by code_simp+
  have "collect_directory (\<lambda>_. sample_hash) None sample_tree ([], 0) = Inr ([sample_found], 1)"
    unfolding sample_tree_def using paths
    by (simp add: Let_def child_path_def path_roots_def collect_file_def stream_stage_file_def
        sample_read_def sample_identity_def unchanged_def max_file_bytes_def max_files_def
        max_total_bytes_def sample_found_def sample_entry_def)
  then show ?thesis by (simp add: collect_stage_def)
qed

theorem collect_stage_sound_witness:
  "staged_path sample_found = ''docs/a.md'' \<and> staged_good (\<lambda>_. sample_hash) sample_found"
  using collect_stage_sound [OF sample_tree_scan]
  by (simp add: staged_path_def sample_found_def sample_entry_def)

end
