(* ===== verification/Bundle.thy ===== *)
theory Bundle
  imports BundleTar Build
begin

text \<open>
  The management bundle (\<open>src/src/management/bundle.rs\<close>): manifest policy, reading a bundle from a
  directory or from an archive, its authentication, and \<open>build\<close> with the check of its own output.

  The file system is given by its answers, one record per file read and one tree per directory
  walk. \<open>gunzip\<close>, the hash, base64, the signature scheme and the JSON parser are the \<open>crypto\<close>
  record of the verifier; \<open>gzip\<close>, the JSON printer and the signing key are further parameters.
\<close>

section \<open>Data\<close>

record cli_manifest =
  cli_schema :: nat
  cli_kind :: string
  cli_version :: string
  cli_revision :: string
  cli_target :: string
  cli_files :: "file_entry list"

record cli_bundle =
  bundle_manifest :: cli_manifest
  bundle_manifest_bytes :: bytes
  bundle_signature :: "bytes option"
  bundle_files :: "(string \<times> bytes) list"
  bundle_authenticity :: string
  bundle_manifest_sha256 :: string

definition cli_manifest_of_json :: "json \<Rightarrow> cli_manifest option" where
  "cli_manifest_of_json v =
     do { m \<leftarrow> struct_fields [''schemaVersion'', ''kind'', ''version'', ''revision'', ''target'', ''files''] [] v;
          sv \<leftarrow> get_uint u32_max m ''schemaVersion''; k \<leftarrow> get_str m ''kind'';
          ver \<leftarrow> get_str m ''version''; r \<leftarrow> get_str m ''revision''; t \<leftarrow> get_str m ''target'';
          fs \<leftarrow> get_vec file_entry_of_json None m ''files'';
          Some \<lparr>cli_schema = sv, cli_kind = k, cli_version = ver, cli_revision = r, cli_target = t,
                cli_files = fs\<rparr> }"

definition release_id :: "cli_bundle \<Rightarrow> string" where
  "release_id b = cli_version (bundle_manifest b) @ ''-'' @ cli_revision (bundle_manifest b)"

record verify_report =
  vr_manifest :: cli_manifest
  vr_manifest_sha256 :: string
  vr_authenticity :: string
  vr_files :: nat
  vr_bytes :: nat

definition bundle_report :: "cli_bundle \<Rightarrow> verify_report" where
  "bundle_report b = \<lparr>vr_manifest = bundle_manifest b, vr_manifest_sha256 = bundle_manifest_sha256 b,
     vr_authenticity = bundle_authenticity b, vr_files = length (bundle_files b),
     vr_bytes = sum_list (map (\<lambda>f. length (snd f)) (bundle_files b))\<rparr>"

section \<open>Manifest policy\<close>

definition bundle_version :: "string \<Rightarrow> bool" where
  "bundle_version v \<longleftrightarrow> v \<noteq> [] \<and> length v \<le> 64 \<and> is_digit (hd v) \<and>
     list_all (\<lambda>c. is_lower c \<or> is_digit c \<or> List.member ''.+-'' c) v \<and>
     \<not> sublist ''..'' v \<and> \<not> suffix ''.'' v"

fun check_cli_files :: "string list \<Rightarrow> file_entry list \<Rightarrow> unit result" where
  "check_cli_files seen [] = Inr ()"
| "check_cli_files seen (f # fs) =
     and_then (ok_or (map_of payloads (file_path f)) ''CLI_BUNDLE_MANIFEST_INVALID'') (\<lambda>mode.
     and_then (ensure (\<not> (List.member seen (file_path f) \<or> file_mode f \<noteq> mode \<or> file_size f = 0 \<or>
                 entry_limit (file_path f) < file_size f \<or> \<not> hash_string (file_sha256 f) 64))
                 ''CLI_BUNDLE_MANIFEST_INVALID'') (\<lambda>_.
     check_cli_files (file_path f # seen) fs))"

definition validate_cli_manifest :: "cli_manifest \<Rightarrow> unit result" where
  "validate_cli_manifest m =
     and_then (ensure (\<not> (cli_schema m \<noteq> 1 \<or> cli_kind m \<noteq> ''bxdl-management-cli'' \<or>
                 cli_target m \<noteq> ''darwin-arm64'' \<or> \<not> bundle_version (cli_version m) \<or>
                 \<not> (hash_string (cli_revision m) 40 \<or> cli_revision m = ''development'') \<or>
                 length (cli_files m) \<noteq> length payloads)) ''CLI_BUNDLE_MANIFEST_INVALID'') (\<lambda>_.
     check_cli_files [] (cli_files m))"

definition macho_arm64 :: bytes where
  "macho_arm64 = [CHR 0xCF, CHR 0xFA, CHR 0xED, CHR 0xFE, CHR 0x0C, CHR 0x00, CHR 0x00, CHR 0x01]"

definition validate_binary :: "bytes \<Rightarrow> unit result" where
  "validate_binary b =
     ensure (\<not> (length b < 32 \<or> take 8 b \<noteq> macho_arm64)) ''CLI_BUNDLE_MANIFEST_INVALID''"

definition parse_signature :: "('a, 'k) crypto \<Rightarrow> bytes \<Rightarrow> 'a result" where
  "parse_signature c raw =
     and_then (ensure (\<not> (raw = [] \<or> 128 < length raw)) ''CLI_BUNDLE_SIGNATURE_INVALID'') (\<lambda>_.
     and_then (ensure (valid_utf8 raw) ''CLI_BUNDLE_SIGNATURE_INVALID'') (\<lambda>_.
     and_then (ok_or (base64_decode c (trim raw)) ''CLI_BUNDLE_SIGNATURE_INVALID'') (\<lambda>b.
     ok_or (signature_of c b) ''CLI_BUNDLE_SIGNATURE_INVALID'')))"

section \<open>From entries to a bundle\<close>

definition remove_entry :: "string \<Rightarrow> entries \<Rightarrow> entries" where
  "remove_entry n es = filter (\<lambda>e. fst e \<noteq> n) es"

text \<open>One expected file: taken out of the entries and compared.\<close>

definition take_file ::
  "('a, 'k) crypto \<Rightarrow> entries \<times> (string \<times> bytes) list \<Rightarrow> file_entry
     \<Rightarrow> (entries \<times> (string \<times> bytes) list) result" where
  "take_file c = (\<lambda>(es, taken) f.
     and_then (ok_or (map_of es (file_path f)) bundle_invalid) (\<lambda>(mode, b).
     and_then (ensure (\<not> (mode \<noteq> file_mode f \<or> length b \<noteq> file_size f \<or>
                 sha256_hex c b \<noteq> file_sha256 f)) ''CLI_BUNDLE_HASH_MISMATCH'') (\<lambda>_.
     Inr (remove_entry (file_path f) es, taken @ [(file_path f, b)]))))"

definition bundle_signature_entry :: "('a, 'k) crypto \<Rightarrow> entries \<Rightarrow> bytes option result" where
  "bundle_signature_entry c es =
     (case map_of es ''manifest.sig'' of
        None \<Rightarrow> Inr None
      | Some (mode, raw) \<Rightarrow>
          and_then (ensure (\<not> mode \<noteq> mode_644) ''CLI_BUNDLE_SIGNATURE_INVALID'') (\<lambda>_.
          and_then (parse_signature c raw) (\<lambda>_. Inr (Some raw))))"

definition from_entries :: "('a, 'k) crypto \<Rightarrow> entries \<Rightarrow> cli_bundle result" where
  "from_entries c es =
     and_then (ok_or (map_of es ''manifest.json'') ''CLI_BUNDLE_MANIFEST_INVALID'') (\<lambda>(mode, mb).
     let es = remove_entry ''manifest.json'' es in
     and_then (ensure (\<not> (mode \<noteq> mode_644 \<or> mb = [] \<or> max_metadata < length mb))
                 ''CLI_BUNDLE_MANIFEST_INVALID'') (\<lambda>_.
     and_then (map_err ''CLI_BUNDLE_MANIFEST_INVALID''
                 (decode_strict_json (parse_json c) cli_manifest_of_json mb)) (\<lambda>m.
     and_then (validate_cli_manifest m) (\<lambda>_.
     and_then (bundle_signature_entry c es) (\<lambda>sig.
     let es = remove_entry ''manifest.sig'' es in
     and_then (ensure (length es = length payloads) bundle_invalid) (\<lambda>_.
     and_then (fold_result (take_file c) (es, []) (cli_files m)) (\<lambda>(_, taken).
     and_then (ok_or (map_of taken ''bin/bxdl'') bundle_invalid) (\<lambda>binary.
     and_then (validate_binary binary) (\<lambda>_.
     Inr \<lparr>bundle_manifest = m, bundle_manifest_bytes = mb, bundle_signature = sig,
          bundle_files = taken, bundle_authenticity = [],
          bundle_manifest_sha256 = sha256_hex c mb\<rparr>)))))))))"

definition bundle_authenticate ::
  "('a, 'k) crypto \<Rightarrow> cli_bundle \<Rightarrow> 'k option \<Rightarrow> bool \<Rightarrow> cli_bundle result" where
  "bundle_authenticate c b key unsigned =
     (case (bundle_signature b, key, unsigned) of
        (Some raw, Some k, False) \<Rightarrow>
          and_then (ensure (\<not> cli_revision (bundle_manifest b) = ''development'')
                      ''CLI_BUNDLE_MANIFEST_INVALID'') (\<lambda>_.
          and_then (parse_signature c raw) (\<lambda>signature.
          and_then (ensure (verify_strict c k (bundle_manifest_bytes b) signature)
                      ''CLI_BUNDLE_SIGNATURE_INVALID'') (\<lambda>_.
          Inr (b\<lparr>bundle_authenticity := ''verified-external-ed25519''\<rparr>))))
      | (None, None, True) \<Rightarrow> Inr (b\<lparr>bundle_authenticity := ''unsigned-development''\<rparr>)
      | _ \<Rightarrow> fail ''CLI_BUNDLE_TRUST_REQUIRED'')"

text \<open>The whole member has to be consumed, its end checked, and its output bounded.\<close>

definition archive_entries :: "('a, 'k) crypto \<Rightarrow> bytes \<Rightarrow> entries result" where
  "archive_entries c b =
     (let gz = gunzip c b in
      and_then (ensure (length (gz_output gz) \<le> max_raw \<and> gz_sound gz) bundle_invalid) (\<lambda>_.
      and_then (ensure (gz_rest gz = Some []) bundle_invalid) (\<lambda>_.
      read_tar (gz_output gz))))"


section \<open>Reading files and directories\<close>

definition bundle_identity :: "fs_meta \<Rightarrow> nat \<times> nat \<times> nat \<times> nat \<times> (int \<times> int) \<times> (int \<times> int)" where
  "bundle_identity m =
     (fm_device m, fm_inode m, fm_len m, fm_mode m, fm_modified m, fm_changed m)"

text \<open>
  The answers during one \<open>read_file\<close>: the path's metadata, the open (\<open>None\<close>: it fails) with the
  opened file's metadata, its content (\<open>None\<close>: a read fails), and both metadata again.
\<close>

record file_answers =
  fa_before :: "fs_meta option"
  fa_opened :: "fs_meta option option"
  fa_content :: "bytes option"
  fa_after :: "fs_meta option"
  fa_current :: "fs_meta option"

definition bundle_changed :: string where
  "bundle_changed = ''CLI_BUNDLE_CHANGED''"

definition bundle_read_file :: "nat \<Rightarrow> nat option \<Rightarrow> file_answers \<Rightarrow> bytes result" where
  "bundle_read_file maximum expected_mode a =
     and_then (ok_or (fa_before a) bundle_invalid) (\<lambda>before.
     and_then (ensure (\<not> (\<not> fm_regular before \<or> fm_links before \<noteq> 1 \<or> fm_len before = 0 \<or>
                 maximum < fm_len before \<or>
                 (case expected_mode of None \<Rightarrow> False | Some md \<Rightarrow> fm_mode before mod 4096 \<noteq> md)))
                 bundle_invalid) (\<lambda>_.
     and_then (ok_or (fa_opened a) bundle_invalid) (\<lambda>opened.
     and_then (ok_or opened bundle_invalid) (\<lambda>opened.
     and_then (ensure (\<not> bundle_identity before \<noteq> bundle_identity opened) bundle_changed) (\<lambda>_.
     and_then (ok_or (fa_content a) bundle_invalid) (\<lambda>file.
     let b = take (Suc maximum) file in
     and_then (ensure (\<not> (length b \<noteq> fm_len before \<or> maximum < length b)) bundle_changed) (\<lambda>_.
     and_then (ok_or (fa_after a) bundle_invalid) (\<lambda>after.
     and_then (ensure (\<not> bundle_identity before \<noteq> bundle_identity after) bundle_changed) (\<lambda>_.
     and_then (ok_or (fa_current a) bundle_changed) (\<lambda>current.
     and_then (ensure (\<not> bundle_identity before \<noteq> bundle_identity current) bundle_changed) (\<lambda>_.
     Inr b)))))))))))"

text \<open>
  A directory: its metadata before and after, and what \<open>read_dir\<close> enumerates (\<open>None\<close>: it
  fails); an enumerated entry is an error or a name with its metadata, the answers when it is
  read as a file, and what it holds when it is walked as a directory.
\<close>

datatype dir_node = Dir_Node "fs_meta option" "dir_entry list option" "fs_meta option"
and dir_entry = Entry_Error | Dir_Entry bytes "fs_meta option" file_answers dir_node

definition bundle_directories :: "string list" where
  "bundle_directories = [''bin'', ''docs'', ''share'', ''share/zsh'', ''share/zsh/site-functions'']"

definition expected_mode :: "bool \<Rightarrow> string \<Rightarrow> nat option" where
  "expected_mode metadata rel =
     (case map_of payloads rel of
        Some md \<Rightarrow> Some md
      | None \<Rightarrow> if metadata \<and> rel \<in> {''manifest.json'', ''manifest.sig''} then Some mode_644 else None)"

function (sequential) bundle_walk :: "bool \<Rightarrow> string option \<Rightarrow> dir_node \<Rightarrow> entries \<Rightarrow> entries result"
  and walk_entries :: "bool \<Rightarrow> string option \<Rightarrow> nat \<Rightarrow> dir_entry list \<Rightarrow> entries \<Rightarrow> entries result"
  and walk_entry :: "bool \<Rightarrow> string option \<Rightarrow> dir_entry \<Rightarrow> entries \<Rightarrow> entries result"
where
  "bundle_walk metadata dir (Dir_Node before listing after) es =
     and_then (ok_or before bundle_invalid) (\<lambda>before.
     and_then (ensure (fm_dir before) bundle_invalid) (\<lambda>_.
     and_then (case listing of None \<Rightarrow> fail bundle_invalid
               | Some ds \<Rightarrow> walk_entries metadata dir 0 ds es) (\<lambda>es.
     and_then (ok_or after bundle_changed) (\<lambda>after.
     and_then (ensure (\<not> bundle_identity before \<noteq> bundle_identity after) bundle_changed) (\<lambda>_.
     Inr es)))))"
| "walk_entries metadata dir i [] es = Inr es"
| "walk_entries metadata dir i (d # ds) es =
     and_then (ensure (\<not> 8 < i) bundle_invalid) (\<lambda>_.
     and_then (walk_entry metadata dir d es) (\<lambda>es.
     walk_entries metadata dir (Suc i) ds es))"
| "walk_entry metadata dir Entry_Error es = fail bundle_invalid"
| "walk_entry metadata dir (Dir_Entry name m file sub) es =
     (let rel = child_path dir name in
      and_then (ensure (valid_utf8 rel) bundle_invalid) (\<lambda>_.
      and_then (ok_or m bundle_invalid) (\<lambda>m.
      if fm_dir m \<and> List.member bundle_directories rel then bundle_walk metadata (Some rel) sub es
      else
        and_then (ok_or (expected_mode metadata rel) bundle_invalid) (\<lambda>mode.
        and_then (bundle_read_file (entry_limit rel) (Some mode) file) (\<lambda>b.
        and_then (ensure (rel \<notin> fst ` set es) bundle_invalid) (\<lambda>_.
        Inr (es @ [(rel, mode, b)])))))))"
  by pat_completeness auto
termination
  by (relation "measure (\<lambda>x. case x of Inl (_, _, n, _) \<Rightarrow> size n
      | Inr (Inl (_, _, _, ds, _)) \<Rightarrow> size_list size ds | Inr (Inr (_, _, d, _)) \<Rightarrow> size d)") simp_all

text \<open>
  \<open>directory_entries\<close> looks at the root itself before and after the walk; the map it returns
  iterates in the order of its names.
\<close>

record dir_scan =
  scan_before :: "fs_meta option"
  scan_root :: dir_node
  scan_after :: "fs_meta option"

definition directory_entries :: "dir_scan \<Rightarrow> bool \<Rightarrow> entries result" where
  "directory_entries d metadata =
     and_then (ok_or (scan_before d) bundle_invalid) (\<lambda>before.
     and_then (ensure (fm_dir before) bundle_invalid) (\<lambda>_.
     and_then (bundle_walk metadata None (scan_root d) []) (\<lambda>es.
     and_then (ok_or (scan_after d) bundle_changed) (\<lambda>after.
     and_then (ensure (\<not> bundle_identity before \<noteq> bundle_identity after) bundle_changed) (\<lambda>_.
     Inr (sort_key fst es))))))"

section \<open>Verification\<close>

definition max_bundle_archive :: nat where "max_bundle_archive = 54525952"

text \<open>The path handed to \<open>verify\<close>: its metadata, and the answers to either way of reading it.\<close>

record bundle_source =
  source_meta :: "fs_meta option"
  source_scan :: dir_scan
  source_file :: file_answers

definition read_bundle :: "('a, 'k) crypto \<Rightarrow> bundle_source \<Rightarrow> cli_bundle result" where
  "read_bundle c src =
     and_then (ok_or (source_meta src) bundle_invalid) (\<lambda>m.
     and_then (if fm_dir m then directory_entries (source_scan src) True
               else if fm_regular m then
                 and_then (bundle_read_file max_bundle_archive None (source_file src)) (archive_entries c)
               else fail bundle_invalid) (\<lambda>es.
     from_entries c es))"

definition verify_with_key ::
  "('a, 'k) crypto \<Rightarrow> bundle_source \<Rightarrow> 'k option \<Rightarrow> bool \<Rightarrow> cli_bundle result" where
  "verify_with_key c src key allow_unsigned =
     and_then (ensure (\<not> (key \<noteq> None) = allow_unsigned) ''CLI_BUNDLE_TRUST_REQUIRED'') (\<lambda>_.
     and_then (read_bundle c src) (\<lambda>b. bundle_authenticate c b key allow_unsigned))"

text \<open>\<open>key\<close> is what \<open>load_public_key\<close> makes of the configured path, if there is one.\<close>

definition bundle_verify ::
  "('a, 'k) crypto \<Rightarrow> bundle_source \<Rightarrow> 'k result option \<Rightarrow> bool \<Rightarrow> cli_bundle result" where
  "bundle_verify c src key allow_unsigned =
     and_then (ensure ((key \<noteq> None) \<noteq> allow_unsigned) ''CLI_BUNDLE_TRUST_REQUIRED'') (\<lambda>_.
     and_then (case key of None \<Rightarrow> Inr None | Some k \<Rightarrow> and_then k (\<lambda>k. Inr (Some k))) (\<lambda>key.
     verify_with_key c src key allow_unsigned))"

definition verify_integrity :: "('a, 'k) crypto \<Rightarrow> fs_meta option \<Rightarrow> bundle_source \<Rightarrow> cli_bundle result" where
  "verify_integrity c m src =
     and_then (ok_or m bundle_invalid) (\<lambda>m.
     and_then (ensure (fm_dir m) bundle_invalid) (\<lambda>_.
     and_then (read_bundle c src) (\<lambda>b.
     Inr (b\<lparr>bundle_authenticity := ''previously-admitted-integrity-only''\<rparr>))))"

section \<open>Building\<close>

record 'p build_options =
  opt_version :: string
  opt_revision :: string
  opt_signing :: "'p option"
  opt_unsigned :: bool

text \<open>
  The world during a build: two scans of the root, the signing key file (loaded, its node, the
  nodes of the payload paths), the output path after \<open>absolute_output\<close> with the canonical root,
  both as components, and the success of creating, writing and syncing the output.
\<close>

record ('s, 'p) build_world =
  first_scan :: dir_scan
  second_scan :: dir_scan
  load_key :: "'p \<Rightarrow> 's result"
  key_node :: "(nat \<times> nat) option"
  payload_node :: "string \<Rightarrow> (nat \<times> nat) option"
  out_path :: "string list result"
  real_root :: "string list option"
  create_ok :: bool
  write_ok :: bool
  parent_ok :: bool

record ('a, 'k, 's) signer =
  print_manifest :: "cli_manifest \<Rightarrow> bytes option"
  sign_base64 :: "'s \<Rightarrow> bytes \<Rightarrow> bytes"
  public_of :: "'s \<Rightarrow> 'k"
  gzip_best :: "bytes \<Rightarrow> bytes option"

definition built_entry :: "('a, 'k) crypto \<Rightarrow> string \<times> nat \<times> bytes \<Rightarrow> file_entry" where
  "built_entry c = (\<lambda>(p, mode, b). \<lparr>file_path = p, file_size = length b,
     file_sha256 = sha256_hex c b, file_mode = mode\<rparr>)"

definition built_manifest :: "('a, 'k) crypto \<Rightarrow> string \<Rightarrow> string \<Rightarrow> entries \<Rightarrow> cli_manifest" where
  "built_manifest c v r es = \<lparr>cli_schema = 1, cli_kind = ''bxdl-management-cli'', cli_version = v,
     cli_revision = r, cli_target = ''darwin-arm64'', cli_files = map (built_entry c) es\<rparr>"

definition key_outside :: "('s, 'p) build_world \<Rightarrow> entries \<Rightarrow> unit result" where
  "key_outside w es =
     and_then (ok_or (key_node w) bundle_invalid) (\<lambda>k.
     and_then (map_result (\<lambda>e. and_then (ok_or (payload_node w (fst e)) bundle_invalid) (\<lambda>n.
                 ensure (\<not> k = n) ''CLI_BUNDLE_TRUST_REQUIRED'')) es) (\<lambda>_. Inr ()))"

text \<open>The entries of the archive: the manifest, the signature if there is one, the payload.\<close>

definition bundle_payload :: "bytes \<Rightarrow> bytes option \<Rightarrow> entries \<Rightarrow> entries" where
  "bundle_payload mb sig es = (''manifest.json'', mode_644, mb) #
     (case sig of None \<Rightarrow> [] | Some s \<Rightarrow> [(''manifest.sig'', mode_644, s)]) @ es"

text \<open>Compression, then the check of the very bytes about to be published.\<close>

definition checked_archive ::
  "('a, 'k) crypto \<Rightarrow> ('a, 'k, 's) signer \<Rightarrow> 's option \<Rightarrow> bool \<Rightarrow> entries \<Rightarrow> (bytes \<times> cli_bundle) result" where
  "checked_archive c sg key unsigned payload =
     and_then (write_tar payload) (\<lambda>raw.
     and_then (ok_or (gzip_best sg raw) bundle_invalid) (\<lambda>archive.
     and_then (ensure (\<not> max_bundle_archive < length archive) bundle_invalid) (\<lambda>_.
     and_then (archive_entries c archive) (\<lambda>es.
     and_then (from_entries c es) (\<lambda>b.
     and_then (bundle_authenticate c b (map_option (public_of sg) key) unsigned) (\<lambda>b.
     Inr (archive, b)))))))"

definition bundle_build ::
  "('a, 'k) crypto \<Rightarrow> ('a, 'k, 's) signer \<Rightarrow> ('s, 'p) build_world \<Rightarrow> 'p build_options
     \<Rightarrow> (bytes \<times> cli_bundle) result" where
  "bundle_build c sg w opts =
     and_then (ensure (\<not> (opt_signing opts \<noteq> None) = opt_unsigned opts) ''CLI_BUNDLE_TRUST_REQUIRED'') (\<lambda>_.
     and_then (ensure (bundle_version (opt_version opts) \<and>
                 (hash_string (opt_revision opts) 40 \<or>
                  opt_unsigned opts \<and> opt_revision opts = ''development'')) ''CLI_BUNDLE_MANIFEST_INVALID'') (\<lambda>_.
     and_then (directory_entries (first_scan w) False) (\<lambda>es.
     and_then (ensure (length es = length payloads) bundle_invalid) (\<lambda>_.
     let m = built_manifest c (opt_version opts) (opt_revision opts) es in
     and_then (validate_cli_manifest m) (\<lambda>_.
     and_then (ok_or (map_of es ''bin/bxdl'') bundle_invalid) (\<lambda>(_, binary).
     and_then (validate_binary binary) (\<lambda>_.
     and_then (ok_or (print_manifest sg m) bundle_invalid) (\<lambda>mb.
     and_then (case opt_signing opts of None \<Rightarrow> Inr None
               | Some p \<Rightarrow> and_then (load_key w p) (\<lambda>k. Inr (Some k))) (\<lambda>key.
     and_then (if opt_signing opts = None then Inr () else key_outside w es) (\<lambda>_.
     let sig = map_option (\<lambda>k. sign_base64 sg k mb) key; payload = bundle_payload mb sig es in
     and_then (checked_archive c sg key (opt_unsigned opts) payload) (\<lambda>(archive, b).
     and_then (out_path w) (\<lambda>out.
     and_then (ok_or (real_root w) bundle_invalid) (\<lambda>root.
     and_then (ensure (\<not> prefix root out) bundle_invalid) (\<lambda>_.
     and_then (directory_entries (second_scan w) False) (\<lambda>again.
     and_then (ensure (\<not> map_of again \<noteq>
                  map_of (filter (\<lambda>e. \<not> prefix ''manifest.'' (fst e)) payload)) bundle_changed) (\<lambda>_.
     and_then (ensure (create_ok w) ''CLI_BUNDLE_OUTPUT_EXISTS'') (\<lambda>_.
     and_then (ensure (write_ok w) ''CLI_BUNDLE_OUTPUT_INCOMPLETE'') (\<lambda>_.
     and_then (ensure (parent_ok w) bundle_invalid) (\<lambda>_.
     Inr (archive, b))))))))))))))))))))"


section \<open>The manifest policy, declaratively\<close>

definition cli_file_ok :: "file_entry \<Rightarrow> bool" where
  "cli_file_ok f \<longleftrightarrow> map_of payloads (file_path f) = Some (file_mode f) \<and> 0 < file_size f \<and>
     file_size f \<le> entry_limit (file_path f) \<and> hash_string (file_sha256 f) 64"

lemma check_cli_files_iff:
  "check_cli_files seen fs = Inr () \<longleftrightarrow>
     list_all cli_file_ok fs \<and> distinct (map file_path fs) \<and> set seen \<inter> file_path ` set fs = {}"
  by (induction seen fs rule: check_cli_files.induct) (auto simp: cli_file_ok_def not_less)

lemma payload_paths: "distinct (map fst payloads)" "length payloads = 4"
  by (simp_all add: payloads_def)

text \<open>Four distinct paths of a table with four rows are all of them.\<close>

lemma cli_paths_complete:
  assumes "list_all cli_file_ok fs" "distinct (map file_path fs)" "length fs = length payloads"
  shows "set (map file_path fs) = set (map fst payloads)"
proof (rule card_subset_eq)
  show "set (map file_path fs) \<subseteq> set (map fst payloads)"
    using assms(1) by (force simp: list_all_iff cli_file_ok_def dest: map_of_SomeD)
  have "card (set (map file_path fs)) = length fs" using assms(2) by (metis distinct_card length_map)
  also have "\<dots> = card (set (map fst payloads))"
    using assms(3) payload_paths(1) by (metis distinct_card length_map)
  finally show "card (set (map file_path fs)) = card (set (map fst payloads))" .
qed simp

definition cli_header_ok :: "cli_manifest \<Rightarrow> bool" where
  "cli_header_ok m \<longleftrightarrow> cli_schema m = 1 \<and> cli_kind m = ''bxdl-management-cli'' \<and>
     cli_target m = ''darwin-arm64'' \<and> bundle_version (cli_version m) \<and>
     (hash_string (cli_revision m) 40 \<or> cli_revision m = ''development'')"

lemma validate_cli_manifest_unfold:
  "validate_cli_manifest m = Inr () \<longleftrightarrow> cli_header_ok m \<and> length (cli_files m) = length payloads \<and>
     list_all cli_file_ok (cli_files m) \<and> distinct (map file_path (cli_files m))"
  by (auto simp: validate_cli_manifest_def cli_header_ok_def check_cli_files_iff)

lemma validate_cli_manifest_eq:
  "validate_cli_manifest m = Inr () \<longleftrightarrow> cli_header_ok m \<and> list_all cli_file_ok (cli_files m) \<and>
     mset (map file_path (cli_files m)) = mset (map fst payloads)"
proof -
  have "length (cli_files m) = length payloads \<and> list_all cli_file_ok (cli_files m) \<and>
      distinct (map file_path (cli_files m)) \<longleftrightarrow>
      list_all cli_file_ok (cli_files m) \<and>
      mset (map file_path (cli_files m)) = mset (map fst payloads)" (is "?l \<longleftrightarrow> ?r")
  proof
    assume ?l
    then show ?r
      using cli_paths_complete [of "cli_files m"] payload_paths(1) by (metis set_eq_iff_mset_eq_distinct)
  next
    assume ?r
    then have "length (map file_path (cli_files m)) = length (map fst payloads)"
      "distinct (map file_path (cli_files m))"
      using payload_paths(1) by (metis mset_eq_length, metis mset_eq_imp_distinct_iff)
    with \<open>?r\<close> show ?l by simp
  qed
  then show ?thesis unfolding validate_cli_manifest_unfold by argo
qed

section \<open>What a scan and a bundle hold\<close>

lemma bundle_read_file_bounds:
  "bundle_read_file maximum md a = Inr b \<Longrightarrow> 0 < length b \<and> length b \<le> maximum"
  by (auto simp: bundle_read_file_def Let_def)

lemma expected_mode_Some:
  assumes "expected_mode metadata rel = Some md"
  shows "rel \<in> set entry_order \<and> md \<in> {mode_644, mode_755} \<and>
    (\<not> metadata \<longrightarrow> map_of payloads rel = Some md)"
proof (cases "map_of payloads rel")
  case None
  with assms have "rel \<in> {''manifest.json'', ''manifest.sig''}" "md = mode_644" metadata
    by (auto simp: expected_mode_def split: if_splits)
  then show ?thesis by (auto simp: entry_order_def)
next
  case (Some md')
  then have "(rel, md) \<in> set payloads" using assms by (auto simp: expected_mode_def dest: map_of_SomeD)
  with Some assms show ?thesis by (auto simp: expected_mode_def entry_order_def payloads_def)
qed

definition walked :: "bool \<Rightarrow> entries \<Rightarrow> bool" where
  "walked metadata es \<longleftrightarrow> list_all bundle_entry_ok es \<and> distinct (map fst es) \<and>
     (\<forall>e\<in>set es. expected_mode metadata (fst e) = Some (fst (snd e)))"

lemma walk_keeps:
  "walked metadata es \<Longrightarrow> bundle_walk metadata dir n es = Inr fs \<Longrightarrow> walked metadata fs"
  "walked metadata es \<Longrightarrow> walk_entries metadata dir i ds es = Inr fs \<Longrightarrow> walked metadata fs"
  "walked metadata es \<Longrightarrow> walk_entry metadata dir d es = Inr fs \<Longrightarrow> walked metadata fs"
proof (induction metadata dir n es and metadata dir i ds es and metadata dir d es
    arbitrary: fs and fs and fs rule: bundle_walk_walk_entries_walk_entry.induct)
  case (1 metadata dir before listing after es)
  then show ?case by (auto split: option.splits)
next
  case (5 metadata dir name m fa sub es)
  let ?rel = "child_path dir name"
  obtain m' where m': "m = Some m'" "valid_utf8 ?rel" using 5(3) by (auto simp: Let_def)
  show ?case
  proof (cases "fm_dir m' \<and> List.member bundle_directories ?rel")
    case True
    with 5(3) m' have "bundle_walk metadata (Some ?rel) sub es = Inr fs" by (simp add: Let_def)
    with 5(1) [OF refl _ _ True] 5(2) m' show ?thesis by simp
  next
    case False
    then obtain md b where md: "expected_mode metadata ?rel = Some md"
      and b: "bundle_read_file (entry_limit ?rel) (Some md) fa = Inr b"
      and new: "?rel \<notin> fst ` set es" and fs: "fs = es @ [(?rel, md, b)]"
      using 5(3) m' by (auto simp: Let_def)
    have "bundle_entry_ok (?rel, md, b)"
      using expected_mode_Some [OF md] bundle_read_file_bounds [OF b] by (simp add: bundle_entry_ok_iff)
    with 5(2) md new fs show ?thesis by (simp add: walked_def)
  qed
next
  case (3 metadata dir i d ds es)
  from 3(4) obtain gs where i: "ensure (\<not> 8 < i) bundle_invalid = Inr ()"
    and gs: "walk_entry metadata dir d es = Inr gs" "walk_entries metadata dir (Suc i) ds gs = Inr fs"
    by auto
  show ?case by (rule 3(2) [OF i gs(1) 3(1) [OF i 3(3) gs(1)] gs(2)])
qed simp_all

lemma walked_sort: "walked metadata (sort_key fst es) = walked metadata es"
  by (simp add: walked_def list_all_iff distinct_map)

lemma directory_entries_walked: "directory_entries d metadata = Inr es \<Longrightarrow> walked metadata es"
  using walk_keeps(1) [of metadata "[]" None "scan_root d"]
  by (auto simp: directory_entries_def walked_sort walked_def [of _ "[]"])


text \<open>The files a bundle delivers are those of its manifest, in its order.\<close>

definition delivered :: "('a, 'k) crypto \<Rightarrow> file_entry list \<Rightarrow> (string \<times> bytes) list \<Rightarrow> bool" where
  "delivered c fs taken \<longleftrightarrow> list_all2 (\<lambda>f (p, b). p = file_path f \<and> length b = file_size f \<and>
     sha256_hex c b = file_sha256 f) fs taken"

lemma take_files_delivered:
  "fold_result (take_file c) (es, taken) fs = Inr (rest, all) \<Longrightarrow>
     \<exists>new. all = taken @ new \<and> delivered c fs new"
proof (induction fs arbitrary: es taken)
  case (Cons f fs)
  then obtain mode b where "fold_result (take_file c)
      (remove_entry (file_path f) es, taken @ [(file_path f, b)]) fs = Inr (rest, all)"
    and b: "length b = file_size f" "sha256_hex c b = file_sha256 f"
    by (auto simp: take_file_def)
  from Cons.IH [OF this(1)] obtain new where "all = taken @ (file_path f, b) # new" "delivered c fs new"
    by auto
  with b show ?case by (intro exI [of _ "(file_path f, b) # new"]) (simp add: delivered_def)
qed (simp add: delivered_def)

lemma map_of_remove_entry: "map_of (remove_entry n es) = (map_of es)(n := None)"
  by (rule ext) (induction es, auto simp: remove_entry_def)

lemma take_files_complete:
  assumes "distinct (map file_path fs)"
    and "\<forall>f\<in>set fs. map_of es (file_path f) = Some (file_mode f, body f) \<and>
      length (body f) = file_size f \<and> sha256_hex c (body f) = file_sha256 f"
  shows "\<exists>rest. fold_result (take_file c) (es, taken) fs =
    Inr (rest, taken @ map (\<lambda>f. (file_path f, body f)) fs)"
  using assms
proof (induction fs arbitrary: es taken)
  case (Cons f fs)
  let ?es = "remove_entry (file_path f) es" and ?t = "taken @ [(file_path f, body f)]"
  have step: "take_file c (es, taken) f = Inr (?es, ?t)" using Cons.prems(2) by (simp add: take_file_def)
  have "\<forall>g\<in>set fs. map_of ?es (file_path g) = Some (file_mode g, body g) \<and>
      length (body g) = file_size g \<and> sha256_hex c (body g) = file_sha256 g"
    using Cons.prems by (auto simp: map_of_remove_entry image_iff)
  with Cons.IH [of ?es ?t] Cons.prems(1) obtain rest where
    "fold_result (take_file c) (?es, ?t) fs = Inr (rest, ?t @ map (\<lambda>f. (file_path f, body f)) fs)" by auto
  with step show ?case by simp
qed simp

text \<open>Everything an accepted set of entries establishes.\<close>

definition bundle_ok :: "('a, 'k) crypto \<Rightarrow> cli_bundle \<Rightarrow> bool" where
  "bundle_ok c b \<longleftrightarrow>
     decode_strict_json (parse_json c) cli_manifest_of_json (bundle_manifest_bytes b) = Inr (bundle_manifest b) \<and>
     length (bundle_manifest_bytes b) \<le> max_metadata \<and>
     bundle_manifest_sha256 b = sha256_hex c (bundle_manifest_bytes b) \<and>
     validate_cli_manifest (bundle_manifest b) = Inr () \<and>
     delivered c (cli_files (bundle_manifest b)) (bundle_files b) \<and>
     (\<exists>x. map_of (bundle_files b) ''bin/bxdl'' = Some x \<and> 32 \<le> length x \<and> take 8 x = macho_arm64)"

lemma from_entries_ok: "from_entries c es = Inr b \<Longrightarrow> bundle_ok c b"
  by (auto simp: from_entries_def Let_def bundle_ok_def validate_binary_def not_less
      dest!: take_files_delivered)

lemma bundle_ok_authenticity [simp]: "bundle_ok c (b\<lparr>bundle_authenticity := a\<rparr>) = bundle_ok c b"
  by (simp add: bundle_ok_def)

lemma bundle_authenticate_iff:
  "bundle_authenticate c b key unsigned = Inr b' \<longleftrightarrow>
     (\<exists>raw k s. bundle_signature b = Some raw \<and> key = Some k \<and> \<not> unsigned \<and>
        cli_revision (bundle_manifest b) \<noteq> ''development'' \<and> parse_signature c raw = Inr s \<and>
        verify_strict c k (bundle_manifest_bytes b) s \<and>
        b' = b\<lparr>bundle_authenticity := ''verified-external-ed25519''\<rparr>) \<or>
     bundle_signature b = None \<and> key = None \<and> unsigned \<and>
        b' = b\<lparr>bundle_authenticity := ''unsigned-development''\<rparr>"
  by (cases "bundle_signature b"; cases key; cases unsigned) (auto simp: bundle_authenticate_def)

lemma verify_with_key_iff:
  "verify_with_key c src key unsigned = Inr b' \<longleftrightarrow>
     (\<exists>b. read_bundle c src = Inr b \<and> bundle_authenticate c b key unsigned = Inr b')"
  by (auto simp: verify_with_key_def bundle_authenticate_iff)

lemma read_bundle_ok: "read_bundle c src = Inr b \<Longrightarrow> bundle_ok c b"
  by (auto simp: read_bundle_def dest: from_entries_ok)

section \<open>The build's check of its own output\<close>

text \<open>
  What the build relies on of its libraries for one manifest and key: decompression undoes
  compression, the parser reads what the printer wrote, a signature verifies under its key.
\<close>

definition toolchain :: "('a, 'k) crypto \<Rightarrow> ('a, 'k, 's) signer \<Rightarrow> bool" where
  "toolchain c sg \<longleftrightarrow>
     (\<forall>raw z. gzip_best sg raw = Some z \<longrightarrow> z \<noteq> [] \<and> gunzip c z = whole_member raw) \<and>
     (\<forall>m mb. print_manifest sg m = Some mb \<longrightarrow> mb \<noteq> [] \<and>
        decode_strict_json (parse_json c) cli_manifest_of_json mb = Inr m) \<and>
     (\<forall>k mb. \<exists>s. parse_signature c (sign_base64 sg k mb) = Inr s \<and> verify_strict c (public_of sg k) mb s)"

lemma parse_signature_bounds: "parse_signature c raw = Inr s \<Longrightarrow> 0 < length raw \<and> length raw \<le> 128"
  by (auto simp: parse_signature_def)

text \<open>A scanned payload: four entries, hence exactly the payload table.\<close>

definition scanned :: "entries \<Rightarrow> bool" where
  "scanned es \<longleftrightarrow> walked False es \<and> length es = length payloads"

lemma scanned_names:
  assumes "scanned es"
  shows "fst ` set es \<subseteq> fst ` set payloads" and "''manifest.json'' \<notin> fst ` set es"
    and "''manifest.sig'' \<notin> fst ` set es"
proof -
  show s: "fst ` set es \<subseteq> fst ` set payloads"
  proof
    fix n assume "n \<in> fst ` set es"
    then obtain e where "e \<in> set es" "n = fst e" by blast
    then have "map_of payloads n = Some (fst (snd e))"
      using assms expected_mode_Some [of False n] by (auto simp: scanned_def walked_def)
    then show "n \<in> fst ` set payloads" by (force dest: map_of_SomeD)
  qed
  show "''manifest.json'' \<notin> fst ` set es" "''manifest.sig'' \<notin> fst ` set es"
    using s by (auto simp: payloads_def)
qed

lemma payload_writable:
  assumes "scanned es" "mb \<noteq> []" "length mb \<le> max_metadata"
    and "\<And>s. sig = Some s \<Longrightarrow> 0 < length s \<and> length s \<le> 128"
  shows "writable (bundle_payload mb sig es)"
proof -
  have "bundle_entry_ok (''manifest.json'', mode_644, mb)"
    using assms by (simp add: bundle_entry_ok_iff entry_order_def entry_limit_def)
  moreover have "bundle_entry_ok (''manifest.sig'', mode_644, s)" if "sig = Some s" for s
    using assms(4) [OF that] by (simp add: bundle_entry_ok_iff entry_order_def entry_limit_def)
  ultimately show ?thesis
    using assms(1) scanned_names [OF assms(1)]
    by (auto simp: writable_def bundle_payload_def scanned_def walked_def split: option.splits)
qed


lemma length_same_map:
  assumes "map_of xs = map_of ys" "distinct (map fst xs)" "distinct (map fst ys)"
  shows "length xs = length ys"
proof -
  have "length zs = card (dom (map_of zs))" if "distinct (map fst zs)" for zs :: "('a \<times> 'b) list"
    using distinct_card [OF that] by (simp add: dom_map_of_conv_image_fst)
  then show ?thesis using assms by metis
qed

lemma distinct_remove_entry: "distinct (map fst es) \<Longrightarrow> distinct (map fst (remove_entry n es))"
  by (simp add: remove_entry_def distinct_map_filter)

text \<open>The maps left after the manifest and the signature have been taken out.\<close>

lemma payload_map:
  assumes "scanned es"
  shows "map_of (bundle_payload mb sig es) ''manifest.json'' = Some (mode_644, mb)"
    "map_of (bundle_payload mb sig es) ''manifest.sig'' = map_option (Pair mode_644) sig"
    "(map_of (bundle_payload mb sig es))(''manifest.json'' := None, ''manifest.sig'' := None) = map_of es"
proof -
  have n: "map_of es ''manifest.json'' = None" "map_of es ''manifest.sig'' = None"
    using scanned_names(2,3) [OF assms] by (simp_all add: map_of_eq_None_iff)
  show "map_of (bundle_payload mb sig es) ''manifest.json'' = Some (mode_644, mb)"
    by (simp add: bundle_payload_def)
  show "map_of (bundle_payload mb sig es) ''manifest.sig'' = map_option (Pair mode_644) sig"
    by (cases sig) (simp_all add: bundle_payload_def n)
  show "(map_of (bundle_payload mb sig es))(''manifest.json'' := None, ''manifest.sig'' := None) = map_of es"
    by (cases sig) (auto simp: bundle_payload_def n fun_eq_iff)
qed

lemma built_files:
  assumes "scanned es"
  defines "body \<equiv> \<lambda>f. snd (the (map_of es (file_path f)))"
  shows "distinct (map file_path (map (built_entry c) es))"
    and "\<forall>f\<in>set (map (built_entry c) es). map_of es (file_path f) = Some (file_mode f, body f) \<and>
      length (body f) = file_size f \<and> sha256_hex c (body f) = file_sha256 f"
    and "map (\<lambda>f. (file_path f, body f)) (map (built_entry c) es) = map (\<lambda>(p, _, b). (p, b)) es"
proof -
  have d: "distinct (map fst es)" using assms(1) by (simp add: scanned_def walked_def)
  have paths: "map file_path (map (built_entry c) es) = map fst es" by (simp add: built_entry_def split_def)
  then show "distinct (map file_path (map (built_entry c) es))" using d by (simp only:)
  have look: "map_of es (fst e) = Some (snd e)" if "e \<in> set es" for e
    using that d by (simp add: map_of_eq_Some_iff)
  then show "\<forall>f\<in>set (map (built_entry c) es). map_of es (file_path f) = Some (file_mode f, body f) \<and>
      length (body f) = file_size f \<and> sha256_hex c (body f) = file_sha256 f"
    by (force simp: built_entry_def body_def split_def)
  show "map (\<lambda>f. (file_path f, body f)) (map (built_entry c) es) = map (\<lambda>(p, _, b). (p, b)) es"
    using look by (auto simp: built_entry_def body_def split_def)
qed

definition expected_bundle ::
  "('a, 'k) crypto \<Rightarrow> cli_manifest \<Rightarrow> bytes \<Rightarrow> bytes option \<Rightarrow> entries \<Rightarrow> cli_bundle" where
  "expected_bundle c m mb sig es = \<lparr>bundle_manifest = m, bundle_manifest_bytes = mb,
     bundle_signature = sig, bundle_files = map (\<lambda>(p, _, b). (p, b)) es, bundle_authenticity = [],
     bundle_manifest_sha256 = sha256_hex c mb\<rparr>"

text \<open>A payload the build may publish: what it has checked before it writes the archive.\<close>

definition ready_payload ::
  "('a, 'k) crypto \<Rightarrow> string \<Rightarrow> string \<Rightarrow> entries \<Rightarrow> bytes \<Rightarrow> bool" where
  "ready_payload c v r es mb \<longleftrightarrow> scanned es \<and> validate_cli_manifest (built_manifest c v r es) = Inr () \<and>
     (\<exists>md x. map_of es ''bin/bxdl'' = Some (md, x) \<and> validate_binary x = Inr ()) \<and>
     mb \<noteq> [] \<and> length mb \<le> max_metadata \<and>
     decode_strict_json (parse_json c) cli_manifest_of_json mb = Inr (built_manifest c v r es)"

lemma from_entries_complete:
  assumes ready: "ready_payload c v r es mb"
    and sig: "\<And>s. sig = Some s \<Longrightarrow> \<exists>x. parse_signature c s = Inr x"
    and same: "map_of es' = map_of (bundle_payload mb sig es)" and d: "distinct (map fst es')"
  shows "from_entries c es' = Inr (expected_bundle c (built_manifest c v r es) mb sig es)"
proof -
  let ?m = "built_manifest c v r es" and ?e1 = "remove_entry ''manifest.json'' es'"
  let ?e2 = "remove_entry ''manifest.sig'' ?e1"
  have sc: "scanned es" using ready by (simp add: ready_payload_def)
  note pm = payload_map [OF sc, of mb sig]
  have m1: "map_of es' ''manifest.json'' = Some (mode_644, mb)" using same pm(1) by simp
  have "map_of ?e1 ''manifest.sig'' = map_option (Pair mode_644) sig"
    using same pm(2) by (simp add: map_of_remove_entry)
  then have s: "bundle_signature_entry c ?e1 = Inr sig"
    using sig by (cases sig) (auto simp: bundle_signature_entry_def)
  have m2: "map_of ?e2 = map_of es" using same pm(3) by (simp add: map_of_remove_entry)
  have len: "length ?e2 = length payloads"
    using length_same_map [OF m2] d sc by (simp add: distinct_remove_entry scanned_def walked_def)
  obtain rest where taken: "fold_result (take_file c) (?e2, []) (cli_files ?m) =
      Inr (rest, map (\<lambda>(p, _, b). (p, b)) es)"
    using take_files_complete [OF built_files(1) [OF sc, of c], of ?e2 "\<lambda>f. snd (the (map_of es (file_path f)))" c "[]"]
      built_files(2,3) [OF sc, of c] unfolding m2 built_manifest_def by auto
  obtain md x where bin: "map_of es ''bin/bxdl'' = Some (md, x)" "validate_binary x = Inr ()"
    using ready by (auto simp: ready_payload_def)
  have "map_of (map (\<lambda>(p, _, b). (p, b)) es) n = map_option snd (map_of es n)" for n
    by (induction es) auto
  then have bin': "map_of (map (\<lambda>(p, _, b). (p, b)) es) ''bin/bxdl'' = Some x" using bin(1) by simp
  show ?thesis
    using ready unfolding ready_payload_def from_entries_def
    by (simp add: m1 Let_def s len taken bin' bin(2) expected_bundle_def not_less)
qed

lemma bundle_self_check:
  assumes t: "toolchain c sg" and ready: "ready_payload c v r es mb"
    and sig: "sig = map_option (\<lambda>k. sign_base64 sg k mb) key"
    and trust: "(key \<noteq> None) \<noteq> unsigned" "key \<noteq> None \<Longrightarrow> r \<noteq> ''development''"
    and gz: "\<And>raw. write_tar (bundle_payload mb sig es) = Inr raw \<Longrightarrow>
      \<exists>z. gzip_best sg raw = Some z \<and> length z \<le> max_bundle_archive"
  shows "\<exists>archive. checked_archive c sg key unsigned (bundle_payload mb sig es) = Inr (archive,
    (expected_bundle c (built_manifest c v r es) mb sig es)
      \<lparr>bundle_authenticity := (if unsigned then ''unsigned-development'' else ''verified-external-ed25519'')\<rparr>)"
proof -
  have sig_ok: "\<exists>x. parse_signature c s = Inr x \<and> verify_strict c (public_of sg k) mb x"
    if "sig = Some s" "key = Some k" for s k
    using t that sig by (auto simp: toolchain_def)
  have sig_parses: "\<exists>x. parse_signature c s = Inr x" if "sig = Some s" for s
    using sig_ok [OF that] that sig by (cases key) auto
  have w: "writable (bundle_payload mb sig es)"
    using ready sig_parses by (intro payload_writable) (auto simp: ready_payload_def dest: parse_signature_bounds)
  from write_tar_total [OF w] obtain bs where raw:
    "write_tar (bundle_payload mb sig es) = Inr (concat bs @ replicate 1024 NUL)" (is "_ = Inr ?raw") by blast
  with gz obtain z where z: "gzip_best sg ?raw = Some z" "length z \<le> max_bundle_archive" by blast
  have rd: "read_tar ?raw = Inr (in_order (bundle_payload mb sig es))"
    and same: "map_of (in_order (bundle_payload mb sig es)) = map_of (bundle_payload mb sig es)"
    using write_read_tar [OF w] raw by auto
  have "length ?raw \<le> max_raw" using raw by (auto simp: write_tar_def Let_def)
  then have ae: "archive_entries c z = Inr (in_order (bundle_payload mb sig es))"
    using t z(1) rd by (simp add: toolchain_def archive_entries_def whole_member_def Let_def)
  have d: "distinct (map fst (in_order (bundle_payload mb sig es)))"
    using in_order_ok [OF w] by (simp add: entries_ok_def)
  note fe = from_entries_complete [OF ready sig_parses same d]
  have "bundle_authenticate c (expected_bundle c (built_manifest c v r es) mb sig es)
      (map_option (public_of sg) key) unsigned = Inr ((expected_bundle c (built_manifest c v r es) mb sig es)
      \<lparr>bundle_authenticity := (if unsigned then ''unsigned-development'' else ''verified-external-ed25519'')\<rparr>)"
    using trust sig sig_ok
    by (cases key) (auto simp: bundle_authenticate_iff expected_bundle_def built_manifest_def)
  then show ?thesis using raw z ae fe by (simp add: checked_archive_def)
qed


text \<open>The published file, as long as nobody touches it.\<close>

definition published :: "nat \<Rightarrow> bytes \<Rightarrow> bundle_source" where
  "published mode archive =
     (let m = \<lparr>fm_dir = False, fm_regular = True, fm_links = 1, fm_device = 1, fm_inode = 1,
            fm_len = length archive, fm_mode = mode, fm_modified = (0, 0), fm_changed = (0, 0)\<rparr>;
          gone = \<lparr>scan_before = None, scan_root = Dir_Node None None None, scan_after = None\<rparr> in
      \<lparr>source_meta = Some m, source_scan = gone,
       source_file = \<lparr>fa_before = Some m, fa_opened = Some (Some m), fa_content = Some archive,
         fa_after = Some m, fa_current = Some m\<rparr>\<rparr>)"

lemma read_published:
  assumes "archive \<noteq> []" "length archive \<le> max_bundle_archive"
  shows "read_bundle c (published mode archive) = and_then (archive_entries c archive) (from_entries c)"
  using assms by (simp add: read_bundle_def published_def Let_def bundle_read_file_def)

lemma checked_archive_verifies:
  assumes "checked_archive c sg key unsigned payload = Inr (archive, b)" "toolchain c sg"
    "(key \<noteq> None) \<noteq> unsigned"
  shows "verify_with_key c (published mode archive) (map_option (public_of sg) key) unsigned = Inr b"
proof -
  from assms(1,2) have "archive \<noteq> []" "length archive \<le> max_bundle_archive"
    by (auto simp: checked_archive_def toolchain_def)
  from assms(1,3) read_published [OF this, of c mode] show ?thesis
    by (auto simp: verify_with_key_def checked_archive_def)
qed

section \<open>Properties\<close>

text \<open>The bundle's manifest check accepts exactly the manifests for this kind and target with
  a well-formed version and revision that list each of the four payload files once, with its
  mode, a size within its limit and a lower-case SHA-256.\<close>

theorem cli_manifest_policy:
  "validate_cli_manifest m = Inr () \<longleftrightarrow> cli_header_ok m \<and> list_all cli_file_ok (cli_files m) \<and>
     mset (map file_path (cli_files m)) = mset (map fst payloads)"
  by (rule validate_cli_manifest_eq)

text \<open>C14. A bundle accepted under a trusted key, from a directory or from an archive, carries a
  signature by that key over exactly its manifest bytes, is not a development revision, and
  delivers exactly the files of its manifest with their sizes and hashes; its binary starts with
  the header of an arm64 executable. Allowing unsigned bundles and giving a key exclude each
  other.\<close>

theorem verified_bundle_trusted:
  assumes "verify_with_key c src (Some k) unsigned = Inr b"
  shows "\<not> unsigned \<and> bundle_ok c b \<and> cli_revision (bundle_manifest b) \<noteq> ''development'' \<and>
    (\<exists>raw s. bundle_signature b = Some raw \<and> parse_signature c raw = Inr s \<and>
       verify_strict c k (bundle_manifest_bytes b) s)"
  using assms by (auto simp: verify_with_key_iff bundle_authenticate_iff dest: read_bundle_ok)

text \<open>C13. The build's check of its own archive never fails on what the build has admitted: with
  libraries that undo each other, the archive is written, reads back as the built manifest and
  the scanned files under the right authenticity, and the verifier accepts the published file.\<close>

theorem bundle_build_roundtrip:
  assumes "toolchain c sg" "ready_payload c v r es mb"
    and "(key \<noteq> None) \<noteq> unsigned" "key \<noteq> None \<Longrightarrow> r \<noteq> ''development''"
    and "\<And>raw. write_tar (bundle_payload mb (map_option (\<lambda>k. sign_base64 sg k mb) key) es) = Inr raw \<Longrightarrow>
      \<exists>z. gzip_best sg raw = Some z \<and> length z \<le> max_bundle_archive"
  shows "\<exists>archive b. checked_archive c sg key unsigned
      (bundle_payload mb (map_option (\<lambda>k. sign_base64 sg k mb) key) es) = Inr (archive, b) \<and>
    bundle_manifest b = built_manifest c v r es \<and> bundle_files b = map (\<lambda>(p, _, d). (p, d)) es \<and>
    bundle_authenticity b = (if unsigned then ''unsigned-development'' else ''verified-external-ed25519'') \<and>
    verify_with_key c (published mode archive) (map_option (public_of sg) key) unsigned = Inr b"
proof -
  from bundle_self_check [OF assms(1,2) refl assms(3,4,5)] obtain archive where
    a: "checked_archive c sg key unsigned (bundle_payload mb (map_option (\<lambda>k. sign_base64 sg k mb) key) es) =
      Inr (archive, (expected_bundle c (built_manifest c v r es) mb (map_option (\<lambda>k. sign_base64 sg k mb) key) es)
      \<lparr>bundle_authenticity := (if unsigned then ''unsigned-development'' else ''verified-external-ed25519'')\<rparr>)"
    by blast
  from a checked_archive_verifies [OF a assms(1,3)] show ?thesis
    by (auto simp: expected_bundle_def intro!: exI [of _ archive])
qed

section \<open>A concrete bundle\<close>

definition bundle_sample_entries :: entries where
  "bundle_sample_entries = [(''bin/bxdl'', mode_755, macho_arm64 @ replicate 24 NUL),
     (''docs/completion.md'', mode_644, ''c''), (''docs/management-cli.md'', mode_644, ''m''),
     (''share/zsh/site-functions/_bxdl'', mode_644, ''z'')]"

definition bundle_sample_revision :: string where
  "bundle_sample_revision = replicate 40 (CHR ''b'')"

definition bundle_sample_json :: json where
  "bundle_sample_json = JObj [(''schemaVersion'', JInt 1), (''kind'', JStr ''bxdl-management-cli''),
     (''version'', JStr ''1.0.0''), (''revision'', JStr bundle_sample_revision),
     (''target'', JStr ''darwin-arm64''),
     (''files'', JArr (map (\<lambda>(p, md, b). JObj [(''path'', JStr p), (''size'', JInt (int (length b))),
        (''sha256'', JStr sample_hash), (''mode'', JInt (int md))]) bundle_sample_entries))]"

definition bundle_crypto :: "(bytes, unit) crypto" where
  "bundle_crypto = \<lparr>gunzip = (\<lambda>z. whole_member (tl z)), sha256_hex = (\<lambda>_. sample_hash),
     base64_decode = Some, signature_of = Some, verify_strict = (\<lambda>_ _ _. True),
     parse_json = (\<lambda>_. Some bundle_sample_json)\<rparr>"

definition bundle_sample_manifest :: cli_manifest where
  "bundle_sample_manifest =
     built_manifest bundle_crypto ''1.0.0'' bundle_sample_revision bundle_sample_entries"

definition bundle_signer :: "(bytes, unit, unit) signer" where
  "bundle_signer = \<lparr>print_manifest = (\<lambda>m. if m = bundle_sample_manifest then Some ''{}'' else None),
     sign_base64 = (\<lambda>_ _. ''sg''), public_of = (\<lambda>_. ()), gzip_best = (\<lambda>raw. Some (NUL # raw))\<rparr>"

lemma bundle_sample_decodes:
  "decode_strict_json (parse_json bundle_crypto) cli_manifest_of_json ''{}'' = Inr bundle_sample_manifest"
  by code_simp

lemma bundle_sample_ready:
  "ready_payload bundle_crypto ''1.0.0'' bundle_sample_revision bundle_sample_entries ''{}''"
proof -
  have "validate_cli_manifest bundle_sample_manifest = Inr ()" by code_simp
  moreover have "map_of bundle_sample_entries ''bin/bxdl'' = Some (mode_755, macho_arm64 @ replicate 24 NUL)"
    by (simp add: bundle_sample_entries_def)
  moreover have "validate_binary (macho_arm64 @ replicate 24 NUL) = Inr ()"
    by (simp add: validate_binary_def macho_arm64_def)
  moreover have "scanned bundle_sample_entries"
    by (simp add: scanned_def walked_def bundle_sample_entries_def bundle_entry_ok_iff expected_mode_def
        entry_order_def payloads_def entry_limit_def max_binary_def max_text_def macho_arm64_def)
  ultimately show ?thesis
    using bundle_sample_decodes by (simp add: ready_payload_def bundle_sample_manifest_def max_metadata_def)
qed

lemma bundle_sample_toolchain: "toolchain bundle_crypto bundle_signer"
proof -
  have "parse_signature bundle_crypto ''sg'' = Inr ''sg''" by code_simp
  then show ?thesis
    using bundle_sample_decodes by (auto simp: toolchain_def bundle_signer_def bundle_crypto_def)
qed

lemma bundle_sample_small:
  assumes "write_tar (bundle_payload ''{}'' (Some ''sg'') bundle_sample_entries) = Inr raw"
  shows "\<exists>z. gzip_best bundle_signer raw = Some z \<and> length z \<le> max_bundle_archive"
proof -
  have "writable (bundle_payload ''{}'' (Some ''sg'') bundle_sample_entries)"
    using bundle_sample_ready by (intro payload_writable) (auto simp: ready_payload_def)
  from write_tar_total [OF this] assms obtain bs where
    "raw = concat bs @ replicate 1024 NUL" "length (concat bs) \<le> 53500026" by auto
  then have "length raw \<le> 53501050" by simp
  then show ?thesis by (simp add: bundle_signer_def max_bundle_archive_def)
qed

lemma bundle_sample_released: "bundle_sample_revision \<noteq> ''development''"
  by code_simp

lemma bundle_sample_verifies:
  "\<exists>archive b. verify_with_key bundle_crypto (published mode_644 archive) (Some ()) False = Inr b"
proof -
  have sig: "Some ''sg'' = map_option (\<lambda>k. sign_base64 bundle_signer k ''{}'') (Some ())"
    by (simp add: bundle_signer_def)
  have "(Some () \<noteq> None) \<noteq> False" by simp
  from bundle_self_check [OF bundle_sample_toolchain bundle_sample_ready sig this
      bundle_sample_released bundle_sample_small]
    checked_archive_verifies [OF _ bundle_sample_toolchain this, of "bundle_payload ''{}'' (Some ''sg'') bundle_sample_entries"]
  show ?thesis by (fastforce simp: bundle_signer_def)
qed

theorem bundle_build_roundtrip_witness:
  "\<exists>archive b. verify_with_key bundle_crypto (published mode_644 archive) (Some ()) False = Inr b \<and>
     bundle_manifest b = bundle_sample_manifest \<and> bundle_authenticity b = ''verified-external-ed25519''"
proof -
  have sig: "map_option (\<lambda>k. sign_base64 bundle_signer k ''{}'') (Some ()) = Some ''sg''"
    by (simp add: bundle_signer_def)
  have pub: "map_option (public_of bundle_signer) (Some ()) = Some ()"
    by (simp add: bundle_signer_def)
  have "(Some () \<noteq> None) \<noteq> False" by simp
  from bundle_build_roundtrip [OF bundle_sample_toolchain bundle_sample_ready this bundle_sample_released,
      unfolded sig pub, OF bundle_sample_small, of mode_644]
  show ?thesis unfolding bundle_sample_manifest_def by auto
qed

theorem verified_bundle_trusted_witness:
  "\<exists>src b. verify_with_key bundle_crypto src (Some ()) False = Inr b \<and> bundle_ok bundle_crypto b"
  using bundle_sample_verifies verified_bundle_trusted [of bundle_crypto _ "()" False] by blast

end
