(* ===== verification/Engine.thy ===== *)
theory Engine
  imports Json "HOL-Library.Multiset"
begin

text \<open>
  The pinned engine contract (\<open>src/src/engine/mod.rs\<close>): the build identity, the development lock
  and its policy \<open>validate_lock\<close>, the classification \<open>consume_cold\<close> of the preflight run, and the
  syntax checks \<open>hash\<close>, \<open>commit\<close>, \<open>token\<close> and \<open>node_identity\<close> the other engine modules use.
\<close>

section \<open>Field syntax\<close>

definition lower_hex_text :: "string \<Rightarrow> bool" where
  "lower_hex_text s \<longleftrightarrow> list_all is_lower_hex s"

definition hash :: "string \<Rightarrow> bool" where
  "hash s \<longleftrightarrow> length s = 64 \<and> lower_hex_text s"

definition commit :: "string \<Rightarrow> bool" where
  "commit s \<longleftrightarrow> length s \<in> {40, 64} \<and> lower_hex_text s"

definition token :: "string \<Rightarrow> bool" where
  "token s \<longleftrightarrow> s \<noteq> [] \<and> length s \<le> 128 \<and> is_alphanumeric (hd s) \<and>
     list_all (\<lambda>c. is_alphanumeric c \<or> List.member ''.+_-'' c) s"

definition hexadecimal :: "string \<Rightarrow> nat \<Rightarrow> bool" where
  "hexadecimal s n =
     (case strip_prefix ''0x'' s of None \<Rightarrow> False | Some raw \<Rightarrow> length raw = n \<and> lower_hex_text raw)"

definition node_identity :: "string \<Rightarrow> bool" where
  "node_identity s \<longleftrightarrow>
     (if s = ''INSTANT'' then True
      else case split_once '':'' s of
        None \<Rightarrow> False
      | Some (node, validator) \<Rightarrow>
          hexadecimal node 64 \<and> (validator = ''OBSERVER'' \<or> hexadecimal validator 40))"

section \<open>The build identity\<close>

record source =
  source_commit :: string
  source_dirty :: bool

record console =
  console_node :: string
  console_npm :: string
  console_fingerprint :: string

record contract =
  contract_status :: string
  contract_revision :: string
  documentation_sha256 :: string
  definition_sha256 :: string
  runtime_documentation_sha256 :: string
  runtime_fixture_sha256 :: string
  contract_fingerprint :: string

record distribution =
  dist_channel :: string
  official_release :: bool

record build_identity =
  build_info_status :: string
  engine_name :: string
  engine_version :: string
  source :: source
  java_required_major :: nat
  console :: console
  contract :: contract
  distribution :: distribution

definition source_of_json :: "json \<Rightarrow> source option" where
  "source_of_json v =
     do { m \<leftarrow> struct_fields [''commit'', ''dirty''] [] v;
          c \<leftarrow> get_str m ''commit''; d \<leftarrow> get_bool m ''dirty'';
          Some \<lparr>source_commit = c, source_dirty = d\<rparr> }"

definition java_of_json :: "json \<Rightarrow> nat option" where
  "java_of_json v =
     do { m \<leftarrow> struct_fields [''requiredMajor''] [] v; get_uint u32_max m ''requiredMajor'' }"

definition console_of_json :: "json \<Rightarrow> console option" where
  "console_of_json v =
     do { m \<leftarrow> struct_fields [''node'', ''npm'', ''sourceFingerprint''] [] v;
          n \<leftarrow> get_str m ''node''; p \<leftarrow> get_str m ''npm''; f \<leftarrow> get_str m ''sourceFingerprint'';
          Some \<lparr>console_node = n, console_npm = p, console_fingerprint = f\<rparr> }"

definition contract_of_json :: "json \<Rightarrow> contract option" where
  "contract_of_json v =
     do { m \<leftarrow> struct_fields [''status'', ''revision'', ''documentationSha256'', ''definitionSha256'',
            ''runtimeDocumentationSha256'', ''runtimeFixtureSha256'', ''fingerprint''] [] v;
          s \<leftarrow> get_str m ''status''; r \<leftarrow> get_str m ''revision'';
          d \<leftarrow> get_str m ''documentationSha256''; df \<leftarrow> get_str m ''definitionSha256'';
          rd \<leftarrow> get_str m ''runtimeDocumentationSha256''; rf \<leftarrow> get_str m ''runtimeFixtureSha256'';
          f \<leftarrow> get_str m ''fingerprint'';
          Some \<lparr>contract_status = s, contract_revision = r, documentation_sha256 = d,
                definition_sha256 = df, runtime_documentation_sha256 = rd,
                runtime_fixture_sha256 = rf, contract_fingerprint = f\<rparr> }"

definition distribution_of_json :: "json \<Rightarrow> distribution option" where
  "distribution_of_json v =
     do { m \<leftarrow> struct_fields [''channel'', ''officialRelease''] [] v;
          c \<leftarrow> get_str m ''channel''; o' \<leftarrow> get_bool m ''officialRelease'';
          Some \<lparr>dist_channel = c, official_release = o'\<rparr> }"

definition identity_of_json :: "json \<Rightarrow> build_identity option" where
  "identity_of_json v =
     do { m \<leftarrow> struct_fields [''buildInfoStatus'', ''engine'', ''version'', ''source'', ''java'',
            ''console'', ''contract'', ''distribution''] [] v;
          b \<leftarrow> get_str m ''buildInfoStatus''; e \<leftarrow> get_str m ''engine''; ver \<leftarrow> get_str m ''version'';
          s \<leftarrow> Option.bind (m ''source'') source_of_json; j \<leftarrow> Option.bind (m ''java'') java_of_json;
          c \<leftarrow> Option.bind (m ''console'') console_of_json;
          ct \<leftarrow> Option.bind (m ''contract'') contract_of_json;
          d \<leftarrow> Option.bind (m ''distribution'') distribution_of_json;
          Some \<lparr>build_info_status = b, engine_name = e, engine_version = ver, source = s,
                java_required_major = j, console = c, contract = ct, distribution = d\<rparr> }"

section \<open>The development lock\<close>

record lock =
  lock_schema_version :: nat
  lock_jar_sha256 :: string
  lock_jar_size :: nat
  lock_java_sha256 :: string
  lock_expected :: build_identity

definition max_jar :: nat where "max_jar = 536870912"

definition validate_lock :: "lock \<Rightarrow> unit result" where
  "validate_lock l =
     (let i = lock_expected l; ct = contract i in
      ensure (\<not> (lock_schema_version l \<noteq> 1 \<or> \<not> hash (lock_jar_sha256 l) \<or> \<not> hash (lock_java_sha256 l) \<or>
                lock_jar_size l = 0 \<or> max_jar < lock_jar_size l \<or>
                build_info_status i \<noteq> ''AVAILABLE'' \<or> engine_name i \<noteq> ''NIGO'' \<or>
                \<not> token (engine_version i) \<or> \<not> commit (source_commit (source i)) \<or>
                java_required_major i \<noteq> 21 \<or> \<not> token (console_node (console i)) \<or>
                \<not> token (console_npm (console i)) \<or> \<not> hash (console_fingerprint (console i)) \<or>
                contract_status ct \<noteq> ''PROPOSED'' \<or> contract_revision ct \<noteq> source_commit (source i) \<or>
                list_ex (\<lambda>s. \<not> hash s) [documentation_sha256 ct, definition_sha256 ct,
                  runtime_documentation_sha256 ct, runtime_fixture_sha256 ct, contract_fingerprint ct] \<or>
                dist_channel (distribution i) \<noteq> ''development'' \<or> official_release (distribution i)))
        ''ENGINE_LOCK_INVALID'')"

section \<open>The preflight result\<close>

record check =
  check_name :: string
  check_status :: string
  check_reason :: "string option"

record cold_result =
  cold_command :: string
  cold_status :: string
  cold_reason :: string
  cold_contract_status :: string
  cold_backend :: string
  cold_chain_fingerprint :: string
  cold_node_identity :: string
  cold_checks :: "check list"

text \<open>An \<open>Option<String>\<close> field: absent or null is \<open>None\<close> (a null never passes the seed).\<close>

definition get_opt_str :: "(string \<rightharpoonup> json) \<Rightarrow> string \<Rightarrow> string option option" where
  "get_opt_str m k =
     (case m k of None \<Rightarrow> Some None | Some JNull \<Rightarrow> Some None | Some (JStr s) \<Rightarrow> Some (Some s) | _ \<Rightarrow> None)"

text \<open>In positional form all three fields of a check have to be there.\<close>

definition check_of_json :: "json \<Rightarrow> check option" where
  "check_of_json v =
     do { m \<leftarrow> (case v of JArr _ \<Rightarrow> struct_fields [''check'', ''status'', ''reason''] [] v
              | _ \<Rightarrow> struct_fields [''check'', ''status''] [''reason''] v);
          n \<leftarrow> get_str m ''check''; s \<leftarrow> get_str m ''status''; r \<leftarrow> get_opt_str m ''reason'';
          Some \<lparr>check_name = n, check_status = s, check_reason = r\<rparr> }"

definition cold_of_json :: "json \<Rightarrow> cold_result option" where
  "cold_of_json v =
     do { m \<leftarrow> struct_fields [''command'', ''status'', ''reason'', ''contractStatus'', ''backend'',
            ''chainFingerprint'', ''nodeIdentity'', ''checks''] [] v;
          c \<leftarrow> get_str m ''command''; s \<leftarrow> get_str m ''status''; r \<leftarrow> get_str m ''reason'';
          ct \<leftarrow> get_str m ''contractStatus''; b \<leftarrow> get_str m ''backend'';
          cf \<leftarrow> get_str m ''chainFingerprint''; n \<leftarrow> get_str m ''nodeIdentity'';
          cs \<leftarrow> get_vec check_of_json None m ''checks'';
          Some \<lparr>cold_command = c, cold_status = s, cold_reason = r, cold_contract_status = ct,
                cold_backend = b, cold_chain_fingerprint = cf, cold_node_identity = n,
                cold_checks = cs\<rparr> }"

definition failure_of_json :: "json \<Rightarrow> (string \<times> string) option" where
  "failure_of_json v =
     do { m \<leftarrow> struct_fields [''status'', ''reason''] [] v;
          s \<leftarrow> get_str m ''status''; r \<leftarrow> get_str m ''reason''; Some (s, r) }"

definition expected_checks :: "string \<Rightarrow> check list" where
  "expected_checks node =
     [\<lparr>check_name = ''CONFIGURATION'', check_status = ''PASS'', check_reason = None\<rparr>,
      \<lparr>check_name = ''KEY_MATERIAL'',
       check_status = (if node = ''INSTANT'' then ''NOT_APPLICABLE'' else ''PASS''), check_reason = None\<rparr>,
      \<lparr>check_name = ''DATABASE_AND_WAL'', check_status = ''NOT_CHECKED'',
       check_reason = Some ''REQUIRES_EXCLUSIVE_OPEN''\<rparr>,
      \<lparr>check_name = ''PORTS_AND_PEERS'', check_status = ''NOT_CHECKED'',
       check_reason = Some ''NETWORK_NOT_ACCESSED''\<rparr>,
      \<lparr>check_name = ''NATIVE_RUNTIME'', check_status = ''NOT_CHECKED'',
       check_reason = Some ''REQUIRES_RUNTIME_LOAD''\<rparr>]"

text \<open>The check of that name occurs exactly once, as expected.\<close>

definition check_matches :: "check list \<Rightarrow> check \<Rightarrow> bool" where
  "check_matches cs e =
     (case filter (\<lambda>c. check_name c = check_name e) cs of
        [c] \<Rightarrow> check_status c = check_status e \<and> check_reason c = check_reason e
      | _ \<Rightarrow> False)"

definition consume_cold :: "(bytes \<Rightarrow> json option) \<Rightarrow> int \<Rightarrow> bytes \<Rightarrow> cold_result result" where
  "consume_cold parse exit raw =
     (if exit = 64 \<or> exit = 74 then
        and_then (ok_or (engine_decode parse failure_of_json raw) ''ENGINE_RESPONSE_INVALID'')
          (\<lambda>(status, reason).
           if exit = 64 \<and> status = ''INVALID_CONFIGURATION'' \<and>
              reason = ''INVALID_ARGUMENTS_OR_CONFIGURATION'' then fail ''ENGINE_INVALID_CONFIGURATION''
           else if exit = 74 \<and> status = ''FAILED'' \<and> reason = ''PRECONDITION_OR_IO_FAILURE''
           then fail ''ENGINE_PRECONDITION_FAILED''
           else fail ''ENGINE_RESPONSE_INVALID'')
      else
        and_then (ensure (exit = 3) ''ENGINE_RESPONSE_INVALID'') (\<lambda>_.
        and_then (ok_or (engine_decode parse cold_of_json raw) ''ENGINE_RESPONSE_INVALID'') (\<lambda>r.
        and_then (ensure (\<not> (cold_command r \<noteq> ''preflight'' \<or> cold_status r \<noteq> ''INCOMPLETE'' \<or>
                    cold_reason r \<noteq> ''RUNTIME_CHECKS_REQUIRED'' \<or>
                    cold_contract_status r \<noteq> ''PROPOSED'' \<or>
                    cold_backend r \<notin> {''h2'', ''rocksdb''} \<or> \<not> hash (cold_chain_fingerprint r) \<or>
                    \<not> node_identity (cold_node_identity r) \<or> length (cold_checks r) \<noteq> 5))
                    ''ENGINE_RESPONSE_INVALID'') (\<lambda>_.
        and_then (ensure (list_all (check_matches (cold_checks r)) (expected_checks (cold_node_identity r)))
                    ''ENGINE_RESPONSE_INVALID'') (\<lambda>_.
        Inr r)))))"

section \<open>Report rows\<close>

text \<open>
  One line of the engine's JSONL report. Three consumers read it with the same fields
  (\<open>runtime_result.rs\<close>, \<open>init_result.rs\<close>, \<open>diagnostic_events.rs\<close>); the type of the details is
  theirs.
\<close>

record 'd event =
  ev_attempt :: string
  ev_command :: string
  ev_sequence :: nat
  ev_pid :: nat
  ev_observed_at :: int
  ev_status :: string
  ev_reason :: string
  ev_contract_status :: string
  ev_details :: 'd

definition event_of_json :: "(json \<Rightarrow> 'd option) \<Rightarrow> json \<Rightarrow> 'd event option" where
  "event_of_json details v =
     do { m \<leftarrow> struct_fields [''attemptId'', ''command'', ''sequence'', ''pid'', ''observedAt'',
            ''status'', ''reason'', ''contractStatus'', ''details''] [] v;
          a \<leftarrow> get_str m ''attemptId''; c \<leftarrow> get_str m ''command'';
          sq \<leftarrow> get_uint u64_max m ''sequence''; p \<leftarrow> get_uint u32_max m ''pid'';
          o' \<leftarrow> get_i64 m ''observedAt''; s \<leftarrow> get_str m ''status''; r \<leftarrow> get_str m ''reason'';
          ct \<leftarrow> get_str m ''contractStatus''; d \<leftarrow> Option.bind (m ''details'') details;
          Some \<lparr>ev_attempt = a, ev_command = c, ev_sequence = sq, ev_pid = p, ev_observed_at = o',
                ev_status = s, ev_reason = r, ev_contract_status = ct, ev_details = d\<rparr> }"

definition attempt_id :: "string \<Rightarrow> bool" where
  "attempt_id s \<longleftrightarrow> s \<noteq> [] \<and> length s \<le> 80 \<and>
     list_all (\<lambda>c. is_alphanumeric c \<or> List.member ''_-'' c) s"

definition hash0x :: "string \<Rightarrow> bool" where
  "hash0x s = (case strip_prefix ''0x'' s of None \<Rightarrow> False | Some h \<Rightarrow> hash h)"

text \<open>A lower-case version 4 UUID.\<close>

definition uuid :: "string \<Rightarrow> bool" where
  "uuid s \<longleftrightarrow> length s = 36 \<and>
     list_all (\<lambda>(i, c). if List.member [8, 13, 18, 23] i then c = CHR ''-'' else is_lower_hex c)
       (enumerate (0::nat) s) \<and>
     s ! 14 = CHR ''4'' \<and> List.member ''89ab'' (s ! 19)"

text \<open>The engine's journal of an initialised data directory.\<close>

record journal =
  jr_status :: string
  jr_backend :: string
  jr_chain_fingerprint :: string
  jr_node_identity :: string
  jr_data_directory :: string
  jr_genesis_hash :: string

definition journal_of_json :: "json \<Rightarrow> journal option" where
  "journal_of_json v =
     do { m \<leftarrow> struct_fields [''status'', ''backend'', ''chainFingerprint'', ''nodeIdentity'',
            ''dataDirectory'', ''genesisHash''] [] v;
          s \<leftarrow> get_str m ''status''; b \<leftarrow> get_str m ''backend''; c \<leftarrow> get_str m ''chainFingerprint'';
          n \<leftarrow> get_str m ''nodeIdentity''; d \<leftarrow> get_str m ''dataDirectory''; g \<leftarrow> get_str m ''genesisHash'';
          Some \<lparr>jr_status = s, jr_backend = b, jr_chain_fingerprint = c, jr_node_identity = n,
                jr_data_directory = d, jr_genesis_hash = g\<rparr> }"

abbreviation newline :: char where "newline \<equiv> CHR 0x0A"

text \<open>\<open>raw[..raw.len() - 1].split(|b| *b == b'\n')\<close> of a text that ends with a newline.\<close>

definition report_lines :: "bytes \<Rightarrow> bytes list" where
  "report_lines raw = split_on newline (butlast raw)"

definition ends_with_newline :: "bytes \<Rightarrow> bool" where
  "ends_with_newline raw \<longleftrightarrow> raw \<noteq> [] \<and> last raw = newline"

section \<open>The accepted preflight results\<close>

lemma expected_checks_distinct: "distinct (map check_name (expected_checks node))"
  by (simp add: expected_checks_def)

lemma check_matches_iff: "check_matches cs e \<longleftrightarrow> filter (\<lambda>c. check_name c = check_name e) cs = [e]"
proof
  assume *: "check_matches cs e"
  then obtain c where c: "filter (\<lambda>c. check_name c = check_name e) cs = [c]"
    "check_status c = check_status e" "check_reason c = check_reason e"
    by (auto simp: check_matches_def split: list.splits)
  then have "c \<in> set (filter (\<lambda>c. check_name c = check_name e) cs)" by simp
  then have "check_name c = check_name e" by simp
  with c show "filter (\<lambda>c. check_name c = check_name e) cs = [e]" by (cases c; cases e) simp
qed (simp add: check_matches_def)

lemma filter_names_expected:
  "distinct (map check_name es) \<Longrightarrow> e \<in> set es \<Longrightarrow> filter (\<lambda>c. check_name c = check_name e) es = [e]"
proof (induction es)
  case (Cons a es)
  have none: "filter (\<lambda>c. check_name c = check_name a) es = []"
  proof -
    have "check_name c \<noteq> check_name a" if "c \<in> set es" for c
    proof -
      have "check_name c \<in> set (map check_name es)" using that by simp
      moreover have "check_name a \<notin> set (map check_name es)" using Cons.prems(1) by simp
      ultimately show ?thesis by metis
    qed
    then show ?thesis by (simp add: filter_empty_conv)
  qed
  show ?case
  proof (cases "e = a")
    case True
    with none show ?thesis by simp
  next
    case False
    then have e: "e \<in> set es" using Cons.prems by simp
    then have "check_name e \<in> set (map check_name es)" by simp
    moreover have "check_name a \<notin> set (map check_name es)" using Cons.prems(1) by simp
    ultimately have "check_name a \<noteq> check_name e" by metis
    with e Cons show ?thesis by simp
  qed
qed simp

text \<open>Five checks of which each expected one occurs exactly once are the expected ones, permuted.\<close>

lemma checks_permutation:
  "length cs = 5 \<and> list_all (check_matches cs) (expected_checks node) \<longleftrightarrow>
     mset cs = mset (expected_checks node)"
proof
  assume *: "length cs = 5 \<and> list_all (check_matches cs) (expected_checks node)"
  have "e \<in> set cs" if "e \<in> set (expected_checks node)" for e
  proof -
    have "filter (\<lambda>c. check_name c = check_name e) cs = [e]"
      using * that by (simp add: list_all_iff check_matches_iff)
    then have "e \<in> set (filter (\<lambda>c. check_name c = check_name e) cs)" by simp
    then show ?thesis by simp
  qed
  then have sub: "set (expected_checks node) \<subseteq> set cs" by blast
  have d: "distinct (expected_checks node)"
    using expected_checks_distinct distinct_map by blast
  have "mset (expected_checks node) \<subseteq># mset cs"
  proof (rule mset_subset_eqI)
    fix e show "count (mset (expected_checks node)) e \<le> count (mset cs) e"
      using d sub by (cases "e \<in> set (expected_checks node)") (auto simp: distinct_count_atmost_1 Suc_le_eq)
  qed
  moreover have "size (mset (expected_checks node)) = size (mset cs)"
    using * by (simp add: expected_checks_def)
  ultimately show "mset cs = mset (expected_checks node)"
    by (metis mset_subset_size nat_less_le subset_mset.le_imp_less_or_eq)
next
  assume *: "mset cs = mset (expected_checks node)"
  then have "length cs = length (expected_checks node)" by (rule mset_eq_length)
  moreover have "check_matches cs e" if "e \<in> set (expected_checks node)" for e
  proof -
    have "mset (filter (\<lambda>c. check_name c = check_name e) cs) =
        mset (filter (\<lambda>c. check_name c = check_name e) (expected_checks node))"
      unfolding mset_filter * ..
    also have "\<dots> = mset [e]"
      using filter_names_expected [OF expected_checks_distinct that] by (rule arg_cong)
    finally have "mset (filter (\<lambda>c. check_name c = check_name e) cs) = mset [e]" .
    then have "filter (\<lambda>c. check_name c = check_name e) cs = [e]"
      unfolding mset.simps(1) mset.simps(2) [of e] by (rule mset_single_iff [THEN iffD1])
    then show ?thesis unfolding check_matches_iff .
  qed
  ultimately show "length cs = 5 \<and> list_all (check_matches cs) (expected_checks node)"
    by (simp add: list_all_iff expected_checks_def)
qed

text \<open>C9. A preflight is accepted only from exit code 3 and a decodable result with the pinned
  contract fields whose checks are, in any order, exactly the five expected ones with the
  expected status and reason; nothing else is a result.\<close>

theorem consume_cold_iff:
  "consume_cold parse exit raw = Inr r \<longleftrightarrow>
     exit = 3 \<and> engine_decode parse cold_of_json raw = Some r \<and>
     cold_command r = ''preflight'' \<and> cold_status r = ''INCOMPLETE'' \<and>
     cold_reason r = ''RUNTIME_CHECKS_REQUIRED'' \<and> cold_contract_status r = ''PROPOSED'' \<and>
     cold_backend r \<in> {''h2'', ''rocksdb''} \<and> hash (cold_chain_fingerprint r) \<and>
     node_identity (cold_node_identity r) \<and>
     mset (cold_checks r) = mset (expected_checks (cold_node_identity r))"
proof (cases "exit = 64 \<or> exit = 74")
  case True
  have "consume_cold parse exit raw \<noteq> Inr r"
    using True unfolding consume_cold_def
    by (cases "engine_decode parse failure_of_json raw") (auto simp: split_beta split: if_splits)
  with True show ?thesis by auto
next
  case False
  then show ?thesis
    unfolding consume_cold_def checks_permutation [symmetric] by auto
qed

end
