(* ===== verification/RunReport.thy ===== *)
theory RunReport
  imports Engine
begin

text \<open>
  The report of a managed run (\<open>src/src/engine/runtime_result.rs\<close>, first part): the pinned scope,
  the initialised journal and the JSONL event report with its state machine. Every error of this
  module is the one code \<open>ENGINE_RUNTIME_RESULT_INVALID\<close>; \<open>require\<close> and \<open>expect\<close> are its guards.
\<close>

section \<open>The pinned execution\<close>

record expected =
  ex_attempt_id :: string
  ex_pid :: nat
  ex_identity :: build_identity
  ex_backend :: string
  ex_chain_fingerprint :: string
  ex_node_identity :: string
  ex_data_directory :: string
  ex_genesis_hash :: string

definition run_invalid :: string where
  "run_invalid = ''ENGINE_RUNTIME_RESULT_INVALID''"

definition require :: "bool \<Rightarrow> unit result" where
  "require b = ensure b run_invalid"

definition expect :: "'a option \<Rightarrow> 'a result" where
  "expect m = ok_or m run_invalid"

lemma require_Inr [simp]: "require b = Inr u \<longleftrightarrow> b"
  by (simp add: require_def)

lemma expect_Inr [simp]: "expect m = Inr x \<longleftrightarrow> m = Some x"
  by (simp add: expect_def)

lemma run_errors [errors_intro]:
  "run_invalid \<in> C \<Longrightarrow> errors_in C (require b)" "run_invalid \<in> C \<Longrightarrow> errors_in C (expect m)"
  by (simp_all add: require_def expect_def errors_intro)

definition absolute_path :: "string \<Rightarrow> bool" where
  "absolute_path p \<longleftrightarrow> prefix ''/'' p"

definition scope :: "expected \<Rightarrow> unit result" where
  "scope e = require (\<not> (build_info_status (ex_identity e) \<noteq> ''AVAILABLE'' \<or>
     ex_backend e \<notin> {''rocksdb'', ''h2''} \<or> \<not> hash (ex_chain_fingerprint e) \<or>
     \<not> node_identity (ex_node_identity e) \<or> \<not> hash0x (ex_genesis_hash e) \<or>
     \<not> absolute_path (ex_data_directory e) \<or> \<not> valid_utf8 (ex_data_directory e)))"

definition validate_initialized :: "(bytes \<Rightarrow> json option) \<Rightarrow> bytes \<Rightarrow> expected \<Rightarrow> unit result" where
  "validate_initialized parse raw e =
     and_then (scope e) (\<lambda>_.
     and_then (require (\<not> (raw = [] \<or> 8192 < length raw))) (\<lambda>_.
     and_then (expect (engine_decode parse journal_of_json raw)) (\<lambda>j.
     require (\<not> (jr_status j \<noteq> ''INITIALIZED'' \<or> jr_backend j \<noteq> ex_backend e \<or>
       jr_chain_fingerprint j \<noteq> ex_chain_fingerprint e \<or> jr_node_identity j \<noteq> ex_node_identity e \<or>
       jr_data_directory j \<noteq> ex_data_directory e \<or> jr_genesis_hash j \<noteq> ex_genesis_hash e)))))"

section \<open>The event report\<close>

record run_report =
  rr_status :: string
  rr_reason :: string
  rr_sequence :: nat
  rr_node :: "string option"

definition initial_report :: run_report where
  "initial_report = \<lparr>rr_status = [], rr_reason = [], rr_sequence = 0, rr_node = None\<rparr>"

definition object :: "json \<Rightarrow> string list \<Rightarrow> (string \<rightharpoonup> json) result" where
  "object v keys = expect (exact_object v keys)"

definition string_at :: "(string \<rightharpoonup> json) \<Rightarrow> string \<Rightarrow> string result" where
  "string_at m k = expect (Option.bind (m k) as_str)"

definition boolean_at :: "(string \<rightharpoonup> json) \<Rightarrow> string \<Rightarrow> bool result" where
  "boolean_at m k = expect (Option.bind (m k) as_bool)"

definition close_flags :: "json \<Rightarrow> (bool \<times> bool) result" where
  "close_flags d =
     and_then (object d [''storageClosed'', ''consensusStopReturned'']) (\<lambda>m.
     and_then (boolean_at m ''storageClosed'') (\<lambda>closed.
     and_then (boolean_at m ''consensusStopReturned'') (\<lambda>stopped. Inr (closed, stopped))))"

text \<open>
  The arms of \<open>match event.status\<close>: row \<open>index\<close> with details \<open>d\<close> after the status \<open>prev\<close>. The
  result is the node instance id the report carries afterwards. The statuses are distinct, so a
  failed guard is the last arm.
\<close>

definition event_arm ::
  "expected \<Rightarrow> nat \<Rightarrow> string \<Rightarrow> string option \<Rightarrow> string \<Rightarrow> string \<Rightarrow> json \<Rightarrow> string option result" where
  "event_arm e index prev node status reason d =
     (if status = ''CHECKING'' \<and> index = 0 \<and> reason = ''VALIDATING_CONFIGURATION'' then
        and_then (object d [''build'']) (\<lambda>m.
        and_then (expect (Option.bind (m ''build'') identity_of_json)) (\<lambda>b.
        and_then (require (b = ex_identity e)) (\<lambda>_. Inr node)))
      else if status = ''STARTING'' \<and> prev = ''CHECKING'' \<and> reason = ''OPENING_MANAGED_STORAGE'' then
        and_then (object d [''backend'']) (\<lambda>m.
        and_then (string_at m ''backend'') (\<lambda>b.
        and_then (require (b = ex_backend e)) (\<lambda>_. Inr node)))
      else if status = ''RUNNING'' \<and> prev = ''STARTING'' \<and> reason = ''LOCAL_STARTUP_COMPLETED'' then
        and_then (object d [''genesisHash'', ''chainFingerprint'', ''nodeIdentity'', ''nodeInstanceId'',
                            ''networkQuorumVerified'']) (\<lambda>m.
        and_then (string_at m ''nodeInstanceId'') (\<lambda>n.
        and_then (string_at m ''genesisHash'') (\<lambda>g.
        and_then (string_at m ''chainFingerprint'') (\<lambda>c.
        and_then (string_at m ''nodeIdentity'') (\<lambda>i.
        and_then (boolean_at m ''networkQuorumVerified'') (\<lambda>q.
        and_then (require (g = ex_genesis_hash e \<and> c = ex_chain_fingerprint e \<and>
                    i = ex_node_identity e \<and> \<not> q \<and> uuid n)) (\<lambda>_. Inr (Some n))))))))
      else if status = ''STOPPING'' \<and> prev = ''RUNNING'' \<and> reason = ''SHUTDOWN_REQUESTED'' then
        and_then (object d []) (\<lambda>_. Inr node)
      else if status = ''STOPPED'' \<and> prev = ''STOPPING'' \<and> reason = ''STORAGE_AND_CONSENSUS_CLOSED'' then
        and_then (close_flags d) (\<lambda>(closed, stopped).
        and_then (require (closed \<and> stopped)) (\<lambda>_. Inr node))
      else if status = ''UNKNOWN'' \<and> prev \<in> {''RUNNING'', ''STOPPING''} then
        (if reason = ''CLOSE_OR_REPORT_FAILURE'' then and_then (object d []) (\<lambda>_. Inr node)
         else if reason = ''REPORT_FAILURE'' \<or> reason = ''CLOSE_NOT_CONFIRMED'' then
           and_then (close_flags d) (\<lambda>(closed, stopped).
           and_then (require (\<not> (reason = ''CLOSE_NOT_CONFIRMED'' \<and> closed \<and> stopped))) (\<lambda>_. Inr node))
         else fail run_invalid)
      else if status = ''FAILED'' \<and> 0 < index \<and> reason = ''STARTUP_OR_INITIALIZATION_FAILED'' then
        and_then (object d [''resultMayBePartial'']) (\<lambda>m.
        and_then (boolean_at m ''resultMayBePartial'') (\<lambda>p.
        and_then (require p) (\<lambda>_. Inr node)))
      else fail run_invalid)"

text \<open>The row's fields that every event has to repeat.\<close>

definition event_header :: "expected \<Rightarrow> nat \<Rightarrow> string \<Rightarrow> json event \<Rightarrow> unit result" where
  "event_header e index prev ev =
     require (\<not> (ev_attempt ev \<noteq> ex_attempt_id e \<or> ev_command ev \<noteq> ''run'' \<or>
       ev_sequence ev \<noteq> index + 1 \<or> ev_pid ev \<noteq> ex_pid e \<or> ev_contract_status ev \<noteq> ''PROPOSED'' \<or>
       prev \<in> {''STOPPED'', ''UNKNOWN'', ''FAILED''}))"

text \<open>One turn of the loop; the state is the line number and the report so far.\<close>

definition report_row ::
  "(bytes \<Rightarrow> json option) \<Rightarrow> expected \<Rightarrow> nat \<times> run_report \<Rightarrow> bytes \<Rightarrow> (nat \<times> run_report) result" where
  "report_row parse e = (\<lambda>(index, r) line.
     and_then (require (\<not> (6 \<le> index \<or> line = [] \<or> 8192 < length line))) (\<lambda>_.
     and_then (expect (engine_decode parse (event_of_json Some) line)) (\<lambda>ev.
     and_then (event_header e index (rr_status r) ev) (\<lambda>_.
     and_then (event_arm e index (rr_status r) (rr_node r) (ev_status ev) (ev_reason ev) (ev_details ev)) (\<lambda>node.
     Inr (Suc index, \<lparr>rr_status = ev_status ev, rr_reason = ev_reason ev, rr_sequence = ev_sequence ev,
                     rr_node = node\<rparr>))))))"

definition validate_report ::
  "(bytes \<Rightarrow> json option) \<Rightarrow> bytes \<Rightarrow> bytes \<Rightarrow> expected \<Rightarrow> run_report result" where
  "validate_report parse raw journal e =
     and_then (validate_initialized parse journal e) (\<lambda>_.
     and_then (require (\<not> (ex_pid e = 0 \<or> \<not> attempt_id (ex_attempt_id e) \<or> raw = [] \<or>
                 32768 < length raw \<or> \<not> ends_with_newline raw))) (\<lambda>_.
     and_then (fold_result (report_row parse e) (0, initial_report) (report_lines raw)) (\<lambda>(_, r).
     Inr r)))"

section \<open>The state machine behind the report\<close>

datatype phase = Fresh | Checking | Starting | Running | Stopping | Stopped | Unknown | Failed

definition phases :: "(string \<times> phase) list" where
  "phases = [([], Fresh), (''CHECKING'', Checking), (''STARTING'', Starting), (''RUNNING'', Running),
     (''STOPPING'', Stopping), (''STOPPED'', Stopped), (''UNKNOWN'', Unknown), (''FAILED'', Failed)]"

definition phase_of :: "string \<Rightarrow> phase option" where
  "phase_of s = map_of phases s"

lemma phase_of_simps [simp]:
  "phase_of [] = Some Fresh" "phase_of ''CHECKING'' = Some Checking" "phase_of ''STARTING'' = Some Starting"
  "phase_of ''RUNNING'' = Some Running" "phase_of ''STOPPING'' = Some Stopping"
  "phase_of ''STOPPED'' = Some Stopped" "phase_of ''UNKNOWN'' = Some Unknown"
  "phase_of ''FAILED'' = Some Failed"
  by (simp_all add: phase_of_def phases_def)

text \<open>What one row may do.\<close>

inductive advance :: "phase \<Rightarrow> phase \<Rightarrow> bool" where
  check: "advance Fresh Checking"
| start: "advance Checking Starting"
| run: "advance Starting Running"
| stop: "advance Running Stopping"
| stopped: "advance Stopping Stopped"
| unknown: "p \<in> {Running, Stopping} \<Longrightarrow> advance p Unknown"
| failed: "p \<in> {Checking, Starting, Running, Stopping} \<Longrightarrow> advance p Failed"

inductive_cases advance_from_Fresh: "advance Fresh q"
inductive_cases advance_to_Stopped: "advance p Stopped"

inductive_simps advance_simps [simp]:
  "advance Fresh q" "advance Checking q" "advance Starting q" "advance Running q" "advance Stopping q"
  "advance Stopped q" "advance Unknown q" "advance Failed q"

fun phase_path :: "phase \<Rightarrow> phase list \<Rightarrow> bool" where
  "phase_path p [] \<longleftrightarrow> True"
| "phase_path p (q # qs) \<longleftrightarrow> advance p q \<and> phase_path q qs"

text \<open>The row numbers at which a phase can have been entered.\<close>

fun entered_at :: "phase \<Rightarrow> nat set" where
  "entered_at Fresh = {0}"
| "entered_at Checking = {1}"
| "entered_at Starting = {2}"
| "entered_at Running = {3}"
| "entered_at Stopping = {4}"
| "entered_at Stopped = {5}"
| "entered_at Unknown = {4, 5}"
| "entered_at Failed = {2, 3, 4, 5}"

lemma advance_entered: "advance p q \<Longrightarrow> i \<in> entered_at p \<Longrightarrow> Suc i \<in> entered_at q"
  by (cases p) auto

text \<open>The node instance id is known from \<open>RUNNING\<close> on and is a UUID.\<close>

definition node_known :: "phase \<Rightarrow> nat \<Rightarrow> bool" where
  "node_known p i \<longleftrightarrow> 3 \<le> i \<and> (p = Failed \<longrightarrow> 4 \<le> i)"

definition report_inv :: "nat \<times> run_report \<Rightarrow> bool" where
  "report_inv = (\<lambda>(i, r). rr_sequence r = i \<and>
     (\<exists>p. phase_of (rr_status r) = Some p \<and> i \<in> entered_at p \<and>
        (case rr_node r of None \<Rightarrow> \<not> node_known p i | Some n \<Rightarrow> node_known p i \<and> uuid n)))"

lemma close_flags_Inr:
  "close_flags d = Inr (closed, stopped) \<longleftrightarrow>
     (\<exists>m. exact_object d [''storageClosed'', ''consensusStopReturned''] = Some m \<and>
        m ''storageClosed'' = Some (JBool closed) \<and> m ''consensusStopReturned'' = Some (JBool stopped))"
  by (auto simp: close_flags_def object_def boolean_at_def bind_eq_Some_conv)

text \<open>Which arm an accepted row took.\<close>

lemma event_arm_dispatch:
  obtains (c) "status = ''CHECKING''" "i = 0" "reason = ''VALIDATING_CONFIGURATION''"
    | (s) "status = ''STARTING''" "prev = ''CHECKING''" "reason = ''OPENING_MANAGED_STORAGE''"
    | (r) "status = ''RUNNING''" "prev = ''STARTING''" "reason = ''LOCAL_STARTUP_COMPLETED''"
    | (p) "status = ''STOPPING''" "prev = ''RUNNING''" "reason = ''SHUTDOWN_REQUESTED''"
    | (d) "status = ''STOPPED''" "prev = ''STOPPING''" "reason = ''STORAGE_AND_CONSENSUS_CLOSED''"
    | (u) "status = ''UNKNOWN''" "prev \<in> {''RUNNING'', ''STOPPING''}"
    | (f) "status = ''FAILED''" "0 < i" "reason = ''STARTUP_OR_INITIALIZATION_FAILED''"
    | (none) "event_arm e i prev node status reason d = fail run_invalid"
  unfolding event_arm_def by argo

lemma event_arm_cases:
  assumes "event_arm e i prev node status reason d = Inr node'"
  obtains (validating) "status = ''CHECKING''" "i = 0" "node' = node"
  | (starting) "status = ''STARTING''" "prev = ''CHECKING''" "node' = node"
  | (running) n where "status = ''RUNNING''" "prev = ''STARTING''" "node' = Some n" "uuid n"
  | (stopping) "status = ''STOPPING''" "prev = ''RUNNING''" "node' = node"
  | (stopped) "status = ''STOPPED''" "prev = ''STOPPING''" "node' = node" "close_flags d = Inr (True, True)"
  | (unknown) "status = ''UNKNOWN''" "prev \<in> {''RUNNING'', ''STOPPING''}" "node' = node"
  | (failed) "status = ''FAILED''" "0 < i" "node' = node"
proof -
  show thesis
  proof (cases rule: event_arm_dispatch
      [where status = status and i = i and reason = reason and prev = prev and e = e and node = node and d = d])
    case c
    with assms have "node' = node" unfolding event_arm_def by auto
    with c show thesis by (intro validating)
  next
    case s
    with assms have "node' = node" unfolding event_arm_def by auto
    with s show thesis by (intro starting)
  next
    case r
    with assms obtain n where "node' = Some n" "uuid n" unfolding event_arm_def by auto
    with r show thesis by (intro running)
  next
    case p
    with assms have "node' = node" unfolding event_arm_def by auto
    with p show thesis by (intro stopping)
  next
    case d
    with assms have "node' = node" "close_flags d = Inr (True, True)"
      unfolding event_arm_def by (auto simp: split_beta)
    with d show thesis by (intro stopped)
  next
    case u
    with assms have "node' = node"
      unfolding event_arm_def by (auto simp: split_beta split: if_splits)
    with u show thesis by (intro unknown)
  next
    case f
    with assms have "node' = node" unfolding event_arm_def by auto
    with f show thesis by (intro failed)
  next
    case none
    with assms show thesis by simp
  qed
qed

text \<open>One accepted row is one step of the machine.\<close>

lemma report_row_step:
  assumes row: "report_row parse e (i, r) line = Inr (j, r')" and inv: "report_inv (i, r)"
  shows "\<exists>ev p q. engine_decode parse (event_of_json Some) line = Some ev \<and> ev_status ev = rr_status r' \<and>
    j = Suc i \<and> phase_of (rr_status r) = Some p \<and> phase_of (rr_status r') = Some q \<and> advance p q \<and>
    report_inv (j, r')"
proof -
  from row obtain ev node where ev: "engine_decode parse (event_of_json Some) line = Some ev"
    and h: "event_header e i (rr_status r) ev = Inr ()"
    and a: "event_arm e i (rr_status r) (rr_node r) (ev_status ev) (ev_reason ev) (ev_details ev) = Inr node"
    and r': "j = Suc i" "r' = \<lparr>rr_status = ev_status ev, rr_reason = ev_reason ev,
      rr_sequence = ev_sequence ev, rr_node = node\<rparr>"
    by (auto simp: report_row_def)
  from h have seq: "ev_sequence ev = Suc i"
    and live: "rr_status r \<notin> {''STOPPED'', ''UNKNOWN'', ''FAILED''}"
    by (auto simp: event_header_def)
  from inv obtain p where p: "phase_of (rr_status r) = Some p" "i \<in> entered_at p"
    "case rr_node r of None \<Rightarrow> \<not> node_known p i | Some n \<Rightarrow> node_known p i \<and> uuid n"
    by (auto simp: report_inv_def)
  have live_p: "p \<notin> {Stopped, Unknown, Failed}"
    using live p(1) by (auto simp: phase_of_def phases_def split: if_splits)
  have "\<exists>q. phase_of (ev_status ev) = Some q \<and> advance p q \<and>
      (case node of None \<Rightarrow> \<not> node_known q (Suc i) | Some n \<Rightarrow> node_known q (Suc i) \<and> uuid n)"
    using a
  proof (cases rule: event_arm_cases)
    case validating
    with p have "p = Fresh" by (cases p) auto
    with validating p show ?thesis by (auto simp: node_known_def split: option.splits)
  next
    case failed
    with p live_p have "p \<in> {Checking, Starting, Running, Stopping}" by (cases p) auto
    with failed p show ?thesis by (auto simp: node_known_def split: option.splits)
  qed (use p in \<open>auto simp: node_known_def split: option.splits\<close>)
  then obtain q where q: "phase_of (ev_status ev) = Some q" "advance p q"
    "case node of None \<Rightarrow> \<not> node_known q (Suc i) | Some n \<Rightarrow> node_known q (Suc i) \<and> uuid n"
    by blast
  then have "report_inv (j, r')"
    using advance_entered [OF q(2) p(2)] seq by (simp add: report_inv_def r')
  with ev p q r' show ?thesis by auto
qed

interpretation run_rows: consuming_loop "report_row parse e" report_inv for parse e
proof
  fix s line t
  assume "report_inv s" "report_row parse e s line = Inr t"
  then show "report_inv t"
    using report_row_step [of parse e "fst s" "snd s" line "fst t" "snd t"] by auto
qed

lemma initial_report_inv: "report_inv (0, initial_report)"
  by (simp add: report_inv_def initial_report_def node_known_def)

text \<open>The phases of the rows of an accepted loop.\<close>

definition row_phase :: "(bytes \<Rightarrow> json option) \<Rightarrow> bytes \<Rightarrow> phase \<Rightarrow> bool" where
  "row_phase parse line p \<longleftrightarrow>
     (\<exists>ev. engine_decode parse (event_of_json Some) line = Some ev \<and> phase_of (ev_status ev) = Some p)"

lemma rows_path:
  assumes "fold_result (report_row parse e) (i, r) ls = Inr (j, r')" "report_inv (i, r)"
    "phase_of (rr_status r) = Some p"
  shows "\<exists>ps. list_all2 (row_phase parse) ls ps \<and> phase_path p ps \<and>
    phase_of (rr_status r') = Some (last (p # ps)) \<and> j = i + length ps"
  using assms
proof (induction ls arbitrary: i r p)
  case (Cons l ls)
  from Cons.prems(1) obtain k r1 where l: "report_row parse e (i, r) l = Inr (k, r1)"
    "fold_result (report_row parse e) (k, r1) ls = Inr (j, r')" by auto
  from report_row_step [OF l(1) Cons.prems(2)] Cons.prems(3) obtain q where
    q: "row_phase parse l q" "k = Suc i" "phase_of (rr_status r1) = Some q" "advance p q" "report_inv (k, r1)"
    by (fastforce simp: row_phase_def)
  from Cons.IH [OF l(2) q(5,3)] obtain qs where
    "list_all2 (row_phase parse) ls qs" "phase_path q qs" "phase_of (rr_status r') = Some (last (q # qs))"
    "j = k + length qs" by blast
  with q show ?case by (intro exI [of _ "q # qs"]) simp
qed simp

lemma path_length:
  assumes "phase_path p ps" "i \<in> entered_at p"
  shows "i + length ps \<in> entered_at (last (p # ps))"
  using assms
proof (induction ps arbitrary: p i)
  case (Cons q ps)
  then have "advance p q" "phase_path q ps" by simp_all
  from Cons.IH [OF this(2) advance_entered [OF this(1) Cons.prems(2)]] show ?case by simp
qed simp

lemma entered_at_bound: "i \<in> entered_at p \<Longrightarrow> i \<le> 5"
  by (cases p) auto

lemma path_to_Stopped:
  "phase_path Fresh ps \<Longrightarrow> ps \<noteq> [] \<Longrightarrow> last ps = Stopped \<Longrightarrow>
     ps = [Checking, Starting, Running, Stopping, Stopped]"
proof -
  assume ps: "phase_path Fresh ps" "ps \<noteq> []" "last ps = Stopped"
  then have "length ps = 5" using path_length [OF ps(1), of 0] by simp
  then obtain a b c d f where "ps = [a, b, c, d, f]"
    by (auto simp: numeral_eq_Suc length_Suc_conv)
  with ps show ?thesis by auto
qed

section \<open>Properties of accepted reports\<close>

lemma validate_report_Inr:
  "validate_report parse raw journal e = Inr r \<longleftrightarrow>
     validate_initialized parse journal e = Inr () \<and> ex_pid e \<noteq> 0 \<and> attempt_id (ex_attempt_id e) \<and>
     length raw \<le> 32768 \<and> ends_with_newline raw \<and>
     (\<exists>i. fold_result (report_row parse e) (0, initial_report) (report_lines raw) = Inr (i, r))"
  by (auto simp: validate_report_def split_beta ends_with_newline_def not_less)

lemma report_lines_not_Nil [simp]: "report_lines raw \<noteq> []"
  by (simp add: report_lines_def)

lemma accepted_path:
  assumes "validate_report parse raw journal e = Inr r"
  shows "\<exists>ps. list_all2 (row_phase parse) (report_lines raw) ps \<and> phase_path Fresh ps \<and> ps \<noteq> [] \<and>
    phase_of (rr_status r) = Some (last ps) \<and> rr_sequence r = length ps \<and> report_inv (length ps, r)"
proof -
  from assms obtain i where f: "fold_result (report_row parse e) (0, initial_report) (report_lines raw) = Inr (i, r)"
    by (auto simp: validate_report_Inr)
  have "phase_of (rr_status initial_report) = Some Fresh" by (simp add: initial_report_def)
  from rows_path [OF f initial_report_inv this] obtain ps where
    ps: "list_all2 (row_phase parse) (report_lines raw) ps" "phase_path Fresh ps"
    "phase_of (rr_status r) = Some (last (Fresh # ps))" "i = length ps" by auto
  moreover have "ps \<noteq> []" using ps(1) by auto
  moreover have "report_inv (i, r)" using run_rows.run_inv [OF initial_report_inv f] .
  ultimately show ?thesis by (auto simp: report_inv_def)
qed

lemma report_rows_bound:
  assumes "validate_report parse raw journal e = Inr r"
  shows "length (report_lines raw) = rr_sequence r" "length (report_lines raw) \<le> 5" "0 < rr_sequence r"
proof -
  from accepted_path [OF assms] obtain ps where ps: "list_all2 (row_phase parse) (report_lines raw) ps"
    "phase_path Fresh ps" "ps \<noteq> []" "rr_sequence r = length ps" by blast
  with path_length [OF ps(2), of 0] entered_at_bound [of "length ps"] list_all2_lengthD [OF ps(1)]
  show "length (report_lines raw) = rr_sequence r" "length (report_lines raw) \<le> 5" "0 < rr_sequence r"
    by simp_all
qed

text \<open>C7. An accepted run report is a run of the engine's life cycle: its rows carry, in order, the
  phases of a path of the state machine from the start, the reported status is the last of them
  and the reported sequence is the number of rows, which never exceeds five.\<close>

theorem report_follows_lifecycle:
  assumes "validate_report parse raw journal e = Inr r"
  shows "\<exists>ps. list_all2 (row_phase parse) (report_lines raw) ps \<and> phase_path Fresh ps \<and> ps \<noteq> [] \<and>
    phase_of (rr_status r) = Some (last ps) \<and> rr_sequence r = length ps \<and> length ps \<le> 5"
proof -
  from accepted_path [OF assms] obtain ps where ps: "list_all2 (row_phase parse) (report_lines raw) ps"
    "phase_path Fresh ps" "ps \<noteq> []" "phase_of (rr_status r) = Some (last ps)" "rr_sequence r = length ps"
    by blast
  have "length ps \<le> 5"
    using path_length [OF ps(2), of 0] entered_at_bound [of "length ps"] by simp
  with ps show ?thesis by blast
qed

lemma last_row_closed:
  assumes "fold_result (report_row parse e) s (ls @ [l]) = Inr (i, r)" "rr_status r = ''STOPPED''"
  shows "\<exists>ev. engine_decode parse (event_of_json Some) l = Some ev \<and>
    close_flags (ev_details ev) = Inr (True, True)"
proof -
  from assms(1) obtain j r0 where "report_row parse e (j, r0) l = Inr (i, r)"
    by (auto simp: fold_result_append)
  then obtain ev node where ev: "engine_decode parse (event_of_json Some) l = Some ev"
    "event_arm e j (rr_status r0) (rr_node r0) (ev_status ev) (ev_reason ev) (ev_details ev) = Inr node"
    "rr_status r = ev_status ev"
    by (auto simp: report_row_def)
  from ev(2) have "close_flags (ev_details ev) = Inr (True, True)"
    by (cases rule: event_arm_cases) (use assms(2) ev(3) in auto)
  with ev(1) show ?thesis by blast
qed

text \<open>C6. A report that says \<open>STOPPED\<close> has gone through every phase of an orderly shutdown: five
  rows, checking, starting, running, stopping, stopped, the last one confirming that both the
  storage and the consensus were closed; and the node instance it names is a UUID.\<close>

theorem stopped_means_orderly_shutdown:
  assumes "validate_report parse raw journal e = Inr r" "rr_status r = ''STOPPED''"
  shows "list_all2 (row_phase parse) (report_lines raw) [Checking, Starting, Running, Stopping, Stopped] \<and>
    (\<exists>ev. engine_decode parse (event_of_json Some) (last (report_lines raw)) = Some ev \<and>
       close_flags (ev_details ev) = Inr (True, True)) \<and>
    (\<exists>n. rr_node r = Some n \<and> uuid n)"
proof -
  from accepted_path [OF assms(1)] obtain ps where ps: "list_all2 (row_phase parse) (report_lines raw) ps"
    "phase_path Fresh ps" "ps \<noteq> []" "phase_of (rr_status r) = Some (last ps)" "report_inv (length ps, r)"
    by blast
  then have l: "last ps = Stopped" using assms(2) by simp
  then have "ps = [Checking, Starting, Running, Stopping, Stopped]"
    using path_to_Stopped ps(2,3) by blast
  moreover from this ps(5) assms(2) have "\<exists>n. rr_node r = Some n \<and> uuid n"
    by (auto simp: report_inv_def node_known_def split: option.splits)
  moreover from assms(1) obtain i where
    "fold_result (report_row parse e) (0, initial_report) (report_lines raw) = Inr (i, r)"
    by (auto simp: validate_report_Inr)
  then have "fold_result (report_row parse e) (0, initial_report)
      (butlast (report_lines raw) @ [last (report_lines raw)]) = Inr (i, r)" by simp
  from last_row_closed [OF this assms(2)] have "\<exists>ev. engine_decode parse (event_of_json Some)
      (last (report_lines raw)) = Some ev \<and> close_flags (ev_details ev) = Inr (True, True)" .
  ultimately show ?thesis using ps(1) by blast
qed

lemma report_lines_append:
  assumes "ends_with_newline a" "b \<noteq> []"
  shows "report_lines (a @ b) = report_lines a @ report_lines b"
proof -
  from assms(1) have "a = butlast a @ [newline]"
    by (metis append_butlast_last_id ends_with_newline_def)
  then have "butlast (a @ b) = butlast a @ newline # butlast b"
    using assms(2) by (metis append.assoc append_Cons append_Nil butlast_append)
  then show ?thesis by (simp add: report_lines_def split_on_append_sep)
qed

text \<open>Every complete prefix of an accepted report is accepted: while the engine appends rows,
  an observer that reads only whole lines never rejects a report that is going to be accepted,
  and the sequence it reports only grows.\<close>

theorem complete_prefix_accepted:
  assumes "validate_report parse (a @ b) journal e = Inr r" "ends_with_newline a"
  shows "\<exists>r'. validate_report parse a journal e = Inr r' \<and> rr_sequence r' \<le> rr_sequence r"
proof (cases "b = []")
  case False
  from assms(1) obtain i where
    "fold_result (report_row parse e) (0, initial_report) (report_lines a @ report_lines b) = Inr (i, r)"
    by (auto simp: validate_report_Inr report_lines_append [OF assms(2) False])
  from run_rows.prefix_inv [OF initial_report_inv this] obtain u where
    u: "fold_result (report_row parse e) (0, initial_report) (report_lines a) = Inr u" "report_inv u"
    "fold_result (report_row parse e) u (report_lines b) = Inr (i, r)" by blast
  obtain j r' where jr: "u = (j, r')" by (cases u)
  have a: "validate_report parse a journal e = Inr r'"
    using assms u(1) unfolding validate_report_Inr jr by simp
  from u(2) obtain p where "phase_of (rr_status r') = Some p" by (auto simp: jr report_inv_def)
  from rows_path [OF u(3) [unfolded jr] u(2) [unfolded jr] this] have "j \<le> i" by auto
  moreover have "rr_sequence r' = j" using u(2) by (simp add: jr report_inv_def)
  moreover have "report_inv (i, r)" using run_rows.run_inv [OF u(2,3)] .
  then have "rr_sequence r = i" by (simp add: report_inv_def)
  ultimately show ?thesis using a by blast
qed (use assms in auto)

section \<open>A concrete run\<close>

text \<open>The tokenizer is a table from five row names and one journal name to syntax trees.\<close>

definition run_hash :: string where
  "run_hash = replicate 64 (CHR ''a'')"

definition run_uuid :: string where
  "run_uuid = ''00000000-0000-4000-8000-000000000000''"

definition run_build :: json where
  "run_build = JObj [(''buildInfoStatus'', JStr ''AVAILABLE''), (''engine'', JStr ''NIGO''), (''version'', JStr ''1''),
     (''source'', JObj [(''commit'', JStr (replicate 40 (CHR ''b''))), (''dirty'', JBool False)]),
     (''java'', JObj [(''requiredMajor'', JInt 21)]),
     (''console'', JObj [(''node'', JStr ''n''), (''npm'', JStr ''m''), (''sourceFingerprint'', JStr run_hash)]),
     (''contract'', JObj [(''status'', JStr ''PROPOSED''), (''revision'', JStr (replicate 40 (CHR ''b''))),
        (''documentationSha256'', JStr run_hash), (''definitionSha256'', JStr run_hash),
        (''runtimeDocumentationSha256'', JStr run_hash), (''runtimeFixtureSha256'', JStr run_hash),
        (''fingerprint'', JStr run_hash)]),
     (''distribution'', JObj [(''channel'', JStr ''development''), (''officialRelease'', JBool False)])]"

definition run_row :: "int \<Rightarrow> string \<Rightarrow> string \<Rightarrow> (string \<times> json) list \<Rightarrow> json" where
  "run_row n status reason details =
     JObj [(''attemptId'', JStr ''run-1''), (''command'', JStr ''run''), (''sequence'', JInt n), (''pid'', JInt 7),
       (''observedAt'', JInt 0), (''status'', JStr status), (''reason'', JStr reason),
       (''contractStatus'', JStr ''PROPOSED''), (''details'', JObj details)]"

definition run_rows_json :: "(bytes \<times> json) list" where
  "run_rows_json =
     [(''c'', run_row 1 ''CHECKING'' ''VALIDATING_CONFIGURATION'' [(''build'', run_build)]),
      (''s'', run_row 2 ''STARTING'' ''OPENING_MANAGED_STORAGE'' [(''backend'', JStr ''rocksdb'')]),
      (''r'', run_row 3 ''RUNNING'' ''LOCAL_STARTUP_COMPLETED''
         [(''genesisHash'', JStr (''0x'' @ run_hash)), (''chainFingerprint'', JStr run_hash),
          (''nodeIdentity'', JStr ''INSTANT''), (''nodeInstanceId'', JStr run_uuid),
          (''networkQuorumVerified'', JBool False)]),
      (''p'', run_row 4 ''STOPPING'' ''SHUTDOWN_REQUESTED'' []),
      (''d'', run_row 5 ''STOPPED'' ''STORAGE_AND_CONSENSUS_CLOSED''
         [(''storageClosed'', JBool True), (''consensusStopReturned'', JBool True)]),
      (''j'', JObj [(''status'', JStr ''INITIALIZED''), (''backend'', JStr ''rocksdb''),
         (''chainFingerprint'', JStr run_hash), (''nodeIdentity'', JStr ''INSTANT''),
         (''dataDirectory'', JStr ''/d''), (''genesisHash'', JStr (''0x'' @ run_hash))])]"

definition run_parse :: "bytes \<Rightarrow> json option" where
  "run_parse = map_of run_rows_json"

definition run_expected :: expected where
  "run_expected = \<lparr>ex_attempt_id = ''run-1'', ex_pid = 7, ex_identity = the (identity_of_json run_build),
     ex_backend = ''rocksdb'', ex_chain_fingerprint = run_hash, ex_node_identity = ''INSTANT'',
     ex_data_directory = ''/d'', ex_genesis_hash = ''0x'' @ run_hash\<rparr>"

definition run_raw :: bytes where
  "run_raw = concat (map (\<lambda>l. l @ [newline]) [''c'', ''s'', ''r'', ''p'', ''d''])"

definition run_result :: run_report where
  "run_result = \<lparr>rr_status = ''STOPPED'', rr_reason = ''STORAGE_AND_CONSENSUS_CLOSED'', rr_sequence = 5,
     rr_node = Some run_uuid\<rparr>"

lemma run_accepted: "validate_report run_parse run_raw ''j'' run_expected = Inr run_result"
  by code_simp

theorem report_follows_lifecycle_witness:
  "\<exists>ps. list_all2 (row_phase run_parse) (report_lines run_raw) ps \<and> phase_path Fresh ps \<and> length ps = 5"
  using report_follows_lifecycle [OF run_accepted] by (auto simp: run_result_def)

theorem stopped_means_orderly_shutdown_witness:
  "list_all2 (row_phase run_parse) (report_lines run_raw) [Checking, Starting, Running, Stopping, Stopped]"
  using stopped_means_orderly_shutdown [OF run_accepted] by (simp add: run_result_def)

theorem complete_prefix_accepted_witness:
  "\<exists>r. validate_report run_parse (''c'' @ [newline] @ ''s'' @ [newline]) ''j'' run_expected = Inr r \<and>
     rr_sequence r \<le> 5"
proof -
  have "run_raw = (''c'' @ [newline] @ ''s'' @ [newline]) @ ''r'' @ [newline] @ ''p'' @ [newline] @ ''d'' @ [newline]"
    by (simp add: run_raw_def)
  with run_accepted have "validate_report run_parse
      ((''c'' @ [newline] @ ''s'' @ [newline]) @ ''r'' @ [newline] @ ''p'' @ [newline] @ ''d'' @ [newline])
      ''j'' run_expected = Inr run_result" by simp
  from complete_prefix_accepted [OF this] show ?thesis
    by (simp add: ends_with_newline_def run_result_def)
qed

end
