(* ===== verification/DiagEvents.thy ===== *)
theory DiagEvents
  imports RunReport
begin

text \<open>
  The diagnostic projection of a report (\<open>src/src/engine/diagnostic_events.rs\<close>): \<open>project\<close> keeps of
  every readable row a sequence number and three compiled constants, and withholds the rest.
  Errors are not values here: an unreadable row is counted in \<open>omitted\<close> and marks the projection
  partial.
\<close>

section \<open>The projection\<close>

record diag_event =
  de_sequence :: nat
  de_command :: string
  de_status :: string
  de_reason :: string

record projection =
  pr_events :: "diag_event list"
  pr_omitted :: nat
  pr_partial :: bool

definition withheld :: projection where
  "withheld = \<lparr>pr_events = [], pr_omitted = 1, pr_partial = True\<rparr>"

definition identity_shape :: "(string \<rightharpoonup> json) \<Rightarrow> unit option" where
  "identity_shape d =
     do { g \<leftarrow> Option.bind (d ''genesisHash'') as_str; c \<leftarrow> Option.bind (d ''chainFingerprint'') as_str;
          n \<leftarrow> Option.bind (d ''nodeIdentity'') as_str;
          if hash0x g \<and> hash c \<and> node_identity n then Some () else None }"

definition closed :: "json \<Rightarrow> (bool \<times> bool) option" where
  "closed v =
     do { d \<leftarrow> exact_object v [''storageClosed'', ''consensusStopReturned''];
          a \<leftarrow> Option.bind (d ''storageClosed'') as_bool;
          b \<leftarrow> Option.bind (d ''consensusStopReturned'') as_bool; Some (a, b) }"

definition is_object :: "json \<Rightarrow> bool" where
  "is_object v \<longleftrightarrow> (case v of JObj _ \<Rightarrow> True | _ \<Rightarrow> False)"

text \<open>The arms of \<open>match (status, reason)\<close>; the pairs are distinct.\<close>

definition allowed :: "string \<Rightarrow> string \<Rightarrow> json \<Rightarrow> string \<Rightarrow> (string \<times> string) option" where
  "allowed status reason details command =
     (if status = ''CHECKING'' \<and> reason = ''VALIDATING_CONFIGURATION'' then
        do { d \<leftarrow> exact_object details [''build'']; b \<leftarrow> d ''build'';
             if is_object b then Some (''CHECKING'', ''VALIDATING_CONFIGURATION'') else None }
      else if status = ''STARTING'' \<and> reason = ''OPENING_MANAGED_STORAGE'' then
        do { d \<leftarrow> exact_object details [''backend'']; b \<leftarrow> Option.bind (d ''backend'') as_str;
             if b = ''h2'' \<or> b = ''rocksdb'' then Some (''STARTING'', ''OPENING_MANAGED_STORAGE'') else None }
      else if status = ''INITIALIZED'' \<and> reason = ''STORAGE_CLOSED'' \<and> command \<noteq> ''run'' then
        do { d \<leftarrow> exact_object details [''genesisHash'', ''chainFingerprint'', ''nodeIdentity''];
             identity_shape d; Some (''INITIALIZED'', ''STORAGE_CLOSED'') }
      else if status = ''RUNNING'' \<and> reason = ''LOCAL_STARTUP_COMPLETED'' \<and> command = ''run'' then
        do { d \<leftarrow> exact_object details [''genesisHash'', ''chainFingerprint'', ''nodeIdentity'',
                    ''nodeInstanceId'', ''networkQuorumVerified''];
             identity_shape d; n \<leftarrow> Option.bind (d ''nodeInstanceId'') as_str;
             q \<leftarrow> Option.bind (d ''networkQuorumVerified'') as_bool;
             if \<not> uuid n \<or> q then None else Some (''RUNNING'', ''LOCAL_STARTUP_COMPLETED'') }
      else if status = ''STOPPING'' \<and> reason = ''SHUTDOWN_REQUESTED'' \<and> command = ''run'' then
        do { exact_object details []; Some (''STOPPING'', ''SHUTDOWN_REQUESTED'') }
      else if status = ''STOPPED'' \<and> reason = ''STORAGE_AND_CONSENSUS_CLOSED'' \<and> command = ''run'' then
        do { (a, b) \<leftarrow> closed details;
             if \<not> a \<or> \<not> b then None else Some (''STOPPED'', ''STORAGE_AND_CONSENSUS_CLOSED'') }
      else if status = ''FAILED'' \<and> reason = ''STARTUP_OR_INITIALIZATION_FAILED'' then
        do { d \<leftarrow> exact_object details [''resultMayBePartial''];
             p \<leftarrow> Option.bind (d ''resultMayBePartial'') as_bool;
             if p then Some (''FAILED'', ''STARTUP_OR_INITIALIZATION_FAILED'') else None }
      else if status = ''UNKNOWN'' \<and> reason = ''REPORT_FAILURE'' \<and> command = ''run'' then
        do { closed details; Some (''UNKNOWN'', ''REPORT_FAILURE'') }
      else if status = ''UNKNOWN'' \<and> reason = ''CLOSE_NOT_CONFIRMED'' \<and> command = ''run'' then
        do { (a, b) \<leftarrow> closed details;
             if a \<and> b then None else Some (''UNKNOWN'', ''CLOSE_NOT_CONFIRMED'') }
      else if status = ''UNKNOWN'' \<and> reason = ''CLOSE_OR_REPORT_FAILURE'' \<and> command = ''run'' then
        do { exact_object details []; Some (''UNKNOWN'', ''CLOSE_OR_REPORT_FAILURE'') }
      else None)"

text \<open>The variables of the loop.\<close>

record scanner =
  sc_pid :: "nat option"
  sc_broken :: bool
  sc_count :: nat
  sc_result :: projection

definition omit :: "projection \<Rightarrow> projection" where
  "omit p = p\<lparr>pr_omitted := pr_omitted p + 1, pr_partial := True\<rparr>"

text \<open>One complete line; \<open>count\<close> is already that of this line.\<close>

definition project_row :: "(bytes \<Rightarrow> json option) \<Rightarrow> string \<Rightarrow> string \<Rightarrow> scanner \<Rightarrow> bytes \<Rightarrow> scanner" where
  "project_row parse command attempt s line =
     (let count = Suc (sc_count s);
          skip = s\<lparr>sc_count := count, sc_broken := True, sc_result := omit (sc_result s)\<rparr> in
      case (if line = [] \<or> 8192 < length line \<or> sc_broken s then None
            else engine_decode parse (event_of_json Some) line) of
        None \<Rightarrow> skip
      | Some row \<Rightarrow>
          if ev_command row \<noteq> command \<or> ev_attempt row \<noteq> attempt \<or> ev_sequence row \<noteq> count \<or>
             ev_pid row = 0 \<or> (case sc_pid s of None \<Rightarrow> False | Some p \<Rightarrow> p \<noteq> ev_pid row) \<or>
             ev_contract_status row \<noteq> ''PROPOSED''
          then skip
          else
            let s = s\<lparr>sc_count := count, sc_pid := Some (ev_pid row)\<rparr> in
            case allowed (ev_status row) (ev_reason row) (ev_details row) command of
              None \<Rightarrow> s\<lparr>sc_result := omit (sc_result s)\<rparr>
            | Some (status, reason) \<Rightarrow>
                s\<lparr>sc_result := (sc_result s)\<lparr>pr_events := pr_events (sc_result s) @
                  [\<lparr>de_sequence = ev_sequence row, de_command = command, de_status = status,
                    de_reason = reason\<rparr>]\<rparr>\<rparr>)"

function project_loop :: "(bytes \<Rightarrow> json option) \<Rightarrow> string \<Rightarrow> string \<Rightarrow> scanner \<Rightarrow> bytes \<Rightarrow> projection" where
  "project_loop parse command attempt s remaining =
     (if remaining = [] then sc_result s
      else if sc_count s = 16 then omit (sc_result s)
      else
        let line = takeWhile (\<lambda>c. c \<noteq> newline) remaining in
        if length line = length remaining then omit (sc_result s)
        else project_loop parse command attempt (project_row parse command attempt s line)
               (drop (Suc (length line)) remaining))"
  by pat_completeness auto
termination
  by (relation "measure (\<lambda>(parse, command, attempt, s, remaining). length remaining)") auto

declare project_loop.simps [simp del]

lemma project_loop_step:
  assumes "remaining \<noteq> []" "sc_count s \<noteq> 16" "length line \<noteq> length remaining"
    "line = takeWhile (\<lambda>c. c \<noteq> newline) remaining"
  shows "project_loop parse command attempt s remaining =
    project_loop parse command attempt (project_row parse command attempt s line)
      (drop (Suc (length line)) remaining)"
  using assms(1-3) unfolding assms(4) by (subst project_loop.simps) (simp only: Let_def if_False)

lemma project_loop_stop:
  assumes "remaining = [] \<or> sc_count s = 16 \<or>
    length (takeWhile (\<lambda>c. c \<noteq> newline) remaining) = length remaining"
  shows "project_loop parse command attempt s remaining =
    (if remaining = [] then sc_result s else omit (sc_result s))"
  using assms by (subst project_loop.simps) (auto simp: Let_def)

definition initial_scanner :: scanner where
  "initial_scanner = \<lparr>sc_pid = None, sc_broken = False, sc_count = 0,
     sc_result = \<lparr>pr_events = [], pr_omitted = 0, pr_partial = False\<rparr>\<rparr>"

definition project :: "(bytes \<Rightarrow> json option) \<Rightarrow> bytes \<Rightarrow> string \<Rightarrow> string \<Rightarrow> projection" where
  "project parse raw command attempt =
     (if command \<notin> {''init'', ''resume-init'', ''run''} then withheld
      else if \<not> attempt_id attempt \<or> raw = [] \<or> 32768 < length raw then withheld
      else project_loop parse command attempt initial_scanner raw)"

section \<open>The loop over complete lines\<close>

definition unlines :: "bytes list \<Rightarrow> bytes" where
  "unlines ls = concat (map (\<lambda>l. l @ [newline]) ls)"

lemma project_loop_lines:
  assumes "list_all (\<lambda>l. newline \<notin> set l) ls" "sc_count s + length ls \<le> 16"
    "\<And>s line. sc_count (project_row parse command attempt s line) = Suc (sc_count s)"
  shows "project_loop parse command attempt s (unlines ls @ rest) =
    project_loop parse command attempt (foldl (project_row parse command attempt) s ls) rest"
  using assms(1,2)
proof (induction ls arbitrary: s)
  case (Cons l ls)
  have tw: "takeWhile (\<lambda>c. c \<noteq> newline) (l @ newline # unlines ls @ rest) = l"
    using Cons.prems(1) by (subst takeWhile_append2) auto
  have "project_loop parse command attempt s (unlines (l # ls) @ rest) =
      project_loop parse command attempt (project_row parse command attempt s l) (unlines ls @ rest)"
    using Cons.prems(2) tw by (subst project_loop.simps) (simp add: unlines_def Let_def)
  also have "\<dots> = project_loop parse command attempt
      (foldl (project_row parse command attempt) (project_row parse command attempt s l) ls) rest"
    using Cons by (intro Cons.IH) (simp_all add: assms(3))
  finally show ?case by simp
qed (simp add: unlines_def)

lemma project_row_count [simp]: "sc_count (project_row parse command attempt s line) = Suc (sc_count s)"
  by (simp add: project_row_def Let_def split: option.splits prod.splits)

lemma report_lines_unlines:
  assumes "ends_with_newline raw"
  shows "unlines (report_lines raw) = raw" "list_all (\<lambda>l. newline \<notin> set l) (report_lines raw)"
proof -
  have "unlines ps = join_with newline ps @ [newline]" if "ps \<noteq> []" for ps
    using that unfolding unlines_def by (induction newline ps rule: join_with.induct) auto
  then have "unlines (report_lines raw) = butlast raw @ [newline]" by (simp add: report_lines_def)
  also have "\<dots> = raw" using assms by (metis append_butlast_last_id ends_with_newline_def)
  finally show "unlines (report_lines raw) = raw" .
  show "list_all (\<lambda>l. newline \<notin> set l) (report_lines raw)"
    unfolding report_lines_def list_all_iff by (blast dest: split_on_pieces)
qed

section \<open>Every accepted run is projected completely\<close>

text \<open>The build of the first row is written as an object (serde also reads positional arrays).\<close>

definition object_build :: "(bytes \<Rightarrow> json option) \<Rightarrow> bytes \<Rightarrow> bool" where
  "object_build parse line \<longleftrightarrow>
     (case engine_decode parse (event_of_json Some) line of
        None \<Rightarrow> True
      | Some ev \<Rightarrow> (case Option.bind (exact_object (ev_details ev) [''build'']) (\<lambda>m. m ''build'') of
          None \<Rightarrow> True | Some b \<Rightarrow> is_object b))"

lemma scope_Inr:
  assumes "scope e = Inr ()"
  shows "ex_backend e \<in> {''rocksdb'', ''h2''}" "hash (ex_chain_fingerprint e)"
    "node_identity (ex_node_identity e)" "hash0x (ex_genesis_hash e)"
  using assms by (auto simp: scope_def)

lemma closed_iff: "closed v = Some (a, b) \<longleftrightarrow> close_flags v = Inr (a, b)"
  by (auto simp: closed_def close_flags_Inr bind_eq_Some_conv)

text \<open>Every accepted row is one the projection knows.\<close>

lemma accepted_row_allowed:
  assumes arm: "event_arm e i prev node status reason d = Inr node'" and sc: "scope e = Inr ()"
    and obj: "\<And>m b. exact_object d [''build''] = Some m \<Longrightarrow> m ''build'' = Some b \<Longrightarrow> is_object b"
  shows "allowed status reason d ''run'' = Some (status, reason)"
proof (cases rule: event_arm_dispatch
    [where status = status and i = i and reason = reason and prev = prev and e = e and node = node and d = d])
  case c
  with arm obtain m b where "exact_object d [''build''] = Some m" "m ''build'' = Some b"
    unfolding event_arm_def by (auto simp: object_def bind_eq_Some_conv)
  with obj c show ?thesis by (simp add: allowed_def)
next
  case s
  with arm scope_Inr(1) [OF sc] show ?thesis
    unfolding event_arm_def allowed_def by (auto simp: object_def string_at_def bind_eq_Some_conv)
next
  case r
  with arm obtain m n where m: "exact_object d [''genesisHash'', ''chainFingerprint'', ''nodeIdentity'',
      ''nodeInstanceId'', ''networkQuorumVerified''] = Some m" "m ''nodeInstanceId'' = Some (JStr n)" "uuid n"
    "m ''genesisHash'' = Some (JStr (ex_genesis_hash e))" "m ''nodeIdentity'' = Some (JStr (ex_node_identity e))"
    "m ''chainFingerprint'' = Some (JStr (ex_chain_fingerprint e))"
    "m ''networkQuorumVerified'' = Some (JBool False)"
    unfolding event_arm_def by (auto simp: object_def string_at_def boolean_at_def bind_eq_Some_conv)
  with scope_Inr [OF sc] have "identity_shape m = Some ()"
    by (simp add: identity_shape_def as_str_def)
  with m r show ?thesis by (simp add: allowed_def as_str_def as_bool_def)
next
  case p
  with arm show ?thesis unfolding event_arm_def allowed_def by (auto simp: object_def)
next
  case d
  with arm have "close_flags d = Inr (True, True)" unfolding event_arm_def by (auto simp: split_beta)
  then have "closed d = Some (True, True)" by (simp add: closed_iff)
  with d show ?thesis by (simp add: allowed_def)
next
  case u
  show ?thesis
  proof (cases "reason = ''CLOSE_OR_REPORT_FAILURE''")
    case True
    with u arm have "exact_object d [] \<noteq> None"
      unfolding event_arm_def by (auto simp: object_def)
    then show ?thesis using True u by (auto simp: allowed_def)
  next
    case False
    show ?thesis
    proof (cases "reason = ''REPORT_FAILURE'' \<or> reason = ''CLOSE_NOT_CONFIRMED''")
      case True
      with u arm False have "and_then (close_flags d) (\<lambda>(closed, stopped).
          and_then (require (\<not> (reason = ''CLOSE_NOT_CONFIRMED'' \<and> closed \<and> stopped))) (\<lambda>_. Inr node)) = Inr node'"
        unfolding event_arm_def by simp
      then obtain a b where "closed d = Some (a, b)" "\<not> (reason = ''CLOSE_NOT_CONFIRMED'' \<and> a \<and> b)"
        by (auto simp: closed_iff)
      with True u show ?thesis by (elim disjE) (simp_all add: allowed_def)
    next
      case other: False
      with u arm False show ?thesis unfolding event_arm_def by simp
    qed
  qed
next
  case f
  with arm show ?thesis
    unfolding event_arm_def allowed_def by (auto simp: object_def boolean_at_def bind_eq_Some_conv)
next
  case none
  with arm show ?thesis by simp
qed

text \<open>The scanner after \<open>i\<close> accepted rows.\<close>

definition in_step :: "expected \<Rightarrow> nat \<Rightarrow> run_report \<Rightarrow> scanner \<Rightarrow> bool" where
  "in_step e i r s \<longleftrightarrow> sc_count s = i \<and> \<not> sc_broken s \<and> (i > 0 \<longrightarrow> sc_pid s = Some (ex_pid e)) \<and>
     (i = 0 \<longrightarrow> sc_pid s = None) \<and>
     pr_omitted (sc_result s) = 0 \<and> \<not> pr_partial (sc_result s) \<and> length (pr_events (sc_result s)) = i \<and>
     (i > 0 \<longrightarrow> last (pr_events (sc_result s)) =
        \<lparr>de_sequence = rr_sequence r, de_command = ''run'', de_status = rr_status r, de_reason = rr_reason r\<rparr>)"

lemma project_row_in_step:
  assumes row: "report_row parse e (i, r) line = Inr (j, r')" and s: "in_step e i r s"
    and sc: "scope e = Inr ()" and pid: "ex_pid e \<noteq> 0" and obj: "object_build parse line"
  shows "in_step e j r' (project_row parse ''run'' (ex_attempt_id e) s line)"
proof -
  from row obtain ev node where line: "line \<noteq> []" "length line \<le> 8192"
    and ev: "engine_decode parse (event_of_json Some) line = Some ev"
    and h: "event_header e i (rr_status r) ev = Inr ()"
    and a: "event_arm e i (rr_status r) (rr_node r) (ev_status ev) (ev_reason ev) (ev_details ev) = Inr node"
    and r': "j = Suc i" "r' = \<lparr>rr_status = ev_status ev, rr_reason = ev_reason ev,
      rr_sequence = ev_sequence ev, rr_node = node\<rparr>"
    by (auto simp: report_row_def)
  have "is_object b" if "exact_object (ev_details ev) [''build''] = Some m" "m ''build'' = Some b" for m b
    using obj ev that by (simp add: object_build_def)
  from accepted_row_allowed [OF a sc this]
  have al: "allowed (ev_status ev) (ev_reason ev) (ev_details ev) ''run'' = Some (ev_status ev, ev_reason ev)" .
  have fields: "ev_command ev = ''run''" "ev_attempt ev = ex_attempt_id e" "ev_sequence ev = Suc i"
    "ev_pid ev = ex_pid e" "ev_contract_status ev = ''PROPOSED''"
    using h by (auto simp: event_header_def)
  have head: "\<not> (line = [] \<or> 8192 < length line \<or> sc_broken s)" "sc_count s = i"
    "\<not> (case sc_pid s of None \<Rightarrow> False | Some p \<Rightarrow> p \<noteq> ex_pid e)"
    using line s by (auto simp: in_step_def split: option.splits)
  have "project_row parse ''run'' (ex_attempt_id e) s line =
      s\<lparr>sc_count := Suc i, sc_pid := Some (ex_pid e),
        sc_result := (sc_result s)\<lparr>pr_events := pr_events (sc_result s) @
          [\<lparr>de_sequence = Suc i, de_command = ''run'', de_status = ev_status ev, de_reason = ev_reason ev\<rparr>]\<rparr>\<rparr>"
    unfolding project_row_def Let_def using head fields pid ev al by (cases "sc_pid s") simp_all
  then show ?thesis
    using s by (simp add: in_step_def r' fields)
qed

lemma rows_in_step:
  assumes "fold_result (report_row parse e) (i, r) ls = Inr (j, r')" "in_step e i r s"
    "scope e = Inr ()" "ex_pid e \<noteq> 0" "list_all (object_build parse) ls"
  shows "in_step e j r' (foldl (project_row parse ''run'' (ex_attempt_id e)) s ls)"
  using assms
proof (induction ls arbitrary: i r s)
  case (Cons l ls)
  from Cons.prems(1) obtain k r1 where l: "report_row parse e (i, r) l = Inr (k, r1)"
    "fold_result (report_row parse e) (k, r1) ls = Inr (j, r')" by auto
  from project_row_in_step [OF l(1) Cons.prems(2-4)] Cons.prems(5)
  have "in_step e k r1 (project_row parse ''run'' (ex_attempt_id e) s l)" by simp
  from Cons.IH [OF l(2) this Cons.prems(3,4)] Cons.prems(5) show ?case by simp
qed simp

text \<open>C8. The projection agrees with the validator: of a run report the validator accepts (with
  the build written as an object) it withholds nothing. Every row becomes an event, nothing is
  omitted, the result is not partial, and its last event is the validated status, reason and
  sequence.\<close>

theorem accepted_report_projected:
  assumes "validate_report parse raw journal e = Inr r"
    and "list_all (object_build parse) (report_lines raw)"
  defines "p \<equiv> project parse raw ''run'' (ex_attempt_id e)"
  shows "pr_omitted p = 0 \<and> \<not> pr_partial p \<and> length (pr_events p) = rr_sequence r \<and>
    last (pr_events p) =
      \<lparr>de_sequence = rr_sequence r, de_command = ''run'', de_status = rr_status r, de_reason = rr_reason r\<rparr>"
proof -
  from assms(1) obtain i where v: "validate_initialized parse journal e = Inr ()" "ex_pid e \<noteq> 0"
    "attempt_id (ex_attempt_id e)" "length raw \<le> 32768" "ends_with_newline raw"
    and f: "fold_result (report_row parse e) (0, initial_report) (report_lines raw) = Inr (i, r)"
    unfolding validate_report_Inr by blast
  have sc: "scope e = Inr ()" using v(1) by (simp add: validate_initialized_def)
  from report_rows_bound [OF assms(1)] have rows: "length (report_lines raw) = rr_sequence r"
    "length (report_lines raw) \<le> 5" "0 < rr_sequence r" by auto
  have "in_step e 0 initial_report initial_scanner"
    by (simp add: in_step_def initial_scanner_def)
  from rows_in_step [OF f this sc v(2) assms(2)]
  have s: "in_step e i r (foldl (project_row parse ''run'' (ex_attempt_id e)) initial_scanner (report_lines raw))"
    (is "in_step e i r ?s") .
  have "p = project_loop parse ''run'' (ex_attempt_id e) initial_scanner (unlines (report_lines raw) @ [])"
    using v report_lines_unlines(1) [OF v(5)] by (simp add: p_def project_def ends_with_newline_def)
  also have "\<dots> = project_loop parse ''run'' (ex_attempt_id e) ?s []"
    using report_lines_unlines(2) [OF v(5)] rows(2)
    by (intro project_loop_lines) (simp_all add: initial_scanner_def)
  also have "\<dots> = sc_result ?s" by (subst project_loop.simps) simp
  finally have p: "p = sc_result ?s" .
  have "rr_sequence r = i" using run_rows.run_inv [OF initial_report_inv f] by (simp add: report_inv_def)
  with s rows(3) show ?thesis unfolding p in_step_def by simp
qed

theorem accepted_report_projected_witness:
  "pr_omitted (project run_parse run_raw ''run'' ''run-1'') = 0 \<and>
   length (pr_events (project run_parse run_raw ''run'' ''run-1'')) = 5 \<and>
   de_status (last (pr_events (project run_parse run_raw ''run'' ''run-1''))) = ''STOPPED''"
proof -
  have "list_all (object_build run_parse) (report_lines run_raw)" by code_simp
  from accepted_report_projected [OF run_accepted this] show ?thesis
    by (simp add: run_expected_def run_result_def)
qed

section \<open>What a projection can say\<close>

text \<open>The compiled pairs of status and reason.\<close>

definition known_pairs :: "(string \<times> string) list" where
  "known_pairs =
     [(''CHECKING'', ''VALIDATING_CONFIGURATION''), (''STARTING'', ''OPENING_MANAGED_STORAGE''),
      (''INITIALIZED'', ''STORAGE_CLOSED''), (''RUNNING'', ''LOCAL_STARTUP_COMPLETED''),
      (''STOPPING'', ''SHUTDOWN_REQUESTED''), (''STOPPED'', ''STORAGE_AND_CONSENSUS_CLOSED''),
      (''FAILED'', ''STARTUP_OR_INITIALIZATION_FAILED''), (''UNKNOWN'', ''REPORT_FAILURE''),
      (''UNKNOWN'', ''CLOSE_NOT_CONFIRMED''), (''UNKNOWN'', ''CLOSE_OR_REPORT_FAILURE'')]"

lemma allowed_known: "allowed status reason d command = Some x \<Longrightarrow> x \<in> set known_pairs"
  unfolding allowed_def known_pairs_def by (simp add: bind_eq_Some_conv split: if_split_asm) auto

definition event_known :: "string \<Rightarrow> diag_event \<Rightarrow> bool" where
  "event_known command ev \<longleftrightarrow> de_command ev = command \<and> (de_status ev, de_reason ev) \<in> set known_pairs"

text \<open>Sequence numbers are line numbers: increasing, and every line is an event or omitted.\<close>

definition scanner_inv :: "string \<Rightarrow> scanner \<Rightarrow> bool" where
  "scanner_inv command s \<longleftrightarrow>
     list_all (event_known command) (pr_events (sc_result s)) \<and>
     sorted_wrt (<) (map de_sequence (pr_events (sc_result s))) \<and>
     list_all (\<lambda>ev. 0 < de_sequence ev \<and> de_sequence ev \<le> sc_count s) (pr_events (sc_result s)) \<and>
     length (pr_events (sc_result s)) + pr_omitted (sc_result s) = sc_count s \<and>
     (pr_partial (sc_result s) \<longleftrightarrow> 0 < pr_omitted (sc_result s))"

lemma project_row_cases:
  obtains (skipped) b where "project_row parse command attempt s line =
      s\<lparr>sc_count := Suc (sc_count s), sc_broken := b, sc_result := omit (sc_result s)\<rparr>"
  | (withheld) p where "project_row parse command attempt s line =
      s\<lparr>sc_count := Suc (sc_count s), sc_pid := p, sc_result := omit (sc_result s)\<rparr>"
  | (event) p x where "x \<in> set known_pairs" "project_row parse command attempt s line =
      s\<lparr>sc_count := Suc (sc_count s), sc_pid := p, sc_result := (sc_result s)\<lparr>pr_events :=
        pr_events (sc_result s) @ [\<lparr>de_sequence = Suc (sc_count s), de_command = command,
          de_status = fst x, de_reason = snd x\<rparr>]\<rparr>\<rparr>"
proof (cases "if line = [] \<or> 8192 < length line \<or> sc_broken s then None
    else engine_decode parse (event_of_json Some) line")
  case None
  then show thesis by (intro skipped [of True]) (simp add: project_row_def Let_def)
next
  case (Some row)
  show thesis
  proof (cases "ev_command row \<noteq> command \<or> ev_attempt row \<noteq> attempt \<or> ev_sequence row \<noteq> Suc (sc_count s) \<or>
      ev_pid row = 0 \<or> (case sc_pid s of None \<Rightarrow> False | Some p \<Rightarrow> p \<noteq> ev_pid row) \<or>
      ev_contract_status row \<noteq> ''PROPOSED''")
    case True
    with Some show thesis by (intro skipped [of True]) (simp only: project_row_def Let_def option.simps if_True)
  next
    case False
    show thesis
    proof (cases "allowed (ev_status row) (ev_reason row) (ev_details row) command")
      case None
      with Some False show thesis
        by (intro withheld [of "Some (ev_pid row)"])
          (simp only: project_row_def Let_def option.simps if_False scanner.simps scanner.update_convs
            scanner.select_convs, simp)
    next
      case (Some x)
      then have "x \<in> set known_pairs" by (rule allowed_known)
      with Some False \<open>(if _ then None else _) = Some row\<close> show thesis
        by (intro event [of x "Some (ev_pid row)"]) (simp_all add: project_row_def Let_def split_beta)
    qed
  qed
qed

lemma project_row_inv:
  assumes "scanner_inv command s"
  shows "scanner_inv command (project_row parse command attempt s line)"
proof (cases rule: project_row_cases
    [where parse = parse and command = command and attempt = attempt and s = s and line = line])
  case (skipped b)
  with assms show ?thesis by (auto simp: scanner_inv_def omit_def list_all_iff le_SucI)
next
  case (withheld p)
  with assms show ?thesis by (auto simp: scanner_inv_def omit_def list_all_iff le_SucI)
next
  case (event x p)
  with assms show ?thesis
    by (auto simp: scanner_inv_def list_all_iff event_known_def sorted_wrt_append le_SucI less_Suc_eq_le)
qed

text \<open>What holds of every projection.\<close>

definition projection_ok :: "string \<Rightarrow> projection \<Rightarrow> bool" where
  "projection_ok command p \<longleftrightarrow> list_all (event_known command) (pr_events p) \<and>
     sorted_wrt (<) (map de_sequence (pr_events p)) \<and> length (pr_events p) \<le> 16 \<and>
     (pr_partial p \<longleftrightarrow> 0 < pr_omitted p)"

lemma projection_ok_omit: "projection_ok command p \<Longrightarrow> projection_ok command (omit p)"
  by (simp add: projection_ok_def omit_def)

lemma scanner_projection_ok: "scanner_inv command s \<Longrightarrow> sc_count s \<le> 16 \<Longrightarrow> projection_ok command (sc_result s)"
  by (auto simp: scanner_inv_def projection_ok_def)

lemma project_loop_ok:
  "scanner_inv command s \<Longrightarrow> sc_count s \<le> 16 \<Longrightarrow>
     projection_ok command (project_loop parse command attempt s remaining)"
proof (induction "length remaining" arbitrary: s remaining rule: less_induct)
  case less
  note ok = scanner_projection_ok [OF less.prems]
  let ?line = "takeWhile (\<lambda>c. c \<noteq> newline) remaining"
  show ?case
  proof (cases "remaining = [] \<or> sc_count s = 16 \<or> length ?line = length remaining")
    case True
    with ok projection_ok_omit [OF ok] show ?thesis by (simp add: project_loop_stop)
  next
    case False
    then have "projection_ok command (project_loop parse command attempt
        (project_row parse command attempt s ?line) (drop (Suc (length ?line)) remaining))"
      using less.prems by (intro less.hyps project_row_inv) auto
    with False show ?thesis by (simp add: project_loop_step [OF _ _ _ refl])
  qed
qed

lemma initial_scanner_inv: "scanner_inv command initial_scanner"
  by (simp add: scanner_inv_def initial_scanner_def)

text \<open>C11. Whatever the file holds, a projection is at most sixteen events made of the command and
  the compiled status and reason pairs, with strictly increasing sequence numbers, and it is
  marked partial exactly when something was withheld.\<close>

theorem projection_bounded:
  "projection_ok command (project parse raw command attempt)"
proof -
  have "projection_ok command withheld" by (simp add: projection_ok_def withheld_def)
  moreover have "projection_ok command (project_loop parse command attempt initial_scanner raw)"
    by (rule project_loop_ok [OF initial_scanner_inv]) (simp add: initial_scanner_def)
  ultimately show ?thesis unfolding project_def by (simp only: if_split) blast
qed

lemma project_row_events:
  "prefix (pr_events (sc_result s)) (pr_events (sc_result (project_row parse command attempt s line)))"
  by (cases rule: project_row_cases
      [where parse = parse and command = command and attempt = attempt and s = s and line = line])
    (simp_all add: omit_def)

lemma project_loop_events:
  "prefix (pr_events (sc_result s)) (pr_events (project_loop parse command attempt s remaining))"
proof (induction "length remaining" arbitrary: s remaining rule: less_induct)
  case less
  let ?line = "takeWhile (\<lambda>c. c \<noteq> newline) remaining"
  show ?case
  proof (cases "remaining = [] \<or> sc_count s = 16 \<or> length ?line = length remaining")
    case True
    then show ?thesis by (simp add: project_loop_stop omit_def)
  next
    case False
    then have "prefix (pr_events (sc_result (project_row parse command attempt s ?line)))
        (pr_events (project_loop parse command attempt (project_row parse command attempt s ?line)
          (drop (Suc (length ?line)) remaining)))"
      by (intro less.hyps) auto
    with project_row_events have "prefix (pr_events (sc_result s))
        (pr_events (project_loop parse command attempt (project_row parse command attempt s ?line)
          (drop (Suc (length ?line)) remaining)))"
      by (rule prefix_order.trans)
    with False show ?thesis by (simp add: project_loop_step [OF _ _ _ refl])
  qed
qed

lemma project_loop_append:
  assumes "a = [] \<or> ends_with_newline a"
  shows "prefix (pr_events (project_loop parse command attempt s a))
    (pr_events (project_loop parse command attempt s (a @ b)))"
  using assms
proof (induction "length a" arbitrary: s a rule: less_induct)
  case less
  show ?case
  proof (cases "a = []")
    case True
    then show ?thesis using project_loop_events [of s parse command attempt b]
      by (simp add: project_loop_stop)
  next
    case False
    with less.prems have nl: "newline \<in> set a" by (auto simp: ends_with_newline_def dest: last_in_set)
    let ?line = "takeWhile (\<lambda>c. c \<noteq> newline) a"
    have tw: "takeWhile (\<lambda>c. c \<noteq> newline) (a @ b) = ?line"
      using nl by (intro takeWhile_append1) auto
    have short: "length ?line < length a"
      using nl by (induction a) auto
    let ?a = "drop (Suc (length ?line)) a"
    have rest: "?a = [] \<or> ends_with_newline ?a"
      using less.prems False by (auto simp: ends_with_newline_def last_drop)
    show ?thesis
    proof (cases "sc_count s = 16")
      case True
      with False show ?thesis by (simp add: project_loop_stop)
    next
      case other: False
      have "prefix (pr_events (project_loop parse command attempt (project_row parse command attempt s ?line) ?a))
          (pr_events (project_loop parse command attempt (project_row parse command attempt s ?line) (?a @ b)))"
        using False rest by (intro less.hyps) auto
      moreover have "drop (Suc (length ?line)) (a @ b) = ?a @ b" using short by simp
      moreover have "project_loop parse command attempt s a =
          project_loop parse command attempt (project_row parse command attempt s ?line) ?a"
        using False other short by (intro project_loop_step) simp_all
      moreover have "project_loop parse command attempt s (a @ b) =
          project_loop parse command attempt (project_row parse command attempt s ?line)
            (drop (Suc (length ?line)) (a @ b))"
        using False other short tw by (intro project_loop_step) simp_all
      ultimately show ?thesis by simp
    qed
  qed
qed

text \<open>Rows appended to a report, whatever they hold, never take back an event projected from
  the complete rows before them: a truncated or corrupted tail cannot erase a failure.\<close>

theorem tail_cannot_erase_events:
  assumes "ends_with_newline a" "length (a @ b) \<le> 32768"
  shows "prefix (pr_events (project parse a command attempt)) (pr_events (project parse (a @ b) command attempt))"
  using project_loop_append [of a] assms by (auto simp: project_def withheld_def ends_with_newline_def)

theorem tail_cannot_erase_events_witness:
  "prefix (pr_events (project run_parse run_raw ''run'' ''run-1''))
     (pr_events (project run_parse (run_raw @ ''garbage'') ''run'' ''run-1''))"
  by (rule tail_cannot_erase_events) (simp_all add: run_raw_def ends_with_newline_def)

end
