(* ===== verification/InitReport.thy ===== *)
theory InitReport
  imports RunReport
begin

text \<open>
  The result of an initialisation (\<open>src/src/engine/init_result.rs\<close>): the standard output, the
  three-row report and the journal are bound to one pinned execution. Every error is the one
  code \<open>ENGINE_INIT_RESULT_INVALID\<close>. The scope record is that of \<open>RunReport\<close> with the command;
  its genesis hash is not used, because initialisation is what determines it.
\<close>

record init_expected =
  ix_command :: string
  ix_attempt_id :: string
  ix_pid :: nat
  ix_identity :: build_identity
  ix_backend :: string
  ix_chain_fingerprint :: string
  ix_node_identity :: string
  ix_data_directory :: string

definition init_invalid :: string where
  "init_invalid = ''ENGINE_INIT_RESULT_INVALID''"

definition init_decode :: "(bytes \<Rightarrow> json option) \<Rightarrow> (json \<Rightarrow> 'a option) \<Rightarrow> nat \<Rightarrow> bytes \<Rightarrow> 'a result" where
  "init_decode parse typed maximum raw =
     and_then (ensure (\<not> (raw = [] \<or> maximum < length raw)) init_invalid) (\<lambda>_.
     ok_or (engine_decode parse typed raw) init_invalid)"

record init_output =
  io_status :: string
  io_genesis_hash :: string
  io_attempt_id :: string

definition init_output_of_json :: "json \<Rightarrow> init_output option" where
  "init_output_of_json v =
     do { m \<leftarrow> struct_fields [''status'', ''genesisHash'', ''attemptId''] [] v;
          s \<leftarrow> get_str m ''status''; g \<leftarrow> get_str m ''genesisHash''; a \<leftarrow> get_str m ''attemptId'';
          Some \<lparr>io_status = s, io_genesis_hash = g, io_attempt_id = a\<rparr> }"

text \<open>The details of the three rows.\<close>

definition checking_of_json :: "json \<Rightarrow> build_identity option" where
  "checking_of_json v =
     do { m \<leftarrow> struct_fields [''build''] [] v; Option.bind (m ''build'') identity_of_json }"

definition starting_of_json :: "json \<Rightarrow> string option" where
  "starting_of_json v = do { m \<leftarrow> struct_fields [''backend''] [] v; get_str m ''backend'' }"

definition initialized_of_json :: "json \<Rightarrow> (string \<times> string \<times> string) option" where
  "initialized_of_json v =
     do { m \<leftarrow> struct_fields [''genesisHash'', ''chainFingerprint'', ''nodeIdentity''] [] v;
          g \<leftarrow> get_str m ''genesisHash''; c \<leftarrow> get_str m ''chainFingerprint'';
          n \<leftarrow> get_str m ''nodeIdentity''; Some (g, c, n) }"

definition event_matches :: "'d event \<Rightarrow> init_expected \<Rightarrow> nat \<Rightarrow> string \<Rightarrow> string \<Rightarrow> bool" where
  "event_matches ev e n status reason \<longleftrightarrow>
     ev_attempt ev = ix_attempt_id e \<and> ev_command ev = ix_command e \<and> ev_sequence ev = n \<and>
     ev_pid ev = ix_pid e \<and> ev_status ev = status \<and> ev_reason ev = reason \<and>
     ev_contract_status ev = ''PROPOSED''"

definition expected_directory :: "init_expected \<Rightarrow> string result" where
  "expected_directory e =
     and_then (ensure (valid_utf8 (ix_data_directory e)) init_invalid) (\<lambda>_.
     and_then (ensure (\<not> (ix_command e \<notin> {''init'', ''resume-init''} \<or> \<not> attempt_id (ix_attempt_id e) \<or>
                 build_info_status (ix_identity e) \<noteq> ''AVAILABLE'' \<or>
                 ix_backend e \<notin> {''rocksdb'', ''h2''} \<or> \<not> hash (ix_chain_fingerprint e) \<or>
                 \<not> node_identity (ix_node_identity e) \<or> \<not> absolute_path (ix_data_directory e)))
                 init_invalid) (\<lambda>_.
     Inr (ix_data_directory e)))"

definition validate_success ::
  "(bytes \<Rightarrow> json option) \<Rightarrow> bytes \<Rightarrow> bytes \<Rightarrow> bytes \<Rightarrow> init_expected \<Rightarrow> string result" where
  "validate_success parse stdout report instance_raw e =
     and_then (expected_directory e) (\<lambda>directory.
     and_then (ensure (ix_pid e \<noteq> 0) init_invalid) (\<lambda>_.
     and_then (init_decode parse init_output_of_json 4096 stdout) (\<lambda>out.
     and_then (init_decode parse journal_of_json 8192 instance_raw) (\<lambda>j.
     and_then (ensure (\<not> (report = [] \<or> 16384 < length report \<or> \<not> ends_with_newline report))
                 init_invalid) (\<lambda>_.
     let ls = report_lines report in
     and_then (init_decode parse (event_of_json checking_of_json) 8192 (ls ! 0)) (\<lambda>c.
     and_then (ensure (1 < length ls) init_invalid) (\<lambda>_.
     and_then (init_decode parse (event_of_json starting_of_json) 8192 (ls ! 1)) (\<lambda>s.
     and_then (ensure (2 < length ls) init_invalid) (\<lambda>_.
     and_then (init_decode parse (event_of_json initialized_of_json) 8192 (ls ! 2)) (\<lambda>i.
     let (genesis, chain, node) = ev_details i in
     and_then (ensure (\<not> (3 < length ls \<or>
         \<not> event_matches c e 1 ''CHECKING'' ''VALIDATING_CONFIGURATION'' \<or>
         \<not> event_matches s e 2 ''STARTING'' ''OPENING_MANAGED_STORAGE'' \<or>
         \<not> event_matches i e 3 ''INITIALIZED'' ''STORAGE_CLOSED'' \<or>
         ev_details c \<noteq> ix_identity e \<or> ev_details s \<noteq> ix_backend e \<or>
         chain \<noteq> ix_chain_fingerprint e \<or> node \<noteq> ix_node_identity e \<or>
         io_status out \<noteq> ''INITIALIZED'' \<or> io_attempt_id out \<noteq> ix_attempt_id e \<or>
         \<not> hash0x (io_genesis_hash out) \<or> io_genesis_hash out \<noteq> genesis \<or>
         jr_status j \<noteq> ''INITIALIZED'' \<or> jr_backend j \<noteq> ix_backend e \<or>
         jr_chain_fingerprint j \<noteq> ix_chain_fingerprint e \<or> jr_node_identity j \<noteq> ix_node_identity e \<or>
         jr_data_directory j \<noteq> directory \<or> jr_genesis_hash j \<noteq> io_genesis_hash out)) init_invalid) (\<lambda>_.
     Inr (io_genesis_hash out))))))))))))"

definition validate_resume :: "(bytes \<Rightarrow> json option) \<Rightarrow> bytes \<Rightarrow> init_expected \<Rightarrow> unit result" where
  "validate_resume parse instance_raw e =
     and_then (expected_directory e) (\<lambda>directory.
     and_then (init_decode parse journal_of_json 8192 instance_raw) (\<lambda>j.
     ensure (\<not> (ix_command e \<noteq> ''resume-init'' \<or> jr_status j \<noteq> ''INITIALIZING'' \<or>
       jr_backend j \<noteq> ix_backend e \<or> jr_chain_fingerprint j \<noteq> ix_chain_fingerprint e \<or>
       jr_node_identity j \<noteq> ix_node_identity e \<or> jr_data_directory j \<noteq> directory \<or>
       jr_genesis_hash j \<noteq> [])) init_invalid))"

section \<open>From an initialisation to a run\<close>

text \<open>What a later run of the initialised directory expects.\<close>

definition run_scope :: "init_expected \<Rightarrow> string \<Rightarrow> string \<Rightarrow> nat \<Rightarrow> expected" where
  "run_scope e genesis attempt pid =
     \<lparr>ex_attempt_id = attempt, ex_pid = pid, ex_identity = ix_identity e, ex_backend = ix_backend e,
      ex_chain_fingerprint = ix_chain_fingerprint e, ex_node_identity = ix_node_identity e,
      ex_data_directory = ix_data_directory e, ex_genesis_hash = genesis\<rparr>"

lemma expected_directory_Inr:
  "expected_directory e = Inr d \<longleftrightarrow> d = ix_data_directory e \<and> valid_utf8 d \<and> absolute_path d \<and>
     ix_command e \<in> {''init'', ''resume-init''} \<and> attempt_id (ix_attempt_id e) \<and>
     build_info_status (ix_identity e) = ''AVAILABLE'' \<and> ix_backend e \<in> {''rocksdb'', ''h2''} \<and>
     hash (ix_chain_fingerprint e) \<and> node_identity (ix_node_identity e)"
  by (auto simp: expected_directory_def)

lemma init_decode_Inr:
  "init_decode parse typed n raw = Inr x \<longleftrightarrow> raw \<noteq> [] \<and> length raw \<le> n \<and> engine_decode parse typed raw = Some x"
  by (auto simp: init_decode_def not_less)

lemma validate_success_Inr:
  assumes "validate_success parse stdout report inst e = Inr g"
  shows "expected_directory e = Inr (ix_data_directory e)" "hash0x g"
    "\<exists>j. inst \<noteq> [] \<and> length inst \<le> 8192 \<and> engine_decode parse journal_of_json inst = Some j \<and>
       jr_status j = ''INITIALIZED'' \<and> jr_backend j = ix_backend e \<and>
       jr_chain_fingerprint j = ix_chain_fingerprint e \<and> jr_node_identity j = ix_node_identity e \<and>
       jr_data_directory j = ix_data_directory e \<and> jr_genesis_hash j = g"
  using assms unfolding validate_success_def Let_def
  by (auto simp: init_decode_Inr expected_directory_Inr split_beta)

text \<open>C10. The hand-over from initialisation to operation: when an initialisation is accepted with
  genesis hash \<open>g\<close>, the very journal it left is the initialised journal of any later run of that
  directory with genesis \<open>g\<close>, and of no other genesis hash; and that journal is never taken for
  the pending one that an explicit resume needs.\<close>

theorem init_hands_over_to_run:
  assumes "validate_success parse stdout report inst e = Inr g"
  shows "(validate_initialized parse inst (run_scope e g' attempt pid) = Inr () \<longleftrightarrow> g' = g) \<and>
    validate_resume parse inst e' \<noteq> Inr ()"
proof -
  note v = validate_success_Inr [OF assms]
  then obtain j where j: "inst \<noteq> []" "length inst \<le> 8192" "engine_decode parse journal_of_json inst = Some j"
    "jr_status j = ''INITIALIZED''" "jr_backend j = ix_backend e"
    "jr_chain_fingerprint j = ix_chain_fingerprint e" "jr_node_identity j = ix_node_identity e"
    "jr_data_directory j = ix_data_directory e" "jr_genesis_hash j = g" by blast
  have "scope (run_scope e g attempt pid) = Inr ()"
    using v(1,2) by (auto simp: scope_def run_scope_def expected_directory_Inr)
  then have "validate_initialized parse inst (run_scope e g' attempt pid) = Inr () \<longleftrightarrow> g' = g"
    using j by (auto simp: validate_initialized_def run_scope_def not_less)
  moreover have "validate_resume parse inst e' \<noteq> Inr ()"
    using j by (auto simp: validate_resume_def init_decode_Inr)
  ultimately show ?thesis ..
qed

text \<open>A concrete initialisation, with the build and the journal of the sample run.\<close>

definition init_row :: "int \<Rightarrow> string \<Rightarrow> string \<Rightarrow> (string \<times> json) list \<Rightarrow> json" where
  "init_row n status reason details =
     JObj [(''attemptId'', JStr ''init-1''), (''command'', JStr ''init''), (''sequence'', JInt n), (''pid'', JInt 7),
       (''observedAt'', JInt 0), (''status'', JStr status), (''reason'', JStr reason),
       (''contractStatus'', JStr ''PROPOSED''), (''details'', JObj details)]"

definition init_parse :: "bytes \<Rightarrow> json option" where
  "init_parse = map_of (
     [(''o'', JObj [(''status'', JStr ''INITIALIZED''), (''genesisHash'', JStr (''0x'' @ run_hash)),
         (''attemptId'', JStr ''init-1'')]),
      (''1'', init_row 1 ''CHECKING'' ''VALIDATING_CONFIGURATION'' [(''build'', run_build)]),
      (''2'', init_row 2 ''STARTING'' ''OPENING_MANAGED_STORAGE'' [(''backend'', JStr ''rocksdb'')]),
      (''3'', init_row 3 ''INITIALIZED'' ''STORAGE_CLOSED''
         [(''genesisHash'', JStr (''0x'' @ run_hash)), (''chainFingerprint'', JStr run_hash),
          (''nodeIdentity'', JStr ''INSTANT'')])] @ run_rows_json)"

definition init_sample :: init_expected where
  "init_sample = \<lparr>ix_command = ''init'', ix_attempt_id = ''init-1'', ix_pid = 7,
     ix_identity = the (identity_of_json run_build), ix_backend = ''rocksdb'',
     ix_chain_fingerprint = run_hash, ix_node_identity = ''INSTANT'', ix_data_directory = ''/d''\<rparr>"

lemma init_accepted:
  "validate_success init_parse ''o'' (concat (map (\<lambda>l. l @ [newline]) [''1'', ''2'', ''3''])) ''j'' init_sample =
     Inr (''0x'' @ run_hash)"
  by code_simp

theorem init_hands_over_to_run_witness:
  "validate_initialized init_parse ''j'' (run_scope init_sample (''0x'' @ run_hash) ''run-1'' 7) = Inr () \<and>
   validate_resume init_parse ''j'' init_sample \<noteq> Inr ()"
  using init_hands_over_to_run [OF init_accepted] by blast

end
