(* ===== verification/SetupPaths.thy ===== *)
theory SetupPaths
  imports Text
begin

text \<open>
  Paths of the setup component: the lexical normalization \<open>absolute\<close> (\<open>src/src/setup/mod.rs\<close>) and
  the guards \<open>overlaps\<close> and \<open>same\<close> that keep outputs, inputs and data apart
  (\<open>src/src/setup/paths.rs\<close>). A file system is given by what \<open>symlink_metadata\<close> answers for the
  path below the root with these names. \<open>equivalent_name\<close> (the Unicode folding of macOS, a
  third-party library) is the parameter \<open>eqv\<close>.
\<close>

section \<open>Components\<close>

text \<open>\<open>std::path::Component\<close> on Unix; repeated slashes and inner dots do not show.\<close>

datatype component = RootDir | CurDir | ParentDir | Normal string

abbreviation path_slash :: char where "path_slash \<equiv> CHR ''/''"

fun inner_components :: "string list \<Rightarrow> component list" where
  "inner_components [] = []"
| "inner_components (p # ps) =
     (if p = [] \<or> p = ''.'' then inner_components ps
      else (if p = ''..'' then ParentDir else Normal p) # inner_components ps)"

definition components :: "string \<Rightarrow> component list" where
  "components s =
     (if prefix ''/'' s then RootDir # inner_components (split_on path_slash s)
      else if hd (split_on path_slash s) = ''.'' then CurDir # inner_components (split_on path_slash s)
      else inner_components (split_on path_slash s))"

definition is_absolute :: "string \<Rightarrow> bool" where
  "is_absolute s \<longleftrightarrow> prefix ''/'' s"

text \<open>An absolute path without dots is the list of names below the root.\<close>

type_synonym names = "string list"

definition path_text :: "names \<Rightarrow> string" where
  "path_text ns = ''/'' @ join_with path_slash ns"

text \<open>\<open>push\<close> and \<open>pop\<close> of one component on an absolute buffer; \<open>pop\<close> stops at the root.\<close>

fun push_component :: "names \<Rightarrow> component \<Rightarrow> names" where
  "push_component ns ParentDir = butlast ns"
| "push_component ns CurDir = ns"
| "push_component ns RootDir = []"
| "push_component ns (Normal n) = ns @ [n]"

definition clean :: "component list \<Rightarrow> names" where
  "clean cs = foldl push_component [] cs"

text \<open>\<open>cwd\<close> is what \<open>current_dir\<close> answers.\<close>

definition absolute :: "string option \<Rightarrow> string \<Rightarrow> names result" where
  "absolute cwd s =
     and_then (ensure (valid_utf8 s) ''SETUP_PATH_INVALID'') (\<lambda>_.
     and_then (ensure (\<not> (s = [] \<or> 4096 < length s \<or> prefix ''~'' s \<or> CHR 0x5C \<in> set s \<or>
                 has_control s)) ''SETUP_PATH_INVALID'') (\<lambda>_.
     if is_absolute s then Inr (clean (components s))
     else and_then (ok_or cwd ''SETUP_PATH_INVALID'') (\<lambda>base.
          Inr (clean (components base @ components s)))))"

text \<open>A name a component can hold.\<close>

definition name_ok :: "string \<Rightarrow> bool" where
  "name_ok n \<longleftrightarrow> n \<noteq> [] \<and> n \<noteq> ''.'' \<and> n \<noteq> ''..'' \<and> path_slash \<notin> set n"

lemma inner_components_names:
  "\<forall>p\<in>set ps. path_slash \<notin> set p \<Longrightarrow> Normal n \<in> set (inner_components ps) \<Longrightarrow> name_ok n"
  by (induction ps) (auto simp: name_ok_def split: if_splits)

lemma components_names: "Normal n \<in> set (components s) \<Longrightarrow> name_ok n"
  using inner_components_names [of "split_on path_slash s" n] split_on_pieces [of _ path_slash s]
  by (auto simp: components_def split: if_splits)

lemma push_names:
  "(\<And>n. Normal n \<in> set cs \<Longrightarrow> name_ok n) \<Longrightarrow> list_all name_ok ns \<Longrightarrow>
     list_all name_ok (foldl push_component ns cs)"
proof (induction cs arbitrary: ns)
  case (Cons c cs)
  have "list_all name_ok (push_component ns c)"
    using Cons.prems by (cases c) (auto simp: list_all_iff dest: in_set_butlastD)
  then show ?case using Cons by simp
qed simp

lemma clean_names: "(\<And>n. Normal n \<in> set cs \<Longrightarrow> name_ok n) \<Longrightarrow> list_all name_ok (clean cs)"
  unfolding clean_def by (rule push_names) simp_all

lemma absolute_names: "absolute cwd s = Inr ns \<Longrightarrow> list_all name_ok ns"
  by (auto simp: absolute_def intro!: clean_names dest: components_names split: if_splits)

lemma inner_components_Normal: "list_all name_ok ns \<Longrightarrow> inner_components ns = map Normal ns"
  by (induction ns) (auto simp: name_ok_def)

lemma components_path_text:
  assumes "list_all name_ok ns"
  shows "components (path_text ns) = RootDir # map Normal ns"
proof -
  have "split_on path_slash (path_text ns) = [] # split_on path_slash (join_with path_slash ns)"
    by (simp add: path_text_def)
  moreover have "inner_components (split_on path_slash (join_with path_slash ns)) = map Normal ns"
  proof (cases "ns = []")
    case False
    then show ?thesis
      using assms split_on_join [of ns path_slash] inner_components_Normal [of ns]
      by (auto simp: list_all_iff name_ok_def)
  qed simp
  ultimately show ?thesis by (simp add: components_def path_text_def)
qed

lemma foldl_push_Normal: "foldl push_component ns (map Normal ms) = ns @ ms"
  by (induction ms arbitrary: ns) auto

lemma clean_path_text: "list_all name_ok ns \<Longrightarrow> clean (components (path_text ns)) = ns"
  by (simp add: components_path_text clean_def foldl_push_Normal)

section \<open>Observation\<close>

type_synonym node_id = "nat \<times> nat"

text \<open>A link or special file, or an answer other than "not found", is an error.\<close>

datatype fs_answer = Missing | Unavailable | Special | Directory node_id | Regular node_id

type_synonym fs = "names \<Rightarrow> fs_answer"

definition inspect :: "fs \<Rightarrow> names \<Rightarrow> (bool \<times> node_id) option result" where
  "inspect f ns =
     (case f ns of
        Missing \<Rightarrow> Inr None
      | Unavailable \<Rightarrow> fail ''SETUP_PATH_UNAVAILABLE''
      | Special \<Rightarrow> fail ''SETUP_PATH_INVALID''
      | Directory i \<Rightarrow> Inr (Some (True, i))
      | Regular i \<Rightarrow> Inr (Some (False, i)))"

record observed =
  ob_names :: names
  ob_ids :: "node_id list"

text \<open>
  The loop over the names: below the first missing one nothing is inspected; only the last name
  may be a regular file. \<open>upper\<close> are the names already pushed.
\<close>

fun observe_below :: "fs \<Rightarrow> names \<Rightarrow> names \<Rightarrow> node_id list result" where
  "observe_below f upper [] = Inr []"
| "observe_below f upper (n # ns) =
     and_then (inspect f (upper @ [n])) (\<lambda>m.
     case m of
       None \<Rightarrow> Inr []
     | Some (is_dir, i) \<Rightarrow>
         and_then (ensure (\<not> (\<not> is_dir \<and> ns \<noteq> [])) ''SETUP_PATH_INVALID'') (\<lambda>_.
         and_then (observe_below f (upper @ [n]) ns) (\<lambda>is. Inr (i # is))))"

definition plain_names :: "component list \<Rightarrow> names option" where
  "plain_names cs =
     (if list_ex (\<lambda>c. c = ParentDir \<or> c = CurDir) cs then None
      else Some (List.map_filter (\<lambda>c. case c of Normal n \<Rightarrow> Some n | _ \<Rightarrow> None) cs))"

definition observe :: "(string \<Rightarrow> string) \<Rightarrow> fs \<Rightarrow> string \<Rightarrow> observed result" where
  "observe eqv f s =
     and_then (ensure (valid_utf8 s) ''SETUP_PATH_INVALID'') (\<lambda>_.
     and_then (ensure (is_absolute s \<and> length s \<le> 4096 \<and> \<not> has_control s) ''SETUP_PATH_INVALID'') (\<lambda>_.
     and_then (ok_or (plain_names (components s)) ''SETUP_PATH_INVALID'') (\<lambda>ns.
     and_then (inspect f []) (\<lambda>root.
     and_then (ok_or root ''SETUP_PATH_UNAVAILABLE'') (\<lambda>(is_dir, i).
     and_then (ensure is_dir ''SETUP_PATH_INVALID'') (\<lambda>_.
     and_then (observe_below f [] ns) (\<lambda>is.
     Inr \<lparr>ob_names = map eqv ns, ob_ids = i # is\<rparr>)))))))"

section \<open>The guards\<close>

text \<open>Common inodes anchor the comparison of the names below them.\<close>

definition compare_observed :: "(names \<Rightarrow> names \<Rightarrow> bool) \<Rightarrow> observed \<Rightarrow> observed \<Rightarrow> bool" where
  "compare_observed m a b \<longleftrightarrow>
     list_ex (\<lambda>i. list_ex (\<lambda>j. ob_ids a ! i = ob_ids b ! j \<and> m (drop i (ob_names a)) (drop j (ob_names b)))
       [0..<length (ob_ids b)]) (rev [0..<length (ob_ids a)])"

definition compare_paths ::
  "(names \<Rightarrow> names \<Rightarrow> bool) \<Rightarrow> (string \<Rightarrow> string) \<Rightarrow> fs \<Rightarrow> string \<Rightarrow> string \<Rightarrow> bool result" where
  "compare_paths m eqv f a b =
     and_then (observe eqv f a) (\<lambda>oa.
     and_then (observe eqv f b) (\<lambda>ob. Inr (compare_observed m oa ob)))"

definition overlaps :: "(string \<Rightarrow> string) \<Rightarrow> fs \<Rightarrow> string \<Rightarrow> string \<Rightarrow> bool result" where
  "overlaps = compare_paths (\<lambda>a b. prefix b a \<or> prefix a b)"

definition same_path :: "(string \<Rightarrow> string) \<Rightarrow> fs \<Rightarrow> string \<Rightarrow> string \<Rightarrow> bool result" where
  "same_path = compare_paths (=)"

lemma compare_observed_iff:
  "compare_observed m a b \<longleftrightarrow> (\<exists>i<length (ob_ids a). \<exists>j<length (ob_ids b).
     ob_ids a ! i = ob_ids b ! j \<and> m (drop i (ob_names a)) (drop j (ob_names b)))"
  by (auto simp: compare_observed_def list_ex_iff Bex_def)


lemma compare_observed_sym:
  assumes "\<And>x y. m x y \<longleftrightarrow> m y x"
  shows "compare_observed m a b \<longleftrightarrow> compare_observed m b a"
  unfolding compare_observed_iff using assms by metis

lemma observe_below_length: "observe_below f upper ns = Inr is \<Longrightarrow> length is \<le> length ns"
  by (induction ns arbitrary: upper "is") (auto split: option.splits)

lemma observe_below_nth:
  "observe_below f upper ns = Inr is \<Longrightarrow> j < length is \<Longrightarrow>
     \<exists>d. inspect f (upper @ take (Suc j) ns) = Inr (Some (d, is ! j))"
proof (induction ns arbitrary: upper "is" j)
  case (Cons n ns)
  then obtain d i rest where "inspect f (upper @ [n]) = Inr (Some (d, i))"
    "observe_below f (upper @ [n]) ns = Inr rest" "is = i # rest"
    by (auto split: option.splits)
  then show ?case using Cons.prems(2) Cons.IH [of "upper @ [n]" rest "j - 1"] by (cases j) auto
qed simp

lemma observe_Inr:
  assumes "observe eqv f s = Inr a"
  shows "\<exists>ns i is. plain_names (components s) = Some ns \<and> inspect f [] = Inr (Some (True, i)) \<and>
    observe_below f [] ns = Inr is \<and> a = \<lparr>ob_names = map eqv ns, ob_ids = i # is\<rparr>"
  using assms by (auto simp: observe_def)

lemma observed_node:
  assumes "observe eqv f s = Inr a" "plain_names (components s) = Some ns" "j < length (ob_ids a)"
  shows "\<exists>d. inspect f (take j ns) = Inr (Some (d, ob_ids a ! j))"
proof -
  from observe_Inr [OF assms(1)] assms(2) obtain i "is" where
    "inspect f [] = Inr (Some (True, i))" "observe_below f [] ns = Inr is" "ob_ids a = i # is" by auto
  then show ?thesis using assms(3) observe_below_nth [of f "[]" ns "is" "j - 1"] by (cases j) auto
qed

text \<open>The whole path exists: its own inode is the last one seen.\<close>

definition own_node :: "observed \<Rightarrow> node_id option" where
  "own_node a = (if length (ob_ids a) = Suc (length (ob_names a)) then Some (last (ob_ids a)) else None)"

lemma observe_shape:
  "observe eqv f s = Inr a \<Longrightarrow> ob_ids a \<noteq> [] \<and> length (ob_ids a) \<le> Suc (length (ob_names a))"
  by (auto dest!: observe_Inr dest: observe_below_length)

text \<open>A path below an existing one meets its inode with nothing left below.\<close>

lemma overlap_by_node:
  assumes "own_node b = Some x" "x \<in> set (ob_ids a)"
  shows "compare_observed (\<lambda>a b. prefix b a \<or> prefix a b) a b"
proof -
  from assms(2) obtain i where "i < length (ob_ids a)" "ob_ids a ! i = x" by (auto simp: in_set_conv_nth)
  moreover from assms(1) have l: "length (ob_ids b) = Suc (length (ob_names b))" "x = last (ob_ids b)"
    by (simp_all add: own_node_def split: if_splits)
  then have "ob_ids b \<noteq> []" by auto
  with l have "length (ob_names b) < length (ob_ids b)" "ob_ids b ! length (ob_names b) = x"
    by (simp_all add: last_conv_nth)
  ultimately show ?thesis unfolding compare_observed_iff by fastforce
qed

lemma overlap_by_name:
  assumes "ob_ids a \<noteq> []" "ob_ids b \<noteq> []" "hd (ob_ids a) = hd (ob_ids b)"
    and "prefix (ob_names b) (ob_names a) \<or> prefix (ob_names a) (ob_names b)"
  shows "compare_observed (\<lambda>a b. prefix b a \<or> prefix a b) a b"
  unfolding compare_observed_iff using assms by (intro exI [of _ 0]) (auto simp: hd_conv_nth)

lemma overlaps_Inr:
  "overlaps eqv f a b = Inr r \<longleftrightarrow> (\<exists>oa ob. observe eqv f a = Inr oa \<and> observe eqv f b = Inr ob \<and>
     r = compare_observed (\<lambda>a b. prefix b a \<or> prefix a b) oa ob)"
  by (auto simp: overlaps_def compare_paths_def)

lemma overlaps_commute: "overlaps eqv f a b = Inr r \<longleftrightarrow> overlaps eqv f b a = Inr r"
proof -
  have c: "compare_observed (\<lambda>a b. prefix b a \<or> prefix a b) oa ob =
      compare_observed (\<lambda>a b. prefix b a \<or> prefix a b) ob oa" for oa ob
    by (rule compare_observed_sym) (rule disj_commute)
  show ?thesis
    by (cases "observe eqv f a"; cases "observe eqv f b") (simp_all add: overlaps_Inr c)
qed

lemma observe_root: "observe eqv f a = Inr oa \<Longrightarrow> observe eqv f b = Inr ob \<Longrightarrow> hd (ob_ids oa) = hd (ob_ids ob)"
  by (auto dest!: observe_Inr)

section \<open>Properties\<close>

text \<open>C18. Two paths the guard lets pass as separate, in either order of the arguments, are apart by
  name (neither is a prefix of the other, also after Unicode folding) and by inode: neither path,
  if it exists, is the other path or one of the directories on the way to it, under whatever
  name.\<close>

theorem separate_paths:
  assumes "overlaps eqv f a b = Inr False"
    and "observe eqv f a = Inr oa" "observe eqv f b = Inr ob"
  shows "overlaps eqv f b a = Inr False \<and>
    \<not> prefix (ob_names oa) (ob_names ob) \<and> \<not> prefix (ob_names ob) (ob_names oa) \<and>
    (\<forall>x. own_node oa = Some x \<longrightarrow> x \<notin> set (ob_ids ob)) \<and> (\<forall>x. own_node ob = Some x \<longrightarrow> x \<notin> set (ob_ids oa))"
proof -
  have ab: "\<not> compare_observed (\<lambda>a b. prefix b a \<or> prefix a b) oa ob"
    using assms by (simp add: overlaps_Inr)
  have ba: "overlaps eqv f b a = Inr False" using assms(1) overlaps_commute by blast
  then have ba': "\<not> compare_observed (\<lambda>a b. prefix b a \<or> prefix a b) ob oa"
    using assms by (simp add: overlaps_Inr)
  have "\<not> prefix (ob_names oa) (ob_names ob)" "\<not> prefix (ob_names ob) (ob_names oa)"
    using overlap_by_name [of oa ob] ab observe_shape [OF assms(2)] observe_shape [OF assms(3)]
      observe_root [OF assms(2,3)] by blast+
  moreover have "own_node oa = Some x \<longrightarrow> x \<notin> set (ob_ids ob)" "own_node ob = Some x \<longrightarrow> x \<notin> set (ob_ids oa)" for x
    using ab ba' overlap_by_node by blast+
  ultimately show ?thesis using ba by blast
qed

definition sample_fs :: fs where
  "sample_fs ns = (if ns = [] then Directory (1, 2) else if ns = [''srv''] then Directory (1, 3) else Missing)"

theorem separate_paths_witness:
  "overlaps id sample_fs ''/srv/data'' ''/srv/node'' = Inr False \<and>
   overlaps id sample_fs ''/srv/node'' ''/srv/data'' = Inr False"
proof -
  have a: "overlaps id sample_fs ''/srv/data'' ''/srv/node'' = Inr False" by code_simp
  then obtain oa ob where "observe id sample_fs ''/srv/data'' = Inr oa" "observe id sample_fs ''/srv/node'' = Inr ob"
    by (auto simp: overlaps_Inr)
  from separate_paths [OF a this] a show ?thesis by blast
qed

text \<open>Whatever the working directory, normalization gives a list of plain names (no empty
  name, no dots, no slash), so \<open>..\<close> never climbs above the root, and normalizing the text of the
  result again gives the same path.\<close>

theorem absolute_normal:
  assumes "absolute cwd s = Inr ns"
  shows "list_all name_ok ns \<and> components (path_text ns) = RootDir # map Normal ns \<and>
    clean (components (path_text ns)) = ns"
  by (intro conjI components_path_text clean_path_text absolute_names [OF assms])

theorem absolute_normal_witness:
  "absolute (Some ''/home/op'') ''../../../x/./y//z'' = Inr [''x'', ''y'', ''z''] \<and>
   components (path_text [''x'', ''y'', ''z'']) = [RootDir, Normal ''x'', Normal ''y'', Normal ''z'']"
proof -
  have "absolute (Some ''/home/op'') ''../../../x/./y//z'' = Inr [''x'', ''y'', ''z'']" by code_simp
  with absolute_normal [OF this] show ?thesis by simp
qed

end
