(* ===== verification/Acts.thy ===== *)
theory Acts
  imports Prelude
begin

text \<open>
  Operations on a state that a method also changes when it returns an error: the journaled parts of
  the program (the install workflow, a registered instance) are written in them.
\<close>

type_synonym ('s, 'a) acts = "'s \<Rightarrow> 'a result \<times> 's"

definition ret :: "'a result \<Rightarrow> ('s, 'a) acts" where
  "ret r s = (r, s)"

definition act_then :: "('s, 'a) acts \<Rightarrow> ('a \<Rightarrow> ('s, 'b) acts) \<Rightarrow> ('s, 'b) acts" where
  "act_then m f s = (case m s of (Inl e, s') \<Rightarrow> (Inl e, s') | (Inr x, s') \<Rightarrow> f x s')"

definition with_state :: "('s \<Rightarrow> ('s, 'a) acts) \<Rightarrow> ('s, 'a) acts" where
  "with_state f s = f s s"

definition modify :: "('s \<Rightarrow> 's) \<Rightarrow> ('s, unit) acts" where
  "modify g s = (Inr (), g s)"

text \<open>\<open>match\<close> on the outcome of an operation.\<close>

definition outcome :: "('s, 'a) acts \<Rightarrow> ('s, 'a result) acts" where
  "outcome m s = (case m s of (r, s') \<Rightarrow> (Inr r, s'))"

lemma act_then_Inr:
  "fst (act_then m f s) = Inr y \<longleftrightarrow> (\<exists>x. fst (m s) = Inr x \<and> fst (f x (snd (m s))) = Inr y)"
  by (auto simp: act_then_def split: prod.splits sum.splits)

section \<open>What an operation leaves alone\<close>

text \<open>The part \<open>f\<close> of the state is as before, on success and on error.\<close>

definition keeps :: "('s \<Rightarrow> 'k) \<Rightarrow> ('s, 'a) acts \<Rightarrow> bool" where
  "keeps f m \<longleftrightarrow> (\<forall>s. f (snd (m s)) = f s)"

named_theorems keeps_intro "operations that leave a part of the state alone"

lemma keeps_ret [keeps_intro]: "keeps f (ret r)"
  by (simp add: keeps_def ret_def)

lemma keeps_then [keeps_intro]: "keeps f m \<Longrightarrow> (\<And>x. keeps f (g x)) \<Longrightarrow> keeps f (act_then m g)"
  by (auto simp: keeps_def act_then_def split: prod.splits sum.splits) (metis snd_conv)+

lemma keeps_with_state [keeps_intro]: "(\<And>s. keeps f (g s)) \<Longrightarrow> keeps f (with_state g)"
  by (simp add: keeps_def with_state_def)

lemma keeps_outcome [keeps_intro]: "keeps f m \<Longrightarrow> keeps f (outcome m)"
  by (auto simp: keeps_def outcome_def split: prod.splits) (metis snd_conv)

lemma keeps_modify: "(\<And>s. f (g s) = f s) \<Longrightarrow> keeps f (modify g)"
  by (simp add: keeps_def modify_def)

lemma keeps_if [keeps_intro]: "keeps f m \<Longrightarrow> keeps f n \<Longrightarrow> keeps f (if b then m else n)"
  by simp

lemma keeps_option [keeps_intro]:
  "keeps f m \<Longrightarrow> (\<And>x. keeps f (g x)) \<Longrightarrow> keeps f (case o' of None \<Rightarrow> m | Some x \<Rightarrow> g x)"
  by (cases o') auto

lemma keeps_pair [keeps_intro]: "(\<And>a b. keeps f (g a b)) \<Longrightarrow> keeps f (case p of (a, b) \<Rightarrow> g a b)"
  by (cases p) auto

section \<open>Triples\<close>

text \<open>
  From a state with \<open>P\<close> an operation advances along \<open>adv\<close>, and \<open>Q\<close> holds after a success, \<open>R\<close>
  after an error.
\<close>

definition triple :: "('s \<Rightarrow> 's \<Rightarrow> bool) \<Rightarrow> ('s \<Rightarrow> bool) \<Rightarrow> ('s, 'a) acts \<Rightarrow> ('a \<Rightarrow> 's \<Rightarrow> bool) \<Rightarrow> ('s \<Rightarrow> bool) \<Rightarrow> bool" where
  "triple adv P m Q R \<longleftrightarrow> (\<forall>s. P s \<longrightarrow> adv s (snd (m s)) \<and>
     (case fst (m s) of Inl e \<Rightarrow> R (snd (m s)) | Inr x \<Rightarrow> Q x (snd (m s))))"

lemma tripleI:
  assumes "\<And>s r s'. P s \<Longrightarrow> m s = (r, s') \<Longrightarrow> adv s s' \<and> (case r of Inl e \<Rightarrow> R s' | Inr x \<Rightarrow> Q x s')"
  shows "triple adv P m Q R"
  unfolding triple_def using assms by (metis prod.collapse)

lemma tripleD:
  "triple adv P m Q R \<Longrightarrow> P s \<Longrightarrow> m s = (r, s') \<Longrightarrow>
     adv s s' \<and> (case r of Inl e \<Rightarrow> R s' | Inr x \<Rightarrow> Q x s')"
  unfolding triple_def by (metis fst_conv snd_conv)

lemma triple_conseq:
  assumes "triple adv P m Q R" "\<And>s. P' s \<Longrightarrow> P s" "\<And>x s. Q x s \<Longrightarrow> Q' x s" "\<And>s. R s \<Longrightarrow> R' s"
  shows "triple adv P' m Q' R'"
  using assms unfolding triple_def by (metis (mono_tags, lifting) sum.case_eq_if)

lemma triple_with_state:
  "(\<And>s. triple adv (\<lambda>s'. P s' \<and> s' = s) (f s) Q R) \<Longrightarrow> triple adv P (with_state f) Q R"
  unfolding triple_def with_state_def by blast

lemma triple_outcome:
  assumes "triple adv P m Q R"
  shows "triple adv P (outcome m) (\<lambda>r. case r of Inl e \<Rightarrow> R | Inr x \<Rightarrow> Q x) R'"
proof (rule tripleI)
  fix s r s' assume s: "P s" "outcome m s = (r, s')"
  obtain r1 where m: "m s = (r1, s')" "r = Inr r1" using s(2) by (auto simp: outcome_def split: prod.splits)
  from tripleD [OF assms s(1) m(1)] m(2)
  show "adv s s' \<and> (case r of Inl e \<Rightarrow> R' s' | Inr x \<Rightarrow> (case x of Inl e \<Rightarrow> R | Inr y \<Rightarrow> Q y) s')"
    by (auto split: sum.splits)
qed

text \<open>The rules that need the steps to compose.\<close>

locale advancing =
  fixes adv :: "'s \<Rightarrow> 's \<Rightarrow> bool"
    and view :: "'s \<Rightarrow> 'k"
  assumes adv_same: "view s' = view s \<Longrightarrow> adv s s'"
    and adv_trans: "adv s s' \<Longrightarrow> adv s' s'' \<Longrightarrow> adv s s''"
begin

lemma then_rule:
  assumes "triple adv P m M R" "\<And>x. triple adv (M x) (f x) Q R"
  shows "triple adv P (act_then m f) Q R"
proof (rule tripleI)
  fix s r s' assume s: "P s" "act_then m f s = (r, s')"
  obtain r1 s1 where m: "m s = (r1, s1)" by (cases "m s")
  note 1 = tripleD [OF assms(1) s(1) m]
  show "adv s s' \<and> (case r of Inl e \<Rightarrow> R s' | Inr x \<Rightarrow> Q x s')"
  proof (cases r1)
    case (Inl e)
    with s(2) m 1 show ?thesis by (auto simp: act_then_def)
  next
    case (Inr x)
    then have "f x s1 = (r, s')" using s(2) m by (simp add: act_then_def)
    with tripleD [OF assms(2) _ this] 1 Inr show ?thesis using adv_trans [of s s1 s'] by simp
  qed
qed

lemma keeps_rule:
  assumes "keeps view m" "\<And>s s'. view s' = view s \<Longrightarrow> P s \<Longrightarrow> P s'"
  shows "triple adv P m (\<lambda>_. P) P"
  using assms adv_same unfolding triple_def keeps_def by (metis (no_types, lifting) sum.case_eq_if)

text \<open>An operation that changes nothing in view may still tell something of the state.\<close>

lemma fact_rule:
  assumes "keeps view m" "\<And>s s'. view s' = view s \<Longrightarrow> P s \<Longrightarrow> P s'"
    "\<And>s x. P s \<Longrightarrow> fst (m s) = Inr x \<Longrightarrow> F x (snd (m s))"
  shows "triple adv P m (\<lambda>x s. P s \<and> F x s) P"
  using assms adv_same unfolding triple_def keeps_def by (auto split: sum.splits)

end

end
