(* ===== verification/Workflow.thy ===== *)
theory Workflow
  imports SetupPaths Verify Engine Acts
begin

text \<open>
  The install workflow (\<open>src/src/setup/workflow.rs\<close>): the journal of an installation, its checks,
  and the operations that move it: preparing a plan, applying it (product file, installation,
  registration), reconciling after an interruption, initializing, starting, waiting.

  An operation is a function on the state of \<open>Workflow\<close> that also returns on an error, because
  a method that fails keeps what it has already changed. The state carries the durable journal,
  a log of the durable saves and of the calls with outside effects, and a clock: everything the
  outside answers (file system, package verification, engine adapter, storage) is a function of
  the clock, so that two questions may get different answers.
\<close>

section \<open>Data\<close>

datatype stage_phase = Pending | InProgress | Confirmed | Unknown

record stage =
  stage_phase :: stage_phase
  stage_root :: "node_id option"

record wf_inputs =
  in_archive :: "string option"
  in_public_key :: "string option"
  in_unsigned :: "bool option"
  in_lock :: "string option"
  in_native :: "string option"
  in_destination :: "string option"
  in_instance :: "string option"

record pin =
  pin_path :: string
  pin_sha :: string

record prepared =
  prep_identity :: build_identity
  prep_data :: string
  prep_backend :: string
  prep_pins :: "pin list"
  prep_gc :: bool
  prep_issuers :: "nat option"

record plan =
  plan_revision :: nat
  plan_inputs :: wf_inputs
  plan_product_path :: string
  plan_product_sha :: string
  plan_archive_sha :: string
  plan_manifest_sha :: string
  plan_trust_pin :: "pin option"
  plan_prepared :: prepared

text \<open>The approved preparation a workflow may be bound to (\<open>ApplicationSource\<close>).\<close>

record app_source =
  src_preparation :: string
  src_identity :: "node_id \<times> node_id"
  src_revision :: nat
  src_review_sha :: string
  src_binding_sha :: string
  src_product :: string
  src_native :: string
  src_product_sha :: string
  src_native_sha :: string
  src_archive_sha :: string
  src_manifest_sha :: string
  src_data :: string
  src_inputs :: wf_inputs

record wjournal =
  j_schema :: nat
  j_kind :: string
  j_operation :: string
  j_origin :: "app_source option"
  j_base :: string
  j_inputs :: wf_inputs
  j_revision :: nat
  j_plan :: "plan option"
  j_plan_sha :: "string option"
  j_generated :: stage_phase
  j_installation :: stage
  j_registration :: stage
  j_initialization :: stage_phase
  j_start :: stage_phase

record observation =
  obs_initialization :: string
  obs_service :: string
  obs_engine :: string
  obs_readiness :: string
  obs_reason :: string
  obs_last_reason :: "string option"
  obs_stage :: "string option"
  obs_failure :: "string option"
  obs_attempt :: "string option"

datatype wf_event =
    Saved wjournal
  | Wrote_Product
  | Called_Install
  | Called_Register
  | Called_Initialize bool
  | Called_Start

record wf =
  wf_j :: wjournal
  wf_obs :: observation
  wf_clock :: nat
  wf_disk :: wjournal
  wf_log :: "wf_event list"

text \<open>What the instance adapter and the service adapter report.\<close>

record instance_summary =
  sum_initialization :: string
  sum_busy :: "bool option"

record service_summary =
  svc_state :: string
  svc_engine :: string
  svc_readiness :: string
  svc_reason :: string
  svc_last_reason :: "string option"
  svc_stage :: "string option"
  svc_failure :: "string option"
  svc_busy :: bool
  svc_attempt :: "string option"

text \<open>
  The outside. \<open>w_save\<close> says whether the journal became durable and what the storage returned;
  \<open>w_install\<close> and \<open>w_register\<close> say whether a root was reserved (and reported through the
  callback) and what the call returned after that.
\<close>

record world =
  w_cwd :: "string option"
  w_workspace :: string
  w_generated :: string
  w_eqv :: "string \<Rightarrow> string"
  w_sha :: "bytes \<Rightarrow> string"
  w_plan_digest :: "plan \<Rightarrow> string option"
  w_binding_digest :: "prepared \<times> pin option \<Rightarrow> string option"
  w_origin_valid :: "app_source \<Rightarrow> unit result"
  w_fs :: "nat \<Rightarrow> fs"
  w_validate_answer :: "nat \<Rightarrow> string \<Rightarrow> string \<Rightarrow> unit result"
  w_answer_matches :: "nat \<Rightarrow> string \<Rightarrow> string \<Rightarrow> bool"
  w_draft_set :: "nat \<Rightarrow> string \<Rightarrow> string \<Rightarrow> unit result"
  w_parent_dir :: "nat \<Rightarrow> string \<Rightarrow> bool"
  w_recheck :: "nat \<Rightarrow> unit result"
  w_capacity :: "nat \<Rightarrow> nat \<Rightarrow> unit result"
  w_save :: "nat \<Rightarrow> bool \<times> unit result"
  w_guard :: "nat \<Rightarrow> unit result"
  w_origin_recheck :: "nat \<Rightarrow> bool \<Rightarrow> unit result"
  w_config :: "nat \<Rightarrow> bytes result"
  w_preflight :: "nat \<Rightarrow> string result"
  w_verify :: "nat \<Rightarrow> report result"
  w_check_cli :: "nat \<Rightarrow> report \<Rightarrow> unit result"
  w_prepare :: "nat \<Rightarrow> prepared result"
  w_pin :: "nat \<Rightarrow> string \<Rightarrow> pin result"
  w_recheck_pins :: "nat \<Rightarrow> pin list \<Rightarrow> unit result"
  w_binding :: "nat \<Rightarrow> bool \<Rightarrow> (report \<times> pin list) result"
  w_verify_installed :: "nat \<Rightarrow> node_id \<Rightarrow> unit result"
  w_verify_binding :: "nat \<Rightarrow> node_id \<Rightarrow> instance_summary result"
  w_inspect :: "nat \<Rightarrow> node_id \<Rightarrow> instance_summary result"
  w_write_product :: "nat \<Rightarrow> unit result"
  w_install :: "nat \<Rightarrow> node_id option \<times> report result"
  w_register :: "nat \<Rightarrow> node_id option \<times> unit result"
  w_initialize :: "nat \<Rightarrow> bool \<Rightarrow> instance_summary result"
  w_start :: "nat \<Rightarrow> service_summary result"
  w_status :: "nat \<Rightarrow> service_summary result"
  w_wait :: "nat \<Rightarrow> string \<Rightarrow> service_summary result"

section \<open>Operations that keep the state on an error\<close>

type_synonym 'a act = "(wf, 'a) acts"

text \<open>One question to the outside, at the current time.\<close>

definition ask :: "(nat \<Rightarrow> 'a result) \<Rightarrow> 'a act" where
  "ask q s = (q (wf_clock s), s\<lparr>wf_clock := Suc (wf_clock s)\<rparr>)"

definition note_event :: "wf_event \<Rightarrow> unit act" where
  "note_event e = modify (\<lambda>s. s\<lparr>wf_log := wf_log s @ [e]\<rparr>)"

definition wf_invalid :: string where "wf_invalid = ''SETUP_WORKFLOW_INVALID''"
definition wf_changed :: string where "wf_changed = ''SETUP_PLAN_CHANGED''"
definition wf_locked :: string where "wf_locked = ''SETUP_PLAN_LOCKED''"
definition wf_unknown :: string where "wf_unknown = ''SETUP_OPERATION_UNKNOWN''"
definition wf_overlap :: string where "wf_overlap = ''SETUP_PATH_CONFLICT''"


section \<open>Checks of the journal\<close>

text \<open>Equality of \<open>PathBuf\<close>s is equality of their components.\<close>

definition same_text :: "string option \<Rightarrow> string option \<Rightarrow> bool" where
  "same_text a b \<longleftrightarrow> map_option components a = map_option components b"

definition same_inputs :: "wf_inputs \<Rightarrow> wf_inputs \<Rightarrow> bool" where
  "same_inputs a b \<longleftrightarrow> same_text (in_archive a) (in_archive b) \<and>
     same_text (in_public_key a) (in_public_key b) \<and> in_unsigned a = in_unsigned b \<and>
     same_text (in_lock a) (in_lock b) \<and> same_text (in_native a) (in_native b) \<and>
     same_text (in_destination a) (in_destination b) \<and> same_text (in_instance a) (in_instance b)"

definition req :: "'a option \<Rightarrow> 'a result" where
  "req x = ok_or x wf_invalid"

definition complete_inputs :: "wf_inputs \<Rightarrow> unit result" where
  "complete_inputs i =
     and_then (map_result req [in_archive i, in_lock i, in_native i, in_destination i, in_instance i]) (\<lambda>_.
     ensure (\<not> (in_unsigned i = None \<or> in_unsigned i = Some False \<and> in_public_key i = None \<or>
               in_unsigned i = Some True \<and> in_public_key i \<noteq> None)) wf_invalid)"

definition input_paths :: "wf_inputs \<Rightarrow> string list" where
  "input_paths i = List.map_filter id [in_archive i, in_public_key i, in_lock i, in_native i,
     in_destination i, in_instance i]"

definition supply_source :: "wf_inputs \<Rightarrow> string \<Rightarrow> bool" where
  "supply_source i p \<longleftrightarrow> list_ex (\<lambda>x. same_text x (Some p)) [in_archive i, in_public_key i, in_lock i]"

definition check_normal :: "world \<Rightarrow> string \<Rightarrow> unit result" where
  "check_normal w s =
     and_then (ensure (is_absolute s) wf_invalid) (\<lambda>_.
     and_then (absolute (w_cwd w) s) (\<lambda>ns.
     ensure (components s = RootDir # map Normal ns) wf_invalid))"

definition product_path :: "world \<Rightarrow> nat \<Rightarrow> string" where
  "product_path w r =
     (let d = show_radix 10 r in
      w_generated w @ ''/instance-'' @ replicate (4 - length d) (CHR ''0'') @ d @ ''.json'')"

definition pristine :: "wjournal \<Rightarrow> bool" where
  "pristine j \<longleftrightarrow> j_generated j = Pending \<and> stage_phase (j_installation j) = Pending \<and>
     stage_phase (j_registration j) = Pending \<and> j_initialization j = Pending \<and> j_start j = Pending"

definition check_plan_origin :: "world \<Rightarrow> plan \<Rightarrow> app_source \<Rightarrow> unit result" where
  "check_plan_origin w p src =
     and_then (ensure (same_inputs (plan_inputs p) (src_inputs src)) ''SETUP_APPLICATION_SOURCE_CHANGED'') (\<lambda>_.
     and_then (req (w_binding_digest w (plan_prepared p, plan_trust_pin p))) (\<lambda>d.
     ensure (\<not> (d \<noteq> src_binding_sha src \<or> plan_product_sha p \<noteq> src_product_sha src \<or>
               plan_archive_sha p \<noteq> src_archive_sha src \<or> plan_manifest_sha p \<noteq> src_manifest_sha src \<or>
               components (prep_data (plan_prepared p)) \<noteq> components (src_data src) \<or>
               \<not> list_ex (\<lambda>x. components (pin_path x) = components (src_native src) \<and>
                              pin_sha x = src_native_sha src) (prep_pins (plan_prepared p))))
       ''SETUP_APPLICATION_SOURCE_CHANGED''))"

fun check_apart :: "(string \<Rightarrow> string) \<Rightarrow> fs \<Rightarrow> string \<Rightarrow> string list \<Rightarrow> unit result" where
  "check_apart eqv f a [] = Inr ()"
| "check_apart eqv f a (b # bs) =
     and_then (overlaps eqv f a b) (\<lambda>o'.
     and_then (ensure (\<not> o') wf_overlap) (\<lambda>_. check_apart eqv f a bs))"

fun check_outputs :: "(string \<Rightarrow> string) \<Rightarrow> fs \<Rightarrow> string list \<Rightarrow> string list \<Rightarrow> unit result" where
  "check_outputs eqv f [] ins = Inr ()"
| "check_outputs eqv f (a # as) ins =
     and_then (check_apart eqv f a as) (\<lambda>_.
     and_then (check_apart eqv f a ins) (\<lambda>_. check_outputs eqv f as ins))"

text \<open>Once a registration is owned, the original supply names are provenance only.\<close>

definition disjoint :: "world \<Rightarrow> fs \<Rightarrow> wjournal \<Rightarrow> plan \<Rightarrow> unit result" where
  "disjoint w f j p =
     and_then (req (in_destination (plan_inputs p))) (\<lambda>dest.
     and_then (req (in_instance (plan_inputs p))) (\<lambda>inst.
     and_then (req (in_archive (plan_inputs p))) (\<lambda>archive.
     let owns = stage_root (j_registration j) \<noteq> None;
         ins = filter (\<lambda>x. \<not> owns \<or> \<not> supply_source (plan_inputs p) x)
                 (archive # (case in_public_key (plan_inputs p) of None \<Rightarrow> [] | Some k \<Rightarrow> [k]) @
                  map pin_path (prep_pins (plan_prepared p))) in
     check_outputs (w_eqv w) f [w_workspace w, dest, inst, prep_data (plan_prepared p)] ins)))"

definition check_plan :: "world \<Rightarrow> fs \<Rightarrow> wjournal \<Rightarrow> plan \<Rightarrow> unit result" where
  "check_plan w f j p =
     and_then (ensure (\<not> (plan_revision p \<noteq> j_revision j \<or> \<not> same_inputs (plan_inputs p) (j_inputs j) \<or>
                 plan_revision p = 0 \<or>
                 components (plan_product_path p) \<noteq> components (product_path w (plan_revision p))))
                 wf_invalid) (\<lambda>_.
     and_then (req (w_plan_digest w p)) (\<lambda>d.
     and_then (ensure (Some d = j_plan_sha j) wf_invalid) (\<lambda>_.
     and_then (case j_origin j of None \<Rightarrow> Inr () | Some src \<Rightarrow> check_plan_origin w p src) (\<lambda>_.
     and_then (complete_inputs (plan_inputs p)) (\<lambda>_. disjoint w f j p)))))"

text \<open>The order of the stages.\<close>

definition stages_ok :: "wjournal \<Rightarrow> bool" where
  "stages_ok j \<longleftrightarrow>
     \<not> (stage_phase (j_installation j) = Confirmed \<and>
          (stage_root (j_installation j) = None \<or> j_generated j \<noteq> Confirmed) \<or>
        stage_phase (j_registration j) \<noteq> Pending \<and> stage_phase (j_installation j) \<noteq> Confirmed \<or>
        stage_phase (j_registration j) = Confirmed \<and> stage_root (j_registration j) = None \<or>
        j_initialization j \<noteq> Pending \<and> stage_phase (j_registration j) \<noteq> Confirmed \<or>
        j_start j \<noteq> Pending \<and> j_initialization j \<noteq> Confirmed \<or>
        stage_phase (j_installation j) = Pending \<and> stage_root (j_installation j) \<noteq> None \<or>
        stage_phase (j_registration j) = Pending \<and> stage_root (j_registration j) \<noteq> None)"

definition validate_journal :: "world \<Rightarrow> fs \<Rightarrow> wjournal \<Rightarrow> unit result" where
  "validate_journal w f j =
     and_then (ensure (\<not> (j_schema j \<noteq> 1 \<or> j_kind j \<noteq> ''BXDL_INSTALL_WORKFLOW'' \<or>
                 length (j_operation j) \<noteq> 32 \<or> \<not> list_all is_hexdigit (j_operation j))) wf_invalid) (\<lambda>_.
     and_then (check_normal w (j_base j)) (\<lambda>_.
     and_then (ensure (\<not> (1000 < j_revision j \<or>
                 in_unsigned (j_inputs j) = Some True \<and> in_public_key (j_inputs j) \<noteq> None)) wf_invalid) (\<lambda>_.
     and_then (map_result (check_normal w) (input_paths (j_inputs j))) (\<lambda>_.
     and_then (case j_origin j of None \<Rightarrow> Inr ()
               | Some src \<Rightarrow> and_then (w_origin_valid w src) (\<lambda>_.
                   ensure (same_inputs (src_inputs src) (j_inputs j)) ''SETUP_APPLICATION_SOURCE_CHANGED'')) (\<lambda>_.
     and_then (case j_plan j of Some p \<Rightarrow> check_plan w f j p
               | None \<Rightarrow> ensure (\<not> (j_plan_sha j \<noteq> None \<or> \<not> pristine j)) wf_invalid) (\<lambda>_.
     ensure (stages_ok j) wf_invalid))))))"

definition wf_validate :: "world \<Rightarrow> unit act" where
  "wf_validate w = with_state (\<lambda>s. ask (\<lambda>t. validate_journal w (w_fs w t) (wf_j s)))"

text \<open>\<open>save\<close>: what does not validate is never written.\<close>

definition store_journal :: "world \<Rightarrow> unit act" where
  "store_journal w s =
     (let (durable, r) = w_save w (wf_clock s); written = durable \<or> r = Inr () in
      (r, s\<lparr>wf_clock := Suc (wf_clock s), wf_disk := if written then wf_j s else wf_disk s,
            wf_log := if written then wf_log s @ [Saved (wf_j s)] else wf_log s\<rparr>))"

definition save :: "world \<Rightarrow> unit act" where
  "save w = act_then (wf_validate w) (\<lambda>_. store_journal w)"

section \<open>Paths that have to be new\<close>

definition path_names :: "string \<Rightarrow> names result" where
  "path_names s = ok_or (plain_names (components s)) wf_invalid"

definition absent :: "fs \<Rightarrow> string \<Rightarrow> bool result" where
  "absent f s =
     and_then (path_names s) (\<lambda>ns.
     case f ns of Missing \<Rightarrow> Inr True | Unavailable \<Rightarrow> fail wf_invalid | _ \<Rightarrow> Inr False)"

definition require_new_directory :: "world \<Rightarrow> string \<Rightarrow> unit act" where
  "require_new_directory w s = ask (\<lambda>t.
     and_then (same_path (w_eqv w) (w_fs w t) s s) (\<lambda>_.
     and_then (path_names s) (\<lambda>ns.
     and_then (ensure (ns \<noteq> []) wf_invalid) (\<lambda>_.
     and_then (absent (w_fs w t) s) (\<lambda>new.
     and_then (ensure new ''SETUP_TARGET_EXISTS'') (\<lambda>_.
     ensure (w_parent_dir w t s) ''SETUP_PARENT_REQUIRED''))))))"


section \<open>Verification of the plan\<close>

definition pin_key :: "pin \<Rightarrow> component list \<times> string" where
  "pin_key p = (components (pin_path p), pin_sha p)"

text \<open>The two maps of \<open>check_registered_pins\<close>, compared as sets of their entries.\<close>

definition check_registered_pins :: "plan \<Rightarrow> pin list \<Rightarrow> unit result" where
  "check_registered_pins p observed =
     (let expected = map pin_key (prep_pins (plan_prepared p) @
            (case plan_trust_pin p of None \<Rightarrow> [] | Some k \<Rightarrow> [k]) @
            [\<lparr>pin_path = plan_product_path p, pin_sha = plan_product_sha p\<rparr>]);
          actual = map pin_key observed in
      and_then (ensure (list_all (\<lambda>a. list_all (\<lambda>b. fst a = fst b \<longrightarrow> snd a = snd b) expected) expected)
                  wf_changed) (\<lambda>_.
      and_then (ensure (distinct (map fst actual)) wf_changed) (\<lambda>_.
      ensure (set expected = set actual) wf_changed)))"

definition current_plan :: "plan act" where
  "current_plan = with_state (\<lambda>s. ret (req (j_plan (wf_j s))))"

text \<open>What \<open>register_options\<close> and \<open>verify_options\<close> need of the plan.\<close>

definition register_inputs :: "plan \<Rightarrow> unit result" where
  "register_inputs p = and_then (map_result req [in_instance (plan_inputs p), in_destination (plan_inputs p),
     in_archive (plan_inputs p), in_native (plan_inputs p), in_lock (plan_inputs p)]) (\<lambda>_. Inr ())"

definition same_supply :: "plan \<Rightarrow> report \<Rightarrow> unit result" where
  "same_supply p r = ensure (\<not> (archive_sha256 r \<noteq> plan_archive_sha p \<or>
     manifest_sha256 r \<noteq> plan_manifest_sha p)) wf_changed"

definition verify_registered :: "world \<Rightarrow> plan \<Rightarrow> report act" where
  "verify_registered w p = with_state (\<lambda>s.
     act_then (ret (register_inputs p)) (\<lambda>_.
     act_then (ask (\<lambda>t. w_binding w t (stage_phase (j_registration (wf_j s)) \<noteq> Confirmed))) (\<lambda>(package, observed).
     act_then (ret (same_supply p package)) (\<lambda>_.
     act_then (ret (check_registered_pins p observed)) (\<lambda>_.
     act_then (ask (\<lambda>t. w_check_cli w t package)) (\<lambda>_.
     act_then (ask (w_recheck w)) (\<lambda>_.
     ret (Inr package))))))))"

definition verify_sources :: "world \<Rightarrow> plan \<Rightarrow> report act" where
  "verify_sources w p =
     act_then (ask (\<lambda>t. w_recheck_pins w t (prep_pins (plan_prepared p)))) (\<lambda>_.
     act_then (case plan_trust_pin p of None \<Rightarrow> ret (Inr ()) | Some k \<Rightarrow> ask (\<lambda>t. w_recheck_pins w t [k])) (\<lambda>_.
     act_then (ret (req (in_archive (plan_inputs p)))) (\<lambda>_.
     act_then (ask (w_verify w)) (\<lambda>r.
     act_then (ret (same_supply p r)) (\<lambda>_.
     act_then (ask (w_config w)) (\<lambda>_.
     act_then (ret (map_result req [in_native (plan_inputs p), in_lock (plan_inputs p)])) (\<lambda>_.
     act_then (ask (w_prepare w)) (\<lambda>prep.
     act_then (ret (ensure (prep = plan_prepared p) wf_changed)) (\<lambda>_.
     act_then (ask (\<lambda>t. w_check_cli w t r)) (\<lambda>_.
     act_then (ask (w_recheck w)) (\<lambda>_.
     ret (Inr r))))))))))))"

definition verify_plan :: "world \<Rightarrow> report act" where
  "verify_plan w =
     act_then (ask (w_recheck w)) (\<lambda>_.
     act_then (wf_validate w) (\<lambda>_.
     act_then (with_state (\<lambda>s. case j_origin (wf_j s) of None \<Rightarrow> ret (Inr ())
                 | Some _ \<Rightarrow> ask (\<lambda>t. w_origin_recheck w t False))) (\<lambda>_.
     act_then current_plan (\<lambda>p.
     act_then (ask (w_config w)) (\<lambda>b.
     act_then (ret (ensure (w_sha w b = plan_product_sha p) wf_changed)) (\<lambda>_.
     act_then (ask (w_preflight w)) (\<lambda>out.
     act_then (ret (ensure (out \<noteq> ''FAIL'') wf_changed)) (\<lambda>_.
     with_state (\<lambda>s. if stage_root (j_registration (wf_j s)) \<noteq> None then verify_registered w p
                     else verify_sources w p)))))))))"

section \<open>Editing and preparing\<close>

abbreviation upd_j :: "(wjournal \<Rightarrow> wjournal) \<Rightarrow> unit act" where
  "upd_j g \<equiv> modify (\<lambda>s. s\<lparr>wf_j := g (wf_j s)\<rparr>)"

abbreviation upd_obs :: "(observation \<Rightarrow> observation) \<Rightarrow> unit act" where
  "upd_obs g \<equiv> modify (\<lambda>s. s\<lparr>wf_obs := g (wf_obs s)\<rparr>)"

definition forget_plan :: "unit act" where
  "forget_plan =
     act_then (upd_j (\<lambda>j. j\<lparr>j_plan := None, j_plan_sha := None\<rparr>)) (\<lambda>_.
     upd_obs (\<lambda>ob. ob\<lparr>obs_initialization := ''NOT_OBSERVED''\<rparr>))"

definition set_inputs :: "world \<Rightarrow> wf_inputs \<Rightarrow> unit act" where
  "set_inputs w i = with_state (\<lambda>s.
     act_then (ret (ensure (\<not> (\<not> pristine (wf_j s) \<or>
                 (case j_origin (wf_j s) of None \<Rightarrow> False | Some src \<Rightarrow> \<not> same_inputs (src_inputs src) i)))
                 wf_locked)) (\<lambda>_.
     if same_inputs (j_inputs (wf_j s)) i then ret (Inr ())
     else act_then forget_plan (\<lambda>_.
          act_then (upd_j (\<lambda>j. j\<lparr>j_inputs := i\<rparr>)) (\<lambda>_. save w))))"

definition edit :: "world \<Rightarrow> unit act" where
  "edit w = with_state (\<lambda>s.
     act_then (ret (ensure (\<not> (\<not> pristine (wf_j s) \<or> j_origin (wf_j s) \<noteq> None)) wf_locked)) (\<lambda>_.
     act_then forget_plan (\<lambda>_. save w)))"

definition when_act :: "(wjournal \<Rightarrow> bool) \<Rightarrow> unit act \<Rightarrow> unit act" where
  "when_act P m = with_state (\<lambda>s. if P (wf_j s) then m else ret (Inr ()))"

definition join_path :: "string \<Rightarrow> string \<Rightarrow> string" where
  "join_path base p =
     (if is_absolute p then p else if suffix ''/'' base then base @ p else base @ ''/'' @ p)"

definition resolve :: "world \<Rightarrow> wjournal \<Rightarrow> string \<Rightarrow> names result" where
  "resolve w j t =
     and_then (ensure (\<not> (t = [] \<or> 4096 < length t \<or> has_control t)) wf_invalid) (\<lambda>_.
     absolute (w_cwd w) (join_path (j_base j) t))"

definition reference_fields :: "string list" where
  "reference_fields = [''dataDirectory'', ''chainDescription'', ''validatorKeystore'',
     ''validatorPasswordFile'', ''tlsKeyStore'', ''tlsKeyPasswordFile'', ''tlsTrustStore'',
     ''tlsTrustPasswordFile'']"

definition set_field :: "world \<Rightarrow> string \<Rightarrow> string \<Rightarrow> unit act" where
  "set_field w name answer = with_state (\<lambda>s.
     act_then (ret (ensure (\<not> (\<not> pristine (wf_j s) \<or> j_origin (wf_j s) \<noteq> None)) wf_locked)) (\<lambda>_.
     act_then (if List.member reference_fields name
               then ask (\<lambda>t. and_then (resolve w (wf_j s) answer) (\<lambda>ns.
                      and_then (overlaps (w_eqv w) (w_fs w t) (w_workspace w) (path_text ns)) (\<lambda>o'.
                      ensure (\<not> o') wf_overlap)))
               else ret (Inr ())) (\<lambda>_.
     act_then (ask (\<lambda>t. w_validate_answer w t name answer)) (\<lambda>_.
     act_then (ask (\<lambda>t. Inr (w_answer_matches w t name answer))) (\<lambda>same.
     if same then ret (Inr ())
     else act_then (when_act (\<lambda>j. j_plan j \<noteq> None) (edit w)) (\<lambda>_.
          ask (\<lambda>t. w_draft_set w t name answer)))))))"

text \<open>The package has to be for this platform.\<close>

definition mac_package :: "report \<Rightarrow> unit result" where
  "mac_package r = ensure (\<not> (platform_os (platform (report_manifest r)) \<noteq> ''darwin'' \<or>
     platform_arch (platform (report_manifest r)) \<noteq> ''arm64'')) ''SETUP_PACKAGE_PLATFORM''"

definition check_supply :: "world \<Rightarrow> unit act" where
  "check_supply w = with_state (\<lambda>s.
     act_then (ret (complete_inputs (j_inputs (wf_j s)))) (\<lambda>_.
     act_then (ask (w_verify w)) (\<lambda>r.
     act_then (ret (mac_package r)) (\<lambda>_. ask (\<lambda>t. w_check_cli w t r)))))"

definition prepare :: "world \<Rightarrow> unit act" where
  "prepare w = with_state (\<lambda>s.
     act_then (ret (ensure (pristine (wf_j s)) wf_locked)) (\<lambda>_.
     act_then (ret (complete_inputs (j_inputs (wf_j s)))) (\<lambda>_.
     act_then (ask (w_recheck w)) (\<lambda>_.
     act_then (if j_origin (wf_j s) = None then ret (Inr ()) else ask (\<lambda>t. w_origin_recheck w t True)) (\<lambda>_.
     let i = j_inputs (wf_j s) in
     act_then (ask (w_config w)) (\<lambda>product.
     act_then (ask (w_preflight w)) (\<lambda>out.
     act_then (ret (ensure (out \<noteq> ''FAIL'') ''SETUP_PRODUCT_CHECK_FAILED'')) (\<lambda>_.
     act_then (ask (w_verify w)) (\<lambda>r.
     act_then (ret (mac_package r)) (\<lambda>_.
     act_then (ask (\<lambda>t. w_check_cli w t r)) (\<lambda>_.
     act_then (ret (ensure (Suc (j_revision (wf_j s)) \<le> 1000) wf_invalid)) (\<lambda>_.
     let rev' = Suc (j_revision (wf_j s)) in
     act_then (ask (w_prepare w)) (\<lambda>prep.
     act_then (case in_public_key i of None \<Rightarrow> ret (Inr None)
               | Some k \<Rightarrow> act_then (ask (\<lambda>t. w_pin w t k)) (\<lambda>x. ret (Inr (Some x)))) (\<lambda>trust.
     let p = \<lparr>plan_revision = rev', plan_inputs = i, plan_product_path = product_path w rev',
              plan_product_sha = w_sha w product, plan_archive_sha = archive_sha256 r,
              plan_manifest_sha = manifest_sha256 r, plan_trust_pin = trust, plan_prepared = prep\<rparr> in
     act_then (ask (\<lambda>t. disjoint w (w_fs w t) (wf_j s) p)) (\<lambda>_.
     act_then (ret (req (in_destination i))) (\<lambda>dest.
     act_then (require_new_directory w dest) (\<lambda>_.
     act_then (ret (req (in_instance i))) (\<lambda>inst.
     act_then (require_new_directory w inst) (\<lambda>_.
     act_then (require_new_directory w (prep_data prep)) (\<lambda>_.
     act_then (ret (req (w_plan_digest w p))) (\<lambda>d.
     act_then (upd_j (\<lambda>j. j\<lparr>j_revision := rev', j_plan := Some p, j_plan_sha := Some d\<rparr>)) (\<lambda>_.
     save w))))))))))))))))))))))"

section \<open>Observations\<close>

definition observe_initialization :: "instance_summary \<Rightarrow> unit act" where
  "observe_initialization v =
     act_then (upd_obs (\<lambda>ob. ob\<lparr>obs_initialization := sum_initialization v\<rparr>)) (\<lambda>_.
     if sum_initialization v = ''INITIALIZED'' then upd_j (\<lambda>j. j\<lparr>j_initialization := Confirmed\<rparr>)
     else if sum_initialization v = ''UNKNOWN'' then upd_j (\<lambda>j. j\<lparr>j_initialization := Unknown\<rparr>)
     else if sum_initialization v = ''NOT_STARTED'' \<and> sum_busy v = Some False
          then upd_j (\<lambda>j. j\<lparr>j_initialization := Pending\<rparr>)
     else ret (Inr ()))"

definition service_phase :: "service_summary \<Rightarrow> stage_phase" where
  "service_phase v =
     (if svc_reason v = ''SERVICE_NOT_STARTED'' \<and> svc_attempt v = None \<and> \<not> svc_busy v then Pending
      else if svc_state v = ''RUNNING'' \<and> svc_engine v = ''RUNNING'' then Confirmed
      else Unknown)"

definition set_service :: "service_summary \<Rightarrow> unit act" where
  "set_service v =
     act_then (upd_j (\<lambda>j. j\<lparr>j_start := service_phase v\<rparr>)) (\<lambda>_.
     upd_obs (\<lambda>ob. ob\<lparr>obs_service := svc_state v, obs_engine := svc_engine v, obs_readiness := svc_readiness v,
       obs_reason := svc_reason v, obs_last_reason := svc_last_reason v, obs_stage := svc_stage v,
       obs_failure := svc_failure v, obs_attempt := svc_attempt v\<rparr>))"

definition clear_service_observation :: "string \<Rightarrow> unit act" where
  "clear_service_observation reason =
     upd_obs (\<lambda>ob. ob\<lparr>obs_service := ''UNKNOWN'', obs_engine := ''UNKNOWN'', obs_readiness := ''UNKNOWN'',
       obs_reason := reason, obs_last_reason := None, obs_stage := None, obs_failure := None,
       obs_attempt := None\<rparr>)"

definition accept_service_observation :: "service_summary result \<Rightarrow> unit act" where
  "accept_service_observation r =
     (case r of
        Inr v \<Rightarrow> set_service v
      | Inl e \<Rightarrow>
          act_then (clear_service_observation (error_code e)) (\<lambda>_.
          act_then (upd_j (\<lambda>j. j\<lparr>j_start := Unknown\<rparr>)) (\<lambda>_. ret (Inl e))))"

definition observe_service :: "world \<Rightarrow> unit act" where
  "observe_service w =
     act_then (clear_service_observation ''SERVICE_OBSERVATION_UNKNOWN'') (\<lambda>_.
     act_then current_plan (\<lambda>p.
     act_then (ret (req (in_instance (plan_inputs p)))) (\<lambda>_.
     act_then (outcome (ask (w_status w))) accept_service_observation)))"


section \<open>Reconciling\<close>

abbreviation upd_installation :: "(stage \<Rightarrow> stage) \<Rightarrow> unit act" where
  "upd_installation g \<equiv> upd_j (\<lambda>j. j\<lparr>j_installation := g (j_installation j)\<rparr>)"

abbreviation upd_registration :: "(stage \<Rightarrow> stage) \<Rightarrow> unit act" where
  "upd_registration g \<equiv> upd_j (\<lambda>j. j\<lparr>j_registration := g (j_registration j)\<rparr>)"

text \<open>An error is replaced, or kept if there is no replacement.\<close>

definition replace_error :: "string option \<Rightarrow> 'a result \<Rightarrow> 'a result" where
  "replace_error e r = (case e of None \<Rightarrow> r | Some c \<Rightarrow> map_err c r)"

definition check_generated :: "world \<Rightarrow> plan \<Rightarrow> string \<Rightarrow> unit act" where
  "check_generated w p e =
     act_then (ask (\<lambda>t. w_pin w t (plan_product_path p))) (\<lambda>x.
     ret (ensure (pin_sha x = plan_product_sha p) e))"

definition reconcile_installation :: "world \<Rightarrow> plan \<Rightarrow> unit act" where
  "reconcile_installation w p = with_state (\<lambda>s.
     act_then (ret (ok_or (stage_root (j_installation (wf_j s))) wf_unknown)) (\<lambda>owner.
     act_then (ret (req (in_destination (plan_inputs p)))) (\<lambda>_.
     act_then (ask (\<lambda>t. map_err wf_unknown (w_verify_installed w t owner))) (\<lambda>_.
     upd_installation (\<lambda>x. x\<lparr>stage_phase := Confirmed\<rparr>)))))"

definition reconcile_registration :: "world \<Rightarrow> plan \<Rightarrow> unit act" where
  "reconcile_registration w p = with_state (\<lambda>s.
     act_then (ret (ok_or (stage_root (j_registration (wf_j s))) wf_unknown)) (\<lambda>owner.
     act_then (ret (register_inputs p)) (\<lambda>_.
     act_then (if stage_phase (j_registration (wf_j s)) = Confirmed
               then ask (\<lambda>t. w_verify_binding w t owner)
               else ask (\<lambda>t. map_err wf_unknown (w_inspect w t owner))) (\<lambda>observed.
     act_then (upd_registration (\<lambda>x. x\<lparr>stage_phase := Confirmed\<rparr>)) (\<lambda>_.
     observe_initialization observed)))))"

definition reconcile :: "world \<Rightarrow> unit act" where
  "reconcile w =
     act_then (when_act (\<lambda>j. j_start j \<noteq> Pending)
                 (clear_service_observation ''SERVICE_OBSERVATION_UNKNOWN'')) (\<lambda>_.
     when_act (\<lambda>j. j_plan j \<noteq> None)
       (act_then (verify_plan w) (\<lambda>_.
        act_then current_plan (\<lambda>p.
        act_then (when_act (\<lambda>j. j_generated j \<noteq> Pending)
                    (act_then (check_generated w p wf_changed) (\<lambda>_.
                     upd_j (\<lambda>j. j\<lparr>j_generated := Confirmed\<rparr>)))) (\<lambda>_.
        act_then (when_act (\<lambda>j. stage_phase (j_installation j) \<noteq> Pending) (reconcile_installation w p)) (\<lambda>_.
        act_then (when_act (\<lambda>j. stage_phase (j_registration j) \<noteq> Pending) (reconcile_registration w p)) (\<lambda>_.
        act_then (when_act (\<lambda>j. j_start j \<noteq> Pending) (observe_service w)) (\<lambda>_.
        save w))))))))"

section \<open>Applying a plan\<close>

definition generate_step :: "world \<Rightarrow> plan \<Rightarrow> unit act" where
  "generate_step w p = when_act (\<lambda>j. j_generated j = Pending)
     (act_then (ask (w_guard w)) (\<lambda>_.
      act_then (require_new_directory w (prep_data (plan_prepared p))) (\<lambda>_.
      act_then (upd_j (\<lambda>j. j\<lparr>j_generated := InProgress\<rparr>)) (\<lambda>_.
      act_then (save w) (\<lambda>_.
      act_then (ask (w_config w)) (\<lambda>_.
      act_then (note_event Wrote_Product) (\<lambda>_.
      act_then (ask (w_write_product w)) (\<lambda>_.
      act_then (upd_j (\<lambda>j. j\<lparr>j_generated := Confirmed\<rparr>)) (\<lambda>_.
      save w)))))))))"

text \<open>The callback that records a reserved root, and saves at once.\<close>

definition record_root :: "world \<Rightarrow> (node_id \<Rightarrow> wjournal \<Rightarrow> wjournal) \<Rightarrow> node_id option \<Rightarrow> unit act" where
  "record_root w put reserved =
     (case reserved of None \<Rightarrow> ret (Inr ())
      | Some i \<Rightarrow> act_then (upd_j (put i)) (\<lambda>_. save w))"

definition put_installation :: "node_id \<Rightarrow> wjournal \<Rightarrow> wjournal" where
  "put_installation i j = j\<lparr>j_installation := (j_installation j)\<lparr>stage_root := Some i\<rparr>\<rparr>"

definition put_registration :: "node_id \<Rightarrow> wjournal \<Rightarrow> wjournal" where
  "put_registration i j = j\<lparr>j_registration := (j_registration j)\<lparr>stage_root := Some i\<rparr>\<rparr>"

definition run_install :: "world \<Rightarrow> plan \<Rightarrow> unit act" where
  "run_install w p =
     act_then (note_event Called_Install) (\<lambda>_.
     act_then (ask (\<lambda>t. Inr (w_install w t))) (\<lambda>(reserved, r).
     act_then (record_root w put_installation reserved) (\<lambda>_.
     act_then (ret r) (\<lambda>installed.
     act_then (ret (same_supply p installed)) (\<lambda>_.
     act_then (verify_plan w) (\<lambda>_.
     with_state (\<lambda>s.
       act_then (ret (ok_or (stage_root (j_installation (wf_j s))) wf_unknown)) (\<lambda>owner.
       ask (\<lambda>t. w_verify_installed w t owner)))))))))"

text \<open>After a failure: back to \<open>Pending\<close> only if nothing was reserved and nothing is there.\<close>

definition failed_phase :: "world \<Rightarrow> (wjournal \<Rightarrow> stage) \<Rightarrow> string option \<Rightarrow> stage_phase act" where
  "failed_phase w get target = with_state (\<lambda>s.
     if stage_root (get (wf_j s)) = None
     then act_then (ret (req target)) (\<lambda>d.
          act_then (ask (\<lambda>t. absent (w_fs w t) d)) (\<lambda>gone.
          ret (Inr (if gone then Pending else Unknown))))
     else ret (Inr Unknown))"

definition install_step :: "world \<Rightarrow> plan \<Rightarrow> unit act" where
  "install_step w p = when_act (\<lambda>j. stage_phase (j_installation j) = Pending)
     (act_then (ask (w_guard w)) (\<lambda>_.
      act_then (verify_plan w) (\<lambda>_.
      act_then (ret (req (in_destination (plan_inputs p)))) (\<lambda>dest.
      act_then (require_new_directory w dest) (\<lambda>_.
      act_then (upd_installation (\<lambda>x. x\<lparr>stage_phase := InProgress\<rparr>)) (\<lambda>_.
      act_then (save w) (\<lambda>_.
      act_then (outcome (run_install w p)) (\<lambda>r.
      case r of
        Inr _ \<Rightarrow> act_then (upd_installation (\<lambda>x. x\<lparr>stage_phase := Confirmed\<rparr>)) (\<lambda>_. save w)
      | Inl e \<Rightarrow>
          act_then (failed_phase w j_installation (Some dest)) (\<lambda>ph.
          act_then (upd_installation (\<lambda>x. x\<lparr>stage_phase := ph\<rparr>)) (\<lambda>_.
          act_then (save w) (\<lambda>_. ret (Inl e))))))))))))"

definition run_register :: "world \<Rightarrow> plan \<Rightarrow> instance_summary act" where
  "run_register w p =
     act_then (ret (register_inputs p)) (\<lambda>_.
     act_then (note_event Called_Register) (\<lambda>_.
     act_then (ask (\<lambda>t. Inr (w_register w t))) (\<lambda>(reserved, r).
     act_then (record_root w put_registration reserved) (\<lambda>_.
     act_then (ret r) (\<lambda>_.
     act_then (verify_plan w) (\<lambda>_.
     with_state (\<lambda>s.
       act_then (ret (ok_or (stage_root (j_registration (wf_j s))) wf_unknown)) (\<lambda>owner.
       ask (\<lambda>t. w_inspect w t owner)))))))))"

definition register_step :: "world \<Rightarrow> plan \<Rightarrow> unit act" where
  "register_step w p = when_act (\<lambda>j. stage_phase (j_registration j) = Pending)
     (act_then (ask (w_guard w)) (\<lambda>_.
      act_then (verify_plan w) (\<lambda>_.
      act_then (ret (req (in_instance (plan_inputs p)))) (\<lambda>inst.
      act_then (require_new_directory w inst) (\<lambda>_.
      act_then (require_new_directory w (prep_data (plan_prepared p))) (\<lambda>_.
      act_then (upd_registration (\<lambda>x. x\<lparr>stage_phase := InProgress\<rparr>)) (\<lambda>_.
      act_then (save w) (\<lambda>_.
      act_then (outcome (run_register w p)) (\<lambda>r.
      case r of
        Inr v \<Rightarrow> act_then (upd_registration (\<lambda>x. x\<lparr>stage_phase := Confirmed\<rparr>)) (\<lambda>_.
                 act_then (observe_initialization v) (\<lambda>_. save w))
      | Inl e \<Rightarrow>
          act_then (failed_phase w j_registration (Some inst)) (\<lambda>ph.
          act_then (upd_registration (\<lambda>x. x\<lparr>stage_phase := ph\<rparr>)) (\<lambda>_.
          act_then (save w) (\<lambda>_. ret (Inl e)))))))))))))"

definition require_phase :: "(wjournal \<Rightarrow> bool) \<Rightarrow> unit act" where
  "require_phase P = with_state (\<lambda>s. ret (ensure (P (wf_j s)) wf_unknown))"

definition apply_with_guard :: "world \<Rightarrow> unit act" where
  "apply_with_guard w =
     act_then (verify_plan w) (\<lambda>_.
     act_then current_plan (\<lambda>p.
     act_then (ask (\<lambda>t. w_capacity w t 12)) (\<lambda>_.
     act_then (generate_step w p) (\<lambda>_.
     act_then (require_phase (\<lambda>j. j_generated j = Confirmed)) (\<lambda>_.
     act_then (install_step w p) (\<lambda>_.
     act_then (require_phase (\<lambda>j. stage_phase (j_installation j) = Confirmed)) (\<lambda>_.
     act_then (with_state (\<lambda>s.
         act_then (ret (ok_or (stage_root (j_installation (wf_j s))) wf_unknown)) (\<lambda>owner.
         ask (\<lambda>t. w_verify_installed w t owner)))) (\<lambda>_.
     register_step w p))))))))"

section \<open>Running\<close>

definition initialize :: "world \<Rightarrow> bool \<Rightarrow> unit act" where
  "initialize w resume =
     act_then (reconcile w) (\<lambda>_.
     act_then (require_phase (\<lambda>j. stage_phase (j_registration j) = Confirmed)) (\<lambda>_.
     act_then (ask (\<lambda>t. w_capacity w t 3)) (\<lambda>_.
     act_then current_plan (\<lambda>p.
     act_then (if resume then ret (Inr ()) else require_new_directory w (prep_data (plan_prepared p))) (\<lambda>_.
     act_then (upd_j (\<lambda>j. j\<lparr>j_initialization := InProgress\<rparr>)) (\<lambda>_.
     act_then (save w) (\<lambda>_.
     act_then (ret (req (in_instance (plan_inputs p)))) (\<lambda>_.
     act_then (note_event (Called_Initialize resume)) (\<lambda>_.
     act_then (outcome (ask (\<lambda>t. w_initialize w t resume))) (\<lambda>r.
     case r of
       Inr v \<Rightarrow> act_then (observe_initialization v) (\<lambda>_. save w)
     | Inl e \<Rightarrow> act_then (upd_j (\<lambda>j. j\<lparr>j_initialization := Unknown\<rparr>)) (\<lambda>_.
                act_then (save w) (\<lambda>_. ret (Inl e)))))))))))))"

definition start :: "world \<Rightarrow> unit act" where
  "start w =
     act_then (reconcile w) (\<lambda>_.
     act_then (require_phase (\<lambda>j. j_initialization j = Confirmed \<and> j_start j = Pending)) (\<lambda>_.
     act_then (ask (\<lambda>t. w_capacity w t 3)) (\<lambda>_.
     act_then current_plan (\<lambda>p.
     act_then (upd_j (\<lambda>j. j\<lparr>j_start := InProgress\<rparr>)) (\<lambda>_.
     act_then (save w) (\<lambda>_.
     act_then (ret (req (in_instance (plan_inputs p)))) (\<lambda>_.
     act_then (note_event Called_Start) (\<lambda>_.
     act_then (outcome (ask (w_start w))) (\<lambda>r.
     case r of
       Inr v \<Rightarrow> act_then (set_service v) (\<lambda>_. save w)
     | Inl e \<Rightarrow>
         act_then (clear_service_observation (error_code e)) (\<lambda>_.
         act_then (upd_j (\<lambda>j. j\<lparr>j_start := Unknown\<rparr>)) (\<lambda>_.
         act_then (save w) (\<lambda>_. ret (Inl e)))))))))))))"

definition can_wait :: "wf \<Rightarrow> bool" where
  "can_wait s \<longleftrightarrow> obs_attempt (wf_obs s) \<noteq> None \<and> j_start (wf_j s) \<noteq> Pending"

definition wait :: "world \<Rightarrow> unit act" where
  "wait w = with_state (\<lambda>s.
     act_then (ret (ensure (can_wait s) wf_unknown)) (\<lambda>_.
     act_then (ask (\<lambda>t. w_capacity w t 1)) (\<lambda>_.
     act_then (ret (ok_or (obs_attempt (wf_obs s)) wf_unknown)) (\<lambda>expected.
     act_then (clear_service_observation ''SERVICE_OBSERVATION_UNKNOWN'') (\<lambda>_.
     act_then current_plan (\<lambda>p.
     act_then (ret (req (in_instance (plan_inputs p)))) (\<lambda>_.
     act_then (outcome (ask (\<lambda>t. w_wait w t expected))) (\<lambda>r.
     act_then (outcome (accept_service_observation r)) (\<lambda>seen.
     act_then (save w) (\<lambda>_. ret seen))))))))))"

definition can_apply :: "wf \<Rightarrow> bool" where
  "can_apply s \<longleftrightarrow> j_plan (wf_j s) \<noteq> None \<and> stage_phase (j_registration (wf_j s)) = Pending"

definition can_init :: "wf \<Rightarrow> bool" where
  "can_init s \<longleftrightarrow> stage_phase (j_registration (wf_j s)) = Confirmed \<and> j_initialization (wf_j s) = Pending"

definition can_resume_init :: "wf \<Rightarrow> bool" where
  "can_resume_init s \<longleftrightarrow> stage_phase (j_registration (wf_j s)) = Confirmed \<and>
     j_initialization (wf_j s) \<in> {Unknown, InProgress}"

definition can_start :: "wf \<Rightarrow> bool" where
  "can_start s \<longleftrightarrow> j_initialization (wf_j s) = Confirmed \<and> j_start (wf_j s) = Pending"

definition can_edit :: "wf \<Rightarrow> bool" where
  "can_edit s \<longleftrightarrow> pristine (wf_j s)"


section \<open>Applying an approved preparation\<close>

definition same_source :: "app_source \<Rightarrow> app_source \<Rightarrow> bool" where
  "same_source a b \<longleftrightarrow>
     components (src_preparation a) = components (src_preparation b) \<and> src_identity a = src_identity b \<and>
     src_revision a = src_revision b \<and> src_review_sha a = src_review_sha b \<and>
     src_binding_sha a = src_binding_sha b \<and> components (src_product a) = components (src_product b) \<and>
     components (src_native a) = components (src_native b) \<and> src_product_sha a = src_product_sha b \<and>
     src_native_sha a = src_native_sha b \<and> src_archive_sha a = src_archive_sha b \<and>
     src_manifest_sha a = src_manifest_sha b \<and> components (src_data a) = components (src_data b) \<and>
     same_inputs (src_inputs a) (src_inputs b)"

definition check_origin :: "world \<Rightarrow> app_source \<Rightarrow> unit act" where
  "check_origin w src =
     act_then (ask (w_recheck w)) (\<lambda>_.
     act_then (wf_validate w) (\<lambda>_.
     act_then (ask (\<lambda>t. w_origin_recheck w t False)) (\<lambda>_.
     with_state (\<lambda>s. ret (ensure (case j_origin (wf_j s) of None \<Rightarrow> False | Some o' \<Rightarrow> same_source o' src)
                       ''SETUP_APPLICATION_SOURCE_CHANGED'')))))"

definition partial_phase :: "stage_phase \<Rightarrow> bool" where
  "partial_phase ph \<longleftrightarrow> ph = InProgress \<or> ph = Unknown"

definition inspect_registration :: "world \<Rightarrow> plan \<Rightarrow> unit act" where
  "inspect_registration w p = with_state (\<lambda>s.
     act_then (ret (ok_or (stage_root (j_registration (wf_j s))) wf_unknown)) (\<lambda>owner.
     act_then (ret (register_inputs p)) (\<lambda>_.
     act_then (ask (\<lambda>t. map_err wf_unknown (w_inspect w t owner))) (\<lambda>_.
     upd_registration (\<lambda>x. x\<lparr>stage_phase := Confirmed\<rparr>)))))"

definition reconcile_application :: "world \<Rightarrow> unit act" where
  "reconcile_application w =
     when_act (\<lambda>j. \<not> list_all (\<lambda>ph. ph = Pending \<or> ph = Confirmed)
                 [j_generated j, stage_phase (j_installation j), stage_phase (j_registration j)])
       (act_then (verify_plan w) (\<lambda>_.
        act_then current_plan (\<lambda>p.
        act_then (when_act (\<lambda>j. partial_phase (j_generated j))
                    (act_then (check_generated w p wf_unknown) (\<lambda>_.
                     upd_j (\<lambda>j. j\<lparr>j_generated := Confirmed\<rparr>)))) (\<lambda>_.
        act_then (when_act (\<lambda>j. partial_phase (stage_phase (j_installation j))) (reconcile_installation w p)) (\<lambda>_.
        act_then (when_act (\<lambda>j. partial_phase (stage_phase (j_registration j))) (inspect_registration w p)) (\<lambda>_.
        save w))))))"

definition verify_application :: "world \<Rightarrow> unit act" where
  "verify_application w =
     act_then (verify_plan w) (\<lambda>_.
     act_then current_plan (\<lambda>p.
     act_then (when_act (\<lambda>j. j_generated j \<noteq> Pending)
                 (act_then (require_phase (\<lambda>j. j_generated j = Confirmed)) (\<lambda>_.
                  check_generated w p wf_unknown))) (\<lambda>_.
     act_then (when_act (\<lambda>j. stage_phase (j_installation j) \<noteq> Pending)
                 (act_then (require_phase (\<lambda>j. stage_phase (j_installation j) = Confirmed)) (\<lambda>_.
                  act_then (ret (req (in_destination (plan_inputs p)))) (\<lambda>_.
                  with_state (\<lambda>s.
                    act_then (ret (ok_or (stage_root (j_installation (wf_j s))) wf_unknown)) (\<lambda>owner.
                    ask (\<lambda>t. w_verify_installed w t owner))))))) (\<lambda>_.
     act_then (when_act (\<lambda>j. stage_phase (j_registration j) \<noteq> Pending)
                 (act_then (require_phase (\<lambda>j. stage_phase (j_registration j) = Confirmed)) (\<lambda>_.
                  act_then (ret (register_inputs p)) (\<lambda>_.
                  with_state (\<lambda>s.
                    act_then (ret (ok_or (stage_root (j_registration (wf_j s))) wf_unknown)) (\<lambda>owner.
                    act_then (ask (\<lambda>t. w_verify_binding w t owner)) (\<lambda>_. ret (Inr ())))))))) (\<lambda>_.
     ask (w_recheck w))))))"

definition apply_prepared :: "world \<Rightarrow> app_source \<Rightarrow> unit act" where
  "apply_prepared w src =
     act_then (check_origin w src) (\<lambda>_.
     act_then (ask (w_guard w)) (\<lambda>_.
     act_then (when_act (\<lambda>j. j_plan j = None)
                 (act_then (ask (\<lambda>t. w_origin_recheck w t True)) (\<lambda>_.
                  act_then (ask (w_guard w)) (\<lambda>_. prepare w)))) (\<lambda>_.
     act_then (ask (\<lambda>t. w_origin_recheck w t False)) (\<lambda>_.
     act_then (ask (w_guard w)) (\<lambda>_.
     act_then (reconcile_application w) (\<lambda>_.
     act_then (when_act (\<lambda>j. stage_phase (j_registration j) \<noteq> Confirmed)
                 (apply_with_guard (w\<lparr>w_guard := \<lambda>t. and_then (w_origin_recheck w t False) (\<lambda>_. w_guard w t)\<rparr>))) (\<lambda>_.
     act_then (check_origin w src) (\<lambda>_.
     verify_application w))))))))"


section \<open>Creating, loading, and what an operator can do\<close>

definition no_inputs :: wf_inputs where
  "no_inputs = \<lparr>in_archive = None, in_public_key = None, in_unsigned = None, in_lock = None,
     in_native = None, in_destination = None, in_instance = None\<rparr>"

definition no_stage :: stage where
  "no_stage = \<lparr>stage_phase = Pending, stage_root = None\<rparr>"

text \<open>The first journal, of \<open>create\<close> (no source) and of \<open>create_prepared\<close>.\<close>

definition first_journal :: "string \<Rightarrow> string \<Rightarrow> app_source option \<Rightarrow> wjournal" where
  "first_journal operation base src = \<lparr>j_schema = 1, j_kind = ''BXDL_INSTALL_WORKFLOW'',
     j_operation = operation, j_origin = src, j_base = base,
     j_inputs = (case src of None \<Rightarrow> no_inputs | Some x \<Rightarrow> src_inputs x), j_revision = 0,
     j_plan = None, j_plan_sha = None, j_generated = Pending, j_installation = no_stage,
     j_registration = no_stage, j_initialization = Pending, j_start = Pending\<rparr>"

definition not_observed :: observation where
  "not_observed = \<lparr>obs_initialization = ''NOT_OBSERVED'', obs_service = ''NOT_OBSERVED'',
     obs_engine = ''NOT_OBSERVED'', obs_readiness = ''NOT_CHECKED'', obs_reason = ''NOT_OBSERVED'',
     obs_last_reason = None, obs_stage = None, obs_failure = None, obs_attempt = None\<rparr>"

datatype wf_op =
    Set_Inputs wf_inputs | Set_Field string string | Edit | Prepare | Reconcile | Apply
  | Apply_Prepared app_source | Initialize bool | Start | Wait

fun run_op :: "world \<Rightarrow> wf_op \<Rightarrow> unit act" where
  "run_op w (Set_Inputs i) = set_inputs w i"
| "run_op w (Set_Field name answer) = set_field w name answer"
| "run_op w Edit = edit w"
| "run_op w Prepare = prepare w"
| "run_op w Reconcile = reconcile w"
| "run_op w Apply = apply_with_guard w"
| "run_op w (Apply_Prepared src) = apply_prepared w src"
| "run_op w (Initialize resume) = initialize w resume"
| "run_op w Start = start w"
| "run_op w Wait = wait w"

end
