(* ===== verification/WorkflowProps.thy ===== *)
theory WorkflowProps
  imports Workflow
begin

text \<open>
  What the install workflow guarantees over every sequence of operations and interruptions: a
  small program logic for the operations (\<open>quiet\<close>, \<open>spec\<close>), the relation \<open>kept\<close> between journals,
  and the properties of the log of saves and outside calls.
\<close>

section \<open>What durable journals never lose\<close>

text \<open>A recorded root stays, its stage does not become pending again, a confirmation stays.\<close>

definition stage_kept :: "stage \<Rightarrow> stage \<Rightarrow> bool" where
  "stage_kept a b \<longleftrightarrow>
     (stage_root a \<noteq> None \<longrightarrow> stage_root b = stage_root a \<and> (stage_phase a \<noteq> Pending \<longrightarrow> stage_phase b \<noteq> Pending)) \<and>
     (stage_phase a = Confirmed \<longrightarrow> stage_phase b = Confirmed)"

lemma stage_kept_back:
  "stage_kept a b \<Longrightarrow> b = \<lparr>stage_phase = InProgress, stage_root = None\<rparr> \<Longrightarrow>
     stage_root a = None \<and> stage_phase a \<noteq> Confirmed"
  unfolding stage_kept_def by (metis stage.select_convs stage_phase.distinct(7))

definition kept :: "wjournal \<Rightarrow> wjournal \<Rightarrow> bool" where
  "kept j j' \<longleftrightarrow> stage_kept (j_installation j) (j_installation j') \<and>
     stage_kept (j_registration j) (j_registration j')"

lemma kept_refl [simp]: "kept j j"
  by (simp add: kept_def stage_kept_def)

lemma kept_same: "j_installation j' = j_installation j \<Longrightarrow> j_registration j' = j_registration j \<Longrightarrow> kept j j'"
  by (simp add: kept_def stage_kept_def)

lemma kept_trans: "kept a b \<Longrightarrow> kept b c \<Longrightarrow> kept a c"
  by (auto simp: kept_def stage_kept_def)

text \<open>
  The journal every outside call needs to find on disk, saved right before it: the stage of the call
  is in progress and every stage before it is confirmed.
\<close>

fun announced :: "wf_event \<Rightarrow> wjournal \<Rightarrow> bool" where
  "announced (Saved _) j \<longleftrightarrow> True"
| "announced Wrote_Product j \<longleftrightarrow> j_generated j = InProgress"
| "announced Called_Install j \<longleftrightarrow>
     j_installation j = \<lparr>stage_phase = InProgress, stage_root = None\<rparr> \<and> j_generated j = Confirmed"
| "announced Called_Register j \<longleftrightarrow>
     j_registration j = \<lparr>stage_phase = InProgress, stage_root = None\<rparr> \<and>
     stage_phase (j_installation j) = Confirmed \<and> j_generated j = Confirmed"
| "announced (Called_Initialize _) j \<longleftrightarrow>
     j_initialization j = InProgress \<and> stage_phase (j_registration j) = Confirmed \<and>
     stage_phase (j_installation j) = Confirmed \<and> j_generated j = Confirmed"
| "announced Called_Start j \<longleftrightarrow>
     j_start j = InProgress \<and> j_initialization j = Confirmed \<and> stage_phase (j_registration j) = Confirmed \<and>
     stage_phase (j_installation j) = Confirmed \<and> j_generated j = Confirmed"

definition saves :: "wf_event list \<Rightarrow> wjournal list" where
  "saves l = List.map_filter (\<lambda>e. case e of Saved j \<Rightarrow> Some j | _ \<Rightarrow> None) l"

lemma saves_simps [simp]:
  "saves [] = []" "saves (l @ l') = saves l @ saves l'" "saves (Saved j # l) = j # saves l"
  "saves (Wrote_Product # l) = saves l" "saves (Called_Install # l) = saves l"
  "saves (Called_Register # l) = saves l" "saves (Called_Initialize r # l) = saves l"
  "saves (Called_Start # l) = saves l"
  by (simp_all add: saves_def map_filter_def)

text \<open>A log that is written ahead; \<open>p\<close> is the event before it.\<close>

fun written_ahead :: "wf_event option \<Rightarrow> wf_event list \<Rightarrow> bool" where
  "written_ahead p [] \<longleftrightarrow> True"
| "written_ahead p (Saved j # l) \<longleftrightarrow> stages_ok j \<and> written_ahead (Some (Saved j)) l"
| "written_ahead p (e # l) \<longleftrightarrow>
     (case p of Some (Saved j) \<Rightarrow> announced e j | _ \<Rightarrow> False) \<and> written_ahead (Some e) l"

definition final :: "wf_event option \<Rightarrow> wf_event list \<Rightarrow> wf_event option" where
  "final p l = (if l = [] then p else Some (last l))"

lemma written_ahead_append: "written_ahead p (l @ l') \<longleftrightarrow> written_ahead p l \<and> written_ahead (final p l) l'"
  by (induction p l rule: written_ahead.induct) (auto simp: final_def)

section \<open>One step of an execution\<close>

text \<open>What an operation adds to the log, with the journals along the way.\<close>

definition advances :: "wf \<Rightarrow> wf \<Rightarrow> bool" where
  "advances s s' \<longleftrightarrow> (\<exists>new. wf_log s' = wf_log s @ new \<and> written_ahead (final None (wf_log s)) new \<and>
     sorted_wrt kept (wf_j s # saves new @ [wf_j s']) \<and> wf_disk s' = last (wf_disk s # saves new))"

lemma advancesI:
  "wf_log s' = wf_log s @ new \<Longrightarrow> written_ahead (final None (wf_log s)) new \<Longrightarrow>
     sorted_wrt kept (wf_j s # saves new @ [wf_j s']) \<Longrightarrow> wf_disk s' = last (wf_disk s # saves new) \<Longrightarrow>
     advances s s'"
  unfolding advances_def by (intro exI [of _ new]) simp

lemma advances_quiet:
  "wf_log s' = wf_log s \<Longrightarrow> kept (wf_j s) (wf_j s') \<Longrightarrow> wf_disk s' = wf_disk s \<Longrightarrow> advances s s'"
  by (rule advancesI [of _ _ "[]"]) simp_all

lemma final_append: "final (final None l) m = final None (l @ m)"
  by (simp add: final_def)

lemma advances_trans:
  assumes "advances s s'" "advances s' s''"
  shows "advances s s''"
proof -
  from assms(1) obtain a where a: "wf_log s' = wf_log s @ a" "written_ahead (final None (wf_log s)) a"
    "sorted_wrt kept (wf_j s # saves a @ [wf_j s'])" "wf_disk s' = last (wf_disk s # saves a)"
    unfolding advances_def by blast
  from assms(2) obtain b where b: "wf_log s'' = wf_log s' @ b" "written_ahead (final None (wf_log s')) b"
    "sorted_wrt kept (wf_j s' # saves b @ [wf_j s''])" "wf_disk s'' = last (wf_disk s' # saves b)"
    unfolding advances_def by blast
  have before: "\<forall>x\<in>set (wf_j s # saves a). kept x (wf_j s')" using a(3) by (auto simp: sorted_wrt_append)
  have after: "\<forall>y\<in>set (saves b @ [wf_j s'']). kept (wf_j s') y" using b(3) by simp
  have "sorted_wrt kept ((wf_j s # saves a) @ saves b @ [wf_j s''])"
  proof (unfold sorted_wrt_append, intro conjI ballI)
    show "sorted_wrt kept (wf_j s # saves a)" using a(3) by (simp add: sorted_wrt_append)
    show "sorted_wrt kept (saves b)" using b(3) by (simp add: sorted_wrt_append)
    show "sorted_wrt kept [wf_j s'']" by simp
    show "kept x y" if "x \<in> set (saves b)" "y \<in> set [wf_j s'']" for x y
      using b(3) that by (simp add: sorted_wrt_append)
    show "kept x y" if "x \<in> set (wf_j s # saves a)" "y \<in> set (saves b @ [wf_j s''])" for x y
      using before after that kept_trans by blast
  qed
  then have c: "sorted_wrt kept (wf_j s # saves (a @ b) @ [wf_j s''])" by simp
  have w: "written_ahead (final None (wf_log s)) (a @ b)"
    using a(1,2) b(2) by (simp add: written_ahead_append final_append)
  have d: "wf_disk s'' = last (wf_disk s # saves (a @ b))" using a(4) b(4) by simp
  show ?thesis by (rule advancesI [OF _ w c d]) (simp add: a(1) b(1))
qed

section \<open>A logic for operations\<close>

text \<open>Assertions speak of the journal in memory and of the last event.\<close>

type_synonym assn = "wjournal \<Rightarrow> wf_event option \<Rightarrow> bool"

definition at :: "assn \<Rightarrow> wf \<Rightarrow> bool" where
  "at P s \<longleftrightarrow> P (wf_j s) (final None (wf_log s))"

text \<open>\<open>Q\<close> holds after a success, \<open>R\<close> after an error.\<close>

definition spec :: "assn \<Rightarrow> 'a act \<Rightarrow> ('a \<Rightarrow> assn) \<Rightarrow> assn \<Rightarrow> bool" where
  "spec P m Q R \<longleftrightarrow> triple advances (at P) m (\<lambda>x. at (Q x)) (at R)"

definition wf_view :: "wf \<Rightarrow> wjournal \<times> wf_event list \<times> wjournal" where
  "wf_view s = (wf_j s, wf_log s, wf_disk s)"

abbreviation quiet :: "'a act \<Rightarrow> bool" where
  "quiet m \<equiv> keeps wf_view m"

interpretation wf_run: advancing advances wf_view
proof unfold_locales
  show "advances s s'" if "wf_view s' = wf_view s" for s s'
    using that by (intro advances_quiet) (simp_all add: wf_view_def)
  show "advances s s' \<Longrightarrow> advances s' s'' \<Longrightarrow> advances s s''" for s s' s''
    by (rule advances_trans)
qed

named_theorems quiet_intro "operations that change no journal and log nothing"

declare keeps_intro [quiet_intro]

lemma quietD:
  assumes "quiet m"
  shows "wf_j (snd (m s)) = wf_j s" "wf_log (snd (m s)) = wf_log s" "wf_disk (snd (m s)) = wf_disk s"
proof -
  have "wf_view (snd (m s)) = wf_view s" using assms by (simp add: keeps_def)
  then show "wf_j (snd (m s)) = wf_j s" "wf_log (snd (m s)) = wf_log s" "wf_disk (snd (m s)) = wf_disk s"
    by (simp_all add: wf_view_def)
qed

lemma at_view: "wf_view s' = wf_view s \<Longrightarrow> at P s \<Longrightarrow> at P s'"
  by (simp add: at_def wf_view_def)

lemma quiet_ask [quiet_intro]: "quiet (ask q)"
  by (simp add: keeps_def wf_view_def ask_def)

lemma quiet_upd_obs [quiet_intro]: "quiet (upd_obs g)"
  by (rule keeps_modify) (simp add: wf_view_def)

lemma quiet_when [quiet_intro]: "quiet m \<Longrightarrow> quiet (when_act P m)"
  unfolding when_act_def by (intro quiet_intro)


subsection \<open>Rules\<close>

lemma specI:
  "(\<And>s r s'. at P s \<Longrightarrow> m s = (r, s') \<Longrightarrow>
    advances s s' \<and> (case r of Inl e \<Rightarrow> at R s' | Inr x \<Rightarrow> at (Q x) s')) \<Longrightarrow> spec P m Q R"
  unfolding spec_def by (rule tripleI)

lemma specD:
  "spec P m Q R \<Longrightarrow> at P s \<Longrightarrow> m s = (r, s') \<Longrightarrow>
     advances s s' \<and> (case r of Inl e \<Rightarrow> at R s' | Inr x \<Rightarrow> at (Q x) s')"
  unfolding spec_def by (rule tripleD)

lemma spec_conseq:
  "spec P m Q R \<Longrightarrow> (\<And>j p. P' j p \<Longrightarrow> P j p) \<Longrightarrow> (\<And>x j p. Q x j p \<Longrightarrow> Q' x j p) \<Longrightarrow>
     (\<And>j p. R j p \<Longrightarrow> R' j p) \<Longrightarrow> spec P' m Q' R'"
  unfolding spec_def by (erule triple_conseq) (simp_all add: at_def)

lemma spec_then: "spec P m M R \<Longrightarrow> (\<And>x. spec (M x) (f x) Q R) \<Longrightarrow> spec P (act_then m f) Q R"
  unfolding spec_def by (rule wf_run.then_rule)

lemma spec_quiet: "quiet m \<Longrightarrow> spec P m (\<lambda>_. P) P"
  unfolding spec_def by (erule wf_run.keeps_rule) (rule at_view)

lemma spec_with_state:
  "(\<And>s. spec (\<lambda>j p. P j p \<and> j = wf_j s) (f s) Q R) \<Longrightarrow> spec P (with_state f) Q R"
  unfolding spec_def
  by (rule triple_with_state, erule meta_allE, erule triple_conseq) (auto simp: at_def)

lemma spec_outcome:
  assumes "spec P m Q R"
  shows "spec P (outcome m) (\<lambda>r. case r of Inl e \<Rightarrow> R | Inr x \<Rightarrow> Q x) R'"
  unfolding spec_def
  by (rule triple_conseq [OF triple_outcome [OF assms [unfolded spec_def]]]) (auto split: sum.splits)

lemma spec_when:
  assumes "spec (\<lambda>j p. P j p \<and> B j) m (\<lambda>_. Q) R" "\<And>j p. P j p \<Longrightarrow> \<not> B j \<Longrightarrow> Q j p"
  shows "spec P (when_act B m) (\<lambda>_. Q) R"
  unfolding when_act_def
proof (rule spec_with_state)
  fix s
  have "spec (\<lambda>j p. P j p \<and> j = wf_j s) (ret (Inr ())) (\<lambda>_. Q) R" if "\<not> B (wf_j s)"
    using that assms(2) by (auto simp: spec_def triple_def at_def ret_def intro: advances_quiet)
  then show "spec (\<lambda>j p. P j p \<and> j = wf_j s) (if B (wf_j s) then m else ret (Inr ())) (\<lambda>_. Q) R"
    by (auto intro: spec_conseq [OF assms(1)])
qed

lemma spec_upd:
  assumes "\<And>j p. P j p \<Longrightarrow> kept j (g j) \<and> Q (g j) p"
  shows "spec P (upd_j g) (\<lambda>_. Q) R"
  using assms by (auto simp: spec_def triple_def at_def modify_def intro!: advances_quiet)

lemma spec_note:
  assumes "\<And>j p. P j p \<Longrightarrow> (\<exists>j'. p = Some (Saved j') \<and> announced e j') \<and> Q j (Some e)"
    and "\<And>j. e \<noteq> Saved j"
  shows "spec P (note_event e) (\<lambda>_. Q) R"
proof (rule specI)
  fix s r s' assume s: "at P s" "note_event e s = (r, s')"
  then have s': "s' = s\<lparr>wf_log := wf_log s @ [e]\<rparr>" "r = Inr ()" by (simp_all add: note_event_def modify_def)
  from assms(1) s(1) obtain j' where "final None (wf_log s) = Some (Saved j')" "announced e j'"
    unfolding at_def by blast
  then have w: "written_ahead (final None (wf_log s)) [e]" by (cases e) (use assms(2) in auto)
  have "saves [e] = []" by (cases e) (use assms(2) in auto)
  then have "advances s s'" using w by (intro advancesI [of _ _ "[e]"]) (simp_all add: s')
  moreover have "at Q s'" using assms(1) s(1) by (simp add: at_def s' final_def)
  ultimately show "advances s s' \<and> (case r of Inl e \<Rightarrow> at R s' | Inr x \<Rightarrow> at Q s')" by (simp add: s')
qed

lemma validate_stages: "validate_journal w f j = Inr u \<Longrightarrow> stages_ok j"
  by (auto simp: validate_journal_def)

lemma quiet_validate [quiet_intro]: "quiet (wf_validate w)"
  unfolding wf_validate_def by (intro quiet_intro)

lemma spec_quiet_fact:
  assumes "quiet m" "\<And>s x. fst (m s) = Inr x \<Longrightarrow> F (wf_j s)"
  shows "spec P m (\<lambda>_ j p. P j p \<and> F j) P"
proof -
  have "triple advances (at P) m (\<lambda>x s. at P s \<and> F (wf_j s)) (at P)"
    by (rule wf_run.fact_rule [OF assms(1) at_view]) (simp_all add: quietD [OF assms(1)] assms(2))
  then show ?thesis unfolding spec_def by (rule triple_conseq) (simp_all add: at_def)
qed

lemma spec_validate: "spec P (wf_validate w) (\<lambda>_ j p. P j p \<and> stages_ok j) P"
  by (rule spec_quiet_fact [OF quiet_validate])
    (auto simp: wf_validate_def with_state_def ask_def dest: validate_stages)

lemma spec_store:
  assumes "\<And>j p. P j p \<Longrightarrow> stages_ok j \<and> Q j (Some (Saved j)) \<and> R j p \<and> R j (Some (Saved j))"
  shows "spec P (store_journal w) (\<lambda>_. Q) R"
proof (rule specI)
  fix s r s' assume s: "at P s" "store_journal w s = (r, s')"
  obtain durable r0 where w: "w_save w (wf_clock s) = (durable, r0)" by (cases "w_save w (wf_clock s)")
  note P = assms [OF s(1) [unfolded at_def]]
  show "advances s s' \<and> (case r of Inl e \<Rightarrow> at R s' | Inr x \<Rightarrow> at Q s')"
  proof (cases "durable \<or> r0 = Inr ()")
    case True
    then have s': "s' = s\<lparr>wf_clock := Suc (wf_clock s), wf_disk := wf_j s, wf_log := wf_log s @ [Saved (wf_j s)]\<rparr>"
      using s(2) w by (auto simp: store_journal_def Let_def)
    have "advances s s'" using P by (intro advancesI [of _ _ "[Saved (wf_j s)]"]) (simp_all add: s')
    then show ?thesis using P by (auto simp: s' at_def final_def split: sum.splits)
  next
    case False
    then have s': "s' = s\<lparr>wf_clock := Suc (wf_clock s)\<rparr>" "\<exists>e. r = Inl e"
      using s(2) w by (cases r0; auto simp: store_journal_def Let_def)+
    have "advances s s'" by (intro advances_quiet) (simp_all add: s')
    then show ?thesis using P s'(2) by (auto simp: s'(1) at_def)
  qed
qed

lemma spec_save:
  assumes "\<And>j p. P j p \<Longrightarrow> R j p" "\<And>j p. P j p \<Longrightarrow> stages_ok j \<Longrightarrow> Q j (Some (Saved j)) \<and> R j (Some (Saved j))"
  shows "spec P (save w) (\<lambda>_. Q) R"
  unfolding save_def
proof (rule spec_then)
  show "spec P (wf_validate w) (\<lambda>_ j p. P j p \<and> stages_ok j) R"
    by (rule spec_conseq [OF spec_validate [of P]]) (auto intro: assms(1))
  show "spec (\<lambda>j p. P j p \<and> stages_ok j) (store_journal w) (\<lambda>_. Q) R"
    by (rule spec_store) (use assms in blast)
qed

lemma spec_if:
  "spec P m Q R \<Longrightarrow> spec P n Q R \<Longrightarrow> spec P (if b then m else n) Q R"
  by simp


section \<open>The operations keep the log\<close>

definition tame :: "'a act \<Rightarrow> bool" where
  "tame m \<longleftrightarrow> spec (\<lambda>_ _. True) m (\<lambda>_ _ _. True) (\<lambda>_ _. True)"

named_theorems tame_intro "operations that keep what durable journals promise"

lemma tame_quiet: "quiet m \<Longrightarrow> tame m"
  unfolding tame_def by (rule spec_quiet)

lemma tame_then [tame_intro]: "tame m \<Longrightarrow> (\<And>x. tame (f x)) \<Longrightarrow> tame (act_then m f)"
  unfolding tame_def by (rule spec_then)

lemma tame_weaken: "spec P m Q R \<Longrightarrow> (\<And>j p. P j p) \<Longrightarrow> tame m"
  unfolding tame_def by (erule spec_conseq) simp_all

lemma tame_with_state [tame_intro]: "(\<And>s. tame (f s)) \<Longrightarrow> tame (with_state f)"
  unfolding tame_def by (rule spec_with_state, rule spec_conseq) auto

lemma tame_outcome [tame_intro]:
  assumes "tame m"
  shows "tame (outcome m)"
  unfolding tame_def
  by (rule spec_conseq [OF spec_outcome [OF assms [unfolded tame_def]]]) (auto split: sum.splits)

lemma tame_when [tame_intro]: "tame m \<Longrightarrow> tame (when_act P m)"
  unfolding tame_def by (rule spec_when, rule spec_conseq) auto

lemma tame_if [tame_intro]: "tame m \<Longrightarrow> tame n \<Longrightarrow> tame (if b then m else n)"
  by simp

lemma tame_option [tame_intro]:
  "tame m \<Longrightarrow> (\<And>x. tame (f x)) \<Longrightarrow> tame (case o' of None \<Rightarrow> m | Some x \<Rightarrow> f x)"
  by (cases o') auto

lemma tame_sum [tame_intro]:
  "(\<And>x. tame (f x)) \<Longrightarrow> (\<And>x. tame (g x)) \<Longrightarrow> tame (case r of Inl x \<Rightarrow> f x | Inr x \<Rightarrow> g x)"
  by (cases r) auto

lemma tame_upd: "(\<And>j. kept j (g j)) \<Longrightarrow> tame (upd_j g)"
  unfolding tame_def by (rule spec_upd) simp

lemma tame_upd_other [tame_intro]:
  "(\<And>j. j_installation (g j) = j_installation j) \<Longrightarrow> (\<And>j. j_registration (g j) = j_registration j) \<Longrightarrow>
     tame (upd_j g)"
  by (rule tame_upd) (rule kept_same)

lemma tame_save [tame_intro]: "tame (save w)"
  unfolding tame_def by (rule spec_save) simp_all

lemmas tame_basic [tame_intro] = keeps_ret [THEN tame_quiet] quiet_ask [THEN tame_quiet]
  quiet_upd_obs [THEN tame_quiet]

lemma quiet_current_plan [quiet_intro]: "quiet current_plan"
  unfolding current_plan_def by (intro quiet_intro)

lemma quiet_require_new [quiet_intro]: "quiet (require_new_directory w d)"
  unfolding require_new_directory_def by (intro quiet_intro)

lemma quiet_require_phase [quiet_intro]: "quiet (require_phase P)"
  unfolding require_phase_def by (intro quiet_intro)

lemma quiet_check_generated [quiet_intro]: "quiet (check_generated w p e)"
  unfolding check_generated_def by (intro quiet_intro)

lemma quiet_clear [quiet_intro]: "quiet (clear_service_observation r)"
  unfolding clear_service_observation_def by (intro quiet_intro)

lemma quiet_verify_plan [quiet_intro]: "quiet (verify_plan w)"
  unfolding verify_plan_def verify_registered_def verify_sources_def by (intro quiet_intro)

lemma quiet_check_supply [quiet_intro]: "quiet (check_supply w)"
  unfolding check_supply_def by (intro quiet_intro)

lemma quiet_check_origin [quiet_intro]: "quiet (check_origin w src)"
  unfolding check_origin_def by (intro quiet_intro)

lemma quiet_verify_application [quiet_intro]: "quiet (verify_application w)"
  unfolding verify_application_def by (intro quiet_intro)

lemmas tame_quiet_ops [tame_intro] = quiet_current_plan [THEN tame_quiet] quiet_require_new [THEN tame_quiet]
  quiet_require_phase [THEN tame_quiet] quiet_check_generated [THEN tame_quiet] quiet_clear [THEN tame_quiet]
  quiet_verify_plan [THEN tame_quiet] quiet_check_origin [THEN tame_quiet]
  quiet_verify_application [THEN tame_quiet]

lemma verify_plan_stages: "fst (verify_plan w s) = Inr x \<Longrightarrow> stages_ok (wf_j s)"
  by (auto simp: verify_plan_def act_then_def ask_def wf_validate_def with_state_def
      dest: validate_stages split: prod.splits sum.splits)

lemma spec_verify_plan: "spec P (verify_plan w) (\<lambda>_ j p. P j p \<and> stages_ok j) P"
  by (rule spec_quiet_fact [OF quiet_verify_plan]) (rule verify_plan_stages)

lemma kept_confirm_installation:
  "kept j (j\<lparr>j_installation := (j_installation j)\<lparr>stage_phase := Confirmed\<rparr>\<rparr>)"
  by (simp add: kept_def stage_kept_def)

lemma kept_confirm_registration:
  "kept j (j\<lparr>j_registration := (j_registration j)\<lparr>stage_phase := Confirmed\<rparr>\<rparr>)"
  by (simp add: kept_def stage_kept_def)

lemmas tame_confirm [tame_intro] = tame_upd [OF kept_confirm_installation] tame_upd [OF kept_confirm_registration]

lemma tame_forget_plan [tame_intro]: "tame forget_plan"
  unfolding forget_plan_def by (intro tame_intro) simp_all

lemma tame_set_inputs: "tame (set_inputs w i)"
  unfolding set_inputs_def by (intro tame_intro) simp_all

lemma tame_edit [tame_intro]: "tame (edit w)"
  unfolding edit_def by (intro tame_intro)

lemma tame_set_field: "tame (set_field w name answer)"
  unfolding set_field_def by (intro tame_intro)

lemma tame_prepare [tame_intro]: "tame (prepare w)"
  unfolding prepare_def Let_def by (intro tame_intro) simp_all

lemma tame_observe_initialization [tame_intro]: "tame (observe_initialization v)"
  unfolding observe_initialization_def by (intro tame_intro) simp_all

lemma tame_set_service [tame_intro]: "tame (set_service v)"
  unfolding set_service_def by (intro tame_intro) simp_all

lemma tame_accept [tame_intro]: "tame (accept_service_observation r)"
  unfolding accept_service_observation_def by (intro tame_intro) simp_all

lemma tame_observe_service [tame_intro]: "tame (observe_service w)"
  unfolding observe_service_def by (intro tame_intro)

lemma tame_reconcile_stages [tame_intro]:
  "tame (reconcile_installation w p)" "tame (reconcile_registration w p)" "tame (inspect_registration w p)"
  unfolding reconcile_installation_def reconcile_registration_def inspect_registration_def
  by (intro tame_intro)+

lemma tame_reconcile [tame_intro]: "tame (reconcile w)"
  unfolding reconcile_def by (intro tame_intro) simp_all

lemma tame_reconcile_application [tame_intro]: "tame (reconcile_application w)"
  unfolding reconcile_application_def by (intro tame_intro) simp_all

lemma tame_wait: "tame (wait w)"
  unfolding wait_def by (intro tame_intro)


subsection \<open>The operations with outside effects\<close>

text \<open>Steps of a proof: a quiet operation, and one whose outcome is not used further.\<close>

lemma spec_then_quiet: "quiet m \<Longrightarrow> (\<And>x. spec P (f x) Q P) \<Longrightarrow> spec P (act_then m f) Q P"
  by (rule spec_then [OF spec_quiet])

lemma spec_tame: "tame m \<Longrightarrow> spec P m (\<lambda>_ _ _. True) (\<lambda>_ _. True)"
  unfolding tame_def by (erule spec_conseq) simp_all

lemma spec_any: "spec P m Q R \<Longrightarrow> spec P m (\<lambda>_ _ _. True) (\<lambda>_ _. True)"
  by (erule spec_conseq) simp_all

text \<open>A quiet operation before one that is only required to be tame.\<close>

lemma spec_quiet_any:
  "quiet m \<Longrightarrow> (\<And>x. spec P (f x) Q (\<lambda>_ _. True)) \<Longrightarrow> spec P (act_then m f) Q (\<lambda>_ _. True)"
  by (rule spec_then [of P m "\<lambda>_. P"], rule spec_conseq [OF spec_quiet]) simp_all

lemma spec_step:
  "spec P m (\<lambda>_. M) (\<lambda>_ _. True) \<Longrightarrow> (\<And>x. spec M (f x) Q (\<lambda>_ _. True)) \<Longrightarrow>
     spec P (act_then m f) Q (\<lambda>_ _. True)"
  by (rule spec_then)

lemma spec_verify_step:
  "(\<And>x. spec (\<lambda>j p. P j p \<and> stages_ok j) (f x) Q (\<lambda>_ _. True)) \<Longrightarrow>
     spec P (act_then (verify_plan w) f) Q (\<lambda>_ _. True)"
  by (rule spec_step [of P _ "\<lambda>j p. P j p \<and> stages_ok j"], rule spec_conseq [OF spec_verify_plan [of P w]])
    simp_all

lemma tame_generate_step [tame_intro]: "tame (generate_step w p)"
  unfolding tame_def generate_step_def
  apply (rule spec_when)
   apply (rule spec_quiet_any, rule quiet_ask)
   apply (rule spec_quiet_any, rule quiet_require_new)
   apply (rule spec_step [of _ _ "\<lambda>j p. j_generated j = InProgress"])
    apply (rule spec_upd, simp add: kept_same)
   apply (rule spec_step [of _ _ "\<lambda>j p. j_generated j = InProgress \<and> p = Some (Saved j)"])
    apply (rule spec_save, simp_all)
  apply (rule spec_quiet_any, rule quiet_ask)
  apply (rule spec_step [of _ _ "\<lambda>_ _. True"])
   apply (rule spec_note, simp, simp)
  apply (rule spec_tame, intro tame_intro, simp_all)
  done

lemma spec_failed_phase:
  "spec (\<lambda>j p. stage_phase (get j) = InProgress) (failed_phase w get d)
     (\<lambda>ph j p. stage_phase (get j) = InProgress \<and> (ph = Pending \<longrightarrow> stage_root (get j) = None)) (\<lambda>_ _. True)"
proof -
  have q: "quiet (failed_phase w get d)" unfolding failed_phase_def by (intro quiet_intro)
  have f: "ph = Pending \<longrightarrow> stage_root (get (wf_j s)) = None" if "fst (failed_phase w get d s) = Inr ph" for s ph
    using that by (auto simp: failed_phase_def with_state_def ret_def split: if_splits)
  show ?thesis
    unfolding spec_def triple_def at_def
  proof (intro allI impI conjI)
    fix s :: wf assume P: "stage_phase (get (wf_j s)) = InProgress"
    have qs: "wf_j (snd (failed_phase w get d s)) = wf_j s"
      "wf_log (snd (failed_phase w get d s)) = wf_log s" "wf_disk (snd (failed_phase w get d s)) = wf_disk s"
      by (rule quietD [OF q])+
    then show "advances s (snd (failed_phase w get d s))" by (intro advances_quiet) simp_all
    show "case fst (failed_phase w get d s) of Inl e \<Rightarrow> True
      | Inr ph \<Rightarrow> stage_phase (get (wf_j (snd (failed_phase w get d s)))) = InProgress \<and>
         (ph = Pending \<longrightarrow> stage_root (get (wf_j (snd (failed_phase w get d s)))) = None)"
      using P qs(1) f by (auto split: sum.splits)
  qed
qed

lemma spec_run_install:
  "spec (\<lambda>j p. j_installation j = \<lparr>stage_phase = InProgress, stage_root = None\<rparr> \<and>
       j_generated j = Confirmed \<and> p = Some (Saved j))
     (run_install w p) (\<lambda>_ _ _. True) (\<lambda>j p. stage_phase (j_installation j) = InProgress)"
  (is "spec ?A _ _ ?E")
proof -
  let ?N = "\<lambda>j p. j_installation j = \<lparr>stage_phase = InProgress, stage_root = None\<rparr>"
  have root: "spec ?N (record_root w put_installation r) (\<lambda>_. ?E) ?E" for r
  proof (cases r)
    case None
    then show ?thesis
      by (simp add: record_root_def) (rule spec_conseq [OF spec_quiet [OF keeps_ret, of ?N]], auto)
  next
    case (Some i)
    show ?thesis
      unfolding record_root_def Some option.case
    proof (rule spec_then [of _ _ "\<lambda>_. ?E"])
      show "spec ?N (upd_j (put_installation i)) (\<lambda>_. ?E) ?E"
        by (rule spec_upd) (simp add: put_installation_def kept_def stage_kept_def)
      show "spec ?E (save w) (\<lambda>_. ?E) ?E" by (rule spec_save) simp_all
    qed
  qed
  have rest: "quiet m \<Longrightarrow> spec ?E m (\<lambda>_ _ _. True) ?E" for m :: "unit act"
    by (rule spec_conseq [OF spec_quiet [of m ?E]]) simp_all
  show ?thesis
    unfolding run_install_def
    apply (rule spec_then [of _ _ "\<lambda>_. ?N"], rule spec_note, simp, simp)
    apply (rule spec_then [of _ _ "\<lambda>_. ?N"], rule spec_conseq [OF spec_quiet [OF quiet_ask, of ?N]], simp_all)
    apply (clarsimp split: prod.splits)
    apply (rule spec_then [OF root])
    apply (rule rest)
    apply (intro quiet_intro)
    done
qed


lemma kept_installation_phase:
  "stage_phase (j_installation j) = InProgress \<Longrightarrow> ph = Pending \<longrightarrow> stage_root (j_installation j) = None \<Longrightarrow>
     kept j (j\<lparr>j_installation := (j_installation j)\<lparr>stage_phase := ph\<rparr>\<rparr>)"
  by (auto simp: kept_def stage_kept_def)

lemma kept_registration_phase:
  "stage_phase (j_registration j) = InProgress \<Longrightarrow> ph = Pending \<longrightarrow> stage_root (j_registration j) = None \<Longrightarrow>
     kept j (j\<lparr>j_registration := (j_registration j)\<lparr>stage_phase := ph\<rparr>\<rparr>)"
  by (auto simp: kept_def stage_kept_def)

lemma pending_no_root:
  "stages_ok j \<Longrightarrow> stage_phase (j_installation j) = Pending \<Longrightarrow> stage_root (j_installation j) = None"
  "stages_ok j \<Longrightarrow> stage_phase (j_registration j) = Pending \<Longrightarrow> stage_root (j_registration j) = None"
  unfolding stages_ok_def by argo+

lemma stage_eta: "x\<lparr>stage_phase := a\<rparr> = \<lparr>stage_phase = a, stage_root = stage_root x\<rparr>" for x :: stage
  by simp

text \<open>The tail after a failed call: choose the phase, record it, save, fail.\<close>

lemma tame_failed_tail:
  "spec (\<lambda>j p. stage_phase (j_installation j) = InProgress)
     (act_then (failed_phase w j_installation d) (\<lambda>ph.
      act_then (upd_installation (\<lambda>x. x\<lparr>stage_phase := ph\<rparr>)) (\<lambda>_.
      act_then (save w) (\<lambda>_. ret (Inl e))))) (\<lambda>_ _ _. True) (\<lambda>_ _. True)"
  "spec (\<lambda>j p. stage_phase (j_registration j) = InProgress)
     (act_then (failed_phase w j_registration d) (\<lambda>ph.
      act_then (upd_registration (\<lambda>x. x\<lparr>stage_phase := ph\<rparr>)) (\<lambda>_.
      act_then (save w) (\<lambda>_. ret (Inl e))))) (\<lambda>_ _ _. True) (\<lambda>_ _. True)"
   apply (rule spec_then [OF spec_failed_phase])
   apply (rule spec_step [of _ _ "\<lambda>_ _. True"], rule spec_upd, simp add: kept_installation_phase)
   apply (rule spec_tame, intro tame_intro)
  apply (rule spec_then [OF spec_failed_phase])
  apply (rule spec_step [of _ _ "\<lambda>_ _. True"], rule spec_upd, simp add: kept_registration_phase)
  apply (rule spec_tame, intro tame_intro)
  done

lemma spec_install_step:
  "spec (\<lambda>j p. j_generated j = Confirmed) (install_step w p) (\<lambda>_ _ _. True) (\<lambda>_ _. True)"
  unfolding install_step_def
  apply (rule spec_when)
   apply (rule spec_quiet_any, rule quiet_ask)
   apply (rule spec_verify_step)
   apply (rule spec_quiet_any, rule keeps_ret)
   apply (rule spec_quiet_any, rule quiet_require_new)
   apply (rule spec_step [of _ _ "\<lambda>j p. j_installation j = \<lparr>stage_phase = InProgress, stage_root = None\<rparr> \<and>
        j_generated j = Confirmed"])
    apply (rule spec_upd)
    apply (clarsimp simp: kept_def stage_kept_def stage_eta pending_no_root simp del: stage.update_convs)
   apply (rule spec_step [of _ _ "\<lambda>j p. j_installation j = \<lparr>stage_phase = InProgress, stage_root = None\<rparr> \<and>
        j_generated j = Confirmed \<and> p = Some (Saved j)"])
    apply (rule spec_save, simp, simp)
   apply (rule spec_then, rule spec_outcome, rule spec_run_install)
  subgoal for _ _ dest _ _ _ r
  proof (cases r)
    case (Inl e)
    then show ?thesis using tame_failed_tail(1) by simp
  next
    case (Inr u)
    have "tame (act_then (upd_installation (\<lambda>x. x\<lparr>stage_phase := Confirmed\<rparr>)) (\<lambda>_. save w))"
      by (intro tame_intro)
    then show ?thesis using Inr by (simp add: tame_def)
  qed
  apply simp
  done


lemma spec_run_register:
  "spec (\<lambda>j p. j_registration j = \<lparr>stage_phase = InProgress, stage_root = None\<rparr> \<and>
       stage_phase (j_installation j) = Confirmed \<and> j_generated j = Confirmed \<and> p = Some (Saved j))
     (run_register w p) (\<lambda>_ _ _. True) (\<lambda>j p. stage_phase (j_registration j) = InProgress)"
  (is "spec ?A _ _ ?E")
proof -
  let ?N = "\<lambda>j p. j_registration j = \<lparr>stage_phase = InProgress, stage_root = None\<rparr>"
  have root: "spec ?N (record_root w put_registration r) (\<lambda>_. ?E) ?E" for r
  proof (cases r)
    case None
    then show ?thesis
      by (simp add: record_root_def) (rule spec_conseq [OF spec_quiet [OF keeps_ret, of ?N]], auto)
  next
    case (Some i)
    show ?thesis
      unfolding record_root_def Some option.case
    proof (rule spec_then [of _ _ "\<lambda>_. ?E"])
      show "spec ?N (upd_j (put_registration i)) (\<lambda>_. ?E) ?E"
        by (rule spec_upd) (simp add: put_registration_def kept_def stage_kept_def)
      show "spec ?E (save w) (\<lambda>_. ?E) ?E" by (rule spec_save) simp_all
    qed
  qed
  have rest: "quiet m \<Longrightarrow> spec ?E m (\<lambda>_ _ _. True) ?E" for m :: "instance_summary act"
    by (rule spec_conseq [OF spec_quiet [of m ?E]]) simp_all
  show ?thesis
    unfolding run_register_def
    apply (rule spec_then [of _ _ "\<lambda>_. ?A"], rule spec_conseq [OF spec_quiet [OF keeps_ret, of ?A]], simp_all)
    apply (rule spec_then [of _ _ "\<lambda>_. ?N"], rule spec_note, simp, simp)
    apply (rule spec_then [of _ _ "\<lambda>_. ?N"], rule spec_conseq [OF spec_quiet [OF quiet_ask, of ?N]], simp_all)
    apply (clarsimp split: prod.splits)
    apply (rule spec_then [OF root])
    apply (rule rest)
    apply (intro quiet_intro)
    done
qed

text \<open>In a well-ordered journal a stage that has begun has every stage before it confirmed.\<close>

lemma registration_entered:
  assumes "stages_ok j" "stage_phase (j_registration j) \<noteq> Pending"
  shows "stage_phase (j_installation j) = Confirmed" "j_generated j = Confirmed"
  using assms unfolding stages_ok_def by argo+

lemma tame_register_step [tame_intro]: "tame (register_step w p)"
  unfolding tame_def register_step_def
  apply (rule spec_when)
   apply (rule spec_quiet_any, rule quiet_ask)
   apply (rule spec_verify_step)
   apply (rule spec_quiet_any, rule keeps_ret)
   apply (rule spec_quiet_any, rule quiet_require_new)
   apply (rule spec_quiet_any, rule quiet_require_new)
   apply (rule spec_step [of _ _ "\<lambda>j p. j_registration j = \<lparr>stage_phase = InProgress, stage_root = None\<rparr>"])
    apply (rule spec_upd)
    apply (clarsimp simp: kept_def stage_kept_def stage_eta pending_no_root simp del: stage.update_convs)
   apply (rule spec_step [of _ _ "\<lambda>j p. j_registration j = \<lparr>stage_phase = InProgress, stage_root = None\<rparr> \<and>
        stage_phase (j_installation j) = Confirmed \<and> j_generated j = Confirmed \<and> p = Some (Saved j)"])
    apply (rule spec_save, simp, simp add: registration_entered)
   apply (rule spec_then, rule spec_outcome, rule spec_run_register)
  subgoal for _ _ _ _ _ _ _ r
  proof (cases r)
    case (Inl e)
    then show ?thesis using tame_failed_tail(2) by simp
  next
    case (Inr v)
    have "tame (act_then (upd_registration (\<lambda>x. x\<lparr>stage_phase := Confirmed\<rparr>)) (\<lambda>_.
        act_then (observe_initialization v) (\<lambda>_. save w)))"
      by (intro tame_intro)
    then show ?thesis using Inr by (simp add: tame_def)
  qed
  apply simp
  done

text \<open>A tame operation first; what matters is checked after it.\<close>

lemma spec_tame_step:
  "tame m \<Longrightarrow> (\<And>x. spec (\<lambda>_ _. True) (f x) Q (\<lambda>_ _. True)) \<Longrightarrow> spec P (act_then m f) Q (\<lambda>_ _. True)"
  by (rule spec_then [OF spec_tame])

text \<open>After a required phase the journal has it.\<close>

lemma spec_required:
  "(\<And>x. spec (\<lambda>j p. B j) (f x) Q (\<lambda>_ _. True)) \<Longrightarrow> spec P (act_then (require_phase B) f) Q (\<lambda>_ _. True)"
  by (rule spec_step [of _ _ "\<lambda>j p. B j"], rule spec_conseq [OF spec_quiet_fact [OF quiet_require_phase, where F = B]])
    (auto simp: require_phase_def with_state_def ret_def ensure_def split: if_splits)

lemma tame_apply [tame_intro]: "tame (apply_with_guard w)"
  unfolding tame_def apply_with_guard_def
  apply (rule spec_verify_step)
  apply (rule spec_quiet_any, rule quiet_current_plan)
  apply (rule spec_quiet_any, rule quiet_ask)
  apply (rule spec_tame_step, rule tame_generate_step)
  apply (rule spec_required)
  apply (rule spec_then [OF spec_install_step])
  apply (rule spec_tame, intro tame_intro)
  done

lemma tame_apply_prepared: "tame (apply_prepared w src)"
  unfolding apply_prepared_def by (intro tame_intro)

lemma initialization_entered:
  assumes "stages_ok j" "j_initialization j \<noteq> Pending"
  shows "stage_phase (j_registration j) = Confirmed" "stage_phase (j_installation j) = Confirmed"
    "j_generated j = Confirmed"
proof -
  show r: "stage_phase (j_registration j) = Confirmed" using assms unfolding stages_ok_def by argo
  have "stage_phase (j_registration j) \<noteq> Pending" using r by simp
  note registration_entered [OF assms(1) this]
  then show "stage_phase (j_installation j) = Confirmed" "j_generated j = Confirmed" .
qed

lemma start_entered:
  assumes "stages_ok j" "j_start j \<noteq> Pending"
  shows "j_initialization j = Confirmed" "stage_phase (j_registration j) = Confirmed"
    "stage_phase (j_installation j) = Confirmed" "j_generated j = Confirmed"
proof -
  show i: "j_initialization j = Confirmed" using assms unfolding stages_ok_def by argo
  have "j_initialization j \<noteq> Pending" using i by simp
  note initialization_entered [OF assms(1) this]
  then show "stage_phase (j_registration j) = Confirmed" "stage_phase (j_installation j) = Confirmed"
    "j_generated j = Confirmed" .
qed

lemma tame_initialize: "tame (initialize w resume)"
  unfolding tame_def initialize_def
  apply (rule spec_tame_step [OF tame_reconcile])
  apply (rule spec_quiet_any, rule quiet_require_phase)
  apply (rule spec_quiet_any, rule quiet_ask)
  apply (rule spec_quiet_any, rule quiet_current_plan)
  apply (rule spec_quiet_any, intro quiet_intro)
  apply (rule spec_step [of _ _ "\<lambda>j p. j_initialization j = InProgress"])
   apply (rule spec_upd, simp add: kept_same)
  apply (rule spec_step [of _ _ "\<lambda>j p. j_initialization j = InProgress \<and>
      stage_phase (j_registration j) = Confirmed \<and> stage_phase (j_installation j) = Confirmed \<and>
      j_generated j = Confirmed \<and> p = Some (Saved j)"])
   apply (rule spec_save, simp, simp add: initialization_entered)
  apply (rule spec_quiet_any, rule keeps_ret)
  apply (rule spec_step [of _ _ "\<lambda>_ _. True"], rule spec_note, simp, simp)
  apply (rule spec_tame, intro tame_intro, simp_all)
  done

lemma tame_start: "tame (start w)"
  unfolding tame_def start_def
  apply (rule spec_tame_step [OF tame_reconcile])
  apply (rule spec_quiet_any, rule quiet_require_phase)
  apply (rule spec_quiet_any, rule quiet_ask)
  apply (rule spec_quiet_any, rule quiet_current_plan)
  apply (rule spec_step [of _ _ "\<lambda>j p. j_start j = InProgress"])
   apply (rule spec_upd, simp add: kept_same)
  apply (rule spec_step [of _ _ "\<lambda>j p. j_start j = InProgress \<and> j_initialization j = Confirmed \<and>
      stage_phase (j_registration j) = Confirmed \<and> stage_phase (j_installation j) = Confirmed \<and>
      j_generated j = Confirmed \<and> p = Some (Saved j)"])
   apply (rule spec_save, simp, simp add: start_entered)
  apply (rule spec_quiet_any, rule keeps_ret)
  apply (rule spec_step [of _ _ "\<lambda>_ _. True"], rule spec_note, simp, simp)
  apply (rule spec_tame, intro tame_intro, simp_all)
  done


section \<open>Histories\<close>

lemma tame_run_op: "tame (run_op w a)"
  by (cases a) (simp_all add: tame_set_inputs tame_set_field tame_edit tame_prepare tame_reconcile
      tame_apply tame_apply_prepared tame_initialize tame_start tame_wait)

lemma run_op_advances: "run_op w a s = (r, s') \<Longrightarrow> advances s s'"
  using specD [OF tame_run_op [unfolded tame_def], of s w a r s'] by (simp add: at_def)

text \<open>The process is gone after part of an operation: memory is lost, the journal on disk stays.\<close>

definition interrupted :: "wf \<Rightarrow> wf_event list \<Rightarrow> wf" where
  "interrupted s seen =
     (let d = last (wf_disk s # saves seen) in
      s\<lparr>wf_j := d, wf_obs := not_observed, wf_disk := d, wf_log := wf_log s @ seen\<rparr>)"

text \<open>
  All histories of a workflow from a journal that loads (\<open>load\<close> validates it; the journal \<open>create\<close>
  writes is one): any operations in any order, each in a world of its own, and interruptions at
  any point of an operation, after which the journal is loaded again.
\<close>

inductive history :: "wf \<Rightarrow> bool" where
  loaded: "validate_journal w f j = Inr () \<Longrightarrow>
    history \<lparr>wf_j = j, wf_obs = not_observed, wf_clock = t, wf_disk = j, wf_log = [Saved j]\<rparr>"
| operated: "history s \<Longrightarrow> run_op w a s = (r, s') \<Longrightarrow> history s'"
| stopped: "history s \<Longrightarrow> run_op w a s = (r, s') \<Longrightarrow> wf_log s' = wf_log s @ seen @ lost \<Longrightarrow>
    history (interrupted s seen)"

definition sound_log :: "wf \<Rightarrow> bool" where
  "sound_log s \<longleftrightarrow> written_ahead None (wf_log s) \<and> sorted_wrt kept (saves (wf_log s) @ [wf_j s]) \<and>
     saves (wf_log s) \<noteq> [] \<and> wf_disk s = last (saves (wf_log s))"

lemma sorted_kept_append:
  assumes 1: "sorted_wrt kept (xs @ [j])" and 2: "sorted_wrt kept (j # ys)"
  shows "sorted_wrt kept (xs @ ys)"
proof (unfold sorted_wrt_append, intro conjI ballI)
  from 1 show "sorted_wrt kept xs" by (simp add: sorted_wrt_append)
  from 2 show "sorted_wrt kept ys" by simp
  fix x y assume "x \<in> set xs" "y \<in> set ys"
  with 1 2 have "kept x j" "kept j y" by (simp_all add: sorted_wrt_append)
  then show "kept x y" by (rule kept_trans)
qed

lemma sorted_kept_last: "sorted_wrt kept xs \<Longrightarrow> xs \<noteq> [] \<Longrightarrow> sorted_wrt kept (xs @ [last xs])"
  by (cases xs rule: rev_cases) (auto simp: sorted_wrt_append)

lemma sound_advances:
  assumes "sound_log s" "advances s s'"
  shows "sound_log s'"
proof -
  obtain new where n: "wf_log s' = wf_log s @ new" "written_ahead (final None (wf_log s)) new"
    "sorted_wrt kept (wf_j s # saves new @ [wf_j s'])" "wf_disk s' = last (wf_disk s # saves new)"
    using assms(2) unfolding advances_def by blast
  have "sorted_wrt kept (saves (wf_log s) @ saves new @ [wf_j s'])"
    by (rule sorted_kept_append [of _ "wf_j s"]) (use assms(1) n(3) in \<open>simp_all add: sound_log_def\<close>)
  then show ?thesis using assms(1) n by (auto simp: sound_log_def written_ahead_append)
qed

lemma sound_interrupted:
  assumes "sound_log s" "advances s s'" "wf_log s' = wf_log s @ seen @ lost"
  shows "sound_log (interrupted s seen)"
proof -
  obtain new where n: "wf_log s' = wf_log s @ new" "written_ahead (final None (wf_log s)) new"
    "sorted_wrt kept (wf_j s # saves new @ [wf_j s'])"
    using assms(2) unfolding advances_def by blast
  have new: "new = seen @ lost" using n(1) assms(3) by simp
  let ?all = "saves (wf_log s) @ saves seen"
  have seen: "sorted_wrt kept (wf_j s # saves seen)" using n(3) by (simp add: new sorted_wrt_append)
  have all: "sorted_wrt kept ?all"
    by (rule sorted_kept_append [OF _ seen]) (use assms(1) in \<open>simp add: sound_log_def\<close>)
  have ne: "?all \<noteq> []" using assms(1) by (simp add: sound_log_def)
  have d: "last (wf_disk s # saves seen) = last ?all" using assms(1) by (simp add: sound_log_def)
  have fin: "sorted_wrt kept (saves (wf_log s @ seen) @ [last (wf_disk s # saves seen)])"
    unfolding d saves_simps(2) by (rule sorted_kept_last [OF all ne])
  have w: "written_ahead None (wf_log s @ seen)"
    using assms(1) n(2) by (simp add: sound_log_def written_ahead_append new)
  have l: "last (wf_disk s # saves seen) = last (saves (wf_log s @ seen))"
    unfolding d saves_simps(2) ..
  show ?thesis
    unfolding sound_log_def interrupted_def Let_def wf.simps using w fin l ne by simp
qed

lemma history_sound: "history s \<Longrightarrow> sound_log s"
proof (induction rule: history.induct)
  case (loaded w f j t)
  then show ?case by (auto simp: sound_log_def dest: validate_stages)
next
  case (operated s w a r s')
  then show ?case using sound_advances run_op_advances by blast
next
  case (stopped s w a r s' seen lost)
  then show ?case using sound_interrupted run_op_advances by blast
qed


section \<open>Properties\<close>

lemma in_saves: "Saved j \<in> set l \<longleftrightarrow> j \<in> set (saves l)"
  by (induction l) (auto simp: saves_def map_filter_simps split: wf_event.splits)

lemma history_kept:
  assumes "history s" "saves (wf_log s) = xs @ j # ys" "j' \<in> set ys"
  shows "kept j j'"
  using history_sound [OF assms(1)] assms(2,3) by (auto simp: sound_log_def sorted_wrt_append)

lemma history_announced:
  assumes "history s" "wf_log s = xs @ e # ys" "\<And>j. e \<noteq> Saved j"
  shows "\<exists>xs' j. xs = xs' @ [Saved j] \<and> announced e j \<and> stages_ok j"
proof -
  have w: "written_ahead None (xs @ e # ys)" using history_sound [OF assms(1)] assms(2) by (simp add: sound_log_def)
  then have "written_ahead (final None xs) (e # ys)" by (simp add: written_ahead_append)
  then obtain j where j: "final None xs = Some (Saved j)" "announced e j"
    using assms(3) by (cases e) (auto split: option.splits wf_event.splits)
  then have x: "xs = butlast xs @ [Saved j]" by (cases xs rule: rev_cases) (auto simp: final_def)
  have "written_ahead (final None (butlast xs)) [Saved j]"
    using w by (subst (asm) x) (simp add: written_ahead_append)
  with x j(2) show ?thesis by auto
qed

lemma history_first_call:
  assumes "history s" "wf_log s = xs @ e # ys" "Saved j \<in> set xs"
  shows "(e = Called_Install \<longrightarrow> stage_root (j_installation j) = None \<and> stage_phase (j_installation j) \<noteq> Confirmed) \<and>
    (e = Called_Register \<longrightarrow> stage_root (j_registration j) = None \<and> stage_phase (j_registration j) \<noteq> Confirmed)"
proof (cases "\<exists>j'. e = Saved j'")
  case False
  with history_announced [OF assms(1,2)] obtain xs' j0 where x: "xs = xs' @ [Saved j0]" "announced e j0" by blast
  have "j = j0 \<or> kept j j0"
  proof (cases "Saved j \<in> set xs'")
    case True
    then obtain a b where "saves xs' = a @ j # b" by (auto simp: in_saves dest: split_list)
    then have "saves (wf_log s) = a @ j # (b @ j0 # saves (e # ys))" using assms(2) x(1) by simp
    from history_kept [OF assms(1) this, of j0] show ?thesis by simp
  qed (use assms(3) x(1) in simp)
  then show ?thesis
  proof
    assume "j = j0"
    then show ?thesis using x(2) by auto
  next
    assume "kept j j0"
    then have "stage_kept (j_installation j) (j_installation j0)" "stage_kept (j_registration j) (j_registration j0)"
      by (simp_all add: kept_def)
    then show ?thesis using x(2) stage_kept_back by (auto simp del: not_None_eq)
  qed
qed auto

text \<open>Every durable journal has its stages in order.\<close>

lemma written_ahead_ordered: "written_ahead p l \<Longrightarrow> Saved j \<in> set l \<Longrightarrow> stages_ok j"
  by (induction p l rule: written_ahead.induct) auto

lemma history_ordered: "history s \<Longrightarrow> j \<in> set (saves (wf_log s)) \<Longrightarrow> stages_ok j"
  using written_ahead_ordered history_sound unfolding sound_log_def in_saves [symmetric] by blast

text \<open>C15. Whatever operations run in whatever worlds, and wherever they are interrupted: the root of
  the installation or of the registration, once recorded in a durable journal, is the one of every
  later durable journal, the stage is pending in neither of them, and a confirmed installation or
  registration stays confirmed.\<close>

theorem owned_results_kept:
  assumes "history s" "saves (wf_log s) = xs @ j # ys" "j' \<in> set ys"
  shows "(stage_root (j_installation j) \<noteq> None \<longrightarrow>
      stage_root (j_installation j') = stage_root (j_installation j) \<and>
      stage_phase (j_installation j) \<noteq> Pending \<and> stage_phase (j_installation j') \<noteq> Pending) \<and>
    (stage_root (j_registration j) \<noteq> None \<longrightarrow>
      stage_root (j_registration j') = stage_root (j_registration j) \<and>
      stage_phase (j_registration j) \<noteq> Pending \<and> stage_phase (j_registration j') \<noteq> Pending) \<and>
    (stage_phase (j_installation j) = Confirmed \<longrightarrow> stage_phase (j_installation j') = Confirmed) \<and>
    (stage_phase (j_registration j) = Confirmed \<longrightarrow> stage_phase (j_registration j') = Confirmed)"
proof -
  have k: "kept j j'" by (rule history_kept [OF assms])
  have o1: "stages_ok j" and o2: "stages_ok j'"
    using history_ordered [OF assms(1)] assms(2,3) by auto
  show ?thesis using k pending_no_root [OF o1] pending_no_root [OF o2] unfolding kept_def stage_kept_def by metis
qed

text \<open>C16. Every call with an outside effect is announced: the event right before it is the durable
  save of a well-ordered journal that says the stage is in progress, with every earlier stage
  confirmed (the generated product configuration, the installation, the registration and the
  initialization, as far as they come before the call) and, for an installation or a
  registration, with no root of its own yet.\<close>

theorem calls_are_announced:
  assumes "history s" "wf_log s = xs @ e # ys" "\<And>j. e \<noteq> Saved j"
  shows "\<exists>xs' j. xs = xs' @ [Saved j] \<and> announced e j \<and> stages_ok j"
  using history_announced [OF assms] .

text \<open>C17. The installer and the registration are never run over a result: before each such call, no
  durable journal of the workflow has recorded a root for that stage or confirmed it, so a call
  that reserved its root is not repeated by a later operation or after an interruption.\<close>

theorem never_installed_twice:
  assumes "history s" "wf_log s = xs @ e # ys" "Saved j \<in> set xs"
  shows "(e = Called_Install \<longrightarrow> stage_root (j_installation j) = None \<and> stage_phase (j_installation j) \<noteq> Confirmed) \<and>
    (e = Called_Register \<longrightarrow> stage_root (j_registration j) = None \<and> stage_phase (j_registration j) \<noteq> Confirmed)"
  using history_first_call [OF assms] .


section \<open>A concrete installation\<close>

definition demo_identity :: build_identity where
  "demo_identity = \<lparr>build_info_status = ''k'', engine_name = ''e'', engine_version = ''1'',
     source = \<lparr>source_commit = ''c'', source_dirty = False\<rparr>, java_required_major = 21,
     console = \<lparr>console_node = ''n'', console_npm = ''p'', console_fingerprint = ''f''\<rparr>,
     contract = \<lparr>contract_status = ''s'', contract_revision = ''r'', documentation_sha256 = ''d'',
       definition_sha256 = ''e'', runtime_documentation_sha256 = ''r'', runtime_fixture_sha256 = ''x'',
       contract_fingerprint = ''p''\<rparr>,
     distribution = \<lparr>dist_channel = ''dev'', official_release = False\<rparr>\<rparr>"

definition demo_prepared :: prepared where
  "demo_prepared = \<lparr>prep_identity = demo_identity, prep_data = ''/data'', prep_backend = ''rocksdb'',
     prep_pins = [], prep_gc = False, prep_issuers = None\<rparr>"

definition demo_report :: report where
  "demo_report = \<lparr>report_manifest = \<lparr>schema_version = 1, kind = ''k'',
       product = \<lparr>product_name = ''p'', product_version = ''1'', product_revision = ''r''\<rparr>,
       channel = ''c'', platform = \<lparr>platform_os = ''darwin'', platform_arch = ''arm64'', platform_libc = [],
         platform_min_glibc = [], platform_java_major = 21, platform_backend = ''rocksdb''\<rparr>,
       engine = \<lparr>engine_revision = ''r'', engine_jar_sha256 = ''j'', engine_contract_status = ''s'',
         engine_contract_revision = ''r''\<rparr>,
       runtime = \<lparr>runtime_vendor = ''v'', runtime_version = ''1'', runtime_java_sha256 = ''j''\<rparr>, files = []\<rparr>,
     archive_sha256 = ''a'', manifest_sha256 = ''m'', authenticity = ''u'', files_verified = 0, bytes_verified = 0\<rparr>"

definition demo_inputs :: wf_inputs where
  "demo_inputs = \<lparr>in_archive = Some ''/in/a'', in_public_key = None, in_unsigned = Some True,
     in_lock = Some ''/in/l'', in_native = Some ''/in/n'', in_destination = Some ''/pkg'',
     in_instance = Some ''/node''\<rparr>"

definition demo_fs :: fs where
  "demo_fs ns = (if ns = [] then Directory (1, 1) else if ns = [''w''] then Directory (1, 2)
     else if ns = [''in''] then Directory (1, 3) else Missing)"

definition demo_service :: service_summary where
  "demo_service = \<lparr>svc_state = ''RUNNING'', svc_engine = ''RUNNING'', svc_readiness = ''READY'',
     svc_reason = ''READY'', svc_last_reason = None, svc_stage = None, svc_failure = None,
     svc_busy = False, svc_attempt = Some ''1''\<rparr>"

text \<open>Everything goes well until the installer fails, with its root already reserved.\<close>

definition demo_world :: world where
  "demo_world = \<lparr>w_cwd = None, w_workspace = ''/w'', w_generated = ''/w/generated'', w_eqv = id,
     w_sha = (\<lambda>_. ''h''), w_plan_digest = (\<lambda>_. Some ''d''), w_binding_digest = (\<lambda>_. Some ''b''),
     w_origin_valid = (\<lambda>_. Inr ()), w_fs = (\<lambda>_. demo_fs),
     w_validate_answer = (\<lambda>_ _ _. Inr ()), w_answer_matches = (\<lambda>_ _ _. False), w_draft_set = (\<lambda>_ _ _. Inr ()),
     w_parent_dir = (\<lambda>_ _. True), w_recheck = (\<lambda>_. Inr ()), w_capacity = (\<lambda>_ _. Inr ()),
     w_save = (\<lambda>_. (True, Inr ())), w_guard = (\<lambda>_. Inr ()), w_origin_recheck = (\<lambda>_ _. Inr ()),
     w_config = (\<lambda>_. Inr ''{}''), w_preflight = (\<lambda>_. Inr ''PASS''), w_verify = (\<lambda>_. Inr demo_report),
     w_check_cli = (\<lambda>_ _. Inr ()), w_prepare = (\<lambda>_. Inr demo_prepared),
     w_pin = (\<lambda>_ p. Inr \<lparr>pin_path = p, pin_sha = ''h''\<rparr>), w_recheck_pins = (\<lambda>_ _. Inr ()),
     w_binding = (\<lambda>_ _. Inr (demo_report, [\<lparr>pin_path = ''/w/generated/instance-0001.json'', pin_sha = ''h''\<rparr>])),
     w_verify_installed = (\<lambda>_ _. Inr ()),
     w_verify_binding = (\<lambda>_ _. Inr \<lparr>sum_initialization = ''NOT_STARTED'', sum_busy = Some False\<rparr>),
     w_inspect = (\<lambda>_ _. Inr \<lparr>sum_initialization = ''NOT_STARTED'', sum_busy = Some False\<rparr>),
     w_write_product = (\<lambda>_. Inr ()), w_install = (\<lambda>_. (Some (2, 7), fail ''INSTALL_INTERRUPTED'')),
     w_register = (\<lambda>_. (Some (2, 8), Inr ())),
     w_initialize = (\<lambda>_ _. Inr \<lparr>sum_initialization = ''INITIALIZED'', sum_busy = Some False\<rparr>),
     w_start = (\<lambda>_. Inr demo_service), w_status = (\<lambda>_. Inr demo_service), w_wait = (\<lambda>_ _. Inr demo_service)\<rparr>"

definition demo_plan :: plan where
  "demo_plan = \<lparr>plan_revision = 1, plan_inputs = demo_inputs,
     plan_product_path = ''/w/generated/instance-0001.json'', plan_product_sha = ''h'',
     plan_archive_sha = ''a'', plan_manifest_sha = ''m'', plan_trust_pin = None, plan_prepared = demo_prepared\<rparr>"

text \<open>The journal of the plan at any stage.\<close>

definition demo_journal :: "stage_phase \<Rightarrow> stage \<Rightarrow> stage \<Rightarrow> stage_phase \<Rightarrow> stage_phase \<Rightarrow> wjournal" where
  "demo_journal g i r n st = \<lparr>j_schema = 1, j_kind = ''BXDL_INSTALL_WORKFLOW'',
     j_operation = replicate 32 (CHR ''a''), j_origin = None, j_base = ''/w'', j_inputs = demo_inputs,
     j_revision = 1, j_plan = Some demo_plan, j_plan_sha = Some ''d'', j_generated = g, j_installation = i,
     j_registration = r, j_initialization = n, j_start = st\<rparr>"

lemma demo_journal_select [simp]:
  "j_plan (demo_journal g i r n st) = Some demo_plan" "j_origin (demo_journal g i r n st) = None"
  "j_generated (demo_journal g i r n st) = g" "j_installation (demo_journal g i r n st) = i"
  "j_registration (demo_journal g i r n st) = r" "j_initialization (demo_journal g i r n st) = n"
  "j_start (demo_journal g i r n st) = st"
  "(demo_journal g i r n st)\<lparr>j_generated := g'\<rparr> = demo_journal g' i r n st"
  "(demo_journal g i r n st)\<lparr>j_installation := i'\<rparr> = demo_journal g i' r n st"
  "(demo_journal g i r n st)\<lparr>j_registration := r'\<rparr> = demo_journal g i r' n st"
  "(demo_journal g i r n st)\<lparr>j_initialization := n'\<rparr> = demo_journal g i r n' st"
  "(demo_journal g i r n st)\<lparr>j_start := st'\<rparr> = demo_journal g i r n st'"
  by (simp_all add: demo_journal_def)

lemma demo_apart:
  "check_outputs id demo_fs [''/w'', ''/pkg'', ''/node'', ''/data''] [''/in/a''] = Inr ()"
  "check_outputs id demo_fs [''/w'', ''/pkg'', ''/node'', ''/data''] [] = Inr ()"
  by code_simp+

lemma demo_disjoint: "disjoint demo_world demo_fs (demo_journal g i r n st) demo_plan = Inr ()"
  using demo_apart by (simp add: disjoint_def demo_plan_def demo_world_def demo_prepared_def demo_inputs_def
      req_def Let_def)

lemma demo_checks:
  "map_result (check_normal demo_world) (input_paths demo_inputs) = Inr [(), (), (), (), ()]"
  "check_normal demo_world ''/w'' = Inr ()" "complete_inputs demo_inputs = Inr ()"
  "components (plan_product_path demo_plan) = components (product_path demo_world 1)"
  by code_simp+

lemma demo_validate:
  assumes "stages_ok (demo_journal g i r n st)"
  shows "validate_journal demo_world demo_fs (demo_journal g i r n st) = Inr ()"
proof -
  let ?j = "demo_journal g i r n st"
  have sel: "j_schema ?j = 1" "j_kind ?j = ''BXDL_INSTALL_WORKFLOW''"
    "j_operation ?j = replicate 32 (CHR ''a'')" "j_base ?j = ''/w''" "j_inputs ?j = demo_inputs"
    "j_revision ?j = 1" "j_plan_sha ?j = Some ''d''" by (simp_all add: demo_journal_def)
  have p: "plan_revision demo_plan = 1" "plan_inputs demo_plan = demo_inputs" by (simp_all add: demo_plan_def)
  have w: "w_plan_digest demo_world demo_plan = Some ''d''" by (simp add: demo_world_def)
  have same: "same_inputs demo_inputs demo_inputs" by (simp add: same_inputs_def same_text_def)
  have key: "in_public_key demo_inputs = None" by (simp add: demo_inputs_def)
  have "check_plan demo_world demo_fs ?j demo_plan = Inr ()"
    unfolding check_plan_def sel p w by (simp add: same demo_checks demo_disjoint req_def)
  moreover have "list_all is_hexdigit (replicate 32 (CHR ''a''))" by code_simp
  ultimately show ?thesis
    unfolding validate_journal_def sel using assms by (simp add: demo_checks key)
qed

lemma demo_answers:
  "w_fs demo_world t = demo_fs" "w_parent_dir demo_world t d = True" "w_eqv demo_world = id"
  "w_recheck demo_world t = Inr ()" "w_capacity demo_world t k = Inr ()" "w_save demo_world t = (True, Inr ())"
  "w_guard demo_world t = Inr ()" "w_config demo_world t = Inr ''{}''" "w_sha demo_world b = ''h''"
  "w_preflight demo_world t = Inr ''PASS''" "w_verify demo_world t = Inr demo_report"
  "w_check_cli demo_world t r = Inr ()" "w_prepare demo_world t = Inr demo_prepared"
  "w_recheck_pins demo_world t ps = Inr ()"
  "w_binding demo_world t o' = Inr (demo_report, [\<lparr>pin_path = ''/w/generated/instance-0001.json'', pin_sha = ''h''\<rparr>])"
  "w_verify_installed demo_world t n = Inr ()"
  "w_inspect demo_world t n = Inr \<lparr>sum_initialization = ''NOT_STARTED'', sum_busy = Some False\<rparr>"
  "w_install demo_world t = (Some (2, 7), fail ''INSTALL_INTERRUPTED'')"
  by (simp_all add: demo_world_def)

lemmas demo_steps = act_then_def ask_def ret_def with_state_def modify_def note_event_def when_act_def
  outcome_def current_plan_def require_phase_def req_def demo_answers

abbreviation demo_state :: "wjournal \<Rightarrow> nat \<Rightarrow> wjournal \<Rightarrow> wf_event list \<Rightarrow> observation \<Rightarrow> wf" where
  "demo_state j t d l ob \<equiv> \<lparr>wf_j = j, wf_obs = ob, wf_clock = t, wf_disk = d, wf_log = l\<rparr>"

lemma demo_wf_validate:
  "stages_ok (demo_journal g i r n st) \<Longrightarrow>
     wf_validate demo_world (demo_state (demo_journal g i r n st) t d l ob) =
       (Inr (), demo_state (demo_journal g i r n st) (Suc t) d l ob)"
  by (simp add: wf_validate_def demo_steps demo_validate)

lemma demo_save:
  "stages_ok (demo_journal g i r n st) \<Longrightarrow>
     save demo_world (demo_state (demo_journal g i r n st) t d l ob) =
       (Inr (), demo_state (demo_journal g i r n st) (Suc (Suc t)) (demo_journal g i r n st)
          (l @ [Saved (demo_journal g i r n st)]) ob)"
  by (simp add: save_def store_journal_def act_then_def demo_wf_validate demo_answers)

lemma demo_supply:
  "plan_product_sha demo_plan = ''h''" "plan_trust_pin demo_plan = None"
  "plan_prepared demo_plan = demo_prepared" "prep_pins demo_prepared = []"
  "prep_data demo_prepared = ''/data''" "same_supply demo_plan demo_report = Inr ()"
  "plan_inputs demo_plan = demo_inputs" "in_archive demo_inputs = Some ''/in/a''"
  "in_native demo_inputs = Some ''/in/n''" "in_lock demo_inputs = Some ''/in/l''"
  "in_destination demo_inputs = Some ''/pkg''" "in_instance demo_inputs = Some ''/node''"
  "register_inputs demo_plan = Inr ()"
  by (simp_all add: demo_plan_def demo_prepared_def demo_inputs_def same_supply_def demo_report_def
      register_inputs_def req_def)

lemma demo_verify:
  "stages_ok (demo_journal g i r n st) \<Longrightarrow> stage_root r = None \<Longrightarrow>
     verify_plan demo_world (demo_state (demo_journal g i r n st) t d l ob) =
       (Inr demo_report, demo_state (demo_journal g i r n st)
         (Suc (Suc (Suc (Suc (Suc (Suc (Suc (Suc (Suc (Suc t)))))))))) d l ob)"
  by (simp add: verify_plan_def verify_sources_def demo_steps demo_wf_validate demo_supply)

lemma demo_new:
  assumes "d \<in> {''/pkg'', ''/node'', ''/data''}"
  shows "require_new_directory demo_world d s = (Inr (), s\<lparr>wf_clock := Suc (wf_clock s)\<rparr>)"
proof -
  have "list_all (\<lambda>d. same_path id demo_fs d d = Inr True \<and> absent demo_fs d = Inr True \<and>
      is_ok (path_names d) \<and> path_names d \<noteq> Inr []) [''/pkg'', ''/node'', ''/data'']"
    by code_simp
  then show ?thesis using assms by (auto simp: require_new_directory_def ask_def demo_answers)
qed

definition demo_stage :: "stage_phase \<Rightarrow> node_id option \<Rightarrow> stage" where
  "demo_stage ph root = \<lparr>stage_phase = ph, stage_root = root\<rparr>"

lemma demo_stage_simps [simp]:
  "stage_phase (demo_stage ph root) = ph" "stage_root (demo_stage ph root) = root"
  "(demo_stage ph root)\<lparr>stage_phase := ph'\<rparr> = demo_stage ph' root"
  "(demo_stage ph root)\<lparr>stage_root := root'\<rparr> = demo_stage ph root'"
  by (simp_all add: demo_stage_def)

text \<open>The product file is there, nothing is installed; then the journals of one application.\<close>

abbreviation demo_at :: "stage_phase \<Rightarrow> node_id option \<Rightarrow> wjournal" where
  "demo_at ph root \<equiv> demo_journal Confirmed (demo_stage ph root) (demo_stage Pending None) Pending Pending"

lemma demo_ordered: "ph \<noteq> Confirmed \<Longrightarrow> ph = Pending \<longrightarrow> root = None \<Longrightarrow> stages_ok (demo_at ph root)"
  by (simp add: stages_ok_def)

definition demo_log :: "wf_event list" where
  "demo_log = [Saved (demo_at Pending None), Saved (demo_at InProgress None), Called_Install,
     Saved (demo_at InProgress (Some (2, 7))), Saved (demo_at Unknown (Some (2, 7)))]"

lemma demo_run_install:
  "run_install demo_world demo_plan (demo_state (demo_at InProgress None) t d l ob) =
     (fail ''INSTALL_INTERRUPTED'', demo_state (demo_at InProgress (Some (2, 7))) (Suc (Suc (Suc t)))
       (demo_at InProgress (Some (2, 7)))
       (l @ [Called_Install, Saved (demo_at InProgress (Some (2, 7)))]) ob)"
  by (simp add: run_install_def record_root_def put_installation_def demo_steps demo_save demo_ordered fail_def)

lemma demo_apply:
  "\<exists>t'. run_op demo_world Apply (demo_state (demo_at Pending None) t (demo_at Pending None)
       [Saved (demo_at Pending None)] ob) =
     (fail ''INSTALL_INTERRUPTED'', demo_state (demo_at Unknown (Some (2, 7))) t'
       (demo_at Unknown (Some (2, 7))) demo_log ob)"
  by (simp add: apply_with_guard_def generate_step_def install_step_def failed_phase_def demo_steps
      demo_verify demo_new demo_save demo_ordered demo_supply demo_run_install demo_log_def fail_def)

lemma demo_history: "\<exists>s. history s \<and> wf_log s = demo_log"
proof -
  have "history (demo_state (demo_at Pending None) 0 (demo_at Pending None)
      [Saved (demo_at Pending None)] not_observed)"
    by (rule loaded [of demo_world demo_fs]) (simp add: demo_validate demo_ordered)
  moreover obtain t' where "run_op demo_world Apply (demo_state (demo_at Pending None) 0 (demo_at Pending None)
       [Saved (demo_at Pending None)] not_observed) =
     (fail ''INSTALL_INTERRUPTED'', demo_state (demo_at Unknown (Some (2, 7))) t'
       (demo_at Unknown (Some (2, 7))) demo_log not_observed)"
    using demo_apply by blast
  ultimately have "history (demo_state (demo_at Unknown (Some (2, 7))) t'
       (demo_at Unknown (Some (2, 7))) demo_log not_observed)"
    by (rule operated)
  then show ?thesis by fastforce
qed

text \<open>The properties at this run: the reserved root stays, and the call was announced, once.\<close>

theorem owned_results_kept_witness:
  "\<exists>s. history s \<and> wf_log s = demo_log \<and>
     stage_root (j_installation (demo_at Unknown (Some (2, 7)))) =
       stage_root (j_installation (demo_at InProgress (Some (2, 7))))"
proof -
  obtain s where s: "history s" "wf_log s = demo_log" using demo_history by blast
  have "saves (wf_log s) = [demo_at Pending None, demo_at InProgress None] @
      demo_at InProgress (Some (2, 7)) # [demo_at Unknown (Some (2, 7))]"
    by (simp add: s(2) demo_log_def saves_def map_filter_simps)
  from owned_results_kept [OF s(1) this, of "demo_at Unknown (Some (2, 7))"] s show ?thesis by (intro exI [of _ s]) simp
qed

theorem calls_are_announced_witness:
  "\<exists>s. history s \<and> wf_log s = demo_log \<and> (\<exists>xs' j.
     [Saved (demo_at Pending None), Saved (demo_at InProgress None)] = xs' @ [Saved j] \<and>
     announced Called_Install j \<and> stages_ok j)"
proof -
  obtain s where s: "history s" "wf_log s = demo_log" using demo_history by blast
  have "wf_log s = [Saved (demo_at Pending None), Saved (demo_at InProgress None)] @ Called_Install #
      [Saved (demo_at InProgress (Some (2, 7))), Saved (demo_at Unknown (Some (2, 7)))]"
    by (simp add: s(2) demo_log_def)
  from calls_are_announced [OF s(1) this] s show ?thesis by blast
qed

theorem never_installed_twice_witness:
  "\<exists>s. history s \<and> wf_log s = demo_log \<and> stage_root (j_installation (demo_at InProgress None)) = None"
proof -
  obtain s where s: "history s" "wf_log s = demo_log" using demo_history by blast
  have "wf_log s = [Saved (demo_at Pending None), Saved (demo_at InProgress None)] @ Called_Install #
      [Saved (demo_at InProgress (Some (2, 7))), Saved (demo_at Unknown (Some (2, 7)))]"
    by (simp add: s(2) demo_log_def)
  from never_installed_twice [OF s(1) this, of "demo_at InProgress None"] s show ?thesis by (intro exI [of _ s]) simp
qed

end
