(* ===== verification/ConfigShape.thy ===== *)
theory ConfigShape
  imports Text
begin

text \<open>
  The scanner that checks the shape of a product configuration before it is decoded
  (\<open>strict_json_shape\<close> and \<open>JsonShape\<close> in \<open>src/src/config/mod.rs\<close>): one JSON document of nested
  objects without arrays, at most eight levels below the top, every key known and used once in
  its object. A scanner position is the rest of the input from there on; \<open>None\<close> of the source
  is \<open>None\<close> here. The decoding of a string literal, escapes included, is left to \<open>serde_json\<close> and is
  the parameter \<open>decode\<close>.

  The loop over the members of an object is a \<open>partial_function\<close>, whose outer \<open>None\<close> is a run that
  never returns; the first theorem rules it out, the second says which texts are accepted.
\<close>

section \<open>Tokens\<close>

abbreviation quote_byte :: char where "quote_byte \<equiv> CHR 0x22"
abbreviation backslash :: char where "backslash \<equiv> CHR 0x5C"

definition json_space :: "char \<Rightarrow> bool" where
  "json_space c \<longleftrightarrow> c = CHR '' '' \<or> c = CHR 0x09 \<or> c = CHR 0x0D \<or> c = CHR 0x0A"

definition skip_space :: "bytes \<Rightarrow> bytes" where
  "skip_space s = dropWhile json_space s"

definition take_byte :: "char \<Rightarrow> bytes \<Rightarrow> bytes option" where
  "take_byte b s = (case skip_space s of [] \<Rightarrow> None | c # r \<Rightarrow> if c = b then Some r else None)"

text \<open>The rest of a literal after its opening quote, up to the closing one; an escape takes two bytes.\<close>

fun quoted :: "bytes \<Rightarrow> (bytes \<times> bytes) option" where
  "quoted [] = None"
| "quoted [b] = (if b = quote_byte then Some ([b], []) else None)"
| "quoted (b # c # s) =
     (if b = backslash then map_option (apfst (\<lambda>l. b # c # l)) (quoted s)
      else if b = quote_byte then Some ([b], c # s)
      else map_option (apfst (Cons b)) (quoted (c # s)))"

definition scan_string :: "(bytes \<Rightarrow> string option) \<Rightarrow> bytes \<Rightarrow> (string \<times> bytes) option" where
  "scan_string decode s =
     (case s of [] \<Rightarrow> None
      | b # r \<Rightarrow>
          if b = quote_byte
          then do { (l, rest) \<leftarrow> quoted r; key \<leftarrow> decode (b # l); Some (key, rest) }
          else None)"

definition scan_digits :: "bytes \<Rightarrow> bytes option" where
  "scan_digits s = (if takeWhile is_digit s = [] then None else Some (dropWhile is_digit s))"

definition skip_one :: "char list \<Rightarrow> bytes \<Rightarrow> bytes" where
  "skip_one cs s = (case s of [] \<Rightarrow> [] | c # r \<Rightarrow> if List.member cs c then r else s)"

definition scan_int :: "bytes \<Rightarrow> bytes option" where
  "scan_int s =
     (case s of [] \<Rightarrow> None
      | c # r \<Rightarrow> if c = CHR ''0'' then Some r else if is_digit c then scan_digits s else None)"

definition scan_frac :: "bytes \<Rightarrow> bytes option" where
  "scan_frac s =
     (case s of [] \<Rightarrow> Some s | c # r \<Rightarrow> if c = CHR ''.'' then scan_digits r else Some s)"

definition scan_exp :: "bytes \<Rightarrow> bytes option" where
  "scan_exp s =
     (case s of [] \<Rightarrow> Some s
      | c # r \<Rightarrow> if c = CHR ''e'' \<or> c = CHR ''E'' then scan_digits (skip_one ''+-'' r) else Some s)"

definition scan_number :: "bytes \<Rightarrow> bytes option" where
  "scan_number s =
     do { s \<leftarrow> scan_int (skip_one ''-'' s); s \<leftarrow> scan_frac s; scan_exp s }"

definition known_json_keys :: "string list" where
  "known_json_keys = [''schemaVersion'', ''instanceId'', ''role'', ''nodeId'', ''chainDescription'',
     ''storage'', ''backend'', ''dataDirectory'', ''secrets'', ''validatorKeystore'',
     ''validatorPasswordFile'', ''tlsKeyStore'', ''tlsKeyPasswordFile'', ''tlsTrustStore'',
     ''tlsTrustPasswordFile'', ''http'', ''p2p'', ''address'', ''port'']"

definition known_json_key :: "string \<Rightarrow> bool" where
  "known_json_key name \<longleftrightarrow> List.member known_json_keys name"

section \<open>Values\<close>

text \<open>The loop over the members; \<open>seen\<close> are the keys of this object so far.\<close>

partial_function (option) scan_members ::
  "(bytes \<Rightarrow> string option) \<Rightarrow> (bytes \<Rightarrow> bytes option option) \<Rightarrow> string list \<Rightarrow> bytes \<Rightarrow> bytes option option"
where
  "scan_members decode val seen s =
     (case scan_string decode (skip_space s) of
        None \<Rightarrow> Some None
      | Some (key, s1) \<Rightarrow>
          if \<not> known_json_key key \<or> List.member seen key then Some None
          else
            (case take_byte (CHR '':'') s1 of
               None \<Rightarrow> Some None
             | Some s2 \<Rightarrow>
                 Option.bind (val s2) (\<lambda>out.
                 case out of
                   None \<Rightarrow> Some None
                 | Some s3 \<Rightarrow>
                     (case take_byte (CHR ''}'') s3 of
                        Some s4 \<Rightarrow> Some (Some s4)
                      | None \<Rightarrow>
                          (case take_byte (CHR '','') s3 of
                             None \<Rightarrow> Some None
                           | Some s4 \<Rightarrow> scan_members decode val (key # seen) s4)))))"

declare scan_members.simps [code]

text \<open>\<open>value(depth)\<close> with \<open>9 - depth\<close> levels left.\<close>

fun scan_value :: "(bytes \<Rightarrow> string option) \<Rightarrow> nat \<Rightarrow> bytes \<Rightarrow> bytes option option" where
  "scan_value decode 0 s = Some None"
| "scan_value decode (Suc n) s =
     (case skip_space s of
        [] \<Rightarrow> Some None
      | c # r \<Rightarrow>
          if c = CHR ''{'' then
            (case take_byte (CHR ''}'') r of
               Some t \<Rightarrow> Some (Some t)
             | None \<Rightarrow> scan_members decode (scan_value decode n) [] r)
          else if c = quote_byte then Some (map_option snd (scan_string decode (c # r)))
          else if c = CHR ''t'' then Some (strip_prefix ''true'' (c # r))
          else if c = CHR ''f'' then Some (strip_prefix ''false'' (c # r))
          else if c = CHR ''n'' then Some (strip_prefix ''null'' (c # r))
          else if c = CHR ''-'' \<or> is_digit c then Some (scan_number (c # r))
          else Some None)"

definition strict_json_shape :: "(bytes \<Rightarrow> string option) \<Rightarrow> bytes \<Rightarrow> bool option" where
  "strict_json_shape decode raw =
     map_option (\<lambda>out. case out of None \<Rightarrow> False | Some s \<Rightarrow> skip_space s = []) (scan_value decode 9 raw)"

section \<open>The language\<close>

text \<open>The accepted texts, without a scanner: a value starts with its leading space.\<close>

abbreviation spaces :: "bytes \<Rightarrow> bool" where "spaces w \<equiv> list_all json_space w"

definition digits :: "bytes \<Rightarrow> bool" where
  "digits w \<longleftrightarrow> w \<noteq> [] \<and> list_all is_digit w"

definition int_text :: "bytes \<Rightarrow> bool" where
  "int_text w \<longleftrightarrow> w = ''0'' \<or> digits w \<and> hd w \<noteq> CHR ''0''"

definition frac_text :: "bytes \<Rightarrow> bool" where
  "frac_text w \<longleftrightarrow> w = [] \<or> (\<exists>d. w = CHR ''.'' # d \<and> digits d)"

definition exp_text :: "bytes \<Rightarrow> bool" where
  "exp_text w \<longleftrightarrow> w = [] \<or> (\<exists>x sg d. w = x # sg @ d \<and> x \<in> {CHR ''e'', CHR ''E''} \<and>
     sg \<in> {[], ''+'', ''-''} \<and> digits d)"

definition number_text :: "bytes \<Rightarrow> bool" where
  "number_text w \<longleftrightarrow> (\<exists>sg i f e. w = sg @ i @ f @ e \<and> sg \<in> {[], ''-''} \<and> int_text i \<and> frac_text f \<and> exp_text e)"

inductive string_tail :: "bytes \<Rightarrow> bool" where
  close: "string_tail [quote_byte]"
| escape: "string_tail t \<Longrightarrow> string_tail (backslash # c # t)"
| plain: "c \<noteq> backslash \<Longrightarrow> c \<noteq> quote_byte \<Longrightarrow> string_tail t \<Longrightarrow> string_tail (c # t)"

definition string_text :: "(bytes \<Rightarrow> string option) \<Rightarrow> bytes \<Rightarrow> string \<Rightarrow> bool" where
  "string_text decode w key \<longleftrightarrow> (\<exists>t. w = quote_byte # t \<and> string_tail t) \<and> decode w = Some key"

definition scalar_text :: "(bytes \<Rightarrow> string option) \<Rightarrow> bytes \<Rightarrow> bool" where
  "scalar_text decode w \<longleftrightarrow>
     (\<exists>key. string_text decode w key) \<or> w \<in> {''true'', ''false'', ''null''} \<or> number_text w"

text \<open>\<open>object_text decode n seen m\<close>: the members \<open>m\<close> of an object, its closing brace included,
  when \<open>seen\<close> are the keys before them and its values have \<open>n\<close> levels left.\<close>

inductive json_text :: "(bytes \<Rightarrow> string option) \<Rightarrow> nat \<Rightarrow> bytes \<Rightarrow> bool"
  and object_text :: "(bytes \<Rightarrow> string option) \<Rightarrow> nat \<Rightarrow> string set \<Rightarrow> bytes \<Rightarrow> bool"
for decode where
  scalar: "spaces w \<Longrightarrow> scalar_text decode t \<Longrightarrow> json_text decode (Suc n) (w @ t)"
| empty: "spaces w \<Longrightarrow> spaces u \<Longrightarrow> json_text decode (Suc n) (w @ CHR ''{'' # u @ ''}'')"
| object: "spaces w \<Longrightarrow> object_text decode n {} m \<Longrightarrow> json_text decode (Suc n) (w @ CHR ''{'' # m)"
| last_member: "spaces w \<Longrightarrow> string_text decode k key \<Longrightarrow> known_json_key key \<Longrightarrow> key \<notin> seen \<Longrightarrow>
    spaces u \<Longrightarrow> json_text decode n v \<Longrightarrow> spaces x \<Longrightarrow>
    object_text decode n seen (w @ k @ u @ CHR '':'' # v @ x @ ''}'')"
| member: "spaces w \<Longrightarrow> string_text decode k key \<Longrightarrow> known_json_key key \<Longrightarrow> key \<notin> seen \<Longrightarrow>
    spaces u \<Longrightarrow> json_text decode n v \<Longrightarrow> spaces x \<Longrightarrow> object_text decode n (insert key seen) m \<Longrightarrow>
    object_text decode n seen (w @ k @ u @ CHR '':'' # v @ x @ CHR '','' # m)"

inductive_cases string_tail_Nil [elim!]: "string_tail []"

section \<open>Tokens and their texts\<close>

lemma skip_space_split: "\<exists>w. s = w @ skip_space s \<and> spaces w"
  by (intro exI [of _ "takeWhile json_space s"])
    (auto simp: skip_space_def list_all_iff dest: set_takeWhileD)

lemma skip_space_over [simp]: "spaces w \<Longrightarrow> skip_space (w @ s) = skip_space s"
  by (simp add: skip_space_def list_all_iff)

lemma skip_space_stop [simp]: "\<not> json_space c \<Longrightarrow> skip_space (c # s) = c # s"
  by (simp add: skip_space_def)

lemma skip_space_head: "skip_space s = c # r \<Longrightarrow> \<not> json_space c"
  by (simp add: skip_space_def dropWhile_eq_Cons_conv)

lemma skip_space_Nil: "skip_space s = [] \<longleftrightarrow> spaces s"
  by (simp add: skip_space_def list_all_iff)

lemma take_byte_Some: "take_byte b s = Some r \<Longrightarrow> \<exists>w. s = w @ b # r \<and> spaces w"
  using skip_space_split [of s] by (auto simp: take_byte_def split: list.splits if_splits)

lemma take_byte_over [simp]:
  "spaces w \<Longrightarrow> \<not> json_space c \<Longrightarrow> take_byte b (w @ c # r) = (if c = b then Some r else None)"
  by (simp add: take_byte_def)

lemma token_not_space [simp]:
  "\<not> json_space (CHR ''{'')" "\<not> json_space (CHR ''}'')" "\<not> json_space (CHR '','')"
  "\<not> json_space (CHR '':'')" "\<not> json_space quote_byte" "\<not> json_space (CHR ''-'')"
  "\<not> json_space (CHR ''t'')" "\<not> json_space (CHR ''f'')" "\<not> json_space (CHR ''n'')"
  by (simp_all add: json_space_def)

lemma digit_not_space: "is_digit c \<Longrightarrow> \<not> json_space c"
  by (auto simp: json_space_def is_digit_def)

lemma quoted_sound: "quoted s = Some (l, r) \<Longrightarrow> s = l @ r \<and> string_tail l"
proof (induction s arbitrary: l r rule: quoted.induct)
  case (3 b c s)
  then show ?case by (auto split: if_splits intro: string_tail.intros)
qed (auto split: if_splits intro: string_tail.intros)

lemma quoted_complete: "string_tail l \<Longrightarrow> quoted (l @ r) = Some (l, r)"
proof (induction rule: string_tail.induct)
  case close
  then show ?case by (cases r) simp_all
next
  case (plain c t)
  then show ?case by (cases t) auto
qed simp

lemma scan_string_sound:
  assumes "scan_string decode s = Some (key, r)"
  shows "\<exists>w. s = w @ r \<and> string_text decode w key"
proof -
  obtain l where "s = quote_byte # l @ r" "string_tail l" "decode (quote_byte # l) = Some key"
    using assms by (auto simp: scan_string_def split: list.splits if_splits bind_splits dest!: quoted_sound)
  then show ?thesis by (intro exI [of _ "quote_byte # l"]) (auto simp: string_text_def)
qed

lemma scan_string_complete:
  "string_text decode w key \<Longrightarrow> scan_string decode (w @ r) = Some (key, r)"
  by (auto simp: string_text_def scan_string_def quoted_complete)

lemma scan_digits_sound: "scan_digits s = Some r \<Longrightarrow> \<exists>w. s = w @ r \<and> digits w"
  by (intro exI [of _ "takeWhile is_digit s"])
    (auto simp: scan_digits_def digits_def list_all_iff split: if_splits dest: set_takeWhileD)

text \<open>What may follow a number whose next part would start with one of these characters.\<close>

definition not_before :: "(char \<Rightarrow> bool) \<Rightarrow> bytes \<Rightarrow> bool" where
  "not_before P r \<longleftrightarrow> (case r of [] \<Rightarrow> True | c # _ \<Rightarrow> \<not> P c)"

lemma scan_digits_complete:
  assumes "digits w" "not_before is_digit r"
  shows "scan_digits (w @ r) = Some r"
proof -
  have "takeWhile is_digit (w @ r) = w" "dropWhile is_digit (w @ r) = r"
    using assms by (auto simp: digits_def not_before_def list_all_iff takeWhile_append dropWhile_append split: list.splits)
  then show ?thesis using assms by (simp add: scan_digits_def digits_def)
qed

lemma skip_one_simps [simp]:
  "skip_one cs [] = []" "skip_one cs (c # r) = (if c \<in> set cs then r else c # r)"
  by (simp_all add: skip_one_def)

lemma skip_one_split: "\<exists>sg. s = sg @ skip_one cs s \<and> (sg = [] \<or> (\<exists>c\<in>set cs. sg = [c]))"
proof (cases s)
  case (Cons c r)
  then show ?thesis by (cases "c \<in> set cs") auto
qed simp

lemma scan_int_sound: "scan_int s = Some r \<Longrightarrow> \<exists>w. s = w @ r \<and> int_text w"
proof -
  assume a: "scan_int s = Some r"
  then obtain c t where s: "s = c # t" by (auto simp: scan_int_def split: list.splits)
  show ?thesis
  proof (cases "c = CHR ''0''")
    case True
    then show ?thesis using a s by (auto simp: scan_int_def int_text_def)
  next
    case False
    then obtain w where "s = w @ r" "digits w"
      using a s scan_digits_sound [of s r] by (auto simp: scan_int_def split: if_splits)
    then show ?thesis using False s by (cases w) (auto simp: int_text_def digits_def)
  qed
qed

lemma scan_int_Cons [simp]:
  "scan_int (c # s) = (if c = CHR ''0'' then Some s else if is_digit c then scan_digits (c # s) else None)"
  by (simp add: scan_int_def)

lemma digits_head: "digits d \<Longrightarrow> \<exists>c t. d = c # t \<and> is_digit c"
  by (cases d) (auto simp: digits_def)

lemma scan_int_complete:
  assumes "int_text w" "not_before is_digit r"
  shows "scan_int (w @ r) = Some r"
proof (cases "w = ''0''")
  case False
  then have "digits w" "hd w \<noteq> CHR ''0''" using assms(1) by (auto simp: int_text_def)
  moreover then obtain c t where "w = c # t" "is_digit c" using digits_head by blast
  ultimately show ?thesis using scan_digits_complete [of w r] assms(2) by simp
qed simp

lemma scan_frac_sound: "scan_frac s = Some r \<Longrightarrow> \<exists>w. s = w @ r \<and> frac_text w"
proof (cases s)
  case (Cons c t)
  assume "scan_frac s = Some r"
  then show ?thesis
    using Cons scan_digits_sound [of t r]
    by (cases "c = CHR ''.''") (auto simp: scan_frac_def frac_text_def)
qed (auto simp: scan_frac_def frac_text_def)

lemma not_before_mono: "not_before P r \<Longrightarrow> (\<And>c. Q c \<Longrightarrow> P c) \<Longrightarrow> not_before Q r"
  by (auto simp: not_before_def split: list.splits)

lemma scan_frac_complete:
  assumes "frac_text w" "not_before (\<lambda>c. is_digit c \<or> c = CHR ''.'') r"
  shows "scan_frac (w @ r) = Some r"
proof (cases "w = []")
  case True
  then show ?thesis using assms(2) by (auto simp: scan_frac_def not_before_def split: list.splits)
next
  case False
  then obtain d where "w = CHR ''.'' # d" "digits d" using assms(1) by (auto simp: frac_text_def)
  then show ?thesis
    using scan_digits_complete [of d r] not_before_mono [OF assms(2)] by (simp add: scan_frac_def)
qed

lemma scan_exp_sound: "scan_exp s = Some r \<Longrightarrow> \<exists>w. s = w @ r \<and> exp_text w"
proof (cases s)
  case (Cons c t)
  assume a: "scan_exp s = Some r"
  show ?thesis
  proof (cases "c = CHR ''e'' \<or> c = CHR ''E''")
    case True
    then obtain d where d: "skip_one ''+-'' t = d @ r" "digits d"
      using a Cons scan_digits_sound by (auto simp: scan_exp_def)
    obtain sg where sg: "t = sg @ skip_one ''+-'' t" "sg \<in> {[], ''+'', ''-''}"
      using skip_one_split [of t "''+-''"] by auto
    then have "s = (c # sg @ d) @ r" using Cons d(1) by simp
    moreover have "exp_text (c # sg @ d)" using True sg(2) d(2) unfolding exp_text_def by blast
    ultimately show ?thesis by blast
  next
    case False
    then show ?thesis using a Cons by (auto simp: scan_exp_def exp_text_def)
  qed
qed (auto simp: scan_exp_def exp_text_def)

lemma skip_one_digits: "digits d \<Longrightarrow> \<not> list_ex is_digit cs \<Longrightarrow> skip_one cs (d @ r) = d @ r"
  by (auto simp: list_ex_iff dest!: digits_head)

lemma scan_exp_complete:
  assumes "exp_text w" "not_before (\<lambda>c. is_digit c \<or> c = CHR ''e'' \<or> c = CHR ''E'') r"
  shows "scan_exp (w @ r) = Some r"
proof (cases "w = []")
  case True
  then show ?thesis using assms by (auto simp: scan_exp_def not_before_def split: list.splits)
next
  case False
  then obtain x sg d where w: "w = x # sg @ d" "x = CHR ''e'' \<or> x = CHR ''E''" "sg \<in> {[], ''+'', ''-''}" "digits d"
    using assms(1) by (auto simp: exp_text_def)
  have "\<not> list_ex is_digit ''+-''" by code_simp
  then have "skip_one ''+-'' (sg @ d @ r) = d @ r"
    using w(3) skip_one_digits [OF w(4), of "''+-''" r] by auto
  moreover have "scan_digits (d @ r) = Some r"
    using assms(2) by (intro scan_digits_complete w) (auto simp: not_before_def split: list.splits)
  ultimately show ?thesis using w by (auto simp: scan_exp_def)
qed

lemma scan_number_sound: "scan_number s = Some r \<Longrightarrow> \<exists>w. s = w @ r \<and> number_text w"
proof -
  assume "scan_number s = Some r"
  then obtain a b where "scan_int (skip_one ''-'' s) = Some a" "scan_frac a = Some b" "scan_exp b = Some r"
    by (auto simp: scan_number_def bind_eq_Some_conv)
  then obtain i f e where "skip_one ''-'' s = i @ f @ e @ r" "int_text i" "frac_text f" "exp_text e"
    using scan_int_sound scan_frac_sound scan_exp_sound by metis
  moreover have "\<exists>sg. s = sg @ skip_one ''-'' s \<and> sg \<in> {[], ''-''}"
    using skip_one_split [of s "''-''"] by auto
  ultimately show ?thesis unfolding number_text_def by (metis append.assoc)
qed

text \<open>What may follow a value.\<close>

definition stops :: "bytes \<Rightarrow> bool" where
  "stops r \<longleftrightarrow> not_before (\<lambda>c. \<not> json_space c \<and> c \<noteq> CHR '','' \<and> c \<noteq> CHR ''}'') r"

lemma stops_simps [simp]:
  "stops []" "stops (CHR '','' # r)" "stops (CHR ''}'' # r)"
  by (simp_all add: stops_def not_before_def)

lemma stops_spaces [simp]: "spaces w \<Longrightarrow> stops r \<Longrightarrow> stops (w @ r)"
  by (cases w) (simp_all add: stops_def not_before_def)

lemma stops_number:
  "stops r \<Longrightarrow> not_before (\<lambda>c. is_digit c \<or> c = CHR ''.'' \<or> c = CHR ''e'' \<or> c = CHR ''E'') r"
  by (auto simp: stops_def not_before_def json_space_def is_digit_def split: list.splits)

lemma exp_text_not_before:
  assumes "exp_text e" "stops r"
  shows "not_before (\<lambda>c. is_digit c \<or> c = CHR ''.'') (e @ r)"
proof (cases "e = []")
  case True
  then show ?thesis using stops_number [OF assms(2)] by (auto elim: not_before_mono)
next
  case False
  then obtain x t where "e = x # t" "x \<in> {CHR ''e'', CHR ''E''}" using assms(1) by (auto simp: exp_text_def)
  then show ?thesis by (auto simp: not_before_def is_digit_def)
qed

lemma frac_text_not_before:
  "frac_text f \<Longrightarrow> not_before (\<lambda>c. is_digit c \<or> c = CHR ''.'') r \<Longrightarrow> not_before is_digit (f @ r)"
  by (auto simp: frac_text_def not_before_def is_digit_def split: list.splits)

lemma scan_number_complete:
  assumes "number_text w" "stops r"
  shows "scan_number (w @ r) = Some r"
proof -
  obtain sg i f e where w: "w = sg @ i @ f @ e" "sg \<in> {[], ''-''}" "int_text i" "frac_text f" "exp_text e"
    using assms(1) by (auto simp: number_text_def)
  have "\<exists>c t. i = c # t \<and> is_digit c"
    using w(3) digits_head [of i] by (cases "i = ''0''") (simp_all add: int_text_def is_digit_def)
  then obtain c t where i: "i = c # t" "is_digit c" by blast
  then have "c \<noteq> CHR ''-''" by (auto simp: is_digit_def)
  then have "skip_one ''-'' (w @ r) = i @ f @ e @ r"
    using w(1,2) i by auto
  moreover have "scan_int (i @ f @ e @ r) = Some (f @ e @ r)"
    using w assms(2) by (intro scan_int_complete frac_text_not_before exp_text_not_before)
  moreover have "scan_frac (f @ e @ r) = Some (e @ r)"
    using w assms(2) by (intro scan_frac_complete exp_text_not_before)
  moreover have "scan_exp (e @ r) = Some r"
    using w(5) stops_number [OF assms(2)] by (intro scan_exp_complete) (auto elim: not_before_mono)
  ultimately show ?thesis by (simp add: scan_number_def)
qed

section \<open>Every scan returns\<close>

lemma scan_string_shorter: "scan_string decode s = Some (key, r) \<Longrightarrow> length r < length s"
  using scan_string_sound by (fastforce simp: string_text_def)

lemma take_byte_shorter: "take_byte b s = Some r \<Longrightarrow> length r < length s"
  using take_byte_Some by fastforce

lemma length_skip_space: "length (skip_space s) \<le> length s"
  by (simp add: skip_space_def length_dropWhile_le)

text \<open>If the scan of a value returns and never moves back, so does the loop over the members.\<close>

lemma scan_members_returns:
  assumes "\<And>s. \<exists>out. val s = Some out \<and> (\<forall>r. out = Some r \<longrightarrow> length r \<le> length s)"
  shows "\<exists>out. scan_members decode val seen s = Some out \<and> (\<forall>r. out = Some r \<longrightarrow> length r \<le> length s)"
proof (induction s arbitrary: seen rule: length_induct)
  case (1 s)
  note step = scan_members.simps [of decode val seen s]
  show ?case
  proof (cases "scan_string decode (skip_space s)")
    case (Some a)
    then obtain key s1 where k: "scan_string decode (skip_space s) = Some (key, s1)" by (cases a) auto
    have l1: "length s1 < length s"
      using scan_string_shorter [OF k] length_skip_space [of s] by simp
    show ?thesis
    proof (cases "take_byte (CHR '':'') s1")
      case (Some s2)
      obtain out where v: "val s2 = Some out" "\<forall>r. out = Some r \<longrightarrow> length r \<le> length s2"
        using assms by blast
      show ?thesis
      proof (cases out)
        case s3: (Some s3)
        then have l3: "length s3 < length s"
          using v(2) l1 take_byte_shorter [OF Some] by fastforce
        have close: "take_byte (CHR ''}'') s3 = Some s4 \<Longrightarrow> length s4 < length s" for s4
          using take_byte_shorter [of "CHR ''}''" s3 s4] l3 by simp
        have "\<exists>out. scan_members decode val seen' s4 = Some out \<and> (\<forall>r. out = Some r \<longrightarrow> length r \<le> length s)"
          if "take_byte (CHR '','') s3 = Some s4" for s4 seen'
        proof -
          have "length s4 < length s" using take_byte_shorter [OF that] l3 by simp
          then show ?thesis using 1 [rule_format, of s4 seen'] by fastforce
        qed
        with close show ?thesis
          by (auto simp: step k Some v(1) s3 less_imp_le split: option.splits)
      qed (simp add: step k Some v(1))
    qed (simp add: step k)
  qed (simp add: step)
qed

lemma scan_value_scalar:
  assumes "skip_space s = c # r" "c \<noteq> CHR ''{''"
  shows "scan_value decode (Suc n) s = Some None \<or>
    scan_value decode (Suc n) s = Some (map_option snd (scan_string decode (c # r))) \<or>
    (\<exists>p\<in>{''true'', ''false'', ''null''}. scan_value decode (Suc n) s = Some (strip_prefix p (c # r))) \<or>
    scan_value decode (Suc n) s = Some (scan_number (c # r))"
proof (cases "c = quote_byte \<or> c = CHR ''t'' \<or> c = CHR ''f'' \<or> c = CHR ''n''")
  case True
  then show ?thesis using assms(1) by (elim disjE) (simp_all del: strip_prefix.simps strip_prefix_iff)
next
  case False
  then show ?thesis using assms by (simp del: strip_prefix.simps strip_prefix_iff)
qed

lemma scan_value_returns:
  "\<exists>out. scan_value decode n s = Some out \<and> (\<forall>r. out = Some r \<longrightarrow> length r \<le> length s)"
proof (induction n arbitrary: s)
  case (Suc n)
  show ?case
  proof (cases "skip_space s")
    case (Cons c r)
    have len: "Suc (length r) \<le> length s" using length_skip_space [of s] Cons by simp
    obtain out where m: "scan_members decode (scan_value decode n) [] r = Some out"
        "\<forall>t. out = Some t \<longrightarrow> length t \<le> length r"
      using scan_members_returns [of "scan_value decode n" decode "[]" r] Suc.IH by blast
    have str: "scan_string decode (c # r) = Some (k, t) \<Longrightarrow> length t \<le> length s" for k t
      using scan_string_shorter [of decode "c # r" k t] len by simp
    have num: "scan_number (c # r) = Some t \<Longrightarrow> length t \<le> length s" for t
    proof -
      assume "scan_number (c # r) = Some t"
      then obtain w where "c # r = w @ t" using scan_number_sound by blast
      then have "Suc (length r) = length w + length t" by (metis length_Cons length_append)
      then show ?thesis using len by simp
    qed
    have lit: "strip_prefix p (c # r) = Some t \<Longrightarrow> length t \<le> length s" for p t
    proof -
      assume "strip_prefix p (c # r) = Some t"
      then have "c # r = p @ t" by simp
      then have "Suc (length r) = length p + length t" by (metis length_Cons length_append)
      then show ?thesis using len by simp
    qed
    show ?thesis
    proof (cases "c = CHR ''{''")
      case True
      show ?thesis
      proof (cases "take_byte (CHR ''}'') r")
        case None
        have "\<forall>t. out = Some t \<longrightarrow> length t \<le> length s" using m(2) len by fastforce
        then show ?thesis by (simp add: Cons True None m(1))
      next
        case (Some t)
        then show ?thesis using take_byte_shorter [OF Some] len by (simp add: Cons True)
      qed
    next
      case False
      then have "\<exists>out. scan_value decode (Suc n) s = Some out \<and> (out = None \<or>
          out = map_option snd (scan_string decode (c # r)) \<or> (\<exists>p. out = strip_prefix p (c # r)) \<or>
          out = scan_number (c # r))"
        using scan_value_scalar [OF Cons, of decode n] by fastforce
      then obtain out where "scan_value decode (Suc n) s = Some out" "out = None \<or>
          out = map_option snd (scan_string decode (c # r)) \<or> (\<exists>p. out = strip_prefix p (c # r)) \<or>
          out = scan_number (c # r)" by blast
      then show ?thesis using str num lit by (fastforce simp del: strip_prefix_iff)
    qed
  qed simp
qed simp

section \<open>What is accepted\<close>

lemma scan_members_sound:
  assumes "\<And>s r. val s = Some (Some r) \<Longrightarrow> \<exists>t. s = t @ r \<and> json_text decode n t"
    and "scan_members decode val seen s = Some (Some r)"
  shows "\<exists>t. s = t @ r \<and> object_text decode n (set seen) t"
  using assms(2)
proof (induction s arbitrary: seen rule: length_induct)
  case (1 s)
  note m = 1(2) [unfolded scan_members.simps [of decode val seen s]]
  obtain key s1 where k: "scan_string decode (skip_space s) = Some (key, s1)"
    using m by (cases "scan_string decode (skip_space s)") auto
  have known: "known_json_key key" "key \<notin> set seen" using m k by (auto split: if_splits)
  obtain s2 where s2: "take_byte (CHR '':'') s1 = Some s2"
    using m k known by (cases "take_byte (CHR '':'') s1") auto
  obtain s3 where s3: "val s2 = Some (Some s3)"
  proof (cases "val s2")
    case (Some out)
    then show ?thesis using m k known s2 that by (cases out) auto
  qed (use m k known s2 in auto)
  have rest: "take_byte (CHR ''}'') s3 = Some r \<or>
      (\<exists>s4. take_byte (CHR '','') s3 = Some s4 \<and> scan_members decode val (key # seen) s4 = Some (Some r))"
    using m k known s2 s3
    by (cases "take_byte (CHR ''}'') s3"; cases "take_byte (CHR '','') s3") auto
  note step = k known s2 s3
  obtain w k u v where parts: "s = w @ k @ u @ CHR '':'' # v @ s3" "spaces w" "string_text decode k key"
      "spaces u" "json_text decode n v"
    using skip_space_split [of s] scan_string_sound [OF step(1)] take_byte_Some [OF step(4)]
      assms(1) [OF step(5)] by auto
  from rest show ?case
  proof
    assume "take_byte (CHR ''}'') s3 = Some r"
    then obtain x where "s3 = x @ CHR ''}'' # r" "spaces x" using take_byte_Some by blast
    then show ?thesis
      using json_text_object_text.last_member [OF parts(2,3) step(2,3) parts(4,5), of x] parts(1)
      by (intro exI [of _ "w @ k @ u @ CHR '':'' # v @ x @ ''}''"]) simp
  next
    assume "\<exists>s4. take_byte (CHR '','') s3 = Some s4 \<and> scan_members decode val (key # seen) s4 = Some (Some r)"
    then obtain s4 x where s4: "s3 = x @ CHR '','' # s4" "spaces x"
        "scan_members decode val (key # seen) s4 = Some (Some r)"
      using take_byte_Some by blast
    moreover have "length s4 < length s" using s4(1) parts(1) by simp
    ultimately obtain m where "s4 = m @ r" "object_text decode n (insert key (set seen)) m"
      using 1(1) by fastforce
    then show ?thesis
      using json_text_object_text.member [OF parts(2,3) step(2,3) parts(4,5) s4(2), of m] parts(1) s4(1)
      by (intro exI [of _ "w @ k @ u @ CHR '':'' # v @ x @ CHR '','' # m"]) simp
  qed
qed

lemma scan_value_sound:
  "scan_value decode n s = Some (Some r) \<Longrightarrow> \<exists>t. s = t @ r \<and> json_text decode n t"
proof (induction n arbitrary: s r)
  case (Suc n)
  obtain c t where ct: "skip_space s = c # t" using Suc.prems by (auto split: list.splits)
  obtain w where w: "s = w @ c # t" "spaces w" using skip_space_split [of s] ct by auto
  have scalar: ?case if "\<exists>v. c # t = v @ r \<and> scalar_text decode v"
  proof -
    from that obtain v where "c # t = v @ r" "scalar_text decode v" by blast
    then have "s = (w @ v) @ r \<and> json_text decode (Suc n) (w @ v)"
      using w json_text_object_text.scalar by simp
    then show ?thesis by blast
  qed
  show ?case
  proof (cases "c = CHR ''{''")
    case True
    show ?thesis
    proof (cases "take_byte (CHR ''}'') t")
      case None
      then have "scan_members decode (scan_value decode n) [] t = Some (Some r)"
        using Suc.prems ct True by simp
      then obtain m where "t = m @ r" "object_text decode n {} m"
        using scan_members_sound [of "scan_value decode n" decode n "[]"] Suc.IH by fastforce
      then show ?thesis
        using json_text_object_text.object [OF w(2)] w(1) True
        by (intro exI [of _ "w @ CHR ''{'' # m"]) simp
    next
      case (Some q)
      then obtain u where "t = u @ CHR ''}'' # r" "spaces u"
        using Suc.prems ct True take_byte_Some [OF Some] by auto
      then show ?thesis
        using json_text_object_text.empty [OF w(2)] w(1) True
        by (intro exI [of _ "w @ CHR ''{'' # u @ ''}''"]) simp
    qed
  next
    case False
    then consider k where "scan_string decode (c # t) = Some (k, r)"
      | p where "p \<in> {''true'', ''false'', ''null''}" "strip_prefix p (c # t) = Some r"
      | "scan_number (c # t) = Some r"
      using scan_value_scalar [OF ct False, of decode n] Suc.prems
      by (elim disjE bexE) (auto simp del: strip_prefix_iff strip_prefix.simps scan_value.simps)
    then show ?thesis
    proof cases
      case 1
      then show ?thesis using scan_string_sound scalar by (fastforce simp: scalar_text_def)
    next
      case 2
      then show ?thesis using scalar by (force simp: scalar_text_def)
    next
      case 3
      then show ?thesis using scan_number_sound scalar by (fastforce simp: scalar_text_def)
    qed
  qed
qed simp

lemma string_text_head: "string_text decode k key \<Longrightarrow> \<exists>t. k = quote_byte # t"
  by (auto simp: string_text_def)

lemma string_text_skip: "string_text decode k key \<Longrightarrow> spaces w \<Longrightarrow> skip_space (w @ k @ z) = k @ z"
  by (auto dest: string_text_head)

lemma object_text_head:
  assumes "object_text decode n seen m"
  shows "\<exists>w r. m = w @ quote_byte # r \<and> spaces w"
  using assms
proof (cases rule: object_text.cases)
  case (last_member w k key u v x)
  then show ?thesis using string_text_head by (metis append_Cons)
next
  case (member w k key u v x m)
  then show ?thesis using string_text_head by (metis append_Cons)
qed

lemma stops_value:
  "spaces x \<Longrightarrow> stops (x @ CHR '','' # r)" "spaces x \<Longrightarrow> stops (x @ CHR ''}'' # r)"
  by simp_all

lemma scan_scalar_complete:
  assumes "spaces w" "scalar_text decode t" "stops r"
  shows "scan_value decode (Suc n) ((w @ t) @ r) = Some (Some r)"
proof -
  consider key where "string_text decode t key" | "t \<in> {''true'', ''false'', ''null''}" | "number_text t"
    using assms(2) by (auto simp: scalar_text_def)
  then show ?thesis
  proof cases
    case 1
    then obtain t' where t: "t = quote_byte # t'" by (auto simp: string_text_def)
    then show ?thesis using scan_string_complete [OF 1, of r] assms(1) by simp
  next
    case 2
    then show ?thesis using assms(1) by auto
  next
    case 3
    then obtain sg i f e where p: "t = sg @ i @ f @ e" "sg \<in> {[], ''-''}" "int_text i"
      by (auto simp: number_text_def)
    have "\<exists>c u. i = c # u \<and> is_digit c"
      using p(3) digits_head [of i] by (cases "i = ''0''") (simp_all add: int_text_def is_digit_def)
    then obtain c u where c: "t = c # u" "c = CHR ''-'' \<or> is_digit c" using p(1,2) by auto
    moreover have "c \<notin> {CHR ''{'', quote_byte, CHR ''t'', CHR ''f'', CHR ''n''}" "\<not> json_space c"
      using c(2) digit_not_space by (auto simp: is_digit_def)
    ultimately show ?thesis using scan_number_complete [OF 3 assms(3)] assms(1) by simp
  qed
qed

lemma scan_complete:
  "json_text decode n t \<Longrightarrow> stops r \<Longrightarrow> scan_value decode n (t @ r) = Some (Some r)"
  "object_text decode n keys m \<Longrightarrow> set seen = keys \<Longrightarrow>
     scan_members decode (scan_value decode n) seen (m @ r) = Some (Some r)"
proof (induction n t and n keys m arbitrary: r and r seen rule: json_text_object_text.inducts)
  case (scalar w t n)
  then show ?case using scan_scalar_complete by simp
next
  case (object w n m)
  obtain u q where m: "m = u @ quote_byte # q" "spaces u" using object_text_head [OF object(2)] by blast
  have "take_byte (CHR ''}'') (m @ r) = None" by (simp add: m)
  then show ?case using object(1) object(3) [of "[]" r] by simp
next
  case (last_member w k key seen' u n v x)
  have k: "string_text decode k key" using last_member by blast
  have "skip_space (w @ k @ z) = k @ z" for z
    using string_text_skip [OF k] last_member(1) by blast
  moreover have "scan_value decode n (v @ x @ CHR ''}'' # r) = Some (Some (x @ CHR ''}'' # r))"
    using last_member by simp
  ultimately show ?case
    using last_member scan_string_complete [OF k]
    by (simp add: scan_members.simps [of decode _ seen])
next
  case (member w k key seen' u n v x m)
  have k: "string_text decode k key" using member by blast
  have "skip_space (w @ k @ z) = k @ z" for z
    using string_text_skip [OF k] member(1) by blast
  moreover have "scan_value decode n (v @ x @ CHR '','' # m @ r) = Some (Some (x @ CHR '','' # m @ r))"
    using member by simp
  moreover have "scan_members decode (scan_value decode n) (key # seen) (m @ r) = Some (Some r)"
    using member by simp
  ultimately show ?case
    using member scan_string_complete [OF k]
    by (simp add: scan_members.simps [of decode _ seen])
qed simp

lemma scan_text_iff:
  "strict_json_shape decode raw = Some True \<longleftrightarrow> (\<exists>t w. raw = t @ w \<and> json_text decode 9 t \<and> spaces w)"
proof
  assume "strict_json_shape decode raw = Some True"
  then obtain r where "scan_value decode 9 raw = Some (Some r)" "spaces r"
    by (auto simp: strict_json_shape_def skip_space_Nil split: option.splits)
  then show "\<exists>t w. raw = t @ w \<and> json_text decode 9 t \<and> spaces w" using scan_value_sound by blast
next
  assume "\<exists>t w. raw = t @ w \<and> json_text decode 9 t \<and> spaces w"
  then obtain t w where r: "raw = t @ w" "json_text decode 9 t" "spaces w" by blast
  then have "stops w" using stops_spaces [of w "[]"] by simp
  then show "strict_json_shape decode raw = Some True"
    using scan_complete(1) [OF r(2)] r(1,3) by (simp add: strict_json_shape_def skip_space_Nil)
qed

section \<open>Properties\<close>

text \<open>C19. The shape scanner returns on every input, whatever the string decoder answers: no text
  makes its loops run forever.\<close>

theorem strict_json_shape_returns: "\<exists>b. strict_json_shape decode raw = Some b"
  using scan_value_returns [of decode 9 raw] by (auto simp: strict_json_shape_def)

text \<open>C20. The scanner accepts exactly the texts of the grammar: one value and space around it, values
  at most eight levels below the top, no arrays, JSON numbers and literals only, and in
  every object only known keys, none twice.\<close>

theorem strict_json_shape_iff:
  "strict_json_shape decode raw = Some True \<longleftrightarrow> (\<exists>t w. raw = t @ w \<and> json_text decode 9 t \<and> spaces w)"
  by (rule scan_text_iff)

end
