(* ===== verification/IpText.thy ===== *)
theory IpText
  imports Text
begin

text \<open>
  Internet addresses as the standard library reads and prints them (\<open>IpAddr::from_str\<close>,
  \<open>Display\<close>, \<open>to_ipv4_mapped\<close>), used by \<open>valid_p2p_address\<close> (\<open>src/src/config/mod.rs\<close>) and
  \<open>host\<close> (\<open>src/src/config/network.rs\<close>). A reader takes the input from its position and gives the
  value with the rest, or \<open>None\<close> with the position unchanged. An IPv4 address is a list of four
  octets, an IPv6 address a list of eight groups.
\<close>

section \<open>Reading\<close>

datatype ip = V4 "nat list" | V6 "nat list"

definition is_radix_digit :: "nat \<Rightarrow> char \<Rightarrow> bool" where
  "is_radix_digit b c \<longleftrightarrow> digit_val c < b"

definition read_number :: "nat \<Rightarrow> nat \<Rightarrow> bool \<Rightarrow> nat \<Rightarrow> string \<Rightarrow> (nat \<times> string) option" where
  "read_number radix digits zero_prefix bound s =
     (let ds = takeWhile (is_radix_digit radix) s in
      if digits < length ds \<or> ds = [] \<or> \<not> zero_prefix \<and> hd ds = CHR ''0'' \<and> 1 < length ds \<or>
         bound < read_radix radix ds
      then None else Some (read_radix radix ds, dropWhile (is_radix_digit radix) s))"

definition given :: "char \<Rightarrow> string \<Rightarrow> string option" where
  "given c s = (case s of [] \<Rightarrow> None | x # r \<Rightarrow> if x = c then Some r else None)"

definition read_separated :: "char \<Rightarrow> nat \<Rightarrow> (string \<Rightarrow> ('a \<times> string) option) \<Rightarrow> string \<Rightarrow> ('a \<times> string) option" where
  "read_separated c index reader s = (if 0 < index then Option.bind (given c s) reader else reader s)"

definition read_octet :: "string \<Rightarrow> (nat \<times> string) option" where
  "read_octet s = read_number 10 3 False 255 s"

definition read_group :: "string \<Rightarrow> (nat \<times> string) option" where
  "read_group s = read_number 16 4 True 65535 s"

definition read_ipv4 :: "string \<Rightarrow> (nat list \<times> string) option" where
  "read_ipv4 s =
     do { (a, s) \<leftarrow> read_separated (CHR ''.'') 0 read_octet s;
          (b, s) \<leftarrow> read_separated (CHR ''.'') 1 read_octet s;
          (c, s) \<leftarrow> read_separated (CHR ''.'') 2 read_octet s;
          (d, s) \<leftarrow> read_separated (CHR ''.'') 3 read_octet s;
          Some ([a, b, c, d], s) }"

text \<open>\<open>read_groups\<close>: at most \<open>left\<close> more groups; the flag says that an embedded IPv4 address ended
  the list.\<close>

fun read_groups :: "nat \<Rightarrow> nat \<Rightarrow> string \<Rightarrow> nat list \<times> bool \<times> string" where
  "read_groups 0 index s = ([], False, s)"
| "read_groups (Suc left) index s =
     (case (if 0 < left then read_separated (CHR '':'') index read_ipv4 s else None) of
        Some (q, r) \<Rightarrow> ([q ! 0 * 256 + q ! 1, q ! 2 * 256 + q ! 3], True, r)
      | None \<Rightarrow>
          (case read_separated (CHR '':'') index read_group s of
             None \<Rightarrow> ([], False, s)
           | Some (g, r) \<Rightarrow>
               (case read_groups left (Suc index) r of (gs, v4, t) \<Rightarrow> (g # gs, v4, t))))"

definition read_ipv6 :: "string \<Rightarrow> (nat list \<times> string) option" where
  "read_ipv6 s =
     (case read_groups 8 0 s of
        (front, v4, s1) \<Rightarrow>
          if length front = 8 then Some (front, s1)
          else if v4 then None
          else do { s2 \<leftarrow> given (CHR '':'') s1;
                    s3 \<leftarrow> given (CHR '':'') s2;
                    (case read_groups (8 - (length front + 1)) 0 s3 of
                       (back, _, s4) \<Rightarrow>
                         Some (front @ replicate (8 - length front - length back) 0 @ back, s4)) })"

definition parse_ip :: "string \<Rightarrow> ip option" where
  "parse_ip s =
     (case read_ipv4 s of
        Some (q, r) \<Rightarrow> if r = [] then Some (V4 q) else None
      | None \<Rightarrow>
          (case read_ipv6 s of
             Some (g, r) \<Rightarrow> if r = [] then Some (V6 g) else None
           | None \<Rightarrow> None))"

section \<open>Kinds of address\<close>

definition to_ipv4_mapped :: "nat list \<Rightarrow> nat list option" where
  "to_ipv4_mapped g =
     (if take 6 g = [0, 0, 0, 0, 0, 65535]
      then Some [g ! 6 div 256, g ! 6 mod 256, g ! 7 div 256, g ! 7 mod 256] else None)"

definition unicast_v4 :: "nat list \<Rightarrow> bool" where
  "unicast_v4 q \<longleftrightarrow> q \<noteq> [0, 0, 0, 0] \<and> \<not> (224 \<le> q ! 0 \<and> q ! 0 \<le> 239) \<and> q \<noteq> [255, 255, 255, 255]"

definition unicast_v6 :: "nat list \<Rightarrow> bool" where
  "unicast_v6 g \<longleftrightarrow> g \<noteq> replicate 8 0 \<and> g ! 0 div 256 \<noteq> 255"

section \<open>Printing\<close>

definition show_ipv4 :: "nat list \<Rightarrow> string" where
  "show_ipv4 q = join_with (CHR ''.'') (map (show_radix 10) q)"

definition show_groups :: "nat list \<Rightarrow> string" where
  "show_groups g = join_with (CHR '':'') (map (show_radix 16) g)"

text \<open>The first longest run of zero groups, as start and length; \<open>index\<close> is the current group,
  \<open>(cs, cl)\<close> the run that ends here.\<close>

fun zero_run :: "nat list \<Rightarrow> nat \<Rightarrow> nat \<times> nat \<Rightarrow> nat \<times> nat \<Rightarrow> nat \<times> nat" where
  "zero_run [] index (cs, cl) longest = longest"
| "zero_run (g # gs) index (cs, cl) longest =
     (if g = 0 then
        (let cur = (if cl = 0 then index else cs, Suc cl) in
         zero_run gs (Suc index) cur (if snd longest < snd cur then cur else longest))
      else zero_run gs (Suc index) (0, 0) longest)"

definition show_ipv6 :: "nat list \<Rightarrow> string" where
  "show_ipv6 g =
     (case to_ipv4_mapped g of
        Some q \<Rightarrow> ''::ffff:'' @ show_ipv4 q
      | None \<Rightarrow>
          (case zero_run g 0 (0, 0) (0, 0) of
             (start, n) \<Rightarrow>
               if 1 < n then show_groups (take start g) @ ''::'' @ show_groups (drop (start + n) g)
               else show_groups g))"

section \<open>Numbers\<close>

lemma digit_val_37: "digit_val c \<le> 36"
  by (auto simp: digit_val_def is_digit_def is_lower_def is_upper_def)

lemma is_radix_digit_char: "d < b \<Longrightarrow> b \<le> 36 \<Longrightarrow> is_radix_digit b (digit_char d)"
  by (simp add: is_radix_digit_def)

definition no_digit :: "nat \<Rightarrow> string \<Rightarrow> bool" where
  "no_digit b r \<longleftrightarrow> (case r of [] \<Rightarrow> True | c # _ \<Rightarrow> \<not> is_radix_digit b c)"

lemma show_radix_all_digits:
  "2 \<le> b \<Longrightarrow> b \<le> 36 \<Longrightarrow> list_all (is_radix_digit b) (show_radix b n)"
  by (auto simp: list_all_iff is_radix_digit_char dest!: show_radix_digits)

lemma takeWhile_number:
  assumes "list_all (is_radix_digit b) w" "no_digit b r"
  shows "takeWhile (is_radix_digit b) (w @ r) = w" "dropWhile (is_radix_digit b) (w @ r) = r"
  using assms
  by (auto simp: no_digit_def list_all_iff takeWhile_append dropWhile_append split: list.splits)

lemma read_number_show:
  assumes "2 \<le> b" "b \<le> 36" "n \<le> bound" "n < b ^ k" "0 < k" "no_digit b r"
  shows "read_number b k z bound (show_radix b n @ r) = Some (n, r)"
proof -
  have "length (show_radix b n) \<le> k" by (rule length_show_radix_le) (use assms in auto)
  moreover have "\<not> (hd (show_radix b n) = CHR ''0'' \<and> 1 < length (show_radix b n))"
    using show_radix_leading [OF assms(1,2), of n] by auto
  ultimately show ?thesis
    using assms takeWhile_number [OF show_radix_all_digits [OF assms(1,2), of n] assms(6)]
    by (auto simp: read_number_def Let_def)
qed

lemma read_octet_show: "n < 256 \<Longrightarrow> no_digit 10 r \<Longrightarrow> read_octet (show_radix 10 n @ r) = Some (n, r)"
  unfolding read_octet_def by (rule read_number_show) auto

lemma read_group_show: "n < 65536 \<Longrightarrow> no_digit 16 r \<Longrightarrow> read_group (show_radix 16 n @ r) = Some (n, r)"
  unfolding read_group_def by (rule read_number_show) auto

lemma no_digit_sep [simp]:
  "no_digit b []" "b \<le> 36 \<Longrightarrow> no_digit b (CHR ''.'' # r)" "b \<le> 36 \<Longrightarrow> no_digit b (CHR '':'' # r)"
  by (simp_all add: no_digit_def is_radix_digit_def digit_val_def is_digit_def is_lower_def is_upper_def)

lemma given_simps [simp]: "given c (c # r) = Some r" "given c [] = None"
  by (simp_all add: given_def)

lemma given_Some [simp]: "given c s = Some r \<longleftrightarrow> s = c # r"
  by (auto simp: given_def split: list.splits)

definition octets :: "nat list \<Rightarrow> bool" where
  "octets q \<longleftrightarrow> length q = 4 \<and> list_all (\<lambda>n. n < 256) q"

definition groups :: "nat list \<Rightarrow> bool" where
  "groups g \<longleftrightarrow> length g = 8 \<and> list_all (\<lambda>n. n < 65536) g"

lemma length_4: "length q = 4 \<longleftrightarrow> (\<exists>a b c d. q = [a, b, c, d])"
  by (auto simp: length_Suc_conv eval_nat_numeral)

lemma read_ipv4_show:
  assumes "octets q" "no_digit 10 r"
  shows "read_ipv4 (show_ipv4 q @ r) = Some (q, r)"
proof -
  obtain a b c d where "q = [a, b, c, d]" using assms(1) by (auto simp: octets_def length_4)
  then show ?thesis
    using assms by (simp add: octets_def show_ipv4_def read_ipv4_def read_separated_def read_octet_show)
qed

lemma parse_show_ipv4: "octets q \<Longrightarrow> parse_ip (show_ipv4 q) = Some (V4 q)"
  using read_ipv4_show [of q "[]"] by (simp add: parse_ip_def)

section \<open>What is read\<close>

lemma read_number_SomeD:
  assumes "read_number b k z bound s = Some (n, r)"
  shows "n \<le> bound \<and> (\<exists>p. s = p @ r \<and> p \<noteq> [] \<and> list_all (is_radix_digit b) p)"
proof -
  let ?p = "takeWhile (is_radix_digit b) s"
  have "n \<le> bound" "?p \<noteq> []" "r = dropWhile (is_radix_digit b) s"
    using assms by (auto simp: read_number_def Let_def split: if_splits)
  moreover have "list_all (is_radix_digit b) ?p" by (auto simp: list_all_iff dest: set_takeWhileD)
  ultimately show ?thesis by (intro conjI exI [of _ ?p]) auto
qed

lemma read_octet_SomeD:
  "read_octet s = Some (n, r) \<Longrightarrow> n < 256 \<and> (\<exists>p. s = p @ r \<and> p \<noteq> [] \<and> list_all (is_radix_digit 10) p)"
  unfolding read_octet_def by (drule read_number_SomeD) auto

lemma read_ipv4_SomeD:
  assumes "read_ipv4 s = Some (q, r)"
  shows "octets q \<and> (\<exists>p. s = p @ r \<and> CHR ''.'' \<in> set p \<and> list_all (\<lambda>c. is_radix_digit 10 c \<or> c = CHR ''.'') p)"
proof -
  obtain a b c d s1 s2 s3 where o4: "read_octet s = Some (a, CHR ''.'' # s1)" "read_octet s1 = Some (b, CHR ''.'' # s2)"
      "read_octet s2 = Some (c, CHR ''.'' # s3)" "read_octet s3 = Some (d, r)" "q = [a, b, c, d]"
    using assms by (auto simp: read_ipv4_def read_separated_def bind_eq_Some_conv)
  from o4 show ?thesis
    by (auto simp: octets_def list_all_iff dest!: read_octet_SomeD)
qed

lemma read_separated_no_dot:
  "CHR ''.'' \<notin> set s \<Longrightarrow> read_separated c i read_ipv4 s = None"
proof (rule ccontr)
  assume a: "CHR ''.'' \<notin> set s" "read_separated c i read_ipv4 s \<noteq> None"
  then obtain q r t where "read_ipv4 t = Some (q, r)" "set t \<subseteq> set s"
    by (cases "0 < i") (auto simp: read_separated_def bind_eq_Some_conv, blast)
  then show False using a(1) read_ipv4_SomeD by fastforce
qed

lemma read_group_SomeD: "read_group s = Some (n, r) \<Longrightarrow> n < 65536"
  unfolding read_group_def by (drule read_number_SomeD) simp

lemma read_groups_bounds:
  "read_groups left i s = (gs, v4, r) \<Longrightarrow> length gs \<le> left \<and> list_all (\<lambda>n. n < 65536) gs"
proof (induction left i s arbitrary: gs v4 r rule: read_groups.induct)
  case (2 left i s)
  let ?four = "if 0 < left then read_separated (CHR '':'') i read_ipv4 s else None"
  show ?case
  proof (cases ?four)
    case None
    show ?thesis
    proof (cases "read_separated (CHR '':'') i read_group s")
      case n: None
      then show ?thesis using 2(2) None by simp
    next
      case (Some a)
      obtain g t where a: "a = (g, t)" by (cases a)
      obtain gs' v' r' where rec: "read_groups left (Suc i) t = (gs', v', r')" by (metis prod_cases3)
      have "g < 65536"
        using Some a read_group_SomeD by (auto simp: read_separated_def bind_eq_Some_conv split: if_splits)
      then show ?thesis using 2(1) [OF None Some a [symmetric] rec] 2(2) None Some a rec by auto
    qed
  next
    case (Some x)
    then obtain q t where q: "x = (q, t)" "octets q" "0 < left"
      using read_ipv4_SomeD by (cases x) (force simp: read_separated_def bind_eq_Some_conv split: if_splits)
    obtain a b c d where "q = [a, b, c, d]" using q(2) by (auto simp: octets_def length_4)
    then show ?thesis using 2(2) Some q by (auto simp: octets_def)
  qed
qed simp

lemma read_ipv6_groups:
  assumes "read_ipv6 s = Some (g, r)"
  shows "groups g"
proof -
  obtain front v4 s1 where f: "read_groups 8 0 s = (front, v4, s1)" by (metis prod_cases3)
  note fb = read_groups_bounds [OF f]
  show ?thesis
  proof (cases "length front = 8")
    case True
    then show ?thesis using assms f fb by (simp add: read_ipv6_def groups_def)
  next
    case False
    then obtain s3 where s3: "s1 = CHR '':'' # CHR '':'' # s3"
      using assms f by (auto simp: read_ipv6_def bind_eq_Some_conv split: if_splits)
    obtain rear v s4 where b: "read_groups (8 - (length front + 1)) 0 s3 = (rear, v, s4)" by (metis prod_cases3)
    note bb = read_groups_bounds [OF b]
    have "g = front @ replicate (8 - length front - length rear) 0 @ rear"
      using assms f False s3 b by (auto simp: read_ipv6_def split: if_splits)
    then show ?thesis using fb bb False by (auto simp: groups_def list_all_iff)
  qed
qed

lemma parse_ip_groups:
  "parse_ip s = Some (V4 q) \<Longrightarrow> octets q"
  "parse_ip s = Some (V6 g) \<Longrightarrow> groups g"
proof -
  show "parse_ip s = Some (V4 q) \<Longrightarrow> octets q"
    using read_ipv4_SomeD by (auto simp: parse_ip_def split: option.splits if_splits)
next
  assume "parse_ip s = Some (V6 g)"
  then have "read_ipv6 s = Some (g, [])" by (auto simp: parse_ip_def split: option.splits if_splits)
  then show "groups g" by (rule read_ipv6_groups)
qed

section \<open>Reading what was printed\<close>

lemma digit_char_not_sep: "d < 16 \<Longrightarrow> digit_char d \<noteq> CHR ''.''" "d < 16 \<Longrightarrow> digit_char d \<noteq> CHR '':''"
  by (auto simp: digit_char_def char_eq_byte simp del: of_char_eq_iff split: if_splits)

lemma show_radix_no_sep: "CHR ''.'' \<notin> set (show_radix 16 n)" "CHR '':'' \<notin> set (show_radix 16 n)"
  using show_radix_digits [of 16 _ n] digit_char_not_sep by fastforce+

abbreviation more_groups :: "nat list \<Rightarrow> string" where
  "more_groups gs \<equiv> concat (map (\<lambda>g. CHR '':'' # show_radix 16 g) gs)"

lemma show_groups_Cons: "show_groups (g # gs) = show_radix 16 g @ more_groups gs"
  by (induction gs arbitrary: g) (simp_all add: show_groups_def)

lemma more_groups_no_dot: "CHR ''.'' \<notin> set (more_groups gs)"
  using show_radix_no_sep by auto

lemma show_groups_no_dot: "CHR ''.'' \<notin> set (show_groups gs)"
proof (cases gs)
  case (Cons g gs')
  then show ?thesis using show_radix_no_sep more_groups_no_dot [of gs'] by (simp only: show_groups_Cons) simp
qed (simp add: show_groups_def)

text \<open>What ends a list of groups: the end of the text, or a separator without a group after it.\<close>

definition groups_end :: "string \<Rightarrow> bool" where
  "groups_end r \<longleftrightarrow> CHR ''.'' \<notin> set r \<and> (r = [] \<or> (\<exists>t. r = CHR '':'' # t \<and> no_digit 16 t))"

lemma read_group_no_digit: "no_digit 16 r \<Longrightarrow> read_group r = None"
  by (cases r) (auto simp: read_group_def read_number_def no_digit_def)

lemma groups_end_stop: "groups_end r \<Longrightarrow> read_groups left i r = ([], False, r)"
proof (cases left)
  case (Suc n)
  assume r: "groups_end r"
  have "read_separated (CHR '':'') i read_group r = None"
  proof (cases "i = 0")
    case True
    have "no_digit 16 r" using r by (auto simp: groups_end_def)
    then show ?thesis using True read_group_no_digit by (simp add: read_separated_def)
  next
    case False
    then show ?thesis using r read_group_no_digit by (auto simp: read_separated_def groups_end_def)
  qed
  moreover have "read_separated (CHR '':'') i read_ipv4 r = None"
    using r by (intro read_separated_no_dot) (auto simp: groups_end_def)
  ultimately show ?thesis using Suc by simp
qed simp

lemma groups_end_no_digit: "groups_end r \<Longrightarrow> no_digit 16 (more_groups gs @ r)"
  by (cases gs) (auto simp: groups_end_def)

lemma read_more_groups:
  "groups_end r \<Longrightarrow> list_all (\<lambda>n. n < 65536) gs \<Longrightarrow> length gs \<le> left \<Longrightarrow> 0 < i \<Longrightarrow>
     read_groups left i (more_groups gs @ r) = (gs, False, r)"
proof (induction gs arbitrary: left i)
  case (Cons g gs)
  obtain n where n: "left = Suc n" using Cons.prems(3) by (cases left) auto
  have "read_separated (CHR '':'') i read_ipv4 (more_groups (g # gs) @ r) = None"
    using more_groups_no_dot [of "g # gs"] Cons.prems(1)
    by (intro read_separated_no_dot) (auto simp: groups_end_def)
  moreover have "read_group (show_radix 16 g @ more_groups gs @ r) = Some (g, more_groups gs @ r)"
    using Cons.prems groups_end_no_digit by (intro read_group_show) auto
  ultimately show ?case
    using Cons by (auto simp: n read_separated_def)
qed (simp add: groups_end_stop)

lemma read_show_groups:
  assumes "groups_end r" "list_all (\<lambda>n. n < 65536) gs" "length gs \<le> left"
  shows "read_groups left 0 (show_groups gs @ r) = (gs, False, r)"
proof (cases gs)
  case Nil
  then show ?thesis using assms(1) by (simp add: show_groups_def groups_end_stop)
next
  case (Cons g gs')
  obtain n where n: "left = Suc n" using assms(3) Cons by (cases left) auto
  have "read_separated (CHR '':'') 0 read_ipv4 (show_groups gs @ r) = None"
    using show_groups_no_dot [of gs] assms(1) by (intro read_separated_no_dot) (auto simp: groups_end_def)
  moreover have "read_group (show_radix 16 g @ more_groups gs' @ r) = Some (g, more_groups gs' @ r)"
    using assms Cons groups_end_no_digit by (intro read_group_show) auto
  ultimately show ?thesis
    using assms Cons read_more_groups [of r gs' n 1] by (auto simp: n read_separated_def show_groups_Cons)
qed

subsection \<open>The run of zeros\<close>

definition run_at :: "nat list \<Rightarrow> nat \<times> nat \<Rightarrow> bool" where
  "run_at g run \<longleftrightarrow> (case run of (start, n) \<Rightarrow>
     \<exists>xs ys. g = xs @ replicate n 0 @ ys \<and> length xs = start)"

lemma run_at_extend: "run_at g run \<Longrightarrow> run_at (g @ ys) run"
  by (force simp: run_at_def)

lemma zero_run_at:
  assumes "run_at pre longest" "cl = 0 \<or> (\<exists>xs. pre = xs @ replicate cl 0 \<and> length xs = cs)"
  shows "run_at (pre @ gs) (zero_run gs (length pre) (cs, cl) longest)"
  using assms
proof (induction gs arbitrary: pre cs cl longest)
  case (Cons g gs)
  have len: "length (pre @ [g]) = Suc (length pre)" by simp
  show ?case
  proof (cases "g = 0")
    case True
    define start where "start = (if cl = 0 then length pre else cs)"
    have cur: "\<exists>xs. pre @ [g] = xs @ replicate (Suc cl) 0 \<and> length xs = start"
    proof (cases "cl = 0")
      case False
      then obtain xs where "pre = xs @ replicate cl 0" "length xs = cs" using Cons.prems(2) by blast
      then show ?thesis
        using True False by (intro exI [of _ xs]) (simp add: start_def replicate_append_same)
    qed (use True in \<open>simp add: start_def\<close>)
    then have "run_at (pre @ [g]) (start, Suc cl)" by (fastforce simp: run_at_def)
    then have "run_at ((pre @ [g]) @ gs) (zero_run gs (length (pre @ [g])) (start, Suc cl)
        (if snd longest < Suc cl then (start, Suc cl) else longest))"
      using cur run_at_extend [OF Cons.prems(1), of "[g]"] by (intro Cons.IH) auto
    then show ?thesis using True unfolding start_def by (simp add: Let_def split: if_splits)
  next
    case False
    then show ?thesis
      using Cons.IH [of "pre @ [g]" longest 0 0] run_at_extend [OF Cons.prems(1), of "[g]"] by simp
  qed
qed simp

lemma read_ipv6_show:
  assumes "groups g" "to_ipv4_mapped g = None"
  shows "read_ipv6 (show_ipv6 g) = Some (g, [])" "CHR ''.'' \<notin> set (show_ipv6 g)"
proof -
  obtain start n where z: "zero_run g 0 (0, 0) (0, 0) = (start, n)" by fastforce
  have "run_at [] (0, 0)" by (simp add: run_at_def)
  from zero_run_at [OF this, of 0 0 g]
  have "run_at ([] @ g) (zero_run g (length ([] :: nat list)) (0, 0) (0, 0))" by simp
  then obtain xs ys where g: "g = xs @ replicate n 0 @ ys" "length xs = start" by (auto simp: z run_at_def)
  have len: "length xs + n + length ys = 8" using assms(1) g(1) by (simp add: groups_def)
  have small: "list_all (\<lambda>n. n < 65536) xs" "list_all (\<lambda>n. n < 65536) ys"
    using assms(1) g(1) by (simp_all add: groups_def)
  show "CHR ''.'' \<notin> set (show_ipv6 g)"
    using assms(2) z show_groups_no_dot by (simp add: show_ipv6_def)
  show "read_ipv6 (show_ipv6 g) = Some (g, [])"
  proof (cases "1 < n")
    case True
    have shown: "show_ipv6 g = show_groups xs @ ''::'' @ show_groups ys"
      using assms(2) z g True by (simp add: show_ipv6_def)
    have "no_digit 16 (CHR '':'' # show_groups ys)" by simp
    then have "groups_end (''::'' @ show_groups ys)"
      using show_groups_no_dot by (simp add: groups_end_def)
    then have "read_groups 8 0 (show_groups xs @ ''::'' @ show_groups ys) = (xs, False, ''::'' @ show_groups ys)"
      using small(1) len by (intro read_show_groups) auto
    moreover have "read_groups (8 - (length xs + 1)) 0 (show_groups ys @ []) = (ys, False, [])"
      using small(2) len True by (intro read_show_groups) (auto simp: groups_end_def)
    moreover have "8 - length xs - length ys = n" using len by simp
    ultimately show ?thesis using shown len True g(1) by (simp add: read_ipv6_def)
  next
    case False
    have "show_ipv6 g = show_groups g @ []" using assms(2) z False by (simp add: show_ipv6_def)
    moreover have "read_groups 8 0 (show_groups g @ []) = (g, False, [])"
      using assms(1) by (intro read_show_groups) (auto simp: groups_end_def groups_def)
    ultimately show ?thesis using assms(1) by (simp add: read_ipv6_def groups_def)
  qed
qed

lemma parse_show_ipv6:
  assumes "groups g" "to_ipv4_mapped g = None"
  shows "parse_ip (show_ipv6 g) = Some (V6 g)"
proof -
  have "read_ipv4 (show_ipv6 g) = None"
    using read_separated_no_dot [OF read_ipv6_show(2) [OF assms], of undefined 0]
    by (simp add: read_separated_def)
  then show ?thesis using read_ipv6_show(1) [OF assms] by (simp add: parse_ip_def)
qed

text \<open>An address in IPv6 notation has a colon.\<close>

lemma read_ipv6_colon: "read_ipv6 s = Some (g, []) \<Longrightarrow> CHR '':'' \<in> set s"
proof (rule ccontr)
  assume a: "read_ipv6 s = Some (g, [])" "CHR '':'' \<notin> set s"
  have suf: "read_groups n i t = (gs, v4, r) \<Longrightarrow> suffix r t" for n i t gs v4 r
  proof (induction n i t arbitrary: gs v4 r rule: read_groups.induct)
    case (2 n i s)
    have four: "read_separated c i read_ipv4 s = Some (q, t) \<Longrightarrow> suffix t s" for c q t
      using read_ipv4_SomeD by (fastforce simp: read_separated_def bind_eq_Some_conv suffix_def split: if_splits)
    have one: "read_separated c i read_group s = Some (q, t) \<Longrightarrow> suffix t s" for c q t
      using read_number_SomeD
      by (fastforce simp: read_separated_def read_group_def bind_eq_Some_conv suffix_def split: if_splits)
    show ?case
      using 2(2) four one 2(1) by (fastforce split: option.splits prod.splits if_splits intro: suffix_order.trans)
  qed simp
  obtain front v4 r where f: "read_groups 8 0 s = (front, v4, r)" by (metis prod_cases3)
  have no: "CHR '':'' \<notin> set r" using suf [OF f] a(2) by (auto simp: suffix_def)
  have "length front = 8"
    using a(1) f no by (auto simp: read_ipv6_def bind_eq_Some_conv split: if_splits)
  moreover have "length front \<le> 2"
  proof -
    note step = read_groups.simps(2) [of 7 0 s, simplified]
    have stop: "read_groups n (Suc i) t = ([], False, t)" if "CHR '':'' \<notin> set t" for n i t
      using that by (cases n) (auto simp: read_separated_def given_def split: list.splits)
    show ?thesis
    proof (cases "read_separated (CHR '':'') 0 read_ipv4 s")
      case (Some x)
      then show ?thesis using f by (cases x) (auto simp: step)
    next
      case None
      show ?thesis
      proof (cases "read_group s")
        case n: None
        then show ?thesis using f None by (simp add: step read_separated_def)
      next
        case s2: (Some y)
        obtain k t where y: "y = (k, t)" by (cases y)
        have "CHR '':'' \<notin> set t"
          using s2 y a(2) read_number_SomeD by (fastforce simp: read_group_def)
        from stop [OF this, of 7 0] show ?thesis
          using f None s2 y by (auto simp: step read_separated_def)
      qed
    qed
  qed
  ultimately show False by simp
qed

end
