(* ===== verification/ConfigProduct.thy ===== *)
theory ConfigProduct
  imports ConfigShape IpText SetupPaths Json
begin

text \<open>
  The product configuration of one instance (\<open>src/src/config/mod.rs\<close>): decoding, validation with the
  normalization of its eight references, the guarded read of a configuration file, the normalized
  document, and the metadata observations of \<open>src/src/config/preflight.rs\<close>. \<open>decode\<close> decodes a JSON
  string literal, \<open>parse\<close> gives the syntax tree of a document and \<open>print\<close> pretty-prints an instance:
  they stand for \<open>serde_json\<close>. The messages of reports and checks are not modelled.
\<close>

unbundle bit_operations_syntax

section \<open>The document\<close>

record config_address =
  addr_address :: string
  addr_port :: int

record config_storage =
  st_backend :: string
  st_data :: string

record config_secrets =
  sec_keystore :: string
  sec_password :: string
  sec_tls_key_store :: string
  sec_tls_key_password :: string
  sec_tls_trust_store :: string
  sec_tls_trust_password :: string

record config_instance =
  ci_schema :: int
  ci_id :: string
  ci_role :: string
  ci_node_id :: string
  ci_chain :: string
  ci_storage :: config_storage
  ci_secrets :: config_secrets
  ci_http :: config_address
  ci_p2p :: config_address

definition config_address_of_json :: "json \<Rightarrow> config_address option" where
  "config_address_of_json v =
     do { m \<leftarrow> struct_fields [''address'', ''port''] [] v;
          a \<leftarrow> get_str m ''address''; p \<leftarrow> get_i64 m ''port'';
          Some \<lparr>addr_address = a, addr_port = p\<rparr> }"

definition config_storage_of_json :: "json \<Rightarrow> config_storage option" where
  "config_storage_of_json v =
     do { m \<leftarrow> struct_fields [''backend'', ''dataDirectory''] [] v;
          b \<leftarrow> get_str m ''backend''; d \<leftarrow> get_str m ''dataDirectory'';
          Some \<lparr>st_backend = b, st_data = d\<rparr> }"

definition config_secrets_of_json :: "json \<Rightarrow> config_secrets option" where
  "config_secrets_of_json v =
     do { m \<leftarrow> struct_fields [''validatorKeystore'', ''validatorPasswordFile'', ''tlsKeyStore'',
            ''tlsKeyPasswordFile'', ''tlsTrustStore'', ''tlsTrustPasswordFile''] [] v;
          a \<leftarrow> get_str m ''validatorKeystore''; b \<leftarrow> get_str m ''validatorPasswordFile'';
          c \<leftarrow> get_str m ''tlsKeyStore''; d \<leftarrow> get_str m ''tlsKeyPasswordFile'';
          e \<leftarrow> get_str m ''tlsTrustStore''; f \<leftarrow> get_str m ''tlsTrustPasswordFile'';
          Some \<lparr>sec_keystore = a, sec_password = b, sec_tls_key_store = c, sec_tls_key_password = d,
            sec_tls_trust_store = e, sec_tls_trust_password = f\<rparr> }"

definition config_of_json :: "json \<Rightarrow> config_instance option" where
  "config_of_json v =
     do { m \<leftarrow> struct_fields [''schemaVersion'', ''instanceId'', ''role'', ''nodeId'', ''chainDescription'',
            ''storage'', ''secrets'', ''http'', ''p2p''] [] v;
          sv \<leftarrow> get_i64 m ''schemaVersion''; i \<leftarrow> get_str m ''instanceId''; r \<leftarrow> get_str m ''role'';
          n \<leftarrow> get_str m ''nodeId''; c \<leftarrow> get_str m ''chainDescription'';
          st \<leftarrow> Option.bind (m ''storage'') config_storage_of_json;
          se \<leftarrow> Option.bind (m ''secrets'') config_secrets_of_json;
          h \<leftarrow> Option.bind (m ''http'') config_address_of_json;
          p \<leftarrow> Option.bind (m ''p2p'') config_address_of_json;
          Some \<lparr>ci_schema = sv, ci_id = i, ci_role = r, ci_node_id = n, ci_chain = c, ci_storage = st,
            ci_secrets = se, ci_http = h, ci_p2p = p\<rparr> }"

section \<open>Validation\<close>

definition valid_path_text :: "string \<Rightarrow> bool" where
  "valid_path_text p \<longleftrightarrow>
     p \<noteq> [] \<and> length p \<le> 4096 \<and> \<not> prefix ''~'' p \<and> CHR 0x5C \<notin> set p \<and> \<not> has_control p"

definition valid_p2p_address :: "string \<Rightarrow> bool" where
  "valid_p2p_address t =
     (case parse_ip t of
        Some (V4 q) \<Rightarrow> unicast_v4 q
      | Some (V6 g) \<Rightarrow> (case to_ipv4_mapped g of Some q \<Rightarrow> unicast_v4 q | None \<Rightarrow> unicast_v6 g)
      | None \<Rightarrow> False)"

definition resolve_source :: "string option \<Rightarrow> string \<Rightarrow> names result" where
  "resolve_source cwd p =
     and_then (ensure (valid_utf8 p \<and> valid_path_text p) ''CONFIG_PATH_INVALID'') (\<lambda>_.
     if is_absolute p then Inr (clean (components p))
     else and_then (ok_or cwd ''CONFIG_PATH_INVALID'') (\<lambda>base.
          Inr (clean (components base @ components p))))"

text \<open>The references in the order the validation rewrites them.\<close>

definition references :: "config_instance \<Rightarrow> string list" where
  "references c = (let s = ci_secrets c in
     [ci_chain c, st_data (ci_storage c), sec_keystore s, sec_password s, sec_tls_key_store s,
      sec_tls_key_password s, sec_tls_trust_store s, sec_tls_trust_password s])"

definition set_references :: "config_instance \<Rightarrow> string list \<Rightarrow> config_instance" where
  "set_references c rs = c\<lparr>ci_chain := rs ! 0, ci_storage := (ci_storage c)\<lparr>st_data := rs ! 1\<rparr>,
     ci_secrets := \<lparr>sec_keystore = rs ! 2, sec_password = rs ! 3, sec_tls_key_store = rs ! 4,
       sec_tls_key_password = rs ! 5, sec_tls_trust_store = rs ! 6, sec_tls_trust_password = rs ! 7\<rparr>\<rparr>"

definition secret_paths :: "config_instance \<Rightarrow> string list" where
  "secret_paths c = (let s = ci_secrets c in
     [sec_keystore s, sec_password s, sec_tls_key_store s, sec_tls_key_password s,
      sec_tls_trust_store s, sec_tls_trust_password s])"

text \<open>One reference, relative ones from the directory of the configuration file.\<close>

definition normal_reference :: "names \<Rightarrow> string \<Rightarrow> string result" where
  "normal_reference source t =
     and_then (ensure (valid_path_text t) ''REFERENCE_PATH_INVALID'') (\<lambda>_.
     let ns = (if is_absolute t then clean (components t)
               else clean (RootDir # map Normal (butlast source) @ components t)) in
     and_then (ensure (\<not> (ns = [] \<or> ns = source)) ''REFERENCE_PATH_INVALID'') (\<lambda>_.
     Inr (path_text ns)))"

definition instance_name_ok :: "string \<Rightarrow> bool" where
  "instance_name_ok i \<longleftrightarrow> \<not> (i = [] \<or> 32 < length i \<or> \<not> is_lower (hd i) \<or>
     \<not> list_all (\<lambda>b. is_lower b \<or> is_digit b \<or> b = CHR ''-'') i)"

definition node_name_ok :: "string \<Rightarrow> bool" where
  "node_name_ok n \<longleftrightarrow> \<not> (n = [] \<or> 128 < length n \<or> \<not> is_alphanumeric (hd n) \<or>
     \<not> list_all (\<lambda>b. is_alphanumeric b \<or> List.member ''._:-'' b) n)"

definition ports_ok :: "int \<Rightarrow> int \<Rightarrow> bool" where
  "ports_ok http p2p \<longleftrightarrow>
     \<not> (\<not> (1 \<le> http \<and> http \<le> 65535) \<or> \<not> (1 \<le> p2p \<and> p2p \<le> 65535) \<or> http = p2p)"

definition validate_config :: "names \<Rightarrow> config_instance \<Rightarrow> config_instance result" where
  "validate_config source c =
     and_then (ensure (\<not> (ci_schema c \<noteq> 1 \<or> ci_role c \<noteq> ''validator'' \<or>
                 st_backend (ci_storage c) \<noteq> ''rocksdb'')) ''CONFIG_SCHEMA_INVALID'') (\<lambda>_.
     and_then (ensure (instance_name_ok (ci_id c)) ''INSTANCE_ID_INVALID'') (\<lambda>_.
     and_then (ensure (node_name_ok (ci_node_id c)) ''NODE_ID_INVALID'') (\<lambda>_.
     and_then (ensure (\<not> (addr_address (ci_http c) \<noteq> ''127.0.0.1'' \<and> addr_address (ci_http c) \<noteq> ''::1''))
                 ''HTTP_ADDRESS_INVALID'') (\<lambda>_.
     and_then (ensure (valid_p2p_address (addr_address (ci_p2p c))) ''P2P_ADDRESS_INVALID'') (\<lambda>_.
     and_then (ensure (ports_ok (addr_port (ci_http c)) (addr_port (ci_p2p c))) ''PORTS_INVALID'') (\<lambda>_.
     and_then (ensure (source \<noteq> []) ''CONFIG_PATH_INVALID'') (\<lambda>_.
     and_then (map_result (normal_reference source) (references c)) (\<lambda>rs.
     let c' = set_references c rs in
     and_then (ensure (\<not> List.member (ci_chain c' # secret_paths c') (st_data (ci_storage c')))
                 ''REFERENCE_PATH_CONFLICT'') (\<lambda>_.
     Inr c')))))))))"

section \<open>Reading\<close>

definition max_config_bytes :: nat where "max_config_bytes = 262144"

definition parse_config ::
  "(bytes \<Rightarrow> string option) \<Rightarrow> (bytes \<Rightarrow> json option) \<Rightarrow> names \<Rightarrow> bytes \<Rightarrow> config_instance result" where
  "parse_config decode parse source raw =
     and_then (ensure (length raw \<le> max_config_bytes) ''CONFIG_TOO_LARGE'') (\<lambda>_.
     and_then (ensure (\<not> (\<not> valid_utf8 raw \<or> strict_json_shape decode raw \<noteq> Some True))
                 ''CONFIG_JSON_INVALID'') (\<lambda>_.
     and_then (ok_or (Option.bind (parse raw) config_of_json) ''CONFIG_SCHEMA_INVALID'')
       (validate_config source)))"

definition normalized_config ::
  "(bytes \<Rightarrow> string option) \<Rightarrow> (bytes \<Rightarrow> json option) \<Rightarrow> (config_instance \<Rightarrow> bytes) \<Rightarrow> names \<Rightarrow>
     config_instance \<Rightarrow> bytes result" where
  "normalized_config decode parse print source c =
     (let b = print c @ [CHR 0x0A] in
      and_then (parse_config decode parse source b) (\<lambda>_. Inr b))"

definition normalize_bytes ::
  "(bytes \<Rightarrow> string option) \<Rightarrow> (bytes \<Rightarrow> json option) \<Rightarrow> (config_instance \<Rightarrow> bytes) \<Rightarrow> string option \<Rightarrow>
     string \<Rightarrow> bytes \<Rightarrow> bytes result" where
  "normalize_bytes decode parse print cwd p raw =
     and_then (resolve_source cwd p) (\<lambda>source.
     and_then (parse_config decode parse source raw) (normalized_config decode parse print source))"

text \<open>
  The answers during one guarded read: metadata of the path, the open (\<open>None\<close>: it fails) with
  the metadata of the opened file, its content, and its metadata after the read. \<open>modified()\<close>
  does not fail on the supported platforms.
\<close>

record config_read =
  cr_before :: "fs_meta option"
  cr_opened :: "fs_meta option option"
  cr_content :: "bytes option"
  cr_after :: "fs_meta option"

definition config_same_file :: "fs_meta \<Rightarrow> fs_meta \<Rightarrow> bool" where
  "config_same_file l r \<longleftrightarrow> fm_device l = fm_device r \<and> fm_inode l = fm_inode r"

definition load_config ::
  "(bytes \<Rightarrow> string option) \<Rightarrow> (bytes \<Rightarrow> json option) \<Rightarrow> string option \<Rightarrow> string \<Rightarrow> config_read \<Rightarrow>
     (config_instance \<times> bytes \<times> names) result" where
  "load_config decode parse cwd p a =
     and_then (resolve_source cwd p) (\<lambda>source.
     and_then (ok_or (cr_before a) ''CONFIG_READ_FAILED'') (\<lambda>before.
     and_then (ensure (fm_regular before) ''CONFIG_NOT_REGULAR'') (\<lambda>_.
     and_then (ensure (fm_len before \<le> max_config_bytes) ''CONFIG_TOO_LARGE'') (\<lambda>_.
     and_then (ok_or (cr_opened a) ''CONFIG_READ_FAILED'') (\<lambda>opened.
     and_then (ok_or opened ''CONFIG_CHANGED'') (\<lambda>opened.
     and_then (ensure (\<not> (\<not> fm_regular opened \<or> \<not> config_same_file before opened)) ''CONFIG_CHANGED'') (\<lambda>_.
     and_then (ok_or (cr_content a) ''CONFIG_READ_FAILED'') (\<lambda>content.
     let raw = take (Suc max_config_bytes) content in
     and_then (ensure (length raw \<le> max_config_bytes) ''CONFIG_TOO_LARGE'') (\<lambda>_.
     and_then (ok_or (cr_after a) ''CONFIG_CHANGED'') (\<lambda>after.
     and_then (ensure (\<not> (fm_len after \<noteq> fm_len opened \<or> fm_modified after \<noteq> fm_modified opened))
                 ''CONFIG_CHANGED'') (\<lambda>_.
     and_then (parse_config decode parse source raw) (\<lambda>c.
     Inr (c, raw, source)))))))))))))"

definition normalized_file ::
  "(bytes \<Rightarrow> string option) \<Rightarrow> (bytes \<Rightarrow> json option) \<Rightarrow> (config_instance \<Rightarrow> bytes) \<Rightarrow> string option \<Rightarrow>
     string \<Rightarrow> config_read \<Rightarrow> bytes result" where
  "normalized_file decode parse print cwd p a =
     and_then (load_config decode parse cwd p a) (\<lambda>(c, _, source).
     normalized_config decode parse print source c)"

section \<open>Reports and metadata observations\<close>

record config_check =
  cc_name :: string
  cc_status :: string
  cc_reason :: string

record config_report =
  rp_instance :: string
  rp_outcome :: string
  rp_checks :: "config_check list"
  rp_sha :: string

abbreviation new_check :: "string \<Rightarrow> string \<Rightarrow> string \<Rightarrow> config_check" where
  "new_check n s r \<equiv> \<lparr>cc_name = n, cc_status = s, cc_reason = r\<rparr>"

definition config_report :: "(bytes \<Rightarrow> string) \<Rightarrow> config_instance \<Rightarrow> bytes \<Rightarrow> string \<Rightarrow> config_report" where
  "config_report sha c raw outcome = \<lparr>rp_instance = ci_id c, rp_outcome = outcome,
     rp_checks = [new_check ''productSchema'' ''PASS'' ''PRODUCT_SCHEMA_VALID''], rp_sha = sha raw\<rparr>"

definition validate_file ::
  "(bytes \<Rightarrow> string) \<Rightarrow> (bytes \<Rightarrow> string option) \<Rightarrow> (bytes \<Rightarrow> json option) \<Rightarrow> string option \<Rightarrow> string \<Rightarrow>
     config_read \<Rightarrow> config_report result" where
  "validate_file sha decode parse cwd p a =
     and_then (load_config decode parse cwd p a) (\<lambda>(c, raw, _).
     Inr (config_report sha c raw ''VALIDATED_PRODUCT_CONFIG''))"

record path_meta = fs_meta +
  fm_symlink :: bool

text \<open>What \<open>symlink_metadata\<close> answers for the path below the root with these names.\<close>

datatype meta_answer = Not_Found | Meta_Error | Meta path_meta

type_synonym meta_fs = "names \<Rightarrow> meta_answer"

fun inspect_prefixes :: "meta_fs \<Rightarrow> path_meta option \<Rightarrow> names list \<Rightarrow> string + path_meta" where
  "inspect_prefixes f final [] =
     (case final of None \<Rightarrow> Inl ''REFERENCE_METADATA_UNAVAILABLE'' | Some m \<Rightarrow> Inr m)"
| "inspect_prefixes f final (p # ps) =
     (case f p of
        Not_Found \<Rightarrow> Inl ''REFERENCE_MISSING''
      | Meta_Error \<Rightarrow> Inl ''REFERENCE_METADATA_UNAVAILABLE''
      | Meta m \<Rightarrow>
          if fm_symlink m then Inl ''REFERENCE_SYMLINK''
          else if ps \<noteq> [] \<and> \<not> fm_dir m then Inl ''REFERENCE_PARENT_NOT_DIRECTORY''
          else inspect_prefixes f (Some m) ps)"

definition prefixes_of :: "names \<Rightarrow> names list" where
  "prefixes_of ns = map (\<lambda>i. take i ns) [0..<Suc (length ns)]"

definition inspect_path :: "meta_fs \<Rightarrow> names \<Rightarrow> string + path_meta" where
  "inspect_path f ns = inspect_prefixes f None (prefixes_of ns)"

definition permission_bits :: "path_meta \<Rightarrow> nat" where
  "permission_bits m = fm_mode m AND 511"

definition file_check :: "meta_fs \<Rightarrow> string \<Rightarrow> names \<Rightarrow> bool \<Rightarrow> config_check" where
  "file_check f name ns secret =
     (case inspect_path f ns of
        Inl reason \<Rightarrow> new_check name ''FAIL'' reason
      | Inr m \<Rightarrow>
          if \<not> fm_regular m then new_check name ''FAIL'' ''REFERENCE_NOT_REGULAR''
          else if permission_bits m AND (if secret then 95 else 18) \<noteq> 0
          then new_check name ''FAIL'' ''REFERENCE_PERMISSIONS_UNSAFE''
          else if secret \<and> \<not> (case (if ns = [] then Not_Found else f (butlast ns)) of
                 Meta parent \<Rightarrow> fm_dir parent \<and> permission_bits parent AND 23 = 0
               | _ \<Rightarrow> False)
          then new_check name ''FAIL'' ''SECRET_DIRECTORY_PERMISSIONS_UNSAFE''
          else new_check name ''PASS'' ''REFERENCE_METADATA_VALID'')"

definition data_check :: "meta_fs \<Rightarrow> names \<Rightarrow> config_check" where
  "data_check f ns =
     (case inspect_path f ns of
        Inl reason \<Rightarrow>
          if reason = ''REFERENCE_MISSING''
          then new_check ''dataDirectoryMetadata'' ''NOT_CHECKED'' ''DATA_NOT_INITIALIZED''
          else new_check ''dataDirectoryMetadata'' ''FAIL'' reason
      | Inr m \<Rightarrow>
          if \<not> fm_dir m then new_check ''dataDirectoryMetadata'' ''FAIL'' ''DATA_NOT_DIRECTORY''
          else if permission_bits m AND 23 \<noteq> 0
          then new_check ''dataDirectoryMetadata'' ''FAIL'' ''DATA_PERMISSIONS_UNSAFE''
          else new_check ''dataDirectoryMetadata'' ''PASS'' ''DATA_DIRECTORY_METADATA_VALID'')"

text \<open>The references of a validated instance are absolute and normal: their names below the root.\<close>

definition reference_names :: "string \<Rightarrow> names" where
  "reference_names p = clean (components p)"

definition not_checked :: "(string \<times> string) list" where
  "not_checked = [(''nigoCanonicalConfiguration'', ''NIGO_CONTRACT_UNAVAILABLE''),
     (''keyAndCertificateIdentity'', ''KEY_CONTENT_NOT_READ''), (''databaseIntegrity'', ''DB_NOT_OPENED''),
     (''networkAvailability'', ''NETWORK_NOT_PROBED''), (''runtimeAndNativeSupport'', ''RUNTIME_NOT_EXECUTED''),
     (''hostAndServiceManager'', ''HOST_PLATFORM_NOT_VERIFIED''),
     (''effectiveServicePermissions'', ''SERVICE_IDENTITY_NOT_VERIFIED''),
     (''instancePersistence'', ''INSTANCE_NOT_PERSISTED'')]"

definition secret_check_names :: "string list" where
  "secret_check_names = [''validatorKeystoreMetadata'', ''validatorPasswordMetadata'', ''tlsKeyStoreMetadata'',
     ''tlsKeyPasswordMetadata'', ''tlsTrustStoreMetadata'', ''tlsTrustPasswordMetadata'']"

definition inspect_config ::
  "(bytes \<Rightarrow> string) \<Rightarrow> meta_fs \<Rightarrow> config_instance \<Rightarrow> bytes \<Rightarrow> config_check \<Rightarrow> config_report" where
  "inspect_config sha f c raw config_metadata =
     (let r = config_report sha c raw ''INCOMPLETE'';
          checks = rp_checks r @ [config_metadata] @
            [file_check f ''chainDescriptionMetadata'' (reference_names (ci_chain c)) False] @
            map (\<lambda>(name, p). file_check f name (reference_names p) True) (zip secret_check_names (secret_paths c)) @
            [data_check f (reference_names (st_data (ci_storage c)))] @
            map (\<lambda>(name, reason). new_check name ''NOT_CHECKED'' reason) not_checked in
      r\<lparr>rp_checks := checks,
        rp_outcome := if list_ex (\<lambda>k. cc_status k = ''FAIL'') checks then ''FAIL'' else rp_outcome r\<rparr>)"

definition preflight ::
  "(bytes \<Rightarrow> string) \<Rightarrow> (bytes \<Rightarrow> string option) \<Rightarrow> (bytes \<Rightarrow> json option) \<Rightarrow> string option \<Rightarrow> meta_fs \<Rightarrow>
     string \<Rightarrow> config_read \<Rightarrow> config_report result" where
  "preflight sha decode parse cwd f p a =
     and_then (load_config decode parse cwd p a) (\<lambda>(c, raw, source).
     Inr (inspect_config sha f c raw (file_check f ''configMetadata'' source False)))"

definition preflight_bytes ::
  "(bytes \<Rightarrow> string) \<Rightarrow> (bytes \<Rightarrow> string option) \<Rightarrow> (bytes \<Rightarrow> json option) \<Rightarrow> string option \<Rightarrow> meta_fs \<Rightarrow>
     string \<Rightarrow> bytes \<Rightarrow> config_report result" where
  "preflight_bytes sha decode parse cwd f p raw =
     and_then (resolve_source cwd p) (\<lambda>source.
     and_then (parse_config decode parse source raw) (\<lambda>c.
     Inr (inspect_config sha f c raw (new_check ''configMetadata'' ''NOT_CHECKED'' ''DRAFT_NOT_WRITTEN''))))"

section \<open>Validated instances\<close>

lemma length_references [simp]: "length (references c) = 8"
  by (simp add: references_def Let_def)

lemma references_set: "length rs = 8 \<Longrightarrow> references (set_references c rs) = rs"
  by (auto simp: references_def set_references_def Let_def length_Suc_conv eval_nat_numeral)

lemma set_references_id: "set_references c (references c) = c"
  by (simp add: references_def set_references_def Let_def)

lemma set_references_select [simp]:
  "ci_schema (set_references c rs) = ci_schema c" "ci_role (set_references c rs) = ci_role c"
  "st_backend (ci_storage (set_references c rs)) = st_backend (ci_storage c)"
  "ci_id (set_references c rs) = ci_id c" "ci_node_id (set_references c rs) = ci_node_id c"
  "ci_http (set_references c rs) = ci_http c" "ci_p2p (set_references c rs) = ci_p2p c"
  by (simp_all add: set_references_def)

text \<open>A reference the validation may leave behind.\<close>

definition good_reference :: "names \<Rightarrow> string \<Rightarrow> bool" where
  "good_reference source r \<longleftrightarrow>
     (\<exists>ns. r = path_text ns \<and> list_all name_ok ns \<and> ns \<noteq> [] \<and> ns \<noteq> source)"

lemma normal_reference_good:
  assumes "normal_reference source t = Inr r" "list_all name_ok source"
  shows "good_reference source r"
proof -
  have "Normal n \<in> set (RootDir # map Normal (butlast source) @ components t) \<Longrightarrow> name_ok n" for n
    using assms(2) components_names by (auto simp: list_all_iff dest: in_set_butlastD)
  then have "list_all name_ok (clean (RootDir # map Normal (butlast source) @ components t))"
    by (rule clean_names)
  moreover have "list_all name_ok (clean (components t))" by (rule clean_names) (rule components_names)
  ultimately show ?thesis
    using assms(1) unfolding normal_reference_def good_reference_def
    by (auto simp: Let_def split: if_splits)
qed

lemma normal_reference_fixed:
  assumes "good_reference source r" "valid_path_text r"
  shows "normal_reference source r = Inr r"
proof -
  obtain ns where "r = path_text ns" "list_all name_ok ns" "ns \<noteq> []" "ns \<noteq> source"
    using assms(1) by (auto simp: good_reference_def)
  moreover have "is_absolute (path_text ns)" by (simp add: is_absolute_def path_text_def)
  ultimately show ?thesis using assms(2) by (simp add: normal_reference_def clean_path_text)
qed

lemma validate_config_references:
  assumes "validate_config source c = Inr c'" "list_all name_ok source"
  shows "list_all (good_reference source) (references c')"
    and "st_data (ci_storage c') \<notin> set (ci_chain c' # secret_paths c')"
    and "\<exists>rs. map_result (normal_reference source) (references c) = Inr rs \<and> c' = set_references c rs \<and> length rs = 8"
proof -
  obtain rs where rs: "map_result (normal_reference source) (references c) = Inr rs" "c' = set_references c rs"
    using assms(1) by (auto simp: validate_config_def Let_def)
  then have len: "length rs = 8"
    using list_all2_lengthD by (fastforce simp: map_result_Inr_iff)
  show "list_all (good_reference source) (references c')"
    using map_result_results [OF rs(1) normal_reference_good [OF _ assms(2)]] rs(2) len by (simp add: references_set)
  show "st_data (ci_storage c') \<notin> set (ci_chain c' # secret_paths c')"
    using assms(1) by (auto simp: validate_config_def Let_def)
  show "\<exists>rs. map_result (normal_reference source) (references c) = Inr rs \<and> c' = set_references c rs \<and> length rs = 8"
    using rs len by blast
qed

text \<open>Validating what was validated changes nothing, if every reference still has an admissible text.\<close>

lemma validate_config_fixed:
  assumes v: "validate_config source c = Inr c'" and "list_all name_ok source"
    and "list_all valid_path_text (references c')"
  shows "validate_config source c' = Inr c'"
proof -
  have m: "map_result (normal_reference source) (references c') = Inr (references c')"
    using validate_config_references(1) [OF v assms(2)] assms(3) normal_reference_fixed
    by (intro map_result_fixed) (simp add: list_all_iff)
  obtain rs where "c' = set_references c rs" using validate_config_references(3) [OF v assms(2)] by blast
  then have same: "ci_schema c' = ci_schema c" "ci_role c' = ci_role c" "ci_id c' = ci_id c"
    "st_backend (ci_storage c') = st_backend (ci_storage c)" "ci_node_id c' = ci_node_id c"
    "ci_http c' = ci_http c" "ci_p2p c' = ci_p2p c"
    by simp_all
  show ?thesis
    using v validate_config_references(2) [OF v assms(2)]
    unfolding validate_config_def m and_then_Inr set_references_id same
    by (simp add: Let_def)
qed

lemma resolve_source_names: "resolve_source cwd p = Inr ns \<Longrightarrow> list_all name_ok ns"
  by (auto simp: resolve_source_def intro!: clean_names dest: components_names split: if_splits)

lemma parse_config_valid_texts:
  "validate_config source c = Inr c' \<Longrightarrow> list_all valid_path_text (references c)"
  by (auto simp: validate_config_def map_result_Inr_iff normal_reference_def list_all_iff
      list_all2_conv_all_nth in_set_conv_nth Let_def)

lemma normalized_config_fixed:
  assumes "list_all name_ok source" "parse_config decode parse source raw = Inr c"
    "Option.bind (parse (print c @ [CHR 0x0A])) config_of_json = Some c"
    "normalized_config decode parse print source c = Inr b"
  shows "parse_config decode parse source b = Inr c \<and> normalized_config decode parse print source c = Inr b"
proof -
  obtain c0 where c0: "validate_config source c0 = Inr c" using assms(2) by (auto simp: parse_config_def)
  obtain c2 where b: "b = print c @ [CHR 0x0A]" and c2: "parse_config decode parse source b = Inr c2"
    using assms(4) by (auto simp: normalized_config_def Let_def)
  then have "validate_config source c = Inr c2" using assms(3) by (simp add: parse_config_def)
  moreover then have "validate_config source c = Inr c"
    using validate_config_fixed [OF c0 assms(1)] parse_config_valid_texts by blast
  ultimately show ?thesis using c2 assms(4) by simp
qed

section \<open>What a preflight without a failure has seen\<close>

definition plain_directory :: "meta_answer \<Rightarrow> bool" where
  "plain_directory a \<longleftrightarrow> (\<exists>m. a = Meta m \<and> \<not> fm_symlink m \<and> fm_dir m)"

definition parents_plain :: "meta_fs \<Rightarrow> names \<Rightarrow> bool" where
  "parents_plain f ns \<longleftrightarrow> (\<forall>i<length ns. plain_directory (f (take i ns)))"

definition protected_secret :: "meta_fs \<Rightarrow> names \<Rightarrow> bool" where
  "protected_secret f ns \<longleftrightarrow> parents_plain f ns \<and>
     (\<exists>m. f ns = Meta m \<and> \<not> fm_symlink m \<and> fm_regular m \<and> permission_bits m AND 95 = 0) \<and>
     (\<exists>d. f (butlast ns) = Meta d \<and> fm_dir d \<and> permission_bits d AND 23 = 0)"

definition protected_data :: "meta_fs \<Rightarrow> names \<Rightarrow> bool" where
  "protected_data f ns \<longleftrightarrow>
     (\<exists>i\<le>length ns. f (take i ns) = Not_Found \<and> (\<forall>k<i. plain_directory (f (take k ns)))) \<or>
     parents_plain f ns \<and> (\<exists>m. f ns = Meta m \<and> \<not> fm_symlink m \<and> fm_dir m \<and> permission_bits m AND 23 = 0)"

lemma inspect_prefixes_Inr:
  "inspect_prefixes f final (ps @ [p]) = Inr m \<Longrightarrow>
     (\<forall>q\<in>set ps. plain_directory (f q)) \<and> f p = Meta m \<and> \<not> fm_symlink m"
  by (induction ps arbitrary: final)
    (auto simp: plain_directory_def split: meta_answer.splits if_splits)

lemma inspect_prefixes_missing:
  "inspect_prefixes f final ps = Inl ''REFERENCE_MISSING'' \<Longrightarrow>
     \<exists>i<length ps. f (ps ! i) = Not_Found \<and> (\<forall>k<i. plain_directory (f (ps ! k)))"
proof (induction ps arbitrary: final)
  case (Cons p ps)
  show ?case
  proof (cases "f p")
    case Not_Found
    then show ?thesis by (intro exI [of _ 0]) simp
  next
    case (Meta m)
    have "ps \<noteq> []" using Cons.prems Meta by (cases ps) (auto split: if_splits)
    then have "plain_directory (f p)" and "inspect_prefixes f (Some m) ps = Inl ''REFERENCE_MISSING''"
      using Cons.prems Meta by (auto simp: plain_directory_def split: if_splits)
    with Cons.IH obtain i where "i < length ps" "f (ps ! i) = Not_Found" "\<forall>k<i. plain_directory (f (ps ! k))"
      by blast
    with \<open>plain_directory (f p)\<close> show ?thesis
      by (intro exI [of _ "Suc i"]) (auto simp: less_Suc_eq_0_disj)
  qed (use Cons.prems in simp)
qed (simp split: option.splits)

lemma inspect_path_Inr:
  "inspect_path f ns = Inr m \<Longrightarrow> parents_plain f ns \<and> f ns = Meta m \<and> \<not> fm_symlink m"
  using inspect_prefixes_Inr [of f None "map (\<lambda>i. take i ns) [0..<length ns]" ns m]
  by (auto simp: inspect_path_def prefixes_of_def parents_plain_def)

lemma inspect_path_missing:
  assumes "inspect_path f ns = Inl ''REFERENCE_MISSING''"
  shows "\<exists>i\<le>length ns. f (take i ns) = Not_Found \<and> (\<forall>k<i. plain_directory (f (take k ns)))"
proof -
  from inspect_prefixes_missing [OF assms [unfolded inspect_path_def]]
  obtain i where i: "i < Suc (length ns)" "f (prefixes_of ns ! i) = Not_Found"
      "\<forall>k<i. plain_directory (f (prefixes_of ns ! k))"
    by (auto simp: prefixes_of_def simp del: upt_Suc)
  then have "prefixes_of ns ! k = take k ns" if "k \<le> i" for k
    using that by (simp add: prefixes_of_def nth_map [of k] del: upt_Suc)
  then show ?thesis using i by (intro exI [of _ i]) auto
qed

lemma file_check_secret:
  assumes "cc_status (file_check f name ns True) \<noteq> ''FAIL''"
  shows "protected_secret f ns"
proof -
  obtain m where m: "inspect_path f ns = Inr m" using assms by (cases "inspect_path f ns") (auto simp: file_check_def)
  note p = inspect_path_Inr [OF m]
  have "ns \<noteq> [] \<and> fm_regular m \<and> permission_bits m AND 95 = 0 \<and>
      (\<exists>d. f (butlast ns) = Meta d \<and> fm_dir d \<and> permission_bits d AND 23 = 0)"
    using assms by (auto simp: file_check_def m split: if_splits meta_answer.splits)
  with p show ?thesis by (auto simp: protected_secret_def)
qed

lemma data_check_protected:
  assumes "cc_status (data_check f ns) \<noteq> ''FAIL''"
  shows "protected_data f ns"
proof (cases "inspect_path f ns")
  case (Inl reason)
  then show ?thesis
    using assms inspect_path_missing by (auto simp: data_check_def protected_data_def split: if_splits)
next
  case (Inr m)
  then show ?thesis
    using assms inspect_path_Inr [OF Inr] by (auto simp: data_check_def protected_data_def split: if_splits)
qed

lemma inspect_config_protected:
  assumes "rp_outcome (inspect_config sha f c raw k) \<noteq> ''FAIL''"
  shows "list_all (\<lambda>p. protected_secret f (reference_names p)) (secret_paths c)"
    and "protected_data f (reference_names (st_data (ci_storage c)))"
proof -
  have all: "cc_status (file_check f name (reference_names p) True) \<noteq> ''FAIL''"
    if "(name, p) \<in> set (zip secret_check_names (secret_paths c))" for name p
    using assms that by (force simp: inspect_config_def Let_def list_ex_iff split: if_splits)
  have len: "length secret_check_names = length (secret_paths c)"
    by (simp add: secret_check_names_def secret_paths_def Let_def)
  have "protected_secret f (reference_names p)" if p: "p \<in> set (secret_paths c)" for p
  proof -
    obtain name where "(name, p) \<in> set (zip secret_check_names (secret_paths c))"
      using in_set_impl_in_set_zip2 [OF len p] by blast
    then show ?thesis using file_check_secret all by blast
  qed
  then show "list_all (\<lambda>p. protected_secret f (reference_names p)) (secret_paths c)"
    by (simp add: list_all_iff)
  have "cc_status (data_check f (reference_names (st_data (ci_storage c)))) \<noteq> ''FAIL''"
    using assms by (auto simp: inspect_config_def Let_def list_ex_iff split: if_splits)
  then show "protected_data f (reference_names (st_data (ci_storage c)))" by (rule data_check_protected)
qed

section \<open>What the scalar fields may be\<close>

text \<open>
  Addresses by their numbers: of IPv4 the number 0, the multicast block 224.0.0.0/4 and the
  broadcast address are not single hosts; of IPv6 the number 0, the block ff00::/8, and the
  IPv4-mapped addresses whose lower half is not one.
\<close>

definition address_number :: "nat \<Rightarrow> nat list \<Rightarrow> nat" where
  "address_number b xs = foldl (\<lambda>v x. v * b + x) 0 xs"

definition single_host_v4 :: "nat \<Rightarrow> bool" where
  "single_host_v4 v \<longleftrightarrow> 0 < v \<and> v < 0xFFFFFFFF \<and> v \<notin> {0xE0000000..0xEFFFFFFF}"

definition single_host :: "ip \<Rightarrow> bool" where
  "single_host ip =
     (case ip of
        V4 q \<Rightarrow> single_host_v4 (address_number 256 q)
      | V6 g \<Rightarrow> (let v = address_number 65536 g in
          0 < v \<and> v < 0xFF * 2 ^ 120 \<and> (v div 2 ^ 32 = 0xFFFF \<longrightarrow> single_host_v4 (v mod 2 ^ 32))))"

lemma single_host_octets:
  assumes "octets q" "unicast_v4 q"
  shows "single_host_v4 (address_number 256 q)"
proof -
  obtain a b c d where q: "q = [a, b, c, d]" and o: "a < 256" "b < 256" "c < 256" "d < 256"
    using assms(1) by (auto simp: octets_def length_4)
  have u: "\<not> (a = 0 \<and> b = 0 \<and> c = 0 \<and> d = 0)" "\<not> (224 \<le> a \<and> a \<le> 239)"
    "\<not> (a = 255 \<and> b = 255 \<and> c = 255 \<and> d = 255)"
    using assms(2) by (auto simp: unicast_v4_def q)
  let ?v = "a * 16777216 + b * 65536 + c * 256 + d"
  have "0 < ?v" using u(1) by simp
  moreover have "a \<le> 254 \<or> b \<le> 254 \<or> c \<le> 254 \<or> d \<le> 254" using u(3) o by linarith
  then have "?v < 0xFFFFFFFF" using o by (elim disjE) linarith+
  moreover have "a \<le> 223 \<or> 240 \<le> a" using u(2) by linarith
  then have "?v < 0xE0000000 \<or> 0xEFFFFFFF < ?v" using o by (elim disjE) linarith+
  moreover have "address_number 256 q = ?v" by (simp add: address_number_def q)
  ultimately show ?thesis by (simp add: single_host_v4_def not_le)
qed

lemma length_8:
  assumes "length g = 8"
  shows "g = [g ! 0, g ! 1, g ! 2, g ! 3, g ! 4, g ! 5, g ! 6, g ! 7]"
proof -
  have "g = map ((!) g) [0..<8]" using assms map_nth [of g] by simp
  also have "[0..<8] = [0, 1, 2, 3, 4, 5, 6, 7]" by (simp add: upt_rec)
  finally show ?thesis by simp
qed

lemma single_host_groups:
  assumes "groups g" "case to_ipv4_mapped g of Some q \<Rightarrow> unicast_v4 q | None \<Rightarrow> unicast_v6 g"
  shows "single_host (V6 g)"
proof -
  have "length g = 8" using assms(1) by (simp add: groups_def)
  then obtain a b c d e f h i where g: "g = [a, b, c, d, e, f, h, i]" using length_8 [of g] by blast
  have lt: "a < 65536" "b < 65536" "c < 65536" "d < 65536" "e < 65536" "f < 65536" "h < 65536" "i < 65536"
    using assms(1) by (simp_all add: groups_def g)
  define u where "u = ((((a * 65536 + b) * 65536 + c) * 65536 + d) * 65536 + e) * 65536 + f"
  define l where "l = h * 65536 + i"
  have v: "address_number 65536 g = u * 2 ^ 32 + l" by (simp add: address_number_def g u_def l_def)
  have l: "l < 2 ^ 32" using lt unfolding l_def by simp
  have split: "(u * 2 ^ 32 + l) div 2 ^ 32 = u" "(u * 2 ^ 32 + l) mod 2 ^ 32 = l" using l by simp_all
  have mapped: "u = 65535 \<longleftrightarrow> take 6 g = [0, 0, 0, 0, 0, 65535]"
  proof
    define t where "t = (((a * 65536 + b) * 65536 + c) * 65536 + d) * 65536 + e"
    assume "u = 65535"
    then have tf: "t * 65536 + f = 65535" by (simp only: u_def t_def)
    then have t: "t = 0" by linarith
    with tf have f: "f = 65535" by simp
    from t have "a = 0" "b = 0" "c = 0" "d = 0" "e = 0" by (simp_all add: t_def)
    with f show "take 6 g = [0, 0, 0, 0, 0, 65535]" by (simp add: g)
  next
    assume "take 6 g = [0, 0, 0, 0, 0, 65535]"
    then have "a = 0" "b = 0" "c = 0" "d = 0" "e = 0" "f = 65535" by (simp_all add: g)
    then show "u = 65535" by (simp add: u_def)
  qed
  show ?thesis
  proof (cases "u = 65535")
    case True
    define q where "q = [h div 256, h mod 256, i div 256, i mod 256]"
    have "unicast_v4 q" using assms(2) True mapped by (simp add: to_ipv4_mapped_def g q_def)
    moreover have "octets q" using lt by (simp add: octets_def q_def less_mult_imp_div_less)
    moreover have "address_number 256 q = l" by (simp add: address_number_def q_def l_def)
    ultimately have "single_host_v4 l" using single_host_octets by metis
    then show ?thesis unfolding single_host_def ip.case v Let_def split using True l by simp
  next
    case False
    have "to_ipv4_mapped g = None" using False mapped by (simp add: to_ipv4_mapped_def)
    then have "unicast_v6 g" using assms(2) by simp
    then have n: "g \<noteq> replicate 8 0" "a div 256 \<noteq> 255" by (simp_all add: unicast_v6_def g)
    have "replicate 8 (0::nat) = [0, 0, 0, 0, 0, 0, 0, 0]" by code_simp
    then have "0 < u * 2 ^ 32 + l" using n(1) unfolding g by (auto simp: u_def l_def)
    moreover have "a < 65280" using n(2) lt(1) by arith
    then have "u * 2 ^ 32 + l < 0xFF * 2 ^ 120" using lt unfolding u_def l_def by simp
    ultimately show ?thesis unfolding single_host_def ip.case v Let_def split using False by simp
  qed
qed

lemma p2p_single_host: "valid_p2p_address t \<Longrightarrow> \<exists>ip. parse_ip t = Some ip \<and> single_host ip"
  using single_host_octets single_host_groups parse_ip_groups
  by (auto simp: valid_p2p_address_def single_host_def split: option.splits ip.splits)

lemma validate_config_scalars:
  assumes "validate_config source c0 = Inr c"
  shows "ci_schema c = 1 \<and> ci_role c = ''validator'' \<and> st_backend (ci_storage c) = ''rocksdb'' \<and>
    (1 \<le> length (ci_id c) \<and> length (ci_id c) \<le> 32 \<and> is_lower (hd (ci_id c)) \<and>
      set (ci_id c) \<subseteq> {b. is_lower b \<or> is_digit b \<or> b = CHR ''-''}) \<and>
    (1 \<le> length (ci_node_id c) \<and> length (ci_node_id c) \<le> 128 \<and> is_alphanumeric (hd (ci_node_id c)) \<and>
      set (ci_node_id c) \<subseteq> {b. is_alphanumeric b \<or> b \<in> set ''._:-''}) \<and>
    addr_address (ci_http c) \<in> {''127.0.0.1'', ''::1''} \<and>
    (\<exists>ip. parse_ip (addr_address (ci_p2p c)) = Some ip \<and> single_host ip) \<and>
    addr_port (ci_http c) \<in> {1..65535} \<and> addr_port (ci_p2p c) \<in> {1..65535} \<and>
    addr_port (ci_http c) \<noteq> addr_port (ci_p2p c)"
proof -
  obtain rs where c: "c = set_references c0 rs" and
    ok: "ci_schema c0 = 1" "ci_role c0 = ''validator''" "st_backend (ci_storage c0) = ''rocksdb''"
      "instance_name_ok (ci_id c0)" "node_name_ok (ci_node_id c0)"
      "addr_address (ci_http c0) = ''127.0.0.1'' \<or> addr_address (ci_http c0) = ''::1''"
      "valid_p2p_address (addr_address (ci_p2p c0))" "ports_ok (addr_port (ci_http c0)) (addr_port (ci_p2p c0))"
    using assms by (auto simp: validate_config_def Let_def simp del: de_Morgan_disj)
  have same: "ci_schema c = ci_schema c0" "ci_role c = ci_role c0" "st_backend (ci_storage c) = st_backend (ci_storage c0)"
    "ci_id c = ci_id c0" "ci_node_id c = ci_node_id c0" "ci_http c = ci_http c0" "ci_p2p c = ci_p2p c0"
    by (simp_all add: c set_references_def)
  have "ci_id c0 \<noteq> [] \<and> length (ci_id c0) \<le> 32 \<and> is_lower (hd (ci_id c0)) \<and>
      set (ci_id c0) \<subseteq> {b. is_lower b \<or> is_digit b \<or> b = CHR ''-''}"
    using ok(4) by (auto simp: instance_name_ok_def list_all_iff)
  moreover have "ci_node_id c0 \<noteq> [] \<and> length (ci_node_id c0) \<le> 128 \<and> is_alphanumeric (hd (ci_node_id c0)) \<and>
      set (ci_node_id c0) \<subseteq> {b. is_alphanumeric b \<or> b \<in> set ''._:-''}"
    using ok(5) by (auto simp: node_name_ok_def list_all_iff)
  moreover have "addr_port (ci_http c0) \<in> {1..65535} \<and> addr_port (ci_p2p c0) \<in> {1..65535} \<and>
      addr_port (ci_http c0) \<noteq> addr_port (ci_p2p c0)"
    using ok(8) by (simp add: ports_ok_def)
  ultimately show ?thesis
    using ok(1,2,3,6) p2p_single_host [OF ok(7)] by (simp add: same Suc_le_eq)
qed

text \<open>Two references with different texts are different paths.\<close>

lemma data_path_apart:
  assumes "list_all (good_reference source) (references c)"
    "st_data (ci_storage c) \<notin> set (ci_chain c # secret_paths c)"
  shows "reference_names (st_data (ci_storage c)) \<notin> reference_names ` set (ci_chain c # secret_paths c)"
proof
  assume "reference_names (st_data (ci_storage c)) \<in> reference_names ` set (ci_chain c # secret_paths c)"
  then obtain r where r: "r \<in> set (ci_chain c # secret_paths c)"
    "reference_names (st_data (ci_storage c)) = reference_names r" by blast
  have again: "good_reference source t \<Longrightarrow> path_text (reference_names t) = t" for t
    using clean_path_text by (auto simp: good_reference_def reference_names_def)
  have "good_reference source r" "good_reference source (st_data (ci_storage c))"
    using assms(1) r(1) by (auto simp: references_def secret_paths_def Let_def)
  then have "st_data (ci_storage c) = r" using again r(2) by metis
  then show False using r(1) assms(2) by simp
qed

section \<open>Properties\<close>

text \<open>C21. A validated instance is in normal form: schema 1, the validator role, the RocksDB backend,
  identifiers of the allowed letters and lengths; an HTTP address that is one of the two loopback
  texts; a P2P address that is IP text of a single host (by its number: not the unspecified, not a
  multicast and not the broadcast address, also not as an IPv4 address inside an IPv6 one); two
  different ports from 1 to 65535; and eight references that are absolute normal paths other than
  the root and the configuration file, where the path of the data directory is not the path of
  the chain document or of a secret (a file below the data directory is not excluded here).\<close>

theorem validated_config_normal:
  assumes "resolve_source cwd p = Inr source" "parse_config decode parse source raw = Inr c"
  shows "ci_schema c = 1 \<and> ci_role c = ''validator'' \<and> st_backend (ci_storage c) = ''rocksdb'' \<and>
    (1 \<le> length (ci_id c) \<and> length (ci_id c) \<le> 32 \<and> is_lower (hd (ci_id c)) \<and>
      set (ci_id c) \<subseteq> {b. is_lower b \<or> is_digit b \<or> b = CHR ''-''}) \<and>
    (1 \<le> length (ci_node_id c) \<and> length (ci_node_id c) \<le> 128 \<and> is_alphanumeric (hd (ci_node_id c)) \<and>
      set (ci_node_id c) \<subseteq> {b. is_alphanumeric b \<or> b \<in> set ''._:-''}) \<and>
    addr_address (ci_http c) \<in> {''127.0.0.1'', ''::1''} \<and>
    (\<exists>ip. parse_ip (addr_address (ci_p2p c)) = Some ip \<and> single_host ip) \<and>
    addr_port (ci_http c) \<in> {1..65535} \<and> addr_port (ci_p2p c) \<in> {1..65535} \<and>
    addr_port (ci_http c) \<noteq> addr_port (ci_p2p c) \<and>
    list_all (good_reference source) (references c) \<and>
    reference_names (st_data (ci_storage c)) \<notin> reference_names ` set (ci_chain c # secret_paths c)"
proof -
  obtain c0 where v: "validate_config source c0 = Inr c" using assms(2) by (auto simp: parse_config_def)
  note n = resolve_source_names [OF assms(1)]
  note refs = validate_config_references(1,2) [OF v n]
  have "reference_names (st_data (ci_storage c)) \<notin> reference_names ` set (ci_chain c # secret_paths c)"
    by (rule data_path_apart [OF refs])
  with validate_config_scalars [OF v] refs(1) show ?thesis by blast
qed

text \<open>C22. The normalized document is a fixed point: if the serializer and the parser agree on the
  validated instance, the document it was normalized to is read as the same instance, and
  normalizing it again gives the same bytes.\<close>

theorem normalized_document_stable:
  assumes "resolve_source cwd p = Inr source" "parse_config decode parse source raw = Inr c"
    "Option.bind (parse (print c @ [CHR 0x0A])) config_of_json = Some c"
    "normalize_bytes decode parse print cwd p raw = Inr b"
  shows "parse_config decode parse source b = Inr c \<and> normalize_bytes decode parse print cwd p b = Inr b"
proof -
  have "normalized_config decode parse print source c = Inr b"
    using assms(1,2,4) by (simp add: normalize_bytes_def)
  from normalized_config_fixed [OF resolve_source_names [OF assms(1)] assms(2,3) this] assms(1)
  show ?thesis by (simp add: normalize_bytes_def)
qed

text \<open>C23. A preflight that does not fail has seen every secret as a regular file that no group or
  other user may write and others may not read, below a directory closed to others, with no link
  and only directories on the way; and the data directory as one closed to others or as missing.\<close>

theorem preflight_protects_secrets:
  assumes "parse_config decode parse source raw = Inr c" "resolve_source cwd p = Inr source"
    "preflight_bytes sha decode parse cwd f p raw = Inr r" "rp_outcome r \<noteq> ''FAIL''"
  shows "list_all (\<lambda>p. protected_secret f (reference_names p)) (secret_paths c) \<and>
    protected_data f (reference_names (st_data (ci_storage c)))"
  using assms inspect_config_protected by (auto simp: preflight_bytes_def)

section \<open>A concrete instance\<close>

definition sample_config :: config_instance where
  "sample_config = \<lparr>ci_schema = 1, ci_id = ''n1'', ci_role = ''validator'', ci_node_id = ''node-1'',
     ci_chain = ''/c/chain'', ci_storage = \<lparr>st_backend = ''rocksdb'', st_data = ''/c/data''\<rparr>,
     ci_secrets = \<lparr>sec_keystore = ''/c/s/a'', sec_password = ''/c/s/b'', sec_tls_key_store = ''/c/s/c'',
       sec_tls_key_password = ''/c/s/d'', sec_tls_trust_store = ''/c/s/e'', sec_tls_trust_password = ''/c/s/f''\<rparr>,
     ci_http = \<lparr>addr_address = ''127.0.0.1'', addr_port = 80\<rparr>,
     ci_p2p = \<lparr>addr_address = ''fe80::1'', addr_port = 81\<rparr>\<rparr>"

definition sample_json :: json where
  "sample_json = (let a = (\<lambda>h p. JObj [(''address'', JStr h), (''port'', JInt p)]) in
     JObj [(''schemaVersion'', JInt 1), (''instanceId'', JStr ''n1''), (''role'', JStr ''validator''),
       (''nodeId'', JStr ''node-1''), (''chainDescription'', JStr ''/c/chain''),
       (''storage'', JObj [(''backend'', JStr ''rocksdb''), (''dataDirectory'', JStr ''/c/data'')]),
       (''secrets'', JObj [(''validatorKeystore'', JStr ''/c/s/a''), (''validatorPasswordFile'', JStr ''/c/s/b''),
         (''tlsKeyStore'', JStr ''/c/s/c''), (''tlsKeyPasswordFile'', JStr ''/c/s/d''),
         (''tlsTrustStore'', JStr ''/c/s/e''), (''tlsTrustPasswordFile'', JStr ''/c/s/f'')]),
       (''http'', a ''127.0.0.1'' 80), (''p2p'', a ''fe80::1'' 81)])"

text \<open>A stand-in for \<open>serde_json\<close> on one document, whose text has the shape of any object.\<close>

definition sample_parse :: "bytes \<Rightarrow> json option" where
  "sample_parse b = (if b = ''{\"role\":1}'' @ [CHR 0x0A] then Some sample_json else None)"

definition sample_print :: "config_instance \<Rightarrow> bytes" where
  "sample_print c = ''{\"role\":1}''"

definition sample_decode :: "bytes \<Rightarrow> string option" where
  "sample_decode b = Some (butlast (tl b))"

definition sample_raw :: bytes where "sample_raw = ''{\"role\":1}'' @ [CHR 0x0A]"

lemma sample_source: "resolve_source None ''/c/product.json'' = Inr [''c'', ''product.json'']"
  by code_simp

lemma sample_shape: "strict_json_shape sample_decode sample_raw = Some True"
  by code_simp


lemma sample_fields: "config_of_json sample_json = Some sample_config"
  by code_simp

lemma sample_validate: "validate_config [''c'', ''product.json''] sample_config = Inr sample_config"
  by code_simp

lemma sample_parsed:
  "parse_config sample_decode sample_parse [''c'', ''product.json''] sample_raw = Inr sample_config"
proof -
  have "length sample_raw \<le> max_config_bytes" "valid_utf8 sample_raw" "sample_parse sample_raw = Some sample_json"
    by code_simp+
  then show ?thesis by (simp add: parse_config_def sample_shape sample_fields sample_validate)
qed

lemma sample_printed: "sample_print c @ [CHR 0x0A] = sample_raw"
  by (simp add: sample_print_def sample_raw_def)

text \<open>The file system around it: secrets in a closed directory, no data yet.\<close>

definition sample_meta :: "bool \<Rightarrow> nat \<Rightarrow> path_meta" where
  "sample_meta dir mode = \<lparr>fm_dir = dir, fm_regular = \<not> dir, fm_links = 1, fm_device = 1, fm_inode = 2,
     fm_len = 3, fm_mode = mode, fm_modified = (0, 0), fm_changed = (0, 0), fm_symlink = False\<rparr>"

definition sample_meta_fs :: meta_fs where
  "sample_meta_fs ns =
     (if ns = [] \<or> ns = [''c''] then Meta (sample_meta True 493)
      else if ns = [''c'', ''s''] then Meta (sample_meta True 448)
      else if ns = [''c'', ''chain''] then Meta (sample_meta False 420)
      else if length ns = 3 then Meta (sample_meta False 384) else Not_Found)"

theorem validated_config_normal_witness:
  "list_all (good_reference [''c'', ''product.json'']) (references sample_config) \<and>
   reference_names (st_data (ci_storage sample_config)) \<notin>
     reference_names ` set (ci_chain sample_config # secret_paths sample_config) \<and>
   addr_port (ci_http sample_config) \<noteq> addr_port (ci_p2p sample_config) \<and>
   (\<exists>ip. parse_ip (addr_address (ci_p2p sample_config)) = Some ip \<and> single_host ip)"
  using validated_config_normal [OF sample_source sample_parsed] by blast

theorem normalized_document_stable_witness:
  "normalize_bytes sample_decode sample_parse sample_print None ''/c/product.json'' sample_raw = Inr sample_raw \<and>
   parse_config sample_decode sample_parse [''c'', ''product.json''] sample_raw = Inr sample_config"
proof -
  have p: "Option.bind (sample_parse (sample_print sample_config @ [CHR 0x0A])) config_of_json = Some sample_config"
    unfolding sample_printed using sample_fields by (simp add: sample_parse_def sample_raw_def)
  have "normalize_bytes sample_decode sample_parse sample_print None ''/c/product.json'' sample_raw = Inr sample_raw"
    by (simp add: normalize_bytes_def sample_source sample_parsed normalized_config_def sample_printed)
  from normalized_document_stable [OF sample_source sample_parsed p this] show ?thesis by blast
qed

theorem preflight_protects_secrets_witness:
  "list_all (\<lambda>p. protected_secret sample_meta_fs (reference_names p)) (secret_paths sample_config) \<and>
   protected_data sample_meta_fs (reference_names (st_data (ci_storage sample_config)))"
proof -
  let ?k = "new_check ''configMetadata'' ''NOT_CHECKED'' ''DRAFT_NOT_WRITTEN''"
  have "preflight_bytes (\<lambda>_. ''h'') sample_decode sample_parse None sample_meta_fs ''/c/product.json'' sample_raw =
      Inr (inspect_config (\<lambda>_. ''h'') sample_meta_fs sample_config sample_raw ?k)"
    by (simp add: preflight_bytes_def sample_source sample_parsed)
  moreover have "rp_outcome (inspect_config (\<lambda>_. ''h'') sample_meta_fs sample_config sample_raw ?k) \<noteq> ''FAIL''"
    by code_simp
  ultimately show ?thesis using preflight_protects_secrets [OF sample_parsed sample_source] by blast
qed

end
