(* ===== verification/Certificate.thy ===== *)
theory Certificate
  imports Text
begin

text \<open>
  The envelope check of a public certificate (\<open>tlv\<close> and \<open>certificate_envelope\<close> in
  \<open>src/src/config/network.rs\<close>). Byte slices are lists of characters; \<open>&mut &[u8]\<close> that a call
  advances is an argument and a second result. Lengths are at most four bytes, so no \<open>usize\<close>
  computation of \<open>tlv\<close> overflows; the checked multiplication is kept.
\<close>

definition certificate_invalid :: string where
  "certificate_invalid = ''NETWORK_CERTIFICATE_INVALID''"

fun checked_size :: "nat \<Rightarrow> bytes \<Rightarrow> nat option" where
  "checked_size acc [] = Some acc"
| "checked_size acc (b # bs) =
     (if u64_max < acc * 256 \<or> u64_max < acc * 256 + byte_val b then None
      else checked_size (acc * 256 + byte_val b) bs)"

definition tlv_length :: "bytes \<Rightarrow> (nat \<times> nat) result" where
  "tlv_length input =
     (let first = byte_val (input ! 1) in
      if first < 128 then Inr (2, first)
      else
        (let count = first mod 128 in
         and_then (ensure (\<not> (count = 0 \<or> 4 < count \<or> length input < 2 + count \<or> byte_val (input ! 2) = 0))
                     certificate_invalid) (\<lambda>_.
         and_then (ok_or (checked_size 0 (slice 2 (2 + count) input)) certificate_invalid) (\<lambda>size.
         and_then (ensure (128 \<le> size) certificate_invalid) (\<lambda>_. Inr (2 + count, size))))))"

definition tlv :: "nat \<Rightarrow> bytes \<Rightarrow> (bytes \<times> bytes) result" where
  "tlv tag input =
     and_then (ensure (\<not> (length input < 2 \<or> byte_val (input ! 0) \<noteq> tag)) certificate_invalid) (\<lambda>_.
     and_then (tlv_length input) (\<lambda>(offset, len).
     and_then (ensure (offset + len \<le> length input) certificate_invalid) (\<lambda>_.
     Inr (slice offset (offset + len) input, drop (offset + len) input))))"

section \<open>The encoding that is read\<close>

text \<open>The big-endian bytes of a number without leading zeros, and the minimal length field.\<close>

fun be_bytes :: "nat \<Rightarrow> bytes" where
  "be_bytes n = (if n = 0 then [] else be_bytes (n div 256) @ [char_of (n mod 256)])"

declare be_bytes.simps [simp del]

definition der_length :: "nat \<Rightarrow> bytes" where
  "der_length n = (if n < 128 then [char_of n] else char_of (128 + length (be_bytes n)) # be_bytes n)"

definition der :: "nat \<Rightarrow> bytes \<Rightarrow> bytes" where
  "der tag b = char_of tag # der_length (length b) @ b"

definition be_value :: "bytes \<Rightarrow> nat" where
  "be_value s = foldl (\<lambda>a b. a * 256 + byte_val b) 0 s"

lemma be_value_simps [simp]: "be_value [] = 0" "be_value (s @ [b]) = be_value s * 256 + byte_val b"
  by (simp_all add: be_value_def)

lemma be_value_less: "be_value s < 256 ^ length s"
proof (induction s rule: rev_induct)
  case (snoc b s)
  have "be_value s * 256 + byte_val b < Suc (be_value s) * 256" by simp
  also have "\<dots> \<le> 256 ^ length s * 256" using snoc by (intro mult_le_mono1) simp
  finally show ?case by (simp add: mult.commute)
qed simp

lemma be_value_be_bytes [simp]: "be_value (be_bytes n) = n"
proof (induction n rule: be_bytes.induct)
  case (1 n)
  then show ?case by (cases "n = 0") (simp_all add: be_bytes.simps [of n] be_bytes.simps [of 0])
qed

lemma be_value_pos: "s \<noteq> [] \<Longrightarrow> byte_val (hd s) \<noteq> 0 \<Longrightarrow> 0 < be_value s"
  by (induction s rule: rev_induct) (auto simp: hd_append split: if_splits)

lemma be_bytes_be_value: "s = [] \<or> byte_val (hd s) \<noteq> 0 \<Longrightarrow> be_bytes (be_value s) = s"
proof (induction s rule: rev_induct)
  case Nil
  then show ?case by (simp add: be_bytes.simps)
next
  case (snoc b s)
  have "be_value (s @ [b]) \<noteq> 0" using be_value_pos [of "s @ [b]"] snoc.prems by simp
  then have "be_bytes (be_value (s @ [b])) = be_bytes (be_value s) @ [b]"
    by (subst be_bytes.simps) simp
  also have "be_bytes (be_value s) = s" using snoc by (cases s) auto
  finally show ?case .
qed

lemma be_bytes_pos: "0 < n \<Longrightarrow> be_bytes n \<noteq> [] \<and> byte_val (hd (be_bytes n)) \<noteq> 0"
proof (induction n rule: be_bytes.induct)
  case (1 n)
  show ?case
  proof (cases "n div 256 = 0")
    case True
    then have "n < 256" by (simp add: div_eq_0_iff)
    with 1 show ?thesis by (simp add: be_bytes.simps [of n] be_bytes.simps [of 0])
  next
    case False
    with 1 show ?thesis by (simp add: be_bytes.simps [of n])
  qed
qed

lemma length_be_bytes: "n < 256 ^ k \<Longrightarrow> length (be_bytes n) \<le> k"
proof (induction k arbitrary: n)
  case (Suc k)
  then have "n div 256 < 256 ^ k" by (simp add: less_mult_imp_div_less mult.commute)
  with Suc.IH show ?case by (subst be_bytes.simps) simp
qed (simp add: be_bytes.simps)

lemma checked_size_eq: "be_value (p @ s) \<le> u64_max \<Longrightarrow> checked_size (be_value p) s = Some (be_value (p @ s))"
proof (induction s arbitrary: p)
  case (Cons b s)
  have "be_value (p @ [b]) \<le> be_value ((p @ [b]) @ s)"
  proof (induction s rule: rev_induct)
    case (snoc c s)
    have "be_value ((p @ [b]) @ s @ [c]) = be_value ((p @ [b]) @ s) * 256 + byte_val c"
      using be_value_simps(2) [of "(p @ [b]) @ s" c] by simp
    with snoc show ?case by simp
  qed simp
  with Cons.prems have "be_value p * 256 + byte_val b \<le> u64_max" by simp
  moreover have "checked_size (be_value (p @ [b])) s = Some (be_value ((p @ [b]) @ s))"
    using Cons.IH [of "p @ [b]"] Cons.prems by simp
  ultimately show ?case by simp
qed simp

lemma checked_size_short: "length s \<le> 4 \<Longrightarrow> checked_size 0 s = Some (be_value s)"
proof -
  assume "length s \<le> 4"
  then have "(256 :: nat) ^ length s \<le> 256 ^ 4" by (intro power_increasing) auto
  then have "be_value s \<le> u64_max" using be_value_less [of s] by simp
  then show ?thesis using checked_size_eq [of "[]" s] by simp
qed

lemma der_length_read:
  assumes "n < 4294967296"
  shows "tlv_length (t # der_length n @ s) = Inr (Suc (length (der_length n)), n)"
proof (cases "n < 128")
  case True
  then show ?thesis by (simp add: tlv_length_def der_length_def)
next
  case False
  let ?b = "be_bytes n"
  have b: "?b \<noteq> []" "byte_val (hd ?b) \<noteq> 0" using be_bytes_pos [of n] False by auto
  have len: "length ?b \<le> 4" using length_be_bytes [of n 4] assms by simp
  have first: "byte_val (char_of (128 + length ?b)) = 128 + length ?b" using len by simp
  have m: "(128 + length ?b) mod 128 = length ?b" using len by simp
  have sl: "slice 2 (2 + length ?b) (t # char_of (128 + length ?b) # ?b @ s) = ?b"
    by (simp add: slice_def)
  have "(?b @ s) ! 0 = hd ?b" using b(1) by (simp add: nth_append hd_conv_nth)
  then show ?thesis
    using False b len m first sl checked_size_short [OF len]
    by (simp add: tlv_length_def der_length_def Let_def numeral_2_eq_2)
qed

lemma tlv_length_sound:
  assumes "tlv_length input = Inr (offset, n)" "2 \<le> length input"
  shows "take offset input = input ! 0 # der_length n \<and> offset = Suc (length (der_length n)) \<and>
    offset \<le> length input \<and> n < 4294967296"
proof -
  obtain t l rest where i: "input = t # l # rest"
    using assms(2) by (cases input; cases "tl input") auto
  show ?thesis
  proof (cases "byte_val l < 128")
    case True
    have "char_of (byte_val l) = l" by simp
    then show ?thesis using assms(1) True i by (auto simp: tlv_length_def der_length_def Let_def)
  next
    case False
    define count where "count = byte_val l mod 128"
    have c: "count \<noteq> 0" "count \<le> 4" "count \<le> length rest" "byte_val (rest ! 0) \<noteq> 0" "offset = 2 + count"
        "checked_size 0 (take count rest) = Some n" "128 \<le> n"
      using assms(1) False i by (auto simp: tlv_length_def Let_def count_def slice_def numeral_2_eq_2)
    let ?b = "take count rest"
    have n: "n = be_value ?b" using checked_size_short [of ?b] c by simp
    have "?b \<noteq> []" "byte_val (hd ?b) \<noteq> 0" using c by (cases rest; auto simp: hd_conv_nth)+
    then have b: "be_bytes n = ?b" using be_bytes_be_value [of ?b] n by simp
    have "byte_val l = 128 + count"
    proof -
      have "byte_val l - 128 < 128" using byte_val_less [of l] by linarith
      then show ?thesis using False le_mod_geq [of 128 "byte_val l"] by (simp add: count_def)
    qed
    then have "char_of (128 + count) = l" by (metis char_of_char)
    moreover have "n < 4294967296"
    proof -
      have "(256 :: nat) ^ length ?b \<le> 256 ^ 4" using c by (intro power_increasing) auto
      then show ?thesis using be_value_less [of ?b] n by simp
    qed
    ultimately show ?thesis using c b i by (simp add: der_length_def)
  qed
qed

text \<open>\<open>tlv\<close> reads exactly the values in definite minimal length encoding.\<close>

lemma tlv_read:
  "tlv tag input = Inr (b, rest) \<longleftrightarrow> tag < 256 \<and> input = der tag b @ rest \<and> length b < 4294967296"
proof
  assume "tlv tag input = Inr (b, rest)"
  then obtain offset n where t: "2 \<le> length input" "byte_val (input ! 0) = tag" "tlv_length input = Inr (offset, n)"
      "offset + n \<le> length input" "b = slice offset (offset + n) input" "rest = drop (offset + n) input"
    by (auto simp: tlv_def)
  have o4: "take offset input = input ! 0 # der_length n" "n < 4294967296"
    using tlv_length_sound [OF t(3,1)] by blast+
  have "length b = n" using t by simp
  moreover have "input = take offset input @ b @ rest"
    using t(4,5,6) by (simp add: slice_def) (metis append_take_drop_id drop_drop add.commute)
  moreover have "char_of tag = input ! 0" using t(2) by auto
  ultimately show "tag < 256 \<and> input = der tag b @ rest \<and> length b < 4294967296"
    using o4 t(2) by (auto simp: der_def)
next
  assume a: "tag < 256 \<and> input = der tag b @ rest \<and> length b < 4294967296"
  then have i: "input = char_of tag # der_length (length b) @ b @ rest" by (simp add: der_def)
  have ne: "der_length n \<noteq> []" for n by (simp add: der_length_def)
  then have "2 \<le> length input" using i by (cases "der_length (length b)") force+
  then show "tlv tag input = Inr (b, rest)"
    using a i der_length_read [of "length b" "char_of tag" "b @ rest"]
    by (simp add: tlv_def slice_def ne)
qed

lemma tlv_der [simp]: "tag < 256 \<Longrightarrow> length b < 4294967296 \<Longrightarrow> tlv tag (der tag b @ rest) = Inr (b, rest)"
  by (simp add: tlv_read)

lemma tlv_der_all [simp]: "tag < 256 \<Longrightarrow> length b < 4294967296 \<Longrightarrow> tlv tag (der tag b) = Inr (b, [])"
  using tlv_der [of tag b "[]"] by simp

lemma der_not_Nil [simp]: "der tag b \<noteq> []"
  by (simp add: der_def)

lemma length_der: "length b < length (der tag b)"
  by (simp add: der_def)

lemma hd_der [simp]: "hd (der tag b @ s) = char_of tag" "hd (der tag b) = char_of tag"
  by (simp_all add: der_def)

lemma tlv_shorter: "tlv tag input = Inr (b, rest) \<Longrightarrow> length b < length input \<and> length rest < length input"
  by (auto simp: tlv_read der_def)

section \<open>The envelope\<close>

text \<open>An algorithm identifier starts with an object identifier that is not empty; a bit string
  starts with the number of unused bits.\<close>

definition algorithm_check :: "bytes \<Rightarrow> unit result" where
  "algorithm_check alg =
     and_then (tlv 6 alg) (\<lambda>(oid, _). ensure (oid \<noteq> []) certificate_invalid)"

definition bit_string_check :: "bytes \<Rightarrow> bytes \<Rightarrow> unit result" where
  "bit_string_check b rest =
     ensure (\<not> (rest \<noteq> [] \<or> length b < 2 \<or> 7 < byte_val (b ! 0))) certificate_invalid"

definition version_check :: "bytes \<Rightarrow> bytes result" where
  "version_check tbs =
     (if tbs \<noteq> [] \<and> byte_val (hd tbs) = 160 then
        and_then (tlv 160 tbs) (\<lambda>(version, tbs).
        and_then (tlv 2 version) (\<lambda>(v, rest).
        and_then (ensure (\<not> (length v \<noteq> 1 \<or> rest \<noteq> [])) certificate_invalid) (\<lambda>_. Inr tbs)))
      else Inr tbs)"

definition time_check :: "bytes \<Rightarrow> bytes result" where
  "time_check validity =
     and_then (ensure (validity \<noteq> []) certificate_invalid) (\<lambda>_.
     let tag = byte_val (hd validity) in
     and_then (ensure (tag = 23 \<or> tag = 24) certificate_invalid) (\<lambda>_.
     and_then (tlv tag validity) (\<lambda>(t, rest).
     and_then (ensure (t \<noteq> []) certificate_invalid) (\<lambda>_. Inr rest))))"

text \<open>The optional fields after the key: at most one each of the two unique identifiers and the
  extensions, in this order.\<close>

function optional_check :: "nat \<Rightarrow> bytes \<Rightarrow> unit result" where
  "optional_check previous tbs =
     (if tbs = [] then Inr ()
      else
        (let tag = byte_val (hd tbs) in
         and_then (ensure (\<not> (tag \<notin> {129, 130, 163} \<or> tag \<le> previous)) certificate_invalid) (\<lambda>_.
         and_then (tlv tag tbs) (\<lambda>(_, rest). optional_check tag rest))))"
  by pat_completeness auto
termination
  by (relation "measure (\<lambda>(_, tbs). length tbs)") (auto dest: tlv_shorter)

declare optional_check.simps [simp del]

definition certificate_envelope :: "bytes \<Rightarrow> unit result" where
  "certificate_envelope raw =
     and_then (tlv 48 raw) (\<lambda>(outer, input).
     and_then (ensure (input = []) certificate_invalid) (\<lambda>_.
     and_then (tlv 48 outer) (\<lambda>(tbs, outer).
     and_then (tlv 48 outer) (\<lambda>(alg, outer).
     and_then (algorithm_check alg) (\<lambda>_.
     and_then (tlv 3 outer) (\<lambda>(signature, outer).
     and_then (bit_string_check signature outer) (\<lambda>_.
     and_then (version_check tbs) (\<lambda>tbs.
     and_then (tlv 2 tbs) (\<lambda>(serial, tbs).
     and_then (ensure (serial \<noteq> []) certificate_invalid) (\<lambda>_.
     and_then (tlv 48 tbs) (\<lambda>(_, tbs).
     and_then (tlv 48 tbs) (\<lambda>(_, tbs).
     and_then (tlv 48 tbs) (\<lambda>(validity, tbs).
     and_then (time_check validity) (\<lambda>validity.
     and_then (time_check validity) (\<lambda>validity.
     and_then (ensure (validity = []) certificate_invalid) (\<lambda>_.
     and_then (tlv 48 tbs) (\<lambda>(_, tbs).
     and_then (tlv 48 tbs) (\<lambda>(spki, tbs).
     and_then (tlv 48 spki) (\<lambda>(key_alg, spki).
     and_then (algorithm_check key_alg) (\<lambda>_.
     and_then (tlv 3 spki) (\<lambda>(key, spki).
     and_then (bit_string_check key spki) (\<lambda>_.
     optional_check 0 tbs))))))))))))))))))))))"

section \<open>What an accepted envelope is\<close>

text \<open>The same structure as a grammar over whole encodings.\<close>

definition algorithm_text :: "bytes \<Rightarrow> bool" where
  "algorithm_text s \<longleftrightarrow> (\<exists>oid params. s = der 48 (der 6 oid @ params) \<and> oid \<noteq> [])"

definition bit_string_text :: "bytes \<Rightarrow> bool" where
  "bit_string_text s \<longleftrightarrow> (\<exists>b. s = der 3 b \<and> 2 \<le> length b \<and> byte_val (b ! 0) \<le> 7)"

definition time_text :: "bytes \<Rightarrow> bool" where
  "time_text s \<longleftrightarrow> (\<exists>tag t. s = der tag t \<and> (tag = 23 \<or> tag = 24) \<and> t \<noteq> [])"

inductive optional_text :: "nat \<Rightarrow> bytes \<Rightarrow> bool" where
  none: "optional_text previous []"
| field: "tag \<in> {129, 130, 163} \<Longrightarrow> previous < tag \<Longrightarrow> optional_text tag s \<Longrightarrow>
    optional_text previous (der tag b @ s)"

definition version_text :: "bytes \<Rightarrow> bool" where
  "version_text s \<longleftrightarrow> s = [] \<or> (\<exists>v. s = der 160 (der 2 v) \<and> length v = 1)"

definition tbs_text :: "bytes \<Rightarrow> bool" where
  "tbs_text s \<longleftrightarrow> (\<exists>version serial sigalg issuer t1 t2 subject alg key optional.
     s = version @ der 2 serial @ der 48 sigalg @ der 48 issuer @ der 48 (t1 @ t2) @ der 48 subject @
       der 48 (alg @ key) @ optional \<and>
     version_text version \<and> serial \<noteq> [] \<and> time_text t1 \<and> time_text t2 \<and> algorithm_text alg \<and>
     bit_string_text key \<and> optional_text 0 optional)"

definition certificate_text :: "bytes \<Rightarrow> bool" where
  "certificate_text s \<longleftrightarrow> (\<exists>outer tbs alg sig. s = der 48 outer \<and> length outer < 4294967296 \<and>
     outer = der 48 tbs @ alg @ sig \<and> tbs_text tbs \<and> algorithm_text alg \<and> bit_string_text sig)"

text \<open>Everything inside a short encoding is short.\<close>

abbreviation short :: "bytes \<Rightarrow> bool" where "short b \<equiv> length b < 4294967296"

lemma short_der: "short (der tag b) \<Longrightarrow> short b"
  using length_der [of b tag] by simp

lemma short_append: "short (a @ b) \<Longrightarrow> short a \<and> short b"
  by simp

lemma algorithm_sound:
  "tlv 48 s = Inr (alg, rest) \<Longrightarrow> algorithm_check alg = Inr () \<Longrightarrow> \<exists>a. s = a @ rest \<and> algorithm_text a"
  by (auto simp: tlv_read algorithm_check_def algorithm_text_def)

lemma algorithm_complete:
  assumes "algorithm_text a" "short a"
  shows "\<exists>alg. (\<forall>rest. tlv 48 (a @ rest) = Inr (alg, rest)) \<and> algorithm_check alg = Inr ()"
proof -
  obtain oid params where a: "a = der 48 (der 6 oid @ params)" "oid \<noteq> []"
    using assms(1) by (auto simp: algorithm_text_def)
  have "short (der 6 oid @ params)" using assms(2) a(1) short_der by blast
  moreover from this have "short oid" using short_append short_der by blast
  ultimately show ?thesis
    using a by (intro exI [of _ "der 6 oid @ params"]) (simp add: algorithm_check_def)
qed

lemma bit_string_sound:
  "tlv 3 s = Inr (b, rest) \<Longrightarrow> bit_string_check b rest = Inr () \<Longrightarrow> bit_string_text s"
  by (auto simp: tlv_read bit_string_check_def bit_string_text_def)

lemma bit_string_complete:
  assumes "bit_string_text s" "short s"
  shows "\<exists>b. tlv 3 s = Inr (b, []) \<and> bit_string_check b [] = Inr ()"
proof -
  obtain b where b: "s = der 3 b" "2 \<le> length b" "byte_val (b ! 0) \<le> 7"
    using assms(1) by (auto simp: bit_string_text_def)
  moreover have "short b" using assms(2) b(1) short_der by blast
  ultimately show ?thesis by (intro exI [of _ b]) (simp add: bit_string_check_def)
qed

lemma time_sound: "time_check s = Inr rest \<Longrightarrow> \<exists>t. s = t @ rest \<and> time_text t"
  by (auto simp: time_check_def Let_def tlv_read time_text_def)

lemma time_complete:
  assumes "time_text t" "short t"
  shows "time_check (t @ rest) = Inr rest"
proof -
  obtain tag b where t: "t = der tag b" "tag = 23 \<or> tag = 24" "b \<noteq> []" using assms(1) by (auto simp: time_text_def)
  moreover have "short b" using assms(2) t(1) short_der by blast
  ultimately show ?thesis by (auto simp: time_check_def)
qed

lemma version_sound:
  "version_check s = Inr rest \<Longrightarrow> \<exists>v. s = v @ rest \<and> version_text v"
  by (auto simp: version_check_def tlv_read version_text_def split: if_splits)

lemma version_complete:
  assumes "version_text v" "short v"
  shows "version_check (v @ der 2 serial @ rest) = Inr (der 2 serial @ rest)"
proof (cases "v = []")
  case False
  then obtain b where b: "v = der 160 (der 2 b)" "length b = 1" using assms(1) by (auto simp: version_text_def)
  moreover have "short (der 2 b)" using assms(2) b(1) short_der by blast
  ultimately show ?thesis by (simp add: version_check_def)
qed (simp add: version_check_def)

lemma optional_sound: "optional_check previous s = Inr () \<Longrightarrow> optional_text previous s"
proof (induction previous s rule: optional_check.induct)
  case (1 previous s)
  show ?case
  proof (cases "s = []")
    case False
    then obtain b rest where b: "byte_val (hd s) \<in> {129, 130, 163}" "previous < byte_val (hd s)"
        "tlv (byte_val (hd s)) s = Inr (b, rest)" "optional_check (byte_val (hd s)) rest = Inr ()"
      using 1(2) by (subst (asm) optional_check.simps) (auto simp: Let_def)
    with 1(1) [OF False refl] have "optional_text (byte_val (hd s)) rest" by simp
    with b(1,2,3) show ?thesis using optional_text.field by (metis tlv_read)
  qed (simp add: optional_text.none)
qed

lemma optional_complete: "optional_text previous s \<Longrightarrow> short s \<Longrightarrow> optional_check previous s = Inr ()"
proof (induction rule: optional_text.induct)
  case (none previous)
  then show ?case by (simp add: optional_check.simps)
next
  case (field tag previous s b)
  have "short b" "short s" "tag < 256" using field short_append short_der by (blast, blast, auto)
  then show ?case using field by (subst optional_check.simps) (auto simp: Let_def)
qed

lemma certificate_sound:
  assumes "certificate_envelope raw = Inr ()"
  shows "certificate_text raw"
proof -
  obtain outer o1 o2 tbs alg sig where top: "tlv 48 raw = Inr (outer, [])" "tlv 48 outer = Inr (tbs, o1)"
      "tlv 48 o1 = Inr (alg, o2)" "algorithm_check alg = Inr ()" "tlv 3 o2 = Inr (sig, [])"
      "bit_string_check sig [] = Inr ()"
      and body: "\<exists>t0 t1 t2 t3 t4 t5 t6 serial b1 b2 validity v1 b3 spki key_alg k1 key.
        version_check tbs = Inr t0 \<and> tlv 2 t0 = Inr (serial, t1) \<and> serial \<noteq> [] \<and> tlv 48 t1 = Inr (b1, t2) \<and>
        tlv 48 t2 = Inr (b2, t3) \<and> tlv 48 t3 = Inr (validity, t4) \<and> time_check validity = Inr v1 \<and>
        time_check v1 = Inr [] \<and> tlv 48 t4 = Inr (b3, t5) \<and> tlv 48 t5 = Inr (spki, t6) \<and>
        tlv 48 spki = Inr (key_alg, k1) \<and> algorithm_check key_alg = Inr () \<and> tlv 3 k1 = Inr (key, []) \<and>
        bit_string_check key [] = Inr () \<and> optional_check 0 t6 = Inr ()"
    using assms unfolding certificate_envelope_def
    by (auto simp: bit_string_check_def [of _ "_ # _"]) (auto simp: bit_string_check_def)
  obtain t0 t1 t2 t3 t4 t5 t6 serial b1 b2 validity v1 b3 spki key_alg k1 key where b:
      "version_check tbs = Inr t0" "tlv 2 t0 = Inr (serial, t1)" "serial \<noteq> []" "tlv 48 t1 = Inr (b1, t2)"
      "tlv 48 t2 = Inr (b2, t3)" "tlv 48 t3 = Inr (validity, t4)" "time_check validity = Inr v1"
      "time_check v1 = Inr []" "tlv 48 t4 = Inr (b3, t5)" "tlv 48 t5 = Inr (spki, t6)"
      "tlv 48 spki = Inr (key_alg, k1)" "algorithm_check key_alg = Inr ()" "tlv 3 k1 = Inr (key, [])"
      "bit_string_check key [] = Inr ()" "optional_check 0 t6 = Inr ()"
    using body by blast
  obtain v x y ka where parts: "tbs = v @ t0" "version_text v" "validity = x @ y" "time_text x" "time_text y"
      "spki = ka @ k1" "algorithm_text ka"
    using version_sound [OF b(1)] time_sound [OF b(7)] time_sound [OF b(8)] algorithm_sound [OF b(11,12)]
    by auto
  have "tbs = v @ der 2 serial @ der 48 b1 @ der 48 b2 @ der 48 (x @ y) @ der 48 b3 @ der 48 (ka @ k1) @ t6"
    using parts b(2,4,5,6,9,10) by (auto simp: tlv_read)
  then have "tbs_text tbs"
    unfolding tbs_text_def
    using parts(2,4,5,7) b(3) bit_string_sound [OF b(13,14)] optional_sound [OF b(15)] by blast
  moreover obtain a where "o1 = a @ o2" "algorithm_text a" using algorithm_sound [OF top(3,4)] by blast
  moreover have "raw = der 48 outer" "short outer" "outer = der 48 tbs @ o1"
    using top(1,2) by (auto simp: tlv_read)
  ultimately show ?thesis
    unfolding certificate_text_def using bit_string_sound [OF top(5,6)]
    by (intro exI [of _ outer] exI [of _ tbs] exI [of _ a] exI [of _ o2]) simp
qed

lemma certificate_complete:
  assumes "certificate_text raw"
  shows "certificate_envelope raw = Inr ()"
proof -
  obtain outer tbs alg sig where top: "raw = der 48 outer" "short outer" "outer = der 48 tbs @ alg @ sig"
      "tbs_text tbs" "algorithm_text alg" "bit_string_text sig"
    using assms by (auto simp: certificate_text_def)
  obtain v serial b1 b2 x y b3 ka k optional where tbs:
      "tbs = v @ der 2 serial @ der 48 b1 @ der 48 b2 @ der 48 (x @ y) @ der 48 b3 @ der 48 (ka @ k) @ optional"
      "version_text v" "serial \<noteq> []" "time_text x" "time_text y" "algorithm_text ka" "bit_string_text k"
      "optional_text 0 optional"
    using top(4) by (auto simp: tbs_text_def)
  have s1: "short tbs" "short alg" "short sig"
    using top(2,3) short_append short_der by blast+
  have s2: "short v" "short (der 2 serial)" "short (der 48 b1)" "short (der 48 b2)" "short (der 48 (x @ y))"
      "short (der 48 b3)" "short (der 48 (ka @ k))" "short optional"
    using s1(1) tbs(1) by simp_all
  have s3: "short serial" "short b1" "short b2" "short (x @ y)" "short b3" "short (ka @ k)"
    using s2 short_der by blast+
  have s4: "short x" "short y" "short ka" "short k" using s3 short_append by blast+
  obtain a where a: "\<forall>rest. tlv 48 (alg @ rest) = Inr (a, rest)" "algorithm_check a = Inr ()"
    using algorithm_complete [OF top(5) s1(2)] by blast
  obtain q where q: "tlv 3 sig = Inr (q, [])" "bit_string_check q [] = Inr ()"
    using bit_string_complete [OF top(6) s1(3)] by blast
  obtain ra where ra: "\<forall>rest. tlv 48 (ka @ rest) = Inr (ra, rest)" "algorithm_check ra = Inr ()"
    using algorithm_complete [OF tbs(6) s4(3)] by blast
  obtain rk where rk: "tlv 3 k = Inr (rk, [])" "bit_string_check rk [] = Inr ()"
    using bit_string_complete [OF tbs(7) s4(4)] by blast
  note times = time_complete [OF tbs(4) s4(1)] time_complete [OF tbs(5) s4(2), of "[]", simplified]
  note rest = version_complete [OF tbs(2) s2(1)] optional_complete [OF tbs(8) s2(8)]
  show ?thesis
    unfolding certificate_envelope_def top(1)
    using top(2,3) tbs(1,3) s1(1) s3 a q ra rk times rest by simp
qed

section \<open>Properties\<close>

text \<open>The reader of one encoding accepts exactly the definite encodings in minimal length form
  (short form below 128, else no leading zero byte) with this tag and less than four gigabytes, and
  gives back the content and what follows it.\<close>

theorem tlv_reads_minimal_encodings:
  "tlv tag input = Inr (b, rest) \<longleftrightarrow> tag < 256 \<and> input = der tag b @ rest \<and> length b < 4294967296"
  by (rule tlv_read)

text \<open>C24. The envelope check accepts exactly the certificates of the grammar: every byte of the input
  belongs to one field of the certificate, in the required order, nothing follows it or hides
  between the fields it checks.\<close>

theorem certificate_envelope_iff: "certificate_envelope raw = Inr () \<longleftrightarrow> certificate_text raw"
  using certificate_sound certificate_complete by blast

end
