(* ===== verification/Network.thy ===== *)
theory Network
  imports ConfigProduct Certificate "HOL-Library.List_Lexorder" "HOL-Library.Char_ord"
begin

text \<open>
  Preparation of the native configuration from a product configuration, the public network
  document and the chain document (\<open>src/src/config/network.rs\<close>): canonical identifiers and hosts,
  the member list of a chain, the checks on a network document, the guarded read of an input with
  its pin, and the native document. All errors about inputs have one code, as in the source.

  \<open>sha\<close> is the hash, \<open>base64\<close> the decoder, \<open>eqv\<close> the name folding of \<open>setup::paths\<close>; \<open>decode\<close> and
  \<open>parse\<close> stand for \<open>serde_json\<close> as in the product configuration, \<open>print\<close> prints the native document.
\<close>

definition net_invalid :: string where "net_invalid = ''NETWORK_INPUT_INVALID''"
definition net_changed :: string where "net_changed = ''NETWORK_INPUT_CHANGED''"

section \<open>Identifiers and hosts\<close>

definition canonical_hex :: "string \<Rightarrow> nat \<Rightarrow> string result" where
  "canonical_hex t count =
     and_then (ensure (\<not> (length t \<noteq> count + 2 \<or> \<not> prefix ''0x'' t \<or> \<not> list_all is_hexdigit (drop 2 t)))
                 net_invalid) (\<lambda>_. Inr (to_ascii_lowercase t))"

definition dns_label :: "string \<Rightarrow> bool" where
  "dns_label s \<longleftrightarrow> s \<noteq> [] \<and> length s \<le> 63 \<and> is_alphanumeric (hd s) \<and> is_alphanumeric (last s) \<and>
     list_all (\<lambda>b. is_alphanumeric b \<or> b = CHR ''-'') s"

definition show_host :: "ip \<Rightarrow> string" where
  "show_host ip =
     (case ip of
        V4 q \<Rightarrow> show_ipv4 q
      | V6 g \<Rightarrow> (case to_ipv4_mapped g of Some q \<Rightarrow> show_ipv4 q | None \<Rightarrow> show_ipv6 g))"

definition host :: "string \<Rightarrow> string result" where
  "host t =
     (case parse_ip t of
        Some ip \<Rightarrow> and_then (ensure (valid_p2p_address t) net_invalid) (\<lambda>_. Inr (show_host ip))
      | None \<Rightarrow>
          (let name = (case strip_suffix ''.'' t of Some n \<Rightarrow> n | None \<Rightarrow> t) in
           and_then (ensure (\<not> (name = [] \<or> 253 < length name \<or> \<not> list_all dns_label (split_on (CHR ''.'') name)))
                       net_invalid) (\<lambda>_. Inr (to_ascii_lowercase name))))"

section \<open>The members of a chain\<close>

definition members_key :: string where
  "members_key = ''nigo.protocol.consensus.qbft.validators''"

definition contains :: "string \<Rightarrow> string \<Rightarrow> bool" where
  "contains p s \<longleftrightarrow> list_ex (prefix p) (suffixes s)"

definition object_entries :: "json \<Rightarrow> (string \<times> json) list option" where
  "object_entries v = (case v of JObj es \<Rightarrow> Some es | _ \<Rightarrow> None)"

definition plain_value :: "json \<Rightarrow> bool" where
  "plain_value v =
     (case v of JStr s \<Rightarrow> \<not> contains ''${'' s | JBool _ \<Rightarrow> True | JInt _ \<Rightarrow> True | JFloat _ \<Rightarrow> True | _ \<Rightarrow> False)"

text \<open>One entry of the chain document; \<open>ms\<close> maps the indices seen so far to validators.\<close>

definition member_entry :: "(nat \<times> string) list \<Rightarrow> string \<times> json \<Rightarrow> (nat \<times> string) list result" where
  "member_entry ms e =
     (case e of (key, v) \<Rightarrow>
        and_then (ensure (plain_value v) net_invalid) (\<lambda>_.
        if prefix members_key key then
          and_then (ok_or (strip_prefix members_key key) net_invalid) (\<lambda>rest.
          and_then (ok_or (Option.bind (strip_prefix ''['' rest) (strip_suffix '']'')) net_invalid) (\<lambda>index.
          and_then (ok_or (parse_uint 10 u64_max index) net_invalid) (\<lambda>n.
          and_then (ensure (\<not> (show_radix 10 n \<noteq> index \<or> 128 \<le> n)) net_invalid) (\<lambda>_.
          and_then (ok_or (as_str v) net_invalid) (\<lambda>t.
          and_then (canonical_hex t 40) (\<lambda>m.
          Inr ((n, m) # filter (\<lambda>x. fst x \<noteq> n) ms)))))))
        else Inr ms))"

definition chain_members :: "(bytes \<Rightarrow> json option) \<Rightarrow> bytes \<Rightarrow> string set result" where
  "chain_members parse raw =
     and_then (map_err net_invalid (decode_strict_json parse object_entries raw)) (\<lambda>entries.
     and_then (ensure (map_of entries ''nigo.protocol.consensus.protocol'' = Some (JStr ''QBFT'')) net_invalid) (\<lambda>_.
     and_then (fold_result member_entry [] (sort_key fst entries)) (\<lambda>ms.
     and_then (ensure (\<not> (ms = [] \<or> sort (map fst ms) \<noteq> [0..<length ms])) net_invalid) (\<lambda>_.
     and_then (ensure (card (set (map snd ms)) = length ms) net_invalid) (\<lambda>_.
     Inr (set (map snd ms)))))))"

section \<open>The network document\<close>

record net_node =
  nn_id :: string
  nn_validator :: string
  nn_host :: string
  nn_port :: nat
  nn_permission :: string
  nn_pins :: "string list"
  nn_revoked :: "string list"

record network =
  nw_schema :: nat
  nw_kind :: string
  nw_nodes :: "net_node list"

definition net_node_of_json :: "json \<Rightarrow> net_node option" where
  "net_node_of_json v =
     do { m \<leftarrow> struct_fields [''nodeId'', ''validatorId'', ''host'', ''port'', ''transactionPermission'',
            ''credentialFingerprints''] [''revokedCredentialFingerprints''] v;
          i \<leftarrow> get_str m ''nodeId''; va \<leftarrow> get_str m ''validatorId''; h \<leftarrow> get_str m ''host'';
          p \<leftarrow> get_uint u16_max m ''port''; t \<leftarrow> get_str m ''transactionPermission'';
          c \<leftarrow> get_vec as_str None m ''credentialFingerprints'';
          r \<leftarrow> get_vec as_str (Some []) m ''revokedCredentialFingerprints'';
          Some \<lparr>nn_id = i, nn_validator = va, nn_host = h, nn_port = p, nn_permission = t, nn_pins = c,
            nn_revoked = r\<rparr> }"

definition network_of_json :: "json \<Rightarrow> network option" where
  "network_of_json v =
     do { m \<leftarrow> struct_fields [''schemaVersion'', ''kind'', ''nodes''] [] v;
          s \<leftarrow> get_uint u32_max m ''schemaVersion''; k \<leftarrow> get_str m ''kind'';
          ns \<leftarrow> get_vec net_node_of_json None m ''nodes'';
          Some \<lparr>nw_schema = s, nw_kind = k, nw_nodes = ns\<rparr> }"

text \<open>What the loop over the nodes has seen; the fingerprints of all nodes share one set.\<close>

record net_seen =
  seen_ids :: "string list"
  seen_validators :: "string list"
  seen_endpoints :: "(string \<times> nat) list"
  seen_pins :: "string list"

fun take_pins :: "string list \<Rightarrow> string list \<Rightarrow> (string list \<times> string list) result" where
  "take_pins seen [] = Inr (seen, [])"
| "take_pins seen (p # ps) =
     and_then (map_err net_invalid (canonical_hex p 64)) (\<lambda>c.
     and_then (ensure (\<not> List.member seen c) net_invalid) (\<lambda>_.
     and_then (take_pins (c # seen) ps) (\<lambda>(seen', cs). Inr (seen', c # cs))))"

definition check_node :: "net_seen \<Rightarrow> net_node \<Rightarrow> (net_seen \<times> net_node) result" where
  "check_node s n =
     and_then (map_err net_invalid (canonical_hex (nn_id n) 64)) (\<lambda>i.
     and_then (map_err net_invalid (canonical_hex (nn_validator n) 40)) (\<lambda>v.
     and_then (map_err net_invalid (host (nn_host n))) (\<lambda>h.
     and_then (ensure (\<not> (nn_port n = 0 \<or> \<not> List.member [''NONE'', ''RELAY'', ''INGRESS''] (nn_permission n)))
                 net_invalid) (\<lambda>_.
     and_then (ensure (\<not> (List.member (seen_ids s) i \<or> List.member (seen_validators s) v)) net_invalid) (\<lambda>_.
     and_then (ensure (\<not> List.member (seen_endpoints s) (h, nn_port n)) net_invalid) (\<lambda>_.
     and_then (ensure (\<not> (nn_pins n = [] \<or> 16 < length (nn_pins n) \<or> 16 < length (nn_revoked n))) net_invalid) (\<lambda>_.
     and_then (take_pins (seen_pins s) (nn_pins n @ nn_revoked n)) (\<lambda>(pins, cs).
     Inr (\<lparr>seen_ids = i # seen_ids s, seen_validators = v # seen_validators s,
            seen_endpoints = (h, nn_port n) # seen_endpoints s, seen_pins = pins\<rparr>,
          n\<lparr>nn_id := i, nn_validator := v, nn_host := h, nn_pins := sort (take (length (nn_pins n)) cs),
            nn_revoked := sort (drop (length (nn_pins n)) cs)\<rparr>)))))))))"

fun check_nodes :: "net_seen \<Rightarrow> net_node list \<Rightarrow> (net_seen \<times> net_node list) result" where
  "check_nodes s [] = Inr (s, [])"
| "check_nodes s (n # ns) =
     and_then (check_node s n) (\<lambda>(s', n').
     and_then (check_nodes s' ns) (\<lambda>(s'', ns'). Inr (s'', n' # ns')))"

definition none_seen :: net_seen where
  "none_seen = \<lparr>seen_ids = [], seen_validators = [], seen_endpoints = [], seen_pins = []\<rparr>"

definition validated_network :: "(bytes \<Rightarrow> json option) \<Rightarrow> bytes \<Rightarrow> bytes \<Rightarrow> network result" where
  "validated_network parse chain_raw network_raw =
     and_then (chain_members parse chain_raw) (\<lambda>membership.
     and_then (map_err net_invalid (decode_strict_json parse network_of_json network_raw)) (\<lambda>net.
     and_then (ensure (\<not> (nw_schema net \<noteq> 1 \<or> nw_kind net \<noteq> ''BXDL_QBFT_NETWORK'' \<or> nw_nodes net = [] \<or>
                 128 < length (nw_nodes net))) net_invalid) (\<lambda>_.
     and_then (check_nodes none_seen (nw_nodes net)) (\<lambda>(s, nodes).
     and_then (ensure (set (seen_validators s) = membership) net_invalid) (\<lambda>_.
     Inr (net\<lparr>nw_nodes := sort_key nn_id nodes\<rparr>))))))"

section \<open>Inputs and their pins\<close>

type_synonym stamp = "nat \<times> nat \<times> nat \<times> nat \<times> (int \<times> int) \<times> (int \<times> int)"

definition stamp_of :: "fs_meta \<Rightarrow> stamp" where
  "stamp_of m = (fm_device m, fm_inode m, fm_len m, fm_mode m, fm_modified m, fm_changed m)"

record input_pin =
  ip_path :: names
  ip_sha :: string
  ip_stamp :: stamp

text \<open>
  The answers during one \<open>Input::read\<close>: the file system under the path checks before and after,
  the metadata of the path before, the open with the metadata of the opened file, its content,
  and both metadata again.
\<close>

record input_read =
  ir_fs :: fs
  ir_before :: "fs_meta option"
  ir_opened :: "fs_meta option option"
  ir_content :: "bytes option"
  ir_fs_after :: fs
  ir_after :: "fs_meta option"
  ir_current :: "fs_meta option"

definition net_limit :: nat where "net_limit = 262144"

definition check_stamp :: "(string \<Rightarrow> string) \<Rightarrow> names \<Rightarrow> input_read \<Rightarrow> stamp \<Rightarrow> unit result" where
  "check_stamp eqv path a st =
     and_then (map_err net_changed (same_path eqv (ir_fs_after a) (path_text path) (path_text path))) (\<lambda>_.
     and_then (ok_or (ir_after a) net_changed) (\<lambda>after.
     and_then (ensure (stamp_of after = st) net_changed) (\<lambda>_.
     and_then (ok_or (ir_current a) net_changed) (\<lambda>current.
     ensure (stamp_of current = st) net_changed))))"

definition read_input ::
  "(bytes \<Rightarrow> string) \<Rightarrow> (string \<Rightarrow> string) \<Rightarrow> names \<Rightarrow> input_read \<Rightarrow> (input_pin \<times> bytes) result" where
  "read_input sha eqv path a =
     and_then (map_err net_invalid (same_path eqv (ir_fs a) (path_text path) (path_text path))) (\<lambda>_.
     and_then (ok_or (ir_before a) net_invalid) (\<lambda>before.
     and_then (ensure (\<not> (\<not> fm_regular before \<or> fm_len before = 0 \<or> net_limit < fm_len before \<or>
                 fm_mode before AND 18 \<noteq> 0)) net_invalid) (\<lambda>_.
     and_then (ok_or (ir_opened a) net_invalid) (\<lambda>opened.
     let st = stamp_of before in
     and_then (ok_or opened net_invalid) (\<lambda>opened.
     and_then (ensure (stamp_of opened = st) net_changed) (\<lambda>_.
     and_then (ok_or (ir_content a) net_invalid) (\<lambda>content.
     let raw = take (Suc net_limit) content in
     and_then (ensure (length raw = fm_len before) net_changed) (\<lambda>_.
     and_then (check_stamp eqv path a st) (\<lambda>_.
     Inr (\<lparr>ip_path = path, ip_sha = sha raw, ip_stamp = st\<rparr>, raw))))))))))"

text \<open>\<open>Input::read\<close> with the path as given.\<close>

definition input_at ::
  "(bytes \<Rightarrow> string) \<Rightarrow> (string \<Rightarrow> string) \<Rightarrow> string option \<Rightarrow> string \<Rightarrow> input_read \<Rightarrow> (input_pin \<times> bytes) result" where
  "input_at sha eqv cwd p a =
     and_then (map_err net_invalid (resolve_source cwd p)) (\<lambda>path. read_input sha eqv path a)"

text \<open>A pin that is verified, with the answers about its path and of the second read.\<close>

record pin_check =
  pc_pin :: input_pin
  pc_fs :: fs
  pc_meta :: "fs_meta option"
  pc_read :: input_read

fun check_identities :: "(string \<Rightarrow> string) \<Rightarrow> names list \<Rightarrow> pin_check list \<Rightarrow> unit result" where
  "check_identities eqv seen [] = Inr ()"
| "check_identities eqv seen (p # ps) =
     (let path = ip_path (pc_pin p) in
      and_then (map_err net_changed (same_path eqv (pc_fs p) (path_text path) (path_text path))) (\<lambda>_.
      and_then (ok_or (pc_meta p) net_changed) (\<lambda>m.
      and_then (ensure (\<not> (List.member seen path \<or> stamp_of m \<noteq> ip_stamp (pc_pin p))) net_changed) (\<lambda>_.
      check_identities eqv (path # seen) ps))))"

definition verify_pins ::
  "(bytes \<Rightarrow> string) \<Rightarrow> (string \<Rightarrow> string) \<Rightarrow> string option \<Rightarrow> pin_check list \<Rightarrow> unit result" where
  "verify_pins sha eqv cwd ps =
     and_then (ensure (length ps = 3) net_changed) (\<lambda>_.
     and_then (check_identities eqv [] ps) (\<lambda>_.
     and_then (map_result (\<lambda>p.
         and_then (map_err net_changed (input_at sha eqv cwd (path_text (ip_path (pc_pin p))) (pc_read p))) (\<lambda>(q, _).
         ensure (q = pc_pin p) net_changed)) ps) (\<lambda>_. Inr ())))"

text \<open>\<open>node_choices\<close>: the public fields a setup operator selects from; both inputs are read twice.\<close>

record node_choice =
  no_id :: string
  no_validator :: string
  no_host :: string
  no_port :: nat
  no_permission :: string

definition node_choices ::
  "(bytes \<Rightarrow> string) \<Rightarrow> (string \<Rightarrow> string) \<Rightarrow> (bytes \<Rightarrow> json option) \<Rightarrow> string option \<Rightarrow> fs \<Rightarrow> string \<Rightarrow> string \<Rightarrow>
     input_read \<Rightarrow> input_read \<Rightarrow> input_read \<Rightarrow> input_read \<Rightarrow> node_choice list result" where
  "node_choices sha eqv parse cwd f chain_path network_path c1 n1 c2 n2 =
     and_then (overlaps eqv f chain_path network_path) (\<lambda>o'.
     and_then (ensure (\<not> o') net_invalid) (\<lambda>_.
     and_then (input_at sha eqv cwd chain_path c1) (\<lambda>(chain, chain_raw).
     and_then (input_at sha eqv cwd network_path n1) (\<lambda>(net, network_raw).
     and_then (validated_network parse chain_raw network_raw) (\<lambda>value.
     and_then (input_at sha eqv cwd (path_text (ip_path chain)) c2) (\<lambda>(chain', _).
     and_then (ensure (chain' = chain) net_changed) (\<lambda>_.
     and_then (input_at sha eqv cwd (path_text (ip_path net)) n2) (\<lambda>(net', _).
     and_then (ensure (net' = net) net_changed) (\<lambda>_.
     Inr (map (\<lambda>n. \<lparr>no_id = nn_id n, no_validator = nn_validator n, no_host = nn_host n,
       no_port = nn_port n, no_permission = nn_permission n\<rparr>) (nw_nodes value)))))))))))"

section \<open>The native document\<close>

datatype store_type = Pkcs12 | Jks
datatype network_mode = New_Network | Join_Network

fun store_text :: "store_type \<Rightarrow> string" where
  "store_text Pkcs12 = ''PKCS12''"
| "store_text Jks = ''JKS''"

record runtime_options =
  ro_key_store :: store_type
  ro_trust_store :: store_type
  ro_mode :: network_mode
  ro_auto_start :: bool
  ro_archive :: bool

definition node_prefix :: string where
  "node_prefix = ''nigo.protocol.consensus.qbft.node.''"

definition put_entry :: "string \<times> json \<Rightarrow> (string \<times> json) list \<Rightarrow> (string \<times> json) list" where
  "put_entry e m = e # filter (\<lambda>x. fst x \<noteq> fst e) m"

definition indexed :: "string \<Rightarrow> nat \<Rightarrow> string" where
  "indexed name i = name @ ''['' @ show_radix 10 i @ '']''"

definition peer_entries :: "nat \<Rightarrow> net_node \<Rightarrow> (string \<times> json) list" where
  "peer_entries index peer =
     (let pre = node_prefix @ indexed ''peers'' index @ ''.'' in
      map (\<lambda>(key, v). (pre @ key, JStr v))
        [(''node-id'', nn_id peer), (''validator-id'', nn_validator peer), (''role'', ''VALIDATOR''),
         (''host'', nn_host peer), (''transaction-permission'', nn_permission peer)] @
      [(pre @ ''port'', JInt (int (nn_port peer)))] @
      concat (map (\<lambda>(name, values). map (\<lambda>(i, pin). (pre @ indexed name i, JStr pin)) (enumerate 0 values))
        [(''credential-fingerprints'', nn_pins peer), (''revoked-credential-fingerprints'', nn_revoked peer)]))"

definition local_entries :: "config_instance \<Rightarrow> net_node \<Rightarrow> runtime_options \<Rightarrow> (string \<times> json) list" where
  "local_entries c local opts =
     [(''server.address'', JStr (addr_address (ci_http c))), (''server.port'', JInt (addr_port (ci_http c))),
      (''nigo.monitor.console.enabled'', JBool True), (''nigo.monitor.console.gc-control-enabled'', JBool False),
      (''nigo.storage.gc.automatic.enabled'', JBool False),
      (''nigo.protocol.consensus.auto-start'', JBool (ro_auto_start opts)),
      (''nigo.transaction-ingress.permission'', JStr (nn_permission local)),
      (''nigo.protocol.consensus.qbft.sync.enabled'', JBool (ro_mode opts = Join_Network)),
      (''nigo.protocol.consensus.qbft.sync.trust-mode'', JStr ''GENESIS_VERIFIED''),
      (''nigo.protocol.consensus.qbft.sync.archive.enabled'', JBool (ro_archive opts))] @
     map (\<lambda>(key, v). (node_prefix @ key, JStr v))
       [(''role'', ''VALIDATOR''), (''node-id'', nn_id local), (''validator-id'', nn_validator local),
        (''listen-host'', addr_address (ci_p2p c)), (''transport-security-scheme'', ''MTLS''),
        (''keystore-path'', sec_keystore (ci_secrets c)), (''keystore-password-file'', sec_password (ci_secrets c)),
        (''mtls-key-store-path'', sec_tls_key_store (ci_secrets c)),
        (''mtls-key-store-password-file'', sec_tls_key_password (ci_secrets c)),
        (''mtls-trust-store-path'', sec_tls_trust_store (ci_secrets c)),
        (''mtls-trust-store-password-file'', sec_tls_trust_password (ci_secrets c)),
        (''mtls-key-store-type'', store_text (ro_key_store opts)),
        (''mtls-trust-store-type'', store_text (ro_trust_store opts))] @
     [(node_prefix @ ''listen-port'', JInt (addr_port (ci_p2p c)))]"

text \<open>The \<open>BTreeMap\<close> of the node settings, in its order.\<close>

definition node_settings :: "config_instance \<Rightarrow> net_node \<Rightarrow> runtime_options \<Rightarrow> net_node list \<Rightarrow> (string \<times> json) list" where
  "node_settings c local opts nodes =
     (let peers = filter (\<lambda>n. nn_id n \<noteq> nn_id local) nodes;
          entries = local_entries c local opts @ concat (map (\<lambda>(i, p). peer_entries i p) (enumerate 0 peers)) in
      sort_key fst (fold put_entry entries []))"

definition native_document :: "config_instance \<Rightarrow> (string \<times> json) list \<Rightarrow> json" where
  "native_document c node = JObj [(''chainFile'', JStr (ci_chain c)),
     (''dataDirectory'', JStr (st_data (ci_storage c))), (''backend'', JStr ''rocksdb''), (''node'', JObj node)]"

section \<open>Preparation\<close>

record net_summary =
  ns_instance :: string
  ns_node_id :: string
  ns_validator :: string
  ns_validators :: nat
  ns_peers :: nat
  ns_http :: "string \<times> int"
  ns_p2p :: "string \<times> nat"
  ns_permission :: string
  ns_options :: runtime_options

record net_prepared =
  np_native :: bytes
  np_summary :: net_summary
  np_pins :: "input_pin list"
  np_references :: "string list"
  np_secrets :: "(string \<times> stamp) list"

text \<open>
  The answers during a preparation: the reads of the three inputs, the metadata of the references
  (\<open>nl_meta\<close> for the checks of the product, \<open>nl_secret\<close> for the stamps), the file system under the path
  guards, and what \<open>recheck\<close> sees at the end.
\<close>

record net_load =
  nl_cwd :: "string option"
  nl_product :: input_read
  nl_meta :: meta_fs
  nl_fs :: fs
  nl_network :: input_read
  nl_chain :: input_read
  nl_secret :: "string \<Rightarrow> fs_meta option"
  nl_pins :: "input_pin \<Rightarrow> pin_check"
  nl_secret_again :: "string \<Rightarrow> fs_meta option"
  nl_fs_again :: fs

definition recheck ::
  "(bytes \<Rightarrow> string) \<Rightarrow> (string \<Rightarrow> string) \<Rightarrow> net_load \<Rightarrow> net_prepared \<Rightarrow> unit result" where
  "recheck sha eqv a p =
     and_then (verify_pins sha eqv (nl_cwd a) (map (\<lambda>q. (nl_pins a q)\<lparr>pc_pin := q\<rparr>) (np_pins p))) (\<lambda>_.
     and_then (map_result (\<lambda>(path, st).
         and_then (map_err net_changed (same_path eqv (nl_fs_again a) path path)) (\<lambda>_.
         and_then (ok_or (nl_secret_again a path) net_changed) (\<lambda>m.
         ensure (stamp_of m = st) net_changed))) (np_secrets p)) (\<lambda>_.
     and_then (map_result (\<lambda>path. map_err net_changed (same_path eqv (nl_fs_again a) path path)) (np_references p)) (\<lambda>_.
     Inr ())))"

definition apart :: "(string \<Rightarrow> string) \<Rightarrow> fs \<Rightarrow> string \<Rightarrow> string \<Rightarrow> unit result" where
  "apart eqv f a b = and_then (map_err net_invalid (overlaps eqv f a b)) (\<lambda>o'. ensure (\<not> o') net_invalid)"

text \<open>The guard over the references from position \<open>i\<close> on: nothing overlaps the data directory, and
  the three public documents overlap nothing after them.\<close>

fun apart_from :: "(string \<Rightarrow> string) \<Rightarrow> fs \<Rightarrow> string \<Rightarrow> nat \<Rightarrow> string list \<Rightarrow> unit result" where
  "apart_from eqv f data i [] = Inr ()"
| "apart_from eqv f data i (p # ps) =
     and_then (if i \<noteq> 3 then apart eqv f p data else Inr ()) (\<lambda>_.
     and_then (if i < 3 then map_result (apart eqv f p) ps else Inr []) (\<lambda>_.
     apart_from eqv f data (Suc i) ps))"

definition load_network ::
  "(bytes \<Rightarrow> string) \<Rightarrow> (string \<Rightarrow> string) \<Rightarrow> (bytes \<Rightarrow> string option) \<Rightarrow> (bytes \<Rightarrow> json option) \<Rightarrow> (json \<Rightarrow> bytes) \<Rightarrow>
     string \<Rightarrow> string \<Rightarrow> runtime_options \<Rightarrow> net_load \<Rightarrow> net_prepared result" where
  "load_network sha eqv decode parse print product_path network_path opts a =
     and_then (input_at sha eqv (nl_cwd a) product_path (nl_product a)) (\<lambda>(product, product_raw).
     and_then (map_err net_invalid (parse_config decode parse (ip_path product) product_raw)) (\<lambda>c.
     and_then (map_err net_invalid
         (preflight_bytes sha decode parse (nl_cwd a) (nl_meta a) (path_text (ip_path product)) product_raw)) (\<lambda>r.
     and_then (ensure (rp_outcome r \<noteq> ''FAIL'') net_invalid) (\<lambda>_.
     and_then (map_err net_invalid (resolve_source (nl_cwd a) network_path)) (\<lambda>net_path.
     let refs = [path_text (ip_path product), path_text net_path, ci_chain c, st_data (ci_storage c)] @ secret_paths c in
     and_then (apart_from eqv (nl_fs a) (refs ! 3) 0 refs) (\<lambda>_.
     and_then (input_at sha eqv (nl_cwd a) (refs ! 1) (nl_network a)) (\<lambda>(net, network_raw).
     and_then (input_at sha eqv (nl_cwd a) (refs ! 2) (nl_chain a)) (\<lambda>(chain, chain_raw).
     and_then (validated_network parse chain_raw network_raw) (\<lambda>value.
     and_then (canonical_hex (ci_node_id c) 64) (\<lambda>local_id.
     and_then (ok_or (find (\<lambda>n. nn_id n = local_id) (nw_nodes value)) net_invalid) (\<lambda>local.
     and_then (host (addr_address (ci_p2p c))) (\<lambda>h.
     and_then (ensure (\<not> (nn_host local \<noteq> h \<or> int (nn_port local) \<noteq> addr_port (ci_p2p c))) net_invalid) (\<lambda>_.
     and_then (map_result (\<lambda>p. and_then (ok_or (nl_secret a p) net_invalid) (\<lambda>m. Inr (p, stamp_of m))) (secret_paths c)) (\<lambda>stamps.
     let native = print (native_document c (node_settings c local opts (nw_nodes value))) @ [CHR 0x0A] in
     and_then (ensure (length native \<le> net_limit) net_invalid) (\<lambda>_.
     let p = \<lparr>np_native = native,
           np_summary = \<lparr>ns_instance = ci_id c, ns_node_id = nn_id local, ns_validator = nn_validator local,
             ns_validators = length (nw_nodes value), ns_peers = length (nw_nodes value) - 1,
             ns_http = (addr_address (ci_http c), addr_port (ci_http c)),
             ns_p2p = (addr_address (ci_p2p c), nn_port local), ns_permission = nn_permission local,
             ns_options = opts\<rparr>,
           np_pins = [product, net, chain], np_references = refs, np_secrets = stamps\<rparr> in
     and_then (recheck sha eqv a p) (\<lambda>_. Inr p))))))))))))))))"

section \<open>The fingerprint of a certificate\<close>

definition pem_begin :: string where "pem_begin = ''-----BEGIN CERTIFICATE-----''"
definition pem_end :: string where "pem_end = ''-----END CERTIFICATE-----''"

definition certificate_der :: "(string \<Rightarrow> bytes option) \<Rightarrow> bytes \<Rightarrow> (bytes \<times> string) result" where
  "certificate_der base64 raw =
     (if prefix pem_begin raw then
        and_then (ensure (valid_utf8 raw) certificate_invalid) (\<lambda>_.
        and_then (ok_or (do { t \<leftarrow> strip_prefix pem_begin raw; strip_suffix pem_end (trim t) }) certificate_invalid) (\<lambda>body.
        and_then (ensure (\<not> (CHR ''-'' \<in> set body \<or>
            \<not> list_all (\<lambda>b. is_ascii_space b \<or> is_alphanumeric b \<or> List.member ''+/='' b) body)) certificate_invalid) (\<lambda>_.
        and_then (ok_or (base64 (filter (\<lambda>b. \<not> is_ascii_space b) body)) certificate_invalid) (\<lambda>d.
        Inr (d, ''PEM'')))))
      else Inr (raw, ''DER''))"

definition credential_prefix :: bytes where
  "credential_prefix = ''NIGO_TRANSPORT_CREDENTIAL/v1'' @ [CHR 0x00] @ ''MTLS'' @ [CHR 0x00]"

definition fingerprint ::
  "(bytes \<Rightarrow> string) \<Rightarrow> (string \<Rightarrow> bytes option) \<Rightarrow> (string \<Rightarrow> string) \<Rightarrow> string option \<Rightarrow> string \<Rightarrow>
     input_read \<Rightarrow> input_read \<Rightarrow> (string \<times> string) result" where
  "fingerprint sha base64 eqv cwd p first again =
     and_then (input_at sha eqv cwd p first) (\<lambda>(pin, raw).
     and_then (certificate_der base64 raw) (\<lambda>(d, encoding).
     and_then (certificate_envelope d) (\<lambda>_.
     and_then (input_at sha eqv cwd (path_text (ip_path pin)) again) (\<lambda>(pin', _).
     and_then (ensure (pin' = pin) net_changed) (\<lambda>_.
     Inr (''0x'' @ sha (credential_prefix @ d), encoding))))))"

end
