(* ===== verification/NetworkProps.thy ===== *)
theory NetworkProps
  imports Network "HOL-Library.Multiset"
begin

text \<open>
  What the preparation of the network guarantees: canonical hosts are fixed points, an accepted
  network document names every node, validator, endpoint and fingerprint once and exactly the
  members of the chain, and the prepared inputs are apart from each other and from all secrets.
\<close>

section \<open>Hosts\<close>

lemma mapped_octets: "groups g \<Longrightarrow> to_ipv4_mapped g = Some q \<Longrightarrow> octets q"
proof -
  assume g: "groups g" "to_ipv4_mapped g = Some q"
  then have "q = [g ! 6 div 256, g ! 6 mod 256, g ! 7 div 256, g ! 7 mod 256]"
    by (auto simp: to_ipv4_mapped_def split: if_splits)
  moreover have "g ! 6 < 65536" "g ! 7 < 65536" using g(1) by (auto simp: groups_def list_all_length)
  ultimately show ?thesis by (auto simp: octets_def)
qed

definition plain_ip :: "ip \<Rightarrow> ip" where
  "plain_ip ip = (case ip of V4 q \<Rightarrow> V4 q | V6 g \<Rightarrow> (case to_ipv4_mapped g of Some q \<Rightarrow> V4 q | None \<Rightarrow> V6 g))"

lemma parse_show_host: "parse_ip t = Some ip \<Longrightarrow> parse_ip (show_host ip) = Some (plain_ip ip)"
  using parse_ip_groups [of t] mapped_octets parse_show_ipv4 parse_show_ipv6
  by (cases ip) (auto simp: show_host_def plain_ip_def split: option.splits)

lemma show_plain_ip: "show_host (plain_ip ip) = show_host ip"
  by (cases ip) (auto simp: show_host_def plain_ip_def split: option.splits)

lemma valid_p2p_plain:
  "parse_ip s = Some (plain_ip ip) \<Longrightarrow> parse_ip t = Some ip \<Longrightarrow> valid_p2p_address s \<longleftrightarrow> valid_p2p_address t"
  by (cases ip) (auto simp: valid_p2p_address_def plain_ip_def split: option.splits)

lemma host_ip_fixed: "parse_ip t = Some ip \<Longrightarrow> host t = Inr h \<Longrightarrow> host h = Inr h"
  using parse_show_host [of t ip] valid_p2p_plain [of "show_host ip" ip t]
  by (auto simp: host_def show_plain_ip)

text \<open>Names without a colon are not IPv6 addresses, and a name of digits and dots has no upper case.\<close>

lemma is_radix_digit_10: "is_radix_digit 10 c \<longleftrightarrow> is_digit c"
  by (auto simp: is_radix_digit_def digit_val_def is_digit_def is_lower_def is_upper_def)

lemma parse_ip_no_colon:
  assumes "parse_ip s = Some ip" "CHR '':'' \<notin> set s"
  shows "list_all (\<lambda>c. is_digit c \<or> c = CHR ''.'') s"
proof -
  obtain q where "read_ipv4 s = Some (q, [])"
    using assms read_ipv6_colon by (auto simp: parse_ip_def split: option.splits if_splits)
  then show ?thesis using read_ipv4_SomeD by (fastforce simp: is_radix_digit_10)
qed

lemma lower_byte_dot: "lower_byte c = CHR ''.'' \<longleftrightarrow> c = CHR ''.''"
  by (auto simp: lower_byte_def is_upper_def char_eq_byte simp del: of_char_eq_iff)

lemma lower_byte_digit: "is_digit (lower_byte c) \<Longrightarrow> lower_byte c = c"
  by (auto simp: lower_byte_def is_upper_def is_digit_def split: if_splits)

lemma lower_digits: "list_all (\<lambda>c. is_digit c \<or> c = CHR ''.'') (map lower_byte s) \<Longrightarrow> map lower_byte s = s"
  by (induction s) (auto simp: lower_byte_dot intro: lower_byte_digit)

lemma split_on_map_lower:
  "split_on (CHR ''.'') (map lower_byte s) = map (map lower_byte) (split_on (CHR ''.'') s)"
  by (induction s) (auto simp: lower_byte_dot split: list.splits)

lemma is_alphanumeric_lower: "is_alphanumeric c \<Longrightarrow> is_alphanumeric (lower_byte c)"
  by (auto simp: is_alphanumeric_def lower_byte_def is_upper_def is_lower_def is_digit_def)

lemma lower_byte_dash [simp]: "lower_byte (CHR ''-'') = CHR ''-''"
  by (simp add: lower_byte_def is_upper_def)

lemma dns_label_lower: "dns_label s \<Longrightarrow> dns_label (map lower_byte s)"
  by (auto simp: dns_label_def list_all_iff hd_map last_map is_alphanumeric_lower)

lemma dns_label_chars: "dns_label s \<Longrightarrow> c \<in> set s \<Longrightarrow> c \<noteq> CHR '':'' \<and> c \<noteq> CHR ''.''"
  by (auto simp: dns_label_def list_all_iff is_alphanumeric_def is_digit_def is_lower_def is_upper_def)

lemma split_on_set: "c \<in> set s \<Longrightarrow> c = x \<or> (\<exists>p\<in>set (split_on x s). c \<in> set p)"
  by (induction s) (auto split: list.splits)

lemma split_on_last_sep: "split_on x (p @ [x]) = split_on x p @ [[]]"
  using split_on_append_sep [of x p "[]"] by simp

lemma host_name_fixed:
  assumes "parse_ip t = None" "\<not> suffix ''.'' t" "host t = Inr h"
  shows "host h = Inr h"
proof -
  have "strip_suffix ''.'' t = None"
    using assms(2) by (cases "strip_suffix ''.'' t") (auto simp: suffix_def)
  then have t: "t \<noteq> []" "length t \<le> 253" "list_all dns_label (split_on (CHR ''.'') t)" "h = map lower_byte t"
    using assms(1,3) by (auto simp: host_def Let_def to_ascii_lowercase_def)
  have labels: "list_all dns_label (split_on (CHR ''.'') h)"
    using t(3,4) dns_label_lower by (auto simp: split_on_map_lower list_all_iff)
  have "CHR '':'' \<notin> set h"
    using split_on_set [of "CHR '':''" h "CHR ''.''"] labels dns_label_chars by (force simp: list_all_iff)
  then have "parse_ip h = None"
    using parse_ip_no_colon [of h] lower_digits [of t] assms(1) t(4) by (cases "parse_ip h") auto
  moreover have "strip_suffix ''.'' h = None"
  proof (rule ccontr)
    assume "strip_suffix ''.'' h \<noteq> None"
    then obtain p where "h = p @ ''.''" by auto
    then have "[] \<in> set (split_on (CHR ''.'') h)" by (simp add: split_on_last_sep)
    then show False using labels by (auto simp: list_all_iff dns_label_def)
  qed
  moreover have "h \<noteq> []" "length h \<le> 253" "to_ascii_lowercase h = h"
    using t by (simp_all add: to_ascii_lowercase_def)
  ultimately show ?thesis using labels by (simp add: host_def Let_def)
qed

section \<open>Network documents\<close>

definition canonical :: "nat \<Rightarrow> string \<Rightarrow> bool" where
  "canonical n s \<longleftrightarrow> length s = n + 2 \<and> prefix ''0x'' s \<and> list_all is_lower_hex (drop 2 s)"

lemma canonical_hex_canonical:
  assumes "canonical_hex t n = Inr s"
  shows "canonical n s"
proof -
  have t: "length t = n + 2" "prefix ''0x'' t" "list_all is_hexdigit (drop 2 t)" "s = map lower_byte t"
    using assms by (auto simp: canonical_hex_def to_ascii_lowercase_def)
  then obtain r where r: "t = CHR ''0'' # CHR ''x'' # r" by (auto simp: prefix_def)
  moreover have "lower_byte (CHR ''0'') = CHR ''0''" "lower_byte (CHR ''x'') = CHR ''x''"
    by (simp_all add: lower_byte_def is_upper_def)
  ultimately show ?thesis using t by (auto simp: canonical_def list_all_iff)
qed

definition node_ok :: "net_node \<Rightarrow> bool" where
  "node_ok n \<longleftrightarrow> canonical 64 (nn_id n) \<and> canonical 40 (nn_validator n) \<and> (\<exists>t. host t = Inr (nn_host n)) \<and>
     nn_port n \<noteq> 0 \<and> nn_permission n \<in> {''NONE'', ''RELAY'', ''INGRESS''} \<and>
     1 \<le> length (nn_pins n) \<and> length (nn_pins n) \<le> 16 \<and> length (nn_revoked n) \<le> 16 \<and>
     sorted (nn_pins n) \<and> sorted (nn_revoked n) \<and> list_all (canonical 64) (nn_pins n @ nn_revoked n)"

abbreviation endpoint :: "net_node \<Rightarrow> string \<times> nat" where
  "endpoint n \<equiv> (nn_host n, nn_port n)"

abbreviation all_pins :: "net_node list \<Rightarrow> string list" where
  "all_pins ns \<equiv> concat (map (\<lambda>n. nn_pins n @ nn_revoked n) ns)"

lemma take_pins_Inr:
  "take_pins seen ps = Inr (seen', cs) \<Longrightarrow> distinct cs \<and> set cs \<inter> set seen = {} \<and> set seen' = set seen \<union> set cs \<and>
     length cs = length ps \<and> list_all (canonical 64) cs"
proof (induction ps arbitrary: seen cs)
  case (Cons p ps)
  then obtain c cs' where c: "canonical_hex p 64 = Inr c" "c \<notin> set seen" "take_pins (c # seen) ps = Inr (seen', cs')"
      "cs = c # cs'" by auto
  from Cons.IH [OF c(3)] c canonical_hex_canonical [OF c(1)] show ?case by auto
qed simp

text \<open>What the loop keeps: it has seen exactly the nodes it gave back, all of them apart.\<close>

definition seen_all :: "net_seen \<Rightarrow> net_seen \<Rightarrow> net_node list \<Rightarrow> bool" where
  "seen_all s s' ns \<longleftrightarrow>
     set (seen_ids s') = set (seen_ids s) \<union> nn_id ` set ns \<and> set (seen_validators s') = set (seen_validators s) \<union> nn_validator ` set ns \<and>
     set (seen_endpoints s') = set (seen_endpoints s) \<union> endpoint ` set ns \<and>
     set (seen_pins s') = set (seen_pins s) \<union> set (all_pins ns)"

definition fresh :: "'a set \<Rightarrow> 'a list \<Rightarrow> bool" where
  "fresh S xs \<longleftrightarrow> distinct xs \<and> set xs \<inter> S = {}"

lemma fresh_simps [simp]:
  "fresh S []" "fresh S (x # xs) \<longleftrightarrow> x \<notin> S \<and> fresh (insert x S) xs"
  "fresh S (xs @ ys) \<longleftrightarrow> fresh S xs \<and> fresh (S \<union> set xs) ys"
  by (auto simp: fresh_def)

lemma fresh_distinct: "fresh S xs \<Longrightarrow> distinct xs"
  by (simp add: fresh_def)

lemma fresh_sorted: "fresh S (sort xs) \<longleftrightarrow> fresh S xs"
  by (simp add: fresh_def)

definition apart_nodes :: "net_seen \<Rightarrow> net_node list \<Rightarrow> bool" where
  "apart_nodes s ns \<longleftrightarrow>
     fresh (set (seen_ids s)) (map nn_id ns) \<and> fresh (set (seen_validators s)) (map nn_validator ns) \<and>
     fresh (set (seen_endpoints s)) (map endpoint ns) \<and> fresh (set (seen_pins s)) (all_pins ns)"

lemma check_node_Inr:
  assumes "check_node s n = Inr (s', n')"
  shows "node_ok n' \<and> seen_all s s' [n'] \<and> apart_nodes s [n']"
proof -
  obtain i v h pins cs where c: "canonical_hex (nn_id n) 64 = Inr i" "canonical_hex (nn_validator n) 40 = Inr v"
      "host (nn_host n) = Inr h" "nn_port n \<noteq> 0" "nn_permission n \<in> {''NONE'', ''RELAY'', ''INGRESS''}"
      "i \<notin> set (seen_ids s)" "v \<notin> set (seen_validators s)" "(h, nn_port n) \<notin> set (seen_endpoints s)"
      "nn_pins n \<noteq> []" "length (nn_pins n) \<le> 16" "length (nn_revoked n) \<le> 16"
      "take_pins (seen_pins s) (nn_pins n @ nn_revoked n) = Inr (pins, cs)"
      and s': "s' = \<lparr>seen_ids = i # seen_ids s, seen_validators = v # seen_validators s,
            seen_endpoints = (h, nn_port n) # seen_endpoints s, seen_pins = pins\<rparr>"
      and n': "n' = n\<lparr>nn_id := i, nn_validator := v, nn_host := h, nn_pins := sort (take (length (nn_pins n)) cs),
            nn_revoked := sort (drop (length (nn_pins n)) cs)\<rparr>"
    using assms by (auto simp: check_node_def)
  from take_pins_Inr [OF c(12)] have cs: "distinct cs" "set cs \<inter> set (seen_pins s) = {}"
      "set pins = set (seen_pins s) \<union> set cs" "length cs = length (nn_pins n) + length (nn_revoked n)"
      "list_all (canonical 64) cs" by simp_all
  let ?k = "length (nn_pins n)"
  have parts: "set (take ?k cs) \<union> set (drop ?k cs) = set cs" by (metis append_take_drop_id set_append)
  have disj: "set (take ?k cs) \<inter> set (drop ?k cs) = {}"
    using cs(1) by (metis append_take_drop_id distinct_append)
  have "0 < ?k" using c(9) by simp
  then have "node_ok n'"
    using c cs parts canonical_hex_canonical by (auto simp: node_ok_def n' list_all_iff Suc_le_eq)
  moreover have "seen_all s s' [n']" using parts cs by (auto simp: seen_all_def s' n')
  moreover have "fresh (set (seen_pins s)) (take ?k cs) \<and> fresh (set (seen_pins s) \<union> set (take ?k cs)) (drop ?k cs)"
    using cs(1,2) unfolding fresh_simps(3) [symmetric] by (simp add: fresh_def)
  then have "apart_nodes s [n']" using c by (simp add: apart_nodes_def n' fresh_sorted)
  ultimately show ?thesis by blast
qed

lemma check_nodes_Inr:
  "check_nodes s ns = Inr (s', ns') \<Longrightarrow>
     length ns' = length ns \<and> list_all node_ok ns' \<and> seen_all s s' ns' \<and> apart_nodes s ns'"
proof (induction ns arbitrary: s s' ns')
  case Nil
  then show ?case by (simp add: seen_all_def apart_nodes_def)
next
  case (Cons n ns)
  then obtain s1 n' rest where n: "check_node s n = Inr (s1, n')" "check_nodes s1 ns = Inr (s', rest)" "ns' = n' # rest"
    by auto
  note one = check_node_Inr [OF n(1)] and ih = Cons.IH [OF n(2)]
  have "seen_all s s' (n' # rest)" using one ih by (auto simp: seen_all_def)
  moreover have "apart_nodes s (n' # rest)"
    using one ih by (simp add: apart_nodes_def seen_all_def Un_commute Un_left_commute)
  ultimately show ?case using one ih n(3) by simp
qed

lemma validated_network_Inr:
  assumes "validated_network parse chain_raw network_raw = Inr net"
  shows "nw_nodes net \<noteq> [] \<and> length (nw_nodes net) \<le> 128 \<and> list_all node_ok (nw_nodes net) \<and>
    sorted_wrt (<) (map nn_id (nw_nodes net)) \<and> distinct (map nn_validator (nw_nodes net)) \<and>
    distinct (map endpoint (nw_nodes net)) \<and> distinct (all_pins (nw_nodes net)) \<and>
    chain_members parse chain_raw = Inr (nn_validator ` set (nw_nodes net))"
proof -
  obtain doc s nodes where d: "nw_nodes doc \<noteq> []" "length (nw_nodes doc) \<le> 128"
      "check_nodes none_seen (nw_nodes doc) = Inr (s, nodes)"
      "chain_members parse chain_raw = Inr (set (seen_validators s))"
      and net: "net = doc\<lparr>nw_nodes := sort_key nn_id nodes\<rparr>"
    using assms by (auto simp: validated_network_def)
  note c = check_nodes_Inr [OF d(3)]
  have m: "mset (sort_key nn_id nodes) = mset nodes" by simp
  have dist: "distinct (map f (sort_key nn_id nodes)) = distinct (map f nodes)" for f :: "net_node \<Rightarrow> 'b"
    by (rule mset_eq_imp_distinct_iff) simp
  have pins: "distinct (all_pins (sort_key nn_id nodes)) = distinct (all_pins nodes)"
    by (rule mset_eq_imp_distinct_iff) (simp add: mset_concat flip: sum_mset_sum_list)
  have "sorted (map nn_id (sort_key nn_id nodes))" by simp
  moreover have "distinct (map nn_id (sort_key nn_id nodes))" using c by (auto simp: dist apart_nodes_def dest: fresh_distinct)
  ultimately have "sorted_wrt (<) (map nn_id (sort_key nn_id nodes))" using strict_sorted_iff by blast
  moreover have "length nodes = length (nw_nodes doc)" "nodes \<noteq> []" using c d(1) by auto
  moreover have "sort_key nn_id nodes \<noteq> []" using \<open>nodes \<noteq> []\<close> by (metis set_empty set_sort)
  ultimately show ?thesis
    using c d unfolding net
    by (auto simp: dist pins apart_nodes_def seen_all_def none_seen_def list_all_iff dest: fresh_distinct)
qed

section \<open>Separate inputs\<close>

lemma apart_Inr: "apart eqv f a b = Inr () \<longleftrightarrow> overlaps eqv f a b = Inr False"
  by (auto simp: apart_def)

lemma apart_from_Inr:
  "apart_from eqv f data i ps = Inr () \<Longrightarrow> k < length ps \<Longrightarrow>
     (i + k \<noteq> 3 \<longrightarrow> overlaps eqv f (ps ! k) data = Inr False) \<and>
     (i + k < 3 \<longrightarrow> (\<forall>j. k < j \<and> j < length ps \<longrightarrow> overlaps eqv f (ps ! k) (ps ! j) = Inr False))"
proof (induction ps arbitrary: i k)
  case (Cons p ps)
  have data: "i \<noteq> 3 \<Longrightarrow> overlaps eqv f p data = Inr False" using Cons.prems(1) by (simp add: apart_Inr)
  have later: "overlaps eqv f p q = Inr False" if "i < 3" "q \<in> set ps" for q
    using Cons.prems(1) that by (auto simp: map_result_Inr_iff list_all2_conv_all_nth in_set_conv_nth apart_Inr)
  have rest: "apart_from eqv f data (Suc i) ps = Inr ()" using Cons.prems(1) by (auto split: if_splits)
  show ?case
  proof (cases k)
    case 0
    then show ?thesis using data later by (auto simp: nth_Cons split: nat.splits)
  next
    case (Suc k')
    have "\<forall>j. Suc k' < j \<and> j < length (p # ps) \<longrightarrow> (\<exists>j'. j = Suc j' \<and> k' < j' \<and> j' < length ps)"
      by (auto simp: less_Suc_eq_0_disj)
    then show ?thesis using Cons.IH [OF rest, of k'] Cons.prems(2) Suc by auto
  qed
qed simp

text \<open>The lists a separation lemma speaks of, from the positions of the guard.\<close>

definition separate :: "(string \<Rightarrow> string) \<Rightarrow> fs \<Rightarrow> string \<Rightarrow> string \<Rightarrow> bool" where
  "separate eqv f p q \<longleftrightarrow> overlaps eqv f p q = Inr False"

lemma apart_from_separate:
  assumes "apart_from eqv f data 0 ([a, b, c, data] @ secrets) = Inr ()"
  shows "sorted_wrt (separate eqv f) [a, b, c]"
    and "list_all (\<lambda>d. list_all (separate eqv f d) secrets) [a, b, c]"
    and "list_all (\<lambda>p. separate eqv f p data) ([a, b, c] @ secrets)"
proof -
  let ?ps = "[a, b, c, data] @ secrets"
  note at = apart_from_Inr [OF assms]
  have secret: "\<exists>k. 3 < k \<and> k < length ?ps \<and> ?ps ! k = s" if s: "s \<in> set secrets" for s
  proof -
    obtain m where "m < length secrets" "secrets ! m = s" using s by (auto simp: in_set_conv_nth)
    then show ?thesis by (intro exI [of _ "m + 4"]) (simp add: nth_append)
  qed
  have doc: "separate eqv f (?ps ! k) (?ps ! j)" if "k < 3" "k < j" "j < length ?ps" for k j
    using at [of k] that by (simp add: separate_def)
  have data: "separate eqv f (?ps ! k) data" if "k < length ?ps" "k \<noteq> 3" for k
    using at [of k] that by (simp add: separate_def)
  show "sorted_wrt (separate eqv f) [a, b, c]"
    using doc [of 0 1] doc [of 0 2] doc [of 1 2] by simp
  have "separate eqv f (?ps ! k) s" if k: "k < 3" and s: "s \<in> set secrets" for k s
  proof -
    obtain j where "3 < j" "j < length ?ps" "?ps ! j = s" using secret [OF s] by blast
    with doc [of k j] k show ?thesis by simp
  qed
  from this [of 0] this [of 1] this [of 2]
  show "list_all (\<lambda>d. list_all (separate eqv f d) secrets) [a, b, c]"
    by (simp add: list_all_iff)
  have "separate eqv f s data" if s: "s \<in> set secrets" for s
  proof -
    obtain j where "3 < j" "j < length ?ps" "?ps ! j = s" using secret [OF s] by blast
    with data [of j] show ?thesis by simp
  qed
  then show "list_all (\<lambda>p. separate eqv f p data) ([a, b, c] @ secrets)"
    using data [of 0] data [of 1] data [of 2] by (simp add: list_all_iff)
qed

lemma stamps_paths:
  "map_result (\<lambda>p. and_then (ok_or (g p) e) (\<lambda>m. Inr (p, h m))) ps = Inr rs \<Longrightarrow> map fst rs = ps"
  by (induction ps arbitrary: rs) (auto split: sum.splits)

lemma load_network_references:
  assumes "load_network sha eqv decode parse print product_path network_path opts a = Inr p"
  shows "\<exists>product raw c net.
    input_at sha eqv (nl_cwd a) product_path (nl_product a) = Inr (product, raw) \<and>
    parse_config decode parse (ip_path product) raw = Inr c \<and>
    resolve_source (nl_cwd a) network_path = Inr net \<and>
    np_references p = [path_text (ip_path product), path_text net, ci_chain c, st_data (ci_storage c)] @ secret_paths c \<and>
    map fst (np_secrets p) = secret_paths c \<and>
    apart_from eqv (nl_fs a) (st_data (ci_storage c)) 0
      ([path_text (ip_path product), path_text net, ci_chain c, st_data (ci_storage c)] @ secret_paths c) = Inr ()"
  using assms by (fastforce simp: load_network_def Let_def dest: stamps_paths)

section \<open>A concrete network\<close>

definition net_id :: string where "net_id = ''0x'' @ replicate 64 (CHR ''a'')"
definition net_member :: string where "net_member = ''0x'' @ replicate 40 (CHR ''b'')"
definition net_pin :: string where "net_pin = ''0x'' @ replicate 64 (CHR ''c'')"

definition net_config :: json where
  "net_config = (case sample_json of
     JObj es \<Rightarrow> JObj (map (\<lambda>(k, v). (k, if k = ''nodeId'' then JStr net_id else v)) es) | v \<Rightarrow> v)"

definition net_document :: json where
  "net_document = JObj [(''schemaVersion'', JInt 1), (''kind'', JStr ''BXDL_QBFT_NETWORK''),
     (''nodes'', JArr [JObj [(''nodeId'', JStr net_id), (''validatorId'', JStr net_member),
       (''host'', JStr ''FE80:0::0:1''), (''port'', JInt 81), (''transactionPermission'', JStr ''RELAY''),
       (''credentialFingerprints'', JArr [JStr net_pin])]])]"

definition net_chain :: json where
  "net_chain = JObj [(''nigo.protocol.consensus.protocol'', JStr ''QBFT''),
     (members_key @ ''[0]'', JStr net_member)]"

definition net_parse :: "bytes \<Rightarrow> json option" where
  "net_parse b = (if b = ''n'' then Some net_document else if b = ''c'' then Some net_chain
     else if b = sample_raw then Some net_config else None)"

definition net_fs :: fs where
  "net_fs ns = (if ns = [] then Directory (1, 1) else if ns = [''c''] then Directory (1, 2)
     else if ns = [''c'', ''s''] then Directory (1, 3) else Missing)"

definition net_meta :: "bytes \<Rightarrow> fs_meta" where
  "net_meta b = \<lparr>fm_dir = False, fm_regular = True, fm_links = 1, fm_device = 1, fm_inode = 7,
     fm_len = length b, fm_mode = 420, fm_modified = (0, 0), fm_changed = (0, 0)\<rparr>"

definition net_read :: "bytes \<Rightarrow> input_read" where
  "net_read b = \<lparr>ir_fs = net_fs, ir_before = Some (net_meta b), ir_opened = Some (Some (net_meta b)),
     ir_content = Some b, ir_fs_after = net_fs, ir_after = Some (net_meta b), ir_current = Some (net_meta b)\<rparr>"

definition net_content :: "names \<Rightarrow> bytes" where
  "net_content ns = (if ns = [''c'', ''net''] then ''n'' else if ns = [''c'', ''chain''] then ''c'' else sample_raw)"

definition net_answers :: net_load where
  "net_answers = \<lparr>nl_cwd = None, nl_product = net_read sample_raw, nl_meta = sample_meta_fs, nl_fs = net_fs,
     nl_network = net_read ''n'', nl_chain = net_read ''c'', nl_secret = (\<lambda>_. Some (net_meta ''x'')),
     nl_pins = (\<lambda>p. \<lparr>pc_pin = p, pc_fs = net_fs, pc_meta = Some (net_meta (net_content (ip_path p))),
       pc_read = net_read (net_content (ip_path p))\<rparr>),
     nl_secret_again = (\<lambda>_. Some (net_meta ''x'')), nl_fs_again = net_fs\<rparr>"

definition net_options :: runtime_options where
  "net_options = \<lparr>ro_key_store = Pkcs12, ro_trust_store = Jks, ro_mode = New_Network, ro_auto_start = True,
     ro_archive = False\<rparr>"

definition net_run :: "net_prepared result" where
  "net_run = load_network id id sample_decode net_parse (\<lambda>_. ''{}'') ''/c/product.json'' ''/c/net'' net_options net_answers"

definition accepted :: "'a result \<Rightarrow> bool" where
  "accepted r = (case r of Inl _ \<Rightarrow> False | Inr _ \<Rightarrow> True)"

lemma accepted_iff: "accepted r \<longleftrightarrow> (\<exists>x. r = Inr x)"
  by (cases r) (auto simp: accepted_def)

lemma net_validated: "accepted (validated_network net_parse ''c'' ''n'')"
  by code_simp

lemma net_loaded: "accepted net_run"
  by code_simp

section \<open>Texts of IPv4 addresses as names\<close>

lemma digit_plain: "is_digit c \<Longrightarrow> is_alphanumeric c \<and> lower_byte c = c \<and> c \<noteq> CHR ''.''"
  by (auto simp: is_alphanumeric_def lower_byte_def is_upper_def is_digit_def)

lemma octet_text:
  assumes "n < 256"
  shows "dns_label (show_radix 10 n)" "length (show_radix 10 n) \<le> 3"
    "map lower_byte (show_radix 10 n) = show_radix 10 n" "CHR ''.'' \<notin> set (show_radix 10 n)"
proof -
  let ?t = "show_radix 10 n"
  have d: "is_alphanumeric c" "lower_byte c = c" "c \<noteq> CHR ''.''" if "c \<in> set ?t" for c
    using show_radix_is_digit [of n] that digit_plain by (auto simp: list_all_iff)
  show "map lower_byte ?t = ?t" by (rule map_idI) (rule d(2))
  show "CHR ''.'' \<notin> set ?t" using d(3) by blast
  show l: "length ?t \<le> 3" by (rule length_show_radix_le) (use assms in simp_all)
  have "hd ?t \<in> set ?t" "last ?t \<in> set ?t" by simp_all
  then show "dns_label ?t" using d(1) l by (simp add: dns_label_def list_all_iff)
qed

lemma host_dotted:
  assumes "octets q"
  shows "host (show_ipv4 q @ ''.'') = Inr (show_ipv4 q)"
proof -
  let ?t = "show_ipv4 q"
  obtain a b c d where q: "q = [a, b, c, d]" and o: "a < 256" "b < 256" "c < 256" "d < 256"
    using assms by (auto simp: octets_def length_4)
  note texts = octet_text [OF o(1)] octet_text [OF o(2)] octet_text [OF o(3)] octet_text [OF o(4)]
  have t: "?t = show_radix 10 a @ CHR ''.'' # show_radix 10 b @ CHR ''.'' # show_radix 10 c @ CHR ''.'' # show_radix 10 d"
    by (simp add: show_ipv4_def q)
  have "read_ipv4 (?t @ ''.'') = Some (q, ''.'')" by (rule read_ipv4_show [OF assms]) simp
  then have "parse_ip (?t @ ''.'') = None" by (simp add: parse_ip_def)
  moreover have "strip_suffix ''.'' (?t @ ''.'') = Some ?t" by simp
  moreover have "list_all dns_label (split_on (CHR ''.'') ?t)"
    using texts by (simp add: t split_on_append split_on_no_sep)
  moreover have "?t \<noteq> []" "length ?t \<le> 253" "to_ascii_lowercase ?t = ?t"
    using texts by (simp_all add: t to_ascii_lowercase_def lower_byte_dot)
  ultimately show ?thesis by (simp only: host_def Let_def option.case) simp
qed

section \<open>Properties\<close>

text \<open>Canonicalization of a host is idempotent: an accepted host without a trailing dot, IP text
  or DNS name, is written in one canonical form which is itself accepted and unchanged.\<close>

theorem host_canonical:
  assumes "host t = Inr h" "\<not> suffix ''.'' t"
  shows "host h = Inr h"
  using assms host_ip_fixed host_name_fixed by (cases "parse_ip t") blast+

theorem host_canonical_witness:
  "host ''FE80:0::0:1'' = Inr ''fe80::1'' \<and> host ''fe80::1'' = Inr ''fe80::1'' \<and>
   host ''Node-1.Example'' = Inr ''node-1.example'' \<and> host ''node-1.example'' = Inr ''node-1.example''"
proof -
  have h: "host ''FE80:0::0:1'' = Inr ''fe80::1''" "host ''Node-1.Example'' = Inr ''node-1.example''"
    by code_simp+
  then show ?thesis using host_canonical [OF h(1)] host_canonical [OF h(2)] by (simp add: suffix_def)
qed

text \<open>C27. The dot at the end of a name hides an address from the address policy. Of the IPv4 addresses
  exactly the unspecified, the multicast and the broadcast addresses are refused as hosts; but the
  text of every IPv4 address with a trailing dot, theirs included, is accepted as a DNS name and
  stored without the dot, as the very text of the address.\<close>

theorem trailing_dot_bypasses_unicast:
  assumes "a < 256" "b < 256" "c < 256" "d < 256"
  shows "host (show_ipv4 [a, b, c, d] @ ''.'') = Inr (show_ipv4 [a, b, c, d]) \<and>
    (host (show_ipv4 [a, b, c, d]) = fail net_invalid \<longleftrightarrow>
       a \<in> {224..239} \<or> [a, b, c, d] = [0, 0, 0, 0] \<or> [a, b, c, d] = [255, 255, 255, 255])"
proof -
  have o: "octets [a, b, c, d]" using assms by (simp add: octets_def)
  have "host (show_ipv4 [a, b, c, d]) = fail net_invalid \<longleftrightarrow> \<not> unicast_v4 [a, b, c, d]"
    using parse_show_ipv4 [OF o] by (cases "unicast_v4 [a, b, c, d]") (simp_all add: host_def valid_p2p_address_def)
  then show ?thesis using host_dotted [OF o] by (auto simp: unicast_v4_def)
qed

theorem trailing_dot_bypasses_unicast_witness:
  "host (show_ipv4 [224, 0, 0, 1] @ ''.'') = Inr (show_ipv4 [224, 0, 0, 1]) \<and>
   host (show_ipv4 [224, 0, 0, 1]) = fail net_invalid"
  using trailing_dot_bypasses_unicast [of 224 0 0 1] by simp

text \<open>C25. An accepted network document, after canonicalization, names between 1 and 128 nodes sorted by
  identifier; identifiers, validators, endpoints and all current and revoked fingerprints of all
  nodes are canonical and pairwise distinct, and its validators are exactly the members of the
  chain document.\<close>

theorem validated_network_sound:
  assumes "validated_network parse chain_raw network_raw = Inr net"
  shows "nw_nodes net \<noteq> [] \<and> length (nw_nodes net) \<le> 128 \<and> list_all node_ok (nw_nodes net) \<and>
    sorted_wrt (<) (map nn_id (nw_nodes net)) \<and> distinct (map nn_validator (nw_nodes net)) \<and>
    distinct (map endpoint (nw_nodes net)) \<and> distinct (all_pins (nw_nodes net)) \<and>
    chain_members parse chain_raw = Inr (nn_validator ` set (nw_nodes net))"
  using assms by (rule validated_network_Inr)

theorem validated_network_sound_witness:
  "\<exists>net. validated_network net_parse ''c'' ''n'' = Inr net \<and> list_all node_ok (nw_nodes net) \<and>
     chain_members net_parse ''c'' = Inr (nn_validator ` set (nw_nodes net))"
proof -
  obtain net where net: "validated_network net_parse ''c'' ''n'' = Inr net"
    using net_validated by (auto simp: accepted_iff)
  from validated_network_sound [OF this] net show ?thesis by blast
qed

text \<open>C26. A prepared network configuration was made from inputs that are apart. The product file, the
  network document and the chain document named in the product overlap neither each other nor any
  of the six secrets of the product, and none of the three documents and of the six secrets
  overlaps the data directory of the product; these are the references that are checked again
  later, and the six secrets are the ones whose identities are recorded.\<close>

theorem prepared_inputs_separate:
  assumes "load_network sha eqv decode parse print product_path network_path opts a = Inr p"
  shows "\<exists>product raw c net documents secrets.
    input_at sha eqv (nl_cwd a) product_path (nl_product a) = Inr (product, raw) \<and>
    parse_config decode parse (ip_path product) raw = Inr c \<and>
    resolve_source (nl_cwd a) network_path = Inr net \<and>
    documents = [path_text (ip_path product), path_text net, ci_chain c] \<and>
    secrets = [sec_keystore (ci_secrets c), sec_password (ci_secrets c), sec_tls_key_store (ci_secrets c),
      sec_tls_key_password (ci_secrets c), sec_tls_trust_store (ci_secrets c),
      sec_tls_trust_password (ci_secrets c)] \<and>
    sorted_wrt (\<lambda>x y. overlaps eqv (nl_fs a) x y = Inr False) documents \<and>
    list_all (\<lambda>x. list_all (\<lambda>y. overlaps eqv (nl_fs a) x y = Inr False) secrets) documents \<and>
    list_all (\<lambda>x. overlaps eqv (nl_fs a) x (st_data (ci_storage c)) = Inr False) (documents @ secrets) \<and>
    np_references p = documents @ [st_data (ci_storage c)] @ secrets \<and>
    map fst (np_secrets p) = secrets"
proof -
  obtain product raw c net where l:
    "input_at sha eqv (nl_cwd a) product_path (nl_product a) = Inr (product, raw)"
    "parse_config decode parse (ip_path product) raw = Inr c"
    "resolve_source (nl_cwd a) network_path = Inr net"
    "np_references p = [path_text (ip_path product), path_text net, ci_chain c, st_data (ci_storage c)] @ secret_paths c"
    "map fst (np_secrets p) = secret_paths c"
    "apart_from eqv (nl_fs a) (st_data (ci_storage c)) 0
       ([path_text (ip_path product), path_text net, ci_chain c, st_data (ci_storage c)] @ secret_paths c) = Inr ()"
    using load_network_references [OF assms] by blast
  note sep = apart_from_separate [OF l(6), unfolded separate_def]
  show ?thesis
    by (intro exI conjI, rule l(1), rule l(2), rule l(3), rule refl, rule refl, rule sep(1))
      (use sep(2,3) l(4,5) in \<open>simp_all add: secret_paths_def Let_def\<close>)
qed

theorem prepared_inputs_separate_witness:
  "\<exists>p. net_run = Inr p \<and> length (np_references p) = 10 \<and>
     overlaps id net_fs (np_references p ! 1) (np_references p ! 9) = Inr False"
proof -
  obtain p where p: "net_run = Inr p" using net_loaded by (auto simp: accepted_iff)
  have f: "nl_fs net_answers = net_fs" by (simp add: net_answers_def)
  from prepared_inputs_separate [OF p [unfolded net_run_def]] p show ?thesis
    by (auto simp: f)
qed

end
