(* ===== verification/SetupStore.thy ===== *)
theory SetupStore
  imports SetupPaths
begin

text \<open>
  The checkpoint store (\<open>src/src/setup/store.rs\<close>): append-only revisions of a draft in a private
  directory, published by hard links of private files, and the exclusive publication of an output.

  An operation is a program: a tree of system calls, each followed by what the code does with
  the answer, so that an interruption is a prefix of the tree and several writers are several
  trees whose calls interleave (\<open>StoreRuns\<close>). A handle is named by the identity of its file.
  Names and paths are UTF-8 texts; the lower half of the file gives the calls their meaning in
  one directory.
\<close>

unbundle bit_operations_syntax

section \<open>Programs\<close>

text \<open>
  \<open>Path_\<close> calls concern directories on the way to the store and the store's own directory;
  \<open>Clock\<close> gives the process, the next temporary sequence number and the time.
\<close>

datatype call =
    Current_Dir
  | Path_Stat names
  | Path_Open names
  | Path_Meta names
  | Path_Mkdir names
  | Path_Sync names
  | Own_Meta
  | Clock
  | Entries
  | Stat string
  | Open_Read string
  | Handle_Meta node_id
  | Read_All node_id nat
  | Create_New string
  | Write_All node_id bytes
  | Sync_File node_id
  | Hard_Link string string
  | Remove string
  | Sync_Dir

datatype answer =
    Err_IO
  | Err_Missing
  | Err_Exists
  | Done_Ok
  | Meta_Is fs_meta
  | Names_Are "string option list"
  | Bytes_Are bytes
  | Handle_Is node_id
  | Stamp_Is nat nat nat

datatype 'a prog = Done 'a | Ask call "answer \<Rightarrow> 'a prog"

primrec bind_prog :: "'a prog \<Rightarrow> ('a \<Rightarrow> 'b prog) \<Rightarrow> 'b prog" where
  "bind_prog (Done x) f = f x"
| "bind_prog (Ask c k) f = Ask c (\<lambda>a. bind_prog (k a) f)"

text \<open>\<open>p?\<close> and the rest; one call with what the code makes of its answer; a \<open>Drop\<close> at the end.\<close>

definition then_do :: "'a result prog \<Rightarrow> ('a \<Rightarrow> 'b result prog) \<Rightarrow> 'b result prog" where
  "then_do p f = bind_prog p (\<lambda>r. case r of Inl e \<Rightarrow> Done (Inl e) | Inr x \<Rightarrow> f x)"

definition syscall :: "call \<Rightarrow> (answer \<Rightarrow> 'a result) \<Rightarrow> 'a result prog" where
  "syscall c f = Ask c (\<lambda>a. Done (f a))"

definition with_drop :: "unit result prog \<Rightarrow> 'a prog \<Rightarrow> 'a prog" where
  "with_drop d p = bind_prog p (\<lambda>x. bind_prog d (\<lambda>_. Done x))"

definition drop_on_error :: "unit result prog \<Rightarrow> 'a result prog \<Rightarrow> 'a result prog" where
  "drop_on_error d p =
     bind_prog p (\<lambda>r. case r of Inl e \<Rightarrow> bind_prog d (\<lambda>_. Done (Inl e)) | Inr x \<Rightarrow> Done (Inr x))"

definition meta_or :: "string \<Rightarrow> answer \<Rightarrow> fs_meta result" where
  "meta_or e a = (case a of Meta_Is m \<Rightarrow> Inr m | _ \<Rightarrow> fail e)"

definition unit_or :: "string \<Rightarrow> answer \<Rightarrow> unit result" where
  "unit_or e a = (case a of Done_Ok \<Rightarrow> Inr () | _ \<Rightarrow> fail e)"

definition handle_or :: "string \<Rightarrow> answer \<Rightarrow> node_id result" where
  "handle_or e a = (case a of Handle_Is h \<Rightarrow> Inr h | _ \<Rightarrow> fail e)"

definition bytes_or :: "string \<Rightarrow> answer \<Rightarrow> bytes result" where
  "bytes_or e a = (case a of Bytes_Are b \<Rightarrow> Inr b | _ \<Rightarrow> fail e)"

definition names_or :: "string \<Rightarrow> answer \<Rightarrow> string option list result" where
  "names_or e a = (case a of Names_Are ns \<Rightarrow> Inr ns | _ \<Rightarrow> fail e)"

section \<open>Data\<close>

definition store_io :: string where "store_io = ''SETUP_IO''"
definition store_unsafe :: string where "store_unsafe = ''SETUP_STATE_UNSAFE''"
definition store_corrupt :: string where "store_corrupt = ''SETUP_STATE_CORRUPT''"
definition store_limit :: string where "store_limit = ''SETUP_LIMIT''"

definition max_bytes :: nat where "max_bytes = 262144"
definition max_revisions :: nat where "max_revisions = 4096"
definition max_entries :: nat where "max_entries = 8192"

record file_identity =
  fi_device :: nat
  fi_inode :: nat
  fi_mode :: nat
  fi_size :: nat
  fi_modified :: "int \<times> int"

definition identity_of :: "fs_meta \<Rightarrow> file_identity" where
  "identity_of m = \<lparr>fi_device = fm_device m, fi_inode = fm_inode m, fi_mode = fm_mode m, fi_size = fm_len m,
     fi_modified = fm_modified m\<rparr>"

definition same_inode :: "file_identity \<Rightarrow> fs_meta \<Rightarrow> bool" where
  "same_inode i m \<longleftrightarrow> fi_device i = fm_device m \<and> fi_inode i = fm_inode m"

abbreviation node_of :: "fs_meta \<Rightarrow> node_id" where
  "node_of m \<equiv> (fm_device m, fm_inode m)"

record checkpoint =
  cp_revision :: nat
  cp_identity :: file_identity
  cp_raw :: bytes

record store =
  sto_path :: string
  sto_identity :: file_identity
  sto_loaded :: "checkpoint option"

section \<open>Names\<close>

definition padded :: "nat \<Rightarrow> string \<Rightarrow> string" where
  "padded n s = replicate (n - length s) (CHR ''0'') @ s"

definition revision_name :: "nat \<Rightarrow> string" where
  "revision_name r = ''revision'' @ padded 8 (show_radix 10 r) @ ''.json''"

definition parse_revision :: "string \<Rightarrow> nat option" where
  "parse_revision name =
     do { rest \<leftarrow> strip_prefix ''revision'' name;
          ds \<leftarrow> strip_suffix ''.json'' rest;
          if length ds \<noteq> 8 \<or> \<not> list_all is_digit ds then None
          else do { n \<leftarrow> parse_uint 10 u32_max ds;
                    if 1 \<le> n \<and> n \<le> max_revisions then Some n else None } }"

definition temp_name :: "nat \<Rightarrow> nat \<Rightarrow> nat \<Rightarrow> string" where
  "temp_name pid sequence ticks =
     ''.bxdl-tmp-'' @ show_radix 10 pid @ ''-'' @ show_radix 10 sequence @ ''-'' @ padded 32 (show_radix 16 ticks)"

definition is_temp_name :: "string \<Rightarrow> bool" where
  "is_temp_name name =
     (case strip_prefix ''.bxdl-tmp-'' name of
        None \<Rightarrow> False
      | Some rest \<Rightarrow>
          (case split_on (CHR ''-'') rest of
             [a, b, c] \<Rightarrow> parse_uint 10 u32_max a \<noteq> None \<and> parse_uint 10 u64_max b \<noteq> None \<and>
                          length c = 32 \<and> list_all is_hexdigit c
           | _ \<Rightarrow> False))"

section \<open>Checks\<close>

definition require_directory :: "fs_meta \<Rightarrow> unit result" where
  "require_directory m = ensure (\<not> (\<not> fm_dir m \<or> fm_mode m AND 4095 \<noteq> 448)) store_unsafe"

definition require_regular :: "fs_meta \<Rightarrow> unit result" where
  "require_regular m =
     ensure (\<not> (\<not> fm_regular m \<or> fm_mode m AND 4095 \<noteq> 384 \<or> max_bytes < fm_len m)) store_unsafe"

definition check_size :: "bytes \<Rightarrow> unit result" where
  "check_size raw = ensure (length raw \<le> max_bytes) store_limit"

definition compare_loaded :: "checkpoint option \<Rightarrow> checkpoint option \<Rightarrow> unit result" where
  "compare_loaded loaded current =
     and_then (ensure (map_option cp_revision loaded = map_option cp_revision current) ''SETUP_CONFLICT'') (\<lambda>_.
     case (loaded, current) of
       (Some a, Some b) \<Rightarrow>
         ensure (\<not> (cp_identity a \<noteq> cp_identity b \<or> cp_raw a \<noteq> cp_raw b)) store_corrupt
     | _ \<Rightarrow> Inr ())"

section \<open>The way to a directory\<close>

definition stat_or_create :: "bool \<Rightarrow> names \<Rightarrow> fs_meta result prog" where
  "stat_or_create create p = Ask (Path_Stat p) (\<lambda>a.
     case a of
       Meta_Is m \<Rightarrow> Done (Inr m)
     | Err_Missing \<Rightarrow>
         if create then
           then_do (Ask (Path_Mkdir p) (\<lambda>b.
               case b of
                 Done_Ok \<Rightarrow> syscall (Path_Sync (butlast p)) (unit_or store_io)
               | Err_Exists \<Rightarrow> Done (Inr ())
               | _ \<Rightarrow> Done (fail store_io)))
             (\<lambda>_. syscall (Path_Stat p) (meta_or store_io))
         else Done (fail store_io)
     | _ \<Rightarrow> Done (fail store_io))"

fun anchor_walk :: "bool \<Rightarrow> names \<Rightarrow> names \<Rightarrow> unit result prog" where
  "anchor_walk create upper [] = Done (Inr ())"
| "anchor_walk create upper (n # ns) =
     (let p = upper @ [n] in
      then_do (stat_or_create create p) (\<lambda>before.
      then_do (Done (ensure (fm_dir before) store_unsafe)) (\<lambda>_.
      then_do (syscall (Path_Open p) (unit_or store_unsafe)) (\<lambda>_.
      then_do (syscall (Path_Meta p) (meta_or store_io)) (\<lambda>m.
      then_do (Done (ensure (same_inode (identity_of before) m) store_unsafe)) (\<lambda>_.
      anchor_walk create p ns))))))"

fun walk_names :: "component list \<Rightarrow> names result" where
  "walk_names [] = Inr []"
| "walk_names (RootDir # cs) = walk_names cs"
| "walk_names (CurDir # cs) = walk_names cs"
| "walk_names (Normal n # cs) = and_then (walk_names cs) (\<lambda>ns. Inr (n # ns))"
| "walk_names (ParentDir # cs) = fail store_unsafe"

text \<open>\<open>parent_anchor_with_creation\<close>: the names of the parent, and the last name.\<close>

definition parent_anchor :: "bool \<Rightarrow> string \<Rightarrow> (names \<times> string) result prog" where
  "parent_anchor create path =
     then_do (Done (ensure (path \<noteq> []) store_unsafe)) (\<lambda>_.
     then_do (if is_absolute path then Done (Inr (components path))
              else then_do (syscall Current_Dir (bytes_or store_io)) (\<lambda>cwd.
                   Done (Inr (components cwd @ components path)))) (\<lambda>cs.
     then_do (Done (walk_names cs)) (\<lambda>ns.
     then_do (Done (ensure (ns \<noteq> []) store_unsafe)) (\<lambda>_.
     then_do (syscall (Path_Open []) (unit_or store_io)) (\<lambda>_.
     then_do (anchor_walk create [] (butlast ns)) (\<lambda>_.
     Done (Inr (butlast ns, last ns))))))))"

definition ensure_anchor :: "store \<Rightarrow> unit result prog" where
  "ensure_anchor s =
     then_do (parent_anchor False (sto_path s)) (\<lambda>(parent, name).
     then_do (syscall (Path_Stat (parent @ [name])) (meta_or store_unsafe)) (\<lambda>visible.
     then_do (syscall Own_Meta (meta_or store_io)) (\<lambda>anchored.
     then_do (Done (require_directory visible)) (\<lambda>_.
     then_do (Done (require_directory anchored)) (\<lambda>_.
     Done (ensure (\<not> (\<not> same_inode (sto_identity s) visible \<or> \<not> same_inode (sto_identity s) anchored))
             store_unsafe))))))"

section \<open>Private files\<close>

definition remove_private :: "string \<Rightarrow> file_identity \<Rightarrow> unit result prog" where
  "remove_private name i = Ask (Stat name) (\<lambda>a.
     case a of
       Meta_Is m \<Rightarrow> if same_inode i m then syscall (Remove name) (unit_or store_io) else Done (fail store_unsafe)
     | Err_Missing \<Rightarrow> Done (Inr ())
     | _ \<Rightarrow> Done (fail store_unsafe))"

text \<open>\<open>PendingFile::create\<close>: before the identity is known nothing is dropped.\<close>

definition pending_fill :: "node_id \<Rightarrow> file_identity \<Rightarrow> bytes \<Rightarrow> unit result prog" where
  "pending_fill h i raw =
     then_do (syscall (Write_All h raw) (unit_or store_io)) (\<lambda>_.
     then_do (syscall (Sync_File h) (unit_or store_io)) (\<lambda>_.
     then_do (syscall (Handle_Meta h) (meta_or store_io)) (\<lambda>m.
     then_do (Done (require_regular m)) (\<lambda>_.
     Done (ensure (\<not> (fm_links m \<noteq> 1 \<or> \<not> same_inode i m)) store_unsafe)))))"

definition pending_create :: "bytes \<Rightarrow> (string \<times> file_identity) result prog" where
  "pending_create raw =
     then_do (syscall Clock (\<lambda>a. case a of Stamp_Is p s t \<Rightarrow> Inr (temp_name p s t) | _ \<Rightarrow> fail store_io)) (\<lambda>name.
     then_do (syscall (Create_New name) (handle_or store_io)) (\<lambda>h.
     then_do (syscall (Handle_Meta h) (meta_or store_io)) (\<lambda>m.
     let i = identity_of m in
     then_do (drop_on_error (remove_private name i) (pending_fill h i raw)) (\<lambda>_.
     Done (Inr (name, i))))))"

definition publish :: "string \<Rightarrow> file_identity \<Rightarrow> string \<Rightarrow> string \<Rightarrow> unit result prog" where
  "publish temp i target conflict =
     then_do (syscall (Stat temp) (meta_or store_unsafe)) (\<lambda>m.
     then_do (Done (require_regular m)) (\<lambda>_.
     then_do (Done (ensure (\<not> (fm_links m \<noteq> 1 \<or> \<not> same_inode i m)) store_unsafe)) (\<lambda>_.
     then_do (syscall (Hard_Link temp target) (\<lambda>a.
        case a of Done_Ok \<Rightarrow> Inr () | Err_Exists \<Rightarrow> fail conflict | _ \<Rightarrow> fail store_io)) (\<lambda>_.
     then_do (syscall Sync_Dir (unit_or store_io)) (\<lambda>_.
     then_do (remove_private temp i) (\<lambda>_.
     syscall Sync_Dir (unit_or store_io)))))))"

section \<open>The latest revision\<close>

text \<open>What the scan collects: revisions, the exported configuration, and for every file with
  temporary names how many there are and the link count of the first one seen.\<close>

record store_scan =
  sc_revisions :: "(nat \<times> fs_meta) list"
  sc_exported :: "fs_meta option"
  sc_temps :: "(node_id \<times> nat \<times> nat) list"

definition no_scan :: store_scan where
  "no_scan = \<lparr>sc_revisions = [], sc_exported = None, sc_temps = []\<rparr>"

definition put_revision :: "nat \<Rightarrow> fs_meta \<Rightarrow> store_scan \<Rightarrow> store_scan" where
  "put_revision r m s = s\<lparr>sc_revisions := (r, m) # filter (\<lambda>x. fst x \<noteq> r) (sc_revisions s)\<rparr>"

definition put_temp :: "fs_meta \<Rightarrow> store_scan \<Rightarrow> store_scan" where
  "put_temp m s = s\<lparr>sc_temps :=
     (case map_of (sc_temps s) (node_of m) of
        None \<Rightarrow> (node_of m, 1, fm_links m) # sc_temps s
      | Some (count, actual) \<Rightarrow>
          (node_of m, Suc count, actual) # filter (\<lambda>x. fst x \<noteq> node_of m) (sc_temps s))\<rparr>"

text \<open>One entry whose metadata was read.\<close>

definition scan_entry :: "string \<Rightarrow> fs_meta \<Rightarrow> store_scan \<Rightarrow> store_scan result" where
  "scan_entry name m s =
     (if name = ''instance.json'' then
        and_then (require_regular m) (\<lambda>_. Inr (s\<lparr>sc_exported := Some m\<rparr>))
      else if is_temp_name name then
        and_then (require_regular m) (\<lambda>_. Inr (put_temp m s))
      else
        and_then (ok_or (parse_revision name) store_corrupt) (\<lambda>r.
        and_then (require_regular m) (\<lambda>_. Inr (put_revision r m s))))"

fun scan_names :: "nat \<Rightarrow> string option list \<Rightarrow> store_scan \<Rightarrow> store_scan result prog" where
  "scan_names count [] s = Done (Inr s)"
| "scan_names count (e # es) s =
     then_do (Done (ensure (count < max_entries) store_limit)) (\<lambda>_.
     then_do (Done (ok_or e store_io)) (\<lambda>name.
     then_do (Done (ensure (valid_utf8 name) store_corrupt)) (\<lambda>_.
     Ask (Stat name) (\<lambda>a.
       case a of
         Meta_Is m \<Rightarrow> then_do (Done (scan_entry name m s)) (scan_names (Suc count) es)
       | Err_Missing \<Rightarrow> if is_temp_name name then scan_names (Suc count) es s else Done (fail store_corrupt)
       | _ \<Rightarrow> Done (fail store_corrupt)))))"

text \<open>The files with public names.\<close>

definition published :: "store_scan \<Rightarrow> fs_meta list" where
  "published s = map snd (sort_key fst (sc_revisions s)) @ (case sc_exported s of None \<Rightarrow> [] | Some m \<Rightarrow> [m])"

definition temp_links_ok :: "store_scan \<Rightarrow> bool" where
  "temp_links_ok s \<longleftrightarrow>
     list_all (\<lambda>(i, links, actual). actual = links + length (filter (\<lambda>m. node_of m = i) (published s))) (sc_temps s)"

definition links_ok :: "store_scan \<Rightarrow> bool" where
  "links_ok s \<longleftrightarrow>
     list_all (\<lambda>m. fm_links m = 1 + (case map_of (sc_temps s) (node_of m) of None \<Rightarrow> 0 | Some (n, _) \<Rightarrow> n))
       (published s)"

definition check_scan :: "store_scan \<Rightarrow> unit result" where
  "check_scan s =
     and_then (ensure (temp_links_ok s) store_unsafe) (\<lambda>_.
     and_then (ensure (sort (map fst (sc_revisions s)) = [1..<Suc (length (sc_revisions s))]) store_corrupt) (\<lambda>_.
     ensure (links_ok s) store_unsafe))"

definition last_revision :: "store_scan \<Rightarrow> (nat \<times> fs_meta) option" where
  "last_revision s =
     (if sc_revisions s = [] then None else Some (last (sort_key fst (sc_revisions s))))"

text \<open>The guarded read of the last one.\<close>

definition read_checkpoint :: "nat \<Rightarrow> nat \<Rightarrow> fs_meta \<Rightarrow> checkpoint result prog" where
  "read_checkpoint limit revision m =
     (let name = revision_name revision; i = identity_of m in
      then_do (Done (ensure (fm_len m \<le> limit) store_limit)) (\<lambda>_.
      then_do (syscall (Open_Read name) (handle_or store_unsafe)) (\<lambda>h.
      then_do (syscall (Handle_Meta h) (meta_or store_io)) (\<lambda>opened.
      then_do (Done (ensure (identity_of opened = i) store_corrupt)) (\<lambda>_.
      then_do (syscall (Read_All h limit) (bytes_or store_io)) (\<lambda>raw.
      then_do (Done (ensure (length raw \<le> max_bytes \<and> length raw = fm_len m) store_corrupt)) (\<lambda>_.
      then_do (syscall (Handle_Meta h) (meta_or store_io)) (\<lambda>after.
      then_do (Done (ensure (identity_of after = i) store_corrupt)) (\<lambda>_.
      then_do (syscall (Stat name) (meta_or store_corrupt)) (\<lambda>visible.
      then_do (Done (ensure (identity_of visible = i) store_corrupt)) (\<lambda>_.
      Done (Inr \<lparr>cp_revision = revision, cp_identity = i, cp_raw = raw\<rparr>))))))))))))"

definition latest_bounded :: "nat \<Rightarrow> checkpoint option result prog" where
  "latest_bounded limit =
     then_do (syscall Entries (names_or store_io)) (\<lambda>es.
     then_do (scan_names 0 es no_scan) (\<lambda>s.
     then_do (Done (check_scan s)) (\<lambda>_.
     case last_revision s of
       None \<Rightarrow> Done (Inr None)
     | Some (r, m) \<Rightarrow> then_do (read_checkpoint limit r m) (\<lambda>c. Done (Inr (Some c))))))"

definition latest :: "checkpoint option result prog" where
  "latest = latest_bounded max_bytes"

section \<open>The operations of a store\<close>

definition open_at :: "names \<Rightarrow> nat \<Rightarrow> store result prog" where
  "open_at p limit =
     then_do (syscall (Path_Stat p) (meta_or store_io)) (\<lambda>before.
     then_do (Done (require_directory before)) (\<lambda>_.
     then_do (syscall (Path_Open p) (unit_or store_unsafe)) (\<lambda>_.
     then_do (syscall Own_Meta (meta_or store_io)) (\<lambda>after.
     then_do (Done (ensure (same_inode (identity_of before) after) store_unsafe)) (\<lambda>_.
     then_do (Done (require_directory after)) (\<lambda>_.
     let s = \<lparr>sto_path = path_text p, sto_identity = identity_of after, sto_loaded = None\<rparr> in
     then_do (ensure_anchor s) (\<lambda>_.
     then_do (latest_bounded (min limit max_bytes)) (\<lambda>c. Done (Inr (s\<lparr>sto_loaded := c\<rparr>))))))))))"

definition open_bounded :: "string \<Rightarrow> nat \<Rightarrow> store result prog" where
  "open_bounded path limit =
     then_do (parent_anchor False path) (\<lambda>(parent, name). open_at (parent @ [name]) limit)"

definition open_store :: "string \<Rightarrow> store result prog" where
  "open_store path = open_bounded path max_bytes"

definition create_store :: "string \<Rightarrow> store result prog" where
  "create_store path =
     then_do (parent_anchor True path) (\<lambda>(parent, name).
     let p = parent @ [name] in
     then_do (syscall (Path_Mkdir p) (\<lambda>a.
        case a of Done_Ok \<Rightarrow> Inr () | Err_Exists \<Rightarrow> fail ''SETUP_STATE_EXISTS'' | _ \<Rightarrow> fail store_io)) (\<lambda>_.
     then_do (syscall (Path_Sync parent) (unit_or store_io)) (\<lambda>_.
     open_store (path_text p))))"

definition read_bounded :: "store \<Rightarrow> nat \<Rightarrow> bytes option result prog" where
  "read_bounded s limit =
     then_do (ensure_anchor s) (\<lambda>_.
     then_do (latest_bounded (min limit max_bytes)) (\<lambda>current.
     then_do (Done (compare_loaded (sto_loaded s) current)) (\<lambda>_.
     Done (Inr (map_option cp_raw current)))))"

definition read_store :: "store \<Rightarrow> bytes option result prog" where
  "read_store s = read_bounded s max_bytes"

definition loaded_revision :: "checkpoint option \<Rightarrow> nat" where
  "loaded_revision c = (case c of None \<Rightarrow> 0 | Some c \<Rightarrow> cp_revision c)"

definition require_capacity :: "store \<Rightarrow> nat \<Rightarrow> unit result prog" where
  "require_capacity s revisions =
     then_do (read_store s) (\<lambda>_.
     Done (ensure (loaded_revision (sto_loaded s) + revisions \<le> max_revisions) store_limit))"

definition current_for_save :: "store \<Rightarrow> checkpoint option result prog" where
  "current_for_save s = bind_prog latest (\<lambda>r.
     case r of
       Inr c \<Rightarrow> Done (Inr c)
     | Inl e \<Rightarrow> Ask (Stat (revision_name (loaded_revision (sto_loaded s) + 1))) (\<lambda>a.
         case a of Meta_Is _ \<Rightarrow> Done (fail ''SETUP_CONFLICT'') | _ \<Rightarrow> Done (Inl e)))"

text \<open>From the complete private file to the verified revision: what \<open>self.loaded\<close> becomes.\<close>

definition save_revision :: "store \<Rightarrow> bytes \<Rightarrow> nat \<Rightarrow> string \<Rightarrow> file_identity \<Rightarrow> checkpoint option result prog" where
  "save_revision s raw revision temp i =
     (let name = revision_name revision in
      then_do (ensure_anchor s) (\<lambda>_.
      then_do (current_for_save s) (\<lambda>again.
      then_do (Done (compare_loaded (sto_loaded s) again)) (\<lambda>_.
      then_do (publish temp i name ''SETUP_CONFLICT'') (\<lambda>_.
      then_do latest (\<lambda>current.
      then_do (Done (ok_or current store_corrupt)) (\<lambda>c.
      then_do (Done (ensure (cp_revision c = revision \<and> cp_raw c = raw) store_corrupt)) (\<lambda>_.
      then_do (syscall (Stat name) (meta_or store_io)) (\<lambda>m.
      then_do (Done (ensure (same_inode i m) store_corrupt)) (\<lambda>_.
      Done (Inr current)))))))))))"

text \<open>\<open>save\<close> gives the result and the store, which an error may leave with the new checkpoint.\<close>

definition adopt :: "store \<Rightarrow> checkpoint option result \<Rightarrow> (unit result \<times> store) prog" where
  "adopt s r =
     (case r of
        Inl e \<Rightarrow> Done (Inl e, s)
      | Inr c \<Rightarrow> (let s' = s\<lparr>sto_loaded := c\<rparr> in bind_prog (ensure_anchor s') (\<lambda>u. Done (u, s'))))"

text \<open>Up to the complete private file for the next revision.\<close>

definition prepare_revision :: "bytes \<Rightarrow> checkpoint option \<Rightarrow> (nat \<times> string \<times> file_identity) result prog" where
  "prepare_revision raw current =
     (let revision = loaded_revision current + 1 in
      then_do (Done (ensure (revision \<le> max_revisions) store_limit)) (\<lambda>_.
      then_do (pending_create raw) (\<lambda>(temp, i). Done (Inr (revision, temp, i)))))"

definition save_store :: "store \<Rightarrow> bytes \<Rightarrow> (unit result \<times> store) prog" where
  "save_store s raw = bind_prog
     (then_do (Done (check_size raw)) (\<lambda>_.
      then_do (ensure_anchor s) (\<lambda>_.
      then_do (current_for_save s) (\<lambda>current.
      then_do (Done (compare_loaded (sto_loaded s) current)) (\<lambda>_.
      prepare_revision raw current)))))
     (\<lambda>r. case r of
        Inl e \<Rightarrow> Done (Inl e, s)
      | Inr (revision, temp, i) \<Rightarrow>
          with_drop (remove_private temp i)
            (bind_prog (save_revision s raw revision temp i) (adopt s)))"

text \<open>\<open>write_new\<close>: the same publication of one output under a name of its own.\<close>

definition check_parent :: "string \<Rightarrow> file_identity \<Rightarrow> unit result prog" where
  "check_parent path i =
     then_do (parent_anchor False path) (\<lambda>(parent, _).
     then_do (syscall (Path_Meta parent) (meta_or store_io)) (\<lambda>m.
     Done (ensure (same_inode i m) store_unsafe)))"

text \<open>With the complete private file: the parent is still the same, and so is the published file.\<close>

definition publish_output :: "string \<Rightarrow> string \<Rightarrow> file_identity \<Rightarrow> string \<Rightarrow> file_identity \<Rightarrow> unit result prog" where
  "publish_output full name pid temp i =
     then_do (check_parent full pid) (\<lambda>_.
     then_do (publish temp i name ''OUTPUT_EXISTS'') (\<lambda>_.
     then_do (parent_anchor False full) (\<lambda>(parent, _).
     then_do (syscall (Stat name) (meta_or store_unsafe)) (\<lambda>visible.
     then_do (syscall (Path_Meta parent) (meta_or store_io)) (\<lambda>m.
     Done (ensure (\<not> (\<not> same_inode pid m \<or> \<not> same_inode i visible)) store_unsafe))))))"

definition write_new :: "string \<Rightarrow> bytes \<Rightarrow> unit result prog" where
  "write_new path raw =
     then_do (Done (check_size raw)) (\<lambda>_.
     then_do (parent_anchor False path) (\<lambda>(parent, name).
     then_do (syscall (Path_Meta parent) (meta_or store_io)) (\<lambda>m.
     then_do (syscall (Stat name) (\<lambda>a. case a of Meta_Is _ \<Rightarrow> fail ''OUTPUT_EXISTS'' | _ \<Rightarrow> Inr ())) (\<lambda>_.
     then_do (pending_create raw) (\<lambda>(temp, i).
     with_drop (remove_private temp i)
       (publish_output (path_text (parent @ [name])) name (identity_of m) temp i))))))"

end
