(* ===== verification/StoreRuns.thy ===== *)
theory StoreRuns
  imports SetupStore
begin

text \<open>
  What the calls of the checkpoint store do in its directory, one writer on its own, and any
  number of writers whose calls interleave: each is a session that opens the store and then
  saves, reads and exports; a session that is interrupted or killed takes no further step.

  The directory maps names to files; a file carries its link count. An environment decides for
  each call whether it fails, the time, the identity of a new file, and what the calls outside
  this directory answer. A call that fails has no effect, a failing write a partial one. New
  files get their mode exactly (the process mask leaves 0600 alone).
\<close>

section \<open>The directory\<close>

record snode =
  sn_regular :: bool
  sn_mode :: nat
  sn_links :: nat
  sn_modified :: "int \<times> int"
  sn_content :: bytes

record sdir =
  sd_names :: "(string \<times> node_id) list"
  sd_nodes :: "node_id \<Rightarrow> snode"

record env =
  ev_fault :: "nat option"
  ev_now :: "int \<times> int"
  ev_fresh :: node_id
  ev_other :: answer

definition lookup :: "sdir \<Rightarrow> string \<Rightarrow> node_id option" where
  "lookup d n = map_of (sd_names d) n"

definition node_meta :: "sdir \<Rightarrow> node_id \<Rightarrow> fs_meta" where
  "node_meta d i = (let f = sd_nodes d i in
     \<lparr>fm_dir = \<not> sn_regular f, fm_regular = sn_regular f, fm_links = sn_links f, fm_device = fst i,
      fm_inode = snd i, fm_len = length (sn_content f), fm_mode = sn_mode f, fm_modified = sn_modified f,
      fm_changed = (0, 0)\<rparr>)"

definition set_node :: "node_id \<Rightarrow> (snode \<Rightarrow> snode) \<Rightarrow> sdir \<Rightarrow> sdir" where
  "set_node i f d = d\<lparr>sd_nodes := (sd_nodes d)(i := f (sd_nodes d i))\<rparr>"

definition append_file :: "node_id \<Rightarrow> (int \<times> int) \<Rightarrow> bytes \<Rightarrow> sdir \<Rightarrow> sdir" where
  "append_file i t raw = set_node i (\<lambda>f. f\<lparr>sn_content := sn_content f @ raw, sn_modified := t\<rparr>)"

definition new_file :: "string \<Rightarrow> node_id \<Rightarrow> (int \<times> int) \<Rightarrow> sdir \<Rightarrow> sdir" where
  "new_file n i t d =
     set_node i (\<lambda>_. \<lparr>sn_regular = True, sn_mode = 33152, sn_links = 1, sn_modified = t, sn_content = []\<rparr>)
       (d\<lparr>sd_names := sd_names d @ [(n, i)]\<rparr>)"

definition link_file :: "string \<Rightarrow> node_id \<Rightarrow> sdir \<Rightarrow> sdir" where
  "link_file n i d = set_node i (\<lambda>f. f\<lparr>sn_links := sn_links f + 1\<rparr>) (d\<lparr>sd_names := sd_names d @ [(n, i)]\<rparr>)"

definition unlink_file :: "string \<Rightarrow> node_id \<Rightarrow> sdir \<Rightarrow> sdir" where
  "unlink_file n i d =
     set_node i (\<lambda>f. f\<lparr>sn_links := sn_links f - 1\<rparr>) (d\<lparr>sd_names := filter (\<lambda>x. fst x \<noteq> n) (sd_names d)\<rparr>)"

fun perform_ok :: "env \<Rightarrow> call \<Rightarrow> sdir \<Rightarrow> answer \<times> sdir" where
  "perform_ok e Entries d = (Names_Are (map (\<lambda>x. Some (fst x)) (sd_names d)), d)"
| "perform_ok e (Stat n) d =
     (case lookup d n of None \<Rightarrow> (Err_Missing, d) | Some i \<Rightarrow> (Meta_Is (node_meta d i), d))"
| "perform_ok e (Open_Read n) d =
     (case lookup d n of None \<Rightarrow> (Err_Missing, d) | Some i \<Rightarrow> (Handle_Is i, d))"
| "perform_ok e (Handle_Meta i) d = (Meta_Is (node_meta d i), d)"
| "perform_ok e (Read_All i k) d = (Bytes_Are (take k (sn_content (sd_nodes d i))), d)"
| "perform_ok e (Create_New n) d =
     (if lookup d n \<noteq> None then (Err_Exists, d)
      else (Handle_Is (ev_fresh e), new_file n (ev_fresh e) (ev_now e) d))"
| "perform_ok e (Write_All i raw) d = (Done_Ok, append_file i (ev_now e) raw d)"
| "perform_ok e (Sync_File i) d = (Done_Ok, d)"
| "perform_ok e Sync_Dir d = (Done_Ok, d)"
| "perform_ok e (Hard_Link a b) d =
     (case lookup d a of
        None \<Rightarrow> (Err_Missing, d)
      | Some i \<Rightarrow> if lookup d b \<noteq> None then (Err_Exists, d) else (Done_Ok, link_file b i d))"
| "perform_ok e (Remove n) d =
     (case lookup d n of None \<Rightarrow> (Err_Missing, d) | Some i \<Rightarrow> (Done_Ok, unlink_file n i d))"
| "perform_ok e _ d = (ev_other e, d)"

definition perform :: "env \<Rightarrow> call \<Rightarrow> sdir \<Rightarrow> answer \<times> sdir" where
  "perform e c d =
     (case ev_fault e of
        None \<Rightarrow> perform_ok e c d
      | Some k \<Rightarrow>
          (case c of
             Write_All i raw \<Rightarrow> (Err_IO, append_file i (ev_now e) (take k raw) d)
           | Entries \<Rightarrow>
               (if k = 0 then (Err_IO, d)
                else (Names_Are (map (\<lambda>x. Some (fst x)) (take (k - 1) (sd_names d)) @ [None]), d))
           | _ \<Rightarrow> (Err_IO, d)))"

section \<open>One program on its own\<close>

primrec run_alone :: "(call \<Rightarrow> sdir \<Rightarrow> env) \<Rightarrow> 'a prog \<Rightarrow> sdir \<Rightarrow> 'a \<times> sdir" where
  "run_alone E (Done x) d = (x, d)"
| "run_alone E (Ask c k) d = (case perform (E c d) c d of (a, d') \<Rightarrow> run_alone E (k a) d')"

section \<open>Sessions and their interleavings\<close>

datatype store_op = Save_Op bytes | Read_Op | Capacity_Op nat | Export_Op bytes

datatype report = Saved nat bytes | Was_Read "bytes option" | Capacity | Exported | Refused bxdl_error

definition export_path :: "store \<Rightarrow> string" where
  "export_path s = sto_path s @ ''/instance.json''"

definition report_of :: "('a \<Rightarrow> report) \<Rightarrow> 'a result \<Rightarrow> report" where
  "report_of f r = (case r of Inl e \<Rightarrow> Refused e | Inr x \<Rightarrow> f x)"

fun run_ops :: "store \<Rightarrow> store_op list \<Rightarrow> report list \<Rightarrow> report list prog" where
  "run_ops s [] rs = Done rs"
| "run_ops s (Save_Op raw # ops) rs = bind_prog (save_store s raw) (\<lambda>(r, s').
     run_ops s' ops (report_of (\<lambda>_. Saved (loaded_revision (sto_loaded s')) raw) r # rs))"
| "run_ops s (Read_Op # ops) rs = bind_prog (read_store s) (\<lambda>r. run_ops s ops (report_of Was_Read r # rs))"
| "run_ops s (Capacity_Op n # ops) rs =
     bind_prog (require_capacity s n) (\<lambda>r. run_ops s ops (report_of (\<lambda>_. Capacity) r # rs))"
| "run_ops s (Export_Op raw # ops) rs =
     bind_prog (write_new (export_path s) raw) (\<lambda>r. run_ops s ops (report_of (\<lambda>_. Exported) r # rs))"

definition session :: "string \<Rightarrow> store_op list \<Rightarrow> report list prog" where
  "session path ops = bind_prog (open_store path) (\<lambda>r.
     case r of Inl e \<Rightarrow> Done [Refused e] | Inr s \<Rightarrow> run_ops s ops [])"

text \<open>What the environment may do: new files are new, and a stamp has the width of its parts.\<close>

definition env_ok :: "env \<Rightarrow> sdir \<Rightarrow> bool" where
  "env_ok e d \<longleftrightarrow> ev_fresh e \<notin> snd ` set (sd_names d) \<and>
     (\<forall>p s t. ev_other e = Stamp_Is p s t \<longrightarrow> p \<le> u32_max \<and> s \<le> u64_max \<and> t < 16 ^ 32)"

type_synonym system = "sdir \<times> report list prog list"

inductive store_step :: "system \<Rightarrow> system \<Rightarrow> bool" where
  start: "store_step (d, ps) (d, ps @ [session path ops])"
| call: "i < length ps \<Longrightarrow> ps ! i = Ask c k \<Longrightarrow> env_ok e d \<Longrightarrow> perform e c d = (a, d') \<Longrightarrow>
     store_step (d, ps) (d', ps[i := k a])"

abbreviation store_steps :: "system \<Rightarrow> system \<Rightarrow> bool" where
  "store_steps \<equiv> store_step\<^sup>*\<^sup>*"

end
