(* ===== verification/StoreProto.thy ===== *)
theory StoreProto
  imports StoreRuns
begin

text \<open>
  A logic for the programs of the checkpoint store: a ghost state says which private file a
  session holds, how many revisions it has seen, which it has published, and which byte strings it
  was asked to save (only those may become revisions, and only whole); \<open>proto\<close> says that every
  call of a program is allowed in its ghost state and what holds of the results. Every operation
  and every session follows the protocol. The first section is about the names of the store.
\<close>

section \<open>Names\<close>

lemma padded_digits: "list_all is_digit s \<Longrightarrow> list_all is_digit (padded k s)"
  by (auto simp: padded_def list_all_iff is_digit_def)

lemma length_padded: "length s \<le> k \<Longrightarrow> length (padded k s) = k"
  by (simp add: padded_def)

lemma read_padded [simp]: "read_radix b (padded k s) = read_radix b s"
  by (simp add: padded_def)

lemma revision_digits: "r \<le> max_revisions \<Longrightarrow> length (padded 8 (show_radix 10 r)) = 8"
  using length_show_radix_le [of 10 r 8] by (simp add: length_padded max_revisions_def)

lemma strip_suffix_append: "strip_suffix p (s @ p) = Some s"
  by simp

lemma parse_revision_name:
  assumes "1 \<le> r" "r \<le> max_revisions"
  shows "parse_revision (revision_name r) = Some r"
proof -
  let ?ds = "padded 8 (show_radix 10 r)"
  have ds: "length ?ds = 8" "list_all is_digit ?ds"
    using revision_digits [OF assms(2)] padded_digits [OF show_radix_is_digit] by blast+
  then have "?ds \<noteq> []" by force
  then have "parse_uint 10 u32_max ?ds = Some r"
    using assms(2) by (simp add: parse_uint_digits [OF ds(2)] max_revisions_def)
  then show ?thesis using assms ds by (simp add: parse_revision_def revision_name_def strip_suffix_append)
qed

lemma parse_revision_Some:
  assumes "parse_revision n = Some r"
  shows "n = revision_name r \<and> 1 \<le> r \<and> r \<le> max_revisions"
proof -
  obtain ds where ds: "n = ''revision'' @ ds @ ''.json''" "length ds = 8" "list_all is_digit ds"
      "parse_uint 10 u32_max ds = Some r" "1 \<le> r" "r \<le> max_revisions"
    using assms by (auto simp: parse_revision_def bind_eq_Some_conv split: if_splits)
  then have "ds \<noteq> []" by force
  then have "read_radix 10 ds = r" using ds by (simp add: parse_uint_digits split: if_splits)
  then have "ds = padded 8 (show_radix 10 r)"
    using ds revision_digits [OF ds(6)] padded_digits [OF show_radix_is_digit]
    by (intro read_radix_inj) simp_all
  then show ?thesis using ds by (simp add: revision_name_def)
qed

lemma revision_name_inj:
  "1 \<le> r \<Longrightarrow> r \<le> max_revisions \<Longrightarrow> 1 \<le> s \<Longrightarrow> s \<le> max_revisions \<Longrightarrow> revision_name r = revision_name s \<longleftrightarrow> r = s"
  by (metis option.inject parse_revision_name)

lemma temp_not_public [simp]:
  "\<not> is_temp_name ''instance.json''" "\<not> is_temp_name (revision_name r)"
  by (simp_all add: is_temp_name_def revision_name_def)

lemma instance_not_revision [simp]:
  "parse_revision ''instance.json'' = None" "revision_name r \<noteq> ''instance.json''" "''instance.json'' \<noteq> revision_name r"
  by (simp_all add: parse_revision_def revision_name_def)

lemma temp_not_revision [simp]: "is_temp_name n \<Longrightarrow> parse_revision n = None"
  using parse_revision_Some temp_not_public by (metis not_None_eq)

lemma hex_digit_char: "d < 16 \<Longrightarrow> is_hexdigit (digit_char d)"
  by (auto simp: is_hexdigit_def is_lower_hex_def digit_char_def is_digit_def)

lemma no_dash: "list_all is_digit s \<Longrightarrow> CHR ''-'' \<notin> set s" "list_all is_hexdigit s \<Longrightarrow> CHR ''-'' \<notin> set s"
  by (auto simp: list_all_iff is_digit_def is_hexdigit_def is_lower_hex_def)

lemma is_temp_name_temp:
  assumes "p \<le> u32_max" "s \<le> u64_max" "t < 16 ^ 32"
  shows "is_temp_name (temp_name p s t)"
proof -
  let ?h = "padded 32 (show_radix 16 t)"
  have "list_all is_hexdigit (show_radix 16 t)"
    using show_radix_digits [of 16 _ t] hex_digit_char by (fastforce simp: list_all_iff)
  then have h: "list_all is_hexdigit ?h" "length ?h = 32"
    using length_show_radix_le [of 16 t 32] assms(3)
    by (auto simp: padded_def list_all_iff is_hexdigit_def is_lower_hex_def is_digit_def)
  note n = no_dash(1) [OF show_radix_is_digit]
  have "split_on (CHR ''-'') (show_radix 10 p @ ''-'' @ show_radix 10 s @ ''-'' @ ?h) =
      [show_radix 10 p, show_radix 10 s, ?h]"
    using split_on_append [OF n] split_on_no_sep [OF no_dash(2) [OF h(1)]] by simp
  then show ?thesis
    using assms(1,2) h by (simp add: is_temp_name_def temp_name_def parse_uint_digits [OF show_radix_is_digit])
qed

section \<open>A logic for the programs\<close>

text \<open>
  The private file of a session: empty, partly written, complete, also published, or published
  with its private name gone.
\<close>

datatype hold =
    Free
  | Making string node_id
  | Broken string node_id
  | Ready string node_id bytes
  | Linked string node_id
  | Released node_id

record ghost =
  gh_hold :: hold
  gh_seen :: nat
  gh_won :: "(nat \<times> bytes) list"
  gh_asked :: "bytes set"

fun held :: "hold \<Rightarrow> (string \<times> node_id) option" where
  "held (Making n i) = Some (n, i)"
| "held (Broken n i) = Some (n, i)"
| "held (Ready n i raw) = Some (n, i)"
| "held (Linked n i) = Some (n, i)"
| "held _ = None"

definition seen_in :: "string option list \<Rightarrow> nat" where
  "seen_in es = Max (insert 0 ((\<lambda>e. case Option.bind e parse_revision of None \<Rightarrow> 0 | Some r \<Rightarrow> r) ` set es))"

lemma seen_in_ge: "Some n \<in> set es \<Longrightarrow> parse_revision n = Some r \<Longrightarrow> r \<le> seen_in es"
  unfolding seen_in_def by (intro Max_ge) (auto simp: image_iff intro!: bexI [of _ "Some n"])

lemma seen_in_le: "(\<And>n r. Some n \<in> set es \<Longrightarrow> parse_revision n = Some r \<Longrightarrow> r \<le> k) \<Longrightarrow> seen_in es \<le> k"
  unfolding seen_in_def by (auto split: option.splits bind_splits)

definition allowed :: "ghost \<Rightarrow> call \<Rightarrow> bool" where
  "allowed g c =
     (case c of
        Create_New n \<Rightarrow> is_temp_name n
      | Write_All h raw \<Rightarrow> (\<exists>n. gh_hold g = Making n h) \<and> length raw \<le> max_bytes
      | Hard_Link a b \<Rightarrow> (\<exists>h raw. gh_hold g = Ready a h raw \<and>
          (b = ''instance.json'' \<or>
           raw \<in> gh_asked g \<and> (\<exists>r. 1 \<le> r \<and> r \<le> Suc (gh_seen g) \<and> r \<le> max_revisions \<and> b = revision_name r)))
      | Remove n \<Rightarrow> (\<exists>h. held (gh_hold g) = Some (n, h))
      | _ \<Rightarrow> True)"

text \<open>What a ghost state knows about an answer.\<close>

definition plausible :: "ghost \<Rightarrow> call \<Rightarrow> answer \<Rightarrow> bool" where
  "plausible g c a =
     (case (c, a) of
        (Stat n, Meta_Is m) \<Rightarrow> (case gh_hold g of Released h \<Rightarrow> is_temp_name n \<longrightarrow> node_of m \<noteq> h | _ \<Rightarrow> True)
      | (Handle_Meta h, Meta_Is m) \<Rightarrow> node_of m = h
      | (Clock, Stamp_Is p s t) \<Rightarrow> p \<le> u32_max \<and> s \<le> u64_max \<and> t < 16 ^ 32
      | _ \<Rightarrow> True)"

definition after :: "ghost \<Rightarrow> call \<Rightarrow> answer \<Rightarrow> ghost" where
  "after g c a =
     (case (c, a) of
        (Entries, Names_Are es) \<Rightarrow> g\<lparr>gh_seen := max (gh_seen g) (seen_in es)\<rparr>
      | (Create_New n, Handle_Is h) \<Rightarrow> g\<lparr>gh_hold := Making n h\<rparr>
      | (Write_All h raw, _) \<Rightarrow>
          (case gh_hold g of
             Making n i \<Rightarrow> g\<lparr>gh_hold := if a = Done_Ok then Ready n i raw else Broken n i\<rparr>
           | _ \<Rightarrow> g)
      | (Hard_Link x b, Done_Ok) \<Rightarrow>
          (case gh_hold g of
             Ready n i raw \<Rightarrow>
               (case parse_revision b of
                  None \<Rightarrow> g\<lparr>gh_hold := Linked n i\<rparr>
                | Some r \<Rightarrow> g\<lparr>gh_hold := Linked n i, gh_seen := max (gh_seen g) r, gh_won := (r, raw) # gh_won g\<rparr>)
           | _ \<Rightarrow> g)
      | (Remove n, Done_Ok) \<Rightarrow>
          (case gh_hold g of Linked _ i \<Rightarrow> g\<lparr>gh_hold := Released i\<rparr> | _ \<Rightarrow> g\<lparr>gh_hold := Free\<rparr>)
      | _ \<Rightarrow> g)"

primrec proto :: "'a prog \<Rightarrow> ghost \<Rightarrow> (ghost \<Rightarrow> 'a \<Rightarrow> bool) \<Rightarrow> bool" where
  "proto (Done x) g Q \<longleftrightarrow> Q g x"
| "proto (Ask c k) g Q \<longleftrightarrow> allowed g c \<and> (\<forall>a. plausible g c a \<longrightarrow> proto (k a) (after g c a) Q)"

lemma proto_bind: "proto (bind_prog p f) g Q \<longleftrightarrow> proto p g (\<lambda>g x. proto (f x) g Q)"
  by (induction p arbitrary: g) auto

lemma proto_then: "proto (then_do p f) g Q \<longleftrightarrow>
    proto p g (\<lambda>g r. case r of Inl e \<Rightarrow> Q g (Inl e) | Inr x \<Rightarrow> proto (f x) g Q)"
  unfolding then_do_def proto_bind
  by (rule arg_cong [of _ _ "proto p g"]) (auto simp: fun_eq_iff split: sum.splits)

lemma proto_syscall: "proto (syscall c f) g Q \<longleftrightarrow>
    allowed g c \<and> (\<forall>a. plausible g c a \<longrightarrow> Q (after g c a) (f a))"
  by (simp add: syscall_def)

lemma proto_mono: "proto p g Q \<Longrightarrow> (\<And>g x. Q g x \<Longrightarrow> R g x) \<Longrightarrow> proto p g R"
  by (induction p arbitrary: g) auto

lemmas proto_simps = proto_then proto_bind proto_syscall

text \<open>Calls that only look, and change nothing of what the ghost state knows.\<close>

definition looks :: "call \<Rightarrow> bool" where
  "looks c = (case c of Entries \<Rightarrow> False | Create_New _ \<Rightarrow> False | Write_All _ _ \<Rightarrow> False |
     Hard_Link _ _ \<Rightarrow> False | Remove _ \<Rightarrow> False | _ \<Rightarrow> True)"

lemma looks_quiet: "looks c \<Longrightarrow> allowed g c \<and> after g c a = g"
  by (cases c) (auto simp: looks_def allowed_def after_def split: answer.splits)

primrec quiet_prog :: "'a prog \<Rightarrow> bool" where
  "quiet_prog (Done x) \<longleftrightarrow> True"
| "quiet_prog (Ask c k) \<longleftrightarrow> looks c \<and> (\<forall>a. quiet_prog (k a))"

lemma quiet_prog_bind [intro]: "quiet_prog p \<Longrightarrow> (\<And>x. quiet_prog (f x)) \<Longrightarrow> quiet_prog (bind_prog p f)"
  by (induction p) auto

lemma quiet_prog_then [intro]: "quiet_prog p \<Longrightarrow> (\<And>x. quiet_prog (f x)) \<Longrightarrow> quiet_prog (then_do p f)"
  by (auto simp: then_do_def split: sum.splits)

lemma quiet_prog_syscall [simp]: "quiet_prog (syscall c f) \<longleftrightarrow> looks c"
  by (simp add: syscall_def)

text \<open>What a program may return, over all answers.\<close>

primrec returns :: "'a prog \<Rightarrow> 'a \<Rightarrow> bool" where
  "returns (Done x) y \<longleftrightarrow> x = y"
| "returns (Ask c k) y \<longleftrightarrow> (\<exists>a. returns (k a) y)"

lemma returns_bind [simp]: "returns (bind_prog p f) y \<longleftrightarrow> (\<exists>x. returns p x \<and> returns (f x) y)"
  by (induction p) auto

lemma returns_then [simp]:
  "returns (then_do p f) (Inr y) \<longleftrightarrow> (\<exists>x. returns p (Inr x) \<and> returns (f x) (Inr y))"
proof
  assume "returns (then_do p f) (Inr y)"
  then obtain r where r: "returns p r" "returns (case r of Inl e \<Rightarrow> Done (Inl e) | Inr x \<Rightarrow> f x) (Inr y)"
    by (auto simp: then_do_def)
  then show "\<exists>x. returns p (Inr x) \<and> returns (f x) (Inr y)" by (cases r) auto
qed (force simp: then_do_def)

lemma returns_syscall [simp]: "returns (syscall c f) y \<longleftrightarrow> (\<exists>a. f a = y)"
  by (simp add: syscall_def)

lemma quiet_proto: "quiet_prog p \<Longrightarrow> (\<And>x. returns p x \<Longrightarrow> Q g x) \<Longrightarrow> proto p g Q"
  by (induction p) (auto simp: looks_quiet)

lemma proto_then_quiet:
  assumes "quiet_prog p" "\<And>e. Q g (Inl e)" "\<And>x. returns p (Inr x) \<Longrightarrow> proto (f x) g Q"
  shows "proto (then_do p f) g Q"
  unfolding proto_then
proof (rule quiet_proto [OF assms(1)])
  fix r assume "returns p r"
  then show "case r of Inl e \<Rightarrow> Q g (Inl e) | Inr x \<Rightarrow> proto (f x) g Q"
    using assms(2,3) by (cases r) auto
qed

lemma proto_then_Done:
  assumes "\<And>e. Q g (Inl e)" "\<And>x. r = Inr x \<Longrightarrow> proto (f x) g Q"
  shows "proto (then_do (Done r) f) g Q"
  by (rule proto_then_quiet) (use assms in simp_all)

lemma proto_then_entries:
  assumes "\<And>e. Q g (Inl e)" "\<And>es. proto (f es) (g\<lparr>gh_seen := max (gh_seen g) (seen_in es)\<rparr>) Q"
  shows "proto (then_do (syscall Entries (names_or e)) f) g Q"
  unfolding proto_simps
proof (intro conjI allI impI)
  fix a
  show "case names_or e a of Inl e \<Rightarrow> Q (after g Entries a) (Inl e) | Inr x \<Rightarrow> proto (f x) (after g Entries a) Q"
    using assms by (cases a) (simp_all add: names_or_def after_def fail_def)
qed (simp add: allowed_def)

section \<open>Every operation follows the protocol\<close>

definition books :: "ghost \<Rightarrow> ghost \<Rightarrow> bool" where
  "books g g' \<longleftrightarrow> gh_won g' = gh_won g \<and> gh_asked g' = gh_asked g \<and> gh_seen g \<le> gh_seen g'"

definition later :: "ghost \<Rightarrow> ghost \<Rightarrow> bool" where
  "later g g' \<longleftrightarrow> books g g' \<and> gh_hold g' = gh_hold g"

definition owns :: "ghost \<Rightarrow> string \<Rightarrow> file_identity \<Rightarrow> bool" where
  "owns g temp i \<longleftrightarrow> is_temp_name temp \<and>
     (let h = (fi_device i, fi_inode i) in held (gh_hold g) = Some (temp, h) \<or> gh_hold g = Released h)"

definition public :: "ghost \<Rightarrow> bool" where
  "public g \<longleftrightarrow> (case gh_hold g of Linked _ _ \<Rightarrow> True | Released _ \<Rightarrow> True | _ \<Rightarrow> False)"

lemma books_refl [simp]: "books g g" "later g g"
  by (simp_all add: books_def later_def)

lemma later_books: "later g g' \<Longrightarrow> books g g'"
  by (simp add: later_def)

lemma later_trans: "later g h \<Longrightarrow> later h k \<Longrightarrow> later g k"
  by (auto simp: later_def books_def)

lemma books_trans: "books g h \<Longrightarrow> books h k \<Longrightarrow> books g k"
  by (auto simp: books_def)

lemma quiet_anchor_walk: "quiet_prog (anchor_walk c u ns)"
  by (induction c u ns rule: anchor_walk.induct)
    (auto simp: stat_or_create_def Let_def looks_def split: answer.splits intro!: quiet_prog_then)

lemma quiet_parent_anchor: "quiet_prog (parent_anchor c p)"
  unfolding parent_anchor_def
  by (intro quiet_prog_then) (auto simp: looks_def quiet_anchor_walk)

lemma quiet_ensure_anchor: "quiet_prog (ensure_anchor s)"
  unfolding ensure_anchor_def
  by (intro quiet_prog_then) (auto simp: looks_def quiet_parent_anchor intro!: quiet_prog_then)

lemma quiet_scan_names: "quiet_prog (scan_names k es s)"
  by (induction k es s rule: scan_names.induct) (auto simp: looks_def split: answer.splits intro!: quiet_prog_then)

lemma quiet_read_checkpoint: "quiet_prog (read_checkpoint k r m)"
  unfolding read_checkpoint_def Let_def by (intro quiet_prog_then) (auto simp: looks_def)

lemma scan_names_revisions:
  "returns (scan_names k es s) (Inr s') \<Longrightarrow> r \<in> fst ` set (sc_revisions s') \<Longrightarrow>
     r \<in> fst ` set (sc_revisions s) \<or> (\<exists>n. Some n \<in> set es \<and> parse_revision n = Some r)"
proof (induction es arbitrary: k s)
  case (Cons e es)
  have step: "fst ` set (sc_revisions s1) \<subseteq> fst ` set (sc_revisions s) \<union> {r. parse_revision n = Some r}"
    if "scan_entry n m s = Inr s1" for n m s1
    using that by (auto simp: scan_entry_def put_revision_def put_temp_def split: if_splits option.splits)
  obtain n a where na: "e = Some n" "returns (case a of
        Meta_Is m \<Rightarrow> then_do (Done (scan_entry n m s)) (scan_names (Suc k) es)
      | Err_Missing \<Rightarrow> if is_temp_name n then scan_names (Suc k) es s else Done (fail store_corrupt)
      | _ \<Rightarrow> Done (fail store_corrupt)) (Inr s')"
    using Cons.prems(1) by auto
  then obtain s1 where n: "e = Some n" "returns (scan_names (Suc k) es s1) (Inr s')"
    "s1 = s \<or> (\<exists>m. scan_entry n m s = Inr s1)"
    by (cases a) (auto split: if_splits)
  have "fst ` set (sc_revisions s1) \<subseteq> fst ` set (sc_revisions s) \<union> {r. parse_revision n = Some r}"
    using n(3) step by blast
  with Cons.IH [OF n(2) Cons.prems(2)] n(1) show ?case by auto
qed simp

lemma last_revision_in: "last_revision s = Some x \<Longrightarrow> x \<in> set (sc_revisions s)"
proof -
  assume x: "last_revision s = Some x"
  then have "sc_revisions s \<noteq> []" by (auto simp: last_revision_def)
  then have "sort_key fst (sc_revisions s) \<noteq> []" by (metis length_0_conv length_sort)
  moreover have "x = last (sort_key fst (sc_revisions s))"
    using x by (simp add: last_revision_def split: if_splits)
  ultimately show ?thesis using last_in_set by fastforce
qed

lemma proto_latest:
  assumes "\<And>g' r. later g g' \<Longrightarrow> (\<And>c. r = Inr (Some c) \<Longrightarrow> cp_revision c \<le> gh_seen g') \<Longrightarrow> Q g' r"
  shows "proto (latest_bounded k) g Q"
  unfolding latest_bounded_def
proof (rule proto_then_entries)
  show "Q g (Inl e)" for e using assms [of g "Inl e"] by simp
next
  fix es
  let ?g = "g\<lparr>gh_seen := max (gh_seen g) (seen_in es)\<rparr>"
  have l: "later g ?g" by (simp add: later_def books_def)
  note err = assms [OF l, of "Inl e" for e, simplified]
  show "proto (then_do (scan_names 0 es no_scan) (\<lambda>s. then_do (Done (check_scan s)) (\<lambda>_.
      case last_revision s of None \<Rightarrow> Done (Inr None)
      | Some (r, m) \<Rightarrow> then_do (read_checkpoint k r m) (\<lambda>c. Done (Inr (Some c)))))) ?g Q"
  proof (intro proto_then_quiet [OF quiet_scan_names] proto_then_quiet err)
    fix s u assume s: "returns (scan_names 0 es no_scan) (Inr s)"
    show "proto (case last_revision s of None \<Rightarrow> Done (Inr None)
        | Some (r, m) \<Rightarrow> then_do (read_checkpoint k r m) (\<lambda>c. Done (Inr (Some c)))) ?g Q"
    proof (cases "last_revision s")
      case None
      then show ?thesis using assms [OF l, of "Inr None"] by simp
    next
      case (Some rm)
      then obtain r m where rm: "last_revision s = Some (r, m)" by (cases rm) auto
      obtain n where "Some n \<in> set es" "parse_revision n = Some r"
        using scan_names_revisions [OF s, of r] last_revision_in [OF rm] by (force simp: no_scan_def)
      then have "r \<le> gh_seen ?g" using seen_in_ge by force
      moreover have "cp_revision c = r" if "returns (read_checkpoint k r m) (Inr c)" for c
        using that by (auto simp: read_checkpoint_def Let_def)
      ultimately show ?thesis
        using assms [OF l, of "Inr (Some _)"] err rm by (auto intro!: proto_then_quiet quiet_read_checkpoint)
    qed
  qed simp
qed

text \<open>A call whose answer is looked at once.\<close>

lemma proto_call:
  assumes "allowed g c"
    and "\<And>a x. plausible g c a \<Longrightarrow> h a = Inr x \<Longrightarrow> proto (f x) (after g c a) Q"
    and "\<And>a e. plausible g c a \<Longrightarrow> h a = Inl e \<Longrightarrow> Q (after g c a) (Inl e)"
  shows "proto (then_do (syscall c h) f) g Q"
  using assms by (auto simp: proto_simps split: sum.splits)

lemma proto_remove_private:
  assumes "owns g temp i"
    and "\<And>g' r. books g g' \<Longrightarrow> (public g \<Longrightarrow> public g' \<and> owns g' temp i) \<Longrightarrow> Q g' r"
  shows "proto (remove_private temp i) g Q"
proof -
  have same: "Q g r" for r using assms by auto
  have "proto (if same_inode i m then syscall (Remove temp) (unit_or store_io) else Done (fail store_unsafe)) g Q"
    if m: "plausible g (Stat temp) (Meta_Is m)" for m
  proof (cases "same_inode i m")
    case True
    then have "held (gh_hold g) = Some (temp, fi_device i, fi_inode i)"
      using assms(1) m by (auto simp: owns_def plausible_def same_inode_def Let_def)
    moreover have "Q (after g (Remove temp) a) r" for a r
      using assms same calculation
      by (cases a; cases "gh_hold g") (auto simp: after_def books_def public_def owns_def)
    ultimately show ?thesis using True by (auto simp: proto_simps allowed_def)
  qed (simp add: same)
  then show ?thesis
    using same unfolding remove_private_def
    by (auto simp: allowed_def after_def split: answer.splits)
qed

lemma proto_drop:
  assumes "proto p g (\<lambda>g' x. owns g' temp i \<and> (\<forall>g''. books g' g'' \<longrightarrow> Q g'' x))"
  shows "proto (with_drop (remove_private temp i) p) g Q"
  unfolding with_drop_def proto_bind
  by (rule proto_mono [OF assms]) (auto intro!: proto_remove_private)

lemma proto_pending_fill:
  assumes "gh_hold g = Making n h" "length raw \<le> max_bytes"
    and "\<And>u. Q (g\<lparr>gh_hold := Ready n h raw\<rparr>) (Inr u)"
    and "\<And>g' e. books g g' \<Longrightarrow> held (gh_hold g') = Some (n, h) \<Longrightarrow> Q g' (Inl e)"
  shows "proto (pending_fill h i raw) g Q"
  unfolding pending_fill_def
proof (rule proto_call)
  show "allowed g (Write_All h raw)" using assms(1,2) by (simp add: allowed_def)
next
  fix a e assume "unit_or store_io a = Inl e"
  then have "after g (Write_All h raw) a = g\<lparr>gh_hold := Broken n h\<rparr>"
    using assms(1) by (cases a) (auto simp: after_def unit_or_def)
  then show "Q (after g (Write_All h raw) a) (Inl e)" by (auto simp: books_def intro: assms(4))
next
  fix a u assume "unit_or store_io a = Inr u"
  then have a: "after g (Write_All h raw) a = g\<lparr>gh_hold := Ready n h raw\<rparr>"
    using assms(1) by (cases a) (auto simp: after_def unit_or_def)
  have err: "Q (g\<lparr>gh_hold := Ready n h raw\<rparr>) (Inl e)" for e by (rule assms(4)) (auto simp: books_def)
  show "proto (then_do (syscall (Sync_File h) (unit_or store_io)) (\<lambda>_.
      then_do (syscall (Handle_Meta h) (meta_or store_io)) (\<lambda>m. then_do (Done (require_regular m)) (\<lambda>_.
      Done (ensure (\<not> (fm_links m \<noteq> 1 \<or> \<not> same_inode i m)) store_unsafe))))) (after g (Write_All h raw) a) Q"
    unfolding a
    by (intro proto_then_quiet err) (auto simp: looks_def ensure_def fail_def intro: err assms(3))
qed

lemma proto_pending_create:
  assumes "length raw \<le> max_bytes"
    and "\<And>n i. is_temp_name n \<Longrightarrow> Q (g\<lparr>gh_hold := Ready n (fi_device i, fi_inode i) raw\<rparr>) (Inr (n, i))"
    and "\<And>g' e. books g g' \<Longrightarrow> Q g' (Inl e)"
  shows "proto (pending_create raw) g Q"
proof -
  have fill: "proto (then_do (drop_on_error (remove_private n i) (pending_fill h i raw)) (\<lambda>_. Done (Inr (n, i)))) g' Q"
    if g': "g' = g\<lparr>gh_hold := Making n h\<rparr>" "is_temp_name n" "h = (fi_device i, fi_inode i)" for g' n h i
    unfolding proto_then drop_on_error_def proto_bind
  proof (rule proto_pending_fill [of _ n], goal_cases)
    case (3 u)
    then show ?case using g' assms(2) by simp
  next
    case (4 g'' e)
    then have b: "owns g'' n i" "books g g''" using g' by (auto simp: owns_def books_def)
    have "proto (remove_private n i) g'' (\<lambda>g r. Q g (Inl e))"
      by (rule proto_remove_private [OF b(1)]) (use b(2) books_trans assms(3) in blast)
    then show ?case by (simp add: proto_bind)
  qed (simp_all add: g' assms(1))
  have err: "Q g (Inl e)" for e using assms(3) by simp
  have create: "proto (then_do (syscall (Handle_Meta h) (meta_or store_io)) (\<lambda>m. let i = identity_of m in
      then_do (drop_on_error (remove_private n i) (pending_fill h i raw)) (\<lambda>_. Done (Inr (n, i))))) g' Q"
    if g': "g' = g\<lparr>gh_hold := Making n h\<rparr>" "is_temp_name n" for g' n h
  proof (rule proto_call)
    fix a m assume "plausible g' (Handle_Meta h) a" "meta_or store_io a = Inr m"
    then have "node_of m = h" by (cases a) (auto simp: meta_or_def plausible_def)
    then have "h = (fi_device (identity_of m), fi_inode (identity_of m))" by (simp add: identity_of_def)
    then show "proto (let i = identity_of m in then_do (drop_on_error (remove_private n i) (pending_fill h i raw))
        (\<lambda>_. Done (Inr (n, i)))) (after g' (Handle_Meta h) a) Q"
      using fill [OF g'] by (simp add: Let_def looks_quiet looks_def)
  qed (use g' assms(3) in \<open>auto simp: looks_quiet looks_def books_def\<close>)
  show ?thesis
    unfolding pending_create_def
  proof (rule proto_call)
    fix a n assume a: "plausible g Clock a" "(case a of Stamp_Is p s t \<Rightarrow> Inr (temp_name p s t) | _ \<Rightarrow> fail store_io) = Inr n"
    then have n: "is_temp_name n" using is_temp_name_temp by (cases a) (auto simp: plausible_def)
    show "proto (then_do (syscall (Create_New n) (handle_or store_io)) (\<lambda>h.
        then_do (syscall (Handle_Meta h) (meta_or store_io)) (\<lambda>m. let i = identity_of m in
        then_do (drop_on_error (remove_private n i) (pending_fill h i raw)) (\<lambda>_. Done (Inr (n, i)))))) (after g Clock a) Q"
    proof (rule proto_call)
      fix b h assume "handle_or store_io b = Inr h"
      then have "after (after g Clock a) (Create_New n) b = g\<lparr>gh_hold := Making n h\<rparr>"
        by (cases b) (auto simp: handle_or_def after_def)
      from create [OF this n] show "proto (then_do (syscall (Handle_Meta h) (meta_or store_io)) (\<lambda>m. let i = identity_of m in
          then_do (drop_on_error (remove_private n i) (pending_fill h i raw)) (\<lambda>_. Done (Inr (n, i)))))
          (after (after g Clock a) (Create_New n) b) Q" .
    next
      fix b e assume "handle_or store_io b = Inl e"
      then have "after (after g Clock a) (Create_New n) b = g"
        by (cases b) (auto simp: handle_or_def after_def)
      then show "Q (after (after g Clock a) (Create_New n) b) (Inl e)" using err by simp
    qed (use n in \<open>simp add: allowed_def\<close>)
  qed (use err in \<open>simp_all add: looks_quiet looks_def\<close>)
qed

lemma proto_publish:
  assumes h: "gh_hold g = Ready temp (fi_device i, fi_inode i) raw" "is_temp_name temp"
    and target: "target = ''instance.json'' \<or> raw \<in> gh_asked g \<and>
      (\<exists>r. 1 \<le> r \<and> r \<le> Suc (gh_seen g) \<and> r \<le> max_revisions \<and> target = revision_name r)"
    and q: "\<And>g' e. owns g' temp i \<Longrightarrow> books g g' \<Longrightarrow> Q g' (Inl e)"
    "\<And>g' u. owns g' temp i \<Longrightarrow> public g' \<Longrightarrow> gh_seen g \<le> gh_seen g' \<Longrightarrow> gh_asked g' = gh_asked g \<Longrightarrow>
       gh_won g' = (case parse_revision target of None \<Rightarrow> gh_won g | Some r \<Rightarrow> (r, raw) # gh_won g) \<Longrightarrow> Q g' u"
  shows "proto (publish temp i target conflict) g Q"
proof -
  have own: "owns g temp i" using h by (simp add: owns_def)
  have linked: "proto (then_do (syscall Sync_Dir (unit_or store_io)) (\<lambda>_.
      then_do (remove_private temp i) (\<lambda>_. syscall Sync_Dir (unit_or store_io)))) g' Q"
    if g': "g' = after g (Hard_Link temp target) Done_Ok" for g'
  proof -
    have p: "owns g' temp i" "public g'" "gh_seen g \<le> gh_seen g'" "gh_asked g' = gh_asked g"
      "gh_won g' = (case parse_revision target of None \<Rightarrow> gh_won g | Some r \<Rightarrow> (r, raw) # gh_won g)"
      using h by (auto simp: g' after_def owns_def public_def split: option.splits)
    have end': "Q g'' u" if "books g' g''" "public g''" "owns g'' temp i" for g'' u
      by (rule q(2)) (use that p in \<open>auto simp: books_def\<close>)
    show ?thesis
    proof (rule proto_then_quiet)
      show "proto (then_do (remove_private temp i) (\<lambda>_. syscall Sync_Dir (unit_or store_io))) g' Q"
        unfolding proto_then
      proof (rule proto_remove_private [OF p(1)])
        fix g'' r assume g'': "books g' g''" "public g' \<Longrightarrow> public g'' \<and> owns g'' temp i"
        then show "case r of Inl e \<Rightarrow> Q g'' (Inl e) | Inr x \<Rightarrow> proto (syscall Sync_Dir (unit_or store_io)) g'' Q"
          using end' p(2) by (auto simp: proto_simps looks_quiet looks_def split: sum.splits)
      qed
    qed (use end' p in \<open>auto simp: looks_def\<close>)
  qed
  have err: "Q g (Inl e)" for e using q(1) own by simp
  have link: "proto (then_do (syscall (Hard_Link temp target) (\<lambda>a.
        case a of Done_Ok \<Rightarrow> Inr () | Err_Exists \<Rightarrow> fail conflict | _ \<Rightarrow> fail store_io)) (\<lambda>_.
      then_do (syscall Sync_Dir (unit_or store_io)) (\<lambda>_.
      then_do (remove_private temp i) (\<lambda>_. syscall Sync_Dir (unit_or store_io))))) g Q"
  proof (rule proto_call)
    show "allowed g (Hard_Link temp target)" using h target by (auto simp: allowed_def)
  next
    fix a u assume "(case a of Done_Ok \<Rightarrow> Inr () | Err_Exists \<Rightarrow> fail conflict | _ \<Rightarrow> fail store_io) = Inr u"
    then have "a = Done_Ok" by (cases a) auto
    then show "proto (then_do (syscall Sync_Dir (unit_or store_io)) (\<lambda>_.
        then_do (remove_private temp i) (\<lambda>_. syscall Sync_Dir (unit_or store_io)))) (after g (Hard_Link temp target) a) Q"
      using linked by blast
  next
    fix a e assume "(case a of Done_Ok \<Rightarrow> Inr () | Err_Exists \<Rightarrow> fail conflict | _ \<Rightarrow> fail store_io) = Inl e"
    then have "after g (Hard_Link temp target) a = g" by (cases a) (auto simp: after_def)
    then show "Q (after g (Hard_Link temp target) a) (Inl e)" using err by simp
  qed
  show ?thesis
    unfolding publish_def by (intro proto_then_quiet link err) (auto simp: looks_def)
qed

lemma proto_then_later:
  assumes "\<And>R. (\<And>g' r. later g g' \<Longrightarrow> P g' r \<Longrightarrow> R g' r) \<Longrightarrow> proto p g R"
    and "\<And>g' e. later g g' \<Longrightarrow> Q g' (Inl e)"
    and "\<And>g' x. later g g' \<Longrightarrow> P g' (Inr x) \<Longrightarrow> proto (f x) g' Q"
  shows "proto (then_do p f) g Q"
  unfolding proto_then by (rule assms(1)) (use assms(2,3) in \<open>auto split: sum.splits\<close>)

abbreviation seen_current :: "ghost \<Rightarrow> checkpoint option result \<Rightarrow> bool" where
  "seen_current g r \<equiv> (\<forall>c. r = Inr c \<longrightarrow> loaded_revision c \<le> gh_seen g)"

lemma proto_latest':
  assumes "\<And>g' r. later g g' \<Longrightarrow> seen_current g' r \<Longrightarrow> Q g' r"
  shows "proto (latest_bounded k) g Q"
  by (rule proto_latest) (auto intro!: assms simp: loaded_revision_def split: option.splits)

lemma proto_current_for_save:
  assumes "\<And>g' r. later g g' \<Longrightarrow> seen_current g' r \<Longrightarrow> Q g' r"
  shows "proto (current_for_save s) g Q"
  unfolding current_for_save_def proto_bind latest_def
proof (rule proto_latest')
  fix g' r assume g': "later g g'" "seen_current g' r"
  show "proto (case r of
      Inr c \<Rightarrow> Done (Inr c)
    | Inl e \<Rightarrow> Ask (Stat (revision_name (loaded_revision (sto_loaded s) + 1))) (\<lambda>a.
        case a of Meta_Is _ \<Rightarrow> Done (fail ''SETUP_CONFLICT'') | _ \<Rightarrow> Done (Inl e))) g' Q"
  proof (cases r)
    case (Inl e)
    show ?thesis
      unfolding Inl sum.case
    proof (rule quiet_proto)
      fix x :: "checkpoint option result"
      assume "returns (Ask (Stat (revision_name (loaded_revision (sto_loaded s) + 1))) (\<lambda>a.
        case a of Meta_Is _ \<Rightarrow> Done (fail ''SETUP_CONFLICT'') | _ \<Rightarrow> Done (Inl e))) x"
      then obtain a where "returns (case a of Meta_Is _ \<Rightarrow> Done (fail ''SETUP_CONFLICT'') | _ \<Rightarrow> Done (Inl e)) x"
        by auto
      then have "\<exists>e. x = Inl e" by (cases a) (auto simp: fail_def)
      then show "Q g' x" using assms [OF g'(1)] by auto
    qed (auto simp: looks_def split: answer.splits)
  qed (use assms [OF g'] in simp)
qed

lemma owns_later: "later g g' \<Longrightarrow> owns g temp i \<Longrightarrow> owns g' temp i"
  by (simp add: later_def owns_def)

lemma proto_save_revision:
  assumes h: "gh_hold g = Ready temp (fi_device i, fi_inode i) raw" "is_temp_name temp"
    and r: "1 \<le> revision" "revision \<le> Suc (gh_seen g)" "revision \<le> max_revisions" "raw \<in> gh_asked g"
    and q: "\<And>g' r. owns g' temp i \<Longrightarrow> gh_asked g' = gh_asked g \<Longrightarrow> gh_won g' = gh_won g \<or> gh_won g' = (revision, raw) # gh_won g \<Longrightarrow>
      (\<And>c. r = Inr c \<Longrightarrow> loaded_revision c = revision \<and> gh_won g' = (revision, raw) # gh_won g) \<Longrightarrow> Q g' r"
  shows "proto (save_revision s raw revision temp i) g Q"
proof -
  have own: "owns g temp i" using h by (simp add: owns_def)
  have err: "Q g' (Inl e)" if "owns g' temp i" "gh_asked g' = gh_asked g"
      "gh_won g' = gh_won g \<or> gh_won g' = (revision, raw) # gh_won g" for g' e
    by (rule q) (use that in simp_all)
  have err': "Q g' (Inl e)" if "later g g'" for g' e
    by (rule err) (use owns_later [OF that own] that in \<open>auto simp: later_def books_def\<close>)
  have final: "proto (then_do latest (\<lambda>current.
      then_do (Done (ok_or current store_corrupt)) (\<lambda>c.
      then_do (Done (ensure (cp_revision c = revision \<and> cp_raw c = raw) store_corrupt)) (\<lambda>_.
      then_do (syscall (Stat (revision_name revision)) (meta_or store_io)) (\<lambda>m.
      then_do (Done (ensure (same_inode i m) store_corrupt)) (\<lambda>_. Done (Inr current))))))) g' Q"
    if g': "owns g' temp i" "gh_won g' = (revision, raw) # gh_won g" "gh_asked g' = gh_asked g" for g'
    unfolding latest_def
  proof (rule proto_then_later [where P = "\<lambda>g r. True"])
    fix g'' c assume l: "later g' g''"
    have e: "Q g'' (Inl e)" for e
      by (rule err) (use owns_later [OF l g'(1)] g'(2,3) l in \<open>auto simp: later_def books_def\<close>)
    have k: "Q g'' (Inr (Some d))" if "cp_revision d = revision" for d
      by (rule q) (use owns_later [OF l g'(1)] g'(2,3) l that in \<open>auto simp: later_def books_def loaded_revision_def\<close>)
    show "proto (then_do (Done (ok_or c store_corrupt)) (\<lambda>d.
      then_do (Done (ensure (cp_revision d = revision \<and> cp_raw d = raw) store_corrupt)) (\<lambda>_.
      then_do (syscall (Stat (revision_name revision)) (meta_or store_io)) (\<lambda>m.
      then_do (Done (ensure (same_inode i m) store_corrupt)) (\<lambda>_. Done (Inr c)))))) g'' Q"
      by (intro proto_then_quiet e) (auto simp: looks_def k)
  next
    fix g'' e assume l: "later g' g''"
    show "Q g'' (Inl e)"
      by (rule err) (use owns_later [OF l g'(1)] g'(2,3) l in \<open>auto simp: later_def books_def\<close>)
  qed (rule proto_latest', simp)
  have pub: "proto (then_do (publish temp i (revision_name revision) ''SETUP_CONFLICT'') (\<lambda>_. F)) g' Q"
    if g': "later g g'" and F: "\<And>g''. owns g'' temp i \<Longrightarrow> gh_won g'' = (revision, raw) # gh_won g \<Longrightarrow> gh_asked g'' = gh_asked g \<Longrightarrow> proto F g'' Q" for g' F
    unfolding proto_then
  proof (rule proto_publish [where raw = raw])
    show "gh_hold g' = Ready temp (fi_device i, fi_inode i) raw" using g' h by (simp add: later_def)
    show "revision_name revision = ''instance.json'' \<or> raw \<in> gh_asked g' \<and>
        (\<exists>r. 1 \<le> r \<and> r \<le> Suc (gh_seen g') \<and> r \<le> max_revisions \<and> revision_name revision = revision_name r)"
      using g' r by (auto simp: later_def books_def)
    show "case u of Inl e \<Rightarrow> Q g'' (Inl e) | Inr x \<Rightarrow> proto F g'' Q"
      if "owns g'' temp i" "public g''" "gh_asked g'' = gh_asked g'"
        "gh_won g'' = (case parse_revision (revision_name revision) of None \<Rightarrow> gh_won g' | Some r \<Rightarrow> (r, raw) # gh_won g')" for g'' u
      using that r g' F err parse_revision_name [of revision]
      by (auto simp: later_def books_def split: sum.splits)
  qed (use h err g' in \<open>auto simp: later_def books_def\<close>)
  show ?thesis
    unfolding save_revision_def Let_def
    by (intro proto_then_quiet [OF quiet_ensure_anchor] err' books_refl
          proto_then_later [where P = seen_current and p = "current_for_save s"] proto_current_for_save)
      (use own in \<open>auto intro!: proto_then_quiet err' pub final\<close>)
qed

text \<open>Where a store and its export are.\<close>

lemma walk_names_ok: "walk_names cs = Inr ns \<Longrightarrow> (\<And>n. Normal n \<in> set cs \<Longrightarrow> name_ok n) \<Longrightarrow> list_all name_ok ns"
  by (induction cs arbitrary: ns rule: walk_names.induct) auto

lemma walk_names_Normal: "walk_names (map Normal ns) = Inr ns"
  by (induction ns) auto

lemma parent_anchor_names:
  assumes "returns (parent_anchor c p) (Inr (parent, name))"
  shows "list_all name_ok (parent @ [name]) \<and>
    (is_absolute p \<longrightarrow> walk_names (components p) = Inr (parent @ [name]))"
proof -
  obtain cs ns where "returns (if is_absolute p then Done (Inr (components p))
              else then_do (syscall Current_Dir (bytes_or store_io)) (\<lambda>cwd.
                   Done (Inr (components cwd @ components p)))) (Inr cs)"
    and ns: "walk_names cs = Inr ns" "ns \<noteq> []" "parent = butlast ns" "name = last ns"
    using assms by (auto simp: parent_anchor_def)
  then have cs: "is_absolute p \<and> cs = components p \<or> (\<exists>cwd. cs = components cwd @ components p) \<and> \<not> is_absolute p"
    by (auto split: if_splits)
  then have "list_all name_ok ns" by (intro walk_names_ok [OF ns(1)]) (auto dest: components_names)
  moreover have "ns = parent @ [name]" using ns by simp
  ultimately show ?thesis using cs ns(1) by auto
qed

lemma join_snoc: "ns \<noteq> [] \<Longrightarrow> join_with c (ns @ [x]) = join_with c ns @ c # x"
  by (induction c ns rule: join_with.induct) auto

definition store_path_ok :: "store \<Rightarrow> bool" where
  "store_path_ok s \<longleftrightarrow> (\<exists>ns. list_all name_ok ns \<and> ns \<noteq> [] \<and> sto_path s = path_text ns)"

lemma export_name:
  assumes "store_path_ok s" "returns (parent_anchor c (export_path s)) (Inr (parent, name))"
  shows "name = ''instance.json''"
proof -
  obtain ns where ns: "list_all name_ok ns" "ns \<noteq> []" "sto_path s = path_text ns"
    using assms(1) by (auto simp: store_path_ok_def)
  then have p: "export_path s = path_text (ns @ [''instance.json''])"
    by (simp add: export_path_def path_text_def join_snoc)
  have "list_all name_ok (ns @ [''instance.json''])" using ns by (simp add: name_ok_def)
  then have "components (export_path s) = RootDir # map Normal (ns @ [''instance.json''])"
    unfolding p by (rule components_path_text)
  moreover have "is_absolute (export_path s)" by (simp add: p is_absolute_def path_text_def)
  ultimately show ?thesis using parent_anchor_names [OF assms(2)] walk_names_Normal [of "ns @ [''instance.json'']"] by simp
qed

lemma proto_open:
  assumes "\<And>g' r. later g g' \<Longrightarrow> (\<And>s. r = Inr s \<Longrightarrow> store_path_ok s) \<Longrightarrow> Q g' r"
  shows "proto (open_store path) g Q"
proof -
  have err: "Q g (Inl e)" for e by (rule assms) simp_all
  have at: "proto (open_at (parent @ [name]) max_bytes) g Q" if ok: "list_all name_ok (parent @ [name])" for parent name
  proof -
    have fin: "proto (then_do (latest_bounded k) (\<lambda>c. Done (Inr (s\<lparr>sto_loaded := c\<rparr>)))) g Q"
      if s: "sto_path s = path_text (parent @ [name])" for s k
      by (rule proto_then_later [where P = "\<lambda>g r. True"], rule proto_latest')
        (use ok s in \<open>auto intro!: assms exI [of _ "parent @ [name]"] simp: store_path_ok_def\<close>)
    show ?thesis
      unfolding open_at_def Let_def
      by (intro proto_then_quiet err quiet_ensure_anchor fin) (simp_all add: looks_def)
  qed
  show ?thesis
    unfolding open_store_def open_bounded_def
    by (rule proto_then_quiet) (auto intro!: at err quiet_parent_anchor dest: parent_anchor_names)
qed

text \<open>\<open>save\<close>: what it reports as saved it has published.\<close>

definition wins :: "ghost \<Rightarrow> (nat \<times> bytes) list \<Rightarrow> ghost \<Rightarrow> bool" where
  "wins g ws g' \<longleftrightarrow> gh_won g' = ws @ gh_won g \<and> gh_asked g' = gh_asked g"

lemma proto_save_store:
  assumes asked: "raw \<in> gh_asked g" and q: "\<And>g' r s' ws. wins g ws g' \<Longrightarrow> sto_path s' = sto_path s \<Longrightarrow>
      (\<And>u. r = Inr u \<Longrightarrow> ws = [(loaded_revision (sto_loaded s'), raw)]) \<Longrightarrow> Q g' (r, s')"
  shows "proto (save_store s raw) g Q"
proof -
  define Q1 where "Q1 = (\<lambda>g' r. proto (case r of
      Inl e \<Rightarrow> Done (Inl e, s)
    | Inr (revision, temp, i) \<Rightarrow> with_drop (remove_private temp i)
        (bind_prog (save_revision s raw revision temp i) (adopt s))) g' Q)"
  have err: "Q1 g' (Inl e)" if "books g g'" for g' e
    using that by (auto simp: Q1_def wins_def books_def intro!: q [of "[]"])
  have adopt: "proto (with_drop (remove_private temp i)
        (bind_prog (save_revision s raw revision temp i) (adopt s))) g' Q"
    if g': "is_temp_name temp" "gh_hold g' = Ready temp (fi_device i, fi_inode i) raw" "gh_won g' = gh_won g"
      "1 \<le> revision" "revision \<le> Suc (gh_seen g')" "revision \<le> max_revisions" "gh_asked g' = gh_asked g" for g' temp i revision
  proof (rule proto_drop, unfold proto_bind, rule proto_save_revision [OF g'(2,1,4-6)])
    show "raw \<in> gh_asked g'" using asked g'(7) by simp
  next
    fix g'' and r :: "checkpoint option result"
    assume g'': "owns g'' temp i" "gh_asked g'' = gh_asked g'" "gh_won g'' = gh_won g' \<or> gh_won g'' = (revision, raw) # gh_won g'"
      and r: "\<And>c. r = Inr c \<Longrightarrow> loaded_revision c = revision \<and> gh_won g'' = (revision, raw) # gh_won g'"
    obtain ws where ws: "gh_won g'' = ws @ gh_won g" "ws = [] \<or> ws = [(revision, raw)]"
      using g''(3) g'(3) by (metis append_Cons append_Nil)
    have fin: "Q k (u, s')" if "books g'' k" "sto_path s' = sto_path s"
        "u = Inr () \<Longrightarrow> ws = [(loaded_revision (sto_loaded s'), raw)]" for k u s'
      using that ws(1) g''(2) g'(7) by (intro q [of ws]) (auto simp: wins_def books_def)
    show "proto (adopt s r) g'' (\<lambda>g' x. owns g' temp i \<and> (\<forall>g''. books g' g'' \<longrightarrow> Q g'' x))"
    proof (cases r)
      case (Inl e)
      then show ?thesis using g''(1) fin [of _ s "Inl e"] by (simp add: adopt_def)
    next
      case (Inr c)
      then have "ws = [(loaded_revision c, raw)]" using r ws g'(3) by auto
      then show ?thesis
        using g''(1) fin unfolding Inr adopt_def sum.case Let_def
        by (intro quiet_proto quiet_prog_bind quiet_ensure_anchor) auto
    qed
  qed
  have prepare: "proto (prepare_revision raw current) g' Q1"
    if g': "later g g'" "loaded_revision current \<le> gh_seen g'" "length raw \<le> max_bytes" for g' current
    unfolding prepare_revision_def Let_def
  proof (rule proto_then_quiet)
    fix x assume x: "returns (Done (ensure (loaded_revision current + 1 \<le> max_revisions) store_limit)) (Inr x)"
    show "proto (then_do (pending_create raw) (\<lambda>(temp, i). Done (Inr (loaded_revision current + 1, temp, i)))) g' Q1"
      unfolding proto_then
    proof (rule proto_pending_create [OF g'(3)], goal_cases)
      case (1 n i)
      then show ?case
        unfolding Q1_def sum.case prod.case proto.simps
        by (intro adopt) (use x g' in \<open>auto simp: later_def books_def\<close>)
    next
      case (2 g'' e)
      then have "books g g''" using g'(1) books_trans later_def by blast
      then show ?case using err by simp
    qed
  qed (use g' err in \<open>auto simp: later_def\<close>)
  have after: "proto (then_do (Done (compare_loaded (sto_loaded s) current)) (\<lambda>_. prepare_revision raw current)) g' Q1"
    if g': "later g g'" "loaded_revision current \<le> gh_seen g'" "length raw \<le> max_bytes" for g' current
    by (rule proto_then_quiet) (use g' prepare err in \<open>auto simp: later_def\<close>)
  show ?thesis
    unfolding save_store_def proto_bind Q1_def [symmetric]
  proof (rule proto_then_Done, goal_cases)
    case (2 u)
    then have "length raw \<le> max_bytes" by (simp add: check_size_def)
    then have "proto (then_do (current_for_save s) (\<lambda>current.
        then_do (Done (compare_loaded (sto_loaded s) current)) (\<lambda>_. prepare_revision raw current))) g Q1"
      by (intro proto_then_later [where P = seen_current and p = "current_for_save s"] proto_current_for_save)
        (auto intro!: after err later_books \<open>length raw \<le> max_bytes\<close>)
    then show ?case by (intro proto_then_quiet [OF quiet_ensure_anchor]) (auto intro: err)
  qed (simp add: err)
qed

text \<open>An export publishes no revision.\<close>

lemma proto_write_new:
  assumes "store_path_ok s" and q: "\<And>g' r. wins g [] g' \<Longrightarrow> Q g' r"
  shows "proto (write_new (export_path s) raw) g Q"
proof -
  have err: "Q g (Inl e)" for e by (rule q) (simp add: wins_def)
  have out: "proto (with_drop (remove_private temp i) (publish_output full name pid temp i)) g' Q"
    if g': "is_temp_name temp" "gh_hold g' = Ready temp (fi_device i, fi_inode i) raw"
      "gh_won g' = gh_won g \<and> gh_asked g' = gh_asked g" "name = ''instance.json''" for g' temp i full name pid
  proof (rule proto_drop)
    have done': "owns k temp i \<and> (\<forall>k'. books k k' \<longrightarrow> Q k' r)" if "owns k temp i" "gh_won k = gh_won g \<and> gh_asked k = gh_asked g" for k r
      using that by (auto intro!: q simp: wins_def books_def)
    have own: "owns g' temp i" using g' by (simp add: owns_def)
    show "proto (publish_output full name pid temp i) g' (\<lambda>k x. owns k temp i \<and> (\<forall>k'. books k k' \<longrightarrow> Q k' x))"
      unfolding publish_output_def check_parent_def
    proof (rule proto_then_quiet, goal_cases)
      case 1
      then show ?case by (intro quiet_prog_then quiet_parent_anchor) (auto simp: looks_def)
    next
      case (3 u)
      show ?case
      proof (rule proto_then [THEN iffD2], rule proto_publish [OF g'(2,1)], goal_cases)
        case (3 k u)
        then have "gh_won k = gh_won g \<and> gh_asked k = gh_asked g" "owns k temp i" using g'(3,4) by simp_all
        then show ?case
          using done' by (auto split: sum.splits intro!: proto_then_quiet quiet_parent_anchor simp: looks_def)
      qed (use g' done' in \<open>auto simp: books_def\<close>)
    qed (use done' own g'(3) in blast)
  qed
  have made: "proto (then_do (pending_create raw) (\<lambda>(temp, i). with_drop (remove_private temp i)
      (publish_output full name pid temp i))) g Q"
    if "length raw \<le> max_bytes" "name = ''instance.json''" for full name pid
    unfolding proto_then
    by (rule proto_pending_create [OF that(1)]) (use that out q in \<open>auto simp: books_def wins_def\<close>)
  show ?thesis
    unfolding write_new_def
  proof (rule proto_then_Done, goal_cases)
    case (2 u)
    then have raw: "length raw \<le> max_bytes" by (simp add: check_size_def)
    show ?case
    proof (rule proto_then_quiet [OF quiet_parent_anchor], goal_cases)
      case (2 x)
      then obtain parent name where x: "x = (parent, name)" "name = ''instance.json''"
        using export_name [OF assms(1)] by (cases x) auto
      show ?case
        unfolding x(1) prod.case by (intro proto_then_quiet err made [OF raw x(2)]) (simp_all add: looks_def)
    qed (simp add: err)
  qed (simp add: err)
qed

section \<open>Sessions\<close>

definition saves :: "report list \<Rightarrow> (nat \<times> bytes) list" where
  "saves rs = List.map_filter (\<lambda>r. case r of Saved n raw \<Rightarrow> Some (n, raw) | _ \<Rightarrow> None) rs"

lemma report_saves_simps [simp]:
  "saves [] = []" "saves (Saved n raw # rs) = (n, raw) # saves rs" "saves (Refused e # rs) = saves rs"
  "saves (Was_Read b # rs) = saves rs" "saves (Capacity # rs) = saves rs" "saves (Exported # rs) = saves rs"
  by (simp_all add: saves_def List.map_filter_def)

lemma saves_report_of: "(\<And>x. saves (f x # rs) = saves rs) \<Longrightarrow> saves (report_of f r # rs) = saves rs"
  by (cases r) (auto simp: report_of_def)

text \<open>What a session reports as saved is, in order, among what it published.\<close>

definition honest :: "ghost \<Rightarrow> report list \<Rightarrow> bool" where
  "honest g rs \<longleftrightarrow> subseq (saves rs) (gh_won g)"

lemma honest_report:
  "honest g rs \<Longrightarrow> gh_won g' = gh_won g \<Longrightarrow> (\<And>x. saves (f x # rs) = saves rs) \<Longrightarrow> honest g' (report_of f r # rs)"
  by (simp add: honest_def saves_report_of)

lemma proto_read_store:
  assumes "\<And>g' r. later g g' \<Longrightarrow> Q g' r"
  shows "proto (read_store s) g Q"
proof -
  have err: "Q g (Inl e)" for e by (rule assms) simp
  have "proto (then_do (latest_bounded k) (\<lambda>current. then_do (Done (compare_loaded (sto_loaded s) current))
      (\<lambda>_. Done (Inr (map_option cp_raw current))))) g Q" for k
    by (rule proto_then_later [where P = "\<lambda>g r. True"], rule proto_latest')
      (auto intro!: assms proto_then_Done)
  then show ?thesis
    unfolding read_store_def read_bounded_def by (intro proto_then_quiet [OF quiet_ensure_anchor]) (simp_all add: err)
qed

definition asked_of :: "store_op list \<Rightarrow> bytes set" where
  "asked_of ops = {raw. Save_Op raw \<in> set ops}"

lemma asked_of_simps [simp]:
  "asked_of [] = {}" "asked_of (Save_Op raw # ops) = insert raw (asked_of ops)" "asked_of (Read_Op # ops) = asked_of ops"
  "asked_of (Capacity_Op n # ops) = asked_of ops" "asked_of (Export_Op raw # ops) = asked_of ops"
  by (auto simp: asked_of_def)

lemma proto_run_ops:
  "store_path_ok s \<Longrightarrow> honest g rs \<Longrightarrow> asked_of ops \<subseteq> gh_asked g \<Longrightarrow> proto (run_ops s ops rs) g honest"
proof (induction s ops rs arbitrary: g rule: run_ops.induct)
  case (2 s raw ops rs)
  show ?case
    unfolding run_ops.simps proto_bind
  proof (rule proto_save_store)
    show "raw \<in> gh_asked g" using 2(4) by simp
  next
    fix g' ws and r :: "unit result" and s' :: store
    assume ws: "wins g ws g'" "sto_path s' = sto_path s" "\<And>u. r = Inr u \<Longrightarrow> ws = [(loaded_revision (sto_loaded s'), raw)]"
    have "honest g' (report_of (\<lambda>_. Saved (loaded_revision (sto_loaded s')) raw) r # rs)"
      using ws 2(3) by (cases r) (auto simp: honest_def wins_def report_of_def list_emb_append2)
    then show "proto (case (r, s') of (r, s') \<Rightarrow>
        run_ops s' ops (report_of (\<lambda>_. Saved (loaded_revision (sto_loaded s')) raw) r # rs)) g' honest"
      using 2(1,2,4) ws(1,2) by (simp add: store_path_ok_def wins_def)
  qed
next
  case (3 s ops rs)
  then show ?case
    unfolding run_ops.simps proto_bind
    by (intro proto_read_store 3(1) honest_report [of g]) (simp_all add: later_def books_def)
next
  case (4 s n ops rs)
  have "proto (run_ops s ops (report_of (\<lambda>_. Capacity) r # rs)) g' honest" if "later g g'" for g' and r :: "unit result"
    using 4 that by (intro 4(1) honest_report [of g]) (simp_all add: later_def books_def)
  then show ?case
    unfolding run_ops.simps require_capacity_def proto_bind
    by (intro proto_then_later [where P = "\<lambda>g r. True"] proto_read_store) simp_all
next
  case (5 s raw ops rs)
  then show ?case
    unfolding run_ops.simps proto_bind
    by (intro proto_write_new 5(1) honest_report [of g]) (simp_all add: wins_def)
qed simp

lemma proto_session: "gh_won g = [] \<Longrightarrow> asked_of ops \<subseteq> gh_asked g \<Longrightarrow> proto (session path ops) g honest"
  unfolding session_def proto_bind
  by (rule proto_open) (auto simp: honest_def later_def books_def split: sum.splits intro!: proto_run_ops)

end
