(* ===== verification/StoreLog.thy ===== *)
theory StoreLog
  imports StoreProto
begin

text \<open>
  The directory of the checkpoint store is an append-only log: whatever sessions interleave and
  wherever they fail or are killed, every step keeps the directory well formed and either leaves
  the log of its revisions alone or appends one complete revision; what a save reports as saved
  stays in the log, and no two saves report the same revision.
\<close>

section \<open>The directory as a log\<close>

definition is_revision :: "string \<times> node_id \<Rightarrow> bool" where
  "is_revision x \<longleftrightarrow> parse_revision (fst x) \<noteq> None"

definition revs :: "sdir \<Rightarrow> nat" where
  "revs d = length (filter is_revision (sd_names d))"

definition content_at :: "sdir \<Rightarrow> nat \<Rightarrow> bytes" where
  "content_at d r = sn_content (sd_nodes d (the (lookup d (revision_name r))))"

definition log_of :: "sdir \<Rightarrow> bytes list" where
  "log_of d = map (content_at d) [1..<Suc (revs d)]"

definition links_to :: "sdir \<Rightarrow> node_id \<Rightarrow> nat" where
  "links_to d i = length (filter (\<lambda>x. snd x = i) (sd_names d))"

text \<open>A well formed directory.\<close>

definition file_ok :: "sdir \<Rightarrow> node_id \<Rightarrow> bool" where
  "file_ok d i \<longleftrightarrow> (let f = sd_nodes d i in
     sn_regular f \<and> sn_mode f AND 4095 = 384 \<and> length (sn_content f) \<le> max_bytes \<and> sn_links f = links_to d i)"

definition good_name :: "string \<Rightarrow> bool" where
  "good_name n \<longleftrightarrow> n = ''instance.json'' \<or> is_temp_name n \<or> parse_revision n \<noteq> None"

definition dir_ok :: "sdir \<Rightarrow> bool" where
  "dir_ok d \<longleftrightarrow> distinct (map fst (sd_names d)) \<and>
     (\<forall>n i. lookup d n = Some i \<longrightarrow> good_name n \<and> file_ok d i) \<and>
     (\<forall>n m i. lookup d n = Some i \<and> lookup d m = Some i \<and> (is_temp_name n \<longleftrightarrow> is_temp_name m) \<longrightarrow> n = m) \<and>
     (\<forall>r. 1 \<le> r \<and> r \<le> max_revisions \<and> lookup d (revision_name r) \<noteq> None \<longleftrightarrow> 1 \<le> r \<and> r \<le> revs d)"

text \<open>What a session relies on: its private file has no other name until it is published, and
  then it has a public one.\<close>

definition sole :: "sdir \<Rightarrow> string \<Rightarrow> node_id \<Rightarrow> bool" where
  "sole d n i \<longleftrightarrow> is_temp_name n \<and> lookup d n = Some i \<and> (\<forall>m. lookup d m = Some i \<longrightarrow> m = n)"

definition has_public :: "sdir \<Rightarrow> node_id \<Rightarrow> bool" where
  "has_public d i \<longleftrightarrow> (\<exists>m. lookup d m = Some i \<and> \<not> is_temp_name m)"

fun hold_ok :: "sdir \<Rightarrow> hold \<Rightarrow> bool" where
  "hold_ok d Free \<longleftrightarrow> True"
| "hold_ok d (Making n i) \<longleftrightarrow> sole d n i \<and> sn_content (sd_nodes d i) = []"
| "hold_ok d (Broken n i) \<longleftrightarrow> sole d n i"
| "hold_ok d (Ready n i raw) \<longleftrightarrow> sole d n i \<and> sn_content (sd_nodes d i) = raw"
| "hold_ok d (Linked n i) \<longleftrightarrow> is_temp_name n \<and> lookup d n = Some i \<and> has_public d i"
| "hold_ok d (Released i) \<longleftrightarrow> has_public d i \<and> (\<forall>m. lookup d m = Some i \<longrightarrow> \<not> is_temp_name m)"

definition won_ok :: "sdir \<Rightarrow> (nat \<times> bytes) list \<Rightarrow> bool" where
  "won_ok d ws \<longleftrightarrow> (\<forall>(r, raw) \<in> set ws. 1 \<le> r \<and> r \<le> length (log_of d) \<and> log_of d ! (r - 1) = raw)"

definition session_ok :: "sdir \<Rightarrow> ghost \<Rightarrow> bool" where
  "session_ok d g \<longleftrightarrow> hold_ok d (gh_hold g) \<and> gh_seen g \<le> revs d \<and> won_ok d (gh_won g)"

definition apart_holds :: "ghost \<Rightarrow> ghost \<Rightarrow> bool" where
  "apart_holds g h \<longleftrightarrow> (\<forall>x y. held (gh_hold g) = Some x \<and> held (gh_hold h) = Some y \<longrightarrow> fst x \<noteq> fst y)"

section \<open>What the calls do to the names\<close>

lemma lookup_append_file [simp]: "lookup (append_file i t raw d) = lookup d"
  by (simp add: append_file_def set_node_def lookup_def fun_eq_iff)

lemma lookup_new_file [simp]: "lookup d n = None \<Longrightarrow> lookup (new_file n i t d) = (lookup d)(n \<mapsto> i)"
  by (auto simp: new_file_def set_node_def lookup_def fun_eq_iff map_add_def split: option.splits)

lemma lookup_link_file [simp]: "lookup d n = None \<Longrightarrow> lookup (link_file n i d) = (lookup d)(n \<mapsto> i)"
  by (auto simp: link_file_def set_node_def lookup_def fun_eq_iff map_add_def split: option.splits)

lemma lookup_unlink_file [simp]: "lookup (unlink_file n i d) = (lookup d)(n := None)"
proof
  have "map_of (filter (\<lambda>x. fst x \<noteq> n) xs) m = (if m = n then None else map_of xs m)" for xs :: "(string \<times> node_id) list" and m
    by (induction xs) auto
  then show "lookup (unlink_file n i d) m = ((lookup d)(n := None)) m" for m
    by (simp add: unlink_file_def set_node_def lookup_def)
qed

lemma names_lookup: "distinct (map fst (sd_names d)) \<Longrightarrow> (n, i) \<in> set (sd_names d) \<longleftrightarrow> lookup d n = Some i"
  by (simp add: lookup_def)

lemma lookup_names: "lookup d n = Some i \<Longrightarrow> (n, i) \<in> set (sd_names d)"
  by (simp add: lookup_def map_of_SomeD)

lemma lookup_None: "lookup d n = None \<longleftrightarrow> n \<notin> fst ` set (sd_names d)"
  by (simp add: lookup_def map_of_eq_None_iff)

lemma count_removed:
  assumes "distinct (map fst xs)" "map_of xs n = Some i"
  shows "length (filter P (filter (\<lambda>x. fst x \<noteq> n) xs)) = length (filter P xs) - (if P (n, i) then 1 else 0)"
  using assms
proof (induction xs)
  case (Cons x xs)
  show ?case
  proof (cases "fst x = n")
    case True
    then have "n \<notin> set (map fst xs)" using Cons.prems(1) by auto
    then have "filter (\<lambda>x. fst x \<noteq> n) xs = xs" by (intro filter_True) auto
    moreover have "x = (n, i)" using True Cons.prems(2) by (cases x) auto
    ultimately show ?thesis using True by simp
  next
    case False
    then have n: "map_of xs n = Some i" using Cons.prems(2) by (cases x) auto
    then have "P (n, i) \<Longrightarrow> 0 < length (filter P xs)" using map_of_SomeD [OF n] by (auto simp: filter_empty_conv)
    then show ?thesis using Cons n False by auto
  qed
qed simp

lemma names_simps [simp]:
  "sd_names (append_file i t raw d) = sd_names d"
  "sd_names (new_file n i t d) = sd_names d @ [(n, i)]"
  "sd_names (link_file n i d) = sd_names d @ [(n, i)]"
  "sd_names (unlink_file n i d) = filter (\<lambda>x. fst x \<noteq> n) (sd_names d)"
  by (simp_all add: append_file_def new_file_def link_file_def unlink_file_def set_node_def)

lemma nodes_simps [simp]:
  "sd_nodes (append_file i t raw d) j = (if j = i then (sd_nodes d i)\<lparr>sn_content := sn_content (sd_nodes d i) @ raw,
     sn_modified := t\<rparr> else sd_nodes d j)"
  "sd_nodes (new_file n i t d) j = (if j = i then \<lparr>sn_regular = True, sn_mode = 33152, sn_links = 1, sn_modified = t,
     sn_content = []\<rparr> else sd_nodes d j)"
  "sd_nodes (link_file n i d) j = (if j = i then (sd_nodes d i)\<lparr>sn_links := sn_links (sd_nodes d i) + 1\<rparr> else sd_nodes d j)"
  "sd_nodes (unlink_file n i d) j = (if j = i then (sd_nodes d i)\<lparr>sn_links := sn_links (sd_nodes d i) - 1\<rparr> else sd_nodes d j)"
  by (simp_all add: append_file_def new_file_def link_file_def unlink_file_def set_node_def)

lemma counts_simps [simp]:
  "links_to (append_file i t raw d) j = links_to d j"
  "links_to (new_file n i t d) j = links_to d j + (if i = j then 1 else 0)"
  "links_to (link_file n i d) j = links_to d j + (if i = j then 1 else 0)"
  "revs (append_file i t raw d) = revs d"
  "revs (new_file n i t d) = revs d + (if parse_revision n = None then 0 else 1)"
  "revs (link_file n i d) = revs d + (if parse_revision n = None then 0 else 1)"
  by (simp_all add: links_to_def revs_def is_revision_def)

lemma counts_unlink [simp]:
  assumes "distinct (map fst (sd_names d))" "lookup d n = Some i"
  shows "links_to (unlink_file n i d) j = links_to d j - (if i = j then 1 else 0)"
    and "revs (unlink_file n i d) = revs d - (if parse_revision n = None then 0 else 1)"
  using count_removed [OF assms(1) assms(2) [unfolded lookup_def]]
  by (simp_all add: links_to_def revs_def is_revision_def [of "(n, i)"] flip: filter_filter)

lemma sd_unused: "i \<notin> snd ` set (sd_names d) \<Longrightarrow> lookup d n \<noteq> Some i"
  by (force dest: lookup_names)

lemma links_unused: "i \<notin> snd ` set (sd_names d) \<Longrightarrow> links_to d i = 0"
  by (force simp: links_to_def filter_empty_conv)

section \<open>What the calls do to the log\<close>

lemma length_log [simp]: "length (log_of d) = revs d"
  by (simp add: log_of_def)

lemma dir_okD:
  assumes "dir_ok d"
  shows "distinct (map fst (sd_names d))" "\<And>n i. lookup d n = Some i \<Longrightarrow> good_name n"
    "\<And>n i. lookup d n = Some i \<Longrightarrow> file_ok d i"
    "\<And>n m i. lookup d n = Some i \<Longrightarrow> lookup d m = Some i \<Longrightarrow> is_temp_name n = is_temp_name m \<Longrightarrow> n = m"
    "\<And>r. 1 \<le> r \<Longrightarrow> r \<le> max_revisions \<Longrightarrow> lookup d (revision_name r) \<noteq> None \<longleftrightarrow> r \<le> revs d"
    "revs d \<le> max_revisions"
proof -
  have D: "distinct (map fst (sd_names d))" "\<forall>n i. lookup d n = Some i \<longrightarrow> good_name n \<and> file_ok d i"
     "\<forall>n m i. lookup d n = Some i \<and> lookup d m = Some i \<and> (is_temp_name n \<longleftrightarrow> is_temp_name m) \<longrightarrow> n = m"
    and R: "\<forall>r. 1 \<le> r \<and> r \<le> max_revisions \<and> lookup d (revision_name r) \<noteq> None \<longleftrightarrow> 1 \<le> r \<and> r \<le> revs d"
    using assms unfolding dir_ok_def by blast+
  show "distinct (map fst (sd_names d))" by (rule D(1))
  show "good_name n" "file_ok d i" if "lookup d n = Some i" for n i using D(2) that by blast+
  show "n = m" if "lookup d n = Some i" "lookup d m = Some i" "is_temp_name n = is_temp_name m" for n m i
    using D(3) that by blast
  show "lookup d (revision_name r) \<noteq> None \<longleftrightarrow> r \<le> revs d" if "1 \<le> r" "r \<le> max_revisions" for r
    using R that by blast
  have "1 \<le> Suc max_revisions \<and> Suc max_revisions \<le> revs d \<Longrightarrow> Suc max_revisions \<le> max_revisions"
    using R by blast
  then show "revs d \<le> max_revisions" by (cases "revs d \<le> max_revisions") auto
qed

lemma dir_okI:
  assumes "distinct (map fst (sd_names d))" "\<And>n i. lookup d n = Some i \<Longrightarrow> good_name n"
    "\<And>n i. lookup d n = Some i \<Longrightarrow> file_ok d i"
    "\<And>n m i. lookup d n = Some i \<Longrightarrow> lookup d m = Some i \<Longrightarrow> is_temp_name n = is_temp_name m \<Longrightarrow> n = m"
    "\<And>r. 1 \<le> r \<Longrightarrow> r \<le> max_revisions \<Longrightarrow> lookup d (revision_name r) \<noteq> None \<longleftrightarrow> r \<le> revs d"
    "revs d \<le> max_revisions"
  shows "dir_ok d"
  unfolding dir_ok_def using assms(1-4) assms(5,6) by (meson order_trans)

lemma revision_there: "dir_ok d \<Longrightarrow> 1 \<le> r \<Longrightarrow> r \<le> revs d \<Longrightarrow> \<exists>i. lookup d (revision_name r) = Some i"
  using dir_okD(5) [of d r] dir_okD(6) [of d] by auto

lemma log_same:
  assumes "revs d' = revs d"
    and "\<And>r. 1 \<le> r \<Longrightarrow> r \<le> revs d \<Longrightarrow> content_at d' r = content_at d r"
  shows "log_of d' = log_of d"
  unfolding log_of_def assms(1) by (rule map_cong) (auto intro: assms(2))

lemma sole_not_revision: "sole d n i \<Longrightarrow> lookup d (revision_name r) = Some j \<Longrightarrow> j \<noteq> i"
  using temp_not_public(2) [of r] by (auto simp: sole_def)

lemma held_lookup: "hold_ok d h \<Longrightarrow> held h = Some (n, i) \<Longrightarrow> lookup d n = Some i \<and> is_temp_name n"
  by (cases h) (auto simp: sole_def)

lemma append_ok:
  assumes "dir_ok d" "sole d n i" "sn_content (sd_nodes d i) = []" "length raw \<le> max_bytes"
  shows "dir_ok (append_file i t raw d) \<and> log_of (append_file i t raw d) = log_of d"
proof
  note d = dir_okD [OF assms(1)]
  have "file_ok (append_file i t raw d) j" if "lookup d m = Some j" for m j
    using d(3) [OF that] assms(3,4) by (auto simp: file_ok_def Let_def)
  then show "dir_ok (append_file i t raw d)" by (intro dir_okI) (simp_all only: lookup_append_file names_simps counts_simps d)
  show "log_of (append_file i t raw d) = log_of d"
  proof (rule log_same)
    fix r assume "1 \<le> r" "r \<le> revs d"
    then obtain j where "lookup d (revision_name r) = Some j" using revision_there [OF assms(1)] by blast
    then show "content_at (append_file i t raw d) r = content_at d r"
      using sole_not_revision [OF assms(2)] by (auto simp: content_at_def)
  qed simp
qed

lemma new_ok:
  assumes "dir_ok d" "is_temp_name n" "lookup d n = None" "i \<notin> snd ` set (sd_names d)"
  shows "dir_ok (new_file n i t d) \<and> log_of (new_file n i t d) = log_of d"
proof
  note d = dir_okD [OF assms(1)]
  note unused = sd_unused [OF assms(4)]
  have fileok: "file_ok (new_file n i t d) j" if "((lookup d)(n \<mapsto> i)) m = Some j" for m j
    using that d(3) [of m j] unused [of m] links_unused [OF assms(4)]
    by (auto simp: file_ok_def Let_def split: if_splits)
  have names: "distinct (map fst (sd_names (new_file n i t d)))"
    using d(1) assms(3) by (auto simp: lookup_None)
  have rev: "revision_name r \<noteq> n" for r using assms(2) by auto
  have uniq: "m = m'" if "((lookup d)(n \<mapsto> i)) m = Some j" "((lookup d)(n \<mapsto> i)) m' = Some j"
      "is_temp_name m = is_temp_name m'" for m m' j
    using that d(4) [of m j m'] unused by (auto split: if_splits)
  have good: "good_name m" if "((lookup d)(n \<mapsto> i)) m = Some j" for m j
    using that d(2) [of m j] assms(2) by (auto simp: good_name_def split: if_splits)
  show "dir_ok (new_file n i t d)"
  proof (rule dir_okI, unfold lookup_new_file [OF assms(3)])
    show "((lookup d)(n \<mapsto> i)) (revision_name r) \<noteq> None \<longleftrightarrow> r \<le> revs (new_file n i t d)"
      if "1 \<le> r" "r \<le> max_revisions" for r
      using d(5) [OF that] rev assms(2) by simp
    show "revs (new_file n i t d) \<le> max_revisions" using d(6) assms(2) by simp
  qed (use names fileok uniq good in \<open>blast+\<close>)
  show "log_of (new_file n i t d) = log_of d"
  proof (rule log_same)
    fix r assume "1 \<le> r" "r \<le> revs d"
    then obtain j where "lookup d (revision_name r) = Some j" using revision_there [OF assms(1)] by blast
    then show "content_at (new_file n i t d) r = content_at d r"
      using unused rev by (auto simp: content_at_def assms(3))
  qed (simp add: assms(2))
qed

lemma unlink_ok:
  assumes "dir_ok d" "is_temp_name n" "lookup d n = Some i"
  shows "dir_ok (unlink_file n i d) \<and> log_of (unlink_file n i d) = log_of d"
proof
  note d = dir_okD [OF assms(1)]
  note counts = counts_unlink [OF d(1) assms(3)]
  have fileok: "file_ok (unlink_file n i d) j" if "((lookup d)(n := None)) m = Some j" for m j
    using that d(3) [of m j] counts(1) by (auto simp: file_ok_def Let_def split: if_splits)
  have names: "distinct (map fst (filter (\<lambda>x. fst x \<noteq> n) (sd_names d)))"
    using d(1) by (simp add: distinct_map_filter)
  have rev: "revision_name r \<noteq> n" for r using assms(2) by auto
  show "dir_ok (unlink_file n i d)"
  proof (rule dir_okI, unfold lookup_unlink_file)
    show "((lookup d)(n := None)) (revision_name r) \<noteq> None \<longleftrightarrow> r \<le> revs (unlink_file n i d)"
      if "1 \<le> r" "r \<le> max_revisions" for r
      using d(5) [OF that] rev counts(2) assms(2) by simp
    show "m = m'" if "((lookup d)(n := None)) m = Some j" "((lookup d)(n := None)) m' = Some j"
        "is_temp_name m = is_temp_name m'" for m m' j
      using that d(4) [of m j m'] by (simp split: if_splits)
    show "good_name m" if "((lookup d)(n := None)) m = Some j" for m j
      using that d(2) [of m j] by (simp split: if_splits)
    show "revs (unlink_file n i d) \<le> max_revisions" using d(6) counts(2) assms(2) by simp
    show "distinct (map fst (sd_names (unlink_file n i d)))" using names by simp
  qed (use fileok in blast)
  show "log_of (unlink_file n i d) = log_of d"
    by (rule log_same) (use assms(2) counts(2) rev in \<open>auto simp: content_at_def\<close>)
qed

lemma link_ok:
  assumes "dir_ok d" "sole d a i" "lookup d b = None"
    and b: "b = ''instance.json'' \<or> b = revision_name (Suc (revs d)) \<and> Suc (revs d) \<le> max_revisions"
  shows "dir_ok (link_file b i d) \<and> log_of (link_file b i d) =
    log_of d @ (if b = ''instance.json'' then [] else [sn_content (sd_nodes d i)])"
proof
  note d = dir_okD [OF assms(1)]
  let ?d = "link_file b i d"
  have i: "lookup d a = Some i" "is_temp_name a" "\<And>m. lookup d m = Some i \<Longrightarrow> m = a"
    using assms(2) unfolding sole_def by blast+
  have fileok: "file_ok ?d j" if "((lookup d)(b \<mapsto> i)) m = Some j" for m j
    using that d(3) [of m j] d(3) [OF i(1)] by (auto simp: file_ok_def Let_def split: if_splits)
  have names: "distinct (map fst (sd_names ?d))"
    using d(1) assms(3) by (auto simp: lookup_None)
  have btemp: "\<not> is_temp_name b" "good_name b"
    using b parse_revision_name [of "Suc (revs d)"] by (auto simp: good_name_def)
  have uniq: "m = m'" if "((lookup d)(b \<mapsto> i)) m = Some j" "((lookup d)(b \<mapsto> i)) m' = Some j"
      "is_temp_name m = is_temp_name m'" for m m' j
  proof -
    have "x = b \<and> j = i \<or> lookup d x = Some j" if "((lookup d)(b \<mapsto> i)) x = Some j" for x
      using that by (simp split: if_splits)
    from this [OF that(1)] this [OF that(2)] show ?thesis using that(3) d(4) [of m j m'] i btemp(1) by blast
  qed
  have good: "good_name m" if "((lookup d)(b \<mapsto> i)) m = Some j" for m j
    using that d(2) [of m j] btemp by (auto split: if_splits)
  have revision: "((lookup d)(b \<mapsto> i)) (revision_name r) \<noteq> None \<longleftrightarrow> r \<le> revs ?d"
    if r: "1 \<le> r" "r \<le> max_revisions" for r
  proof (cases "b = ''instance.json''")
    case True
    then show ?thesis using d(5) [OF r] by simp
  next
    case False
    then have b': "b = revision_name (Suc (revs d))" "Suc (revs d) \<le> max_revisions" using b by blast+
    have "revision_name r = revision_name (Suc (revs d)) \<longleftrightarrow> r = Suc (revs d)"
      by (rule revision_name_inj) (use r b' in simp_all)
    moreover have "parse_revision (revision_name (Suc (revs d))) = Some (Suc (revs d))"
      by (rule parse_revision_name) (use b' in simp_all)
    ultimately show ?thesis using d(5) [OF r] b'(1) by (auto simp: le_Suc_eq)
  qed
  have limit: "revs ?d \<le> max_revisions"
    using b d(6) parse_revision_name [of "Suc (revs d)"] by auto
  show "dir_ok ?d"
    by (rule dir_okI, unfold lookup_link_file [OF assms(3)]) (use names fileok uniq good revision limit in \<open>blast+\<close>)
  have old: "content_at ?d r = content_at d r" if "1 \<le> r" "r \<le> revs d" for r
    using revision_there [OF assms(1) that] assms(3) by (auto simp: content_at_def)
  show "log_of ?d = log_of d @ (if b = ''instance.json'' then [] else [sn_content (sd_nodes d i)])"
  proof (cases "b = ''instance.json''")
    case True
    have "revs (link_file b i d) = revs d" using True by simp
    then have "log_of ?d = log_of d" using old by (rule log_same)
    then show ?thesis using True by simp
  next
    case False
    then have r: "b = revision_name (Suc (revs d))" "parse_revision b = Some (Suc (revs d))"
      using b parse_revision_name [of "Suc (revs d)"] by auto
    then have "content_at ?d (Suc (revs d)) = sn_content (sd_nodes d i)"
      using assms(3) by (simp add: content_at_def)
    moreover have "map (content_at ?d) [1..<Suc (revs d)] = log_of d"
      unfolding log_of_def by (rule map_cong) (auto intro: old)
    moreover have "revs ?d = Suc (revs d)" using r(2) by simp
    ultimately show ?thesis using False unfolding log_of_def [of ?d] by simp
  qed
qed

section \<open>What a step keeps\<close>

definition grows :: "sdir \<Rightarrow> (nat \<times> bytes) list \<Rightarrow> sdir \<Rightarrow> bool" where
  "grows d ws d' \<longleftrightarrow> ws = [] \<and> log_of d' = log_of d \<or>
     (\<exists>raw. ws = [(Suc (revs d), raw)] \<and> log_of d' = log_of d @ [raw])"

lemma grows_prefix: "grows d ws d' \<Longrightarrow> prefix (log_of d) (log_of d')"
  by (auto simp: grows_def)

lemma grows_revs: "grows d ws d' \<Longrightarrow> revs d' = revs d + length ws"
  unfolding length_log [symmetric] grows_def by (elim disjE exE conjE) (simp_all del: length_log)

lemma won_ok_grows: "won_ok d vs \<Longrightarrow> grows d ws d' \<Longrightarrow> won_ok d' (ws @ vs)"
proof -
  assume v: "won_ok d vs" and g: "grows d ws d'"
  obtain zs where z: "log_of d' = log_of d @ zs" using grows_prefix [OF g] by (auto simp: prefix_def)
  have "1 \<le> r \<and> r \<le> length (log_of d') \<and> log_of d' ! (r - 1) = raw" if "(r, raw) \<in> set vs" for r raw
  proof -
    have "1 \<le> r" "r \<le> length (log_of d)" "log_of d ! (r - 1) = raw" using v that by (auto simp: won_ok_def)
    moreover from this have "r - 1 < length (log_of d)" by linarith
    ultimately show ?thesis unfolding z by (simp add: nth_append del: length_log)
  qed
  moreover have "1 \<le> r \<and> r \<le> length (log_of d') \<and> log_of d' ! (r - 1) = raw" if "(r, raw) \<in> set ws" for r raw
    using that g grows_revs [OF g] by (auto simp: grows_def nth_append)
  ultimately show ?thesis unfolding won_ok_def by auto
qed

text \<open>What a step by one session leaves to another one.\<close>

definition undisturbed :: "sdir \<Rightarrow> string set \<Rightarrow> sdir \<Rightarrow> bool" where
  "undisturbed d own d' \<longleftrightarrow>
     (\<forall>h. hold_ok d h \<and> (\<forall>x. held h = Some x \<longrightarrow> fst x \<notin> own) \<longrightarrow> hold_ok d' h)"

lemma undisturbed_refl [simp]: "undisturbed d own d"
  by (simp add: undisturbed_def)

lemma undisturbed_append:
  assumes "sole d n i"
  shows "undisturbed d {n} (append_file i t raw d)"
  unfolding undisturbed_def
proof (intro allI impI)
  fix h assume h: "hold_ok d h \<and> (\<forall>x. held h = Some x \<longrightarrow> fst x \<notin> {n})"
  have "j \<noteq> i" if "sole d m j" "m \<noteq> n" for m j using that assms by (auto simp: sole_def)
  then show "hold_ok (append_file i t raw d) h"
    using h by (cases h) (auto simp: sole_def has_public_def)
qed

lemma undisturbed_new:
  assumes "lookup d n = None" "i \<notin> snd ` set (sd_names d)" "is_temp_name n"
  shows "undisturbed d {} (new_file n i t d)"
  unfolding undisturbed_def
proof (intro allI impI)
  fix h assume h: "hold_ok d h \<and> (\<forall>x. held h = Some x \<longrightarrow> fst x \<notin> {})"
  note u = sd_unused [OF assms(2)]
  have s: "sole (new_file n i t d) m j \<and> j \<noteq> i" if "sole d m j" for m j
  proof -
    have m: "lookup d m = Some j" using that unfolding sole_def by blast
    have "j \<noteq> i" using m u [of m] by metis
    moreover have "m \<noteq> n" using m assms(1) by force
    ultimately have "j \<noteq> i" "m \<noteq> n" by blast+
    then show ?thesis using that by (simp add: sole_def assms(1))
  qed
  have p: "has_public (new_file n i t d) j \<and> j \<noteq> i" if "has_public d j" for j
    using that u assms(1) unfolding has_public_def lookup_new_file [OF assms(1)] fun_upd_apply
    by (metis option.simps(3))
  have l: "lookup (new_file n i t d) m = Some j" if "lookup d m = Some j" for m j
    using that assms(1) by auto
  have r: "\<not> is_temp_name m" if "lookup (new_file n i t d) m = Some j" "j \<noteq> i"
      "\<forall>m. lookup d m = Some j \<longrightarrow> \<not> is_temp_name m" for m j
    using that assms(1) by (simp split: if_splits)
  show "hold_ok (new_file n i t d) h"
  proof (cases h)
    case (Released j)
    then show ?thesis using h p r by (metis hold_ok.simps(6))
  qed (use h s p l in simp_all)
qed

lemma undisturbed_link:
  assumes "lookup d b = None" "sole d a i" "\<not> is_temp_name b"
  shows "undisturbed d {a} (link_file b i d)"
  unfolding undisturbed_def
proof (intro allI impI)
  fix h assume h: "hold_ok d h \<and> (\<forall>x. held h = Some x \<longrightarrow> fst x \<notin> {a})"
  have s: "sole (link_file b i d) m j" if "sole d m j" "m \<noteq> a" for m j
  proof -
    have "j \<noteq> i" "m \<noteq> b" using that assms unfolding sole_def by auto
    then show ?thesis using that by (simp add: sole_def assms(1))
  qed
  have c: "sn_content (sd_nodes (link_file b i d) j) = sn_content (sd_nodes d j)" for j by simp
  have p: "has_public (link_file b i d) j" if "has_public d j" for j
    using that assms(1) unfolding has_public_def lookup_link_file [OF assms(1)] fun_upd_apply by (metis option.simps(3))
  have l: "lookup (link_file b i d) m = Some j" if "lookup d m = Some j" for m j
    using that assms(1) by auto
  have r: "\<not> is_temp_name m" if "lookup (link_file b i d) m = Some j"
      "\<forall>m. lookup d m = Some j \<longrightarrow> \<not> is_temp_name m" for m j
    using that assms(1,3) by (simp split: if_splits)
  show "hold_ok (link_file b i d) h"
  proof (cases h)
    case (Released j)
    then show ?thesis using h p r by (metis hold_ok.simps(6))
  qed (use h s p l in \<open>simp_all add: c del: nodes_simps\<close>)
qed

lemma undisturbed_unlink:
  assumes "lookup d n = Some i" "is_temp_name n"
  shows "undisturbed d {n} (unlink_file n i d)"
  unfolding undisturbed_def
proof (intro allI impI)
  fix h assume h: "hold_ok d h \<and> (\<forall>x. held h = Some x \<longrightarrow> fst x \<notin> {n})"
  have s: "sole (unlink_file n i d) m j" if "sole d m j" "m \<noteq> n" for m j
    using that by (auto simp: sole_def split: if_splits)
  have p: "has_public (unlink_file n i d) j" if "has_public d j" for j
    using that assms by (auto simp: has_public_def)
  show "hold_ok (unlink_file n i d) h"
    using h s p by (cases h) (auto split: if_splits)
qed

definition held_names :: "ghost \<Rightarrow> string set" where
  "held_names g = (case held (gh_hold g) of None \<Rightarrow> {} | Some x \<Rightarrow> {fst x})"

text \<open>One call of a session, with its ghost state before and after.\<close>

definition step_ok :: "sdir \<Rightarrow> ghost \<Rightarrow> call \<Rightarrow> answer \<Rightarrow> sdir \<Rightarrow> bool" where
  "step_ok d g c a d' \<longleftrightarrow> plausible g c a \<and> dir_ok d' \<and> session_ok d' (after g c a) \<and>
     (\<exists>ws. gh_won (after g c a) = ws @ gh_won g \<and> grows d ws d' \<and> snd ` set ws \<subseteq> gh_asked g) \<and>
     undisturbed d (held_names g) d' \<and>
     (\<forall>n \<in> held_names (after g c a). n \<in> held_names g \<or> lookup d n = None)"

lemma step_okI:
  assumes "plausible g c a" "dir_ok d'" "hold_ok d' (gh_hold (after g c a))" "gh_seen (after g c a) \<le> revs d'"
    "won_ok d (gh_won g)" "gh_won (after g c a) = ws @ gh_won g" "grows d ws d'"
    "snd ` set ws \<subseteq> gh_asked g"
    "undisturbed d (held_names g) d'" "\<And>n. n \<in> held_names (after g c a) \<Longrightarrow> n \<in> held_names g \<or> lookup d n = None"
  shows "step_ok d g c a d'"
  unfolding step_ok_def session_ok_def using assms won_ok_grows [OF assms(5,7)] by auto

lemma step_same:
  assumes "dir_ok d" "session_ok d g" "plausible g c a" "after g c a = g"
  shows "step_ok d g c a d"
  by (rule step_okI [where ws = "[]"]) (use assms in \<open>auto simp: session_ok_def grows_def\<close>)

lemma fault_step:
  assumes "dir_ok d" "session_ok d g" "\<And>i raw. c \<noteq> Write_All i raw"
  shows "step_ok d g c Err_IO d"
  using assms by (intro step_same) (auto simp: plausible_def after_def split: call.splits)

lemma released_meta: "hold_ok d (Released h) \<Longrightarrow> lookup d n = Some i \<Longrightarrow> is_temp_name n \<Longrightarrow> i \<noteq> h"
  by auto

lemma looking_step:
  assumes "dir_ok d" "session_ok d g" "env_ok e d" "looks c" "perform_ok e c d = (a, d')"
  shows "step_ok d g c a d'"
proof -
  have "d' = d" using assms(4,5) by (cases c) (auto simp: looks_def split: option.splits)
  moreover have "plausible g c a"
  proof (cases c)
    case (Stat n)
    show ?thesis
    proof (cases "lookup d n")
      case None
      then show ?thesis using Stat assms(5) by (auto simp: plausible_def)
    next
      case (Some i)
      then have a: "a = Meta_Is (node_meta d i)" "node_of (node_meta d i) = i"
        using Stat assms(5) by (auto, simp add: node_meta_def Let_def)
      have "is_temp_name n \<longrightarrow> i \<noteq> h" if "gh_hold g = Released h" for h
        using released_meta [of d h n i] assms(2) Some that by (simp add: session_ok_def)
      then show ?thesis unfolding plausible_def Stat a(1) by (cases "gh_hold g") (simp_all add: a(2))
    qed
  next
    case (Handle_Meta i)
    then show ?thesis using assms(5) by (auto simp: plausible_def node_meta_def Let_def)
  next
    case Clock
    then show ?thesis using assms(3,5) by (auto simp: plausible_def env_ok_def split: answer.splits)
  qed (use assms(4,5) in \<open>auto simp: plausible_def looks_def\<close>)
  ultimately show ?thesis using assms(1,2,4) by (auto intro: step_same simp: looks_quiet)
qed

lemma entries_step:
  assumes "dir_ok d" "session_ok d g" "\<And>n. Some n \<in> set es \<Longrightarrow> lookup d n \<noteq> None"
  shows "step_ok d g Entries (Names_Are es) d"
proof -
  have "seen_in es \<le> revs d"
  proof (rule seen_in_le)
    fix n r assume n: "Some n \<in> set es" "parse_revision n = Some r"
    from parse_revision_Some [OF n(2)] assms(3) [OF n(1)] dir_okD(5) [OF assms(1), of r]
    show "r \<le> revs d" by simp
  qed
  then show ?thesis
    by (intro step_okI [where ws = "[]"])
      (use assms in \<open>auto simp: session_ok_def grows_def plausible_def after_def held_names_def\<close>)
qed

lemma create_step:
  assumes "dir_ok d" "session_ok d g" "is_temp_name n" "lookup d n = None" "i \<notin> snd ` set (sd_names d)"
  shows "step_ok d g (Create_New n) (Handle_Is i) (new_file n i t d)"
proof -
  note ok = new_ok [OF assms(1,3-5), of t]
  have "sole (new_file n i t d) n i" using assms(3,4) sd_unused [OF assms(5)] by (simp add: sole_def)
  moreover have "undisturbed d (held_names g) (new_file n i t d)"
    using undisturbed_new [OF assms(4,5,3)] by (auto simp: undisturbed_def)
  ultimately show ?thesis
    by (intro step_okI [where ws = "[]"])
      (use assms ok in \<open>auto simp: session_ok_def grows_def plausible_def after_def held_names_def\<close>)
qed

lemma write_step:
  assumes "dir_ok d" "session_ok d g" "gh_hold g = Making n i" "length raw \<le> max_bytes"
    and a: "a = Done_Ok \<and> part = raw \<or> a = Err_IO \<and> length part \<le> max_bytes"
  shows "step_ok d g (Write_All i raw) a (append_file i t part d)"
proof -
  have s: "sole d n i" "sn_content (sd_nodes d i) = []" using assms(2,3) by (simp_all add: session_ok_def)
  have "length part \<le> max_bytes" using a assms(4) by auto
  note ok = append_ok [OF assms(1) s this, of t]
  have "sole (append_file i t part d) n i" using s(1) by (simp add: sole_def)
  then show ?thesis
    using a by (elim disjE; intro step_okI [where ws = "[]"])
      (use assms(1-3) ok s undisturbed_append [OF s(1)] in
        \<open>auto simp: session_ok_def grows_def plausible_def after_def held_names_def\<close>)
qed

lemma link_step:
  assumes "dir_ok d" "session_ok d g" "gh_hold g = Ready n i raw" "lookup d b = None"
    and b: "b = ''instance.json'' \<or>
      raw \<in> gh_asked g \<and> (\<exists>r. 1 \<le> r \<and> r \<le> Suc (gh_seen g) \<and> r \<le> max_revisions \<and> b = revision_name r)"
  shows "step_ok d g (Hard_Link n b) Done_Ok (link_file b i d)"
proof -
  have s: "sole d n i" "sn_content (sd_nodes d i) = raw" "gh_seen g \<le> revs d"
    using assms(2,3) by (simp_all add: session_ok_def)
  have b': "b = ''instance.json'' \<or> b = revision_name (Suc (revs d)) \<and> Suc (revs d) \<le> max_revisions"
  proof (cases "b = ''instance.json''")
    case False
    then obtain r where r: "1 \<le> r" "r \<le> Suc (gh_seen g)" "r \<le> max_revisions" "b = revision_name r" using b by blast
    then have "\<not> r \<le> revs d" using dir_okD(5) [OF assms(1) r(1,3)] assms(4) by simp
    then have "r = Suc (revs d)" using r(2) s(3) by simp
    then show ?thesis using r by simp
  qed simp
  note ok = link_ok [OF assms(1) s(1) assms(4) b']
  have bt: "\<not> is_temp_name b" using b by auto
  have "n \<noteq> b" using s(1) bt by (auto simp: sole_def)
  then have l: "is_temp_name n" "lookup (link_file b i d) n = Some i" "has_public (link_file b i d) i"
    using s(1) bt by (auto simp: sole_def has_public_def assms(4))
  have u: "undisturbed d (held_names g) (link_file b i d)"
    using undisturbed_link [OF assms(4) s(1) bt] by (simp add: held_names_def assms(3))
  show ?thesis
  proof (cases "b = ''instance.json''")
    case True
    then show ?thesis
      by (intro step_okI [where ws = "[]"])
        (use assms(1-3) ok s l u in \<open>auto simp: session_ok_def grows_def plausible_def after_def held_names_def\<close>)
  next
    case False
    then have asked: "raw \<in> gh_asked g" using b by blast
    have r: "b = revision_name (Suc (revs d))" "Suc (revs d) \<le> max_revisions" using False b' by blast+
    then have p: "parse_revision b = Some (Suc (revs d))" using parse_revision_name [of "Suc (revs d)"] by simp
    have a: "after g (Hard_Link n b) Done_Ok = g\<lparr>gh_hold := Linked n i, gh_seen := max (gh_seen g) (Suc (revs d)),
        gh_won := (Suc (revs d), raw) # gh_won g\<rparr>"
      by (simp add: after_def assms(3) p)
    show ?thesis
      by (rule step_okI [where ws = "[(Suc (revs d), raw)]"], unfold a)
        (use assms(1-3) ok s l u False p asked in \<open>auto simp: session_ok_def grows_def plausible_def held_names_def\<close>)
  qed
qed

lemma remove_step:
  assumes "dir_ok d" "session_ok d g" "held (gh_hold g) = Some (n, i)"
  shows "step_ok d g (Remove n) Done_Ok (unlink_file n i d)"
proof -
  have n: "lookup d n = Some i" "is_temp_name n"
    using held_lookup [of d "gh_hold g" n i] assms(2,3) by (simp_all add: session_ok_def)
  note ok = unlink_ok [OF assms(1) n(2,1)]
  have u: "undisturbed d (held_names g) (unlink_file n i d)"
    using undisturbed_unlink [OF n] by (simp add: held_names_def assms(3))
  have r: "hold_ok (unlink_file n i d) (Released i)" if "has_public d i"
  proof -
    have "has_public (unlink_file n i d) i" using that n by (auto simp: has_public_def)
    moreover have "\<not> is_temp_name m" if "lookup (unlink_file n i d) m = Some i" for m
    proof -
      have "lookup d m = Some i" "m \<noteq> n" using that by (simp_all split: if_splits)
      then show ?thesis using dir_okD(4) [OF assms(1) _ n(1)] n(2) by blast
    qed
    ultimately show ?thesis by simp
  qed
  have revs: "revs (unlink_file n i d) = revs d" using ok unfolding length_log [symmetric] by (simp del: length_log)
  show ?thesis
  proof (cases "gh_hold g")
    case (Linked m j)
    then have "has_public d i" "m = n" "j = i" using assms(2,3) by (auto simp: session_ok_def)
    then show ?thesis
      using r Linked by (intro step_okI [where ws = "[]"])
        (use assms(1,2) ok u revs in \<open>auto simp: session_ok_def grows_def plausible_def after_def held_names_def\<close>)
  qed (intro step_okI [where ws = "[]"],
      use assms ok u revs in \<open>auto simp: session_ok_def grows_def plausible_def after_def held_names_def\<close>)+
qed

lemma call_step:
  assumes ok: "dir_ok d" "session_ok d g" "allowed g c" "env_ok e d" and p: "perform e c d = (a, d')"
  shows "step_ok d g c a d'"
proof (cases "ev_fault e")
  case (Some k)
  show ?thesis
  proof (cases "\<exists>i raw. c = Write_All i raw")
    case True
    then obtain i raw n where c: "c = Write_All i raw" "gh_hold g = Making n i" "length raw \<le> max_bytes"
      using ok(3) by (auto simp: allowed_def)
    then show ?thesis
      using p Some write_step [OF ok(1,2) c(2,3), where a = Err_IO and part = "take k raw" and t = "ev_now e"]
      by (auto simp: perform_def)
  next
    case False
    then have "a = Err_IO \<and> d' = d \<or> (c = Entries \<and> d' = d \<and>
        a = Names_Are (map (\<lambda>x. Some (fst x)) (take (k - 1) (sd_names d)) @ [None]))"
      using p Some by (cases c) (auto simp: perform_def split: if_splits)
    then show ?thesis
    proof
      assume "a = Err_IO \<and> d' = d"
      then show ?thesis using fault_step [OF ok(1,2), of c] False by blast
    next
      assume e: "c = Entries \<and> d' = d \<and> a = Names_Are (map (\<lambda>x. Some (fst x)) (take (k - 1) (sd_names d)) @ [None])"
      have "lookup d n \<noteq> None" if "Some n \<in> set (map (\<lambda>x. Some (fst x)) (take (k - 1) (sd_names d)) @ [None])" for n
        using that unfolding lookup_None by (auto dest: in_set_takeD)
      then show ?thesis using e entries_step [OF ok(1,2)] by blast
    qed
  qed
next
  case None
  then have p: "perform_ok e c d = (a, d')" using p by (simp add: perform_def)
  have same: "step_ok d g c b d" if "a = b" "d' = d" "\<And>h. after h c b = h" "plausible g c b" for b
    using step_same [OF ok(1,2)] that by blast
  show ?thesis
  proof (cases c)
    case Entries
    have "lookup d n \<noteq> None" if "Some n \<in> set (map (\<lambda>x. Some (fst x)) (sd_names d))" for n
      using that unfolding lookup_None by auto
    then have "step_ok d g Entries (Names_Are (map (\<lambda>x. Some (fst x)) (sd_names d))) d"
      by (rule entries_step [OF ok(1,2)])
    moreover have "a = Names_Are (map (\<lambda>x. Some (fst x)) (sd_names d))" "d' = d" using p Entries by auto
    ultimately show ?thesis using Entries by simp
  next
    case (Create_New n)
    then have n: "is_temp_name n" using ok(3) by (simp add: allowed_def)
    show ?thesis
    proof (cases "lookup d n")
      case None
      then show ?thesis
        using create_step [OF ok(1,2) n None, of "ev_fresh e" "ev_now e"] ok(4) p Create_New by (simp add: env_ok_def)
    qed (use p Create_New same [of Err_Exists] in \<open>auto simp: after_def plausible_def\<close>)
  next
    case (Write_All i raw)
    then obtain n where "gh_hold g = Making n i" "length raw \<le> max_bytes" using ok(3) by (auto simp: allowed_def)
    then show ?thesis using write_step [OF ok(1,2), of n i raw Done_Ok raw "ev_now e"] p Write_All by auto
  next
    case (Hard_Link n b)
    then obtain i raw where h: "gh_hold g = Ready n i raw"
      and b: "b = ''instance.json'' \<or>
        raw \<in> gh_asked g \<and> (\<exists>r. 1 \<le> r \<and> r \<le> Suc (gh_seen g) \<and> r \<le> max_revisions \<and> b = revision_name r)"
      using ok(3) by (auto simp: allowed_def)
    have n: "lookup d n = Some i" using ok(2) h by (simp add: session_ok_def sole_def)
    show ?thesis
    proof (cases "lookup d b")
      case None
      then show ?thesis using link_step [OF ok(1,2) h None b] p Hard_Link n by auto
    qed (use p Hard_Link n same [of Err_Exists] in \<open>auto simp: after_def plausible_def\<close>)
  next
    case (Remove n)
    then obtain i where h: "held (gh_hold g) = Some (n, i)" using ok(3) by (auto simp: allowed_def)
    then have "lookup d n = Some i" using ok(2) held_lookup [of d "gh_hold g" n i] by (simp add: session_ok_def)
    then show ?thesis using remove_step [OF ok(1,2) h] p Remove by auto
  qed (use looking_step [OF ok(1,2,4) _ p] in \<open>simp_all add: looks_def\<close>)
qed

section \<open>Interleaved sessions\<close>

text \<open>The invariant: every session is where its protocol allows, the sessions hold different files
  and have published different revisions.\<close>

definition runs_ok :: "sdir \<Rightarrow> report list prog list \<Rightarrow> ghost list \<Rightarrow> bool" where
  "runs_ok d ps gs \<longleftrightarrow> dir_ok d \<and> list_all2 (\<lambda>p g. proto p g honest \<and> session_ok d g) ps gs \<and>
     (\<forall>i j. i < length gs \<and> j < length gs \<and> i \<noteq> j \<longrightarrow> held_names (gs ! i) \<inter> held_names (gs ! j) = {}) \<and>
     distinct (concat (map (\<lambda>g. map fst (gh_won g)) gs))"

lemma held_names_lookup: "session_ok d g \<Longrightarrow> n \<in> held_names g \<Longrightarrow> lookup d n \<noteq> None"
  using held_lookup by (fastforce simp: held_names_def session_ok_def split: option.splits)

lemma session_undisturbed:
  assumes "session_ok d h" "undisturbed d own d'" "grows d ws d'" "held_names h \<inter> own = {}"
  shows "session_ok d' h"
proof -
  have "hold_ok d' (gh_hold h)"
    using assms(1,2,4) unfolding undisturbed_def session_ok_def held_names_def by (auto split: option.splits)
  moreover have "won_ok d' (gh_won h)"
    using won_ok_grows [OF _ assms(3), of "gh_won h"] assms(1) by (auto simp: session_ok_def won_ok_def)
  ultimately show ?thesis using assms(1) grows_revs [OF assms(3)] by (simp add: session_ok_def)
qed

lemma distinct_update:
  assumes "i < length gs" "F g = ws @ F (gs ! i)" "distinct (concat (map F gs))" "distinct ws"
    "set ws \<inter> set (concat (map F gs)) = {}"
  shows "distinct (concat (map F (gs[i := g])))"
proof -
  have gs: "gs = take i gs @ gs ! i # drop (Suc i) gs" using id_take_nth_drop [OF assms(1)] .
  have "concat (map F gs) = concat (map F (take i gs)) @ F (gs ! i) @ concat (map F (drop (Suc i) gs))"
    by (subst gs) simp
  moreover have "concat (map F (gs[i := g])) =
      concat (map F (take i gs)) @ (ws @ F (gs ! i)) @ concat (map F (drop (Suc i) gs))"
    by (simp add: upd_conv_take_nth_drop [OF assms(1)] assms(2))
  ultimately show ?thesis using assms(3-5) by auto
qed

lemma runs_ok_call:
  assumes ok: "runs_ok d ps gs" and i: "i < length ps" "ps ! i = Ask c k" and "env_ok e d" "perform e c d = (a, d')"
  shows "runs_ok d' (ps[i := k a]) (gs[i := after (gs ! i) c a]) \<and>
    (\<exists>ws. grows d ws d' \<and> snd ` set ws \<subseteq> gh_asked (gs ! i))"
proof -
  let ?g = "gs ! i" and ?g' = "after (gs ! i) c a"
  have d: "dir_ok d" and all: "list_all2 (\<lambda>p g. proto p g honest \<and> session_ok d g) ps gs"
    and disj: "\<And>i j. i < length gs \<Longrightarrow> j < length gs \<Longrightarrow> i \<noteq> j \<Longrightarrow> held_names (gs ! i) \<inter> held_names (gs ! j) = {}"
    and dist: "distinct (concat (map (\<lambda>g. map fst (gh_won g)) gs))"
    using ok unfolding runs_ok_def by blast+
  have len: "length gs = length ps" using all by (simp add: list_all2_lengthD)
  have sess: "session_ok d (gs ! j)" "proto (ps ! j) (gs ! j) honest" if "j < length gs" for j
    using list_all2_nthD2 [OF all] that by blast+
  have g: "allowed ?g c" "\<And>b. plausible ?g c b \<Longrightarrow> proto (k b) (after ?g c b) honest"
    using sess(2) [of i] i len by auto
  from call_step [OF d sess(1) [of i] g(1) assms(4,5)] i(1) len
  obtain ws where s: "plausible ?g c a" "dir_ok d'" "session_ok d' ?g'" "gh_won ?g' = ws @ gh_won ?g" "grows d ws d'"
    "undisturbed d (held_names ?g) d'" "\<And>n. n \<in> held_names ?g' \<Longrightarrow> n \<in> held_names ?g \<or> lookup d n = None"
    "snd ` set ws \<subseteq> gh_asked ?g"
    unfolding step_ok_def by auto
  have others: "session_ok d' (gs ! j)" if "j < length gs" "j \<noteq> i" for j
    using session_undisturbed [OF sess(1) [OF that(1)] s(6,5)] disj [of j i] that i(1) len by simp
  have "list_all2 (\<lambda>p g. proto p g honest \<and> session_ok d' g) (ps[i := k a]) (gs[i := ?g'])"
    unfolding list_all2_conv_all_nth
  proof (intro conjI allI impI)
    fix j assume "j < length (ps[i := k a])"
    then have "j < length gs" by (simp add: len)
    then show "proto (ps[i := k a] ! j) (gs[i := ?g'] ! j) honest" "session_ok d' (gs[i := ?g'] ! j)"
      using sess(2) [of j] others [of j] g(2) [OF s(1)] s(3) len by (cases "j = i"; simp)+
  qed (simp add: len)
  moreover have "held_names (gs[i := ?g'] ! j) \<inter> held_names (gs[i := ?g'] ! l) = {}"
    if "j < length gs" "l < length gs" "j \<noteq> l" for j l
  proof -
    have new: "held_names ?g' \<inter> held_names (gs ! m) = {}" if "m < length gs" "m \<noteq> i" for m
      using s(7) disj [of i m] that i(1) len held_names_lookup [OF sess(1) [OF that(1)]] by fastforce
    show ?thesis
      using that new [of j] new [of l] disj [OF that] by (cases "j = i"; cases "l = i") (auto simp: Int_commute)
  qed
  moreover have "distinct (concat (map (\<lambda>g. map fst (gh_won g)) (gs[i := ?g'])))"
  proof (rule distinct_update [where ws = "map fst ws"])
    have "r \<le> revs d" if "r \<in> set (map fst (gh_won (gs ! j)))" "j < length gs" for r j
      using that sess(1) [of j] by (auto simp: session_ok_def won_ok_def)
    then have "r \<le> revs d" if "r \<in> set (concat (map (\<lambda>g. map fst (gh_won g)) gs))" for r
      using that by (fastforce simp: in_set_conv_nth [of _ gs])
    then show "set (map fst ws) \<inter> set (concat (map (\<lambda>g. map fst (gh_won g)) gs)) = {}"
      using s(5) by (fastforce simp: grows_def)
  qed (use i(1) len s(4,5) dist in \<open>auto simp: grows_def\<close>)
  ultimately have "runs_ok d' (ps[i := k a]) (gs[i := ?g'])" using s(2) unfolding runs_ok_def by auto
  then show ?thesis using s(5,8) by blast
qed

lemma asked_after [simp]: "gh_asked (after g c a) = gh_asked g"
  by (auto simp: after_def split: call.splits answer.splits hold.splits option.splits)

lemma runs_ok_start:
  assumes "runs_ok d ps gs"
  shows "runs_ok d (ps @ [session path ops]) (gs @ [\<lparr>gh_hold = Free, gh_seen = 0, gh_won = [], gh_asked = asked_of ops\<rparr>])"
proof -
  let ?g = "\<lparr>gh_hold = Free, gh_seen = 0, gh_won = [], gh_asked = asked_of ops\<rparr>"
  have "session_ok d ?g" by (simp add: session_ok_def won_ok_def)
  moreover have "held_names ?g = {}" by (simp add: held_names_def)
  moreover have "proto (session path ops) ?g honest" by (rule proto_session) simp_all
  ultimately show ?thesis
    using assms unfolding runs_ok_def
    by (auto simp: nth_append less_Suc_eq intro!: list_all2_appendI)
qed

lemma runs_ok_steps:
  assumes "store_steps x y" "runs_ok (fst x) (snd x) gs"
  shows "\<exists>hs. runs_ok (fst y) (snd y) hs \<and> prefix (log_of (fst x)) (log_of (fst y))"
  using assms
proof (induction rule: rtranclp_induct)
  case (step y z)
  then obtain hs where y: "runs_ok (fst y) (snd y) hs" "prefix (log_of (fst x)) (log_of (fst y))" by blast
  from step(2) y show ?case
  proof cases
    case (start d ps path ops)
    then have "runs_ok d ps hs" using y(1) by simp
    then have "runs_ok (fst z) (snd z) (hs @ [\<lparr>gh_hold = Free, gh_seen = 0, gh_won = [], gh_asked = asked_of ops\<rparr>])"
      using runs_ok_start start by simp
    then show ?thesis using y(2) start by (intro exI conjI) simp_all
  next
    case (call i ps c k e d a d')
    then have "runs_ok d ps hs" using y(1) by simp
    from runs_ok_call [OF this call(3-6)] call(1,2) y(2) show ?thesis
      using grows_prefix prefix_order.order_trans by fastforce
  qed
qed auto

end
