(* ===== verification/StoreAlone.thy ===== *)
theory StoreAlone
  imports StoreLog "HOL-Library.Multiset"
begin

text \<open>
  One session of the checkpoint store on its own in a well formed directory, with nothing failing:
  the scan gives the last revision, whatever private files earlier sessions have left behind, a
  save appends its revision, and a read gives it back.
\<close>

section \<open>Nothing fails\<close>

text \<open>\<open>M\<close> is the metadata of the directories on the way, \<open>ns\<close> the path of the store.\<close>

definition calm_answer :: "(names \<Rightarrow> fs_meta) \<Rightarrow> names \<Rightarrow> call \<Rightarrow> answer \<Rightarrow> bool" where
  "calm_answer M ns c a =
     (case c of
        Path_Stat p \<Rightarrow> a = Meta_Is (M p)
      | Path_Meta p \<Rightarrow> a = Meta_Is (M p)
      | Path_Open p \<Rightarrow> a = Done_Ok
      | Own_Meta \<Rightarrow> a = Meta_Is (M ns)
      | Clock \<Rightarrow> (case a of
          Stamp_Is p s t \<Rightarrow> p \<le> u32_max \<and> s \<le> u64_max \<and> t < 16 ^ 32
        | _ \<Rightarrow> False)
      | _ \<Rightarrow> True)"

definition calm :: "(call \<Rightarrow> sdir \<Rightarrow> env) \<Rightarrow> (names \<Rightarrow> fs_meta) \<Rightarrow> names \<Rightarrow> bool" where
  "calm E M ns \<longleftrightarrow>
     (\<forall>c d. ev_fault (E c d) = None \<and> ev_fresh (E c d) \<notin> snd ` set (sd_names d) \<and>
        calm_answer M ns c (ev_other (E c d))) \<and>
     (\<forall>p. fm_dir (M p)) \<and> fm_mode (M ns) AND 4095 = 448 \<and> list_all name_ok ns \<and> ns \<noteq> []"

text \<open>The stamp taken in \<open>d\<close> gives a name that is not there.\<close>

definition unused_stamp :: "(call \<Rightarrow> sdir \<Rightarrow> env) \<Rightarrow> sdir \<Rightarrow> bool" where
  "unused_stamp E d = (case ev_other (E Clock d) of Stamp_Is p s t \<Rightarrow> lookup d (temp_name p s t) = None | _ \<Rightarrow> False)"

lemma run_bind [simp]:
  "run_alone E (bind_prog p f) d = (case run_alone E p d of (x, d') \<Rightarrow> run_alone E (f x) d')"
  by (induction p arbitrary: d) (auto split: prod.splits)

lemma run_then [simp]:
  "run_alone E (then_do p f) d =
     (case run_alone E p d of (Inl e, d') \<Rightarrow> (Inl e, d') | (Inr x, d') \<Rightarrow> run_alone E (f x) d')"
  by (auto simp: then_do_def split: prod.splits sum.splits)

lemma run_syscall [simp]:
  "run_alone E (syscall c f) d = (case perform (E c d) c d of (a, d') \<Rightarrow> (f a, d'))"
  by (simp add: syscall_def)

lemma same_inode_refl [simp]: "same_inode (identity_of m) m"
  by (simp add: same_inode_def identity_of_def)

lemma calm_perform:
  assumes calm: "calm E M ns"
  shows "perform (E c d) c d = perform_ok (E c d) c d"
  using calm unfolding calm_def perform_def by simp

lemma calm_paths:
  assumes calm: "calm E M ns"
  shows "perform (E (Path_Stat p) d) (Path_Stat p) d = (Meta_Is (M p), d)"
  "perform (E (Path_Meta p) d) (Path_Meta p) d = (Meta_Is (M p), d)"
  "perform (E (Path_Open p) d) (Path_Open p) d = (Done_Ok, d)"
  "perform (E Own_Meta d) Own_Meta d = (Meta_Is (M ns), d)"
proof -
  have C: "calm_answer M ns c (ev_other (E c d))" for c d
    using calm unfolding calm_def by blast
  show "perform (E (Path_Stat p) d) (Path_Stat p) d = (Meta_Is (M p), d)"
    using C [of "Path_Stat p"] by (simp add: calm_perform [OF calm] calm_answer_def)
  show "perform (E (Path_Meta p) d) (Path_Meta p) d = (Meta_Is (M p), d)"
    using C [of "Path_Meta p"] by (simp add: calm_perform [OF calm] calm_answer_def)
  show "perform (E (Path_Open p) d) (Path_Open p) d = (Done_Ok, d)"
    using C [of "Path_Open p"] by (simp add: calm_perform [OF calm] calm_answer_def)
  show "perform (E Own_Meta d) Own_Meta d = (Meta_Is (M ns), d)"
    using C [of Own_Meta] by (simp add: calm_perform [OF calm] calm_answer_def)
qed

lemma calm_clock:
  assumes calm: "calm E M ns" and "unused_stamp E d"
  shows "\<exists>p s t. perform (E Clock d) Clock d = (Stamp_Is p s t, d) \<and> is_temp_name (temp_name p s t) \<and>
    lookup d (temp_name p s t) = None"
proof -
  have "calm_answer M ns Clock (ev_other (E Clock d))" using calm unfolding calm_def by blast
  then show ?thesis
    using assms(2) is_temp_name_temp
    by (cases "ev_other (E Clock d)") (auto simp: calm_perform [OF calm] calm_answer_def unused_stamp_def)
qed

lemma calm_meta:
  assumes calm: "calm E M ns"
  shows "fm_dir (M p)" "require_directory (M ns) = Inr ()"
  using calm by (auto simp: calm_def require_directory_def)

lemma calm_path:
  assumes calm: "calm E M ns"
  shows "list_all name_ok ns" "ns \<noteq> []"
  using calm by (auto simp: calm_def)

lemma run_anchor_walk:
  assumes calm: "calm E M ns"
  shows "run_alone E (anchor_walk False u ms) d = (Inr (), d)"
  by (induction ms arbitrary: u) (simp_all add: calm_paths [OF calm] calm_meta [OF calm] stat_or_create_def Let_def unit_or_def meta_or_def)

lemma run_parent_anchor:
  assumes calm: "calm E M ns"
  shows "run_alone E (parent_anchor False (path_text ns)) d = (Inr (butlast ns, last ns), d)"
proof -
  have "is_absolute (path_text ns)" "path_text ns \<noteq> []" by (simp_all add: is_absolute_def path_text_def)
  moreover have "walk_names (components (path_text ns)) = Inr ns"
    using components_path_text [OF calm_path(1) [OF calm]] walk_names_Normal [of ns] by simp
  ultimately show ?thesis using calm_path(2) [OF calm] by (simp add: calm_paths [OF calm] run_anchor_walk [OF calm] parent_anchor_def unit_or_def)
qed

lemma run_ensure_anchor:
  assumes calm: "calm E M ns"
  shows "sto_path s = path_text ns \<Longrightarrow> sto_identity s = identity_of (M ns) \<Longrightarrow> run_alone E (ensure_anchor s) d = (Inr (), d)"
  using calm_path(2) [OF calm] by (simp add: calm_paths [OF calm] calm_meta [OF calm] run_parent_anchor [OF calm] ensure_anchor_def meta_or_def)

lemma calm_simps:
  assumes calm: "calm E M ns"
  shows "perform (E Entries d) Entries d = (Names_Are (map (\<lambda>x. Some (fst x)) (sd_names d)), d)"
  "perform (E (Handle_Meta i) d) (Handle_Meta i) d = (Meta_Is (node_meta d i), d)"
  "perform (E (Read_All i k) d) (Read_All i k) d = (Bytes_Are (take k (sn_content (sd_nodes d i))), d)"
  "perform (E (Sync_File i) d) (Sync_File i) d = (Done_Ok, d)"
  "perform (E Sync_Dir d) Sync_Dir d = (Done_Ok, d)"
  "lookup d n = Some i \<Longrightarrow> perform (E (Stat n) d) (Stat n) d = (Meta_Is (node_meta d i), d)"
  "lookup d n = None \<Longrightarrow> perform (E (Stat n) d) (Stat n) d = (Err_Missing, d)"
  "lookup d n = Some i \<Longrightarrow> perform (E (Open_Read n) d) (Open_Read n) d = (Handle_Is i, d)"
  "lookup d n = Some i \<Longrightarrow> perform (E (Remove n) d) (Remove n) d = (Done_Ok, unlink_file n i d)"
  "lookup d n = Some i \<Longrightarrow> lookup d m = None \<Longrightarrow>
     perform (E (Hard_Link n m) d) (Hard_Link n m) d = (Done_Ok, link_file m i d)"
  by (simp_all add: calm_perform [OF calm])


section \<open>The scan of a well formed directory\<close>

text \<open>Reading the entries comes down to this fold.\<close>

fun scanned :: "sdir \<Rightarrow> (string \<times> node_id) list \<Rightarrow> store_scan \<Rightarrow> store_scan result" where
  "scanned d [] s = Inr s"
| "scanned d ((n, i) # xs) s = and_then (scan_entry n (node_meta d i) s) (scanned d xs)"

lemma digit_ascii: "digit_val c < 10 \<Longrightarrow> byte_val c < 128"
  by (auto simp: digit_val_def is_digit_def is_lower_def is_upper_def split: if_splits)

lemma digits_ascii: "list_all (\<lambda>c. digit_val c < 10) s \<Longrightarrow> is_ascii s"
  using digit_ascii by (auto simp: is_ascii_def list_all_iff)

lemma parse_uint_ascii: "parse_uint 10 m s \<noteq> None \<Longrightarrow> is_ascii s"
proof -
  assume s: "parse_uint 10 m s \<noteq> None"
  show ?thesis
  proof (cases s)
    case (Cons x r)
    show ?thesis
    proof (cases "x = CHR ''+''")
      case True
      then have "list_all (\<lambda>c. digit_val c < 10) r" using s Cons by (simp add: parse_uint_def Let_def split: if_splits)
      then show ?thesis using digits_ascii [of r] Cons True by (simp add: is_ascii_def)
    next
      case False
      then have "list_all (\<lambda>c. digit_val c < 10) s" using s Cons by (simp add: parse_uint_def Let_def split: if_splits)
      then show ?thesis by (rule digits_ascii)
    qed
  qed (simp add: is_ascii_def)
qed

lemma temp_name_ascii: "is_temp_name n \<Longrightarrow> is_ascii n"
proof -
  assume "is_temp_name n"
  then obtain rest a b c where r: "n = ''.bxdl-tmp-'' @ rest" "split_on (CHR ''-'') rest = [a, b, c]"
    and p: "parse_uint 10 u32_max a \<noteq> None" "parse_uint 10 u64_max b \<noteq> None" "list_all is_hexdigit c"
    by (auto simp: is_temp_name_def split: option.splits list.splits)
  have "rest = join_with (CHR ''-'') [a, b, c]" using join_split_on [of "CHR ''-''" rest] r(2) by simp
  moreover have "is_ascii c" using p(3) by (auto simp: is_ascii_def list_all_iff is_hexdigit_def is_lower_hex_def is_digit_def)
  ultimately show ?thesis using parse_uint_ascii p(1,2) r(1) by simp
qed

lemma good_name_utf8: "good_name n \<Longrightarrow> valid_utf8 n"
proof (rule valid_utf8_ascii)
  assume "good_name n"
  then consider "n = ''instance.json''" | "is_temp_name n" | r where "parse_revision n = Some r"
    by (auto simp: good_name_def)
  then show "is_ascii n"
  proof cases
    case 3
    have "is_ascii (padded 8 (show_radix 10 r))"
      using padded_digits [OF show_radix_is_digit [of r], of 8] by (auto simp: is_ascii_def list_all_iff is_digit_def)
    then show ?thesis using parse_revision_Some [OF 3] by (simp add: revision_name_def)
  qed (simp_all add: temp_name_ascii)
qed

lemma run_scan_names:
  assumes calm: "calm E M ns"
  shows "(\<And>n i. (n, i) \<in> set xs \<Longrightarrow> lookup d n = Some i \<and> good_name n) \<Longrightarrow> k + length xs \<le> max_entries \<Longrightarrow>
     run_alone E (scan_names k (map (\<lambda>x. Some (fst x)) xs) s) d = (scanned d xs s, d)"
proof (induction xs arbitrary: k s)
  case (Cons x xs)
  obtain n i where x: "x = (n, i)" by (cases x)
  then have n: "lookup d n = Some i" "good_name n" using Cons.prems(1) [of n i] by simp_all
  have IH: "run_alone E (scan_names (Suc k) (map (\<lambda>x. Some (fst x)) xs) s') d = (scanned d xs s', d)" for s'
  proof (rule Cons.IH)
    show "lookup d n = Some i \<and> good_name n" if "(n, i) \<in> set xs" for n i
      using Cons.prems(1) [of n i] that by simp
  qed (use Cons.prems(2) in simp)
  show ?case
    using n(1) good_name_utf8 [OF n(2)] Cons.prems(2)
    by (simp add: x IH calm_simps [OF calm] split: sum.splits)
qed simp


text \<open>What has been collected after the entries \<open>xs\<close>.\<close>

definition temps_in :: "(string \<times> node_id) list \<Rightarrow> node_id \<Rightarrow> nat" where
  "temps_in xs i = length (filter (\<lambda>x. is_temp_name (fst x) \<and> snd x = i) xs)"

lemma temps_in_Cons [simp]:
  "temps_in ((n, i) # xs) = (if is_temp_name n then (temps_in xs)(i := Suc (temps_in xs i)) else temps_in xs)"
  by (auto simp: temps_in_def fun_eq_iff)

lemma temps_in_rev [simp]: "temps_in (rev xs) = temps_in xs"
  by (simp add: temps_in_def fun_eq_iff rev_filter [symmetric])

lemma map_of_rev: "distinct (map fst xs) \<Longrightarrow> map_of (rev xs) = map_of xs"
  by (subst map_of_inject_set) (simp_all add: rev_map [symmetric])

definition revision_entry :: "sdir \<Rightarrow> string \<times> node_id \<Rightarrow> nat \<times> fs_meta" where
  "revision_entry d x = (the (parse_revision (fst x)), node_meta d (snd x))"

definition collected :: "sdir \<Rightarrow> (string \<times> node_id) list \<Rightarrow> store_scan \<Rightarrow> bool" where
  "collected d xs s \<longleftrightarrow>
     mset (sc_revisions s) = mset (map (revision_entry d) (filter is_revision xs)) \<and>
     sc_exported s = map_option (node_meta d) (map_of xs ''instance.json'') \<and>
     map_of (sc_temps s) = (\<lambda>i. if temps_in xs i = 0 then None else Some (temps_in xs i, links_to d i)) \<and>
     distinct (map fst (sc_temps s))"

lemma node_of_meta [simp]: "node_of (node_meta d i) = i"
  by (simp add: node_meta_def Let_def)

lemma file_ok_regular: "file_ok d i \<Longrightarrow> require_regular (node_meta d i) = Inr ()"
  by (auto simp: file_ok_def require_regular_def node_meta_def Let_def)

lemma map_of_filter_ne: "map_of (filter (\<lambda>x. fst x \<noteq> k) xs) = (map_of xs)(k := None)"
  by (induction xs) (auto simp: fun_eq_iff)

lemma distinct_filter_fst: "distinct (map fst xs) \<Longrightarrow> distinct (map fst (filter P xs))"
  by (induction xs) auto

lemma temps_put:
  assumes "distinct (map fst (sc_temps s))" "node_of m = i"
  shows "map_of (sc_temps (put_temp m s)) = (map_of (sc_temps s))(i \<mapsto>
      (case map_of (sc_temps s) i of None \<Rightarrow> (1, fm_links m) | Some (c, l) \<Rightarrow> (Suc c, l)))"
    and "distinct (map fst (sc_temps (put_temp m s)))"
    and "sc_revisions (put_temp m s) = sc_revisions s" "sc_exported (put_temp m s) = sc_exported s"
proof -
  show "map_of (sc_temps (put_temp m s)) = (map_of (sc_temps s))(i \<mapsto>
      (case map_of (sc_temps s) i of None \<Rightarrow> (1, fm_links m) | Some (c, l) \<Rightarrow> (Suc c, l)))"
    unfolding put_temp_def assms(2) by (cases "map_of (sc_temps s) i") (simp_all add: map_of_filter_ne split: prod.split)
  show "distinct (map fst (sc_temps (put_temp m s)))"
  proof (cases "map_of (sc_temps s) i")
    case None
    then show ?thesis using assms by (simp add: put_temp_def) (simp add: map_of_eq_None_iff)
  next
    case (Some y)
    moreover have "i \<notin> fst ` set (filter (\<lambda>x. fst x \<noteq> i) (sc_temps s))" by auto
    ultimately show ?thesis
      using assms distinct_filter_fst [OF assms(1)] by (simp add: put_temp_def split: prod.split)
  qed
qed (simp_all add: put_temp_def)

lemma scan_entry_collects:
  assumes "dir_ok d" "collected d xs s" "lookup d n = Some i" "n \<notin> fst ` set xs"
  shows "\<exists>s'. scan_entry n (node_meta d i) s = Inr s' \<and> collected d ((n, i) # xs) s'"
proof -
  note d = dir_okD [OF assms(1)]
  have reg: "require_regular (node_meta d i) = Inr ()" by (rule file_ok_regular [OF d(3) [OF assms(3)]])
  have links: "fm_links (node_meta d i) = links_to d i"
    using d(3) [OF assms(3)] by (simp add: file_ok_def node_meta_def Let_def)
  note c = assms(2) [unfolded collected_def]
  consider "n = ''instance.json''" | "is_temp_name n" "n \<noteq> ''instance.json''"
    | r where "parse_revision n = Some r" "n \<noteq> ''instance.json''" "\<not> is_temp_name n"
    using d(2) [OF assms(3)] by (auto simp: good_name_def)
  then show ?thesis
  proof cases
    case 1
    then have "\<not> is_revision (n, i)" "\<not> is_temp_name n" by (simp_all add: is_revision_def)
    then have "collected d ((n, i) # xs) (s\<lparr>sc_exported := Some (node_meta d i)\<rparr>)"
      using c 1 by (simp add: collected_def cong: if_cong)
    then show ?thesis using 1 reg by (simp add: scan_entry_def)
  next
    case 2
    then have "\<not> is_revision (n, i)" by (simp add: is_revision_def)
    moreover have "map_of (sc_temps (put_temp (node_meta d i) s)) =
        (\<lambda>j. if temps_in ((n, i) # xs) j = 0 then None else Some (temps_in ((n, i) # xs) j, links_to d j))"
    proof
      fix j
      show "map_of (sc_temps (put_temp (node_meta d i) s)) j =
        (if temps_in ((n, i) # xs) j = 0 then None else Some (temps_in ((n, i) # xs) j, links_to d j))"
        unfolding temps_put(1) [OF conjunct2 [OF conjunct2 [OF conjunct2 [OF c]]] node_of_meta]
        using c 2(1) links by (cases "j = i") simp_all
    qed
    ultimately have "collected d ((n, i) # xs) (put_temp (node_meta d i) s)"
      using c 2 temps_put(2-4) [OF _ node_of_meta, of s d i] unfolding collected_def by simp
    then show ?thesis using 2 reg by (simp add: scan_entry_def)
  next
    case 3
    have "fst x \<noteq> r" if "x \<in> set (sc_revisions s)" for x
    proof
      assume "fst x = r"
      have "x \<in> set (map (revision_entry d) (filter is_revision xs))" using that c by (metis set_mset_mset)
      then obtain y where y: "y \<in> set xs" "is_revision y" "the (parse_revision (fst y)) = r"
        using \<open>fst x = r\<close> by (auto simp: revision_entry_def)
      then have "parse_revision (fst y) = Some r" by (auto simp: is_revision_def)
      then have "fst y = n" using parse_revision_Some 3(1) by metis
      then show False using y(1) assms(4) by blast
    qed
    then have "filter (\<lambda>x. fst x \<noteq> r) (sc_revisions s) = sc_revisions s" by (intro filter_True) auto
    then have "collected d ((n, i) # xs) (put_revision r (node_meta d i) s)"
      using c 3 by (simp add: collected_def put_revision_def is_revision_def revision_entry_def cong: if_cong)
    then show ?thesis using 3 reg by (simp add: scan_entry_def)
  qed
qed

lemma scanned_collects:
  assumes "dir_ok d"
  shows "collected d ys s \<Longrightarrow> (\<And>n i. (n, i) \<in> set xs \<Longrightarrow> lookup d n = Some i) \<Longrightarrow> distinct (map fst (rev xs @ ys)) \<Longrightarrow>
     \<exists>s'. scanned d xs s = Inr s' \<and> collected d (rev xs @ ys) s'"
proof (induction xs arbitrary: ys s)
  case (Cons x xs)
  obtain n i where x: "x = (n, i)" by (cases x)
  have "lookup d n = Some i" using Cons.prems(2) [of n i] x by simp
  moreover have "n \<notin> fst ` set ys" using Cons.prems(3) by (auto simp: x)
  ultimately obtain t where t: "scan_entry n (node_meta d i) s = Inr t" "collected d ((n, i) # ys) t"
    using scan_entry_collects [OF assms Cons.prems(1)] by blast
  have "\<exists>s'. scanned d xs t = Inr s' \<and> collected d (rev xs @ (n, i) # ys) s'"
    by (rule Cons.IH [OF t(2)]) (use Cons.prems(2,3) in \<open>auto simp: x\<close>)
  then show ?case using t(1) x by simp
qed simp

section \<open>What the scan found\<close>

text \<open>The entries of a well formed directory all end up in the scan, and the scan passes its checks.\<close>

definition complete_scan :: "sdir \<Rightarrow> store_scan \<Rightarrow> bool" where
  "complete_scan d s \<longleftrightarrow> collected d (rev (sd_names d)) s"

lemma scan_all_collected:
  assumes "dir_ok d"
  shows "\<exists>s. scanned d (sd_names d) no_scan = Inr s \<and> complete_scan d s"
proof -
  have "collected d [] no_scan" by (simp add: collected_def no_scan_def temps_in_def fun_eq_iff)
  then show ?thesis
    using scanned_collects [OF assms, of "[]" no_scan "sd_names d"] dir_okD(1) [OF assms] names_lookup
    by (fastforce simp: complete_scan_def rev_map [symmetric])
qed

lemma revisions_complete:
  assumes "dir_ok d" "complete_scan d s"
  shows "length (sc_revisions s) = revs d" "sort (map fst (sc_revisions s)) = [1..<Suc (revs d)]"
    "\<And>r m. (r, m) \<in> set (sc_revisions s) \<Longrightarrow> \<exists>i. lookup d (revision_name r) = Some i \<and> m = node_meta d i"
proof -
  note d = dir_okD [OF assms(1)]
  have c: "mset (sc_revisions s) = mset (map (revision_entry d) (filter is_revision (sd_names d)))"
    using assms(2) by (simp add: complete_scan_def collected_def)
  show len: "length (sc_revisions s) = revs d" using mset_eq_length [OF c] by (simp add: revs_def)
  have elems: "set (sc_revisions s) = revision_entry d ` set (filter is_revision (sd_names d))"
    using mset_eq_setD [OF c] by simp
  have entry: "1 \<le> fst x \<and> fst x \<le> max_revisions \<and> (\<exists>i. lookup d (revision_name (fst x)) = Some i \<and> snd x = node_meta d i)"
    if "x \<in> set (sc_revisions s)" for x
  proof -
    obtain n i r where y: "(n, i) \<in> set (sd_names d)" "parse_revision n = Some r" "x = (r, node_meta d i)"
      using \<open>x \<in> _\<close> elems by (auto simp: is_revision_def revision_entry_def)
    then show ?thesis using parse_revision_Some [OF y(2)] names_lookup [OF d(1), of n i] by auto
  qed
  show "\<exists>i. lookup d (revision_name r) = Some i \<and> m = node_meta d i" if "(r, m) \<in> set (sc_revisions s)" for r m
    using entry [OF that] by simp
  have "set (map fst (sc_revisions s)) \<subseteq> set [1..<Suc (revs d)]"
  proof
    fix r assume "r \<in> set (map fst (sc_revisions s))"
    then obtain x where x: "x \<in> set (sc_revisions s)" "r = fst x" by auto
    then show "r \<in> set [1..<Suc (revs d)]" using entry [OF x(1)] d(5) [of r] by auto
  qed
  moreover have "set [1..<Suc (revs d)] \<subseteq> set (map fst (sc_revisions s))"
  proof
    fix r assume "r \<in> set [1..<Suc (revs d)]"
    then have r: "1 \<le> r" "r \<le> revs d" by auto
    then obtain i where "lookup d (revision_name r) = Some i" using revision_there [OF assms(1)] by blast
    then have "(revision_name r, i) \<in> set (filter is_revision (sd_names d))"
      using lookup_names parse_revision_name [of r] r d(6) by (auto simp: is_revision_def)
    then show "r \<in> set (map fst (sc_revisions s))"
      using elems parse_revision_name [of r] r d(6) by (force simp: revision_entry_def)
  qed
  ultimately have all: "set (map fst (sc_revisions s)) = set [1..<Suc (revs d)]" by blast
  have "card (set (map fst (sc_revisions s))) = length [1..<Suc (revs d)]"
    unfolding all by (rule distinct_card) simp
  then have "distinct (map fst (sc_revisions s))"
    using len by (intro card_distinct) simp
  then have "mset (map fst (sc_revisions s)) = mset [1..<Suc (revs d)]"
    using all by (subst set_eq_iff_mset_eq_distinct [symmetric]) auto
  then show "sort (map fst (sc_revisions s)) = [1..<Suc (revs d)]"
    by (intro properties_for_sort) (simp_all only: sorted_upt)
qed

lemma mset_published: "mset (published s) = image_mset snd (mset (sc_revisions s)) +
    (case sc_exported s of None \<Rightarrow> {#} | Some m \<Rightarrow> {#m#})"
  by (simp add: published_def split: option.split)

lemma public_split:
  "(\<And>n i. (n, i) \<in> set xs \<Longrightarrow> good_name n) \<Longrightarrow> distinct (map fst xs) \<Longrightarrow>
     mset (map (\<lambda>x. node_meta d (snd x)) (filter (\<lambda>x. \<not> is_temp_name (fst x)) xs)) =
     image_mset snd (mset (map (revision_entry d) (filter is_revision xs))) +
     (case map_of xs ''instance.json'' of None \<Rightarrow> {#} | Some i \<Rightarrow> {#node_meta d i#})"
proof (induction xs)
  case (Cons x xs)
  obtain n i where x: "x = (n, i)" by (cases x)
  have IH: "mset (map (\<lambda>x. node_meta d (snd x)) (filter (\<lambda>x. \<not> is_temp_name (fst x)) xs)) =
     image_mset snd (mset (map (revision_entry d) (filter is_revision xs))) +
     (case map_of xs ''instance.json'' of None \<Rightarrow> {#} | Some i \<Rightarrow> {#node_meta d i#})"
    by (rule Cons.IH) (use Cons.prems in \<open>force+\<close>)
  have "good_name n" using Cons.prems(1) [of n i] x by simp
  then consider "n = ''instance.json''" | "is_temp_name n" "n \<noteq> ''instance.json''"
    | r where "parse_revision n = Some r" "n \<noteq> ''instance.json''" "\<not> is_temp_name n"
    by (auto simp: good_name_def)
  then show ?case
  proof cases
    case 1
    then have "map_of xs ''instance.json'' = None" using Cons.prems(2) x by (simp add: map_of_eq_None_iff)
    then show ?thesis using IH 1 x by (simp add: is_revision_def)
  next
    case 2
    then show ?thesis using IH x by (simp add: is_revision_def)
  next
    case 3
    then have "is_revision (n, i)" "revision_entry d (n, i) = (r, node_meta d i)"
      by (simp_all add: is_revision_def revision_entry_def)
    then show ?thesis using IH 3 x by simp
  qed
qed simp

definition publics_in :: "(string \<times> node_id) list \<Rightarrow> node_id \<Rightarrow> nat" where
  "publics_in xs i = length (filter (\<lambda>x. \<not> is_temp_name (fst x) \<and> snd x = i) xs)"

lemma links_split: "links_to d i = temps_in (sd_names d) i + publics_in (sd_names d) i"
proof -
  have "length (filter (\<lambda>x. snd x = i) xs) = temps_in xs i + publics_in xs i" for xs :: "(string \<times> node_id) list"
    by (induction xs) (auto simp: temps_in_def publics_in_def)
  then show ?thesis by (simp add: links_to_def)
qed

lemma published_complete:
  assumes "dir_ok d" "complete_scan d s"
  shows "mset (published s) = mset (map (\<lambda>x. node_meta d (snd x)) (filter (\<lambda>x. \<not> is_temp_name (fst x)) (sd_names d)))"
proof -
  note d = dir_okD [OF assms(1)]
  have "mset (published s) = image_mset snd (mset (map (revision_entry d) (filter is_revision (sd_names d)))) +
     (case map_of (sd_names d) ''instance.json'' of None \<Rightarrow> {#} | Some i \<Rightarrow> {#node_meta d i#})"
    using assms(2) d(1) unfolding mset_published
    by (simp add: complete_scan_def collected_def map_of_rev split: option.split)
  also have "\<dots> = mset (map (\<lambda>x. node_meta d (snd x)) (filter (\<lambda>x. \<not> is_temp_name (fst x)) (sd_names d)))"
    using public_split [of "sd_names d" d] d(1,2) names_lookup [OF d(1)] by metis
  finally show ?thesis .
qed

lemma check_scan_complete:
  assumes "dir_ok d" "complete_scan d s"
  shows "check_scan s = Inr ()"
proof -
  note d = dir_okD [OF assms(1)]
  note p = published_complete [OF assms]
  have temps: "map_of (sc_temps s) = (\<lambda>i. if temps_in (sd_names d) i = 0 then None
      else Some (temps_in (sd_names d) i, links_to d i))" "distinct (map fst (sc_temps s))"
    using assms(2) by (simp_all add: complete_scan_def collected_def cong: if_cong)
  have count: "length (filter (\<lambda>m. node_of m = i) (published s)) = publics_in (sd_names d) i" for i
  proof -
    have "mset (filter (\<lambda>m. node_of m = i) (published s)) = mset (filter (\<lambda>m. node_of m = i)
        (map (\<lambda>x. node_meta d (snd x)) (filter (\<lambda>x. \<not> is_temp_name (fst x)) (sd_names d))))"
      using arg_cong [OF p, of "filter_mset (\<lambda>m. node_of m = i)"] by (simp only: mset_filter)
    from mset_eq_length [OF this] show ?thesis
      by (simp only: publics_in_def filter_map comp_def length_map filter_filter node_of_meta)
  qed
  have "temp_links_ok s"
    unfolding temp_links_ok_def list_all_iff
  proof (intro ballI)
    fix x assume x: "x \<in> set (sc_temps s)"
    obtain i links actual where e: "x = (i, links, actual)" by (cases x)
    then have "map_of (sc_temps s) i = Some (links, actual)" using temps(2) x by simp
    then have "actual = links + publics_in (sd_names d) i"
      using temps(1) links_split [of d i] by (auto split: if_splits)
    then show "case x of (i, links, actual) \<Rightarrow> actual = links + length (filter (\<lambda>m. node_of m = i) (published s))"
      by (simp only: e prod.case count)
  qed
  moreover have "links_ok s"
    unfolding links_ok_def list_all_iff
  proof
    fix m assume "m \<in> set (published s)"
    then have "m \<in> set (map (\<lambda>x. node_meta d (snd x)) (filter (\<lambda>x. \<not> is_temp_name (fst x)) (sd_names d)))"
      using p by (metis set_mset_mset)
    then obtain n i where n: "(n, i) \<in> set (sd_names d)" "\<not> is_temp_name n" "m = node_meta d i" by auto
    then have l: "lookup d n = Some i" using names_lookup [OF d(1)] by simp
    have "filter (\<lambda>x. \<not> is_temp_name (fst x) \<and> snd x = i) (sd_names d) = filter (\<lambda>x. x = (n, i)) (sd_names d)"
    proof (rule filter_cong [OF refl])
      fix x assume "x \<in> set (sd_names d)"
      then have "lookup d (fst x) = Some (snd x)" using names_lookup [OF d(1), of "fst x" "snd x"] by simp
      then show "(\<not> is_temp_name (fst x) \<and> snd x = i) = (x = (n, i))"
        using d(4) [OF _ l, of "fst x"] n(2) by (cases x) auto
    qed
    moreover have "distinct (sd_names d)" using d(1) by (simp add: distinct_map)
    ultimately have "publics_in (sd_names d) i = 1"
      using n(1) by (simp add: publics_in_def distinct_length_filter)
    moreover have "fm_links m = links_to d i" using d(3) [OF l] n(3) by (simp add: file_ok_def node_meta_def Let_def)
    ultimately show "fm_links m = 1 + (case map_of (sc_temps s) (node_of m) of None \<Rightarrow> 0 | Some (k, _) \<Rightarrow> k)"
      using temps(1) links_split [of d i] n(3) by simp
  qed
  ultimately show ?thesis
    using revisions_complete [OF assms] by (simp add: check_scan_def)
qed

lemma last_complete:
  assumes "dir_ok d" "complete_scan d s"
  shows "last_revision s = (if revs d = 0 then None
     else Some (revs d, node_meta d (the (lookup d (revision_name (revs d))))))"
proof (cases "revs d = 0")
  case False
  note r = revisions_complete [OF assms]
  have ne: "sort_key fst (sc_revisions s) \<noteq> []" using r(1) False by (metis length_0_conv length_sort)
  have "map fst (sort_key fst (sc_revisions s)) = sort (map fst (sc_revisions s))"
    by (rule properties_for_sort [symmetric]) simp_all
  then have fst: "fst (last (sort_key fst (sc_revisions s))) = revs d"
    using last_map [OF ne, of fst] False r(2) by simp
  have "last (sort_key fst (sc_revisions s)) \<in> set (sc_revisions s)" using last_in_set [OF ne] by simp
  then obtain i where "lookup d (revision_name (revs d)) = Some i"
      "snd (last (sort_key fst (sc_revisions s))) = node_meta d i"
    using r(3) [of "revs d" "snd (last (sort_key fst (sc_revisions s)))"] fst by (metis prod.collapse)
  then show ?thesis using False fst ne r(1)
    by (auto simp: last_revision_def) (metis prod.collapse)
qed (use revisions_complete(1) [OF assms] in \<open>simp add: last_revision_def\<close>)

section \<open>The last revision\<close>

definition cur :: "sdir \<Rightarrow> checkpoint option" where
  "cur d = (if revs d = 0 then None else
     (let i = the (lookup d (revision_name (revs d))) in
      Some \<lparr>cp_revision = revs d, cp_identity = identity_of (node_meta d i), cp_raw = sn_content (sd_nodes d i)\<rparr>))"

lemma cur_revision: "loaded_revision (cur d) = revs d"
  by (simp add: loaded_revision_def cur_def Let_def)

lemma compare_same [simp]: "compare_loaded c c = Inr ()"
  by (simp add: compare_loaded_def split: option.split)

lemma node_meta_len: "fm_len (node_meta d i) = length (sn_content (sd_nodes d i))"
  by (simp add: node_meta_def Let_def)

definition opened :: "(names \<Rightarrow> fs_meta) \<Rightarrow> names \<Rightarrow> sdir \<Rightarrow> store" where
  "opened M ns d = \<lparr>sto_path = path_text ns, sto_identity = identity_of (M ns), sto_loaded = cur d\<rparr>"

lemma run_read_checkpoint:
  assumes calm: "calm E M ns" and "dir_ok d" "lookup d (revision_name r) = Some i"
  shows "run_alone E (read_checkpoint max_bytes r (node_meta d i)) d =
    (Inr \<lparr>cp_revision = r, cp_identity = identity_of (node_meta d i), cp_raw = sn_content (sd_nodes d i)\<rparr>, d)"
proof -
  have "length (sn_content (sd_nodes d i)) \<le> max_bytes"
    using dir_okD(3) [OF assms(2,3)] by (simp add: file_ok_def Let_def)
  then show ?thesis
    using assms(3)
    by (simp add: read_checkpoint_def Let_def calm_simps [OF calm] handle_or_def meta_or_def bytes_or_def node_meta_len)
qed

lemma run_latest:
  assumes calm: "calm E M ns" and "dir_ok d" "length (sd_names d) \<le> max_entries"
  shows "run_alone E (latest_bounded max_bytes) d = (Inr (cur d), d)"
proof -
  obtain s where s: "scanned d (sd_names d) no_scan = Inr s" "complete_scan d s"
    using scan_all_collected [OF assms(2)] by blast
  have names: "lookup d n = Some i \<and> good_name n" if "(n, i) \<in> set (sd_names d)" for n i
    using that names_lookup [OF dir_okD(1) [OF assms(2)]] dir_okD(2) [OF assms(2)] by metis
  have scan: "run_alone E (scan_names 0 (map (\<lambda>x. Some (fst x)) (sd_names d)) no_scan) d = (Inr s, d)"
    using run_scan_names [OF calm names, of "sd_names d" 0 no_scan] assms(3) s(1) by simp
  show ?thesis
  proof (cases "revs d = 0")
    case True
    then show ?thesis
      by (simp add: latest_bounded_def calm_simps [OF calm] names_or_def scan check_scan_complete [OF assms(2) s(2)]
          last_complete [OF assms(2) s(2)] cur_def)
  next
    case False
    then obtain i where i: "lookup d (revision_name (revs d)) = Some i"
      using revision_there [OF assms(2), of "revs d"] by auto
    show ?thesis
      using False
      by (simp add: latest_bounded_def calm_simps [OF calm] names_or_def scan check_scan_complete [OF assms(2) s(2)]
          last_complete [OF assms(2) s(2)] cur_def i run_read_checkpoint [OF calm assms(2) i])
  qed
qed

lemma run_open:
  assumes calm: "calm E M ns" and "dir_ok d" "length (sd_names d) \<le> max_entries"
  shows "run_alone E (open_store (path_text ns)) d = (Inr (opened M ns d), d)"
proof -
  have "butlast ns @ [last ns] = ns" using calm_path(2) [OF calm] by simp
  then show ?thesis
    by (simp add: open_store_def open_bounded_def open_at_def run_parent_anchor [OF calm] calm_paths [OF calm] meta_or_def
        unit_or_def calm_meta [OF calm] run_ensure_anchor [OF calm] run_latest [OF assms] opened_def Let_def)
qed

lemma run_read:
  assumes calm: "calm E M ns" and "dir_ok d" "length (sd_names d) \<le> max_entries"
  shows "run_alone E (read_store (opened M ns d)) d = (Inr (if revs d = 0 then None else Some (last (log_of d))), d)"
  by (simp add: read_store_def read_bounded_def opened_def run_ensure_anchor [OF calm] run_latest [OF assms] cur_def Let_def
      log_of_def content_at_def)

lemma run_current:
  assumes calm: "calm E M ns" and "dir_ok d" "length (sd_names d) \<le> max_entries"
  shows "run_alone E (current_for_save s) d = (Inr (cur d), d)"
  by (simp add: current_for_save_def latest_def run_latest [OF assms])


section \<open>A save\<close>

text \<open>The directory after the private file is complete, and after the whole save.\<close>

definition filled :: "string \<Rightarrow> node_id \<Rightarrow> int \<times> int \<Rightarrow> int \<times> int \<Rightarrow> bytes \<Rightarrow> sdir \<Rightarrow> sdir" where
  "filled n i t u raw d = append_file i u raw (new_file n i t d)"

definition saved_dir :: "string \<Rightarrow> node_id \<Rightarrow> int \<times> int \<Rightarrow> int \<times> int \<Rightarrow> bytes \<Rightarrow> sdir \<Rightarrow> sdir" where
  "saved_dir n i t u raw d = unlink_file n i (link_file (revision_name (Suc (revs d))) i (filled n i t u raw d))"

lemma filled_ok:
  assumes "dir_ok d" "is_temp_name n" "lookup d n = None" "i \<notin> snd ` set (sd_names d)" "length raw \<le> max_bytes"
  shows "dir_ok (filled n i t u raw d)" "sole (filled n i t u raw d) n i" "revs (filled n i t u raw d) = revs d"
    "log_of (filled n i t u raw d) = log_of d" "lookup (filled n i t u raw d) = (lookup d)(n \<mapsto> i)"
    "sd_nodes (filled n i t u raw d) i = \<lparr>sn_regular = True, sn_mode = 33152, sn_links = 1, sn_modified = u, sn_content = raw\<rparr>"
    "cur (filled n i t u raw d) = cur d" "length (sd_names (filled n i t u raw d)) = Suc (length (sd_names d))"
proof -
  note new = new_ok [OF assms(1-4), of t]
  have l: "lookup (filled n i t u raw d) = (lookup d)(n \<mapsto> i)" by (simp add: filled_def assms(3))
  have node: "sd_nodes (filled n i t u raw d) i =
      \<lparr>sn_regular = True, sn_mode = 33152, sn_links = 1, sn_modified = u, sn_content = raw\<rparr>"
    by (simp add: filled_def)
  have sole: "sole (new_file n i t d) n i"
    using assms(2,3) sd_unused [OF assms(4)] by (simp add: sole_def)
  have ok: "dir_ok (filled n i t u raw d) \<and> log_of (filled n i t u raw d) = log_of (new_file n i t d)"
    unfolding filled_def by (rule append_ok) (use new sole assms(5) in simp_all)
  show "dir_ok (filled n i t u raw d)" "log_of (filled n i t u raw d) = log_of d" using ok new by simp_all
  show "sole (filled n i t u raw d) n i" using sole by (simp add: sole_def filled_def)
  have r: "revs (filled n i t u raw d) = revs d" by (simp add: filled_def assms(2))
  show "revs (filled n i t u raw d) = revs d" by (rule r)
  show "lookup (filled n i t u raw d) = (lookup d)(n \<mapsto> i)" by (rule l)
  show "sd_nodes (filled n i t u raw d) i =
      \<lparr>sn_regular = True, sn_mode = 33152, sn_links = 1, sn_modified = u, sn_content = raw\<rparr>" by (rule node)
  show "length (sd_names (filled n i t u raw d)) = Suc (length (sd_names d))" by (simp add: filled_def)
  show "cur (filled n i t u raw d) = cur d"
  proof (cases "revs d = 0")
    case False
    then obtain j where j: "lookup d (revision_name (revs d)) = Some j" using revision_there [OF assms(1), of "revs d"] by auto
    moreover have "j \<noteq> i" using j sd_unused [OF assms(4)] by auto
    moreover have "revision_name (revs d) \<noteq> n" using assms(2) by auto
    ultimately have "sd_nodes (filled n i t u raw d) j = sd_nodes d j"
      "lookup (filled n i t u raw d) (revision_name (revs d)) = Some j"
      using l by (simp_all add: filled_def)
    then show ?thesis using j r by (simp add: cur_def node_meta_def Let_def)
  qed (simp add: cur_def r)
qed

lemma saved_ok:
  assumes "dir_ok d" "is_temp_name n" "lookup d n = None" "i \<notin> snd ` set (sd_names d)" "length raw \<le> max_bytes"
    "revs d < max_revisions"
  shows "dir_ok (saved_dir n i t u raw d)" "log_of (saved_dir n i t u raw d) = log_of d @ [raw]"
    "revs (saved_dir n i t u raw d) = Suc (revs d)"
    "lookup (filled n i t u raw d) (revision_name (Suc (revs d))) = None"
    "lookup (saved_dir n i t u raw d) = (lookup d)(revision_name (Suc (revs d)) \<mapsto> i)"
    "length (sd_names (saved_dir n i t u raw d)) = Suc (length (sd_names d))"
proof -
  let ?f = "filled n i t u raw d" and ?r = "revision_name (Suc (revs d))"
  note f = filled_ok [OF assms(1-5), of t u]
  have rn: "?r \<noteq> n" using assms(2) by auto
  have "\<not> lookup d ?r \<noteq> None" using dir_okD(5) [OF assms(1), of "Suc (revs d)"] assms(6) by simp
  then have "lookup d ?r = None" by blast
  then show none: "lookup ?f ?r = None" using rn by (simp add: f(5))
  have link: "dir_ok (link_file ?r i ?f) \<and> log_of (link_file ?r i ?f) = log_of d @ [raw]"
    using link_ok [OF f(1,2) none] assms(6) f(3,4,6) by simp
  have l: "lookup (link_file ?r i ?f) n = Some i" using none rn by (simp add: f(5))
  note ok = unlink_ok [OF conjunct1 [OF link] assms(2) l]
  show "dir_ok (saved_dir n i t u raw d)" "log_of (saved_dir n i t u raw d) = log_of d @ [raw]"
    using ok link by (simp_all add: saved_dir_def)
  then show "revs (saved_dir n i t u raw d) = Suc (revs d)" using length_log by (metis length_append_singleton)
  show "lookup (saved_dir n i t u raw d) = (lookup d)(?r \<mapsto> i)"
    using none rn assms(3) by (simp add: saved_dir_def f(5) fun_eq_iff)
  have "filter (\<lambda>x. fst x \<noteq> n) (sd_names d) = sd_names d"
    using assms(3) by (intro filter_True) (auto simp: lookup_None)
  then show "length (sd_names (saved_dir n i t u raw d)) = Suc (length (sd_names d))"
    using rn by (simp add: saved_dir_def filled_def)
qed

lemma calm_create:
  assumes calm: "calm E M ns" and "lookup d n = None"
  shows "\<exists>i t. perform (E (Create_New n) d) (Create_New n) d = (Handle_Is i, new_file n i t d) \<and> i \<notin> snd ` set (sd_names d)"
proof (intro exI conjI)
  show "perform (E (Create_New n) d) (Create_New n) d =
      (Handle_Is (ev_fresh (E (Create_New n) d)), new_file n (ev_fresh (E (Create_New n) d)) (ev_now (E (Create_New n) d)) d)"
    by (simp add: calm_perform [OF calm] assms)
  show "ev_fresh (E (Create_New n) d) \<notin> snd ` set (sd_names d)" using calm unfolding calm_def by blast
qed

lemma calm_write:
  assumes calm: "calm E M ns"
  shows "\<exists>u. perform (E (Write_All i raw) d) (Write_All i raw) d = (Done_Ok, append_file i u raw d)"
  by (intro exI [of _ "ev_now (E (Write_All i raw) d)"]) (simp add: calm_perform [OF calm])

lemma run_pending:
  assumes calm: "calm E M ns" and "dir_ok d" "length raw \<le> max_bytes" "unused_stamp E d"
  shows "\<exists>n i t u. run_alone E (pending_create raw) d =
      (Inr (n, identity_of (node_meta (new_file n i t d) i)), filled n i t u raw d) \<and>
    is_temp_name n \<and> lookup d n = None \<and> i \<notin> snd ` set (sd_names d)"
proof -
  obtain p s x where c: "perform (E Clock d) Clock d = (Stamp_Is p s x, d)" "is_temp_name (temp_name p s x)"
    "lookup d (temp_name p s x) = None" using calm_clock [OF calm assms(4)] by blast
  let ?n = "temp_name p s x"
  obtain i t where k: "perform (E (Create_New ?n) d) (Create_New ?n) d = (Handle_Is i, new_file ?n i t d)"
    "i \<notin> snd ` set (sd_names d)" using calm_create [OF calm c(3)] by blast
  obtain u where w: "perform (E (Write_All i raw) (new_file ?n i t d)) (Write_All i raw) (new_file ?n i t d) =
    (Done_Ok, append_file i u raw (new_file ?n i t d))" using calm_write [OF calm] by blast
  note f = filled_ok [OF assms(2) c(2,3) k(2) assms(3), of t u]
  have "require_regular (node_meta (filled ?n i t u raw d) i) = Inr ()"
    using file_ok_regular [OF dir_okD(3) [OF f(1)], of ?n i] by (simp add: f(5))
  moreover have "fm_links (node_meta (filled ?n i t u raw d) i) = 1" by (simp add: node_meta_def Let_def f(6))
  moreover have "same_inode (identity_of (node_meta (new_file ?n i t d) i)) (node_meta (filled ?n i t u raw d) i)"
    by (simp add: same_inode_def identity_of_def node_meta_def Let_def)
  ultimately have "run_alone E (pending_create raw) d =
      (Inr (?n, identity_of (node_meta (new_file ?n i t d) i)), filled ?n i t u raw d)"
    by (simp add: pending_create_def drop_on_error_def pending_fill_def c(1) k(1) w handle_or_def meta_or_def unit_or_def
        calm_simps [OF calm] filled_def [symmetric] Let_def)
  then show ?thesis using c k by blast
qed

lemma run_save:
  assumes calm: "calm E M ns" and "dir_ok d" "length raw \<le> max_bytes" "revs d < max_revisions" "length (sd_names d) < max_entries" "unused_stamp E d"
  shows "\<exists>d'. run_alone E (save_store (opened M ns d) raw) d = ((Inr (), opened M ns d'), d') \<and>
    dir_ok d' \<and> log_of d' = log_of d @ [raw] \<and> length (sd_names d') = Suc (length (sd_names d))"
proof -
  let ?s = "opened M ns d" and ?r = "revision_name (Suc (revs d))"
  obtain n i t u where p: "run_alone E (pending_create raw) d =
      (Inr (n, identity_of (node_meta (new_file n i t d) i)), filled n i t u raw d)"
    and n: "is_temp_name n" "lookup d n = None" "i \<notin> snd ` set (sd_names d)"
    using run_pending [OF calm assms(2,3,6)] by blast
  let ?f = "filled n i t u raw d" and ?e = "saved_dir n i t u raw d" and ?i = "identity_of (node_meta (new_file n i t d) i)"
  note f = filled_ok [OF assms(2) n assms(3), of t u]
  note e = saved_ok [OF assms(2) n assms(3,4), of t u]
  have anchor: "run_alone E (ensure_anchor (?s\<lparr>sto_loaded := c\<rparr>)) x = (Inr (), x)" for c x
    by (rule run_ensure_anchor [OF calm]) (simp_all add: opened_def)
  have anchor0: "run_alone E (ensure_anchor ?s) x = (Inr (), x)" for x
    by (rule run_ensure_anchor [OF calm]) (simp_all add: opened_def)
  have loaded: "sto_loaded ?s = cur d" by (simp add: opened_def)
  have same: "same_inode ?i (node_meta x i)" for x
    by (simp add: same_inode_def identity_of_def node_meta_def Let_def)
  have cur: "run_alone E (current_for_save ?s) d = (Inr (cur d), d)" "run_alone E (current_for_save ?s) ?f = (Inr (cur d), ?f)"
    using run_current [OF calm assms(2)] run_current [OF calm f(1)] assms(5) f(7,8) by simp_all
  have last: "run_alone E latest ?e = (Inr (cur ?e), ?e)"
    using run_latest [OF calm e(1)] assms(5) e(6) by (simp add: latest_def)
  have cp: "\<exists>c. cur ?e = Some c \<and> cp_revision c = Suc (revs d) \<and> cp_raw c = raw"
  proof -
    have "sd_nodes ?e i = (sd_nodes ?f i)\<lparr>sn_links := 1\<rparr>" using f(6) by (simp add: saved_dir_def)
    then show ?thesis using e(3,5) f(6) by (simp add: cur_def Let_def)
  qed
  then obtain c where c: "cur ?e = Some c" "cp_revision c = Suc (revs d)" "cp_raw c = raw" by blast
  have fn: "lookup ?f n = Some i" by (simp add: f(5))
  have regular: "require_regular (node_meta ?f i) = Inr ()"
    using file_ok_regular [OF dir_okD(3) [OF f(1) fn]] .
  have links: "fm_links (node_meta ?f i) = 1" by (simp add: node_meta_def Let_def f(6))
  have "lookup (link_file ?r i ?f) n = Some i" using e(4) fn by auto
  then have publish: "run_alone E (publish n ?i ?r ''SETUP_CONFLICT'') ?f = (Inr (), ?e)"
    using fn e(4) regular links same
    by (simp add: publish_def remove_private_def calm_simps [OF calm] meta_or_def unit_or_def saved_dir_def)
  have rn: "n \<noteq> ?r" using n(1) by auto
  have save: "run_alone E (save_revision ?s raw (Suc (revs d)) n ?i) ?f = (Inr (Some c), ?e)"
    using c same e(5)
    by (simp add: save_revision_def anchor0 cur publish last loaded meta_or_def calm_simps [OF calm] Let_def)
  have final: "?s\<lparr>sto_loaded := Some c\<rparr> = opened M ns ?e" using c by (simp add: opened_def)
  have "lookup ?e n = None" using e(5) n(2) rn by simp
  then have gone: "run_alone E (remove_private n ?i) ?e = (Inr (), ?e)"
    by (simp add: remove_private_def calm_simps [OF calm])
  have "check_size raw = Inr ()" using assms(3) by (simp add: check_size_def)
  moreover have "run_alone E (prepare_revision raw (cur d)) d = (Inr (Suc (revs d), n, ?i), ?f)"
    using assms(4) by (simp add: prepare_revision_def cur_revision p)
  ultimately have "run_alone E (save_store ?s raw) d = ((Inr (), opened M ns ?e), ?e)"
    by (simp add: save_store_def anchor0 cur loaded with_drop_def save adopt_def final anchor [of "Some c", unfolded final] gone Let_def)
  then show ?thesis using e(1,2,6) by blast
qed


end
