(* ===== verification/StoreProps.thy ===== *)
theory StoreProps
  imports StoreAlone
begin

text \<open>
  What the checkpoint store promises: an append-only log of complete revisions, kept through any
  interleaving of sessions and any interruption, from which the next session recovers.
\<close>

section \<open>The abstract log\<close>

text \<open>A step of the system leaves the log alone or appends one revision.\<close>

inductive log_step :: "bytes list \<Rightarrow> bytes list \<Rightarrow> bool" where
  stay: "log_step l l"
| append: "length raw \<le> max_bytes \<Longrightarrow> length l < max_revisions \<Longrightarrow> log_step l (l @ [raw])"

text \<open>Any system with such a log keeps what is in it.\<close>

locale append_only =
  fixes ok :: "'s \<Rightarrow> bool" and log :: "'s \<Rightarrow> bytes list" and step :: "'s \<Rightarrow> 's \<Rightarrow> bool"
  assumes step_ok: "ok s \<Longrightarrow> step s t \<Longrightarrow> ok t"
    and step_log: "ok s \<Longrightarrow> step s t \<Longrightarrow> log_step (log s) (log t)"
begin

lemma steps_ok: "step\<^sup>*\<^sup>* s t \<Longrightarrow> ok s \<Longrightarrow> ok t"
  by (induction rule: rtranclp_induct) (auto intro: step_ok)

lemma steps_log: "step\<^sup>*\<^sup>* s t \<Longrightarrow> ok s \<Longrightarrow> log_step\<^sup>*\<^sup>* (log s) (log t)"
proof (induction rule: rtranclp_induct)
  case (step t u)
  then have "log_step (log t) (log u)" using step_log steps_ok by blast
  then show ?case using step by (meson rtranclp.rtrancl_into_rtrancl)
qed simp

lemma steps_prefix: "step\<^sup>*\<^sup>* s t \<Longrightarrow> ok s \<Longrightarrow> prefix (log s) (log t)"
proof -
  have "log_step\<^sup>*\<^sup>* l m \<Longrightarrow> prefix l m" for l m
    by (induction rule: rtranclp_induct) (auto elim!: log_step.cases simp: prefix_def)
  then show "step\<^sup>*\<^sup>* s t \<Longrightarrow> ok s \<Longrightarrow> prefix (log s) (log t)" using steps_log by blast
qed

end

definition system_ok :: "system \<Rightarrow> bool" where
  "system_ok x \<longleftrightarrow> (\<exists>gs. runs_ok (fst x) (snd x) gs)"

lemma system_ok_start: "dir_ok d \<Longrightarrow> system_ok (d, [])"
  by (auto simp: system_ok_def runs_ok_def)

lemma system_ok_dir: "system_ok (d, ps) \<Longrightarrow> dir_ok d"
  by (auto simp: system_ok_def runs_ok_def)

lemma log_bounded: "dir_ok d \<Longrightarrow> raw \<in> set (log_of d) \<Longrightarrow> length raw \<le> max_bytes"
proof -
  assume d: "dir_ok d" "raw \<in> set (log_of d)"
  then obtain r where r: "1 \<le> r" "r \<le> revs d" "raw = content_at d r" by (auto simp: log_of_def)
  then obtain i where i: "lookup d (revision_name r) = Some i" using revision_there [OF d(1)] by blast
  then show ?thesis using dir_okD(3) [OF d(1) i] r(3) by (simp add: content_at_def file_ok_def Let_def)
qed

lemma system_step:
  assumes "system_ok x" "store_step x y"
  shows "system_ok y \<and> log_step (log_of (fst x)) (log_of (fst y))"
  using assms(2)
proof cases
  case (start d ps path ops)
  then show ?thesis
    using assms(1) runs_ok_start [of d ps _ path ops] by (auto simp: system_ok_def intro: stay)
next
  case (call i ps c k e d a d')
  obtain gs where gs: "runs_ok d ps gs" using assms(1) call(1) by (auto simp: system_ok_def)
  from runs_ok_call [OF gs call(3-6)] obtain ws
    where ok: "runs_ok d' (ps[i := k a]) (gs[i := after (gs ! i) c a])" and g: "grows d ws d'" by blast
  have d': "dir_ok d'" using ok by (simp add: runs_ok_def)
  have "log_step (log_of d) (log_of d')"
  proof (cases "ws = []")
    case False
    then obtain raw where l: "log_of d' = log_of d @ [raw]" using g by (auto simp: grows_def)
    have "length (log_of d') \<le> max_revisions" using dir_okD(6) [OF d'] by simp
    then show ?thesis
      using log_bounded [OF d', of raw] unfolding l by (intro append) simp_all
  qed (use g in \<open>auto simp: grows_def intro: stay\<close>)
  then show ?thesis using ok call(1,2) by (auto simp: system_ok_def)
qed

interpretation store_log: append_only system_ok "\<lambda>x. log_of (fst x)" store_step
  by unfold_locales (use system_step in blast)+

section \<open>What sessions are asked to save\<close>

text \<open>The runs of the system, with the operations each session was started with.\<close>

inductive store_run :: "sdir \<Rightarrow> store_op list list \<Rightarrow> system \<Rightarrow> bool" for d0 where
  none: "store_run d0 [] (d0, [])"
| started: "store_run d0 asked (d, ps) \<Longrightarrow> store_run d0 (asked @ [ops]) (d, ps @ [session path ops])"
| called: "store_run d0 asked (d, ps) \<Longrightarrow> i < length ps \<Longrightarrow> ps ! i = Ask c k \<Longrightarrow> env_ok e d \<Longrightarrow>
     perform e c d = (a, d') \<Longrightarrow> store_run d0 asked (d', ps[i := k a])"

lemma store_run_steps: "store_run d0 asked x \<Longrightarrow> store_steps (d0, []) x"
  by (induction rule: store_run.induct) (auto intro: rtranclp.rtrancl_into_rtrancl store_step.intros)

lemma steps_store_run: "store_steps (d0, []) x \<Longrightarrow> \<exists>asked. store_run d0 asked x"
proof (induction rule: rtranclp_induct)
  case (step y z)
  from step.hyps(2) step.IH show ?case by cases (blast intro: started called)+
qed (blast intro: none)

text \<open>Each session of a run saves only what it was asked to save.\<close>

lemma store_run_asked:
  assumes "store_run d0 asked x" "dir_ok d0"
  shows "\<exists>gs. runs_ok (fst x) (snd x) gs \<and> map gh_asked gs = map asked_of asked \<and>
    (\<exists>new. log_of (fst x) = log_of d0 @ new \<and> set new \<subseteq> \<Union> (asked_of ` set asked))"
  using assms
proof (induction rule: store_run.induct)
  case none
  then show ?case by (auto simp: runs_ok_def)
next
  case (started asked d ps ops path)
  then obtain gs new where gs: "runs_ok d ps gs" "map gh_asked gs = map asked_of asked"
    "log_of d = log_of d0 @ new" "set new \<subseteq> \<Union> (asked_of ` set asked)" by auto
  then show ?case
    using runs_ok_start [OF gs(1), of path ops]
    by (intro exI [of _ "gs @ [\<lparr>gh_hold = Free, gh_seen = 0, gh_won = [], gh_asked = asked_of ops\<rparr>]"]) auto
next
  case (called asked d ps i c k e a d')
  then obtain gs new where gs: "runs_ok d ps gs" "map gh_asked gs = map asked_of asked"
    "log_of d = log_of d0 @ new" "set new \<subseteq> \<Union> (asked_of ` set asked)" by auto
  let ?gs = "gs[i := after (gs ! i) c a]"
  obtain ws where w: "runs_ok d' (ps[i := k a]) ?gs" "grows d ws d'" "snd ` set ws \<subseteq> gh_asked (gs ! i)"
    using runs_ok_call [OF gs(1) called(2-5)] by blast
  have len: "i < length gs" using gs(1) called(2) by (auto simp: runs_ok_def dest: list_all2_lengthD)
  have same: "map gh_asked ?gs = map gh_asked gs"
    using len by (simp add: map_update) (metis list_update_id nth_map)
  have "asked_of (asked ! i) = gh_asked (gs ! i)" "i < length asked"
    using arg_cong [OF gs(2), of length] arg_cong [OF gs(2), of "\<lambda>l. l ! i"] len by simp_all
  then have "snd ` set ws \<subseteq> \<Union> (asked_of ` set asked)" using w(3) by (metis UN_upper nth_mem order_trans)
  moreover have "log_of d' = log_of d @ map snd ws" using w(2) by (auto simp: grows_def)
  ultimately show ?case
    using w(1) gs(2-4) same by (intro exI [of _ ?gs] conjI exI [of _ "new @ map snd ws"]) auto
qed

lemma store_run_call:
  assumes "store_run d0 asked (d, ps)" "dir_ok d0" "i < length ps" "ps ! i = Ask c k" "env_ok e d" "perform e c d = (a, d')"
  shows "log_of d' = log_of d \<or> length (log_of d) < max_revisions \<and>
    (\<exists>raw. Save_Op raw \<in> set (asked ! i) \<and> length raw \<le> max_bytes \<and> log_of d' = log_of d @ [raw])"
proof -
  obtain gs where gs: "runs_ok d ps gs" "map gh_asked gs = map asked_of asked"
    using store_run_asked [OF assms(1,2)] by auto
  obtain ws where w: "runs_ok d' (ps[i := k a]) (gs[i := after (gs ! i) c a])" "grows d ws d'" "snd ` set ws \<subseteq> gh_asked (gs ! i)"
    using runs_ok_call [OF gs(1) assms(3-6)] by blast
  have "i < length gs" using gs(1) assms(3) by (auto simp: runs_ok_def dest: list_all2_lengthD)
  then have asked: "asked_of (asked ! i) = gh_asked (gs ! i)"
    using arg_cong [OF gs(2), of length] arg_cong [OF gs(2), of "\<lambda>l. l ! i"] by simp
  have d': "dir_ok d'" using w(1) by (simp add: runs_ok_def)
  have "length (log_of d') \<le> max_revisions" using dir_okD(6) [OF d'] by simp
  then show ?thesis
    using w(2,3) log_bounded [OF d'] asked by (auto simp: grows_def asked_of_def simp del: length_log)
qed

section \<open>What sessions report\<close>

text \<open>The revisions that a session has reported as saved.\<close>

definition saved_by :: "report list prog \<Rightarrow> nat list" where
  "saved_by p = (case p of Done rs \<Rightarrow> map fst (saves rs) | _ \<Rightarrow> [])"

lemma subseq_concat: "list_all2 subseq xs ys \<Longrightarrow> subseq (concat xs) (concat ys)"
  by (induction rule: list_all2_induct) (auto intro: list_emb_append_mono)

lemma subseq_distinct: "subseq xs ys \<Longrightarrow> distinct ys \<Longrightarrow> distinct xs"
  by (metis distinct_nthsI subseq_conv_nths)

lemma reported_distinct:
  assumes "system_ok (d, ps)"
  shows "distinct (concat (map saved_by ps))"
proof -
  obtain gs where gs: "list_all2 (\<lambda>p g. proto p g honest \<and> session_ok d g) ps gs"
      "distinct (concat (map (\<lambda>g. map fst (gh_won g)) gs))"
    using assms by (auto simp: system_ok_def runs_ok_def)
  have "subseq (saved_by p) (map fst (gh_won g))" if "proto p g honest" for p g
    using that by (cases p) (auto simp: saved_by_def honest_def subseq_map)
  then have "list_all2 subseq (map saved_by ps) (map (\<lambda>g. map fst (gh_won g)) gs)"
    using gs(1) by (auto simp: list_all2_map1 list_all2_map2 elim!: list_all2_mono)
  then show ?thesis using subseq_concat subseq_distinct gs(2) by blast
qed

lemma reported_in_log:
  assumes "system_ok (d, ps)" "Done rs \<in> set ps" "(r, raw) \<in> set (saves rs)"
  shows "1 \<le> r \<and> r \<le> length (log_of d) \<and> log_of d ! (r - 1) = raw"
proof -
  obtain gs where gs: "list_all2 (\<lambda>p g. proto p g honest \<and> session_ok d g) ps gs"
    using assms by (auto simp: system_ok_def runs_ok_def)
  obtain j where j: "j < length ps" "ps ! j = Done rs" using assms(2) by (auto simp: in_set_conv_nth)
  have "honest (gs ! j) rs" "session_ok d (gs ! j)" using list_all2_nthD [OF gs j(1)] j(2) by simp_all
  then have "(r, raw) \<in> set (gh_won (gs ! j))" "won_ok d (gh_won (gs ! j))"
    using assms(3) by (auto simp: honest_def session_ok_def dest: list_emb_set)
  then show ?thesis by (auto simp: won_ok_def)
qed

section \<open>Runs on their own among the others\<close>

lemma run_alone_run:
  assumes "\<And>c d. env_ok (E c d) d"
  shows "run_alone E p d = (x, d') \<Longrightarrow> i < length ps \<Longrightarrow> ps ! i = p \<Longrightarrow> store_run d0 asked (d, ps) \<Longrightarrow>
    store_run d0 asked (d', ps[i := Done x])"
proof (induction p arbitrary: d ps)
  case (Done y)
  then have "ps[i := Done x] = ps" by (metis list_update_id prod.inject run_alone.simps(1))
  then show ?case using Done by simp
next
  case (Ask c k)
  obtain a d1 where a: "perform (E c d) c d = (a, d1)" by (cases "perform (E c d) c d")
  have "store_run d0 asked (d1, ps[i := k a])" using called [OF Ask.prems(4,2,3) assms a] .
  then show ?case using Ask.IH [of "k a" d1 "ps[i := k a]"] Ask.prems a by simp
qed

text \<open>An empty directory and an environment without faults.\<close>

definition empty_dir :: sdir where
  "empty_dir = \<lparr>sd_names = [], sd_nodes = (\<lambda>_. \<lparr>sn_regular = False, sn_mode = 0, sn_links = 0, sn_modified = (0, 0), sn_content = []\<rparr>)\<rparr>"

definition plain_meta :: fs_meta where
  "plain_meta = \<lparr>fm_dir = True, fm_regular = False, fm_links = 2, fm_device = 1, fm_inode = 2, fm_len = 0, fm_mode = 16832,
     fm_modified = (0, 0), fm_changed = (0, 0)\<rparr>"

definition plain_env :: "call \<Rightarrow> sdir \<Rightarrow> env" where
  "plain_env c d = \<lparr>ev_fault = None, ev_now = (7, 0), ev_fresh = (1, Suc (sum_list (map (\<lambda>x. snd (snd x)) (sd_names d)))),
     ev_other = (case c of Path_Stat _ \<Rightarrow> Meta_Is plain_meta | Path_Meta _ \<Rightarrow> Meta_Is plain_meta | Own_Meta \<Rightarrow> Meta_Is plain_meta
       | Path_Open _ \<Rightarrow> Done_Ok | Clock \<Rightarrow> Stamp_Is 9 1 5 | _ \<Rightarrow> Err_IO)\<rparr>"

lemma plain_fresh: "ev_fresh (plain_env c d) \<notin> snd ` set (sd_names d)"
proof
  assume "ev_fresh (plain_env c d) \<in> snd ` set (sd_names d)"
  then obtain x where x: "x \<in> set (sd_names d)" "snd (snd x) = Suc (sum_list (map (\<lambda>x. snd (snd x)) (sd_names d)))"
    by (auto simp: plain_env_def)
  have "snd (snd x) \<le> sum_list (map (\<lambda>x. snd (snd x)) (sd_names d))"
    by (rule member_le_sum_list) (use x(1) in auto)
  then show False using x(2) by simp
qed

lemma plain_calm: "calm plain_env (\<lambda>_. plain_meta) [''s'']"
proof -
  have "calm_answer (\<lambda>_. plain_meta) [''s''] c (ev_other (plain_env c d))" for c d
    by (cases c) (simp_all add: calm_answer_def plain_env_def)
  moreover have "ev_fault (plain_env c d) = None" for c d by (simp add: plain_env_def)
  moreover have "name_ok ''s''" by code_simp
  ultimately show ?thesis using plain_fresh by (simp add: calm_def plain_meta_def)
qed

lemma plain_ok: "env_ok (plain_env c d) d"
  using plain_fresh [of c d] by (cases c) (auto simp: env_ok_def plain_env_def)

lemma empty_ok: "dir_ok empty_dir"
  by (rule dir_okI) (simp_all add: empty_dir_def lookup_def revs_def)

section \<open>Properties\<close>

text \<open>C28. The system of sessions refines an append-only log. From a well formed directory, however the
  sessions of the store interleave, fail or are killed, the directory stays well formed, what was
  in its log of revisions stays where it was, and every later entry is, whole, a byte string that
  one of the sessions was asked to save; a call of a session leaves the log alone or appends one
  such entry, asked of that very session, within the limits of size and number.\<close>

theorem store_is_append_only_log:
  assumes "dir_ok d0" "store_run d0 asked (d, ps)"
  shows "dir_ok d \<and>
    (\<exists>added. log_of d = log_of d0 @ added \<and> (\<forall>raw\<in>set added. \<exists>ops\<in>set asked. Save_Op raw \<in> set ops)) \<and>
    (\<forall>i c k e a d'. i < length ps \<and> ps ! i = Ask c k \<and> env_ok e d \<and> perform e c d = (a, d') \<longrightarrow>
       log_of d' = log_of d \<or>
       length (log_of d) < max_revisions \<and> (\<exists>raw. Save_Op raw \<in> set (asked ! i) \<and> length raw \<le> max_bytes \<and>
         log_of d' = log_of d @ [raw]))"
proof -
  obtain gs added where g: "runs_ok d ps gs" "log_of d = log_of d0 @ added" "set added \<subseteq> \<Union> (asked_of ` set asked)"
    using store_run_asked [OF assms(2,1)] by auto
  then have "dir_ok d" "\<forall>raw\<in>set added. \<exists>ops\<in>set asked. Save_Op raw \<in> set ops"
    by (auto simp: runs_ok_def asked_of_def)
  with g(2) store_run_call [OF assms(2,1)] show ?thesis by blast
qed

text \<open>C29. What a finished session has reported as saved under a revision is that revision of the log,
  then and after any further steps, and no two reported saves have the same revision.\<close>

theorem saved_revisions_durable:
  assumes "dir_ok d0" "store_steps (d0, []) (d, ps)" "store_steps (d, ps) (d', ps')"
    and "Done rs \<in> set ps" "(r, raw) \<in> set (saves rs)"
  shows "1 \<le> r \<and> r \<le> length (log_of d) \<and> log_of d ! (r - 1) = raw \<and> log_of d' ! (r - 1) = raw \<and>
    distinct (concat (map saved_by ps))"
proof -
  have s: "system_ok (d, ps)" using store_log.steps_ok [OF assms(2) system_ok_start [OF assms(1)]] .
  have "prefix (log_of d) (log_of d')" using store_log.steps_prefix [OF assms(3) s] by simp
  then show ?thesis
    using reported_in_log [OF s assms(4,5)] reported_distinct [OF s] by (auto simp: prefix_def nth_append)
qed

text \<open>A session alone that saves and reads.\<close>

lemma run_session_save:
  assumes "calm E M ns" "dir_ok d" "length raw \<le> max_bytes" "revs d < max_revisions" "length (sd_names d) < max_entries"
    "unused_stamp E d"
  shows "\<exists>d'. run_alone E (session (path_text ns) [Save_Op raw, Read_Op]) d =
      ([Was_Read (Some raw), Saved (Suc (revs d)) raw], d') \<and> dir_ok d' \<and> log_of d' = log_of d @ [raw]"
proof -
  obtain d' where d': "run_alone E (save_store (opened M ns d) raw) d = ((Inr (), opened M ns d'), d')"
    "dir_ok d'" "log_of d' = log_of d @ [raw]" "length (sd_names d') = Suc (length (sd_names d))"
    using run_save [OF assms] by blast
  have r: "revs d' = Suc (revs d)" using d'(3) length_log by (metis length_append_singleton)
  have "run_alone E (open_store (path_text ns)) d = (Inr (opened M ns d), d)"
    using run_open [OF assms(1,2)] assms(5) by simp
  moreover have "run_alone E (read_store (opened M ns d')) d' = (Inr (Some raw), d')"
    using run_read [OF assms(1) d'(2)] assms(5) d'(3,4) r by simp
  moreover have "sto_loaded (opened M ns d') = cur d'" by (simp add: opened_def)
  ultimately show ?thesis
    using d' r by (simp add: session_def report_of_def cur_revision)
qed

text \<open>C30. Recovery: however the sessions before have failed or been killed, the next session that runs
  without faults in a directory with room opens the store at its last revision, saves the next one
  and reads it back.\<close>

theorem store_recovers:
  assumes "dir_ok d0" "store_steps (d0, []) (d, ps)" "calm E M ns" "unused_stamp E d"
    and "length raw \<le> max_bytes" "length (log_of d) < max_revisions" "length (sd_names d) < max_entries"
  shows "\<exists>d'. run_alone E (open_store (path_text ns)) d = (Inr (opened M ns d), d) \<and>
    run_alone E (read_store (opened M ns d)) d = (Inr (if log_of d = [] then None else Some (last (log_of d))), d) \<and>
    run_alone E (session (path_text ns) [Save_Op raw, Read_Op]) d =
      ([Was_Read (Some raw), Saved (Suc (length (log_of d))) raw], d') \<and> dir_ok d' \<and> log_of d' = log_of d @ [raw]"
proof -
  have d: "dir_ok d" using store_log.steps_ok [OF assms(2) system_ok_start [OF assms(1)]] by (rule system_ok_dir)
  have "log_of d = [] \<longleftrightarrow> revs d = 0" using length_log by (metis length_0_conv)
  then show ?thesis
    using run_session_save [OF assms(3) d assms(5) _ assms(7,4)] run_open [OF assms(3) d] run_read [OF assms(3) d] assms(6,7)
    by simp
qed

text \<open>The run of a session on an empty directory, for the witnesses.\<close>

lemma plain_session:
  "\<exists>d. store_run empty_dir [[Save_Op ''{}'', Read_Op]] (d, [Done [Was_Read (Some ''{}''), Saved 1 ''{}'']]) \<and>
     log_of d = [''{}'']"
proof -
  have start: "store_run empty_dir [[Save_Op ''{}'', Read_Op]] (empty_dir, [session ''/s'' [Save_Op ''{}'', Read_Op]])"
    using started [OF none, of empty_dir "[Save_Op ''{}'', Read_Op]" "''/s''"] by simp
  have e: "revs empty_dir = 0" "log_of empty_dir = []" "unused_stamp plain_env empty_dir" "sd_names empty_dir = []"
    by (simp_all add: revs_def log_of_def empty_dir_def unused_stamp_def plain_env_def lookup_def)
  obtain d where d: "run_alone plain_env (session (path_text [''s'']) [Save_Op ''{}'', Read_Op]) empty_dir =
      ([Was_Read (Some ''{}''), Saved 1 ''{}''], d)" "log_of d = [''{}'']"
    using run_session_save [OF plain_calm empty_ok, of "''{}''"] e by (auto simp: max_bytes_def max_revisions_def max_entries_def)
  have "path_text [''s''] = ''/s''" by (simp add: path_text_def)
  then have "store_run empty_dir [[Save_Op ''{}'', Read_Op]]
      (d, [session ''/s'' [Save_Op ''{}'', Read_Op]][0 := Done [Was_Read (Some ''{}''), Saved 1 ''{}'']])"
    using d(1) start by (intro run_alone_run [OF plain_ok]) simp_all
  then show ?thesis using d(2) by auto
qed

theorem store_is_append_only_log_witness:
  "\<exists>d ps. store_run empty_dir [[Save_Op ''{}'', Read_Op]] (d, ps) \<and> dir_ok d \<and> log_of d = [''{}''] \<and>
     (\<exists>added. log_of d = log_of empty_dir @ added \<and>
       (\<forall>raw\<in>set added. Save_Op raw \<in> set [Save_Op ''{}'', Read_Op]))"
proof -
  obtain d ps where d: "store_run empty_dir [[Save_Op ''{}'', Read_Op]] (d, ps)" "log_of d = [''{}'']"
    using plain_session by blast
  from store_is_append_only_log [OF empty_ok d(1)] d show ?thesis by auto
qed

theorem saved_revisions_durable_witness: "\<exists>d. log_of d = [''{}''] \<and> log_of d ! (1 - 1) = ''{}''"
proof -
  obtain d where d: "store_steps (empty_dir, []) (d, [Done [Was_Read (Some ''{}''), Saved 1 ''{}'']])" "log_of d = [''{}'']"
    using plain_session store_run_steps by blast
  show ?thesis
    using saved_revisions_durable [OF empty_ok d(1) rtranclp.rtrancl_refl, of _ 1 "''{}''"] d(2) by auto
qed

theorem store_recovers_witness:
  "\<exists>d'. run_alone plain_env (open_store ''/s'') empty_dir = (Inr (opened (\<lambda>_. plain_meta) [''s''] empty_dir), empty_dir) \<and>
    run_alone plain_env (session ''/s'' [Save_Op ''{}'', Read_Op]) empty_dir = ([Was_Read (Some ''{}''), Saved 1 ''{}''], d')"
proof -
  have "path_text [''s''] = ''/s''" by (simp add: path_text_def)
  moreover have "log_of empty_dir = []" "unused_stamp plain_env empty_dir" "sd_names empty_dir = []"
    by (simp_all add: revs_def log_of_def empty_dir_def unused_stamp_def plain_env_def lookup_def)
  ultimately show ?thesis
    using store_recovers [OF empty_ok rtranclp.rtrancl_refl plain_calm, of "''{}''"]
    by (auto simp: max_bytes_def max_revisions_def max_entries_def)
qed

end
