(* ===== verification/Health.thy ===== *)
theory Health
  imports RunReport "HOL-Library.List_Lexorder" "HOL-Library.Char_ord"
begin

text \<open>
  The monitor's answers about a running node (\<open>src/src/engine/runtime_result.rs\<close>, second part): the
  HTTP envelope, the bootstrap document bound to the pinned build and the initialised genesis, and
  the health document with its readiness rules. Every error is \<open>ENGINE_RUNTIME_RESULT_INVALID\<close>.
\<close>

section \<open>Values\<close>

definition max_http :: nat where "max_http = 65536"
definition media_type :: string where "media_type = ''application/vnd.nigo.console+json''"

text \<open>Indexing a map whose keys were checked.\<close>

definition at_key :: "(string \<rightharpoonup> json) \<Rightarrow> string \<Rightarrow> json" where
  "at_key m k = (case m k of Some v \<Rightarrow> v | None \<Rightarrow> JNull)"

definition text_value :: "json \<Rightarrow> string result" where
  "text_value v = expect (as_str v)"

definition boolean_value :: "json \<Rightarrow> bool result" where
  "boolean_value v = expect (as_bool v)"

definition member_value :: "json \<Rightarrow> string list \<Rightarrow> string result" where
  "member_value v allowed =
     and_then (text_value v) (\<lambda>t. and_then (require (List.member allowed t)) (\<lambda>_. Inr t))"

definition printable_value :: "json \<Rightarrow> nat \<Rightarrow> unit result" where
  "printable_value v m =
     and_then (text_value v) (\<lambda>t.
     require (\<not> (t = [] \<or> m < length t \<or> \<not> list_all (\<lambda>c. 33 \<le> byte_val c \<and> byte_val c \<le> 126) t)))"

definition nullable :: "json \<Rightarrow> (json \<Rightarrow> unit result) \<Rightarrow> unit result" where
  "nullable v f = (if v = JNull then Inr () else f v)"

definition forget :: "'a result \<Rightarrow> unit result" where
  "forget r = and_then r (\<lambda>_. Inr ())"

definition unsigned_decimal :: "string \<Rightarrow> bool" where
  "unsigned_decimal s \<longleftrightarrow>
     s = ''0'' \<or> (s \<noteq> [] \<and> \<not> prefix ''0'' s \<and> list_all is_digit s)"

definition decimal :: "json \<Rightarrow> bool \<Rightarrow> int result" where
  "decimal v negative =
     and_then (text_value v) (\<lambda>t.
     and_then (require (unsigned_decimal t \<or> negative \<and>
        (case strip_prefix ''-'' t of None \<Rightarrow> False | Some s \<Rightarrow> s \<noteq> ''0'' \<and> unsigned_decimal s))) (\<lambda>_.
     expect (parse_i64 t)))"

section \<open>The HTTP envelope\<close>

definition media_parameter :: "string \<Rightarrow> bool" where
  "media_parameter p \<longleftrightarrow> List.member [''charset=utf-8'', ''charset=\"utf-8\"''] (to_ascii_lowercase (trim p))"

definition media_ok :: "string \<Rightarrow> bool" where
  "media_ok media \<longleftrightarrow> length media \<le> 128 \<and>
     (case split_on (CHR '';'') media of
        [] \<Rightarrow> False
      | p # ps \<Rightarrow> to_ascii_lowercase (trim p) = to_ascii_lowercase media_type \<and> list_all media_parameter ps)"

definition http :: "(bytes \<Rightarrow> json option) \<Rightarrow> bytes \<Rightarrow> string \<Rightarrow> json result" where
  "http parse raw media =
     and_then (require (\<not> (raw = [] \<or> max_http < length raw \<or> \<not> media_ok media))) (\<lambda>_.
     expect (Option.bind (parse raw) (seed_value nullable_seed 0)))"

section \<open>The bootstrap document\<close>

definition expected_client :: "build_identity \<Rightarrow> string option" where
  "expected_client b =
     (let c = source_commit (source b) in
      if length c < 12 \<or> \<not> valid_utf8 (take 12 c) then None
      else Some (''NIGO/'' @ engine_version b @ ''/'' @ take 12 c @ (if source_dirty (source b) then ''-dirty'' else [])))"

definition chain_check :: "(string \<rightharpoonup> json) \<Rightarrow> unit result" where
  "chain_check body =
     and_then (decimal (at_key body ''chainId'') False) (\<lambda>chain.
     and_then (require (\<not> (chain = 0 \<or> int i32_max < chain))) (\<lambda>_.
     and_then (text_value (at_key body ''chainIdHex'')) (\<lambda>hex.
     and_then (require (case strip_prefix ''0x'' hex of
        None \<Rightarrow> False | Some s \<Rightarrow> s \<noteq> [] \<and> length s \<le> 8 \<and> list_all is_hexdigit s)) (\<lambda>_.
     and_then (expect (parse_uint 16 u32_max (drop 2 hex))) (\<lambda>n.
     require (int n = chain))))))"

definition head_check :: "expected \<Rightarrow> (string \<rightharpoonup> json) \<Rightarrow> int result" where
  "head_check e body =
     and_then (object (at_key body ''head'') [''number'', ''hash'']) (\<lambda>head.
     and_then (decimal (at_key head ''number'') False) (\<lambda>height.
     and_then (text_value (at_key head ''hash'')) (\<lambda>h.
     and_then (require (\<not> (\<not> hash0x h \<or> height = 0 \<and> h \<noteq> ex_genesis_hash e))) (\<lambda>_.
     Inr height))))"

definition uint256_max :: string where
  "uint256_max = ''115792089237316195423570985008687907853269984665640564039457584007913129639935''"

definition gas_ok :: "string \<Rightarrow> bool" where
  "gas_ok gas \<longleftrightarrow> \<not> (\<not> unsigned_decimal gas \<or> length uint256_max < length gas \<or>
     (length gas = length uint256_max \<and> uint256_max < gas))"

definition fee_check :: "(string \<rightharpoonup> json) \<Rightarrow> int \<Rightarrow> unit result" where
  "fee_check body height =
     and_then (object (at_key body ''fee'') [''profileHash'', ''evaluatedAtHeight'', ''mode'', ''policyId'', ''revision'',
        ''gasPrice'', ''settlementMode'', ''activationHeight'']) (\<lambda>fee.
     and_then (text_value (at_key fee ''profileHash'')) (\<lambda>h.
     and_then (require (hash0x h)) (\<lambda>_.
     and_then (decimal (at_key fee ''evaluatedAtHeight'') False) (\<lambda>evaluated.
     and_then (require (height < int i64_max)) (\<lambda>_.
     and_then (require (evaluated = height + 1)) (\<lambda>_.
     and_then (member_value (at_key fee ''mode'') [''ZERO'', ''FIXED'']) (\<lambda>_.
     and_then (member_value (at_key fee ''settlementMode'') [''NONE'', ''BURN'']) (\<lambda>_.
     and_then (printable_value (at_key fee ''policyId'') 64) (\<lambda>_.
     and_then (decimal (at_key fee ''revision'') False) (\<lambda>revision.
     and_then (require (\<not> (revision = 0 \<or> int u32_max < revision))) (\<lambda>_.
     and_then (decimal (at_key fee ''activationHeight'') False) (\<lambda>_.
     and_then (text_value (at_key fee ''gasPrice'')) (\<lambda>gas.
     require (gas_ok gas))))))))))))))"

definition access_check :: "(string \<rightharpoonup> json) \<Rightarrow> unit result" where
  "access_check body =
     and_then (boolean_value (at_key body ''consoleEnabled'')) (\<lambda>enabled.
     and_then (object (at_key body ''access'') [''mode'', ''implementedAuth'', ''rpcExecution'', ''storageGcControl'']) (\<lambda>access.
     and_then (text_value (at_key access ''mode'')) (\<lambda>mode.
     and_then (require (mode = (if enabled then ''LOCAL_DEVELOPMENT_UNAUTHENTICATED'' else ''CONSOLE_DISABLED''))) (\<lambda>_.
     and_then (boolean_value (at_key access ''implementedAuth'')) (\<lambda>auth.
     and_then (require (\<not> auth)) (\<lambda>_.
     and_then (boolean_value (at_key access ''rpcExecution'')) (\<lambda>rpc.
     and_then (require (\<not> (rpc \<and> \<not> enabled))) (\<lambda>_.
     and_then (boolean_value (at_key access ''storageGcControl'')) (\<lambda>gc.
     require (\<not> (gc \<and> \<not> enabled)))))))))))"

definition expected_capabilities :: "string list" where
  "expected_capabilities = [''CONSENSUS_HEALTH'', ''CONSENSUS_PROGRESS'', ''ROLE_AWARE_LOCAL_READINESS'']"

definition as_array :: "json \<Rightarrow> json list option" where
  "as_array v = (case v of JArr vs \<Rightarrow> Some vs | _ \<Rightarrow> None)"

definition engine_check :: "expected \<Rightarrow> (string \<rightharpoonup> json) \<Rightarrow> unit result" where
  "engine_check e body =
     and_then (object (at_key body ''engine'') [''build'', ''capabilities'']) (\<lambda>engine.
     and_then (expect (identity_of_json (at_key engine ''build''))) (\<lambda>build.
     and_then (require (build = ex_identity e)) (\<lambda>_.
     and_then (expect (as_array (at_key engine ''capabilities''))) (\<lambda>cs.
     require (map as_str cs = map Some expected_capabilities)))))"

definition as_u64 :: "json \<Rightarrow> nat option" where
  "as_u64 v = (case v of JInt i \<Rightarrow> if 0 \<le> i \<and> i \<le> int u64_max then Some (nat i) else None | _ \<Rightarrow> None)"

definition bootstrap_keys :: "string list" where
  "bootstrap_keys = [''nodeInstanceId'', ''chainId'', ''chainIdHex'', ''genesisBlockHash'', ''clientVersion'',
     ''consensus'', ''storage'', ''head'', ''fee'', ''pendingTransactions'', ''sampledAt'', ''consoleEnabled'',
     ''access'', ''engine'']"

definition validate_bootstrap ::
  "(bytes \<Rightarrow> json option) \<Rightarrow> bytes \<Rightarrow> string \<Rightarrow> expected \<Rightarrow> string \<Rightarrow> unit result" where
  "validate_bootstrap parse raw media e node =
     and_then (scope e) (\<lambda>_.
     and_then (require (uuid node)) (\<lambda>_.
     and_then (http parse raw media) (\<lambda>v.
     and_then (object v bootstrap_keys) (\<lambda>body.
     and_then (expect (expected_client (ex_identity e))) (\<lambda>client.
     and_then (text_value (at_key body ''nodeInstanceId'')) (\<lambda>n.
     and_then (require (n = node)) (\<lambda>_.
     and_then (text_value (at_key body ''genesisBlockHash'')) (\<lambda>g.
     and_then (require (g = ex_genesis_hash e)) (\<lambda>_.
     and_then (text_value (at_key body ''clientVersion'')) (\<lambda>c.
     and_then (require (c = client)) (\<lambda>_.
     and_then (chain_check body) (\<lambda>_.
     and_then (decimal (at_key body ''sampledAt'') True) (\<lambda>_.
     and_then (expect (as_u64 (at_key body ''pendingTransactions''))) (\<lambda>pending.
     and_then (require (pending \<le> i32_max)) (\<lambda>_.
     and_then (object (at_key body ''consensus'') [''profileId'', ''protocol'']) (\<lambda>consensus.
     and_then (printable_value (at_key consensus ''profileId'') 64) (\<lambda>_.
     and_then (member_value (at_key consensus ''protocol'') [''QBFT'', ''INSTANT'']) (\<lambda>_.
     and_then (object (at_key body ''storage'') [''backend'']) (\<lambda>storage.
     and_then (text_value (at_key storage ''backend'')) (\<lambda>backend.
     and_then (require (backend = (if ex_backend e = ''h2'' then ''rdb'' else ex_backend e))) (\<lambda>_.
     and_then (head_check e body) (\<lambda>height.
     and_then (fee_check body height) (\<lambda>_.
     and_then (access_check body) (\<lambda>_.
     engine_check e body))))))))))))))))))))))))"

section \<open>The health document\<close>

definition failure_kinds :: "string list" where
  "failure_kinds = [''START'', ''MESSAGE'', ''TIMEOUT'', ''BLOCK_PERIOD'']"

definition failure_phases :: "string list" where
  "failure_phases = [''SUBSCRIBE'', ''TRANSITION'', ''DISPATCH'']"

definition step_names :: "string list" where
  "step_names = [''PROPOSAL'', ''PREPARE'', ''COMMIT'', ''ROUND_CHANGE'']"

definition validate_view :: "json \<Rightarrow> unit result" where
  "validate_view v =
     and_then (object v [''height'', ''round'']) (\<lambda>view.
     and_then (decimal (at_key view ''height'') False) (\<lambda>_.
     and_then (decimal (at_key view ''round'') False) (\<lambda>round.
     require (\<not> int u32_max < round))))"

text \<open>A \<open>for\<close> loop over keys with one check.\<close>

primrec each_key :: "(string \<Rightarrow> unit result) \<Rightarrow> string list \<Rightarrow> unit result" where
  "each_key f [] = Inr ()"
| "each_key f (k # ks) = and_then (f k) (\<lambda>_. each_key f ks)"

definition validate_failure :: "json \<Rightarrow> unit result" where
  "validate_failure v =
     and_then (object v [''kind'', ''phase'', ''startedAtEpochMillis'', ''startedAtNanos'', ''completedAtNanos'',
        ''messageType'', ''inputView'', ''beforeView'', ''beforeStep'', ''afterView'', ''afterStep'', ''causeCategory'']) (\<lambda>f.
     and_then (member_value (at_key f ''kind'') failure_kinds) (\<lambda>_.
     and_then (member_value (at_key f ''phase'') failure_phases) (\<lambda>_.
     and_then (member_value (at_key f ''causeCategory'') [''SAFETY_VIOLATION'', ''INVALID_ARGUMENT'', ''ILLEGAL_STATE'',
        ''RUNTIME_FAILURE'', ''FATAL_ERROR'']) (\<lambda>_.
     and_then (each_key (\<lambda>k. forget (decimal (at_key f k) True))
        [''startedAtEpochMillis'', ''startedAtNanos'', ''completedAtNanos'']) (\<lambda>_.
     and_then (each_key (\<lambda>k. nullable (at_key f k) (\<lambda>v. forget (member_value v step_names)))
        [''messageType'', ''beforeStep'', ''afterStep'']) (\<lambda>_.
     each_key (\<lambda>k. nullable (at_key f k) validate_view) [''inputView'', ''beforeView'', ''afterView'']))))))"

definition execution_states :: "string list" where
  "execution_states = [''NOT_STARTED'', ''STOPPED'', ''FAILED'', ''WAITING_TIMER'', ''EXECUTING'', ''OPERATION_OVERDUE'',
     ''TIMER_OVERDUE'', ''NO_TIMER'']"

definition validate_execution :: "json \<Rightarrow> unit result" where
  "validate_execution v =
     and_then (object v [''status'', ''kind'', ''phase'', ''view'', ''operationElapsedMillis'', ''lastCompletedAgeMillis'',
        ''nextTimerDueInMillis'', ''timerOverdueMillis'', ''operationTimeoutMillis'', ''timerGraceMillis'']) (\<lambda>e.
     and_then (member_value (at_key e ''status'') execution_states) (\<lambda>_.
     and_then (nullable (at_key e ''kind'') (\<lambda>v. forget (member_value v
        [''START'', ''MESSAGE'', ''TIMEOUT'', ''BLOCK_PERIOD'', ''STOP'']))) (\<lambda>_.
     and_then (nullable (at_key e ''phase'') (\<lambda>v. forget (member_value v
        [''SUBSCRIBE'', ''TRANSITION'', ''DIAGNOSTICS'', ''DISPATCH'', ''CLEANUP'']))) (\<lambda>_.
     and_then (nullable (at_key e ''view'') validate_view) (\<lambda>_.
     and_then (each_key (\<lambda>k. nullable (at_key e k) (\<lambda>v. forget (decimal v False)))
        [''operationElapsedMillis'', ''lastCompletedAgeMillis'', ''timerOverdueMillis'']) (\<lambda>_.
     and_then (nullable (at_key e ''nextTimerDueInMillis'') (\<lambda>v. forget (decimal v True))) (\<lambda>_.
     and_then (decimal (at_key e ''operationTimeoutMillis'') False) (\<lambda>_.
     forget (decimal (at_key e ''timerGraceMillis'') False)))))))))"

text \<open>\<open>value.get(key)\<close>, on any value.\<close>

definition get_key :: "json \<Rightarrow> string \<Rightarrow> json option" where
  "get_key v k = (case v of JObj es \<Rightarrow> map_of es k | _ \<Rightarrow> None)"

definition execution_of :: "(string \<rightharpoonup> json) \<Rightarrow> string option" where
  "execution_of health = Option.bind (get_key (at_key health ''executionProgress'') ''status'') as_str"

definition bool_at :: "(string \<rightharpoonup> json) \<Rightarrow> string \<Rightarrow> bool option" where
  "bool_at health k = as_bool (at_key health k)"

subsection \<open>Readiness\<close>

record readiness =
  rd_status :: string
  rd_reason :: string
  rd_role :: string
  rd_startup_mode :: string
  rd_startup_completed :: bool
  rd_sync_status :: string

definition readiness_keys :: "string list" where
  "readiness_keys = [''status'', ''reason'', ''role'', ''startupMode'', ''startupCompleted'', ''syncStatus'']"

definition readiness_of_json :: "json \<Rightarrow> readiness option" where
  "readiness_of_json v =
     do { m \<leftarrow> struct_fields readiness_keys [] v;
          s \<leftarrow> get_str m ''status''; r \<leftarrow> get_str m ''reason''; role \<leftarrow> get_str m ''role'';
          mode \<leftarrow> get_str m ''startupMode''; c \<leftarrow> get_bool m ''startupCompleted''; y \<leftarrow> get_str m ''syncStatus'';
          Some \<lparr>rd_status = s, rd_reason = r, rd_role = role, rd_startup_mode = mode, rd_startup_completed = c,
                rd_sync_status = y\<rparr> }"

definition readiness_words :: "readiness \<Rightarrow> bool" where
  "readiness_words r \<longleftrightarrow>
     List.member [''READY'', ''NOT_READY'', ''UNKNOWN'', ''FAILED''] (rd_status r) \<and>
     List.member [''VALIDATOR'', ''OBSERVER'', ''INSTANT'', ''UNKNOWN''] (rd_role r) \<and>
     List.member [''AUTO_START'', ''MANUAL_START''] (rd_startup_mode r) \<and>
     List.member [''UNKNOWN'', ''NEGOTIATING'', ''DOWNLOADING'', ''RETRYING'', ''FOLLOWING'', ''FAILED''] (rd_sync_status r)"

text \<open>The priority rules: the first that applies gives status and reason.\<close>

definition ruled_readiness :: "readiness \<Rightarrow> (string \<rightharpoonup> json) \<Rightarrow> string \<times> string" where
  "ruled_readiness r health =
     (let x = execution_of health; sync = rd_sync_status r; role = rd_role r in
      if at_key health ''failure'' \<noteq> JNull \<or> x = Some ''FAILED'' then (''FAILED'', ''TERMINAL_FAILURE'')
      else if sync = ''FAILED'' then (''FAILED'', ''SYNC_FAILED'')
      else if x = Some ''OPERATION_OVERDUE'' \<or> x = Some ''TIMER_OVERDUE'' then (''NOT_READY'', ''LOCAL_EXECUTION_OVERDUE'')
      else if \<not> rd_startup_completed r then (''NOT_READY'', ''STARTUP_INCOMPLETE'')
      else if role = ''UNKNOWN'' then (''UNKNOWN'', ''ROLE_UNKNOWN'')
      else if role \<noteq> ''INSTANT'' \<and> bool_at health ''runtimeInitialized'' \<noteq> Some True then (''UNKNOWN'', ''RUNTIME_UNINITIALIZED'')
      else if sync = ''NEGOTIATING'' then (''NOT_READY'', ''SYNC_NEGOTIATING'')
      else if sync = ''DOWNLOADING'' then (''NOT_READY'', ''SYNC_DOWNLOADING'')
      else if sync = ''RETRYING'' then (''NOT_READY'', ''SYNC_RETRYING'')
      else if role = ''OBSERVER'' then (''READY'', ''OBSERVER_INITIALIZED'')
      else if rd_startup_mode r = ''MANUAL_START'' then (''READY'', ''MANUAL_START_INITIALIZED'')
      else if role = ''VALIDATOR'' \<and> bool_at health ''engineAttached'' \<noteq> Some True then (''NOT_READY'', ''ENGINE_MISSING'')
      else if bool_at health ''running'' \<noteq> Some True then (''NOT_READY'', ''ENGINE_NOT_RUNNING'')
      else if role = ''VALIDATOR'' \<and> (x = None \<or> x = Some ''NOT_STARTED'' \<or> x = Some ''STOPPED'' \<or> x = Some ''NO_TIMER'')
        then (''UNKNOWN'', ''EXECUTION_UNKNOWN'')
      else (''READY'', if role = ''INSTANT'' then ''INSTANT_RUNNING'' else ''VALIDATOR_RUNNING''))"

definition follower :: "readiness \<Rightarrow> (string \<rightharpoonup> json) \<Rightarrow> bool" where
  "follower r health \<longleftrightarrow> rd_role r = ''OBSERVER'' \<or>
     (rd_role r = ''VALIDATOR'' \<and> rd_startup_mode r = ''MANUAL_START'' \<and> bool_at health ''engineRunning'' \<noteq> Some True)"

definition validate_readiness :: "readiness \<Rightarrow> (string \<rightharpoonup> json) \<Rightarrow> unit result" where
  "validate_readiness r health =
     and_then (require (readiness_words r)) (\<lambda>_.
     let role = (case as_str (at_key health ''role'') of Some x \<Rightarrow> x
       | None \<Rightarrow> if rd_role r = ''INSTANT'' then ''INSTANT'' else ''UNKNOWN'') in
     and_then (require (\<not> (role \<noteq> rd_role r \<or> rd_role r = ''INSTANT'' \<and> at_key health ''runtimeInitialized'' \<noteq> JNull))) (\<lambda>_.
     let (status, reason) = ruled_readiness r health in
     require (\<not> (\<not> follower r health \<and> rd_sync_status r \<noteq> ''UNKNOWN'' \<or> rd_status r \<noteq> status \<or> rd_reason r \<noteq> reason))))"

subsection \<open>Health\<close>

record health_report =
  hr_observed :: string
  hr_running :: bool
  hr_lifecycle_running :: bool
  hr_readiness :: "readiness option"
  hr_execution :: "string option"

definition health_keys :: "string list" where
  "health_keys = [''observedAtEpochMillis'', ''running'', ''lifecycleRunning'', ''runtimeInitialized'', ''role'',
     ''engineAttached'', ''engineRunning'', ''failure'', ''executionProgress'', ''readiness'']"

definition is_boolean :: "json \<Rightarrow> bool" where
  "is_boolean v \<longleftrightarrow> as_bool v \<noteq> None"

text \<open>What \<open>running\<close> has to be, from the other fields of the same snapshot.\<close>

definition projected_running :: "(string \<rightharpoonup> json) \<Rightarrow> bool \<Rightarrow> bool result" where
  "projected_running body lifecycle =
     (case bool_at body ''runtimeInitialized'' of
        Some initialized \<Rightarrow>
          and_then (boolean_value (at_key body ''engineAttached'')) (\<lambda>attached.
          and_then (require (\<not> (attached \<noteq> is_boolean (at_key body ''engineRunning'') \<or>
             \<not> attached \<and> at_key body ''failure'' \<noteq> JNull))) (\<lambda>_.
          Inr (lifecycle \<and> initialized \<and> at_key body ''failure'' = JNull \<and>
            (case bool_at body ''engineRunning'' of Some r \<Rightarrow> r
             | None \<Rightarrow> as_str (at_key body ''role'') = Some ''OBSERVER''))))
      | None \<Rightarrow>
          and_then (require (list_all (\<lambda>k. at_key body k = JNull)
             [''role'', ''engineAttached'', ''engineRunning'', ''failure'', ''executionProgress''])) (\<lambda>_.
          Inr lifecycle))"

definition readiness_check :: "(string \<rightharpoonup> json) \<Rightarrow> readiness option result" where
  "readiness_check body =
     (let v = at_key body ''readiness'' in
      if v = JNull then Inr None
      else and_then (object v readiness_keys) (\<lambda>_.
           and_then (expect (readiness_of_json v)) (\<lambda>r.
           and_then (validate_readiness r body) (\<lambda>_. Inr (Some r)))))"

definition validate_health :: "(bytes \<Rightarrow> json option) \<Rightarrow> bytes \<Rightarrow> string \<Rightarrow> health_report result" where
  "validate_health parse raw media =
     and_then (http parse raw media) (\<lambda>v.
     and_then (object v health_keys) (\<lambda>body.
     and_then (decimal (at_key body ''observedAtEpochMillis'') True) (\<lambda>_.
     and_then (boolean_value (at_key body ''running'')) (\<lambda>running.
     and_then (boolean_value (at_key body ''lifecycleRunning'')) (\<lambda>lifecycle.
     and_then (each_key (\<lambda>k. nullable (at_key body k) (\<lambda>v. forget (boolean_value v)))
        [''runtimeInitialized'', ''engineAttached'', ''engineRunning'']) (\<lambda>_.
     and_then (nullable (at_key body ''role'') (\<lambda>v. forget (member_value v [''VALIDATOR'', ''OBSERVER'']))) (\<lambda>_.
     and_then (nullable (at_key body ''failure'') validate_failure) (\<lambda>_.
     and_then (nullable (at_key body ''executionProgress'') validate_execution) (\<lambda>_.
     and_then (projected_running body lifecycle) (\<lambda>projected.
     and_then (require (running = projected)) (\<lambda>_.
     and_then (readiness_check body) (\<lambda>readiness.
     and_then (text_value (at_key body ''observedAtEpochMillis'')) (\<lambda>at.
     Inr \<lparr>hr_observed = at, hr_running = running, hr_lifecycle_running = lifecycle, hr_readiness = readiness,
          hr_execution = execution_of body\<rparr>)))))))))))))"

end
