(* ===== verification/HealthProps.thy ===== *)
theory HealthProps
  imports Health IpText
begin

text \<open>
  What an accepted bootstrap binds, what an accepted READY means, and the canonical numbers of the
  monitor's documents.
\<close>

section \<open>Canonical numbers\<close>

definition show_int :: "int \<Rightarrow> string" where
  "show_int i = (if i < 0 then CHR ''-'' # show_radix 10 (nat (- i)) else show_radix 10 (nat i))"

lemma unsigned_decimal_iff: "unsigned_decimal s \<longleftrightarrow> (\<exists>n. s = show_radix 10 n)"
proof
  assume u: "unsigned_decimal s"
  then have "s = ''0'' \<or> s \<noteq> [] \<and> hd s \<noteq> CHR ''0'' \<and> list_all is_digit s"
    by (cases s) (auto simp: unsigned_decimal_def)
  then have "show_radix 10 (read_radix 10 s) = s"
  proof
    show "s = ''0'' \<Longrightarrow> show_radix 10 (read_radix 10 s) = s" using show_read_decimal [of s] by (simp add: is_digit_def)
  qed (blast intro: show_read_decimal)
  then show "\<exists>n. s = show_radix 10 n" by metis
next
  assume "\<exists>n. s = show_radix 10 n"
  then obtain n where n: "s = show_radix 10 n" by blast
  have "hd s = CHR ''0'' \<Longrightarrow> s = ''0''"
  proof -
    assume "hd s = CHR ''0''"
    moreover from this have "length s = 1" using show_radix_leading [of 10 n] n by simp
    ultimately show "s = ''0''" by (cases s) simp_all
  qed
  moreover have "list_all is_digit s" "s \<noteq> []" using show_radix_is_digit n by simp_all
  ultimately show "unsigned_decimal s" by (cases s) (auto simp: unsigned_decimal_def)
qed

lemma show_radix_head: "\<exists>c r. show_radix 10 n = c # r \<and> is_digit c"
  using show_radix_is_digit [of n] show_radix_not_Nil [of 10 n] by (cases "show_radix 10 n") auto

lemma parse_i64_show: "parse_i64 (show_radix 10 n) = (if n \<le> i64_max then Some (int n) else None)"
proof -
  obtain c r where s: "show_radix 10 n = c # r" "is_digit c" using show_radix_head by blast
  then have "c \<noteq> CHR ''-''" by (auto simp: is_digit_def)
  then have "parse_i64 (show_radix 10 n) = map_option int (parse_uint 10 i64_max (show_radix 10 n))"
    using s(1) by (simp add: parse_i64_def parse_sint_def)
  then show ?thesis by (simp add: parse_uint_digits [OF show_radix_is_digit])
qed

lemma parse_i64_minus: "parse_i64 (CHR ''-'' # show_radix 10 n) = (if n \<le> Suc i64_max then Some (- int n) else None)"
  using show_radix_is_digit [of n] by (simp add: parse_i64_def parse_sint_def)

lemma text_value_Inr [simp]: "text_value v = Inr s \<longleftrightarrow> v = JStr s"
  by (simp add: text_value_def)

lemma boolean_value_Inr [simp]: "boolean_value v = Inr b \<longleftrightarrow> v = JBool b"
  by (simp add: boolean_value_def)

lemma member_value_Inr [simp]: "member_value v xs = Inr s \<longleftrightarrow> v = JStr s \<and> s \<in> set xs"
  by (auto simp: member_value_def and_then_eq_Inr)

lemma object_Inr [simp]: "object v keys = Inr m \<longleftrightarrow> exact_object v keys = Some m"
  by (simp add: object_def)

lemma forget_Inr [simp]: "forget r = Inr u \<longleftrightarrow> (\<exists>x. r = Inr x)"
  by (cases r) (simp_all add: forget_def fail_def)

lemma each_key_Inr: "each_key f ks = Inr u \<longleftrightarrow> (\<forall>k \<in> set ks. f k = Inr ())"
  by (induction ks) (auto simp: and_then_eq_Inr)

lemma decimal_Inr [simp]:
  "decimal v negative = Inr i \<longleftrightarrow>
     v = JStr (show_int i) \<and> (0 \<le> i \<or> negative) \<and> - int (Suc i64_max) \<le> i \<and> i \<le> int i64_max"
  (is "?l \<longleftrightarrow> ?r")
proof
  assume l: ?l
  then obtain t where t: "v = JStr t" "parse_i64 t = Some i"
    and u: "unsigned_decimal t \<or> negative \<and> (\<exists>s. t = ''-'' @ s \<and> s \<noteq> ''0'' \<and> unsigned_decimal s)"
    by (auto simp: decimal_def and_then_eq_Inr split: option.splits)
  from u consider n where "t = show_radix 10 n"
    | n where "negative" "t = CHR ''-'' # show_radix 10 n" "show_radix 10 n \<noteq> ''0''"
    unfolding unsigned_decimal_iff by auto
  then show ?r
  proof cases
    case 1
    then show ?thesis using t by (auto simp: parse_i64_show show_int_def split: if_splits)
  next
    case 2
    then have "n \<noteq> 0" using show_radix_small [of 0 10] digit_char_0 by (cases "n = 0") simp_all
    then show ?thesis using 2 t by (auto simp: parse_i64_minus show_int_def split: if_splits)
  qed
next
  assume r: ?r
  show ?l
  proof (cases "i < 0")
    case True
    then have "show_radix 10 (nat (- i)) \<noteq> ''0''"
      using read_show_radix [of 10 "nat (- i)"] by (auto simp: read_radix_def)
    then show ?thesis
      using r True unsigned_decimal_iff [of "show_radix 10 (nat (- i))"]
      by (auto simp: decimal_def and_then_eq_Inr show_int_def parse_i64_minus)
  next
    case False
    then show ?thesis
      using r unsigned_decimal_iff [of "show_radix 10 (nat i)"]
      by (auto simp: decimal_def and_then_eq_Inr show_int_def parse_i64_show)
  qed
qed

subsection \<open>The gas price\<close>

lemma uint256_max_digits: "length uint256_max = 78" "list_all is_digit uint256_max"
    "read_radix 10 uint256_max = 2 ^ 256 - 1"
  by (simp_all add: uint256_max_def is_digit_def read_radix_def digit_val_def)

lemma char_order: "(s < t) \<longleftrightarrow> (s, t) \<in> lexord {(x, y). byte_val x < byte_val y}" for s t :: string
  by (simp add: list_less_def less_char_def)

lemma pred_less: "0 < m \<Longrightarrow> m - 1 < n \<longleftrightarrow> \<not> n < m" for m n :: nat
  by linarith

lemma powers: "(10 :: nat) ^ 77 \<le> 2 ^ 256" "(2 :: nat) ^ 256 \<le> 10 ^ 78"
  by simp_all

lemma gas_ok_iff: "gas_ok s \<longleftrightarrow> (\<exists>n < 2 ^ 256. s = show_radix 10 n)"
proof -
  have eq: "gas_ok (show_radix 10 n) \<longleftrightarrow> n < 2 ^ 256" for n
  proof -
    let ?s = "show_radix 10 n"
    have u: "unsigned_decimal ?s" using unsigned_decimal_iff by blast
    have d: "list_all is_digit ?s" by (rule show_radix_is_digit)
    have up: "n < 10 ^ length ?s"
      using read_radix_upper [of 10 ?s] is_digit_val d by (simp add: list_all_iff)
    have lo: "length ?s \<le> k" if "n < 10 ^ k" "0 < k" for k
      using length_show_radix_le [of 10 n k] that by simp
    consider "length ?s < 78" | "length ?s = 78" | "78 < length ?s" by linarith
    then show ?thesis
    proof cases
      case 1
      then have "n < 10 ^ 77" using up power_increasing [of "length ?s" 77 "10 :: nat"] by linarith
      then have "n < 2 ^ 256" using powers by linarith
      then show ?thesis using u 1 by (simp only: gas_ok_def uint256_max_digits(1)) simp
    next
      case 2
      have "uint256_max < ?s \<longleftrightarrow> (2 :: nat) ^ 256 - 1 < n"
        using read_decimal_mono [of uint256_max ?s] 2 d uint256_max_digits by (simp add: char_order)
      moreover have "(2 :: nat) ^ 256 - 1 < n \<longleftrightarrow> \<not> n < 2 ^ 256" using pred_less [of "2 ^ 256" n] by simp
      ultimately show ?thesis using u 2 by (simp only: gas_ok_def uint256_max_digits(1)) simp
    next
      case 3
      then have "\<not> n < 10 ^ 78" using lo [of 78] by linarith
      then have "\<not> n < 2 ^ 256" using powers by linarith
      then show ?thesis using 3 by (simp only: gas_ok_def uint256_max_digits(1)) simp
    qed
  qed
  show ?thesis
  proof
    assume g: "gas_ok s"
    then obtain n where "s = show_radix 10 n" using unsigned_decimal_iff [of s] by (auto simp: gas_ok_def)
    then show "\<exists>n < 2 ^ 256. s = show_radix 10 n" using eq [of n] g by (intro exI [of _ n] conjI) (simp_all only:)
  next
    assume "\<exists>n < 2 ^ 256. s = show_radix 10 n"
    then obtain n where "n < 2 ^ 256" "s = show_radix 10 n" by (elim exE conjE)
    then show "gas_ok s" using eq [of n] by (simp only:)
  qed
qed

section \<open>Bootstrap\<close>

text \<open>A field of an accepted object.\<close>

lemma at_key_JObj [simp]: "m k = Some v \<Longrightarrow> at_key m k = v"
  by (simp add: at_key_def)

lemma http_Inr:
  "http parse raw media = Inr v \<longleftrightarrow> raw \<noteq> [] \<and> length raw \<le> max_http \<and> media_ok media \<and> parse raw = Some v \<and>
     admits nullable_seed 0 v"
  by (auto simp: http_def and_then_eq_Inr seed_value_eq bind_eq_Some_conv split: if_splits)

text \<open>What the bootstrap of the node \<open>node\<close> says, beside its syntax.\<close>

definition bootstrap_bound :: "expected \<Rightarrow> string \<Rightarrow> (string \<rightharpoonup> json) \<Rightarrow> bool" where
  "bootstrap_bound e node b \<longleftrightarrow>
     at_key b ''nodeInstanceId'' = JStr node \<and> at_key b ''genesisBlockHash'' = JStr (ex_genesis_hash e) \<and>
     (\<exists>x. exact_object (at_key b ''engine'') [''build'', ''capabilities''] = Some x \<and>
        identity_of_json (at_key x ''build'') = Some (ex_identity e) \<and>
        at_key x ''capabilities'' = JArr (map JStr expected_capabilities))"

definition bootstrap_chain :: "(string \<rightharpoonup> json) \<Rightarrow> bool" where
  "bootstrap_chain b \<longleftrightarrow> (\<exists>chain hex. 0 < chain \<and> chain \<le> i32_max \<and> at_key b ''chainId'' = JStr (show_radix 10 chain) \<and>
     at_key b ''chainIdHex'' = JStr (''0x'' @ hex) \<and> hex \<noteq> [] \<and> list_all is_hexdigit hex \<and> read_radix 16 hex = chain)"

definition bootstrap_fee :: "expected \<Rightarrow> (string \<rightharpoonup> json) \<Rightarrow> bool" where
  "bootstrap_fee e b \<longleftrightarrow> (\<exists>head fee height gas h.
     exact_object (at_key b ''head'') [''number'', ''hash''] = Some head \<and>
     at_key head ''number'' = JStr (show_radix 10 height) \<and> at_key head ''hash'' = JStr h \<and>
     (height = 0 \<longrightarrow> h = ex_genesis_hash e) \<and> at_key b ''fee'' = JObj fee \<and>
     at_key (map_of fee) ''evaluatedAtHeight'' = JStr (show_radix 10 (height + 1)) \<and>
     at_key (map_of fee) ''gasPrice'' = JStr (show_radix 10 gas) \<and> height < i64_max \<and> gas < 2 ^ 256)"

definition bootstrap_access :: "(string \<rightharpoonup> json) \<Rightarrow> bool" where
  "bootstrap_access b \<longleftrightarrow> (\<exists>access. at_key b ''access'' = JObj access \<and>
     at_key (map_of access) ''implementedAuth'' = JBool False \<and>
     (at_key b ''consoleEnabled'' \<noteq> JBool True \<longrightarrow>
        at_key (map_of access) ''rpcExecution'' = JBool False \<and> at_key (map_of access) ''storageGcControl'' = JBool False))"

lemma show_int_nat: "0 \<le> i \<Longrightarrow> show_int i = show_radix 10 (nat i)"
  by (simp add: show_int_def)

lemma chain_check_Inr: "chain_check b = Inr u \<Longrightarrow> bootstrap_chain b"
proof -
  assume "chain_check b = Inr u"
  then obtain chain hex where c: "at_key b ''chainId'' = JStr (show_int chain)" "0 \<le> chain" "chain \<noteq> 0" "chain \<le> int i32_max"
      "at_key b ''chainIdHex'' = JStr (''0x'' @ hex)" "hex \<noteq> []" "list_all is_hexdigit hex"
      "parse_uint 16 u32_max hex = Some (nat chain)"
    by (auto simp: chain_check_def and_then_eq_Inr split: option.splits)
  from c(6,7) obtain x r where "hex = x # r" "is_hexdigit x" by (cases hex) auto
  then have "hd hex \<noteq> CHR ''+''" by (auto simp: is_hexdigit_def is_digit_def is_lower_hex_def)
  then have "read_radix 16 hex = nat chain"
    using c(8) by (cases hex) (auto simp: parse_uint_def Let_def split: if_splits)
  then show ?thesis
    using c unfolding bootstrap_chain_def by (intro exI [of _ "nat chain"] exI [of _ hex]) (simp add: show_int_nat)
qed

lemma head_fee_Inr:
  assumes "head_check e b = Inr height" "fee_check b height = Inr u"
  shows "bootstrap_fee e b"
proof -
  obtain head h where h: "exact_object (at_key b ''head'') [''number'', ''hash''] = Some head"
      "at_key head ''number'' = JStr (show_int height)" "0 \<le> height" "at_key head ''hash'' = JStr h"
      "height = 0 \<longrightarrow> h = ex_genesis_hash e"
    using assms(1) by (auto simp: head_check_def and_then_eq_Inr)
  obtain fee gas where f: "exact_object (at_key b ''fee'') [''profileHash'', ''evaluatedAtHeight'', ''mode'', ''policyId'',
        ''revision'', ''gasPrice'', ''settlementMode'', ''activationHeight''] = Some fee" "height < int i64_max"
      "at_key fee ''evaluatedAtHeight'' = JStr (show_int (height + 1))" "at_key fee ''gasPrice'' = JStr gas" "gas_ok gas"
    using assms(2) by (auto simp: fee_check_def and_then_eq_Inr)
  obtain es where es: "at_key b ''fee'' = JObj es" "fee = map_of es" using exact_object_not_JObj [OF f(1)] by blast
  obtain n where n: "gas = show_radix 10 n" "n < 2 ^ 256" using f(5) gas_ok_iff by blast
  have "nat (height + 1) = nat height + 1" using h(3) by simp
  then show ?thesis
    using h f es n unfolding bootstrap_fee_def
    by (intro exI [of _ head] exI [of _ es] exI [of _ "nat height"] exI [of _ n] exI [of _ h]) (simp add: show_int_nat)
qed

lemma access_check_Inr: "access_check b = Inr u \<Longrightarrow> bootstrap_access b"
  using exact_object_not_JObj
  by (fastforce simp: access_check_def bootstrap_access_def and_then_eq_Inr)

lemma engine_check_Inr:
  "engine_check e b = Inr u \<Longrightarrow> \<exists>x. exact_object (at_key b ''engine'') [''build'', ''capabilities''] = Some x \<and>
     identity_of_json (at_key x ''build'') = Some (ex_identity e) \<and>
     at_key x ''capabilities'' = JArr (map JStr expected_capabilities)"
proof -
  have "map as_str cs = map Some ss \<Longrightarrow> cs = map JStr ss" for cs ss
    by (induction cs arbitrary: ss) (auto simp: map_eq_Cons_conv Cons_eq_map_conv)
  moreover have "as_array v = Some cs \<longleftrightarrow> v = JArr cs" for v cs by (auto simp: as_array_def split: json.splits)
  moreover assume "engine_check e b = Inr u"
  ultimately show ?thesis by (auto simp: engine_check_def and_then_eq_Inr)
qed

text \<open>C31. An accepted bootstrap document belongs to the observed run: it names the node instance of
  the run, the initialised genesis and the pinned build with exactly the expected capabilities; its
  chain id is positive, fits 31 bits and is the value of its hexadecimal form; the fee is that of the
  block after the head, the head of height zero is the genesis, and the gas price is a canonical
  number below 2 to the 256; without a console neither RPC execution nor storage control is on.\<close>

theorem bootstrap_binds_run:
  assumes "validate_bootstrap parse raw media e node = Inr ()"
  shows "\<exists>es. parse raw = Some (JObj es) \<and> distinct (map fst es) \<and> set (map fst es) = set bootstrap_keys \<and>
    bootstrap_bound e node (map_of es) \<and> bootstrap_chain (map_of es) \<and> bootstrap_fee e (map_of es) \<and>
    bootstrap_access (map_of es)"
proof -
  from assms obtain v body height where v: "http parse raw media = Inr v" "exact_object v bootstrap_keys = Some body"
    and b: "at_key body ''nodeInstanceId'' = JStr node" "at_key body ''genesisBlockHash'' = JStr (ex_genesis_hash e)"
      "chain_check body = Inr ()" "head_check e body = Inr height" "fee_check body height = Inr ()"
      "access_check body = Inr ()" "engine_check e body = Inr ()"
    unfolding validate_bootstrap_def by (auto simp: and_then_eq_Inr)
  obtain es where es: "v = JObj es" "body = map_of es" using exact_object_not_JObj [OF v(2)] by blast
  have "distinct (map fst es)" using v(1) es(1) by (simp add: http_Inr admits_JObj)
  moreover have "set (map fst es) = set bootstrap_keys"
    by (rule exact_object_keys) (use v es http_Inr admits_JObj in \<open>auto simp: bootstrap_keys_def\<close>)
  ultimately show ?thesis
    using v(1) es b chain_check_Inr head_fee_Inr access_check_Inr engine_check_Inr
    by (auto simp: http_Inr bootstrap_bound_def)
qed

section \<open>Health\<close>

text \<open>What the parts of an accepted health document say.\<close>

lemma nullable_Inr: "nullable v f = Inr u \<longleftrightarrow> v = JNull \<or> f v = Inr ()"
  by (auto simp: nullable_def)

lemma as_bool_JBool [simp]: "as_bool (JBool x) = Some x"
  by simp

lemma as_bool_at: "bool_at b k = Some x \<longleftrightarrow> at_key b k = JBool x"
  by (simp add: bool_at_def)

lemma execution_status:
  assumes "validate_execution (at_key b ''executionProgress'') = Inr u"
  shows "\<exists>x. execution_of b = Some x \<and> x \<in> set execution_states"
proof -
  obtain m x where m: "exact_object (at_key b ''executionProgress'') [''status'', ''kind'', ''phase'', ''view'',
      ''operationElapsedMillis'', ''lastCompletedAgeMillis'', ''nextTimerDueInMillis'', ''timerOverdueMillis'',
      ''operationTimeoutMillis'', ''timerGraceMillis''] = Some m"
    "at_key m ''status'' = JStr x" "x \<in> set execution_states"
    using assms unfolding validate_execution_def and_then_eq_Inr object_Inr member_value_Inr by blast
  obtain w where w: "m ''status'' = Some w" using exact_object_dom [OF m(1), of "''status''"] by auto
  obtain es where "at_key b ''executionProgress'' = JObj es" "m = map_of es" using exact_object_not_JObj [OF m(1)] by blast
  then have "execution_of b = Some x" using m(2) w by (simp add: execution_of_def get_key_def)
  then show ?thesis using m(3) by blast
qed

text \<open>The meaning of a readiness beside the health document \<open>b\<close>.\<close>

definition ready_state :: "health_report \<Rightarrow> readiness \<Rightarrow> (string \<rightharpoonup> json) \<Rightarrow> bool" where
  "ready_state h r b \<longleftrightarrow>
     rd_startup_completed r \<and> at_key b ''failure'' = JNull \<and>
     rd_role r \<in> {''VALIDATOR'', ''OBSERVER'', ''INSTANT''} \<and> rd_sync_status r \<in> {''UNKNOWN'', ''FOLLOWING''} \<and>
     hr_execution h \<notin> Some ` {''FAILED'', ''OPERATION_OVERDUE'', ''TIMER_OVERDUE''} \<and>
     (rd_role r \<noteq> ''INSTANT'' \<longrightarrow> at_key b ''runtimeInitialized'' = JBool True) \<and>
     (rd_role r = ''VALIDATOR'' \<and> rd_startup_mode r = ''AUTO_START'' \<longrightarrow>
        at_key b ''engineAttached'' = JBool True \<and> at_key b ''engineRunning'' = JBool True \<and> hr_running h \<and>
        hr_execution h \<in> Some ` {''WAITING_TIMER'', ''EXECUTING''}) \<and>
     (rd_role r = ''INSTANT'' \<and> rd_startup_mode r = ''AUTO_START'' \<longrightarrow> hr_running h)"

definition failed_state :: "health_report \<Rightarrow> readiness \<Rightarrow> (string \<rightharpoonup> json) \<Rightarrow> bool" where
  "failed_state h r b \<longleftrightarrow> at_key b ''failure'' \<noteq> JNull \<or> hr_execution h = Some ''FAILED'' \<or> rd_sync_status r = ''FAILED''"

lemma ruled_ready:
  assumes "fst (ruled_readiness r b) = ''READY''"
  shows "rd_startup_completed r" "at_key b ''failure'' = JNull" "rd_role r \<noteq> ''UNKNOWN''"
    "rd_sync_status r \<notin> {''FAILED'', ''NEGOTIATING'', ''DOWNLOADING'', ''RETRYING''}"
    "execution_of b \<notin> Some ` {''FAILED'', ''OPERATION_OVERDUE'', ''TIMER_OVERDUE''}"
    "rd_role r \<noteq> ''INSTANT'' \<Longrightarrow> bool_at b ''runtimeInitialized'' = Some True"
    "rd_role r = ''VALIDATOR'' \<Longrightarrow> rd_startup_mode r \<noteq> ''MANUAL_START'' \<Longrightarrow> bool_at b ''engineAttached'' = Some True"
    "rd_role r \<noteq> ''OBSERVER'' \<Longrightarrow> rd_startup_mode r \<noteq> ''MANUAL_START'' \<Longrightarrow> bool_at b ''running'' = Some True"
    "rd_role r = ''VALIDATOR'' \<Longrightarrow> rd_startup_mode r \<noteq> ''MANUAL_START'' \<Longrightarrow>
       execution_of b \<notin> {None, Some ''NOT_STARTED'', Some ''STOPPED'', Some ''NO_TIMER''}"
  using assms by (auto simp: ruled_readiness_def Let_def split: if_splits)

lemma ruled_failed:
  "fst (ruled_readiness r b) = ''FAILED'' \<longleftrightarrow>
     at_key b ''failure'' \<noteq> JNull \<or> execution_of b = Some ''FAILED'' \<or> rd_sync_status r = ''FAILED''"
  by (simp add: ruled_readiness_def Let_def)

lemma readiness_ruled:
  assumes "validate_readiness r b = Inr u"
  shows "readiness_words r" "rd_status r = fst (ruled_readiness r b)"
  using assms by (auto simp: validate_readiness_def and_then_eq_Inr Let_def split: prod.splits)

lemma projected_running_Inr:
  assumes "projected_running b lifecycle = Inr p"
  shows "p \<Longrightarrow> lifecycle \<and> at_key b ''failure'' = JNull"
    "p \<Longrightarrow> at_key b ''runtimeInitialized'' = JBool True \<Longrightarrow> at_key b ''engineAttached'' = JBool True \<Longrightarrow>
       at_key b ''engineRunning'' = JBool True"
  using assms
  by (auto simp: projected_running_def and_then_eq_Inr is_boolean_def bool_at_def split: option.splits if_splits)

lemma validate_health_Inr:
  assumes "validate_health parse raw media = Inr h"
  shows "\<exists>es. parse raw = Some (JObj es) \<and> at_key (map_of es) ''running'' = JBool (hr_running h) \<and>
    projected_running (map_of es) (hr_lifecycle_running h) = Inr (hr_running h) \<and>
    readiness_check (map_of es) = Inr (hr_readiness h) \<and> hr_execution h = execution_of (map_of es) \<and>
    (at_key (map_of es) ''executionProgress'' = JNull \<or> validate_execution (at_key (map_of es) ''executionProgress'') = Inr ())"
proof -
  from assms obtain v body running lifecycle rd t u where v: "http parse raw media = Inr v" "object v health_keys = Inr body"
    and b: "boolean_value (at_key body ''running'') = Inr running" "projected_running body lifecycle = Inr running"
      "readiness_check body = Inr rd" "nullable (at_key body ''executionProgress'') validate_execution = Inr u"
    and h: "h = \<lparr>hr_observed = t, hr_running = running, hr_lifecycle_running = lifecycle, hr_readiness = rd,
        hr_execution = execution_of body\<rparr>"
    unfolding validate_health_def and_then_eq_Inr require_Inr sum.inject by blast
  note v = v(1) v(2) [unfolded object_Inr] and b = b(1) [unfolded boolean_value_Inr] b(2,3) b(4) [unfolded nullable_Inr]
  obtain es where es: "v = JObj es" "body = map_of es" using exact_object_not_JObj [OF v(2)] by blast
  then have "parse raw = Some (JObj es)" using v(1) http_Inr by blast
  then show ?thesis using b es(2) h by auto
qed

lemma readiness_check_Some:
  assumes "readiness_check b = Inr (Some r)"
  shows "validate_readiness r b = Inr ()"
proof (cases "at_key b ''readiness'' = JNull")
  case False
  then have "\<exists>u. validate_readiness r b = Inr u"
    using assms unfolding readiness_check_def Let_def if_not_P [OF False] and_then_eq_Inr sum.inject option.inject by blast
  then show ?thesis by simp
qed (use assms in \<open>simp add: readiness_check_def\<close>)

text \<open>C32. An accepted health answer that says READY describes a node that is: start-up is complete, there
  is no failure and no overdue or failed execution, synchronisation is not under way, the role is
  known and the runtime initialised; an automatically started validator moreover has a running
  engine in a working execution state. It says FAILED exactly when there is a failure, a failed
  execution or a failed synchronisation, and a node that runs has a running life cycle and no failure.\<close>

theorem accepted_readiness_means:
  assumes "validate_health parse raw media = Inr h" "hr_readiness h = Some r"
  shows "\<exists>es. parse raw = Some (JObj es) \<and> (rd_status r = ''READY'' \<longrightarrow> ready_state h r (map_of es)) \<and>
    (rd_status r = ''FAILED'' \<longleftrightarrow> failed_state h r (map_of es)) \<and>
    (hr_running h \<longrightarrow> hr_lifecycle_running h \<and> at_key (map_of es) ''failure'' = JNull)"
proof -
  obtain es where es: "parse raw = Some (JObj es)" "at_key (map_of es) ''running'' = JBool (hr_running h)"
    "projected_running (map_of es) (hr_lifecycle_running h) = Inr (hr_running h)"
    "readiness_check (map_of es) = Inr (hr_readiness h)" "hr_execution h = execution_of (map_of es)"
    "at_key (map_of es) ''executionProgress'' = JNull \<or> validate_execution (at_key (map_of es) ''executionProgress'') = Inr ()"
    using validate_health_Inr [OF assms(1)] by (elim exE conjE)
  let ?b = "map_of es"
  have "validate_readiness r ?b = Inr ()"
    by (rule readiness_check_Some) (rule es(4) [unfolded assms(2)])
  note r = readiness_ruled [OF this]
  note running = projected_running_Inr [OF es(3)]
  have states: "hr_execution h = None \<or> (\<exists>x. hr_execution h = Some x \<and> x \<in> set execution_states)"
  proof (cases "at_key ?b ''executionProgress'' = JNull")
    case True
    then have "execution_of ?b = None" by (simp add: execution_of_def get_key_def)
    then show ?thesis using es(5) by simp
  next
    case False
    then show ?thesis using es(5,6) execution_status [of ?b] by metis
  qed
  have "ready_state h r ?b" if "rd_status r = ''READY''"
  proof -
    note q = ruled_ready [OF that [unfolded r(2)]]
    have words: "rd_role r \<in> {''VALIDATOR'', ''OBSERVER'', ''INSTANT''}" "rd_sync_status r \<in> {''UNKNOWN'', ''FOLLOWING''}"
      using r(1) q(3,4) by (auto simp: readiness_words_def)
    have engine: "at_key ?b ''engineAttached'' = JBool True" "hr_running h" "at_key ?b ''engineRunning'' = JBool True"
      "hr_execution h \<in> Some ` {''WAITING_TIMER'', ''EXECUTING''}"
      if "rd_role r = ''VALIDATOR''" "rd_startup_mode r = ''AUTO_START''"
    proof -
      show "at_key ?b ''engineAttached'' = JBool True" "hr_running h"
        using q(7,8) that es(2) by (simp_all add: bool_at_def)
      then show "at_key ?b ''engineRunning'' = JBool True" using running(2) q(6) that by (simp add: as_bool_at)
      show "hr_execution h \<in> Some ` {''WAITING_TIMER'', ''EXECUTING''}"
        using q(5,9) that states es(5) by (auto simp: execution_states_def)
    qed
    show ?thesis
      unfolding ready_state_def using q words engine es(2,5)
      by (auto simp: bool_at_def)
  qed
  moreover have "rd_status r = ''FAILED'' \<longleftrightarrow> failed_state h r ?b"
    unfolding r(2) ruled_failed failed_state_def es(5) ..
  ultimately show ?thesis using es(1) running(1) by blast
qed

section \<open>Concrete answers\<close>

definition sample_bootstrap :: json where
  "sample_bootstrap = JObj [(''nodeInstanceId'', JStr run_uuid), (''chainId'', JStr ''2018''), (''chainIdHex'', JStr ''0x7e2''),
     (''genesisBlockHash'', JStr (''0x'' @ run_hash)), (''clientVersion'', JStr ''NIGO/1/bbbbbbbbbbbb''),
     (''consensus'', JObj [(''profileId'', JStr ''p''), (''protocol'', JStr ''INSTANT'')]),
     (''storage'', JObj [(''backend'', JStr ''rocksdb'')]),
     (''head'', JObj [(''number'', JStr ''0''), (''hash'', JStr (''0x'' @ run_hash))]),
     (''fee'', JObj [(''profileHash'', JStr (''0x'' @ run_hash)), (''evaluatedAtHeight'', JStr ''1''), (''mode'', JStr ''ZERO''),
        (''policyId'', JStr ''f''), (''revision'', JStr ''1''), (''gasPrice'', JStr uint256_max),
        (''settlementMode'', JStr ''NONE''), (''activationHeight'', JStr ''0'')]),
     (''pendingTransactions'', JInt 3), (''sampledAt'', JStr ''-5''), (''consoleEnabled'', JBool False),
     (''access'', JObj [(''mode'', JStr ''CONSOLE_DISABLED''), (''implementedAuth'', JBool False),
        (''rpcExecution'', JBool False), (''storageGcControl'', JBool False)]),
     (''engine'', JObj [(''build'', run_build), (''capabilities'', JArr (map JStr expected_capabilities))])]"

lemma sample_bootstrap_ok:
  "validate_bootstrap (\<lambda>_. Some sample_bootstrap) ''b'' ''application/vnd.nigo.console+json; charset=UTF-8'' run_expected run_uuid = Inr ()"
  by code_simp

theorem bootstrap_binds_run_witness:
  "\<exists>es. sample_bootstrap = JObj es \<and> bootstrap_bound run_expected run_uuid (map_of es) \<and> bootstrap_chain (map_of es)"
  using bootstrap_binds_run [OF sample_bootstrap_ok] by auto

definition sample_health :: json where
  "sample_health = JObj [(''observedAtEpochMillis'', JStr ''1700000000000''), (''running'', JBool True),
     (''lifecycleRunning'', JBool True), (''runtimeInitialized'', JBool True), (''role'', JStr ''VALIDATOR''),
     (''engineAttached'', JBool True), (''engineRunning'', JBool True), (''failure'', JNull),
     (''executionProgress'', JObj [(''status'', JStr ''EXECUTING''), (''kind'', JStr ''MESSAGE''), (''phase'', JNull),
        (''view'', JObj [(''height'', JStr ''7''), (''round'', JStr ''0'')]), (''operationElapsedMillis'', JStr ''12''),
        (''lastCompletedAgeMillis'', JNull), (''nextTimerDueInMillis'', JStr ''-1''), (''timerOverdueMillis'', JNull),
        (''operationTimeoutMillis'', JStr ''1000''), (''timerGraceMillis'', JStr ''10'')]),
     (''readiness'', JObj [(''status'', JStr ''READY''), (''reason'', JStr ''VALIDATOR_RUNNING''), (''role'', JStr ''VALIDATOR''),
        (''startupMode'', JStr ''AUTO_START''), (''startupCompleted'', JBool True), (''syncStatus'', JStr ''UNKNOWN'')])]"

definition sample_readiness :: readiness where
  "sample_readiness = \<lparr>rd_status = ''READY'', rd_reason = ''VALIDATOR_RUNNING'', rd_role = ''VALIDATOR'',
     rd_startup_mode = ''AUTO_START'', rd_startup_completed = True, rd_sync_status = ''UNKNOWN''\<rparr>"

definition sample_report :: health_report where
  "sample_report = \<lparr>hr_observed = ''1700000000000'', hr_running = True, hr_lifecycle_running = True,
     hr_readiness = Some sample_readiness, hr_execution = Some ''EXECUTING''\<rparr>"

lemma sample_health_ok: "validate_health (\<lambda>_. Some sample_health) ''h'' media_type = Inr sample_report"
  by code_simp

theorem accepted_readiness_means_witness:
  "\<exists>es. sample_health = JObj es \<and> ready_state sample_report sample_readiness (map_of es)"
proof -
  have r: "hr_readiness sample_report = Some sample_readiness" "rd_status sample_readiness = ''READY''"
    by (simp_all add: sample_report_def sample_readiness_def)
  show ?thesis using accepted_readiness_means [OF sample_health_ok r(1)] r(2) by auto
qed

end
