(* ===== verification/InstanceData.thy ===== *)
theory InstanceData
  imports SetupPaths Verify InitReport Acts
begin

text \<open>
  What a registered instance keeps (\<open>src/src/engine/instance.rs\<close>,
  \<open>src/src/engine/instance/supply.rs\<close>): the binding with its pins and its retained supply, the
  journal state, and the checks on them that need no file but the paths' objects.
\<close>

section \<open>Declared structs\<close>

text \<open>Fields in declaration order, each with whether it has a default: an object with exactly these,
  or an array that may end before trailing fields with defaults.\<close>

definition declared_fields :: "(string \<times> bool) list \<Rightarrow> json \<Rightarrow> (string \<rightharpoonup> json) option" where
  "declared_fields decl v =
     (case v of
        JObj es \<Rightarrow>
          if distinct (map fst es) \<and> fst ` set es \<subseteq> fst ` set decl \<and>
             (\<forall>f \<in> set decl. snd f \<or> fst f \<in> fst ` set es)
          then Some (map_of es) else None
      | JArr vs \<Rightarrow>
          if length vs \<le> length decl \<and> list_all snd (drop (length vs) decl)
          then Some (map_of (zip (map fst decl) vs)) else None
      | _ \<Rightarrow> None)"

section \<open>The lock file\<close>

definition lock_of_json :: "json \<Rightarrow> lock option" where
  "lock_of_json v =
     do { m \<leftarrow> struct_fields [''schemaVersion'', ''jarSha256'', ''jarSizeBytes'', ''javaSha256'', ''expected''] [] v;
          s \<leftarrow> get_uint u32_max m ''schemaVersion''; j \<leftarrow> get_str m ''jarSha256''; n \<leftarrow> get_uint u64_max m ''jarSizeBytes'';
          x \<leftarrow> get_str m ''javaSha256''; i \<leftarrow> Option.bind (m ''expected'') identity_of_json;
          Some \<lparr>lock_schema_version = s, lock_jar_sha256 = j, lock_jar_size = n, lock_java_sha256 = x, lock_expected = i\<rparr> }"

definition inst_corrupt :: string where "inst_corrupt = ''INSTANCE_STATE_INVALID''"
definition inst_precondition :: string where "inst_precondition = ''INSTANCE_PRECONDITION_FAILED''"

definition read_lock :: "(bytes \<Rightarrow> json option) \<Rightarrow> bytes \<Rightarrow> lock result" where
  "read_lock parse raw =
     and_then (ok_or (engine_decode parse lock_of_json raw) inst_corrupt) (\<lambda>l.
     and_then (validate_lock l) (\<lambda>_. Inr l))"

section \<open>Binding\<close>

record bpin =
  bp_path :: string
  bp_sha :: string

record provenance =
  pv_archive :: bpin
  pv_lock :: bpin
  pv_public_key :: "bpin option"

record binding =
  bn_schema :: nat
  bn_instance_id :: string
  bn_package :: string
  bn_archive :: string
  bn_public_key :: "string option"
  bn_unsigned :: bool
  bn_product :: string
  bn_native :: string
  bn_lock :: string
  bn_archive_sha :: string
  bn_manifest_sha :: string
  bn_identity :: build_identity
  bn_backend :: string
  bn_chain_fingerprint :: string
  bn_node_identity :: string
  bn_data_directory :: string
  bn_pins :: "bpin list"
  bn_supply :: "provenance option"

definition bpin_of_json :: "json \<Rightarrow> bpin option" where
  "bpin_of_json v =
     do { m \<leftarrow> struct_fields [''path'', ''sha256''] [] v; p \<leftarrow> get_str m ''path''; s \<leftarrow> get_str m ''sha256'';
          Some \<lparr>bp_path = p, bp_sha = s\<rparr> }"

definition provenance_of_json :: "json \<Rightarrow> provenance option" where
  "provenance_of_json v =
     do { m \<leftarrow> declared_fields [(''archive'', False), (''lock'', False), (''publicKey'', True)] v;
          a \<leftarrow> Option.bind (m ''archive'') bpin_of_json; l \<leftarrow> Option.bind (m ''lock'') bpin_of_json;
          k \<leftarrow> get_opt bpin_of_json m ''publicKey'';
          Some \<lparr>pv_archive = a, pv_lock = l, pv_public_key = k\<rparr> }"

definition binding_fields :: "(string \<times> bool) list" where
  "binding_fields = [(''schemaVersion'', False), (''instanceId'', False), (''package'', False), (''archive'', False),
     (''publicKey'', True), (''allowUnsignedDevelopment'', False), (''product'', False), (''native'', False),
     (''lock'', False), (''archiveSha256'', False), (''manifestSha256'', False), (''identity'', False),
     (''backend'', False), (''chainFingerprint'', False), (''nodeIdentity'', False), (''dataDirectory'', False),
     (''pins'', False), (''supply'', True)]"

definition binding_of_json :: "json \<Rightarrow> binding option" where
  "binding_of_json v =
     do { m \<leftarrow> declared_fields binding_fields v;
          sv \<leftarrow> get_uint u32_max m ''schemaVersion''; i \<leftarrow> get_str m ''instanceId''; p \<leftarrow> get_str m ''package'';
          a \<leftarrow> get_str m ''archive''; k \<leftarrow> get_opt as_str m ''publicKey''; u \<leftarrow> get_bool m ''allowUnsignedDevelopment'';
          pr \<leftarrow> get_str m ''product''; n \<leftarrow> get_str m ''native''; l \<leftarrow> get_str m ''lock'';
          as \<leftarrow> get_str m ''archiveSha256''; ms \<leftarrow> get_str m ''manifestSha256'';
          ident \<leftarrow> Option.bind (m ''identity'') identity_of_json; b \<leftarrow> get_str m ''backend'';
          c \<leftarrow> get_str m ''chainFingerprint''; ni \<leftarrow> get_str m ''nodeIdentity''; d \<leftarrow> get_str m ''dataDirectory'';
          ps \<leftarrow> get_vec bpin_of_json None m ''pins''; s \<leftarrow> get_opt provenance_of_json m ''supply'';
          Some \<lparr>bn_schema = sv, bn_instance_id = i, bn_package = p, bn_archive = a, bn_public_key = k, bn_unsigned = u,
                bn_product = pr, bn_native = n, bn_lock = l, bn_archive_sha = as, bn_manifest_sha = ms,
                bn_identity = ident, bn_backend = b, bn_chain_fingerprint = c, bn_node_identity = ni,
                bn_data_directory = d, bn_pins = ps, bn_supply = s\<rparr> }"

section \<open>Journal state\<close>

datatype init_phase = Registered | InitIntent | Initialized | Unknown

record init_attempt =
  ia_id :: string
  ia_command :: string

record istate =
  is_schema :: nat
  is_instance_id :: string
  is_binding_sha :: string
  is_phase :: init_phase
  is_attempt :: "init_attempt option"
  is_genesis :: "string option"
  is_reason :: string

definition phase_text :: "init_phase \<Rightarrow> string" where
  "phase_text p = (case p of Registered \<Rightarrow> ''REGISTERED'' | InitIntent \<Rightarrow> ''INIT_INTENT''
     | Initialized \<Rightarrow> ''INITIALIZED'' | Unknown \<Rightarrow> ''UNKNOWN'')"

definition phase_of_json :: "json \<Rightarrow> init_phase option" where
  "phase_of_json v = find (\<lambda>p. as_str v = Some (phase_text p)) [Registered, InitIntent, Initialized, Unknown]"

definition attempt_of_json :: "json \<Rightarrow> init_attempt option" where
  "attempt_of_json v =
     do { m \<leftarrow> struct_fields [''id'', ''command''] [] v; i \<leftarrow> get_str m ''id''; c \<leftarrow> get_str m ''command'';
          Some \<lparr>ia_id = i, ia_command = c\<rparr> }"

definition istate_fields :: "(string \<times> bool) list" where
  "istate_fields = [(''schemaVersion'', False), (''instanceId'', False), (''bindingSha256'', False), (''phase'', False),
     (''attempt'', True), (''genesisHash'', True), (''reason'', False)]"

definition istate_of_json :: "json \<Rightarrow> istate option" where
  "istate_of_json v =
     do { m \<leftarrow> declared_fields istate_fields v;
          sv \<leftarrow> get_uint u32_max m ''schemaVersion''; i \<leftarrow> get_str m ''instanceId''; b \<leftarrow> get_str m ''bindingSha256'';
          p \<leftarrow> Option.bind (m ''phase'') phase_of_json; a \<leftarrow> get_opt attempt_of_json m ''attempt'';
          g \<leftarrow> get_opt as_str m ''genesisHash''; r \<leftarrow> get_str m ''reason'';
          Some \<lparr>is_schema = sv, is_instance_id = i, is_binding_sha = b, is_phase = p, is_attempt = a, is_genesis = g,
                is_reason = r\<rparr> }"

text \<open>What \<open>State::save\<close> serializes: absent options are skipped.\<close>

definition json_of_istate :: "istate \<Rightarrow> json" where
  "json_of_istate s = JObj (
     [(''schemaVersion'', JInt (int (is_schema s))), (''instanceId'', JStr (is_instance_id s)),
      (''bindingSha256'', JStr (is_binding_sha s)), (''phase'', JStr (phase_text (is_phase s)))] @
     opt_field ''attempt'' (\<lambda>a. JObj [(''id'', JStr (ia_id a)), (''command'', JStr (ia_command a))]) (is_attempt s) @
     opt_field ''genesisHash'' JStr (is_genesis s) @ [(''reason'', JStr (is_reason s))])"

text \<open>Reading back what was saved.\<close>

lemma phase_text_back: "phase_of_json (JStr (phase_text p)) = Some p"
  by (cases p) (simp_all add: phase_of_json_def phase_text_def as_str_def)

lemma istate_roundtrip:
  assumes "is_schema s \<le> u32_max"
  shows "istate_of_json (json_of_istate s) = Some s"
proof -
  have d: "declared_fields istate_fields (json_of_istate s) =
      Some (map_of (case json_of_istate s of JObj es \<Rightarrow> es | _ \<Rightarrow> []))"
    by (cases "is_attempt s"; cases "is_genesis s")
      (simp_all add: json_of_istate_def declared_fields_def istate_fields_def opt_field_def)
  have a: "attempt_of_json (JObj [(''id'', JStr (ia_id x)), (''command'', JStr (ia_command x))]) = Some x" for x
    by (simp add: attempt_of_json_def struct_fields_def get_str_def)
  show ?thesis
    using assms unfolding istate_of_json_def d
    by (cases "is_attempt s"; cases "is_genesis s")
      (simp_all add: json_of_istate_def opt_field_def get_uint_def get_str_def get_opt_def phase_text_back a as_str_def)
qed

lemma json_of_istate_inject:
  assumes "json_of_istate x = json_of_istate y" "is_schema y \<le> u32_max"
  shows "x = y"
proof -
  have "is_schema x = is_schema y" using assms(1) by (simp add: json_of_istate_def)
  from this assms(2) have "is_schema x \<le> u32_max" by (rule ord_eq_le_trans)
  from istate_roundtrip [OF this] have "Some x = Some y"
    unfolding assms(1) istate_roundtrip [OF assms(2)] by (rule sym)
  then show ?thesis by (rule option.inject [THEN iffD1])
qed

section \<open>Paths\<close>

text \<open>\<open>PathBuf\<close>s are equal when their components are; \<open>below a b\<close> is \<open>a.starts_with(b)\<close>.\<close>

definition same_name :: "string \<Rightarrow> string \<Rightarrow> bool" where
  "same_name a b \<longleftrightarrow> components a = components b"

definition below :: "string \<Rightarrow> string \<Rightarrow> bool" where
  "below a b \<longleftrightarrow> prefix (components b) (components a)"

definition join_name :: "string \<Rightarrow> string \<Rightarrow> string" where
  "join_name p n = p @ ''/'' @ n"

text \<open>\<open>files::absolute\<close>.\<close>

definition file_absolute :: "string option \<Rightarrow> string \<Rightarrow> string result" where
  "file_absolute cwd s =
     and_then (ensure (valid_utf8 s \<and> \<not> (s = [] \<or> 4096 < length s \<or> prefix ''~'' s \<or> CHR 0x5C \<in> set s \<or> has_control s))
                ''ENGINE_PATH_INVALID'') (\<lambda>_.
     if is_absolute s then Inr (path_text (clean (components s)))
     else and_then (ok_or cwd ''ENGINE_INPUT_IO'') (\<lambda>base.
          Inr (path_text (clean (components base @ components s)))))"

definition is_normal :: "string option \<Rightarrow> string \<Rightarrow> bool" where
  "is_normal cwd p \<longleftrightarrow>
     is_absolute p \<and> (case file_absolute cwd p of Inl _ \<Rightarrow> False | Inr q \<Rightarrow> same_name q p)"

section \<open>The retained supply\<close>

definition trust_dir :: "string \<Rightarrow> string" where "trust_dir instance = join_name instance ''trust''"
definition trust_archive :: "string \<Rightarrow> string" where "trust_archive instance = join_name (trust_dir instance) ''package.tar.gz''"
definition trust_lock :: "string \<Rightarrow> string" where "trust_lock instance = join_name (trust_dir instance) ''engine-lock.json''"
definition trust_key :: "string \<Rightarrow> string" where "trust_key instance = join_name (trust_dir instance) ''public-key.pem''"

definition binding_schema_valid :: "binding \<Rightarrow> bool" where
  "binding_schema_valid b \<longleftrightarrow> (bn_schema b = 1 \<and> bn_supply b = None) \<or> (bn_schema b = 2 \<and> bn_supply b \<noteq> None)"

definition valid_pin :: "string option \<Rightarrow> bpin \<Rightarrow> bool" where
  "valid_pin cwd p \<longleftrightarrow> is_normal cwd (bp_path p) \<and> hash (bp_sha p)"

definition origin_pins :: "provenance \<Rightarrow> bpin list" where
  "origin_pins o' = [pv_archive o', pv_lock o'] @ (case pv_public_key o' of None \<Rightarrow> [] | Some k \<Rightarrow> [k])"

definition apart_dirs :: "string \<Rightarrow> string \<Rightarrow> bool" where
  "apart_dirs a b \<longleftrightarrow> \<not> below a b \<and> \<not> below b a"

definition layout_ok :: "string option \<Rightarrow> string \<Rightarrow> binding \<Rightarrow> provenance \<Rightarrow> bool" where
  "layout_ok cwd instance b o' \<longleftrightarrow>
     \<not> (bn_pins b = [] \<or> 128 < length (bn_pins b)) \<and>
     same_name (bn_archive b) (trust_archive instance) \<and> same_name (bn_lock b) (trust_lock instance) \<and>
     map_option components (bn_public_key b) = map_option (\<lambda>_. components (trust_key instance)) (pv_public_key o') \<and>
     bp_sha (pv_archive o') = bn_archive_sha b \<and> hash (bn_manifest_sha b) \<and>
     list_all (\<lambda>p. valid_pin cwd p \<and> apart_dirs (bp_path p) instance \<and> apart_dirs (bp_path p) (bn_package b) \<and>
        apart_dirs (bp_path p) (bn_data_directory b)) (origin_pins o') \<and>
     distinct (map (\<lambda>p. components (bp_path p)) (origin_pins o')) \<and>
     list_all (\<lambda>p. valid_pin cwd p \<and> \<not> list_ex (\<lambda>q. same_name (bp_path p) (bp_path q)) (origin_pins o')) (bn_pins b) \<and>
     distinct (map (\<lambda>p. components (bp_path p)) (bn_pins b)) \<and>
     list_all (\<lambda>(path, sha). list_ex (\<lambda>p. same_name (bp_path p) path \<and> bp_sha p = sha) (bn_pins b))
       ((bn_lock b, bp_sha (pv_lock o')) #
        (case (bn_public_key b, pv_public_key o') of (Some k, Some p) \<Rightarrow> [(k, bp_sha p)] | _ \<Rightarrow> []))"

definition validate_layout :: "string option \<Rightarrow> string \<Rightarrow> binding \<Rightarrow> unit result" where
  "validate_layout cwd instance b =
     and_then (ensure (binding_schema_valid b) inst_corrupt) (\<lambda>_.
     case bn_supply b of
       None \<Rightarrow> Inr ()
     | Some o' \<Rightarrow> ensure (layout_ok cwd instance b o') inst_corrupt)"

definition is_managed :: "binding \<Rightarrow> string \<Rightarrow> bool" where
  "is_managed b p \<longleftrightarrow> bn_supply b \<noteq> None \<and>
     (same_name p (bn_archive b) \<or> same_name p (bn_lock b) \<or> map_option components (bn_public_key b) = Some (components p))"

text \<open>\<open>retain\<close>: the provenance of a version 1 binding, and the binding over the managed copies.\<close>

definition the_pin :: "binding \<Rightarrow> string \<Rightarrow> bpin result" where
  "the_pin b path =
     (case filter (\<lambda>p. same_name (bp_path p) path) (bn_pins b) of [p] \<Rightarrow> Inr p | _ \<Rightarrow> fail inst_corrupt)"

definition supply_provenance :: "binding \<Rightarrow> provenance result" where
  "supply_provenance b =
     and_then (the_pin b (bn_lock b)) (\<lambda>l.
     and_then (case bn_public_key b of None \<Rightarrow> Inr None | Some k \<Rightarrow> and_then (the_pin b k) (\<lambda>p. Inr (Some p))) (\<lambda>k.
     Inr \<lparr>pv_archive = \<lparr>bp_path = bn_archive b, bp_sha = bn_archive_sha b\<rparr>, pv_lock = l, pv_public_key = k\<rparr>))"

definition managed_path :: "string \<Rightarrow> provenance \<Rightarrow> string \<Rightarrow> string" where
  "managed_path instance o' path =
     (let q = (if same_name path (bp_path (pv_lock o')) then trust_lock instance else path) in
      case pv_public_key o' of
        Some k \<Rightarrow> if same_name q (bp_path k) then trust_key instance else q
      | None \<Rightarrow> q)"

definition retained_binding :: "string \<Rightarrow> provenance \<Rightarrow> binding \<Rightarrow> binding" where
  "retained_binding instance o' b =
     b\<lparr>bn_archive := trust_archive instance, bn_lock := trust_lock instance,
       bn_public_key := map_option (\<lambda>_. trust_key instance) (pv_public_key o'),
       bn_pins := map (\<lambda>p. p\<lparr>bp_path := managed_path instance o' (bp_path p)\<rparr>) (bn_pins b),
       bn_schema := 2, bn_supply := Some o'\<rparr>"

section \<open>Requests\<close>

record reg_options =
  ro_instance :: string
  ro_package :: string
  ro_archive :: string
  ro_public_key :: "string option"
  ro_unsigned :: bool
  ro_product :: string
  ro_native :: string
  ro_lock :: string

definition same_absolute :: "string option \<Rightarrow> string \<Rightarrow> string \<Rightarrow> bool result" where
  "same_absolute cwd stored requested =
     and_then (file_absolute cwd requested) (\<lambda>q. Inr (same_name stored q))"

text \<open>A chain of \<open>||\<close>: the first difference is the answer, and nothing after it is evaluated.\<close>

fun all_same :: "string option \<Rightarrow> (string \<times> string) list \<Rightarrow> unit result" where
  "all_same cwd [] = Inr ()"
| "all_same cwd ((a, b) # xs) =
     and_then (same_absolute cwd a b) (\<lambda>same. and_then (ensure same inst_precondition) (\<lambda>_. all_same cwd xs))"

definition same_key :: "string option \<Rightarrow> string option \<Rightarrow> string option \<Rightarrow> unit result" where
  "same_key cwd stored requested =
     (case requested of
        None \<Rightarrow> ensure (stored = None) inst_precondition
      | Some r \<Rightarrow> and_then (file_absolute cwd r) (\<lambda>q.
          ensure (map_option components stored = Some (components q)) inst_precondition))"

definition request_sources :: "binding \<Rightarrow> string \<times> string \<times> string option" where
  "request_sources b =
     (case bn_supply b of
        Some o' \<Rightarrow> (bp_path (pv_archive o'), bp_path (pv_lock o'), map_option bp_path (pv_public_key o'))
      | None \<Rightarrow> (bn_archive b, bn_lock b, bn_public_key b))"

definition check_request :: "string option \<Rightarrow> binding \<Rightarrow> reg_options \<Rightarrow> unit result" where
  "check_request cwd b r =
     (case request_sources b of (archive, lock, key) \<Rightarrow>
      and_then (all_same cwd [(bn_package b, ro_package r), (archive, ro_archive r), (lock, ro_lock r)]) (\<lambda>_.
      and_then (same_key cwd key (ro_public_key r)) (\<lambda>_.
      and_then (ensure (bn_unsigned b = ro_unsigned r) inst_precondition) (\<lambda>_.
      all_same cwd [(bn_product b, ro_product r), (bn_native b, ro_native r)]))))"

text \<open>\<open>source_pins\<close>: the pins with the original names of the managed copies.\<close>

definition source_of_pin :: "binding \<Rightarrow> bpin \<Rightarrow> bpin result" where
  "source_of_pin b p =
     (case bn_supply b of
        None \<Rightarrow> Inr p
      | Some o' \<Rightarrow>
          if same_name (bp_path p) (bn_lock b) then Inr (pv_lock o')
          else if map_option components (bn_public_key b) = Some (components (bp_path p))
            then ok_or (pv_public_key o') inst_corrupt
          else Inr p)"

fun source_pins_from :: "string option \<Rightarrow> binding \<Rightarrow> component list list \<Rightarrow> bpin list \<Rightarrow> bpin list result" where
  "source_pins_from cwd b seen [] = Inr []"
| "source_pins_from cwd b seen (p # ps) =
     and_then (source_of_pin b p) (\<lambda>q.
     and_then (ensure (\<not> (bp_sha p \<noteq> bp_sha q \<or> \<not> valid_pin cwd q \<or> components (bp_path q) \<in> set seen)) inst_corrupt) (\<lambda>_.
     and_then (source_pins_from cwd b (components (bp_path q) # seen) ps) (\<lambda>qs.
     Inr (\<lparr>bp_path = bp_path q, bp_sha = bp_sha p\<rparr> # qs))))"

definition source_pins :: "string option \<Rightarrow> binding \<Rightarrow> bpin list result" where
  "source_pins cwd b = source_pins_from cwd b [] (bn_pins b)"

section \<open>Separation\<close>

fun no_overlap :: "(string \<Rightarrow> string) \<Rightarrow> fs \<Rightarrow> string \<Rightarrow> string \<Rightarrow> string list \<Rightarrow> unit result" where
  "no_overlap eqv f code a [] = Inr ()"
| "no_overlap eqv f code a (b # bs) =
     and_then (overlaps eqv f a b) (\<lambda>o'. and_then (ensure (\<not> o') code) (\<lambda>_. no_overlap eqv f code a bs))"

fun paths_apart :: "(string \<Rightarrow> string) \<Rightarrow> fs \<Rightarrow> string \<Rightarrow> binding \<Rightarrow> string list \<Rightarrow> unit result" where
  "paths_apart eqv f instance b [] = Inr ()"
| "paths_apart eqv f instance b (p # ps) =
     and_then (if is_managed b p then Inr False else overlaps eqv f instance p) (\<lambda>x.
     and_then (ensure (\<not> x) ''INSTANCE_PATH_OVERLAP'') (\<lambda>_.
     and_then (overlaps eqv f (bn_data_directory b) p) (\<lambda>y.
     and_then (ensure (\<not> y) ''INSTANCE_PATH_OVERLAP'') (\<lambda>_. paths_apart eqv f instance b ps))))"

definition binding_disjoint :: "string option \<Rightarrow> (string \<Rightarrow> string) \<Rightarrow> fs \<Rightarrow> string \<Rightarrow> binding \<Rightarrow> unit result" where
  "binding_disjoint cwd eqv f instance b =
     and_then (validate_layout cwd instance b) (\<lambda>_.
     and_then (no_overlap eqv f ''INSTANCE_TRUST_PATH_OVERLAP'' (bn_package b)
                ([bn_lock b, bn_archive b] @ (case bn_public_key b of None \<Rightarrow> [] | Some k \<Rightarrow> [k]))) (\<lambda>_.
     and_then (paths_apart eqv f instance b (map bp_path (bn_pins b) @ [bn_package b, bn_archive b])) (\<lambda>_.
     and_then (overlaps eqv f instance (bn_data_directory b)) (\<lambda>o'. ensure (\<not> o') inst_precondition))))"

section \<open>Loading\<close>

definition valid_attempt :: "string \<Rightarrow> bool" where
  "valid_attempt s \<longleftrightarrow> s \<noteq> [] \<and> length s \<le> 80 \<and> list_all (\<lambda>c. is_alphanumeric c \<or> List.member ''_-'' c) s"

text \<open>The consistency of a journal state with its binding.\<close>

definition state_ok :: "binding \<Rightarrow> string \<Rightarrow> istate \<Rightarrow> bool" where
  "state_ok b sha s \<longleftrightarrow>
     \<not> (\<not> binding_schema_valid b \<or> is_schema s \<noteq> 1 \<or> bn_instance_id b \<noteq> is_instance_id s \<or> sha \<noteq> is_binding_sha s \<or>
        bn_backend b \<noteq> ''rocksdb'' \<or> \<not> hash (bn_chain_fingerprint b) \<or>
        (is_phase s = Registered) \<noteq> (is_attempt s = None) \<or> (is_phase s = Initialized) \<noteq> (is_genesis s \<noteq> None)) \<and>
     (case is_attempt s of None \<Rightarrow> True
      | Some a \<Rightarrow> \<not> (\<not> valid_attempt (ia_id a) \<or> ia_command a \<notin> {''init'', ''resume-init''}))"

fun check_paths :: "string option \<Rightarrow> string list \<Rightarrow> unit result" where
  "check_paths cwd [] = Inr ()"
| "check_paths cwd (p # ps) =
     and_then (ensure (is_absolute p) inst_corrupt) (\<lambda>_.
     and_then (file_absolute cwd p) (\<lambda>q.
     and_then (ensure (same_name q p) inst_corrupt) (\<lambda>_. check_paths cwd ps)))"

definition binding_paths :: "binding \<Rightarrow> string list" where
  "binding_paths b = [bn_package b, bn_archive b, bn_product b, bn_native b, bn_lock b, bn_data_directory b]"

end
