(* ===== verification/Instance.thy ===== *)
theory Instance
  imports InstanceData
begin

text \<open>
  The operations of a registered instance (\<open>src/src/engine/instance.rs\<close>): registration, the checks
  that every use repeats, and the one-shot initialisation with its resumption.

  The state is what stays on disk, the binding file and the revisions of the journal, with a log of
  the durable saves and of the engine runs; every answer from outside (guarded file reads, package
  verification, the product preflight, the control directory, the managed child process) is a
  function of a clock. The journal's revisions are bytes: \<open>print\<close> and \<open>parse\<close> are serde_json's.
\<close>

section \<open>The outside\<close>

text \<open>What \<open>NativeInput::load\<close> resolves, what the product preflight reports, and a finished child.\<close>

record native_input =
  nv_config :: string
  nv_chain :: string
  nv_references :: "string list"
  nv_backend :: string
  nv_data :: string

record product_report =
  pp_binding :: string
  pp_instance_id :: string
  pp_engine :: "(build_identity \<times> cold_result option) option"

record child_output =
  co_pid :: nat
  co_exit :: int
  co_stdout :: bytes

text \<open>What is at the data directory: nothing, an empty or a filled directory, or something unreadable.\<close>

datatype data_answer = No_Data | Empty_Data | Filled_Data | Bad_Data

record iworld =
  iw_cwd :: "string option"
  iw_eqv :: "string \<Rightarrow> string"
  iw_sha :: "bytes \<Rightarrow> string"
  iw_parse :: "bytes \<Rightarrow> json option"
  iw_print :: "json \<Rightarrow> bytes"
  iw_print_binding :: "binding \<Rightarrow> bytes"
  iw_host :: bool
  iw_fs :: "nat \<Rightarrow> fs"
  iw_exists :: "nat \<Rightarrow> string \<Rightarrow> bool"
  iw_check_path :: "nat \<Rightarrow> string \<Rightarrow> bool \<Rightarrow> unit result"
  iw_is_dir :: "nat \<Rightarrow> string \<Rightarrow> bool option"
  iw_is_file :: "nat \<Rightarrow> string \<Rightarrow> bool option"
  iw_data :: "nat \<Rightarrow> string \<Rightarrow> data_answer"
  iw_read :: "nat \<Rightarrow> string \<Rightarrow> nat \<Rightarrow> bool \<Rightarrow> bytes result"
  iw_recheck :: "nat \<Rightarrow> unit result"
  iw_native :: "nat \<Rightarrow> string \<Rightarrow> native_input result"
  iw_product :: "nat \<Rightarrow> string \<Rightarrow> native_input option \<Rightarrow> unit result"
  iw_product_id :: "nat \<Rightarrow> string \<Rightarrow> string option result"
  iw_verify :: "nat \<Rightarrow> string \<Rightarrow> string option \<Rightarrow> bool \<Rightarrow> report result"
  iw_installed :: "nat \<Rightarrow> string \<Rightarrow> report \<Rightarrow> unit result"
  iw_preflight :: "nat \<Rightarrow> binding \<Rightarrow> product_report result"
  iw_open :: "nat \<Rightarrow> string result"
  iw_owner :: "nat \<Rightarrow> node_id \<Rightarrow> unit result"
  iw_lock :: "nat \<Rightarrow> unit result"
  iw_create :: "nat \<Rightarrow> bool \<times> unit result"
  iw_trust :: "nat \<Rightarrow> binding \<Rightarrow> unit result"
  iw_retain :: "nat \<Rightarrow> provenance \<Rightarrow> unit result"
  iw_write_binding :: "nat \<Rightarrow> bool \<times> unit result"
  iw_read_binding :: "nat \<Rightarrow> unit result"
  iw_create_journal :: "nat \<Rightarrow> unit result"
  iw_journal :: "nat \<Rightarrow> unit result"
  iw_capacity :: "nat \<Rightarrow> unit result"
  iw_save :: "nat \<Rightarrow> bool \<times> unit result"
  iw_attempt_id :: "nat \<Rightarrow> string result"
  iw_workspace :: "nat \<Rightarrow> string \<Rightarrow> unit result"
  iw_snapshot :: "nat \<Rightarrow> lock \<Rightarrow> unit result"
  iw_child_lock :: "nat \<Rightarrow> unit result"
  iw_prepare_data :: "nat \<Rightarrow> string \<Rightarrow> unit result"
  iw_run :: "nat \<Rightarrow> child_output result"
  iw_evidence :: "nat \<Rightarrow> unit result"

text \<open>The log: what became durable, what was started, and what an accepted result rests on.\<close>

record run_evidence =
  re_stdout :: bytes
  re_report :: bytes
  re_instance :: bytes
  re_expected :: init_expected

datatype inst_event = Reserved | Wrote_Binding binding | Saved istate | Prepared_Data | Spawned init_attempt | Verified run_evidence string

record inst =
  it_reserved :: bool
  it_binding :: "bytes option"
  it_disk :: "bytes list"
  it_clock :: nat
  it_log :: "inst_event list"

type_synonym 'a iact = "(inst, 'a) acts"

definition iask :: "(nat \<Rightarrow> 'a result) \<Rightarrow> 'a iact" where
  "iask q s = (q (it_clock s), s\<lparr>it_clock := Suc (it_clock s)\<rparr>)"

definition inote :: "inst_event \<Rightarrow> unit iact" where
  "inote e = modify (\<lambda>s. s\<lparr>it_log := it_log s @ [e]\<rparr>)"

definition check_that :: "bool \<Rightarrow> string \<Rightarrow> unit iact" where
  "check_that b e = ret (ensure b e)"

definition state_error :: "'a iact \<Rightarrow> 'a iact" where
  "state_error m s = (case m s of (Inl e, s') \<Rightarrow> (fail ''INSTANCE_STATE_IO'', s') | (Inr x, s') \<Rightarrow> (Inr x, s'))"

section \<open>Files\<close>

definition read_input :: "iworld \<Rightarrow> string \<Rightarrow> nat \<Rightarrow> bool \<Rightarrow> (string \<times> bytes) iact" where
  "read_input w path limit executable =
     act_then (ret (file_absolute (iw_cwd w) path)) (\<lambda>p.
     act_then (iask (\<lambda>t. iw_read w t p limit executable)) (\<lambda>raw. ret (Inr (p, raw))))"

definition recheck :: "iworld \<Rightarrow> unit iact" where
  "recheck w = iask (iw_recheck w)"

text \<open>\<open>for input in &inputs { input.recheck()? }\<close>\<close>

fun recheck_all :: "iworld \<Rightarrow> 'b list \<Rightarrow> unit iact" where
  "recheck_all w [] = ret (Inr ())"
| "recheck_all w (x # xs) = act_then (recheck w) (\<lambda>_. recheck_all w xs)"

definition mib4 :: nat where "mib4 = 4194304"

section \<open>Pins\<close>

fun pins_checked :: "iworld \<Rightarrow> bpin list \<Rightarrow> (string \<times> bytes) list iact" where
  "pins_checked w [] = ret (Inr [])"
| "pins_checked w (p # ps) =
     act_then (read_input w (bp_path p) mib4 False) (\<lambda>i.
     act_then (check_that (iw_sha w (snd i) = bp_sha p) ''INSTANCE_INPUT_CHANGED'') (\<lambda>_.
     act_then (pins_checked w ps) (\<lambda>is. ret (Inr (i # is)))))"

text \<open>\<open>supply::check_files\<close>: the layout again, then the copies on disk.\<close>

definition parent_text :: "string \<Rightarrow> string option" where
  "parent_text p = (let ns = clean (components p) in if ns = [] then None else Some (path_text (butlast ns)))"

definition check_files :: "iworld \<Rightarrow> binding \<Rightarrow> unit iact" where
  "check_files w b =
     (if bn_supply b = None then ret (Inr ())
      else act_then (ret (ok_or (parent_text (bn_archive b)) inst_corrupt)) (\<lambda>trust.
           act_then (ret (ok_or (parent_text trust) inst_corrupt)) (\<lambda>instance.
           act_then (ret (validate_layout (iw_cwd w) instance b)) (\<lambda>_. iask (\<lambda>t. iw_trust w t b)))))"

definition check_pins :: "iworld \<Rightarrow> binding \<Rightarrow> (string \<times> bytes) list iact" where
  "check_pins w b =
     act_then (check_files w b) (\<lambda>_.
     act_then (check_that (\<not> (bn_pins b = [] \<or> 128 < length (bn_pins b))) inst_corrupt) (\<lambda>_.
     pins_checked w (bn_pins b)))"

definition read_lock_at :: "iworld \<Rightarrow> string \<Rightarrow> lock iact" where
  "read_lock_at w path =
     act_then (read_input w path 65536 False) (\<lambda>i. ret (read_lock (iw_parse w) (snd i)))"

definition verified_package :: "iworld \<Rightarrow> binding \<Rightarrow> bool \<Rightarrow> report iact" where
  "verified_package w b pinned =
     act_then (check_files w b) (\<lambda>_.
     act_then (iask (\<lambda>t. iw_verify w t (bn_archive b) (bn_public_key b) (bn_unsigned b))) (\<lambda>r.
     act_then (check_that (\<not> (pinned \<and> (archive_sha256 r \<noteq> bn_archive_sha b \<or> manifest_sha256 r \<noteq> bn_manifest_sha b)))
                inst_precondition) (\<lambda>_.
     act_then (read_lock_at w (bn_lock b)) (\<lambda>l.
     let m = report_manifest r in
     act_then (check_that (\<not> (engine_jar_sha256 (engine m) \<noteq> lock_jar_sha256 l \<or>
         runtime_java_sha256 (runtime m) \<noteq> lock_java_sha256 l \<or>
         engine_revision (engine m) \<noteq> source_commit (source (bn_identity b)) \<or>
         engine_contract_revision (engine m) \<noteq> contract_fingerprint (contract (bn_identity b)) \<or>
         lock_expected l \<noteq> bn_identity b)) inst_precondition) (\<lambda>_.
     act_then (iask (\<lambda>t. iw_installed w t (bn_package b) r)) (\<lambda>_. ret (Inr r)))))))"

text \<open>The distinct inputs in order, as pins.\<close>

definition add_pin :: "iworld \<Rightarrow> bpin list \<Rightarrow> string \<times> bytes \<Rightarrow> bpin list" where
  "add_pin w ps i =
     (if list_ex (\<lambda>p. same_name (bp_path p) (fst i)) ps then ps
      else ps @ [\<lparr>bp_path = fst i, bp_sha = iw_sha w (snd i)\<rparr>])"

fun read_inputs :: "iworld \<Rightarrow> nat \<Rightarrow> string list \<Rightarrow> (string \<times> bytes) list iact" where
  "read_inputs w limit [] = ret (Inr [])"
| "read_inputs w limit (p # ps) =
     act_then (read_input w p limit False) (\<lambda>i. act_then (read_inputs w limit ps) (\<lambda>is. ret (Inr (i # is))))"

fun current_pins_from :: "iworld \<Rightarrow> bpin list \<Rightarrow> string list \<Rightarrow> bpin list iact" where
  "current_pins_from w pins [] = ret (Inr pins)"
| "current_pins_from w pins (p # ps) =
     act_then (read_input w p mib4 False) (\<lambda>i.
     act_then (recheck w) (\<lambda>_. current_pins_from w (add_pin w pins i) ps))"

definition option_list :: "'a option \<Rightarrow> 'a list" where
  "option_list x = (case x of None \<Rightarrow> [] | Some y \<Rightarrow> [y])"

definition current_pins :: "iworld \<Rightarrow> binding \<Rightarrow> native_input \<Rightarrow> bpin list iact" where
  "current_pins w b nv =
     current_pins_from w [] ([bn_product b, bn_lock b, nv_config nv, nv_chain nv] @ nv_references nv @ option_list (bn_public_key b))"

section \<open>Storage\<close>

text \<open>A call whose effect may be durable although it returns an error.\<close>

definition durable :: "(nat \<Rightarrow> bool \<times> unit result) \<Rightarrow> (inst \<Rightarrow> inst) \<Rightarrow> unit iact" where
  "durable q g s = (case q (it_clock s) of (done, r) \<Rightarrow>
     (r, (if done \<or> r = Inr () then g s else s)\<lparr>it_clock := Suc (it_clock s)\<rparr>))"

definition save_state :: "iworld \<Rightarrow> istate \<Rightarrow> unit iact" where
  "save_state w x = state_error (durable (iw_save w)
     (\<lambda>s. s\<lparr>it_disk := it_disk s @ [iw_print w (json_of_istate x)], it_log := it_log s @ [Saved x]\<rparr>))"

definition write_binding :: "iworld \<Rightarrow> binding \<Rightarrow> unit iact" where
  "write_binding w b = state_error (durable (iw_write_binding w)
     (\<lambda>s. s\<lparr>it_binding := Some (iw_print_binding w b), it_log := it_log s @ [Wrote_Binding b]\<rparr>))"

definition create_control :: "iworld \<Rightarrow> unit iact" where
  "create_control w = durable (iw_create w) (\<lambda>s. s\<lparr>it_reserved := True, it_log := it_log s @ [Reserved]\<rparr>)"

definition load_state :: "iworld \<Rightarrow> string \<Rightarrow> (binding \<times> istate) iact" where
  "load_state w root =
     act_then (iask (iw_read_binding w)) (\<lambda>_.
     act_then (with_state (\<lambda>s. ret (ok_or (it_binding s) ''ENGINE_INPUT_IO''))) (\<lambda>raw.
     act_then (ret (ok_or (engine_decode (iw_parse w) binding_of_json raw) inst_corrupt)) (\<lambda>b.
     act_then (state_error (iask (iw_journal w))) (\<lambda>_.
     act_then (with_state (\<lambda>s. ret (if it_disk s = [] then fail inst_corrupt else Inr (last (it_disk s))))) (\<lambda>j.
     act_then (ret (ok_or (engine_decode (iw_parse w) istate_of_json j) inst_corrupt)) (\<lambda>x.
     act_then (check_that (state_ok b (iw_sha w raw) x) inst_corrupt) (\<lambda>_.
     act_then (ret (check_paths (iw_cwd w) (binding_paths b))) (\<lambda>_.
     act_then (iask (\<lambda>t. binding_disjoint (iw_cwd w) (iw_eqv w) (iw_fs w t) root b)) (\<lambda>_.
     ret (Inr (b, x)))))))))))"

section \<open>Summaries\<close>

record inst_summary =
  su_instance_id :: string
  su_initialization :: string
  su_busy :: "bool option"
  su_service :: string
  su_reason :: string
  su_attempt :: "string option"
  su_genesis :: "string option"

definition summary_of :: "istate \<Rightarrow> bool option \<Rightarrow> inst_summary" where
  "summary_of x busy = \<lparr>su_instance_id = is_instance_id x,
     su_initialization = (case is_phase x of Registered \<Rightarrow> ''NOT_STARTED'' | Initialized \<Rightarrow> ''INITIALIZED'' | _ \<Rightarrow> ''UNKNOWN''),
     su_busy = busy, su_service = ''NOT_REGISTERED'', su_reason = is_reason x,
     su_attempt = map_option ia_id (is_attempt x), su_genesis = is_genesis x\<rparr>"

definition observed_busy :: "iworld \<Rightarrow> bool iact" where
  "observed_busy w =
     act_then (outcome (iask (iw_lock w))) (\<lambda>r.
       ret (case r of Inr _ \<Rightarrow> Inr False | Inl e \<Rightarrow> if error_code e = ''INSTANCE_BUSY'' then Inr True else Inl e))"

definition observed_summary :: "iworld \<Rightarrow> string \<Rightarrow> istate \<Rightarrow> inst_summary iact" where
  "observed_summary w root x =
     act_then (observed_busy w) (\<lambda>busy.
     act_then (iask (\<lambda>t. Inr (iw_exists w t (join_name root ''service-journal'')))) (\<lambda>service.
     let su = summary_of x (Some busy) in
     ret (Inr (if service then su\<lparr>su_service := ''NOT_OBSERVED''\<rparr> else su))))"

definition require_host :: "iworld \<Rightarrow> unit iact" where
  "require_host w = check_that (iw_host w) ''INSTANCE_PLATFORM_UNSUPPORTED''"

definition inst_show :: "iworld \<Rightarrow> inst_summary iact" where
  "inst_show w =
     act_then (iask (iw_open w)) (\<lambda>root.
     act_then (load_state w root) (\<lambda>(b, x). observed_summary w root x))"

section \<open>Preflight\<close>

definition product_engine :: "product_report \<Rightarrow> (build_identity \<times> cold_result) result" where
  "product_engine r =
     and_then (ok_or (pp_engine r) inst_precondition) (\<lambda>(i, c).
     and_then (ok_or c inst_precondition) (\<lambda>cold. Inr (i, cold)))"

definition bound_preflight :: "iworld \<Rightarrow> binding \<Rightarrow> product_report iact" where
  "bound_preflight w b =
     act_then (iask (\<lambda>t. iw_preflight w t b)) (\<lambda>r.
     act_then (ret (product_engine r)) (\<lambda>(i, cold).
     act_then (check_that (\<not> (pp_binding r \<noteq> ''MATCHED'' \<or> pp_instance_id r \<noteq> bn_instance_id b \<or> i \<noteq> bn_identity b \<or>
         cold_chain_fingerprint cold \<noteq> bn_chain_fingerprint b \<or> cold_node_identity cold \<noteq> bn_node_identity b \<or>
         cold_backend cold \<noteq> bn_backend b)) inst_precondition) (\<lambda>_. ret (Inr r))))"

definition inst_preflight :: "iworld \<Rightarrow> product_report iact" where
  "inst_preflight w =
     act_then (require_host w) (\<lambda>_.
     act_then (iask (iw_open w)) (\<lambda>root.
     act_then (iask (iw_lock w)) (\<lambda>_.
     act_then (load_state w root) (\<lambda>(b, x).
     act_then (check_pins w b) (\<lambda>inputs.
     act_then (verified_package w b True) (\<lambda>package.
     act_then (bound_preflight w b) (\<lambda>r.
     act_then (iask (\<lambda>t. iw_installed w t (bn_package b) package)) (\<lambda>_.
     act_then (recheck_all w inputs) (\<lambda>_.
     act_then (recheck w) (\<lambda>_.
     act_then (recheck w) (\<lambda>_. ret (Inr r))))))))))))"

section \<open>Initialisation\<close>

definition init_expectation :: "binding \<Rightarrow> init_attempt \<Rightarrow> nat \<Rightarrow> init_expected" where
  "init_expectation b a pid = \<lparr>ix_command = ia_command a, ix_attempt_id = ia_id a, ix_pid = pid, ix_identity = bn_identity b,
     ix_backend = bn_backend b, ix_chain_fingerprint = bn_chain_fingerprint b, ix_node_identity = bn_node_identity b,
     ix_data_directory = bn_data_directory b\<rparr>"

definition require_kind :: "(nat \<Rightarrow> string \<Rightarrow> bool option) \<Rightarrow> string \<Rightarrow> unit iact" where
  "require_kind q p = iask (\<lambda>t. ensure (q t p = Some True) inst_precondition)"

definition fresh_data :: "iworld \<Rightarrow> binding \<Rightarrow> unit iact" where
  "fresh_data w b =
     act_then (ret (ok_or (parent_text (bn_data_directory b)) inst_precondition)) (\<lambda>parent.
     act_then (iask (\<lambda>t. iw_check_path w t parent False)) (\<lambda>_.
     act_then (require_kind (iw_is_dir w) parent) (\<lambda>_.
     iask (\<lambda>t. ensure (iw_data w t (bn_data_directory b) \<in> {No_Data, Empty_Data}) ''INSTANCE_DATA_NOT_EMPTY''))))"

fun require_files :: "iworld \<Rightarrow> string list \<Rightarrow> unit iact" where
  "require_files w [] = ret (Inr ())"
| "require_files w (p # ps) =
     act_then (iask (\<lambda>t. iw_check_path w t p False)) (\<lambda>_.
     act_then (require_kind (iw_is_file w) p) (\<lambda>_. require_files w ps))"

definition resumable_data :: "iworld \<Rightarrow> binding \<Rightarrow> unit iact" where
  "resumable_data w b =
     act_then (read_input w (join_name (bn_data_directory b) ''engine-instance.json'') 8192 False) (\<lambda>i.
     act_then (ret (map_err ''INSTANCE_RESUME_NOT_ELIGIBLE'' (validate_resume (iw_parse w) (snd i)
         (init_expectation b \<lparr>ia_id = ''resume-check'', ia_command = ''resume-init''\<rparr> 0)))) (\<lambda>_.
     act_then (require_files w (map (join_name (bn_data_directory b)) [''engine.lock'', ''ledger/CURRENT''])) (\<lambda>_.
     recheck w)))"

definition data_precondition :: "iworld \<Rightarrow> binding \<Rightarrow> bool \<Rightarrow> unit iact" where
  "data_precondition w b resume =
     act_then (iask (\<lambda>t. iw_check_path w t (bn_data_directory b) True)) (\<lambda>_.
     if resume then resumable_data w b else fresh_data w b)"

text \<open>The closure \<open>operation\<close>: from the durable intent to the verified genesis hash.\<close>

definition run_engine :: "iworld \<Rightarrow> init_attempt \<Rightarrow> child_output iact" where
  "run_engine w a = act_then (inote (Spawned a)) (\<lambda>_. iask (iw_run w))"

definition init_operation ::
  "iworld \<Rightarrow> string \<Rightarrow> binding \<Rightarrow> report \<Rightarrow> (string \<times> bytes) list \<Rightarrow> init_attempt \<Rightarrow> bool \<Rightarrow> string iact" where
  "init_operation w root b package inputs a resume =
     act_then (if resume then ret (Inr ())
               else act_then (inote Prepared_Data) (\<lambda>_. iask (\<lambda>t. iw_prepare_data w t (bn_data_directory b)))) (\<lambda>_.
     act_then (run_engine w a) (\<lambda>out.
     act_then (check_that (co_exit out = 0) ''ENGINE_INITIALIZATION_EXIT_FAILED'') (\<lambda>_.
     act_then (read_input w (join_name (join_name (join_name root ''operations'') (ia_id a)) ''report.jsonl'') 16384 False) (\<lambda>report.
     act_then (read_input w (join_name (bn_data_directory b) ''engine-instance.json'') 8192 False) (\<lambda>instance.
     let e = init_expectation b a (co_pid out) in
     act_then (ret (validate_success (iw_parse w) (co_stdout out) (snd report) (snd instance) e)) (\<lambda>genesis.
     act_then (recheck_all w inputs) (\<lambda>_.
     act_then (recheck_all w [(), (), (), (), ()]) (\<lambda>_.
     act_then (iask (\<lambda>t. iw_installed w t (bn_package b) package)) (\<lambda>_.
     act_then (iask (iw_evidence w)) (\<lambda>_.
     act_then (inote (Verified \<lparr>re_stdout = co_stdout out, re_report = snd report, re_instance = snd instance, re_expected = e\<rparr>
         genesis)) (\<lambda>_.
     ret (Inr genesis))))))))))))"

definition init_allowed :: "bool \<Rightarrow> init_phase \<Rightarrow> bool" where
  "init_allowed resume p \<longleftrightarrow>
     \<not> (\<not> resume \<and> p \<noteq> Registered \<or> resume \<and> \<not> (p = InitIntent \<or> p = Unknown))"

definition intent_of :: "istate \<Rightarrow> init_attempt \<Rightarrow> istate" where
  "intent_of x a = x\<lparr>is_phase := InitIntent, is_attempt := Some a, is_reason := ''INITIALIZATION_ATTEMPT_UNRESOLVED''\<rparr>"

definition result_of :: "istate \<Rightarrow> string result \<Rightarrow> istate" where
  "result_of x r = (case r of
      Inr g \<Rightarrow> x\<lparr>is_phase := Initialized, is_genesis := Some g, is_reason := ''INITIALIZATION_VERIFIED''\<rparr>
    | Inl e \<Rightarrow> x\<lparr>is_phase := Unknown, is_reason := error_code e\<rparr>)"

text \<open>Everything before the durable intent.\<close>

definition init_prepare :: "iworld \<Rightarrow> string \<Rightarrow> binding \<Rightarrow> bool \<Rightarrow>
    ((string \<times> bytes) list \<times> report \<times> init_attempt) iact" where
  "init_prepare w root b resume =
     act_then (check_pins w b) (\<lambda>inputs.
     act_then (verified_package w b True) (\<lambda>package.
     act_then (bound_preflight w b) (\<lambda>_.
     act_then (iask (\<lambda>t. iw_native w t (bn_native b))) (\<lambda>nv.
     act_then (iask (\<lambda>t. iw_product w t (bn_product b) (Some nv))) (\<lambda>_.
     act_then (check_that (same_name (nv_data nv) (bn_data_directory b)) inst_precondition) (\<lambda>_.
     act_then (data_precondition w b resume) (\<lambda>_.
     act_then (state_error (iask (iw_capacity w))) (\<lambda>_.
     act_then (iask (iw_attempt_id w)) (\<lambda>i.
     act_then (iask (\<lambda>t. iw_workspace w t i)) (\<lambda>_.
     act_then (read_lock_at w (bn_lock b)) (\<lambda>l.
     act_then (iask (\<lambda>t. iw_snapshot w t l)) (\<lambda>_.
     act_then (recheck_all w inputs) (\<lambda>_.
     act_then (recheck_all w [(), (), (), ()]) (\<lambda>_.
     act_then (iask (\<lambda>t. iw_installed w t (bn_package b) package)) (\<lambda>_.
     act_then (iask (iw_child_lock w)) (\<lambda>_.
     ret (Inr (inputs, package, \<lparr>ia_id = i, ia_command = (if resume then ''resume-init'' else ''init'')\<rparr>))))))))))))))))))"

definition with_code :: "string \<Rightarrow> 'a iact \<Rightarrow> 'a iact" where
  "with_code c m s = (case m s of (Inl e, s') \<Rightarrow> (fail c, s') | (Inr x, s') \<Rightarrow> (Inr x, s'))"

definition inst_initialize :: "iworld \<Rightarrow> bool \<Rightarrow> nat \<Rightarrow> inst_summary iact" where
  "inst_initialize w resume timeout =
     act_then (require_host w) (\<lambda>_.
     act_then (check_that (\<not> (timeout = 0 \<or> 600 * 10 ^ 9 < timeout)) inst_precondition) (\<lambda>_.
     act_then (iask (iw_open w)) (\<lambda>root.
     act_then (iask (iw_lock w)) (\<lambda>_.
     act_then (load_state w root) (\<lambda>(b, x).
     act_then (check_that (init_allowed resume (is_phase x)) ''INSTANCE_INITIALIZATION_STATE'') (\<lambda>_.
     act_then (init_prepare w root b resume) (\<lambda>(inputs, package, a).
     act_then (with_code ''INSTANCE_INITIALIZATION_UNKNOWN'' (save_state w (intent_of x a))) (\<lambda>_.
     act_then (outcome (init_operation w root b package inputs a resume)) (\<lambda>r.
     let y = result_of (intent_of x a) r in
     act_then (with_code ''INSTANCE_INITIALIZATION_UNKNOWN'' (save_state w y)) (\<lambda>_.
     ret (Inr (summary_of y (if is_phase y = Initialized then Some False else None)))))))))))))"

section \<open>Registration\<close>

definition optional_absolute :: "iworld \<Rightarrow> string option \<Rightarrow> string option iact" where
  "optional_absolute w k =
     (case k of None \<Rightarrow> ret (Inr None)
      | Some p \<Rightarrow> act_then (ret (file_absolute (iw_cwd w) p)) (\<lambda>q. ret (Inr (Some q))))"

definition registration_inputs :: "iworld \<Rightarrow> reg_options \<Rightarrow> (binding \<times> native_input \<times> (string \<times> bytes) list) iact" where
  "registration_inputs w r =
     act_then (ret (file_absolute (iw_cwd w) (ro_instance r))) (\<lambda>instance.
     act_then (iask (\<lambda>t. iw_native w t (ro_native r))) (\<lambda>nv.
     act_then (read_input w (ro_product r) 262144 False) (\<lambda>product.
     act_then (read_input w (ro_lock r) 65536 False) (\<lambda>lock.
     act_then (ret (file_absolute (iw_cwd w) (ro_package r))) (\<lambda>package.
     act_then (ret (file_absolute (iw_cwd w) (ro_archive r))) (\<lambda>archive.
     act_then (optional_absolute w (ro_public_key r)) (\<lambda>key.
     act_then (ret (read_lock (iw_parse w) (snd lock))) (\<lambda>l.
     act_then (read_inputs w 262144 [nv_config nv, nv_chain nv]) (\<lambda>native.
     act_then (read_inputs w mib4 (nv_references nv)) (\<lambda>references.
     act_then (read_inputs w 65536 (option_list key)) (\<lambda>keys.
     let inputs = [product, lock] @ native @ references @ keys;
         b = \<lparr>bn_schema = 1, bn_instance_id = [], bn_package = package, bn_archive = archive, bn_public_key = key,
              bn_unsigned = ro_unsigned r, bn_product = fst product, bn_native = nv_config nv, bn_lock = fst lock,
              bn_archive_sha = [], bn_manifest_sha = [], bn_identity = lock_expected l, bn_backend = nv_backend nv,
              bn_chain_fingerprint = [], bn_node_identity = [], bn_data_directory = nv_data nv,
              bn_pins = foldl (add_pin w) [] inputs, bn_supply = None\<rparr> in
     act_then (iask (\<lambda>t. binding_disjoint (iw_cwd w) (iw_eqv w) (iw_fs w t) instance b)) (\<lambda>_.
     ret (Inr (b, nv, inputs))))))))))))))"

definition reference_overlap :: "binding \<Rightarrow> native_input \<Rightarrow> provenance \<Rightarrow> bool" where
  "reference_overlap b nv o' \<longleftrightarrow>
     list_ex (\<lambda>p. list_ex (\<lambda>q. same_name q (bp_path p)) ([bn_product b, nv_config nv, nv_chain nv] @ nv_references nv))
       (origin_pins o')"

definition retain_supply :: "iworld \<Rightarrow> string \<Rightarrow> binding \<Rightarrow> native_input \<Rightarrow> binding iact" where
  "retain_supply w instance b nv =
     act_then (check_that (\<not> (bn_schema b \<noteq> 1 \<or> bn_supply b \<noteq> None)) inst_corrupt) (\<lambda>_.
     act_then (ret (supply_provenance b)) (\<lambda>o'.
     act_then (check_that (\<not> reference_overlap b nv o') ''INSTANCE_SUPPLY_REFERENCE_OVERLAP'') (\<lambda>_.
     act_then (iask (\<lambda>t. iw_retain w t o')) (\<lambda>_.
     let b' = retained_binding instance o' b in
     act_then (ret (validate_layout (iw_cwd w) instance b')) (\<lambda>_.
     act_then (check_files w b') (\<lambda>_.
     act_then (check_pins w b') (\<lambda>_.
     act_then (recheck w) (\<lambda>_. ret (Inr b')))))))))"

text \<open>The checks before anything persistent is created.\<close>

definition register_checks :: "iworld \<Rightarrow> reg_options \<Rightarrow>
    (string \<times> binding \<times> native_input \<times> (string \<times> bytes) list) iact" where
  "register_checks w r =
     act_then (require_host w) (\<lambda>_.
     act_then (ret (file_absolute (iw_cwd w) (ro_instance r))) (\<lambda>instance.
     act_then (iask (\<lambda>t. iw_check_path w t instance True)) (\<lambda>_.
     act_then (iask (\<lambda>t. ensure (\<not> iw_exists w t instance) ''INSTANCE_EXISTS'')) (\<lambda>_.
     act_then (registration_inputs w r) (\<lambda>(b0, nv, inputs).
     act_then (verified_package w b0 False) (\<lambda>package.
     let b1 = b0\<lparr>bn_archive_sha := archive_sha256 package, bn_manifest_sha := manifest_sha256 package\<rparr> in
     act_then (iask (\<lambda>t. iw_preflight w t b1)) (\<lambda>pr.
     act_then (ret (product_engine pr)) (\<lambda>(i, cold).
     act_then (check_that (\<not> (pp_binding pr \<noteq> ''MATCHED'' \<or> i \<noteq> bn_identity b1)) inst_precondition) (\<lambda>_.
     let b = b1\<lparr>bn_instance_id := pp_instance_id pr, bn_chain_fingerprint := cold_chain_fingerprint cold,
                bn_node_identity := cold_node_identity cold\<rparr> in
     act_then (check_that (\<not> (bn_backend b \<noteq> ''rocksdb'' \<or> cold_backend cold \<noteq> bn_backend b)) inst_precondition) (\<lambda>_.
     act_then (recheck_all w inputs) (\<lambda>_.
     act_then (recheck w) (\<lambda>_.
     act_then (data_precondition w b False) (\<lambda>_.
     act_then (iask (\<lambda>t. iw_installed w t (bn_package b) package)) (\<lambda>_.
     ret (Inr (instance, b, nv, inputs))))))))))))))))"

definition register_owned :: "iworld \<Rightarrow> reg_options \<Rightarrow> inst_summary iact" where
  "register_owned w r =
     act_then (register_checks w r) (\<lambda>(instance, b0, nv, inputs).
     act_then (create_control w) (\<lambda>_.
     act_then (iask (iw_lock w)) (\<lambda>_.
     act_then (recheck_all w inputs) (\<lambda>_.
     act_then (recheck w) (\<lambda>_.
     act_then (verified_package w b0 True) (\<lambda>_.
     act_then (retain_supply w instance b0 nv) (\<lambda>b.
     act_then (verified_package w b True) (\<lambda>_.
     act_then (recheck_all w inputs) (\<lambda>_.
     act_then (recheck_all w [(), ()]) (\<lambda>_.
     act_then (write_binding w b) (\<lambda>_.
     act_then (state_error (iask (iw_create_journal w))) (\<lambda>_.
     let x = \<lparr>is_schema = 1, is_instance_id = bn_instance_id b, is_binding_sha = iw_sha w (iw_print_binding w b),
              is_phase = Registered, is_attempt = None, is_genesis = None, is_reason = ''REGISTERED_COLD_CHECKED''\<rparr> in
     act_then (save_state w x) (\<lambda>_.
     act_then (recheck w) (\<lambda>_.
     ret (Inr (summary_of x (Some False)))))))))))))))))"

section \<open>Verification of an owned registration\<close>

definition verify_owned ::
  "iworld \<Rightarrow> reg_options \<Rightarrow> node_id \<Rightarrow> bool \<Rightarrow> (inst_summary \<times> report \<times> bpin list) iact" where
  "verify_owned w r owned registered_only =
     act_then (require_host w) (\<lambda>_.
     act_then (iask (iw_open w)) (\<lambda>root.
     act_then (iask (\<lambda>t. iw_owner w t owned)) (\<lambda>_.
     act_then (load_state w root) (\<lambda>(b, x).
     act_then (check_that (\<not> (registered_only \<and> (is_phase x \<noteq> Registered \<or> is_reason x \<noteq> ''REGISTERED_COLD_CHECKED'')))
                inst_precondition) (\<lambda>_.
     act_then (ret (check_request (iw_cwd w) b r)) (\<lambda>_.
     act_then (check_pins w b) (\<lambda>inputs.
     act_then (iask (\<lambda>t. iw_native w t (bn_native b))) (\<lambda>nv.
     act_then (check_that (\<not> (\<not> same_name (nv_data nv) (bn_data_directory b) \<or> nv_backend nv \<noteq> bn_backend b))
                inst_precondition) (\<lambda>_.
     act_then (current_pins w b nv) (\<lambda>requested.
     act_then (check_that (map (\<lambda>p. (components (bp_path p), bp_sha p)) (bn_pins b) =
                           map (\<lambda>p. (components (bp_path p), bp_sha p)) requested) inst_precondition) (\<lambda>_.
     act_then (read_lock_at w (bn_lock b)) (\<lambda>l.
     act_then (check_that (lock_expected l = bn_identity b) inst_precondition) (\<lambda>_.
     act_then (iask (\<lambda>t. iw_product w t (bn_product b) (Some nv))) (\<lambda>_.
     act_then (iask (\<lambda>t. iw_product_id w t (bn_product b))) (\<lambda>pid.
     act_then (check_that (pid = Some (bn_instance_id b)) inst_precondition) (\<lambda>_.
     act_then (verified_package w b True) (\<lambda>package.
     act_then (ret (source_pins (iw_cwd w) b)) (\<lambda>sources.
     act_then (recheck_all w inputs) (\<lambda>_.
     act_then (recheck_all w [(), (), (), ()]) (\<lambda>_.
     act_then (state_error (iask (iw_journal w))) (\<lambda>_.
     act_then (iask (\<lambda>t. iw_owner w t owned)) (\<lambda>_.
     act_then (observed_summary w root x) (\<lambda>su.
     act_then (state_error (iask (iw_journal w))) (\<lambda>_.
     act_then (recheck w) (\<lambda>_.
     act_then (iask (\<lambda>t. iw_owner w t owned)) (\<lambda>_.
     ret (Inr (su, package, sources))))))))))))))))))))))))))))"

definition inspect_owned_registration :: "iworld \<Rightarrow> reg_options \<Rightarrow> node_id \<Rightarrow> inst_summary iact" where
  "inspect_owned_registration w r owned = act_then (verify_owned w r owned True) (\<lambda>(su, _, _). ret (Inr su))"

definition verify_owned_binding :: "iworld \<Rightarrow> reg_options \<Rightarrow> node_id \<Rightarrow> inst_summary iact" where
  "verify_owned_binding w r owned = act_then (verify_owned w r owned False) (\<lambda>(su, _, _). ret (Inr su))"

section \<open>The catalog's view\<close>

fun candidate_apart :: "iworld \<Rightarrow> string \<Rightarrow> string list \<Rightarrow> unit iact" where
  "candidate_apart w c [] = ret (Inr ())"
| "candidate_apart w c (p # ps) =
     act_then (iask (\<lambda>t. overlaps (iw_eqv w) (iw_fs w t) c p)) (\<lambda>o'.
     act_then (check_that (\<not> o') inst_precondition) (\<lambda>_. candidate_apart w c ps))"

definition check_catalog_location :: "iworld \<Rightarrow> string \<Rightarrow> unit iact" where
  "check_catalog_location w candidate =
     act_then (iask (iw_open w)) (\<lambda>root.
     act_then (load_state w root) (\<lambda>(b, _).
     act_then (candidate_apart w candidate ([bn_package b, bn_data_directory b, bn_archive b, bn_product b, bn_native b,
         bn_lock b] @ option_list (bn_public_key b) @ map bp_path (bn_pins b))) (\<lambda>_.
     act_then (recheck w) (\<lambda>_.
     act_then (state_error (iask (iw_journal w))) (\<lambda>_. recheck w)))))"

definition catalog_binding_sha :: "iworld \<Rightarrow> nat \<Rightarrow> string \<Rightarrow> string iact" where
  "catalog_binding_sha w schema i =
     act_then (iask (iw_open w)) (\<lambda>root.
     act_then (load_state w root) (\<lambda>(b, x).
     act_then (check_that (\<not> (bn_schema b \<noteq> schema \<or> bn_instance_id b \<noteq> i)) inst_precondition) (\<lambda>_.
     act_then (recheck w) (\<lambda>_.
     act_then (state_error (iask (iw_journal w))) (\<lambda>_.
     act_then (recheck w) (\<lambda>_. ret (Inr (is_binding_sha x))))))))"

end
