(* ===== verification/InstanceLog.thy ===== *)
theory InstanceLog
  imports Instance
begin

text \<open>
  The life of a registered instance as an automaton over its log, and the proof that every
  operation of \<open>Instance\<close> follows it: what may become durable or be started after what, and that
  the files always replay the log. The rules come from the interpretation of \<open>advancing\<close>.
\<close>

section \<open>Reading a log\<close>

definition states_of :: "inst_event list \<Rightarrow> istate list" where
  "states_of l = List.map_filter (\<lambda>e. case e of Saved x \<Rightarrow> Some x | _ \<Rightarrow> None) l"

definition bindings_of :: "inst_event list \<Rightarrow> binding list" where
  "bindings_of l = List.map_filter (\<lambda>e. case e of Wrote_Binding b \<Rightarrow> Some b | _ \<Rightarrow> None) l"

lemma states_of_simps [simp]:
  "states_of [] = []" "states_of (l @ l') = states_of l @ states_of l'" "states_of (Saved x # l) = x # states_of l"
  "states_of (Reserved # l) = states_of l" "states_of (Wrote_Binding b # l) = states_of l"
  "states_of (Prepared_Data # l) = states_of l" "states_of (Spawned a # l) = states_of l"
  "states_of (Verified v g # l) = states_of l"
  by (simp_all add: states_of_def map_filter_def)

lemma bindings_of_simps [simp]:
  "bindings_of [] = []" "bindings_of (l @ l') = bindings_of l @ bindings_of l'" "bindings_of (Saved x # l) = bindings_of l"
  "bindings_of (Reserved # l) = bindings_of l" "bindings_of (Wrote_Binding b # l) = b # bindings_of l"
  "bindings_of (Prepared_Data # l) = bindings_of l" "bindings_of (Spawned a # l) = bindings_of l"
  "bindings_of (Verified v g # l) = bindings_of l"
  by (simp_all add: bindings_of_def map_filter_def)

definition newest :: "inst_event list \<Rightarrow> istate option" where
  "newest l = (if states_of l = [] then None else Some (last (states_of l)))"

lemma newest_snoc [simp]:
  "newest (l @ [Saved x]) = Some x" "newest (l @ [Wrote_Binding b]) = newest l" "newest (l @ [Reserved]) = newest l"
  "newest (l @ [Prepared_Data]) = newest l" "newest (l @ [Spawned a]) = newest l" "newest (l @ [Verified v g]) = newest l"
  by (simp_all add: newest_def)

lemma newest_Nil [simp]: "newest [] = None"
  by (simp add: newest_def)

section \<open>The automaton\<close>

text \<open>The state that registration saves.\<close>

definition registered_state :: "iworld \<Rightarrow> binding \<Rightarrow> istate" where
  "registered_state w b = \<lparr>is_schema = 1, is_instance_id = bn_instance_id b, is_binding_sha = iw_sha w (iw_print_binding w b),
     is_phase = Registered, is_attempt = None, is_genesis = None, is_reason = ''REGISTERED_COLD_CHECKED''\<rparr>"

definition accepts_run :: "iworld \<Rightarrow> run_evidence \<Rightarrow> string \<Rightarrow> bool" where
  "accepts_run w v g \<longleftrightarrow>
     validate_success (iw_parse w) (re_stdout v) (re_report v) (re_instance v) (re_expected v) = Inr g"

text \<open>The attempts a saved state admits: a first one, or the resumption of an unresolved one.\<close>

definition attempt_follows :: "istate \<Rightarrow> init_attempt \<Rightarrow> bool" where
  "attempt_follows x a \<longleftrightarrow>
     (is_phase x = Registered \<and> ia_command a = ''init'') \<or>
     (is_phase x \<in> {InitIntent, Unknown} \<and> ia_command a = ''resume-init'')"

definition intends :: "inst_event list \<Rightarrow> init_attempt \<Rightarrow> bool" where
  "intends l a \<longleftrightarrow> (\<exists>x. l \<noteq> [] \<and> last l = Saved x \<and> is_phase x = InitIntent \<and> is_attempt x = Some a)"

text \<open>What may come after the log \<open>l\<close>.\<close>

fun may_follow :: "iworld \<Rightarrow> inst_event list \<Rightarrow> inst_event \<Rightarrow> bool" where
  "may_follow w l Reserved \<longleftrightarrow> l = []"
| "may_follow w l (Wrote_Binding b) \<longleftrightarrow> l = [Reserved]"
| "may_follow w l (Saved y) \<longleftrightarrow>
     (\<exists>b. l = [Reserved, Wrote_Binding b] \<and> y = registered_state w b) \<or>
     (\<exists>x a. newest l = Some x \<and> attempt_follows x a \<and> y = intent_of x a) \<or>
     (\<exists>x e. newest l = Some x \<and> is_phase x = InitIntent \<and> y = result_of x (Inl e)) \<or>
     (\<exists>x a v g. newest l = Some x \<and> is_phase x = InitIntent \<and> is_attempt x = Some a \<and> l \<noteq> [] \<and>
        last l = Verified v g \<and> ix_attempt_id (re_expected v) = ia_id a \<and> y = result_of x (Inr g))"
| "may_follow w l Prepared_Data \<longleftrightarrow> (\<exists>a. intends l a \<and> ia_command a = ''init'')"
| "may_follow w l (Spawned a) \<longleftrightarrow>
     (if ia_command a = ''init'' then \<exists>k. l = k @ [Prepared_Data] \<and> intends k a else intends l a)"
| "may_follow w l (Verified v g) \<longleftrightarrow> accepts_run w v g \<and>
     (\<exists>b a pid. l \<noteq> [] \<and> last l = Spawned a \<and> bindings_of l = [b] \<and> re_expected v = init_expectation b a pid)"

inductive lawful :: "iworld \<Rightarrow> inst_event list \<Rightarrow> bool" for w where
  lawful_empty: "lawful w []"
| lawful_snoc: "lawful w l \<Longrightarrow> may_follow w l e \<Longrightarrow> lawful w (l @ [e])"

inductive_simps lawful_append1: "lawful w (l @ [e])"

lemma lawful_iff: "lawful w (l @ [e]) \<longleftrightarrow> lawful w l \<and> may_follow w l e"
  by (auto simp: lawful_append1)

lemma lawful_take: "lawful w (l @ l') \<Longrightarrow> lawful w l"
proof (induction l' rule: rev_induct)
  case (snoc e l')
  then show ?case using lawful_iff [of w "l @ l'" e] by simp
qed simp

lemma lawful_follows: "lawful w (l @ e # l') \<Longrightarrow> may_follow w l e"
  using lawful_take [of w "l @ [e]" l'] by (simp add: lawful_iff)

lemma lawful_prefix: "lawful w l \<Longrightarrow> prefix k l \<Longrightarrow> lawful w k"
  by (auto simp: prefix_def dest: lawful_take)

section \<open>The files replay the log\<close>

definition replays :: "iworld \<Rightarrow> inst \<Rightarrow> bool" where
  "replays w s \<longleftrightarrow> it_reserved s = (it_log s \<noteq> []) \<and>
     it_binding s = (case bindings_of (it_log s) of [] \<Rightarrow> None | b # _ \<Rightarrow> Some (iw_print_binding w b)) \<and>
     it_disk s = map (\<lambda>x. iw_print w (json_of_istate x)) (states_of (it_log s))"

definition sound :: "iworld \<Rightarrow> inst \<Rightarrow> bool" where
  "sound w s \<longleftrightarrow> lawful w (it_log s) \<and> replays w s"

definition codec :: "iworld \<Rightarrow> (bytes \<Rightarrow> json option) \<times> (bytes \<Rightarrow> string) \<times> (json \<Rightarrow> bytes) \<times> (binding \<Rightarrow> bytes)" where
  "codec w = (iw_parse w, iw_sha w, iw_print w, iw_print_binding w)"

lemma may_follow_codec: "codec w = codec w' \<Longrightarrow> may_follow w l e \<longleftrightarrow> may_follow w' l e"
  by (cases e) (simp_all add: codec_def registered_state_def accepts_run_def)

lemma lawful_codec: "codec w = codec w' \<Longrightarrow> lawful w l \<longleftrightarrow> lawful w' l"
proof (induction l rule: rev_induct)
  case (snoc e l)
  then show ?case using may_follow_codec [of w w' l e] by (simp add: lawful_iff)
qed (simp add: lawful_empty)

lemma sound_codec: "codec w = codec w' \<Longrightarrow> sound w s \<longleftrightarrow> sound w' s"
  unfolding sound_def using lawful_codec [of w w'] by (auto simp: replays_def codec_def split: list.splits)

text \<open>What serde promises: a saved document reads back as itself, or not at all.\<close>

definition faithful :: "iworld \<Rightarrow> bool" where
  "faithful w \<longleftrightarrow>
     (\<forall>x y. engine_decode (iw_parse w) istate_of_json (iw_print w (json_of_istate x)) = Some y \<longrightarrow> y = x) \<and>
     (\<forall>b c. engine_decode (iw_parse w) binding_of_json (iw_print_binding w b) = Some c \<longrightarrow> c = b)"

section \<open>Steps\<close>

definition ahead :: "iworld \<Rightarrow> inst \<Rightarrow> inst \<Rightarrow> bool" where
  "ahead w s s' \<longleftrightarrow> (\<exists>new. it_log s' = it_log s @ new) \<and> (sound w s \<longrightarrow> sound w s')"

definition inst_view :: "inst \<Rightarrow> bool \<times> bytes option \<times> bytes list \<times> inst_event list" where
  "inst_view s = (it_reserved s, it_binding s, it_disk s, it_log s)"

lemma view_log: "inst_view s' = inst_view s \<Longrightarrow> it_log s' = it_log s"
  by (simp add: inst_view_def)

lemma sound_view: "inst_view s' = inst_view s \<Longrightarrow> sound w s' \<longleftrightarrow> sound w s"
  by (simp add: sound_def replays_def inst_view_def)

interpretation inst_run: advancing "ahead w" inst_view for w
proof unfold_locales
  show "ahead w s s'" if "inst_view s' = inst_view s" for s s'
    using that sound_view [OF that, of w] view_log [OF that] by (simp add: ahead_def)
  show "ahead w s s' \<Longrightarrow> ahead w s' s'' \<Longrightarrow> ahead w s s''" for s s' s''
    unfolding ahead_def by (metis append_assoc)
qed

section \<open>Operations that keep everything\<close>

abbreviation still :: "'a iact \<Rightarrow> bool" where
  "still m \<equiv> keeps inst_view m"

named_theorems still_intro "operations of an instance that change no file and log nothing"

declare keeps_intro [still_intro]

lemma still_iask [still_intro]: "still (iask q)"
  by (simp add: keeps_def iask_def inst_view_def)

lemma still_state_error [still_intro]: "still m \<Longrightarrow> still (state_error m)"
  by (auto simp: keeps_def state_error_def split: prod.splits sum.splits) (metis snd_conv)+

lemma still_check_that [still_intro]: "still (check_that b e)"
  unfolding check_that_def by (intro still_intro)

lemma still_read_input [still_intro]: "still (read_input w p n x)"
  unfolding read_input_def by (intro still_intro)

lemma still_recheck [still_intro]: "still (recheck w)"
  unfolding recheck_def by (intro still_intro)

lemma still_recheck_all [still_intro]: "still (recheck_all w xs)"
  by (induction xs) (auto intro!: still_intro)

lemma still_pins_checked [still_intro]: "still (pins_checked w ps)"
  by (induction ps) (auto intro!: still_intro)

lemma still_read_inputs [still_intro]: "still (read_inputs w n ps)"
  by (induction ps) (auto intro!: still_intro)

lemma still_current_pins_from [still_intro]: "still (current_pins_from w pins ps)"
  by (induction ps arbitrary: pins) (auto intro!: still_intro)

lemma still_require_files [still_intro]: "still (require_files w ps)"
  by (induction ps) (auto simp: require_kind_def intro!: still_intro)

lemma still_candidate_apart [still_intro]: "still (candidate_apart w c ps)"
  by (induction ps) (auto intro!: still_intro)

lemma still_checks [still_intro]:
  "still (check_files w b)" "still (check_pins w b)" "still (read_lock_at w p)" "still (current_pins w b nv)"
  "still (observed_busy w)" "still (require_host w)" "still (bound_preflight w b)"
  unfolding check_files_def check_pins_def read_lock_at_def current_pins_def observed_busy_def require_host_def
    bound_preflight_def
  by (intro still_intro)+

lemma still_verified_package [still_intro]: "still (verified_package w b p)"
  unfolding verified_package_def Let_def by (intro still_intro)

lemma still_load_state [still_intro]: "still (load_state w root)"
  unfolding load_state_def by (intro still_intro)

lemma still_observed_summary [still_intro]: "still (observed_summary w root x)"
  unfolding observed_summary_def Let_def by (intro still_intro)

lemma still_data_precondition [still_intro]: "still (data_precondition w b resume)"
  unfolding data_precondition_def fresh_data_def resumable_data_def require_kind_def by (intro still_intro)

lemma still_init_prepare [still_intro]: "still (init_prepare w root b resume)"
  unfolding init_prepare_def by (intro still_intro)

lemma still_registration [still_intro]:
  "still (registration_inputs w r)" "still (retain_supply w i b nv)" "still (register_checks w r)"
  unfolding registration_inputs_def optional_absolute_def retain_supply_def register_checks_def Let_def
  by (intro still_intro)+

lemma still_views:
  "still (inst_show w)" "still (inst_preflight w)" "still (verify_owned w r owned ro)"
  "still (check_catalog_location w c)" "still (catalog_binding_sha w n i)"
  unfolding inst_show_def inst_preflight_def verify_owned_def check_catalog_location_def catalog_binding_sha_def
  by (intro still_intro)+

section \<open>Rules for logged steps\<close>

text \<open>Assertions: the files replay a lawful log, and \<open>L\<close> holds of it.\<close>

definition on :: "iworld \<Rightarrow> (inst_event list \<Rightarrow> bool) \<Rightarrow> inst \<Rightarrow> bool" where
  "on w L s \<longleftrightarrow> sound w s \<and> L (it_log s)"

definition steps :: "iworld \<Rightarrow> (inst_event list \<Rightarrow> bool) \<Rightarrow> 'a iact \<Rightarrow> ('a \<Rightarrow> inst_event list \<Rightarrow> bool) \<Rightarrow>
    (inst_event list \<Rightarrow> bool) \<Rightarrow> bool" where
  "steps w L m Q R \<longleftrightarrow> triple (ahead w) (on w L) m (\<lambda>x. on w (Q x)) (on w R)"

lemma on_view: "inst_view s' = inst_view s \<Longrightarrow> on w L s \<Longrightarrow> on w L s'"
  using sound_view [of s' s w] view_log [of s' s] by (simp add: on_def)

lemma on_mono: "on w L s \<Longrightarrow> (L (it_log s) \<Longrightarrow> L' (it_log s)) \<Longrightarrow> on w L' s"
  by (simp add: on_def)

lemma steps_conseq:
  assumes "steps w L m Q R" "\<And>l. L' l \<Longrightarrow> L l" "\<And>x l. Q x l \<Longrightarrow> Q' x l" "\<And>l. R l \<Longrightarrow> R' l"
  shows "steps w L' m Q' R'"
  unfolding steps_def
proof (rule triple_conseq [OF assms(1) [unfolded steps_def]])
  show "on w L' s \<Longrightarrow> on w L s" for s by (erule on_mono) (rule assms(2))
  show "on w (Q x) s \<Longrightarrow> on w (Q' x) s" for x s by (erule on_mono) (rule assms(3))
  show "on w R s \<Longrightarrow> on w R' s" for s by (erule on_mono) (rule assms(4))
qed

lemma steps_then:
  "steps w L m M R \<Longrightarrow> (\<And>x. steps w (M x) (f x) Q R) \<Longrightarrow> steps w L (act_then m f) Q R"
  unfolding steps_def by (rule inst_run.then_rule)

lemma steps_still:
  assumes "still m" "\<And>l. L l \<Longrightarrow> R l"
  shows "steps w L m (\<lambda>_. L) R"
proof (rule steps_conseq)
  show "steps w L m (\<lambda>_. L) L"
    unfolding steps_def by (rule inst_run.keeps_rule [OF assms(1) on_view])
qed (use assms(2) in auto)

lemma steps_then_still:
  "still m \<Longrightarrow> (\<And>l. L l \<Longrightarrow> R l) \<Longrightarrow> (\<And>x. steps w L (f x) Q R) \<Longrightarrow> steps w L (act_then m f) Q R"
  by (rule steps_then [OF steps_still])

lemma steps_end:
  "still m \<Longrightarrow> (\<And>l. L l \<Longrightarrow> R l) \<Longrightarrow> (\<And>x l. L l \<Longrightarrow> Q x l) \<Longrightarrow> steps w L m Q R"
  by (rule steps_conseq [OF steps_still [of m L R w]]) blast+

text \<open>An unchanged state with a fact about the value.\<close>

lemma steps_fact:
  assumes "still m" "\<And>l. L l \<Longrightarrow> R l"
    "\<And>s x. sound w s \<Longrightarrow> L (it_log s) \<Longrightarrow> fst (m s) = Inr x \<Longrightarrow> F x (it_log s)"
  shows "steps w L m (\<lambda>x l. L l \<and> F x l) R"
proof -
  have "triple (ahead w) (on w L) m (\<lambda>x s. on w L s \<and> F x (it_log s)) (on w L)"
  proof (rule inst_run.fact_rule [OF assms(1) on_view])
    fix s x assume s: "on w L s" "fst (m s) = Inr x"
    have "it_log (snd (m s)) = it_log s" using assms(1) view_log unfolding keeps_def by blast
    then show "F x (it_log (snd (m s)))" using s assms(3) [of s x] by (simp add: on_def)
  qed
  then show ?thesis
    unfolding steps_def
  proof (rule triple_conseq)
    show "on w L s \<Longrightarrow> on w R s" for s by (erule on_mono) (rule assms(2))
  qed (simp_all add: on_def)
qed

lemma steps_ret:
  assumes "\<And>l. L l \<Longrightarrow> R l"
  shows "steps w L (ret r) (\<lambda>x l. L l \<and> r = Inr x) R"
  by (rule steps_fact [where F = "\<lambda>x _. r = Inr x", OF keeps_ret assms]) (simp_all add: ret_def)

lemma steps_check:
  assumes "\<And>l. L l \<Longrightarrow> R l"
  shows "steps w L (check_that c e) (\<lambda>_ l. L l \<and> c) R"
  by (rule steps_fact [where F = "\<lambda>_ _. c", OF still_check_that assms])
    (auto simp: check_that_def ret_def ensure_def fail_def split: if_splits)

lemma steps_outcome:
  assumes "steps w L m Q R"
  shows "steps w L (outcome m) (\<lambda>r. case r of Inl e \<Rightarrow> R | Inr x \<Rightarrow> Q x) R'"
  unfolding steps_def
  by (rule triple_conseq [OF triple_outcome [OF assms [unfolded steps_def]]]) (auto split: sum.splits)

lemma steps_precond: "(\<And>l. L l \<Longrightarrow> B) \<Longrightarrow> (B \<Longrightarrow> steps w L m Q R) \<Longrightarrow> steps w L m Q R"
  unfolding steps_def triple_def on_def by blast

text \<open>One more event, with what it leaves on disk.\<close>

lemma sound_snoc:
  assumes "on w L s" "it_log s' = it_log s @ [e]" "may_follow w (it_log s) e" "replays w s'"
  shows "ahead w s s'" "sound w s'"
  using assms by (auto simp: on_def sound_def ahead_def lawful_iff)

lemma steps_note:
  assumes "\<And>l. L l \<Longrightarrow> may_follow w l e \<and> Q (l @ [e])" "e \<in> {Prepared_Data, Spawned a, Verified v g}"
  shows "steps w L (inote e) (\<lambda>_. Q) R"
  unfolding steps_def
proof (rule tripleI)
  fix s r s' assume s: "on w L s" "inote e s = (r, s')"
  then have s': "s' = s\<lparr>it_log := it_log s @ [e]\<rparr>" "r = Inr ()" by (simp_all add: inote_def modify_def)
  note e = assms(1) [of "it_log s"]
  have m: "may_follow w (it_log s) e" "Q (it_log s @ [e])" using s(1) e by (simp_all add: on_def)
  have "it_log s \<noteq> []" using m(1) assms(2) by (auto simp: intends_def split: if_splits)
  moreover have "replays w s" using s(1) by (simp add: on_def sound_def)
  ultimately have "replays w s'" using assms(2) by (auto simp: replays_def s' split: list.splits)
  with sound_snoc [OF s(1) _ m(1)] m(2) s'
  show "ahead w s s' \<and> (case r of Inl e \<Rightarrow> on w R s' | Inr x \<Rightarrow> on w Q s')" by (simp add: on_def)
qed

definition can_happen :: "(nat \<Rightarrow> bool \<times> unit result) \<Rightarrow> bool" where
  "can_happen q \<longleftrightarrow> (\<exists>t. fst (q t) \<or> snd (q t) = Inr ())"

lemma steps_durable:
  assumes "\<And>s. on w L s \<Longrightarrow> can_happen q \<Longrightarrow> it_log (g s) = it_log s @ [e] \<and> replays w (g s) \<and>
      may_follow w (it_log s) e \<and> Q (it_log s @ [e])"
  shows "steps w L (durable q g) (\<lambda>_. Q) (\<lambda>_. True)"
  unfolding steps_def
proof (rule tripleI)
  fix s r s' assume s: "on w L s" "durable q g s = (r, s')"
  obtain dn r0 where q: "q (it_clock s) = (dn, r0)" by (cases "q (it_clock s)")
  have r: "r = r0" using s(2) q by (auto simp: durable_def)
  show "ahead w s s' \<and> (case r of Inl e \<Rightarrow> on w (\<lambda>_. True) s' | Inr x \<Rightarrow> on w Q s')"
  proof (cases "dn \<or> r0 = Inr ()")
    case True
    then have "can_happen q" unfolding can_happen_def using q by (metis fst_conv snd_conv)
    note g = assms [OF s(1) this]
    have s': "s' = (g s)\<lparr>it_clock := Suc (it_clock s)\<rparr>" using s(2) q True by (auto simp: durable_def)
    have v: "inst_view s' = inst_view (g s)" by (simp add: s' inst_view_def)
    have "replays w s'" using g by (simp add: s' replays_def)
    with sound_snoc [OF s(1), of s' e] g view_log [OF v] show ?thesis by (auto simp: on_def split: sum.splits)
  next
    case False
    then have s': "s' = s\<lparr>it_clock := Suc (it_clock s)\<rparr>" "\<exists>e. r = Inl e"
      using s(2) q r by (cases r0; auto simp: durable_def)+
    have v: "inst_view s' = inst_view s" by (simp add: s' inst_view_def)
    then have "ahead w s s'" by (rule inst_run.adv_same)
    moreover have "sound w s'" using sound_view [OF v] s(1) by (simp add: on_def)
    ultimately show ?thesis using s'(2) by (auto simp: on_def)
  qed
qed

lemma steps_coded:
  assumes "steps w L m Q (\<lambda>_. True)"
  shows "steps w L (state_error m) Q (\<lambda>_. True)" "steps w L (with_code c m) Q (\<lambda>_. True)"
  using assms unfolding steps_def triple_def state_error_def with_code_def
  by (auto split: prod.splits sum.splits simp: fail_def)

section \<open>The durable writes\<close>

lemma steps_save:
  assumes "\<And>l. L l \<Longrightarrow> may_follow w l (Saved x) \<and> Q (l @ [Saved x])"
  shows "steps w L (save_state w x) (\<lambda>_. Q) (\<lambda>_. True)"
  unfolding save_state_def
proof (rule steps_coded(1), rule steps_durable [where e = "Saved x"])
  fix s assume s: "on w L s"
  then have m: "may_follow w (it_log s) (Saved x)" "Q (it_log s @ [Saved x])" using assms by (simp_all add: on_def)
  then have "it_log s \<noteq> []" by auto
  with s m show "it_log (s\<lparr>it_disk := it_disk s @ [iw_print w (json_of_istate x)], it_log := it_log s @ [Saved x]\<rparr>) =
        it_log s @ [Saved x] \<and>
      replays w (s\<lparr>it_disk := it_disk s @ [iw_print w (json_of_istate x)], it_log := it_log s @ [Saved x]\<rparr>) \<and>
      may_follow w (it_log s) (Saved x) \<and> Q (it_log s @ [Saved x])"
    by (auto simp: on_def sound_def replays_def split: list.splits)
qed

lemma steps_write_binding:
  assumes "\<And>l. L l \<Longrightarrow> l = [Reserved]"
  shows "steps w L (write_binding w b) (\<lambda>_ l. l = [Reserved, Wrote_Binding b]) (\<lambda>_. True)"
  unfolding write_binding_def
proof (rule steps_coded(1), rule steps_durable [where e = "Wrote_Binding b"])
  fix s assume s: "on w L s"
  then have l: "it_log s = [Reserved]" using assms by (simp add: on_def)
  with s show "it_log (s\<lparr>it_binding := Some (iw_print_binding w b), it_log := it_log s @ [Wrote_Binding b]\<rparr>) =
        it_log s @ [Wrote_Binding b] \<and>
      replays w (s\<lparr>it_binding := Some (iw_print_binding w b), it_log := it_log s @ [Wrote_Binding b]\<rparr>) \<and>
      may_follow w (it_log s) (Wrote_Binding b) \<and> it_log s @ [Wrote_Binding b] = [Reserved, Wrote_Binding b]"
    by (auto simp: on_def sound_def replays_def)
qed

text \<open>Making the directory a second time never happens.\<close>

lemma steps_create:
  "steps w (\<lambda>l. l = [] \<or> \<not> can_happen (iw_create w)) (create_control w) (\<lambda>_ l. l = [Reserved]) (\<lambda>_. True)"
  unfolding create_control_def
proof (rule steps_durable [where e = Reserved])
  fix s assume s: "on w (\<lambda>l. l = [] \<or> \<not> can_happen (iw_create w)) s" "can_happen (iw_create w)"
  then have l: "it_log s = []" by (simp add: on_def)
  with s show "it_log (s\<lparr>it_reserved := True, it_log := it_log s @ [Reserved]\<rparr>) = it_log s @ [Reserved] \<and>
      replays w (s\<lparr>it_reserved := True, it_log := it_log s @ [Reserved]\<rparr>) \<and> may_follow w (it_log s) Reserved \<and>
      it_log s @ [Reserved] = [Reserved]"
    by (auto simp: on_def sound_def replays_def)
qed

section \<open>Registration\<close>

lemma steps_register:
  "steps w (\<lambda>l. l = [] \<or> \<not> can_happen (iw_create w)) (register_owned w r) (\<lambda>_ _. True) (\<lambda>_. True)"
  unfolding register_owned_def Let_def
  apply (rule steps_then_still, rule still_registration, simp)
  apply (clarsimp split: prod.splits)
  apply (rule steps_then [OF steps_create])
  apply (rule steps_then_still, intro still_intro, simp)+
  apply (rule steps_then [OF steps_write_binding], assumption)
  apply (rule steps_then_still, intro still_intro, simp)
  apply (rule steps_then [where M = "\<lambda>_ _. True"], rule steps_save)
   apply (simp add: registered_state_def)
  apply (rule steps_end, intro still_intro)
   apply simp_all
  done

section \<open>Initialisation\<close>

lemma bindings_at_most_one: "lawful w l \<Longrightarrow> length (bindings_of l) \<le> 1"
proof (induction rule: lawful.induct)
  case (lawful_snoc l e)
  then show ?case by (cases e) auto
qed simp

text \<open>What is loaded is what was written.\<close>

lemma load_state_is:
  assumes "sound w s" "faithful w" "fst (load_state w root s) = Inr (b, x)"
  shows "newest (it_log s) = Some x" "bindings_of (it_log s) = [b]" "state_ok b (iw_sha w (iw_print_binding w b)) x"
proof -
  from assms(3) obtain raw j s1 s2 where d0: "s1 = snd (iask (iw_read_binding w) s)" "it_binding s1 = Some raw"
    "engine_decode (iw_parse w) binding_of_json raw = Some b"
    "s2 = snd (state_error (iask (iw_journal w)) s1)" "it_disk s2 \<noteq> []" "j = last (it_disk s2)"
    "engine_decode (iw_parse w) istate_of_json j = Some x" "state_ok b (iw_sha w raw) x"
    unfolding load_state_def
    by (auto simp: act_then_Inr with_state_def ret_def check_that_def ok_or_def fail_def ensure_def split: option.splits if_splits)
  have v: "inst_view s1 = inst_view s" "inst_view s2 = inst_view s"
    using still_iask [of "iw_read_binding w"] still_state_error [OF still_iask, of "iw_journal w"]
    by (simp_all add: keeps_def d0(1,4))
  have d: "it_binding s = Some raw" "it_disk s \<noteq> []" "j = last (it_disk s)"
    "engine_decode (iw_parse w) binding_of_json raw = Some b" "engine_decode (iw_parse w) istate_of_json j = Some x"
    "state_ok b (iw_sha w raw) x"
    using d0 v by (simp_all add: inst_view_def)
  have r: "it_binding s = (case bindings_of (it_log s) of [] \<Rightarrow> None | b # _ \<Rightarrow> Some (iw_print_binding w b))"
    "it_disk s = map (\<lambda>x. iw_print w (json_of_istate x)) (states_of (it_log s))"
    using assms(1) by (simp_all add: sound_def replays_def)
  from d(1) r(1) obtain b' bs where b': "bindings_of (it_log s) = b' # bs" "raw = iw_print_binding w b'"
    by (cases "bindings_of (it_log s)") auto
  moreover have "length (bindings_of (it_log s)) \<le> 1"
    using bindings_at_most_one assms(1) by (auto simp: sound_def)
  ultimately have bs: "bindings_of (it_log s) = [b']" by simp
  have "b = b'" using d(4) b'(2) assms(2) unfolding faithful_def by blast
  with bs d(6) b'(2) show "bindings_of (it_log s) = [b]" "state_ok b (iw_sha w (iw_print_binding w b)) x" by simp_all
  have n: "states_of (it_log s) \<noteq> []" using d(2) r(2) by simp
  then have "j = iw_print w (json_of_istate (last (states_of (it_log s))))" using d(3) r(2) by (simp add: last_map)
  with d(5) assms(2) have "x = last (states_of (it_log s))" unfolding faithful_def by blast
  with n show "newest (it_log s) = Some x" by (simp add: newest_def)
qed

text \<open>The attempt prepared for a command.\<close>

lemma init_prepare_command:
  "fst (init_prepare w root b resume s) = Inr (inputs, package, a) \<Longrightarrow>
     ia_command a = (if resume then ''resume-init'' else ''init'')"
  unfolding init_prepare_def by (auto simp: act_then_Inr ret_def)

text \<open>Inside the operation: the newest state stays the intent \<open>x\<close> for the attempt \<open>a\<close>.\<close>

definition during :: "binding \<Rightarrow> istate \<Rightarrow> inst_event list \<Rightarrow> bool" where
  "during b x l \<longleftrightarrow> newest l = Some x \<and> bindings_of l = [b]"

lemma during_snoc: "during b x l \<Longrightarrow> e \<in> {Prepared_Data, Spawned a, Verified v g} \<Longrightarrow> during b x (l @ [e])"
  by (auto simp: during_def)

lemma steps_accept:
  assumes "re_expected v = init_expectation b a pid"
  shows "steps w (\<lambda>l. (during b x l \<and> l \<noteq> [] \<and> last l = Spawned a) \<and> accepts_run w v g)
     (act_then (inote (Verified v g)) (\<lambda>_. ret (Inr g)))
     (\<lambda>g l. during b x l \<and> l \<noteq> [] \<and> (\<exists>v. last l = Verified v g \<and> ix_attempt_id (re_expected v) = ia_id a)) (during b x)"
proof (rule steps_then)
  let ?done = "\<lambda>l. during b x l \<and> l \<noteq> [] \<and> last l = Verified v g"
  show "steps w (\<lambda>l. (during b x l \<and> l \<noteq> [] \<and> last l = Spawned a) \<and> accepts_run w v g) (inote (Verified v g))
     (\<lambda>_. ?done) (during b x)"
    by (rule steps_note [where v = v and g = g]) (use assms in \<open>auto simp: during_def\<close>)
  show "steps w ?done (ret (Inr g))
     (\<lambda>g l. during b x l \<and> l \<noteq> [] \<and> (\<exists>v. last l = Verified v g \<and> ix_attempt_id (re_expected v) = ia_id a)) (during b x)"
    unfolding steps_def triple_def
    using assms by (auto simp: ret_def on_def init_expectation_def intro: inst_run.adv_same)
qed

lemma steps_operation:
  assumes "is_phase x = InitIntent" "is_attempt x = Some a"
    "ia_command a = (if resume then ''resume-init'' else ''init'')"
  shows "steps w (\<lambda>l. during b x l \<and> l \<noteq> [] \<and> last l = Saved x) (init_operation w root b package inputs a resume)
     (\<lambda>g l. during b x l \<and> l \<noteq> [] \<and> (\<exists>v. last l = Verified v g \<and> ix_attempt_id (re_expected v) = ia_id a))
     (during b x)"
proof -
  let ?ready = "\<lambda>l. during b x l \<and> may_follow w l (Spawned a)"
  let ?ran = "\<lambda>l. during b x l \<and> l \<noteq> [] \<and> last l = Spawned a"
  have prepare: "steps w (\<lambda>l. during b x l \<and> l \<noteq> [] \<and> last l = Saved x)
     (if resume then ret (Inr ())
      else act_then (inote Prepared_Data) (\<lambda>_. iask (\<lambda>t. iw_prepare_data w t (bn_data_directory b)))) (\<lambda>_. ?ready) (during b x)"
  proof (cases resume)
    case True
    have "steps w (\<lambda>l. during b x l \<and> l \<noteq> [] \<and> last l = Saved x) (ret (Inr ())) (\<lambda>_. ?ready) (during b x)"
      by (rule steps_end) (use assms True in \<open>auto simp: intends_def intro: still_intro\<close>)
    with True show ?thesis by simp
  next
    case False
    have "steps w (\<lambda>l. during b x l \<and> l \<noteq> [] \<and> last l = Saved x)
        (act_then (inote Prepared_Data) (\<lambda>_. iask (\<lambda>t. iw_prepare_data w t (bn_data_directory b))))
        (\<lambda>_. ?ready) (during b x)"
    proof (rule steps_then)
      show "steps w (\<lambda>l. during b x l \<and> l \<noteq> [] \<and> last l = Saved x) (inote Prepared_Data) (\<lambda>_. ?ready) (during b x)"
        by (rule steps_note [where a = a]) (use assms False in \<open>auto simp: intends_def during_snoc\<close>)
      show "steps w ?ready (iask (\<lambda>t. iw_prepare_data w t (bn_data_directory b))) (\<lambda>_. ?ready) (during b x)" for u :: unit
        by (rule steps_end) (auto intro: still_intro)
    qed
    with False show ?thesis by simp
  qed
  have run: "steps w ?ready (run_engine w a) (\<lambda>_. ?ran) (during b x)"
    unfolding run_engine_def
  proof (rule steps_then)
    show "steps w ?ready (inote (Spawned a)) (\<lambda>_. ?ran) (during b x)"
      by (rule steps_note [where a = a]) (auto simp: during_snoc)
    show "steps w ?ran (iask (iw_run w)) (\<lambda>_. ?ran) (during b x)" for u :: unit
      by (rule steps_end) (auto intro: still_intro)
  qed
  show ?thesis
    unfolding init_operation_def Let_def
    apply (rule steps_then [OF prepare], rule steps_then [OF run])
    apply (rule steps_then_still, rule still_check_that, simp)
    apply (rule steps_then_still, rule still_read_input, simp)+
    apply (rule steps_then [OF steps_ret], simp)
    apply (rule steps_then_still, intro still_intro, simp)+
    apply (rule steps_conseq [OF steps_accept])
       apply (simp_all add: accepts_run_def)
    done
qed

lemma intent_of_simps [simp]:
  "is_phase (intent_of x a) = InitIntent" "is_attempt (intent_of x a) = Some a"
  by (simp_all add: intent_of_def)

lemma allowed_follows:
  "init_allowed resume (is_phase x) \<Longrightarrow> ia_command a = (if resume then ''resume-init'' else ''init'') \<Longrightarrow>
     attempt_follows x a"
  by (auto simp: init_allowed_def attempt_follows_def split: if_splits)

text \<open>From the checked state to the saved result.\<close>

lemma steps_attempt:
  assumes "init_allowed resume (is_phase x)" "ia_command a = (if resume then ''resume-init'' else ''init'')"
  shows "steps w (during b x)
     (act_then (with_code c (save_state w (intent_of x a))) (\<lambda>_.
      act_then (outcome (init_operation w root b package inputs a resume)) (\<lambda>r.
      act_then (with_code c (save_state w (result_of (intent_of x a) r))) (\<lambda>_. ret (Inr (v r))))))
     (\<lambda>_ _. True) (\<lambda>_. True)"
proof (rule steps_then)
  let ?x = "intent_of x a"
  show "steps w (during b x) (with_code c (save_state w ?x)) (\<lambda>_ l. during b ?x l \<and> l \<noteq> [] \<and> last l = Saved ?x) (\<lambda>_. True)"
    by (rule steps_coded(2) [OF steps_save]) (use allowed_follows [OF assms] in \<open>auto simp: during_def\<close>)
  have res: "may_follow w l (Saved (result_of ?x r))"
    if h: "case r of Inl e \<Rightarrow> during b ?x l
        | Inr g \<Rightarrow> during b ?x l \<and> l \<noteq> [] \<and> (\<exists>v. last l = Verified v g \<and> ix_attempt_id (re_expected v) = ia_id a)" for r l
  proof (cases r)
    case (Inl e)
    then have "newest l = Some ?x" using h by (simp add: during_def)
    then have "\<exists>x' e'. newest l = Some x' \<and> is_phase x' = InitIntent \<and> result_of ?x r = result_of x' (Inl e')"
      using Inl by auto
    then show ?thesis by simp
  next
    case (Inr g)
    then obtain v' where "newest l = Some ?x" "l \<noteq> []" "last l = Verified v' g" "ix_attempt_id (re_expected v') = ia_id a"
      using h by (auto simp: during_def)
    then have "\<exists>x' a' v' g'. newest l = Some x' \<and> is_phase x' = InitIntent \<and> is_attempt x' = Some a' \<and> l \<noteq> [] \<and>
        last l = Verified v' g' \<and> ix_attempt_id (re_expected v') = ia_id a' \<and> result_of ?x r = result_of x' (Inr g')"
      using Inr by (intro exI conjI) (assumption | simp)+
    then show ?thesis by simp
  qed
  show "steps w (\<lambda>l. during b ?x l \<and> l \<noteq> [] \<and> last l = Saved ?x)
     (act_then (outcome (init_operation w root b package inputs a resume)) (\<lambda>r.
      act_then (with_code c (save_state w (result_of ?x r))) (\<lambda>_. ret (Inr (v r))))) (\<lambda>_ _. True) (\<lambda>_. True)" for u :: unit
    apply (rule steps_then [OF steps_outcome [OF steps_operation]])
       apply (simp_all add: assms)
    apply (rule steps_then, rule steps_coded(2) [OF steps_save [where Q = "\<lambda>_. True"]])
     apply (rule conjI [OF res TrueI])
     apply (auto split: sum.splits)[1]
    apply (rule steps_end, rule keeps_ret, simp_all)
    done
qed

lemma steps_admitted:
  "steps w (\<lambda>l. during b x l \<and> init_allowed resume (is_phase x) \<and>
        ia_command a = (if resume then ''resume-init'' else ''init''))
     (act_then (with_code c (save_state w (intent_of x a))) (\<lambda>_.
      act_then (outcome (init_operation w root b package inputs a resume)) (\<lambda>r.
      act_then (with_code c (save_state w (result_of (intent_of x a) r))) (\<lambda>_. ret (Inr (v r))))))
     (\<lambda>_ _. True) (\<lambda>_. True)"
proof (rule steps_precond)
  assume "init_allowed resume (is_phase x) \<and> ia_command a = (if resume then ''resume-init'' else ''init'')"
  then show ?thesis by (intro steps_conseq [OF steps_attempt, of resume x a]) simp_all
qed simp

lemma steps_initialize:
  assumes "faithful w"
  shows "steps w (\<lambda>_. True) (inst_initialize w resume timeout) (\<lambda>_ _. True) (\<lambda>_. True)"
proof -
  have load: "steps w (\<lambda>_. True) (load_state w root) (\<lambda>(b, x). during b x) (\<lambda>_. True)" for root
  proof (rule steps_conseq)
    show "steps w (\<lambda>_. True) (load_state w root)
      (\<lambda>bx l. True \<and> (newest l = Some (snd bx) \<and> bindings_of l = [fst bx])) (\<lambda>_. True)"
      by (rule steps_fact [OF still_load_state]) (use load_state_is [OF _ assms] in \<open>auto\<close>)
  qed (auto simp: during_def)
  have prepare: "steps w L (init_prepare w root b resume)
      (\<lambda>(inputs, package, a) l. L l \<and> ia_command a = (if resume then ''resume-init'' else ''init'')) (\<lambda>_. True)" for L root b
  proof (rule steps_conseq)
    show "steps w L (init_prepare w root b resume) (\<lambda>ipa l. L l \<and>
        ia_command (snd (snd ipa)) = (if resume then ''resume-init'' else ''init'')) (\<lambda>_. True)"
      by (rule steps_fact [OF still_init_prepare]) (auto dest: init_prepare_command)
  qed auto
  show ?thesis
    unfolding inst_initialize_def Let_def
    apply (rule steps_then_still, rule still_checks still_check_that still_iask, simp)+
    apply (rule steps_then [OF load])
    apply (clarsimp split: prod.splits)
    apply (rule steps_then [OF steps_check], simp)
    apply (rule steps_then [OF prepare])
    apply (clarsimp split: prod.splits split del: if_split)
    apply (rule steps_admitted)
    done
qed

end
