(* ===== verification/InstanceProps.thy ===== *)
theory InstanceProps
  imports InstanceLog
begin

text \<open>
  What the log of an instance tells over its whole life: every operation in any order, each in its own
  world, some cut off in the middle. The properties follow from the automaton of \<open>InstanceLog\<close>.
\<close>

section \<open>Lives of an instance\<close>

datatype inst_op = Op_Register reg_options | Op_Initialize bool nat | Op_Show | Op_Preflight
  | Op_Verify reg_options node_id bool | Op_Location string | Op_Catalog nat string

definition ignoring :: "'a iact \<Rightarrow> unit iact" where
  "ignoring m = act_then m (\<lambda>_. ret (Inr ()))"

fun run_inst_op :: "iworld \<Rightarrow> inst_op \<Rightarrow> unit iact" where
  "run_inst_op w (Op_Register r) = ignoring (register_owned w r)"
| "run_inst_op w (Op_Initialize resume n) = ignoring (inst_initialize w resume n)"
| "run_inst_op w Op_Show = ignoring (inst_show w)"
| "run_inst_op w Op_Preflight = ignoring (inst_preflight w)"
| "run_inst_op w (Op_Verify r i only) = ignoring (verify_owned w r i only)"
| "run_inst_op w (Op_Location p) = check_catalog_location w p"
| "run_inst_op w (Op_Catalog n i) = ignoring (catalog_binding_sha w n i)"

text \<open>
  \<open>k\<close> fixes the codecs. Nothing removes the directory of an instance, so making it a second time
  fails; an operation that is cut off leaves the files that replay a part of its log.
\<close>

inductive life :: "iworld \<Rightarrow> inst \<Rightarrow> bool" for k where
  life_start: "life k \<lparr>it_reserved = False, it_binding = None, it_disk = [], it_clock = t, it_log = []\<rparr>"
| life_op: "life k s \<Longrightarrow> codec w = codec k \<Longrightarrow> it_reserved s \<longrightarrow> \<not> can_happen (iw_create w) \<Longrightarrow>
     run_inst_op w op s = (r, s') \<Longrightarrow> life k s'"
| life_cut: "life k s \<Longrightarrow> codec w = codec k \<Longrightarrow> it_reserved s \<longrightarrow> \<not> can_happen (iw_create w) \<Longrightarrow>
     run_inst_op w op s = (r, s') \<Longrightarrow> prefix (it_log s) (it_log c) \<Longrightarrow> prefix (it_log c) (it_log s') \<Longrightarrow>
     replays k c \<Longrightarrow> life k c"

lemma steps_ignoring: "steps w L m Q (\<lambda>_. True) \<Longrightarrow> steps w L (ignoring m) (\<lambda>_ _. True) (\<lambda>_. True)"
  unfolding ignoring_def
  by (rule steps_then [of w L m "\<lambda>_ _. True"], erule steps_conseq, simp_all, rule steps_end) (simp_all add: keeps_ret)

lemma steps_op:
  assumes "faithful w"
  shows "steps w (\<lambda>l. l = [] \<or> \<not> can_happen (iw_create w)) (run_inst_op w op) (\<lambda>_ _. True) (\<lambda>_. True)"
proof -
  have view: "still m \<Longrightarrow> steps w L m (\<lambda>_. L) (\<lambda>_. True)" for L and m :: "'b iact"
    by (erule steps_still) simp
  have init: "steps w L (inst_initialize w resume n) (\<lambda>_ _. True) (\<lambda>_. True)" for L resume n
    using steps_initialize [OF assms] by (rule steps_conseq) simp_all
  show ?thesis
  proof (cases op)
    case (Op_Location p)
    show ?thesis unfolding Op_Location run_inst_op.simps by (rule steps_end) (simp_all add: still_views)
  qed (simp_all add: steps_ignoring [OF steps_register] steps_ignoring [OF init] steps_ignoring [OF steps_still] still_views)
qed

lemma codec_faithful: "codec w = codec k \<Longrightarrow> faithful w \<longleftrightarrow> faithful k"
  by (simp add: codec_def faithful_def)

lemma op_sound:
  assumes "sound k s" "faithful k" "codec w = codec k" "it_reserved s \<longrightarrow> \<not> can_happen (iw_create w)"
    "run_inst_op w op s = (r, s')"
  shows "sound k s'"
proof -
  have r: "it_reserved s \<longleftrightarrow> it_log s \<noteq> []" using assms(1) by (simp add: sound_def replays_def)
  have "sound w s" using sound_codec [OF assms(3), of s] assms(1) by blast
  with r assms(4) have p: "on w (\<lambda>l. l = [] \<or> \<not> can_happen (iw_create w)) s" by (auto simp: on_def)
  have "faithful w" using codec_faithful [OF assms(3)] assms(2) by blast
  from tripleD [OF steps_op [OF this, of op, unfolded steps_def] p assms(5)]
  have "sound w s'" by (simp add: on_def split: sum.splits)
  then show ?thesis using sound_codec [OF assms(3), of s'] by blast
qed

lemma life_sound: "life k s \<Longrightarrow> faithful k \<Longrightarrow> sound k s"
proof (induction rule: life.induct)
  case (life_start t)
  show ?case by (simp add: sound_def replays_def lawful_empty)
next
  case (life_op s w op r s')
  show ?case by (rule op_sound [OF life_op.IH [OF life_op.prems] life_op.prems life_op.hyps(2-4)])
next
  case (life_cut s w op r s' c)
  have "sound k s'" by (rule op_sound [OF life_cut.IH [OF life_cut.prems] life_cut.prems life_cut.hyps(2-4)])
  then have "lawful k (it_log c)" using life_cut.hyps(6) lawful_prefix unfolding sound_def by blast
  with life_cut.hyps(7) show ?case by (simp add: sound_def)
qed

lemma life_lawful: "life k s \<Longrightarrow> faithful k \<Longrightarrow> lawful k (it_log s)"
  using life_sound by (auto simp: sound_def)

section \<open>What the automaton excludes\<close>

definition starts_fresh :: "inst_event \<Rightarrow> bool" where
  "starts_fresh e \<longleftrightarrow> (\<exists>a. e = Spawned a \<and> ia_command a = ''init'')"

definition acts_outside :: "inst_event \<Rightarrow> bool" where
  "acts_outside e \<longleftrightarrow> e = Prepared_Data \<or> (\<exists>a. e = Spawned a)"

lemma phase_result [simp]: "is_phase (result_of x (Inl e)) = Unknown" "is_phase (result_of x (Inr g)) = Initialized"
  by (simp_all add: result_of_def)

lemma phase_registered [simp]: "is_phase (registered_state w b) = Registered"
  by (simp add: registered_state_def)

lemma intends_newest: "intends l a \<Longrightarrow> \<exists>x. newest l = Some x \<and> is_phase x = InitIntent \<and> is_attempt x = Some a"
  unfolding intends_def using newest_snoc(1) by (metis append_butlast_last_id)


text \<open>Before the first intent nothing has touched the data directory.\<close>

lemma registered_untouched:
  "lawful w l \<Longrightarrow> newest l = None \<or> (\<exists>x. newest l = Some x \<and> is_phase x = Registered) \<Longrightarrow> \<forall>e\<in>set l. \<not> acts_outside e"
proof (induction rule: lawful.induct)
  case (lawful_snoc l e)
  show ?case
  proof (cases e)
    case (Saved y)
    then have "is_phase y = Registered" using lawful_snoc.prems by simp
    then show ?thesis using lawful_snoc.hyps(2) Saved by (auto simp: acts_outside_def)
  next
    case Prepared_Data
    then show ?thesis using lawful_snoc.hyps(2) lawful_snoc.prems by (auto dest!: intends_newest)
  next
    case (Spawned a)
    then show ?thesis
      using lawful_snoc.hyps(2) lawful_snoc.prems by (auto dest!: intends_newest split: if_splits)
  qed (use lawful_snoc in \<open>auto simp: acts_outside_def\<close>)
qed simp

lemma fresh_intent_untouched:
  assumes "lawful w l" "intends l a" "ia_command a = ''init''"
  shows "\<forall>e\<in>set l. \<not> acts_outside e"
proof -
  from assms(2) obtain k y where l: "l = k @ [Saved y]" "is_phase y = InitIntent" "is_attempt y = Some a"
    unfolding intends_def by (metis append_butlast_last_id)
  then have k: "lawful w k" "may_follow w k (Saved y)" using assms(1) by (simp_all add: lawful_iff)
  from k(2) l(2,3) assms(3) obtain x where "newest k = Some x" "is_phase x = Registered"
    by (auto simp: attempt_follows_def)
  with registered_untouched [OF k(1)] l(1) show ?thesis by (auto simp: acts_outside_def)
qed

lemma fresh_spawns: "lawful w l \<Longrightarrow> length (filter starts_fresh l) \<le> 1"
proof (induction rule: lawful.induct)
  case (lawful_snoc l e)
  show ?case
  proof (cases "starts_fresh e")
    case True
    then obtain a where a: "e = Spawned a" "ia_command a = ''init''" by (auto simp: starts_fresh_def)
    then obtain k where k: "l = k @ [Prepared_Data]" "intends k a" using lawful_snoc.hyps(2) by auto
    have "\<forall>e\<in>set k. \<not> acts_outside e"
      using fresh_intent_untouched [OF _ k(2) a(2)] lawful_snoc.hyps(1) k(1) lawful_take by blast
    then have "filter starts_fresh l = []" by (auto simp: k(1) starts_fresh_def acts_outside_def filter_empty_conv)
    then show ?thesis by simp
  qed (use lawful_snoc in simp)
qed simp

text \<open>An initialised state ends the log, and rests on the run just before it.\<close>

lemma initialized_ends:
  assumes "lawful w (l @ Saved x # l')" "is_phase x = Initialized"
  shows "l' = []"
proof (cases l')
  case (Cons e m)
  then have "may_follow w (l @ [Saved x]) e" using assms(1) lawful_follows [of w "l @ [Saved x]" e m] by simp
  moreover have "\<not> intends (l @ [Saved x]) a" for a using assms(2) by (simp add: intends_def)
  moreover have "newest (l @ [Saved x]) = Some x" by simp
  ultimately show ?thesis using assms(2) by (cases e) (auto simp: attempt_follows_def Cons_eq_append_conv split: if_splits)
qed

lemma spawned_attempt:
  "may_follow w l (Spawned a) \<Longrightarrow> \<exists>x. newest l = Some x \<and> is_phase x = InitIntent \<and> is_attempt x = Some a"
  by (auto dest!: intends_newest split: if_splits)

lemma bindings_wrote: "b \<in> set (bindings_of l) \<Longrightarrow> Wrote_Binding b \<in> set l"
  by (induction l rule: rev_induct) (auto, case_tac x, auto)

lemma initialized_evidence:
  assumes "lawful w (l @ [Saved x])" "is_phase x = Initialized"
  shows "\<exists>l0 a v g b pid. l = l0 @ [Spawned a, Verified v g] \<and> is_attempt x = Some a \<and> is_genesis x = Some g \<and>
     accepts_run w v g \<and> re_expected v = init_expectation b a pid \<and> Wrote_Binding b \<in> set l"
proof -
  have "may_follow w l (Saved x)" "lawful w l" using assms(1) by (simp_all add: lawful_iff)
  with assms(2) obtain y v g where y: "newest l = Some y" "l \<noteq> []" "last l = Verified v g" "x = result_of y (Inr g)" by auto
  then obtain l1 where l1: "l = l1 @ [Verified v g]" by (metis append_butlast_last_id)
  with \<open>lawful w l\<close> have "lawful w l1" "may_follow w l1 (Verified v g)" by (simp_all add: lawful_iff)
  then obtain b a pid where a: "accepts_run w v g" "l1 \<noteq> []" "last l1 = Spawned a" "bindings_of l1 = [b]"
    "re_expected v = init_expectation b a pid" by auto
  then obtain l0 where l0: "l1 = l0 @ [Spawned a]" by (metis append_butlast_last_id)
  have "may_follow w l0 (Spawned a)" using \<open>lawful w l1\<close> l0 by (simp add: lawful_iff)
  from spawned_attempt [OF this] have "is_attempt y = Some a" using y(1) l1 l0 by (auto simp: newest_def split: if_splits)
  moreover have "Wrote_Binding b \<in> set l" using bindings_wrote [of b l1] a(4) l1 by simp
  ultimately show ?thesis using a l0 l1 y(4)
    by (intro exI [of _ l0] exI [of _ a] exI [of _ v] exI [of _ g] exI [of _ b] exI [of _ pid]) (simp add: result_of_def)
qed

section \<open>Properties\<close>

text \<open>Everything saved names the one binding.\<close>

definition belongs :: "iworld \<Rightarrow> binding \<Rightarrow> istate \<Rightarrow> bool" where
  "belongs k b x \<longleftrightarrow> is_binding_sha x = iw_sha k (iw_print_binding k b) \<and> is_instance_id x = bn_instance_id b"

lemma belongs_intro [simp]:
  "belongs k b (registered_state k b)" "belongs k b (intent_of x a) = belongs k b x" "belongs k b (result_of x r) = belongs k b x"
  by (auto simp: belongs_def registered_state_def intent_of_def result_of_def split: sum.splits)

lemma newest_in: "newest l = Some x \<Longrightarrow> x \<in> set (states_of l)"
  by (auto simp: newest_def split: if_splits)

lemma saved_states: "Saved x \<in> set l \<longleftrightarrow> x \<in> set (states_of l)"
  by (induction l rule: rev_induct) (auto, case_tac xa, auto)

lemma lawful_belongs: "lawful k l \<Longrightarrow> states_of l \<noteq> [] \<Longrightarrow> \<exists>b. bindings_of l = [b] \<and> (\<forall>x\<in>set (states_of l). belongs k b x)"
proof (induction rule: lawful.induct)
  case (lawful_snoc l e)
  show ?case
  proof (cases "states_of l = []")
    case True
    then obtain y where y: "e = Saved y" using lawful_snoc.prems by (cases e) auto
    have "newest l = None" using True by (simp add: newest_def)
    then obtain b where "l = [Reserved, Wrote_Binding b]" "y = registered_state k b"
      using lawful_snoc.hyps(2) y by auto
    then show ?thesis using y by simp
  next
    case False
    then obtain b where b: "bindings_of l = [b]" "\<forall>x\<in>set (states_of l). belongs k b x" using lawful_snoc.IH by blast
    show ?thesis
    proof (cases e)
      case (Saved y)
      then have "belongs k b y" using lawful_snoc.hyps(2) b newest_in by auto
      then show ?thesis using b Saved by simp
    qed (use lawful_snoc.hyps(2) b in auto)
  qed
qed simp

text \<open>C36. In every life of an instance, cut-offs included, all states that were ever durable carry the
  hash and the instance id of the one binding file that is on disk.\<close>

theorem states_belong_to_binding:
  assumes "life k s" "faithful k" "Saved x \<in> set (it_log s)"
  shows "\<exists>b. it_binding s = Some (iw_print_binding k b) \<and> is_binding_sha x = iw_sha k (iw_print_binding k b) \<and>
     is_instance_id x = bn_instance_id b"
proof -
  have s: "lawful k (it_log s)" "replays k s" using life_sound [OF assms(1,2)] by (simp_all add: sound_def)
  have x: "x \<in> set (states_of (it_log s))" using assms(3) by (simp add: saved_states)
  then have "states_of (it_log s) \<noteq> []" by auto
  with lawful_belongs [OF s(1)] x obtain b where "bindings_of (it_log s) = [b]" "belongs k b x" by blast
  with s(2) show ?thesis by (auto simp: replays_def belongs_def)
qed

text \<open>C33. The engine is started only for an attempt that is already durable: the newest saved state is the
  intent that names this attempt, and nothing but preparing the data directory comes in between.\<close>

theorem spawn_follows_durable_intent:
  assumes "life k s" "faithful k" "it_log s = l @ Spawned a # l'"
  shows "\<exists>l0 x. (l = l0 @ [Saved x] \<or> l = l0 @ [Saved x, Prepared_Data]) \<and> is_phase x = InitIntent \<and>
     is_attempt x = Some a"
proof -
  have "lawful k (l @ Spawned a # l')" using life_lawful [OF assms(1,2)] assms(3) by simp
  from lawful_follows [OF this]
  have "intends l a \<or> (\<exists>k. l = k @ [Prepared_Data] \<and> intends k a)" by (auto split: if_splits)
  then show ?thesis unfolding intends_def by (metis append_butlast_last_id append.assoc append_Cons append_Nil)
qed

text \<open>C34. The command \<open>init\<close> is given to the engine at most once in the life of an instance, whatever failed or
  was cut off in between.\<close>

theorem fresh_start_at_most_once:
  assumes "life k s" "faithful k"
  shows "length (filter starts_fresh (it_log s)) \<le> 1"
  by (rule fresh_spawns [OF life_lawful [OF assms]])

text \<open>C35. A state becomes durable as initialised only right after a run whose output, report and instance record
  were accepted for the attempt and the binding of this instance, and it is the last event of all.\<close>

theorem initialized_only_by_evidence:
  assumes "life k s" "faithful k" "it_log s = l @ Saved x # l'" "is_phase x = Initialized"
  shows "l' = [] \<and> (\<exists>l0 a v g b pid. l = l0 @ [Spawned a, Verified v g] \<and> is_attempt x = Some a \<and> is_genesis x = Some g \<and>
     accepts_run k v g \<and> re_expected v = init_expectation b a pid \<and> Wrote_Binding b \<in> set l)"
proof -
  have *: "lawful k (l @ Saved x # l')" using life_lawful [OF assms(1,2)] assms(3) by simp
  have "lawful k (l @ [Saved x])" using lawful_take [of k "l @ [Saved x]" l'] * by simp
  from initialized_ends [OF * assms(4)] initialized_evidence [OF this assms(4)] show ?thesis by blast
qed

end
