(* ===== verification/InstanceDemo.thy ===== *)
theory InstanceDemo
  imports InstanceProps
begin

text \<open>
  A concrete life of an instance, from its registration to the verified genesis, evaluated on the
  definitions of \<open>Instance\<close>; the properties of \<open>InstanceProps\<close> are applied to it.
\<close>

section \<open>A concrete life\<close>

text \<open>An instance at \<open>/n\<close> with its data at \<open>/d\<close>: registered, then initialised by a run that reports success.\<close>

definition lived_identity :: build_identity where
  "lived_identity = the (identity_of_json run_build)"

definition lived_lock :: json where
  "lived_lock = JObj [(''schemaVersion'', JInt 1), (''jarSha256'', JStr run_hash), (''jarSizeBytes'', JInt 9),
     (''javaSha256'', JStr run_hash), (''expected'', run_build)]"

definition lived_manifest :: manifest where
  "lived_manifest = \<lparr>schema_version = 1, kind = ''k'',
       product = \<lparr>product_name = ''p'', product_version = ''1'', product_revision = ''r''\<rparr>,
       channel = ''c'', platform = \<lparr>platform_os = ''darwin'', platform_arch = ''arm64'', platform_libc = [],
         platform_min_glibc = [], platform_java_major = 21, platform_backend = ''rocksdb''\<rparr>,
       engine = \<lparr>engine_revision = replicate 40 (CHR ''b''), engine_jar_sha256 = run_hash, engine_contract_status = ''PROPOSED'',
         engine_contract_revision = run_hash\<rparr>,
       runtime = \<lparr>runtime_vendor = ''v'', runtime_version = ''1'', runtime_java_sha256 = run_hash\<rparr>, files = []\<rparr>"

definition lived_report :: report where
  "lived_report = \<lparr>report_manifest = lived_manifest, archive_sha256 = run_hash, manifest_sha256 = run_hash,
     authenticity = ''u'', files_verified = 0, bytes_verified = 0\<rparr>"

definition lived_cold :: cold_result where
  "lived_cold = \<lparr>cold_command = ''c'', cold_status = ''s'', cold_reason = ''r'', cold_contract_status = ''PROPOSED'',
     cold_backend = ''rocksdb'', cold_chain_fingerprint = run_hash, cold_node_identity = ''INSTANT'', cold_checks = []\<rparr>"

definition lived_native :: native_input where
  "lived_native = \<lparr>nv_config = ''/i/c'', nv_chain = ''/i/g'', nv_references = [], nv_backend = ''rocksdb'', nv_data = ''/d''\<rparr>"

definition lived_request :: reg_options where
  "lived_request = \<lparr>ro_instance = ''/n'', ro_package = ''/p'', ro_archive = ''/i/a'', ro_public_key = None,
     ro_unsigned = True, ro_product = ''/i/p'', ro_native = ''/i/c'', ro_lock = ''/i/l''\<rparr>"

definition lived_pin :: "string \<Rightarrow> bpin" where
  "lived_pin p = \<lparr>bp_path = p, bp_sha = run_hash\<rparr>"

definition lived_binding :: binding where
  "lived_binding = \<lparr>bn_schema = 2, bn_instance_id = ''one'', bn_package = ''/p'', bn_archive = ''/n/trust/package.tar.gz'',
     bn_public_key = None, bn_unsigned = True, bn_product = ''/i/p'', bn_native = ''/i/c'',
     bn_lock = ''/n/trust/engine-lock.json'', bn_archive_sha = run_hash, bn_manifest_sha = run_hash,
     bn_identity = lived_identity, bn_backend = ''rocksdb'', bn_chain_fingerprint = run_hash,
     bn_node_identity = ''INSTANT'', bn_data_directory = ''/d'',
     bn_pins = [lived_pin ''/i/p'', lived_pin ''/n/trust/engine-lock.json'', lived_pin ''/i/c'', lived_pin ''/i/g''],
     bn_supply = Some \<lparr>pv_archive = lived_pin ''/i/a'', pv_lock = lived_pin ''/i/l'', pv_public_key = None\<rparr>\<rparr>"

definition lived_pin_json :: "string \<Rightarrow> json" where
  "lived_pin_json p = JObj [(''path'', JStr p), (''sha256'', JStr run_hash)]"

definition lived_binding_json :: json where
  "lived_binding_json = JObj [(''schemaVersion'', JInt 2), (''instanceId'', JStr ''one''), (''package'', JStr ''/p''),
     (''archive'', JStr ''/n/trust/package.tar.gz''), (''allowUnsignedDevelopment'', JBool True),
     (''product'', JStr ''/i/p''), (''native'', JStr ''/i/c''), (''lock'', JStr ''/n/trust/engine-lock.json''),
     (''archiveSha256'', JStr run_hash), (''manifestSha256'', JStr run_hash), (''identity'', run_build),
     (''backend'', JStr ''rocksdb''), (''chainFingerprint'', JStr run_hash), (''nodeIdentity'', JStr ''INSTANT''),
     (''dataDirectory'', JStr ''/d''),
     (''pins'', JArr [lived_pin_json ''/i/p'', lived_pin_json ''/n/trust/engine-lock.json'', lived_pin_json ''/i/c'', lived_pin_json ''/i/g'']),
     (''supply'', JObj [(''archive'', lived_pin_json ''/i/a''), (''lock'', lived_pin_json ''/i/l'')])]"

definition lived_attempt :: init_attempt where
  "lived_attempt = \<lparr>ia_id = ''init-1'', ia_command = ''init''\<rparr>"

definition lived_state :: "nat \<Rightarrow> istate" where
  "lived_state n = [\<lparr>is_schema = 1, is_instance_id = ''one'', is_binding_sha = run_hash, is_phase = Registered,
       is_attempt = None, is_genesis = None, is_reason = ''REGISTERED_COLD_CHECKED''\<rparr>,
     \<lparr>is_schema = 1, is_instance_id = ''one'', is_binding_sha = run_hash, is_phase = InitIntent,
       is_attempt = Some lived_attempt, is_genesis = None, is_reason = ''INITIALIZATION_ATTEMPT_UNRESOLVED''\<rparr>,
     \<lparr>is_schema = 1, is_instance_id = ''one'', is_binding_sha = run_hash, is_phase = Initialized,
       is_attempt = Some lived_attempt, is_genesis = Some (''0x'' @ run_hash), is_reason = ''INITIALIZATION_VERIFIED''\<rparr>] ! n"

text \<open>A codec for exactly these documents.\<close>

definition lived_texts :: "(json \<times> bytes) list" where
  "lived_texts = [(json_of_istate (lived_state 0), ''t''), (json_of_istate (lived_state 1), ''tn''),
     (json_of_istate (lived_state 2), ''tnn'')]"

definition lived_print :: "json \<Rightarrow> bytes" where
  "lived_print v = (case map_of lived_texts v of None \<Rightarrow> [] | Some t \<Rightarrow> t)"

definition lived_parse :: "bytes \<Rightarrow> json option" where
  "lived_parse raw = (case init_parse raw of Some v \<Rightarrow> Some v
     | None \<Rightarrow> map_of ([(''L'', lived_lock), (''B'', lived_binding_json)] @ map (\<lambda>(v, t). (t, v)) lived_texts) raw)"

definition lived_fs :: fs where
  "lived_fs ns = (if ns = [] then Directory (1, 1) else if ns = [''i''] then Directory (1, 3)
     else if ns = [''p''] then Directory (1, 4) else Missing)"

definition lived_read :: "string \<Rightarrow> bytes" where
  "lived_read p =
     (if p \<in> {''/i/l'', ''/n/trust/engine-lock.json''} then ''L''
      else if p = ''/n/operations/init-1/report.jsonl'' then concat (map (\<lambda>l. l @ [newline]) [''1'', ''2'', ''3''])
      else if p = ''/d/engine-instance.json'' then ''j'' else ''x'')"

definition lived :: "(nat \<Rightarrow> bool \<times> unit result) \<Rightarrow> iworld" where
  "lived c = \<lparr>iw_cwd = None, iw_eqv = id, iw_sha = (\<lambda>_. run_hash), iw_parse = lived_parse, iw_print = lived_print,
     iw_print_binding = (\<lambda>b. if b = lived_binding then ''B'' else []), iw_host = True, iw_fs = (\<lambda>_. lived_fs),
     iw_exists = (\<lambda>_ _. False), iw_check_path = (\<lambda>_ _ _. Inr ()), iw_is_dir = (\<lambda>_ _. Some True),
     iw_is_file = (\<lambda>_ _. Some True), iw_data = (\<lambda>_ _. No_Data), iw_read = (\<lambda>_ p _ _. Inr (lived_read p)),
     iw_recheck = (\<lambda>_. Inr ()), iw_native = (\<lambda>_ _. Inr lived_native), iw_product = (\<lambda>_ _ _. Inr ()),
     iw_product_id = (\<lambda>_ _. Inr (Some ''one'')), iw_verify = (\<lambda>_ _ _ _. Inr lived_report),
     iw_installed = (\<lambda>_ _ _. Inr ()),
     iw_preflight = (\<lambda>_ _. Inr \<lparr>pp_binding = ''MATCHED'', pp_instance_id = ''one'',
        pp_engine = Some (lived_identity, Some lived_cold)\<rparr>),
     iw_open = (\<lambda>_. Inr ''/n''), iw_owner = (\<lambda>_ _. Inr ()), iw_lock = (\<lambda>_. Inr ()), iw_create = c,
     iw_trust = (\<lambda>_ _. Inr ()), iw_retain = (\<lambda>_ _. Inr ()), iw_write_binding = (\<lambda>_. (True, Inr ())),
     iw_read_binding = (\<lambda>_. Inr ()), iw_create_journal = (\<lambda>_. Inr ()), iw_journal = (\<lambda>_. Inr ()),
     iw_capacity = (\<lambda>_. Inr ()), iw_save = (\<lambda>_. (True, Inr ())), iw_attempt_id = (\<lambda>_. Inr ''init-1''),
     iw_workspace = (\<lambda>_ _. Inr ()), iw_snapshot = (\<lambda>_ _. Inr ()), iw_child_lock = (\<lambda>_. Inr ()),
     iw_prepare_data = (\<lambda>_ _. Inr ()),
     iw_run = (\<lambda>_. Inr \<lparr>co_pid = 7, co_exit = 0, co_stdout = ''o''\<rparr>), iw_evidence = (\<lambda>_. Inr ())\<rparr>"

text \<open>Before there is a directory, and once there is one.\<close>

abbreviation lived_world :: iworld where
  "lived_world \<equiv> lived (\<lambda>_. (True, Inr ()))"

abbreviation lived_later :: iworld where
  "lived_later \<equiv> lived (\<lambda>_. (False, fail ''INSTANCE_EXISTS''))"

definition lived_evidence :: run_evidence where
  "lived_evidence = \<lparr>re_stdout = ''o'', re_report = concat (map (\<lambda>l. l @ [newline]) [''1'', ''2'', ''3'']),
     re_instance = ''j'', re_expected = init_expectation lived_binding lived_attempt 7\<rparr>"

definition lived_log :: "inst_event list" where
  "lived_log = [Reserved, Wrote_Binding lived_binding, Saved (lived_state 0), Saved (lived_state 1), Prepared_Data,
     Spawned lived_attempt, Verified lived_evidence (''0x'' @ run_hash), Saved (lived_state 2)]"

lemma lived_parsed:
  "lived_parse ''t'' = Some (json_of_istate (lived_state 0))" "lived_parse ''tn'' = Some (json_of_istate (lived_state 1))"
  "lived_parse ''tnn'' = Some (json_of_istate (lived_state 2))" "lived_parse ''B'' = Some lived_binding_json"
  "lived_parse ''L'' = Some lived_lock"
  by (simp_all add: lived_parse_def init_parse_def run_rows_json_def lived_texts_def del: One_nat_def)

lemma lived_admitted:
  "admits engine_seed 0 (json_of_istate (lived_state 0))" "admits engine_seed 0 (json_of_istate (lived_state 1))"
  "admits engine_seed 0 (json_of_istate (lived_state 2))" "admits engine_seed 0 lived_binding_json"
  "admits engine_seed 0 lived_lock"
  by code_simp+

lemma lived_binding_read: "binding_of_json lived_binding_json = Some lived_binding"
  by code_simp

lemma lived_state_schema: "n \<in> {0, 1, 2} \<Longrightarrow> is_schema (lived_state n) = 1"
  by (auto simp: lived_state_def)

lemma lived_state_inject:
  "m \<in> {0, 1, 2} \<Longrightarrow> n \<in> {0, 1, 2} \<Longrightarrow> json_of_istate (lived_state m) = json_of_istate (lived_state n) \<longleftrightarrow> m = n"
proof (rule iffI)
  assume mn: "m \<in> {0, 1, 2}" "n \<in> {0, 1, 2}" "json_of_istate (lived_state m) = json_of_istate (lived_state n)"
  then have "is_phase (lived_state m) = is_phase (lived_state n)"
    using json_of_istate_inject [OF mn(3)] lived_state_schema [OF mn(2)] by simp
  then show "m = n" using mn(1,2) by (auto simp: lived_state_def)
qed simp

lemma lived_printed:
  "lived_print (json_of_istate (lived_state 0)) = ''t''" "lived_print (json_of_istate (lived_state 1)) = ''tn''"
  "lived_print (json_of_istate (lived_state 2)) = ''tnn''"
  by (simp_all add: lived_print_def lived_texts_def lived_state_inject del: One_nat_def)

lemma lived_decodes:
  "engine_decode lived_parse istate_of_json ''t'' = Some (lived_state 0)"
  "engine_decode lived_parse istate_of_json ''tn'' = Some (lived_state 1)"
  "engine_decode lived_parse istate_of_json ''tnn'' = Some (lived_state 2)"
  "engine_decode lived_parse binding_of_json ''B'' = Some lived_binding"
  by (simp_all add: engine_decode_iff lived_parsed lived_admitted lived_binding_read istate_roundtrip lived_state_schema
      del: One_nat_def)

lemma lived_faithful: "faithful (lived c)"
  unfolding faithful_def
proof (intro conjI allI impI)
  fix x y assume "engine_decode (iw_parse (lived c)) istate_of_json (iw_print (lived c) (json_of_istate x)) = Some y"
  then have d: "engine_decode lived_parse istate_of_json (lived_print (json_of_istate x)) = Some y"
    by (simp add: lived_def)
  then have "lived_print (json_of_istate x) \<noteq> []" by (auto simp: engine_decode_def)
  then obtain n where n: "n \<in> {0, 1, 2}" "json_of_istate x = json_of_istate (lived_state n)"
    by (auto simp: lived_print_def lived_texts_def split: option.splits if_splits)
  have "is_schema (lived_state n) \<le> u32_max" using n(1) by (auto simp: lived_state_def)
  then have x: "x = lived_state n" using n(2) json_of_istate_inject by blast
  show "y = x" using d n(1) lived_decodes lived_printed x by (auto simp del: One_nat_def)
next
  fix b b' assume "engine_decode (iw_parse (lived c)) binding_of_json (iw_print_binding (lived c) b) = Some b'"
  then show "b' = b"
    using lived_decodes(4) by (auto simp: lived_def engine_decode_def split: if_splits)
qed

text \<open>Evaluation, a step at a time: what follows an operation waits for its result.\<close>

lemma act_then_lazy: "act_then m f s = act_then m f s"
  by (rule refl)

lemma lived_answers:
  "iw_cwd (lived c) = None" "iw_eqv (lived c) = id" "iw_sha (lived c) raw = run_hash"
  "iw_parse (lived c) = lived_parse" "iw_print (lived c) = lived_print" "iw_host (lived c)"
  "iw_fs (lived c) t = lived_fs" "\<not> iw_exists (lived c) t p" "iw_check_path (lived c) t p x = Inr ()"
  "iw_is_dir (lived c) t p = Some True" "iw_data (lived c) t p = No_Data"
  "iw_read (lived c) t p n x = Inr (lived_read p)" "iw_recheck (lived c) t = Inr ()"
  "iw_native (lived c) t p = Inr lived_native" "iw_product (lived c) t p nv = Inr ()"
  "iw_verify (lived c) t p k u = Inr lived_report" "iw_installed (lived c) t p r = Inr ()"
  "iw_preflight (lived c) t b = Inr \<lparr>pp_binding = ''MATCHED'', pp_instance_id = ''one'',
        pp_engine = Some (lived_identity, Some lived_cold)\<rparr>"
  "iw_open (lived c) t = Inr ''/n''" "iw_lock (lived c) t = Inr ()" "iw_create (lived c) = c"
  "iw_trust (lived c) t b = Inr ()" "iw_retain (lived c) t v = Inr ()" "iw_write_binding (lived c) t = (True, Inr ())"
  "iw_read_binding (lived c) t = Inr ()" "iw_create_journal (lived c) t = Inr ()" "iw_journal (lived c) t = Inr ()"
  "iw_capacity (lived c) t = Inr ()" "iw_save (lived c) t = (True, Inr ())"
  "iw_attempt_id (lived c) t = Inr ''init-1''" "iw_workspace (lived c) t i = Inr ()"
  "iw_snapshot (lived c) t l = Inr ()" "iw_child_lock (lived c) t = Inr ()" "iw_prepare_data (lived c) t p = Inr ()"
  "iw_run (lived c) t = Inr \<lparr>co_pid = 7, co_exit = 0, co_stdout = ''o''\<rparr>" "iw_evidence (lived c) t = Inr ()"
  "iw_print_binding (lived c) lived_binding = ''B''"
  by (simp_all add: lived_def)

lemma lived_paths:
  "file_absolute None ''/n'' = Inr ''/n''" "file_absolute None ''/p'' = Inr ''/p''" "file_absolute None ''/i/a'' = Inr ''/i/a''"
  "file_absolute None ''/i/p'' = Inr ''/i/p''" "file_absolute None ''/i/c'' = Inr ''/i/c''" "file_absolute None ''/i/l'' = Inr ''/i/l''"
  "file_absolute None ''/i/g'' = Inr ''/i/g''"
  "file_absolute None ''/n/trust/engine-lock.json'' = Inr ''/n/trust/engine-lock.json''"
  "file_absolute None ''/d/engine-instance.json'' = Inr ''/d/engine-instance.json''"
  "file_absolute None ''/n/operations/init-1/report.jsonl'' = Inr ''/n/operations/init-1/report.jsonl''"
  by code_simp+

definition lived_b0 :: binding where
  "lived_b0 = lived_binding\<lparr>bn_schema := 1, bn_instance_id := [], bn_archive := ''/i/a'', bn_lock := ''/i/l'',
     bn_archive_sha := [], bn_manifest_sha := [], bn_chain_fingerprint := [], bn_node_identity := [],
     bn_pins := map lived_pin [''/i/p'', ''/i/l'', ''/i/c'', ''/i/g''], bn_supply := None\<rparr>"

lemma lived_disjoint_b0: "binding_disjoint None id lived_fs ''/n'' lived_b0 = Inr ()"
  by code_simp

lemma lived_disjoint_binding: "binding_disjoint None id lived_fs ''/n'' lived_binding = Inr ()"
  by code_simp

lemma lived_lock_read: "read_lock lived_parse ''L'' = Inr (the (lock_of_json lived_lock))"
proof -
  have "validate_lock (the (lock_of_json lived_lock)) = Inr ()" "\<not> Option.is_none (lock_of_json lived_lock)"
    by code_simp+
  moreover from this(2) obtain l where "lock_of_json lived_lock = Some l" by (auto simp: Option.is_none_def)
  ultimately show ?thesis by (simp add: read_lock_def ok_or_def engine_decode_iff [THEN iffD2] lived_parsed lived_admitted)
qed

lemma lived_first_pins:
  "foldl (add_pin (lived c)) [] [(''/i/p'', ''x''), (''/i/l'', ''L''), (''/i/c'', ''x''), (''/i/g'', ''x'')] =
     map lived_pin [''/i/p'', ''/i/l'', ''/i/c'', ''/i/g'']"
proof -
  have n: "\<not> same_name ''/i/p'' ''/i/l''" "\<not> same_name ''/i/p'' ''/i/c''" "\<not> same_name ''/i/p'' ''/i/g''"
    "\<not> same_name ''/i/l'' ''/i/c''" "\<not> same_name ''/i/l'' ''/i/g''" "\<not> same_name ''/i/c'' ''/i/g''"
    by code_simp+
  show ?thesis by (simp add: add_pin_def n lived_answers lived_pin_def)
qed

lemmas lived_steps = act_then_def ret_def with_state_def check_that_def recheck_def read_input_def
  outcome_def require_host_def ok_or_def ensure_def optional_absolute_def option_list_def

lemma lived_read_values:
  "lived_read ''/i/l'' = ''L''" "lived_read ''/n/trust/engine-lock.json'' = ''L''" "lived_read ''/i/p'' = ''x''"
  "lived_read ''/i/c'' = ''x''" "lived_read ''/i/g'' = ''x''" "lived_read ''/d/engine-instance.json'' = ''j''"
  by (simp_all add: lived_read_def)

abbreviation lived_at :: "bool \<Rightarrow> bytes option \<Rightarrow> bytes list \<Rightarrow> inst_event list \<Rightarrow> nat \<Rightarrow> inst" where
  "lived_at r b d l t \<equiv> \<lparr>it_reserved = r, it_binding = b, it_disk = d, it_clock = t, it_log = l\<rparr>"

lemma lived_iask: "iask q (lived_at r b d l t) = (q t, lived_at r b d l (Suc t))"
  by (simp add: iask_def)

lemma lived_native_simps:
  "nv_config lived_native = ''/i/c''" "nv_chain lived_native = ''/i/g''" "nv_references lived_native = []"
  "nv_backend lived_native = ''rocksdb''" "nv_data lived_native = ''/d''"
  by (simp_all add: lived_native_def)

lemma lived_request_simps:
  "ro_instance lived_request = ''/n''" "ro_package lived_request = ''/p''" "ro_archive lived_request = ''/i/a''"
  "ro_public_key lived_request = None" "ro_unsigned lived_request" "ro_product lived_request = ''/i/p''"
  "ro_native lived_request = ''/i/c''" "ro_lock lived_request = ''/i/l''"
  by (simp_all add: lived_request_def)

lemmas lived_eval = lived_steps lived_iask lived_answers lived_paths lived_read_values lived_native_simps lived_request_simps

lemma lived_disjoint: "b = lived_b0 \<Longrightarrow> binding_disjoint None id lived_fs ''/n'' b = Inr ()"
  using lived_disjoint_b0 by simp

lemma lived_identity_simps: "lock_expected (the (lock_of_json lived_lock)) = lived_identity"
  by code_simp

lemma lived_b0_fields: "lived_b0 = \<lparr>bn_schema = 1, bn_instance_id = [], bn_package = ''/p'', bn_archive = ''/i/a'',
     bn_public_key = None, bn_unsigned = True, bn_product = ''/i/p'', bn_native = ''/i/c'', bn_lock = ''/i/l'',
     bn_archive_sha = [], bn_manifest_sha = [], bn_identity = lived_identity, bn_backend = ''rocksdb'',
     bn_chain_fingerprint = [], bn_node_identity = [], bn_data_directory = ''/d'',
     bn_pins = map lived_pin [''/i/p'', ''/i/l'', ''/i/c'', ''/i/g''], bn_supply = None\<rparr>"
  by (simp add: lived_b0_def lived_binding_def)

lemma lived_registration:
  "registration_inputs (lived c) lived_request (lived_at r b d l t) =
     (Inr (lived_b0, lived_native, [(''/i/p'', ''x''), (''/i/l'', ''L''), (''/i/c'', ''x''), (''/i/g'', ''x'')]), lived_at r b d l (t + 6))"
  by (simp add: registration_inputs_def lived_eval lived_lock_read lived_first_pins lived_disjoint lived_identity_simps Let_def lived_b0_fields cong: act_then_lazy
      del: foldl_Cons foldl.simps list.map)
lemma lived_lock_fields:
  "lock_jar_sha256 (the (lock_of_json lived_lock)) = run_hash" "lock_java_sha256 (the (lock_of_json lived_lock)) = run_hash"
  "source_commit (source lived_identity) = replicate 40 (CHR ''b'')" "contract_fingerprint (contract lived_identity) = run_hash"
  by code_simp+

lemma lived_report_fields:
  "archive_sha256 lived_report = run_hash" "manifest_sha256 lived_report = run_hash"
  "engine_jar_sha256 (engine (report_manifest lived_report)) = run_hash"
  "runtime_java_sha256 (runtime (report_manifest lived_report)) = run_hash"
  "engine_revision (engine (report_manifest lived_report)) = replicate 40 (CHR ''b'')"
  "engine_contract_revision (engine (report_manifest lived_report)) = run_hash"
  by (simp_all add: lived_report_def lived_manifest_def)

lemma lived_lock_at:
  "p \<in> {''/i/l'', ''/n/trust/engine-lock.json''} \<Longrightarrow>
     read_lock_at (lived c) p (lived_at r b d l t) = (Inr (the (lock_of_json lived_lock)), lived_at r b d l (Suc t))"
  by (auto simp: read_lock_at_def lived_eval lived_lock_read)

lemma lived_package:
  assumes "check_files (lived c) b0 (lived_at r b d l t) = (Inr u, lived_at r b d l t')"
    "bn_lock b0 \<in> {''/i/l'', ''/n/trust/engine-lock.json''}" "bn_identity b0 = lived_identity"
    "pinned \<longrightarrow> bn_archive_sha b0 = run_hash \<and> bn_manifest_sha b0 = run_hash"
  shows "verified_package (lived c) b0 pinned (lived_at r b d l t) = (Inr lived_report, lived_at r b d l (t' + 3))"
  using assms
  by (simp add: verified_package_def lived_eval lived_lock_at lived_lock_fields lived_report_fields lived_identity_simps Let_def
      cong: act_then_lazy del: replicate.simps)

lemma lived_layout: "validate_layout None ''/n'' lived_binding = Inr ()"
  by code_simp

lemma lived_files:
  "bn_supply b0 = None \<Longrightarrow> check_files (lived c) b0 (lived_at r b d l t) = (Inr (), lived_at r b d l t)"
  "check_files (lived c) lived_binding (lived_at r b d l t) = (Inr (), lived_at r b d l (Suc t))"
proof -
  show "bn_supply b0 = None \<Longrightarrow> check_files (lived c) b0 (lived_at r b d l t) = (Inr (), lived_at r b d l t)"
    by (simp add: check_files_def ret_def)
  have "parent_text (bn_archive lived_binding) = Some ''/n/trust''" "parent_text ''/n/trust'' = Some ''/n''"
    by code_simp+
  then show "check_files (lived c) lived_binding (lived_at r b d l t) = (Inr (), lived_at r b d l (Suc t))"
    using lived_layout by (simp add: check_files_def lived_eval lived_binding_def cong: act_then_lazy)
qed

lemma lived_rechecks:
  "recheck_all (lived c) xs (lived_at r b d l t) = (Inr (), lived_at r b d l (t + length xs))"
  by (induction xs arbitrary: t) (simp_all add: lived_eval)

lemma lived_pins:
  "pins_checked (lived c) (map lived_pin ps) (lived_at r b d l t) = (Inr (map (\<lambda>p. (p, lived_read p)) ps), lived_at r b d l (t + length ps))"
  if "\<forall>p\<in>set ps. file_absolute None p = Inr p"
  using that by (induction ps arbitrary: t) (simp_all add: lived_eval lived_pin_def)

lemma lived_cold_fields:
  "cold_backend lived_cold = ''rocksdb''" "cold_chain_fingerprint lived_cold = run_hash" "cold_node_identity lived_cold = ''INSTANT''"
  by (simp_all add: lived_cold_def)

lemma lived_data:
  assumes "bn_data_directory b0 = ''/d''"
  shows "data_precondition (lived c) b0 False (lived_at r b d l t) = (Inr (), lived_at r b d l (t + 4))"
proof -
  have "parent_text ''/d'' = Some ''/''" by code_simp
  then show ?thesis
    by (simp add: data_precondition_def fresh_data_def require_kind_def lived_eval assms cong: act_then_lazy)
qed

definition lived_b1 :: binding where
  "lived_b1 = lived_binding\<lparr>bn_schema := 1, bn_archive := ''/i/a'', bn_lock := ''/i/l'',
     bn_pins := map lived_pin [''/i/p'', ''/i/l'', ''/i/c'', ''/i/g''], bn_supply := None\<rparr>"

lemma lived_b0_simps:
  "bn_schema lived_b0 = 1" "bn_package lived_b0 = ''/p''" "bn_lock lived_b0 = ''/i/l''" "bn_identity lived_b0 = lived_identity"
  "bn_supply lived_b0 = None" "bn_data_directory lived_b0 = ''/d''" "bn_backend lived_b0 = ''rocksdb''"
  by (simp_all add: lived_b0_fields)

lemma lived_b1_simps:
  "bn_schema lived_b1 = 1" "bn_package lived_b1 = ''/p''" "bn_lock lived_b1 = ''/i/l''" "bn_identity lived_b1 = lived_identity"
  "bn_supply lived_b1 = None" "bn_archive_sha lived_b1 = run_hash" "bn_manifest_sha lived_b1 = run_hash"
  "bn_public_key lived_b1 = None" "bn_data_directory lived_b1 = ''/d''" "bn_backend lived_b1 = ''rocksdb''"
  "bn_archive lived_b1 = ''/i/a''" "bn_product lived_b1 = ''/i/p''" "bn_pins lived_b1 = map lived_pin [''/i/p'', ''/i/l'', ''/i/c'', ''/i/g'']"
  by (simp_all add: lived_b1_def lived_binding_def)

lemma lived_checks:
  "register_checks (lived c) lived_request (lived_at r b d l t) =
     (Inr (''/n'', lived_b1, lived_native, [(''/i/p'', ''x''), (''/i/l'', ''L''), (''/i/c'', ''x''), (''/i/g'', ''x'')]),
      lived_at r b d l (t + 22))"
  by (simp add: register_checks_def lived_eval lived_registration lived_package lived_files lived_b0_simps product_engine_def
      lived_cold_fields lived_rechecks lived_data lived_report_fields Let_def cong: act_then_lazy)
    (simp add: lived_b1_def lived_b0_fields lived_binding_def)

definition lived_inputs :: "(string \<times> bytes) list" where
  "lived_inputs = map (\<lambda>p. (p, lived_read p)) [''/i/p'', ''/n/trust/engine-lock.json'', ''/i/c'', ''/i/g'']"

lemma lived_binding_pins:
  "check_pins (lived c) lived_binding (lived_at r b d l t) = (Inr lived_inputs, lived_at r b d l (t + 5))"
proof -
  have q: "bn_pins lived_binding = map lived_pin [''/i/p'', ''/n/trust/engine-lock.json'', ''/i/c'', ''/i/g'']"
    by (simp add: lived_binding_def)
  show ?thesis
    unfolding check_pins_def q lived_inputs_def
    by (simp add: lived_eval lived_files lived_pins cong: act_then_lazy del: list.map)
qed

lemma lived_supply:
  "retain_supply (lived c) ''/n'' lived_b1 lived_native (lived_at r b d l t) = (Inr lived_binding, lived_at r b d l (t + 8))"
proof -
  have n: "same_name ''/i/l'' ''/i/l''" "\<not> same_name ''/i/p'' ''/i/l''" "\<not> same_name ''/i/c'' ''/i/l''" "\<not> same_name ''/i/g'' ''/i/l''"
    "\<not> same_name ''/i/p'' ''/i/a''" "\<not> same_name ''/i/c'' ''/i/a''" "\<not> same_name ''/i/g'' ''/i/a''"
    by code_simp+
  have t: "trust_archive ''/n'' = ''/n/trust/package.tar.gz''" "trust_lock ''/n'' = ''/n/trust/engine-lock.json''"
    by code_simp+
  have p: "supply_provenance lived_b1 = Inr \<lparr>pv_archive = lived_pin ''/i/a'', pv_lock = lived_pin ''/i/l'', pv_public_key = None\<rparr>"
    by (simp add: supply_provenance_def the_pin_def lived_b1_simps lived_pin_def n)
  have o: "\<not> reference_overlap lived_b1 lived_native \<lparr>pv_archive = lived_pin ''/i/a'', pv_lock = lived_pin ''/i/l'', pv_public_key = None\<rparr>"
    by (simp add: reference_overlap_def lived_b1_simps lived_native_simps origin_pins_def lived_pin_def n)
  have r: "retained_binding ''/n'' \<lparr>pv_archive = lived_pin ''/i/a'', pv_lock = lived_pin ''/i/l'', pv_public_key = None\<rparr> lived_b1 =
      lived_binding"
    by (simp add: retained_binding_def lived_b1_def lived_binding_def managed_path_def lived_pin_def t n)
  show ?thesis
    by (simp add: retain_supply_def lived_eval lived_b1_simps p o r lived_layout lived_files lived_binding_pins Let_def cong: act_then_lazy del: list.map)
qed

lemma lived_binding_simps:
  "bn_package lived_binding = ''/p''" "bn_lock lived_binding = ''/n/trust/engine-lock.json''"
  "bn_identity lived_binding = lived_identity" "bn_archive_sha lived_binding = run_hash"
  "bn_manifest_sha lived_binding = run_hash" "bn_data_directory lived_binding = ''/d''"
  "bn_instance_id lived_binding = ''one''" "bn_backend lived_binding = ''rocksdb''"
  "bn_chain_fingerprint lived_binding = run_hash" "bn_node_identity lived_binding = ''INSTANT''"
  by (simp_all add: lived_binding_def)

lemma lived_state_simps:
  "is_phase (lived_state 0) = Registered" "is_phase (lived_state 1) = InitIntent" "is_phase (lived_state 2) = Initialized"
  "lived_state 0 = registered_state (lived c) lived_binding"
  "intent_of (lived_state 0) lived_attempt = lived_state 1"
  "result_of (lived_state 1) (Inr (''0x'' @ run_hash)) = lived_state 2"
  by (simp_all add: lived_state_def registered_state_def lived_answers lived_binding_simps intent_of_def result_of_def)

lemma registered_literal:
  "lived_state 0 = \<lparr>is_schema = Suc 0, is_instance_id = ''one'', is_binding_sha = run_hash, is_phase = Registered,
     is_attempt = None, is_genesis = None, is_reason = ''REGISTERED_COLD_CHECKED''\<rparr>"
  by (simp add: lived_state_def)

text \<open>What the registration leaves.\<close>

abbreviation lived_done :: "bytes list \<Rightarrow> inst_event list \<Rightarrow> nat \<Rightarrow> inst" where
  "lived_done \<equiv> lived_at True (Some ''B'')"

lemma lived_saves:
  "save_state (lived c) x (lived_at r b d l t) =
     (Inr (), lived_at r b (d @ [lived_print (json_of_istate x)]) (l @ [Saved x]) (Suc t))"
  by (simp add: save_state_def state_error_def durable_def lived_answers)

lemma lived_register:
  "register_owned lived_world lived_request (lived_at False None [] [] 0) =
     (Inr (summary_of (lived_state 0) (Some False)), lived_done [''t''] (take 3 lived_log) 54)"
  by (simp add: register_owned_def lived_checks create_control_def durable_def write_binding_def state_error_def lived_eval lived_rechecks
      lived_package lived_files lived_b1_simps lived_supply lived_binding_simps lived_saves Let_def cong: act_then_lazy)
    (simp add: registered_literal [symmetric] lived_printed lived_log_def)

lemma lived_loads:
  "load_state (lived c) ''/n'' (lived_done [''t''] l t) = (Inr (lived_binding, lived_state 0), lived_done [''t''] l (t + 3))"
proof -
  have p: "state_ok lived_binding run_hash (lived_state 0)" "check_paths None (binding_paths lived_binding) = Inr ()"
    by code_simp+
  show ?thesis
    by (simp add: load_state_def lived_eval lived_decodes state_error_def p lived_disjoint_binding cong: act_then_lazy)
qed

lemma lived_prepares:
  "init_prepare (lived c) ''/n'' lived_binding False (lived_at r b d l t) =
     (Inr (lived_inputs, lived_report, lived_attempt), lived_at r b d l (t + 31))"
  by (simp add: init_prepare_def bound_preflight_def product_engine_def lived_cold_fields lived_eval lived_binding_pins lived_package lived_files lived_lock_at
      lived_rechecks lived_data lived_binding_simps state_error_def lived_attempt_def lived_inputs_def same_name_def cong: act_then_lazy)

text \<open>A parser that knows more documents accepts what the sample parser accepts.\<close>

lemma init_decode_mono:
  assumes "\<And>raw v. p raw = Some v \<Longrightarrow> q raw = Some v"
  shows "init_decode p typed n raw = Inr x \<Longrightarrow> init_decode q typed n raw = Inr x"
  using assms by (auto simp: init_decode_Inr engine_decode_iff)

lemma validate_success_mono:
  assumes "\<And>raw v. p raw = Some v \<Longrightarrow> q raw = Some v" "validate_success p out report inst e = Inr g"
  shows "validate_success q out report inst e = Inr g"
proof -
  note mono = init_decode_mono [OF assms(1)]
  show ?thesis
    using assms(2) unfolding validate_success_def Let_def and_then_eq_Inr
    by (elim exE conjE) (intro exI conjI; (rule mono)?; (assumption | simp add: split_beta))
qed

lemma lived_accepted:
  "validate_success lived_parse ''o'' (concat (map (\<lambda>l. l @ [newline]) [''1'', ''2'', ''3''])) ''j''
     (init_expectation lived_binding lived_attempt 7) = Inr (''0x'' @ run_hash)"
proof -
  have e: "init_expectation lived_binding lived_attempt 7 = init_sample"
    by (simp add: init_expectation_def init_sample_def lived_binding_simps lived_attempt_def lived_identity_def)
  show ?thesis
    unfolding e by (rule validate_success_mono [OF _ init_accepted]) (simp add: lived_parse_def)
qed

lemma lived_operates:
  "init_operation (lived c) ''/n'' lived_binding lived_report lived_inputs lived_attempt False (lived_at r b d l t) =
     (Inr (''0x'' @ run_hash),
      lived_at r b d (l @ [Prepared_Data, Spawned lived_attempt, Verified lived_evidence (''0x'' @ run_hash)]) (t + 15))"
proof -
  have p: "file_absolute None (join_name (join_name (join_name ''/n'' ''operations'') (ia_id lived_attempt)) ''report.jsonl'') =
      Inr ''/n/operations/init-1/report.jsonl''"
    "file_absolute None (join_name (bn_data_directory lived_binding) ''engine-instance.json'') = Inr ''/d/engine-instance.json''"
    by (simp_all add: join_name_def lived_attempt_def lived_binding_simps lived_paths)
  have q: "lived_read ''/n/operations/init-1/report.jsonl'' = concat (map (\<lambda>l. l @ [newline]) [''1'', ''2'', ''3''])"
    by (simp add: lived_read_def)
  show ?thesis
    by (simp add: init_operation_def run_engine_def inote_def modify_def lived_eval p q lived_accepted lived_rechecks lived_inputs_def
        lived_evidence_def Let_def cong: act_then_lazy del: concat.simps list.map)
qed

lemma lived_result: "result_of (lived_state 1) (Inr (CHR ''0'' # CHR ''x'' # run_hash)) = lived_state 2"
  using lived_state_simps(6) by (simp del: One_nat_def)

lemma lived_initializes:
  "inst_initialize lived_later False 5 (lived_done [''t''] (take 3 lived_log) 54) =
     (Inr (summary_of (lived_state 2) (Some False)), lived_done [''t'', ''tn'', ''tnn''] lived_log 107)"
  by (simp add: inst_initialize_def lived_eval lived_loads init_allowed_def lived_state_simps lived_prepares with_code_def lived_saves lived_operates
     lived_result lived_printed lived_log_def Let_def cong: act_then_lazy del: One_nat_def)

lemma lived_lives: "life lived_world (lived_done [''t'', ''tn'', ''tnn''] lived_log 107)"
proof -
  have s: "life lived_world (lived_at False None [] [] 0)" by (rule life_start)
  have "run_inst_op lived_world (Op_Register lived_request) (lived_at False None [] [] 0) =
      (Inr (), lived_done [''t''] (take 3 lived_log) 54)"
    by (simp add: ignoring_def act_then_def lived_register ret_def)
  then have r: "life lived_world (lived_done [''t''] (take 3 lived_log) 54)"
    by (rule life_op [OF s refl, rotated]) simp
  have "run_inst_op lived_later (Op_Initialize False 5) (lived_done [''t''] (take 3 lived_log) 54) =
      (Inr (), lived_done [''t'', ''tn'', ''tnn''] lived_log 107)"
    by (simp add: ignoring_def act_then_def lived_initializes ret_def)
  moreover have "codec lived_later = codec lived_world" by (simp add: codec_def lived_def)
  moreover have "\<not> can_happen (iw_create lived_later)" by (simp add: can_happen_def lived_answers fail_def)
  ultimately show ?thesis using life_op [OF r] by blast
qed

section \<open>The properties in this life\<close>

theorem states_belong_to_binding_witness:
  "is_binding_sha (lived_state 1) = iw_sha lived_world (iw_print_binding lived_world lived_binding) \<and>
   (\<exists>b. Some ''B'' = Some (iw_print_binding lived_world b) \<and> is_instance_id (lived_state 1) = bn_instance_id b)"
proof -
  have "Saved (lived_state 1) \<in> set lived_log" by (simp add: lived_log_def del: One_nat_def)
  with states_belong_to_binding [OF lived_lives lived_faithful, of "lived_state 1"] show ?thesis
    by (auto simp: lived_answers)
qed

theorem spawn_follows_durable_intent_witness:
  "\<exists>l0 x. take 5 lived_log = l0 @ [Saved x, Prepared_Data] \<and> is_phase x = InitIntent \<and> is_attempt x = Some lived_attempt"
proof -
  have "lived_log = take 5 lived_log @ Spawned lived_attempt # drop 6 lived_log" by (simp add: lived_log_def)
  with spawn_follows_durable_intent [OF lived_lives lived_faithful, of "take 5 lived_log" lived_attempt "drop 6 lived_log"]
  obtain l0 x where "take 5 lived_log = l0 @ [Saved x] \<or> take 5 lived_log = l0 @ [Saved x, Prepared_Data]"
    "is_phase x = InitIntent" "is_attempt x = Some lived_attempt"
    by auto
  moreover have "take 5 lived_log \<noteq> l0 @ [Saved x]" by (simp add: lived_log_def)
  ultimately show ?thesis by blast
qed

theorem fresh_start_at_most_once_witness:
  "filter starts_fresh lived_log = [Spawned lived_attempt] \<and> length (filter starts_fresh lived_log) \<le> 1"
  using fresh_start_at_most_once [OF lived_lives lived_faithful]
  by (simp add: lived_log_def starts_fresh_def lived_attempt_def)

theorem initialized_only_by_evidence_witness:
  "\<exists>v g. Verified v g \<in> set lived_log \<and> is_genesis (lived_state 2) = Some g \<and> accepts_run lived_world v g"
proof -
  have "lived_log = take 7 lived_log @ Saved (lived_state 2) # []" by (simp add: lived_log_def)
  with initialized_only_by_evidence [OF lived_lives lived_faithful, of "take 7 lived_log" "lived_state 2" "[]"]
  obtain l0 a v g where "take 7 lived_log = l0 @ [Spawned a, Verified v g]" "is_genesis (lived_state 2) = Some g"
    "accepts_run lived_world v g"
    by (auto simp: lived_state_simps)
  moreover from this(1) have "Verified v g \<in> set (take 7 lived_log)" by simp
  ultimately show ?thesis by (meson in_set_takeD)
qed

end
