(* ===== verification/Sites.thy ===== *)
theory Sites
  imports Acts
begin

text \<open>
  What several processes leave on a disk, told by a log: a state with a clock for the answers of the
  system, the operations that read it, and those that leave one more durable fact. A component says
  with \<open>may\<close> what can come after a log, and what an event does to the disk; the rules show of an
  operation that it keeps to that.
\<close>

section \<open>Sites\<close>

record ('d, 'e) site =
  on_disk :: 'd
  at_time :: nat
  so_far :: "'e list"

type_synonym ('d, 'e, 'a) sact = "(('d, 'e) site, 'a) acts"

definition s_ask :: "(nat \<Rightarrow> 'a result) \<Rightarrow> ('d, 'e, 'a) sact" where
  "s_ask q s = (q (at_time s), s\<lparr>at_time := Suc (at_time s)\<rparr>)"

definition s_view :: "('d \<Rightarrow> 'a) \<Rightarrow> ('d, 'e, 'a) sact" where
  "s_view f s = (Inr (f (on_disk s)), s)"

definition s_check :: "bool \<Rightarrow> string \<Rightarrow> ('d, 'e, unit) sact" where
  "s_check b c = ret (ensure b c)"

text \<open>An observation, and a call that may be durable although it reports an error.\<close>

definition s_note :: "'e \<Rightarrow> ('d, 'e, unit) sact" where
  "s_note e = modify (\<lambda>s. s\<lparr>so_far := so_far s @ [e]\<rparr>)"

definition s_effect :: "('e \<Rightarrow> 'd \<Rightarrow> 'd) \<Rightarrow> (nat \<Rightarrow> bool \<times> unit result) \<Rightarrow> 'e \<Rightarrow> ('d, 'e, unit) sact" where
  "s_effect ap q e s = (case q (at_time s) of (done, r) \<Rightarrow>
     (r, (if done \<or> r = Inr () then s\<lparr>on_disk := ap e (on_disk s), so_far := so_far s @ [e]\<rparr> else s)\<lparr>at_time := Suc (at_time s)\<rparr>))"

definition s_map_err :: "string \<Rightarrow> ('d, 'e, 'a) sact \<Rightarrow> ('d, 'e, 'a) sact" where
  "s_map_err c m s = (case m s of (r, s') \<Rightarrow> (map_err c r, s'))"

section \<open>Logs that keep to a rule\<close>

inductive permitted :: "('e list \<Rightarrow> 'e \<Rightarrow> bool) \<Rightarrow> 'e list \<Rightarrow> bool" for may where
  permitted_empty: "permitted may []"
| permitted_snoc: "permitted may l \<Longrightarrow> may l e \<Longrightarrow> permitted may (l @ [e])"

inductive_simps permitted_append1: "permitted may (l @ [e])"

lemma permitted_iff: "permitted may (l @ [e]) \<longleftrightarrow> permitted may l \<and> may l e"
  by (auto simp: permitted_append1)

lemma permitted_take: "permitted may (l @ l') \<Longrightarrow> permitted may l"
proof (induction l' rule: rev_induct)
  case (snoc e l')
  then show ?case using permitted_iff [of may "l @ l'" e] by simp
qed simp

lemma permitted_at: "permitted may (l @ e # l') \<Longrightarrow> may l e"
  using permitted_take [of may "l @ [e]" l'] by (simp add: permitted_iff)

lemma permitted_prefix: "permitted may l \<Longrightarrow> prefix k l \<Longrightarrow> permitted may k"
  by (auto simp: prefix_def dest: permitted_take)

definition replayed :: "('e \<Rightarrow> 'd \<Rightarrow> 'd) \<Rightarrow> 'd \<Rightarrow> 'e list \<Rightarrow> 'd" where
  "replayed ap d l = foldl (\<lambda>d e. ap e d) d l"

lemma replayed_simps [simp]: "replayed ap d [] = d" "replayed ap d (l @ [e]) = ap e (replayed ap d l)"
  by (simp_all add: replayed_def)

definition site_ok :: "('e \<Rightarrow> 'd \<Rightarrow> 'd) \<Rightarrow> 'd \<Rightarrow> ('e list \<Rightarrow> 'e \<Rightarrow> bool) \<Rightarrow> ('d, 'e) site \<Rightarrow> bool" where
  "site_ok ap d may s \<longleftrightarrow> permitted may (so_far s) \<and> on_disk s = replayed ap d (so_far s)"

section \<open>Steps\<close>

definition onward :: "('e \<Rightarrow> 'd \<Rightarrow> 'd) \<Rightarrow> 'd \<Rightarrow> ('e list \<Rightarrow> 'e \<Rightarrow> bool) \<Rightarrow> ('d, 'e) site \<Rightarrow> ('d, 'e) site \<Rightarrow> bool" where
  "onward ap d may s s' \<longleftrightarrow> prefix (so_far s) (so_far s') \<and> (site_ok ap d may s \<longrightarrow> site_ok ap d may s')"

definition site_view :: "('d, 'e) site \<Rightarrow> 'd \<times> 'e list" where
  "site_view s = (on_disk s, so_far s)"

interpretation site_run: advancing "onward ap d may" site_view for ap d may
proof unfold_locales
  show "onward ap d may s s'" if "site_view s' = site_view s" for s s'
    using that by (simp add: onward_def site_ok_def site_view_def)
  show "onward ap d may s s' \<Longrightarrow> onward ap d may s' s'' \<Longrightarrow> onward ap d may s s''" for s s' s''
    unfolding onward_def by (metis prefix_order.trans)
qed

abbreviation reads :: "('d, 'e, 'a) sact \<Rightarrow> bool" where
  "reads m \<equiv> keeps site_view m"

named_theorems reads_intro "operations on a site that leave no event"

declare keeps_intro [reads_intro]

lemma reads_ask [reads_intro]: "reads (s_ask q)"
  by (simp add: keeps_def s_ask_def site_view_def)

lemma reads_view [reads_intro]: "reads (s_view f)"
  by (simp add: keeps_def s_view_def)

lemma reads_check [reads_intro]: "reads (s_check b c)"
  unfolding s_check_def by (intro reads_intro)

lemma reads_map_err [reads_intro]: "reads m \<Longrightarrow> reads (s_map_err c m)"
  by (auto simp: keeps_def s_map_err_def split: prod.splits) (metis snd_conv)

section \<open>Rules\<close>

text \<open>Assertions on the log of a sound site.\<close>

definition holds :: "('e \<Rightarrow> 'd \<Rightarrow> 'd) \<Rightarrow> 'd \<Rightarrow> ('e list \<Rightarrow> 'e \<Rightarrow> bool) \<Rightarrow> ('e list \<Rightarrow> bool) \<Rightarrow> ('d, 'e) site \<Rightarrow> bool" where
  "holds ap d may L s \<longleftrightarrow> site_ok ap d may s \<and> L (so_far s)"

text \<open>An error may leave any permitted log, a success one with \<open>Q\<close>.\<close>

definition runs :: "('e \<Rightarrow> 'd \<Rightarrow> 'd) \<Rightarrow> 'd \<Rightarrow> ('e list \<Rightarrow> 'e \<Rightarrow> bool) \<Rightarrow> ('e list \<Rightarrow> bool) \<Rightarrow> ('d, 'e, 'a) sact \<Rightarrow>
    ('a \<Rightarrow> 'e list \<Rightarrow> bool) \<Rightarrow> bool" where
  "runs ap d may L m Q \<longleftrightarrow>
     triple (onward ap d may) (holds ap d may L) m (\<lambda>x. holds ap d may (Q x)) (holds ap d may (\<lambda>_. True))"

lemma holds_view: "site_view s' = site_view s \<Longrightarrow> holds ap d may L s \<Longrightarrow> holds ap d may L s'"
  by (simp add: holds_def site_ok_def site_view_def)

lemma holds_mono: "holds ap d may L s \<Longrightarrow> (L (so_far s) \<Longrightarrow> L' (so_far s)) \<Longrightarrow> holds ap d may L' s"
  by (simp add: holds_def)

lemma runs_conseq:
  assumes "runs ap d may L m Q" "\<And>l. L' l \<Longrightarrow> L l" "\<And>x l. Q x l \<Longrightarrow> Q' x l"
  shows "runs ap d may L' m Q'"
  unfolding runs_def
proof (rule triple_conseq [OF assms(1) [unfolded runs_def]])
  show "holds ap d may L' s \<Longrightarrow> holds ap d may L s" for s by (erule holds_mono) (rule assms(2))
  show "holds ap d may (Q x) s \<Longrightarrow> holds ap d may (Q' x) s" for x s by (erule holds_mono) (rule assms(3))
qed

lemma runs_then:
  "runs ap d may L m M \<Longrightarrow> (\<And>x. runs ap d may (M x) (f x) Q) \<Longrightarrow> runs ap d may L (act_then m f) Q"
  unfolding runs_def by (rule site_run.then_rule)

text \<open>An operation that only reads may tell something of the value and of the log.\<close>

lemma runs_fact:
  assumes "reads m" "\<And>s x. site_ok ap d may s \<Longrightarrow> L (so_far s) \<Longrightarrow> fst (m s) = Inr x \<Longrightarrow> F x (so_far s)"
  shows "runs ap d may L m (\<lambda>x l. L l \<and> F x l)"
proof -
  have "triple (onward ap d may) (holds ap d may L) m (\<lambda>x s. holds ap d may L s \<and> F x (so_far s)) (holds ap d may L)"
  proof (rule site_run.fact_rule [OF assms(1) holds_view])
    fix s x assume s: "holds ap d may L s" "fst (m s) = Inr x"
    have "site_view (snd (m s)) = site_view s" using assms(1) unfolding keeps_def by blast
    then have "so_far (snd (m s)) = so_far s" by (simp add: site_view_def)
    then show "F x (so_far (snd (m s)))" using s assms(2) [of s x] by (simp add: holds_def)
  qed
  then show ?thesis
    unfolding runs_def
  proof (rule triple_conseq)
    show "holds ap d may L s \<Longrightarrow> holds ap d may (\<lambda>_. True) s" for s by (erule holds_mono) simp
  qed (simp_all add: holds_def)
qed

lemma runs_reads: "reads m \<Longrightarrow> runs ap d may L m (\<lambda>_. L)"
  by (rule runs_conseq [OF runs_fact [where F = "\<lambda>_ _. True"]]) simp_all

lemma runs_then_reads: "reads m \<Longrightarrow> (\<And>x. runs ap d may L (f x) Q) \<Longrightarrow> runs ap d may L (act_then m f) Q"
  by (rule runs_then [OF runs_reads])

lemma runs_end: "reads m \<Longrightarrow> (\<And>x l. L l \<Longrightarrow> Q x l) \<Longrightarrow> runs ap d may L m Q"
  by (rule runs_conseq [OF runs_reads [of m ap d may L]]) blast+

lemma runs_ret: "runs ap d may L (ret r) (\<lambda>x l. L l \<and> r = Inr x)"
  by (rule runs_fact [where F = "\<lambda>x _. r = Inr x", OF keeps_ret]) (simp add: ret_def)

lemma runs_check: "runs ap d may L (s_check b c) (\<lambda>_ l. L l \<and> b)"
  by (rule runs_fact [where F = "\<lambda>_ _. b", OF reads_check])
    (auto simp: s_check_def ret_def ensure_def fail_def split: if_splits)

lemma runs_view: "runs ap d may L (s_view f) (\<lambda>x l. L l \<and> x = f (replayed ap d l))"
  by (rule runs_fact [OF reads_view]) (auto simp: s_view_def site_ok_def)

lemma runs_map_err: "runs ap d may L m Q \<Longrightarrow> runs ap d may L (s_map_err c m) Q"
  unfolding runs_def triple_def s_map_err_def map_err_def
  by (auto split: prod.splits sum.splits simp: fail_def)

text \<open>What only grows with the log is kept by everything.\<close>

lemma runs_frame:
  assumes "runs ap d may L m Q" "\<And>l k. S l \<Longrightarrow> prefix l k \<Longrightarrow> S k"
  shows "runs ap d may (\<lambda>l. L l \<and> S l) m (\<lambda>x l. Q x l \<and> S l)"
  unfolding runs_def
proof (rule tripleI)
  fix s r s' assume s: "holds ap d may (\<lambda>l. L l \<and> S l) s" "m s = (r, s')"
  then have "holds ap d may L s" "S (so_far s)" by (simp_all add: holds_def)
  from tripleD [OF assms(1) [unfolded runs_def] this(1) s(2)] this(2)
  show "onward ap d may s s' \<and> (case r of Inl e \<Rightarrow> holds ap d may (\<lambda>_. True) s' | Inr x \<Rightarrow> holds ap d may (\<lambda>l. Q x l \<and> S l) s')"
    using assms(2) [of "so_far s" "so_far s'"] by (auto simp: holds_def onward_def split: sum.splits)
qed

lemma runs_precond: "(\<And>l. L l \<Longrightarrow> B) \<Longrightarrow> (B \<Longrightarrow> runs ap d may L m Q) \<Longrightarrow> runs ap d may L m Q"
  unfolding runs_def triple_def holds_def by blast

lemma runs_pair: "(\<And>a b. runs ap d may (L (a, b)) (f a b) Q) \<Longrightarrow> runs ap d may (L p) (case p of (a, b) \<Rightarrow> f a b) Q"
  by (cases p) simp

lemma runs_if:
  "(b \<Longrightarrow> runs ap d may L m Q) \<Longrightarrow> (\<not> b \<Longrightarrow> runs ap d may L n Q) \<Longrightarrow> runs ap d may L (if b then m else n) Q"
  by simp

lemma runs_event:
  assumes "holds ap d may L s" "may (so_far s) e" "so_far s' = so_far s @ [e]" "on_disk s' = ap e (on_disk s)"
  shows "onward ap d may s s'" "site_ok ap d may s'"
  using assms by (auto simp: onward_def holds_def site_ok_def permitted_iff)

lemma runs_note:
  assumes "\<And>l. L l \<Longrightarrow> may l e \<and> Q (l @ [e])" "\<And>d'. ap e d' = d'"
  shows "runs ap d may L (s_note e) (\<lambda>_. Q)"
  unfolding runs_def
proof (rule tripleI)
  fix s r s' assume s: "holds ap d may L s" "s_note e s = (r, s')"
  then have s': "s' = s\<lparr>so_far := so_far s @ [e]\<rparr>" "r = Inr ()" by (simp_all add: s_note_def modify_def)
  have e: "may (so_far s) e" "Q (so_far s @ [e])" using s(1) assms(1) by (simp_all add: holds_def)
  show "onward ap d may s s' \<and> (case r of Inl e \<Rightarrow> holds ap d may (\<lambda>_. True) s' | Inr x \<Rightarrow> holds ap d may Q s')"
    using runs_event [OF s(1) e(1), of s'] e(2) s' assms(2) by (simp add: holds_def)
qed

lemma runs_effect:
  assumes "\<And>l. L l \<Longrightarrow> may l e \<and> Q (l @ [e])"
  shows "runs ap d may L (s_effect ap q e) (\<lambda>_. Q)"
  unfolding runs_def
proof (rule tripleI)
  fix s r s' assume s: "holds ap d may L s" "s_effect ap q e s = (r, s')"
  obtain dn r0 where q: "q (at_time s) = (dn, r0)" by (cases "q (at_time s)")
  have e: "may (so_far s) e" "Q (so_far s @ [e])" using s(1) assms by (simp_all add: holds_def)
  show "onward ap d may s s' \<and> (case r of Inl e \<Rightarrow> holds ap d may (\<lambda>_. True) s' | Inr x \<Rightarrow> holds ap d may Q s')"
  proof (cases "dn \<or> r0 = Inr ()")
    case True
    then have "so_far s' = so_far s @ [e]" "on_disk s' = ap e (on_disk s)" using s(2) q by (auto simp: s_effect_def)
    with runs_event [OF s(1) e(1) this] e(2) show ?thesis by (auto simp: holds_def split: sum.splits)
  next
    case False
    then have v: "site_view s' = site_view s" "\<exists>e. r = Inl e"
      using s(2) q by (cases r0; auto simp: s_effect_def site_view_def)+
    have "holds ap d may (\<lambda>_. True) s" using s(1) by (simp add: holds_def)
    with v holds_view [OF v(1)] site_run.adv_same [OF v(1)] show ?thesis by auto
  qed
qed

end
