(* ===== verification/CliData.thy ===== *)
theory CliData
  imports Bundle SetupPaths Sites
begin

text \<open>
  What the store of management releases keeps (\<open>src/src/management/store.rs\<close>,
  \<open>src/src/management/mod.rs\<close>): the trust recorded at the first installation, the record of the root,
  the admission of a release, the selection of an activation, and the numbering of activations.
\<close>

section \<open>Errors\<close>

definition cli_io :: string where "cli_io = ''CLI_STORAGE_IO''"
definition cli_unsafe :: string where "cli_unsafe = ''CLI_STORAGE_UNSAFE''"
definition cli_trust_error :: string where "cli_trust_error = ''CLI_TRUST_POLICY''"
definition entry_conflict :: string where "entry_conflict = ''CLI_ENTRY_CONFLICT''"
definition not_installed :: string where "not_installed = ''CLI_NOT_INSTALLED''"
definition cli_changed :: string where "cli_changed = ''CLI_RELEASE_CHANGED''"
definition cli_limit :: string where "cli_limit = ''CLI_STORAGE_LIMIT''"

section \<open>Records\<close>

record cli_trust =
  ct_mode :: string
  ct_key :: "string option"

record cli_record =
  cr_schema :: nat
  cr_kind :: string
  cr_root :: node_id
  cr_lock :: node_id
  cr_releases :: node_id
  cr_activations :: node_id
  cr_staging :: node_id
  cr_bin_dir :: string
  cr_bin :: node_id
  cr_trust :: cli_trust

record release_info =
  ri_id :: string
  ri_version :: string
  ri_revision :: string
  ri_target :: string
  ri_manifest_sha :: string
  ri_authenticity :: string

record admission =
  ad_schema :: nat
  ad_kind :: string
  ad_release :: release_info
  ad_directory :: node_id
  ad_signature :: "string option"

record selection =
  sl_schema :: nat
  sl_kind :: string
  sl_current :: string
  sl_previous :: "string option"

text \<open>A struct whose last fields are optional: absent in an object, but not in an array.\<close>

definition optional_fields :: "string list \<Rightarrow> string list \<Rightarrow> json \<Rightarrow> (string \<rightharpoonup> json) option" where
  "optional_fields req opt v =
     (case v of JArr vs \<Rightarrow> if length vs = length (req @ opt) then struct_fields req opt v else None
      | _ \<Rightarrow> struct_fields req opt v)"

definition node_of_json :: "json \<Rightarrow> node_id option" where
  "node_of_json v =
     do { m \<leftarrow> struct_fields [''device'', ''inode''] [] v; d \<leftarrow> get_uint u64_max m ''device'';
          i \<leftarrow> get_uint u64_max m ''inode''; Some (d, i) }"

definition trust_of_json :: "json \<Rightarrow> cli_trust option" where
  "trust_of_json v =
     do { m \<leftarrow> optional_fields [''mode''] [''publicKeyHex''] v; t \<leftarrow> get_str m ''mode'';
          k \<leftarrow> get_opt as_str m ''publicKeyHex''; Some \<lparr>ct_mode = t, ct_key = k\<rparr> }"

definition cli_record_of_json :: "json \<Rightarrow> cli_record option" where
  "cli_record_of_json v =
     do { m \<leftarrow> struct_fields [''schemaVersion'', ''kind'', ''root'', ''lock'', ''releases'', ''activations'', ''staging'',
            ''binDir'', ''binIdentity'', ''trust''] [] v;
          s \<leftarrow> get_uint u32_max m ''schemaVersion''; k \<leftarrow> get_str m ''kind'';
          r \<leftarrow> Option.bind (m ''root'') node_of_json; l \<leftarrow> Option.bind (m ''lock'') node_of_json;
          re \<leftarrow> Option.bind (m ''releases'') node_of_json; a \<leftarrow> Option.bind (m ''activations'') node_of_json;
          st \<leftarrow> Option.bind (m ''staging'') node_of_json; d \<leftarrow> get_str m ''binDir'';
          b \<leftarrow> Option.bind (m ''binIdentity'') node_of_json; t \<leftarrow> Option.bind (m ''trust'') trust_of_json;
          Some \<lparr>cr_schema = s, cr_kind = k, cr_root = r, cr_lock = l, cr_releases = re, cr_activations = a,
                cr_staging = st, cr_bin_dir = d, cr_bin = b, cr_trust = t\<rparr> }"

definition release_of_json :: "json \<Rightarrow> release_info option" where
  "release_of_json v =
     do { m \<leftarrow> struct_fields [''releaseId'', ''version'', ''revision'', ''target'', ''manifestSha256'', ''authenticity''] [] v;
          i \<leftarrow> get_str m ''releaseId''; ver \<leftarrow> get_str m ''version''; r \<leftarrow> get_str m ''revision'';
          t \<leftarrow> get_str m ''target''; s \<leftarrow> get_str m ''manifestSha256''; a \<leftarrow> get_str m ''authenticity'';
          Some \<lparr>ri_id = i, ri_version = ver, ri_revision = r, ri_target = t, ri_manifest_sha = s, ri_authenticity = a\<rparr> }"

definition admission_of_json :: "json \<Rightarrow> admission option" where
  "admission_of_json v =
     do { m \<leftarrow> optional_fields [''schemaVersion'', ''kind'', ''release'', ''directory''] [''signatureSha256''] v;
          s \<leftarrow> get_uint u32_max m ''schemaVersion''; k \<leftarrow> get_str m ''kind'';
          r \<leftarrow> Option.bind (m ''release'') release_of_json; d \<leftarrow> Option.bind (m ''directory'') node_of_json;
          g \<leftarrow> get_opt as_str m ''signatureSha256'';
          Some \<lparr>ad_schema = s, ad_kind = k, ad_release = r, ad_directory = d, ad_signature = g\<rparr> }"

definition selection_of_json :: "json \<Rightarrow> selection option" where
  "selection_of_json v =
     do { m \<leftarrow> optional_fields [''schemaVersion'', ''kind'', ''current''] [''previous''] v;
          s \<leftarrow> get_uint u32_max m ''schemaVersion''; k \<leftarrow> get_str m ''kind''; c \<leftarrow> get_str m ''current'';
          p \<leftarrow> get_opt as_str m ''previous'';
          Some \<lparr>sl_schema = s, sl_kind = k, sl_current = c, sl_previous = p\<rparr> }"

text \<open>What is written.\<close>

definition json_of_node :: "node_id \<Rightarrow> json" where
  "json_of_node i = JObj [(''device'', JInt (int (fst i))), (''inode'', JInt (int (snd i)))]"

definition json_of_trust :: "cli_trust \<Rightarrow> json" where
  "json_of_trust t = JObj ((''mode'', JStr (ct_mode t)) # opt_field ''publicKeyHex'' JStr (ct_key t))"

definition json_of_cli_record :: "cli_record \<Rightarrow> json" where
  "json_of_cli_record r = JObj [(''schemaVersion'', JInt (int (cr_schema r))), (''kind'', JStr (cr_kind r)),
     (''root'', json_of_node (cr_root r)), (''lock'', json_of_node (cr_lock r)), (''releases'', json_of_node (cr_releases r)),
     (''activations'', json_of_node (cr_activations r)), (''staging'', json_of_node (cr_staging r)),
     (''binDir'', JStr (cr_bin_dir r)), (''binIdentity'', json_of_node (cr_bin r)), (''trust'', json_of_trust (cr_trust r))]"

definition json_of_release :: "release_info \<Rightarrow> json" where
  "json_of_release r = JObj [(''releaseId'', JStr (ri_id r)), (''version'', JStr (ri_version r)),
     (''revision'', JStr (ri_revision r)), (''target'', JStr (ri_target r)),
     (''manifestSha256'', JStr (ri_manifest_sha r)), (''authenticity'', JStr (ri_authenticity r))]"

definition json_of_admission :: "admission \<Rightarrow> json" where
  "json_of_admission a = JObj ([(''schemaVersion'', JInt (int (ad_schema a))), (''kind'', JStr (ad_kind a)),
     (''release'', json_of_release (ad_release a)), (''directory'', json_of_node (ad_directory a))] @
     opt_field ''signatureSha256'' JStr (ad_signature a))"

definition json_of_selection :: "selection \<Rightarrow> json" where
  "json_of_selection s = JObj ([(''schemaVersion'', JInt (int (sl_schema s))), (''kind'', JStr (sl_kind s)),
     (''current'', JStr (sl_current s))] @ opt_field ''previous'' JStr (sl_previous s))"

section \<open>Releases\<close>

definition release_of_bundle :: "cli_bundle \<Rightarrow> release_info" where
  "release_of_bundle b = \<lparr>ri_id = release_id b, ri_version = cli_version (bundle_manifest b),
     ri_revision = cli_revision (bundle_manifest b), ri_target = cli_target (bundle_manifest b),
     ri_manifest_sha = bundle_manifest_sha256 b, ri_authenticity = bundle_authenticity b\<rparr>"

definition signature_hash :: "('a, 'k) crypto \<Rightarrow> cli_bundle \<Rightarrow> string option" where
  "signature_hash c b = map_option (sha256_hex c) (bundle_signature b)"

definition release_id_valid :: "string \<Rightarrow> bool" where
  "release_id_valid s \<longleftrightarrow> s \<noteq> [] \<and> length s \<le> 180 \<and> list_all (\<lambda>c. is_alphanumeric c \<or> List.member ''.-+_'' c) s \<and>
     \<not> prefix ''.'' s \<and> \<not> sublist ''..'' s"

section \<open>Trust\<close>

fun hex_decode :: "string \<Rightarrow> bytes option" where
  "hex_decode [] = Some []"
| "hex_decode [c] = None"
| "hex_decode (c # d # s) =
     (if is_hexdigit c \<and> is_hexdigit d then map_option ((#) (char_of (digit_val c * 16 + digit_val d))) (hex_decode s)
      else None)"

text \<open>\<open>Trust::key\<close>; \<open>key_of\<close> is \<open>VerifyingKey::from_bytes\<close>.\<close>

definition trust_key_of :: "(bytes \<Rightarrow> 'k option) \<Rightarrow> cli_trust \<Rightarrow> 'k option result" where
  "trust_key_of key_of t =
     (if ct_mode t = ''unsigned-development'' \<and> ct_key t = None then Inr None
      else if ct_mode t = ''ed25519'' then
        (case ct_key t of
           None \<Rightarrow> fail cli_unsafe
         | Some text \<Rightarrow>
             and_then (ok_or (hex_decode text) cli_unsafe) (\<lambda>raw.
             and_then (ensure (length raw = 32) cli_unsafe) (\<lambda>_.
             and_then (ok_or (key_of raw) cli_unsafe) (\<lambda>k. Inr (Some k)))))
      else fail cli_unsafe)"

record trust_options =
  to_key_path :: "string option"
  to_unsigned :: bool

text \<open>\<open>load\<close> is \<open>load_public_key\<close>, \<open>key_hex\<close> the text of a key's bytes.\<close>

definition trust_initial :: "(string \<Rightarrow> 'k result) \<Rightarrow> ('k \<Rightarrow> string) \<Rightarrow> trust_options \<Rightarrow> cli_trust result" where
  "trust_initial load key_hex o' =
     and_then (ensure ((to_key_path o' \<noteq> None) \<noteq> to_unsigned o') cli_trust_error) (\<lambda>_.
     case to_key_path o' of
       Some p \<Rightarrow> and_then (load p) (\<lambda>k. Inr \<lparr>ct_mode = ''ed25519'', ct_key = Some (key_hex k)\<rparr>)
     | None \<Rightarrow> Inr \<lparr>ct_mode = ''unsigned-development'', ct_key = None\<rparr>)"

definition accept_options :: "(bytes \<Rightarrow> 'k option) \<Rightarrow> (string \<Rightarrow> 'k result) \<Rightarrow> cli_trust \<Rightarrow> trust_options \<Rightarrow> unit result" where
  "accept_options key_of load t o' =
     (if ct_mode t = ''unsigned-development'' then
        ensure (\<not> (\<not> to_unsigned o' \<or> to_key_path o' \<noteq> None)) cli_trust_error
      else
        and_then (ensure (\<not> to_unsigned o') cli_trust_error) (\<lambda>_.
        case to_key_path o' of
          None \<Rightarrow> Inr ()
        | Some p \<Rightarrow> and_then (load p) (\<lambda>k. and_then (trust_key_of key_of t) (\<lambda>k'.
            ensure (Some k = k') cli_trust_error))))"

definition trust_verify ::
  "('a, 'k) crypto \<Rightarrow> (bytes \<Rightarrow> 'k option) \<Rightarrow> cli_trust \<Rightarrow> bundle_source \<Rightarrow> cli_bundle result" where
  "trust_verify c key_of t src =
     and_then (trust_key_of key_of t) (\<lambda>k. verify_with_key c src k (ct_mode t = ''unsigned-development''))"

section \<open>Activations\<close>

text \<open>\<open>format!("{n:016x}")\<close> and \<open>u64::from_str_radix(s, 16)\<close>.\<close>

definition hex16 :: "nat \<Rightarrow> string" where
  "hex16 n = replicate (16 - length (show_radix 16 n)) (CHR ''0'') @ show_radix 16 n"

fun next_after :: "nat \<Rightarrow> nat \<Rightarrow> string list \<Rightarrow> nat result" where
  "next_after i n [] = Inr n"
| "next_after i n (s # ss) =
     and_then (ensure (i < 4096) cli_limit) (\<lambda>_.
     and_then (ensure (length s = 16) cli_unsafe) (\<lambda>_.
     and_then (ok_or (parse_uint 16 u64_max s) cli_unsafe) (\<lambda>k.
     and_then (ensure (k < u64_max) cli_limit) (\<lambda>_. next_after (Suc i) (max n (Suc k)) ss))))"

definition next_activation :: "string list \<Rightarrow> nat result" where
  "next_activation = next_after 0 1"

definition activation_name :: "string \<Rightarrow> bool" where
  "activation_name s \<longleftrightarrow> length s = 16 \<and> list_all is_lower_hex s"

text \<open>The new name is not among the old ones, and reads as the larger number.\<close>

lemma next_after_bounds:
  "next_after i n ss = Inr k \<Longrightarrow> n \<le> k \<and> (\<forall>s\<in>set ss. \<exists>m. parse_uint 16 u64_max s = Some m \<and> m < k) \<and> (n \<le> u64_max \<longrightarrow> k \<le> u64_max)"
proof (induction i n ss rule: next_after.induct)
  case (2 i n s ss)
  from 2(2) obtain m where m: "i < 4096" "length s = 16" "parse_uint 16 u64_max s = Some m" "m < u64_max"
    "next_after (Suc i) (max n (Suc m)) ss = Inr k"
    by (auto simp: ok_or_def ensure_def split: option.splits if_splits)
  from 2(1) [of "()" "()" m "()"] m
  have "max n (Suc m) \<le> k \<and> (\<forall>s\<in>set ss. \<exists>m. parse_uint 16 u64_max s = Some m \<and> m < k) \<and> (max n (Suc m) \<le> u64_max \<longrightarrow> k \<le> u64_max)"
    by (simp add: ensure_def ok_or_def)
  then show ?case using m by auto
qed simp

end
