(* ===== verification/CliStore.thy ===== *)
theory CliStore
  imports CliData
begin

text \<open>
  The operations of the management CLI's own store (\<open>src/src/management/store.rs\<close>): installation,
  update, rollback and the report. Releases and activations are only added; a single rename of the
  link \<open>current\<close> selects both the executable and the previous version. The disk is what this program
  writes; that it is safe to look at (owners, modes, identities) is a question to the system, and so
  are the contents of a bundle at a path, the lock and the probe of a binary.
\<close>

section \<open>The disk\<close>

record release_dir =
  rd_id :: node_id
  rd_admission :: bytes

record act_dir =
  ac_selection :: "bytes option"
  ac_links :: "(string \<times> string) list"

datatype cli_entry = No_Entry | Entry_Link string | Foreign_Entry

record cli_disk =
  cd_marker :: "bytes option"
  cd_releases :: "(string \<times> release_dir) list"
  cd_activations :: "(string \<times> act_dir) list"
  cd_current :: "string option"
  cd_entry :: cli_entry

datatype cli_event =
    Root_Published cli_record bytes
  | Supply_Trusted cli_trust cli_bundle
  | Probed string cli_manifest
  | Release_Published string release_dir
  | Admitted string
  | Act_Made string
  | Act_Selected string selection bytes
  | Act_Linked string string string
  | Entry_Made string
  | Switched string selection

definition upd_act :: "string \<Rightarrow> (act_dir \<Rightarrow> act_dir) \<Rightarrow> (string \<times> act_dir) list \<Rightarrow> (string \<times> act_dir) list" where
  "upd_act n f = map (\<lambda>(m, a). (m, if m = n then f a else a))"

fun cli_apply :: "cli_event \<Rightarrow> cli_disk \<Rightarrow> cli_disk" where
  "cli_apply (Root_Published r raw) d = d\<lparr>cd_marker := Some raw\<rparr>"
| "cli_apply (Release_Published i rd) d = d\<lparr>cd_releases := cd_releases d @ [(i, rd)]\<rparr>"
| "cli_apply (Act_Made n) d = d\<lparr>cd_activations := cd_activations d @ [(n, \<lparr>ac_selection = None, ac_links = []\<rparr>)]\<rparr>"
| "cli_apply (Act_Selected n s raw) d =
     d\<lparr>cd_activations := upd_act n (\<lambda>a. a\<lparr>ac_selection := Some raw\<rparr>) (cd_activations d)\<rparr>"
| "cli_apply (Act_Linked n c t) d =
     d\<lparr>cd_activations := upd_act n (\<lambda>a. a\<lparr>ac_links := ac_links a @ [(c, t)]\<rparr>) (cd_activations d)\<rparr>"
| "cli_apply (Entry_Made t) d = d\<lparr>cd_entry := Entry_Link t\<rparr>"
| "cli_apply (Switched n s) d = d\<lparr>cd_current := Some (''activations/'' @ n)\<rparr>"
| "cli_apply _ d = d"

type_synonym 'a cact = "(cli_disk, cli_event, 'a) sact"

section \<open>The outside\<close>

record locations =
  lo_root :: string
  lo_bin :: string

record cli_options =
  co_locations :: locations
  co_from :: "string option"
  co_trust :: trust_options

record ('a, 'k) cli_world =
  cw_crypto :: "('a, 'k) crypto"
  cw_key_hex :: "'k \<Rightarrow> string"
  cw_key_of :: "bytes \<Rightarrow> 'k option"
  cw_load_key :: "nat \<Rightarrow> string \<Rightarrow> 'k result"
  cw_print :: "json \<Rightarrow> bytes"
  cw_macos :: bool
  cw_eqv :: "string \<Rightarrow> string"
  cw_fs :: "nat \<Rightarrow> fs"
  cw_os :: "nat \<Rightarrow> unit result"
  cw_done :: "nat \<Rightarrow> bool \<times> unit result"
  cw_destination :: "nat \<Rightarrow> string \<Rightarrow> unit result"
  cw_root_id :: "nat \<Rightarrow> node_id result"
  cw_bin :: "nat \<Rightarrow> node_id option result"
  cw_ids :: "nat \<Rightarrow> (node_id \<times> node_id \<times> node_id \<times> node_id \<times> node_id \<times> node_id) result"
  cw_stage :: "nat \<Rightarrow> string \<times> node_id"
  cw_lock :: "nat \<Rightarrow> unit result"
  cw_source_path :: "nat \<Rightarrow> string option \<Rightarrow> string result"
  cw_source :: "nat \<Rightarrow> string \<Rightarrow> fs_meta option \<times> bundle_source"
  cw_probe :: "nat \<Rightarrow> string \<Rightarrow> cli_manifest \<Rightarrow> unit result"

text \<open>A check of the system, \<open>recheck\<close> and all that only can fail.\<close>

definition os_check :: "('a, 'k) cli_world \<Rightarrow> unit cact" where
  "os_check w = s_ask (cw_os w)"

definition cli_effect :: "('a, 'k) cli_world \<Rightarrow> cli_event \<Rightarrow> unit cact" where
  "cli_effect w = s_effect cli_apply (cw_done w)"

definition cli_decode :: "('a, 'k) cli_world \<Rightarrow> (json \<Rightarrow> 'b option) \<Rightarrow> bytes \<Rightarrow> 'b result" where
  "cli_decode w typed raw = map_err cli_unsafe (decode_strict_json (parse_json (cw_crypto w)) typed raw)"

section \<open>The root\<close>

definition check_locations :: "('a, 'k) cli_world \<Rightarrow> locations \<Rightarrow> unit cact" where
  "check_locations w l =
     act_then (s_ask (\<lambda>t. overlaps (cw_eqv w) (cw_fs w t) (lo_root l) (lo_bin l))) (\<lambda>o'.
     act_then (s_check (\<not> o') ''CLI_LOCATION_CONFLICT'') (\<lambda>_.
     act_then (s_ask (\<lambda>t. cw_destination w t (lo_root l))) (\<lambda>_. s_ask (\<lambda>t. cw_destination w t (lo_bin l)))))"

definition same_dir :: "string \<Rightarrow> string \<Rightarrow> bool" where
  "same_dir a b \<longleftrightarrow> components a = components b"

definition open_root :: "('a, 'k) cli_world \<Rightarrow> locations \<Rightarrow> cli_record option cact" where
  "open_root w l =
     act_then (s_view cd_marker) (\<lambda>marker.
     case marker of
       None \<Rightarrow> ret (Inr None)
     | Some raw \<Rightarrow>
         act_then (s_ask (cw_root_id w)) (\<lambda>home.
         act_then (os_check w) (\<lambda>_.
         act_then (ret (cli_decode w cli_record_of_json raw)) (\<lambda>r.
         act_then (s_check (\<not> (cr_schema r \<noteq> 1 \<or> cr_kind r \<noteq> ''BXDL_CLI_INSTALLATION'' \<or> cr_root r \<noteq> home \<or>
             \<not> same_dir (cr_bin_dir r) (lo_bin l))) cli_unsafe) (\<lambda>_.
         act_then (ret (trust_key_of (cw_key_of w) (cr_trust r))) (\<lambda>_.
         act_then (s_ask (cw_bin w)) (\<lambda>bin.
         act_then (os_check w) (\<lambda>_.
         act_then (s_check (bin = Some (cr_bin r)) cli_unsafe) (\<lambda>_.
         act_then (os_check w) (\<lambda>_. ret (Inr (Some r))))))))))))"

text \<open>\<open>Root::create\<close>: all is prepared under a private name; the rename refuses to replace.\<close>

definition create_root :: "('a, 'k) cli_world \<Rightarrow> locations \<Rightarrow> cli_trust \<Rightarrow> cli_record cact" where
  "create_root w l trust =
     act_then (s_view (\<lambda>d. cd_marker d = None)) (\<lambda>fresh.
     act_then (s_check fresh cli_unsafe) (\<lambda>_.
     act_then (os_check w) (\<lambda>_.
     act_then (s_view (\<lambda>d. cd_entry d = No_Entry)) (\<lambda>free.
     act_then (s_check free entry_conflict) (\<lambda>_.
     act_then (s_ask (cw_ids w)) (\<lambda>(root, lock, releases, activations, staging, bin).
     let r = \<lparr>cr_schema = 1, cr_kind = ''BXDL_CLI_INSTALLATION'', cr_root = root, cr_lock = lock, cr_releases = releases,
              cr_activations = activations, cr_staging = staging, cr_bin_dir = lo_bin l, cr_bin = bin, cr_trust = trust\<rparr> in
     act_then (os_check w) (\<lambda>_.
     act_then (cli_effect w (Root_Published r (cw_print w (json_of_cli_record r)))) (\<lambda>_.
     act_then (os_check w) (\<lambda>_.
     act_then (open_root w l) (\<lambda>opened. ret (ok_or opened cli_io)))))))))))"

definition lock_root :: "('a, 'k) cli_world \<Rightarrow> unit cact" where
  "lock_root w =
     act_then (os_check w) (\<lambda>_. act_then (s_ask (cw_lock w)) (\<lambda>_. os_check w))"

section \<open>The entry in the bin directory\<close>

definition entry_target :: "locations \<Rightarrow> string" where
  "entry_target l = lo_root l @ ''/current/bin/bxdl''"

definition check_entry :: "('a, 'k) cli_world \<Rightarrow> locations \<Rightarrow> bool \<Rightarrow> unit cact" where
  "check_entry w l allow_missing =
     act_then (s_map_err entry_conflict (os_check w)) (\<lambda>_.
     act_then (s_view cd_entry) (\<lambda>e.
     s_check (case e of No_Entry \<Rightarrow> allow_missing | Entry_Link t \<Rightarrow> same_dir t (entry_target l) | Foreign_Entry \<Rightarrow> False)
       entry_conflict))"

definition ensure_entry :: "('a, 'k) cli_world \<Rightarrow> locations \<Rightarrow> unit cact" where
  "ensure_entry w l =
     act_then (check_entry w l True) (\<lambda>_.
     act_then (os_check w) (\<lambda>_.
     act_then (s_view (\<lambda>d. cd_entry d = No_Entry)) (\<lambda>missing.
     act_then (if missing
               then act_then (s_map_err entry_conflict (cli_effect w (Entry_Made (entry_target l)))) (\<lambda>_. os_check w)
               else ret (Inr ())) (\<lambda>_. check_entry w l False))))"

section \<open>The selection\<close>

definition act_names :: "act_dir \<Rightarrow> string list" where
  "act_names a = (case ac_selection a of None \<Rightarrow> [] | Some _ \<Rightarrow> [''selection.json'']) @ map fst (ac_links a)"

definition link_target :: "string \<Rightarrow> string \<Rightarrow> string" where
  "link_target release component = ''../../releases/'' @ release @ ''/payload/'' @ component"

definition selection_valid :: "selection \<Rightarrow> bool" where
  "selection_valid s \<longleftrightarrow>
     \<not> (sl_schema s \<noteq> 1 \<or> sl_kind s \<noteq> ''BXDL_CLI_ACTIVATION'' \<or> \<not> release_id_valid (sl_current s) \<or>
        (case sl_previous s of None \<Rightarrow> False | Some p \<Rightarrow> \<not> release_id_valid p \<or> p = sl_current s))"

definition read_activation :: "('a, 'k) cli_world \<Rightarrow> act_dir \<Rightarrow> selection result" where
  "read_activation w a =
     and_then (ok_or (ac_selection a) cli_unsafe) (\<lambda>raw.
     and_then (cli_decode w selection_of_json raw) (\<lambda>s.
     and_then (ensure (selection_valid s) cli_unsafe) (\<lambda>_.
     and_then (ensure (list_all (\<lambda>n. map_option components (map_of (ac_links a) n) =
         Some (components (link_target (sl_current s) n))) [''bin'', ''share'']) cli_unsafe) (\<lambda>_.
     and_then (ensure (list_all (\<lambda>n. n \<in> {''selection.json'', ''bin'', ''share''}) (act_names a)) cli_unsafe) (\<lambda>_.
     and_then (ensure (length (act_names a) = 3) cli_unsafe) (\<lambda>_. Inr s))))))"

definition activation_of_link :: "string \<Rightarrow> string result" where
  "activation_of_link text =
     (let n = drop (length ''activations/'') text in
      and_then (ensure (prefix ''activations/'' text \<and> activation_name n) cli_unsafe) (\<lambda>_. Inr n))"

definition get_selection :: "('a, 'k) cli_world \<Rightarrow> (string \<times> selection) option cact" where
  "get_selection w =
     act_then (os_check w) (\<lambda>_.
     act_then (s_view cd_current) (\<lambda>link.
     case link of
       None \<Rightarrow> ret (Inr None)
     | Some text \<Rightarrow>
         act_then (ret (activation_of_link text)) (\<lambda>n.
         act_then (s_view (\<lambda>d. map_of (cd_activations d) n)) (\<lambda>dir.
         act_then (ret (ok_or dir cli_unsafe)) (\<lambda>a.
         act_then (os_check w) (\<lambda>_.
         act_then (ret (read_activation w a)) (\<lambda>s.
         act_then (os_check w) (\<lambda>_. ret (Inr (Some (n, s)))))))))))"

section \<open>Admissions\<close>

definition release_path :: "locations \<Rightarrow> string \<Rightarrow> string" where
  "release_path l i = lo_root l @ ''/releases/'' @ i @ ''/payload''"

definition admission_ok :: "string \<Rightarrow> node_id \<Rightarrow> admission \<Rightarrow> unit result" where
  "admission_ok i dir a =
     and_then (ensure (ad_directory a = dir) cli_changed) (\<lambda>_.
     ensure (\<not> (ad_schema a \<noteq> 1 \<or> ad_kind a \<noteq> ''BXDL_CLI_ADMISSION'' \<or> ri_id (ad_release a) \<noteq> i \<or>
        i \<noteq> ri_version (ad_release a) @ ''-'' @ ri_revision (ad_release a))) cli_unsafe)"

definition get_admission :: "('a, 'k) cli_world \<Rightarrow> string \<Rightarrow> admission cact" where
  "get_admission w i =
     act_then (s_check (release_id_valid i) cli_unsafe) (\<lambda>_.
     act_then (s_view (\<lambda>d. map_of (cd_releases d) i)) (\<lambda>dir.
     act_then (ret (ok_or dir cli_unsafe)) (\<lambda>rd.
     act_then (os_check w) (\<lambda>_.
     act_then (ret (cli_decode w admission_of_json (rd_admission rd))) (\<lambda>a.
     act_then (os_check w) (\<lambda>_.
     act_then (ret (admission_ok i (rd_id rd) a)) (\<lambda>_. ret (Inr a))))))))"

definition integrity_at :: "('a, 'k) cli_world \<Rightarrow> string \<Rightarrow> cli_bundle cact" where
  "integrity_at w path =
     s_ask (\<lambda>t. case cw_source w t path of (m, src) \<Rightarrow> verify_integrity (cw_crypto w) m src)"

definition admitted :: "('a, 'k) cli_world \<Rightarrow> locations \<Rightarrow> string \<Rightarrow> (admission \<times> cli_bundle) cact" where
  "admitted w l i =
     act_then (get_admission w i) (\<lambda>a.
     act_then (os_check w) (\<lambda>_.
     act_then (s_map_err cli_changed (integrity_at w (release_path l i))) (\<lambda>b.
     let expected = (release_of_bundle b)\<lparr>ri_authenticity := ri_authenticity (ad_release a)\<rparr> in
     act_then (s_check (\<not> (ad_release a \<noteq> expected \<or> ad_signature a \<noteq> signature_hash (cw_crypto w) b)) cli_changed) (\<lambda>_.
     act_then (os_check w) (\<lambda>_.
     act_then (s_note (Admitted i)) (\<lambda>_. ret (Inr (a, b))))))))"

section \<open>Staging\<close>

definition probe_at :: "('a, 'k) cli_world \<Rightarrow> string \<Rightarrow> cli_manifest \<Rightarrow> unit cact" where
  "probe_at w path m =
     act_then (s_ask (\<lambda>t. cw_probe w t (path @ ''/bin/bxdl'') m)) (\<lambda>_. s_note (Probed path m))"

definition staged_names :: "string list" where
  "staged_names = [''bin/bxdl'', ''docs/management-cli.md'', ''docs/completion.md'', ''share/zsh/site-functions/_bxdl'']"

fun write_files :: "('a, 'k) cli_world \<Rightarrow> (string \<times> bytes) list \<Rightarrow> unit cact" where
  "write_files w [] = ret (Inr ())"
| "write_files w ((p, raw) # fs) =
     act_then (s_check (p \<in> set staged_names) cli_unsafe) (\<lambda>_. act_then (os_check w) (\<lambda>_. write_files w fs))"

definition check_staged :: "('a, 'k) cli_world \<Rightarrow> string \<Rightarrow> cli_bundle \<Rightarrow> unit cact" where
  "check_staged w path b =
     act_then (integrity_at w path) (\<lambda>c.
     s_check (\<not> (bundle_manifest_sha256 c \<noteq> bundle_manifest_sha256 b \<or>
        signature_hash (cw_crypto w) c \<noteq> signature_hash (cw_crypto w) b)) cli_changed)"

definition same_supply_as :: "('a, 'k) cli_world \<Rightarrow> cli_bundle \<Rightarrow> admission \<Rightarrow> unit cact" where
  "same_supply_as w b a =
     s_check (\<not> (ri_manifest_sha (ad_release a) \<noteq> bundle_manifest_sha256 b \<or>
        ad_signature a \<noteq> signature_hash (cw_crypto w) b)) ''CLI_RELEASE_CONFLICT''"

definition new_admission :: "('a, 'k) cli_world \<Rightarrow> cli_bundle \<Rightarrow> node_id \<Rightarrow> admission" where
  "new_admission w b dir = \<lparr>ad_schema = 1, ad_kind = ''BXDL_CLI_ADMISSION'', ad_release = release_of_bundle b,
     ad_directory = dir, ad_signature = signature_hash (cw_crypto w) b\<rparr>"

definition stage_known :: "('a, 'k) cli_world \<Rightarrow> locations \<Rightarrow> cli_bundle \<Rightarrow> admission cact" where
  "stage_known w l b =
     act_then (admitted w l (release_id b)) (\<lambda>(a, _).
     act_then (same_supply_as w b a) (\<lambda>_.
     act_then (probe_at w (release_path l (release_id b)) (bundle_manifest b)) (\<lambda>_.
     act_then (admitted w l (release_id b)) (\<lambda>_. ret (Inr a)))))"

definition stage_new :: "('a, 'k) cli_world \<Rightarrow> locations \<Rightarrow> cli_bundle \<Rightarrow> admission cact" where
  "stage_new w l b =
     act_then (s_view (\<lambda>d. length (cd_releases d) \<le> 256)) (\<lambda>few.
     act_then (s_check few cli_limit) (\<lambda>_.
     act_then (os_check w) (\<lambda>_.
     act_then (s_ask (\<lambda>t. Inr (cw_stage w t))) (\<lambda>(name, dir).
     act_then (os_check w) (\<lambda>_.
     let path = lo_root l @ ''/staging/'' @ name @ ''/payload'' in
     act_then (write_files w (bundle_files b)) (\<lambda>_.
     act_then (os_check w) (\<lambda>_.
     act_then (check_staged w path b) (\<lambda>_.
     act_then (probe_at w path (bundle_manifest b)) (\<lambda>_.
     act_then (check_staged w path b) (\<lambda>_.
     act_then (os_check w) (\<lambda>_.
     act_then (s_view (\<lambda>d. map_of (cd_releases d) (release_id b) = None)) (\<lambda>absent.
     act_then (s_check absent ''CLI_RELEASE_CONFLICT'') (\<lambda>_.
     let a = new_admission w b dir in
     act_then (os_check w) (\<lambda>_.
     act_then (cli_effect w (Release_Published (release_id b)
         \<lparr>rd_id = dir, rd_admission = cw_print w (json_of_admission a)\<rparr>)) (\<lambda>_.
     act_then (os_check w) (\<lambda>_.
     act_then (admitted w l (release_id b)) (\<lambda>_. ret (Inr a))))))))))))))))))"

definition stage_release :: "('a, 'k) cli_world \<Rightarrow> locations \<Rightarrow> cli_bundle \<Rightarrow> admission cact" where
  "stage_release w l b =
     act_then (os_check w) (\<lambda>_.
     act_then (s_view (\<lambda>d. map_of (cd_releases d) (release_id b) \<noteq> None)) (\<lambda>known.
     if known then stage_known w l b else stage_new w l b))"

section \<open>Activation\<close>

definition require_selection :: "('a, 'k) cli_world \<Rightarrow> (string \<times> selection) option \<Rightarrow> unit cact" where
  "require_selection w expected =
     act_then (get_selection w) (\<lambda>now. s_check (now = expected) ''CLI_SELECTION_CHANGED'')"

text \<open>The complete activation directory, before anything selects it.\<close>

definition make_activation :: "('a, 'k) cli_world \<Rightarrow> string \<Rightarrow> selection \<Rightarrow> unit cact" where
  "make_activation w name s =
     act_then (cli_effect w (Act_Made name)) (\<lambda>_.
     act_then (os_check w) (\<lambda>_.
     act_then (cli_effect w (Act_Selected name s (cw_print w (json_of_selection s)))) (\<lambda>_.
     act_then (os_check w) (\<lambda>_.
     act_then (cli_effect w (Act_Linked name ''bin'' (link_target (sl_current s) ''bin''))) (\<lambda>_.
     act_then (cli_effect w (Act_Linked name ''share'' (link_target (sl_current s) ''share''))) (\<lambda>_.
     os_check w))))))"

definition new_selection :: "string \<Rightarrow> string option \<Rightarrow> selection" where
  "new_selection current previous =
     \<lparr>sl_schema = 1, sl_kind = ''BXDL_CLI_ACTIVATION'', sl_current = current, sl_previous = previous\<rparr>"

definition activate ::
  "('a, 'k) cli_world \<Rightarrow> locations \<Rightarrow> string \<Rightarrow> string option \<Rightarrow> (string \<times> selection) option \<Rightarrow> string cact" where
  "activate w l current previous expected =
     act_then (os_check w) (\<lambda>_.
     act_then (check_entry w l True) (\<lambda>_.
     act_then (require_selection w expected) (\<lambda>_.
     act_then (s_view (\<lambda>d. map fst (cd_activations d))) (\<lambda>names.
     act_then (ret (next_activation names)) (\<lambda>n.
     let name = hex16 n; s = new_selection current previous in
     act_then (make_activation w name s) (\<lambda>_.
     act_then (admitted w l current) (\<lambda>_.
     act_then (ensure_entry w l) (\<lambda>_.
     act_then (os_check w) (\<lambda>_.
     act_then (require_selection w expected) (\<lambda>_.
     act_then (os_check w) (\<lambda>_.
     act_then (cli_effect w (Switched name s)) (\<lambda>_.
     act_then (s_map_err ''CLI_ACTIVATION_UNKNOWN'' (act_then (os_check w) (\<lambda>_.
       act_then (require_selection w (Some (name, s))) (\<lambda>_. check_entry w l False)))) (\<lambda>_.
     ret (Inr name))))))))))))))"

section \<open>Reports\<close>

record cli_report =
  rp_action :: string
  rp_status :: string
  rp_changed :: bool
  rp_current :: "release_info option"
  rp_previous :: "release_info option"
  rp_activation :: "string option"

definition previous_release :: "('a, 'k) cli_world \<Rightarrow> string option \<Rightarrow> release_info option cact" where
  "previous_release w p =
     (case p of None \<Rightarrow> ret (Inr None)
      | Some i \<Rightarrow> act_then (get_admission w i) (\<lambda>a. ret (Inr (Some (ad_release a)))))"

definition nothing_installed :: cli_report where
  "nothing_installed = \<lparr>rp_action = ''info'', rp_status = ''NOT_INSTALLED'', rp_changed = False, rp_current = None,
     rp_previous = None, rp_activation = None\<rparr>"

definition cli_info :: "('a, 'k) cli_world \<Rightarrow> locations \<Rightarrow> cli_report cact" where
  "cli_info w l =
     act_then (open_root w l) (\<lambda>root.
     if root = None then ret (Inr nothing_installed)
     else act_then (get_selection w) (\<lambda>sel.
       case sel of
         None \<Rightarrow> ret (Inr nothing_installed)
       | Some (n, s) \<Rightarrow>
           act_then (check_entry w l False) (\<lambda>_.
           act_then (admitted w l (sl_current s)) (\<lambda>(a, _).
           act_then (previous_release w (sl_previous s)) (\<lambda>previous.
           act_then (require_selection w (Some (n, s))) (\<lambda>_.
           ret (Inr \<lparr>rp_action = ''info'', rp_status = ''READY'', rp_changed = False, rp_current = Some (ad_release a),
                    rp_previous = previous, rp_activation = Some n\<rparr>)))))))"

section \<open>Installation, update, rollback\<close>

definition require_macos :: "('a, 'k) cli_world \<Rightarrow> unit cact" where
  "require_macos w = s_check (cw_macos w) ''CLI_PLATFORM_UNSUPPORTED''"

text \<open>Everything before the store is changed or created: the trust, and the bundle verified under it.\<close>

definition trusted_supply :: "('a, 'k) cli_world \<Rightarrow> cli_options \<Rightarrow> bool \<Rightarrow> (cli_record option \<times> cli_trust \<times> cli_bundle) cact" where
  "trusted_supply w op update =
     (let l = co_locations op in
     act_then (check_locations w l) (\<lambda>_.
     act_then (open_root w l) (\<lambda>existing.
     act_then (s_check (\<not> (update \<and> existing = None)) not_installed) (\<lambda>_.
     act_then (if existing \<noteq> None then check_entry w l (\<not> update)
               else act_then (s_ask (cw_bin w)) (\<lambda>bin.
                 if bin = None then ret (Inr ())
                 else act_then (os_check w) (\<lambda>_.
                   act_then (s_view (\<lambda>d. cd_entry d = No_Entry)) (\<lambda>free. s_check free entry_conflict)))) (\<lambda>_.
     act_then (case existing of
         Some r \<Rightarrow> act_then (s_ask (\<lambda>t. accept_options (cw_key_of w) (cw_load_key w t) (cr_trust r) (co_trust op)))
                     (\<lambda>_. ret (Inr (cr_trust r)))
       | None \<Rightarrow> s_ask (\<lambda>t. trust_initial (cw_load_key w t) (cw_key_hex w) (co_trust op))) (\<lambda>trust.
     act_then (s_ask (\<lambda>t. cw_source_path w t (co_from op))) (\<lambda>supply.
     act_then (s_ask (\<lambda>t. overlaps (cw_eqv w) (cw_fs w t) (lo_root l) supply)) (\<lambda>o'.
     act_then (s_check (\<not> o') ''CLI_LOCATION_CONFLICT'') (\<lambda>_.
     act_then (s_ask (\<lambda>t. trust_verify (cw_crypto w) (cw_key_of w) trust (snd (cw_source w t supply)))) (\<lambda>b.
     act_then (s_note (Supply_Trusted trust b)) (\<lambda>_. ret (Inr (existing, trust, b)))))))))))))"

definition unchanged_release ::
  "('a, 'k) cli_world \<Rightarrow> locations \<Rightarrow> bool \<Rightarrow> cli_bundle \<Rightarrow> string \<Rightarrow> selection \<Rightarrow> cli_report cact" where
  "unchanged_release w l update b n s =
     act_then (admitted w l (sl_current s)) (\<lambda>(a, _).
     act_then (same_supply_as w b a) (\<lambda>_.
     act_then (s_view (\<lambda>d. cd_entry d = No_Entry)) (\<lambda>missing.
     act_then (ensure_entry w l) (\<lambda>_.
     act_then (previous_release w (sl_previous s)) (\<lambda>previous.
     ret (Inr \<lparr>rp_action = (if update then ''update'' else ''install''), rp_status = ''UNCHANGED'', rp_changed = missing,
              rp_current = Some (ad_release a), rp_previous = previous, rp_activation = Some n\<rparr>))))))"

definition switch_release ::
  "('a, 'k) cli_world \<Rightarrow> locations \<Rightarrow> bool \<Rightarrow> cli_bundle \<Rightarrow> (string \<times> selection) option \<Rightarrow> cli_report cact" where
  "switch_release w l update b old =
     act_then (stage_release w l b) (\<lambda>a.
     let previous = map_option (\<lambda>(_, s). sl_current s) old in
     act_then (activate w l (ri_id (ad_release a)) previous old) (\<lambda>n.
     act_then (s_map_err ''CLI_ACTIVATION_UNKNOWN'' (previous_release w previous)) (\<lambda>p.
     ret (Inr \<lparr>rp_action = (if update then ''update'' else ''install''), rp_status = (if update then ''UPDATED'' else ''INSTALLED''),
              rp_changed = True, rp_current = Some (ad_release a), rp_previous = p, rp_activation = Some n\<rparr>))))"

definition cli_install :: "('a, 'k) cli_world \<Rightarrow> cli_options \<Rightarrow> bool \<Rightarrow> cli_report cact" where
  "cli_install w op update =
     act_then (require_macos w) (\<lambda>_.
     act_then (s_check (\<not> (update \<and> co_from op = None)) ''INVALID_ARGUMENTS'') (\<lambda>_.
     let l = co_locations op in
     act_then (trusted_supply w op update) (\<lambda>(existing, trust, b).
     act_then (case existing of Some r \<Rightarrow> ret (Inr r) | None \<Rightarrow> create_root w l trust) (\<lambda>_.
     act_then (lock_root w) (\<lambda>_.
     act_then (get_selection w) (\<lambda>old.
     act_then (s_check (\<not> (update \<and> old = None)) not_installed) (\<lambda>_.
     case old of
       None \<Rightarrow> switch_release w l update b old
     | Some (n, s) \<Rightarrow>
         if sl_current s = release_id b then unchanged_release w l update b n s
         else act_then (s_check update ''CLI_ALREADY_INSTALLED'') (\<lambda>_. switch_release w l update b old))))))))"

definition cli_rollback :: "('a, 'k) cli_world \<Rightarrow> locations \<Rightarrow> cli_report cact" where
  "cli_rollback w l =
     act_then (require_macos w) (\<lambda>_.
     act_then (check_locations w l) (\<lambda>_.
     act_then (open_root w l) (\<lambda>root.
     act_then (ret (ok_or root not_installed)) (\<lambda>_.
     act_then (lock_root w) (\<lambda>_.
     act_then (check_entry w l False) (\<lambda>_.
     act_then (get_selection w) (\<lambda>sel.
     act_then (ret (ok_or sel not_installed)) (\<lambda>(n, s).
     act_then (ret (ok_or (sl_previous s) ''CLI_PREVIOUS_MISSING'')) (\<lambda>previous.
     act_then (admitted w l previous) (\<lambda>(candidate, b).
     act_then (probe_at w (release_path l previous) (bundle_manifest b)) (\<lambda>_.
     act_then (get_admission w (sl_current s)) (\<lambda>current.
     act_then (activate w l previous (Some (sl_current s)) (Some (n, s))) (\<lambda>name.
     ret (Inr \<lparr>rp_action = ''rollback'', rp_status = ''ROLLED_BACK'', rp_changed = True,
              rp_current = Some (ad_release candidate), rp_previous = Some (ad_release current),
              rp_activation = Some name\<rparr>))))))))))))))"

end
