(* ===== verification/CliLog.thy ===== *)
theory CliLog
  imports CliStore
begin

text \<open>
  What the store of management releases may log, and that every operation keeps to it: the links
  and directories replay the log, releases are admitted once and under the recorded trust, and the
  selection that is read is the newest switch.
\<close>

section \<open>Reading a log\<close>

definition switches :: "cli_event list \<Rightarrow> (string \<times> selection) list" where
  "switches l = List.map_filter (\<lambda>e. case e of Switched n s \<Rightarrow> Some (n, s) | _ \<Rightarrow> None) l"

definition acts_made :: "cli_event list \<Rightarrow> string list" where
  "acts_made l = List.map_filter (\<lambda>e. case e of Act_Made n \<Rightarrow> Some n | _ \<Rightarrow> None) l"

definition releases_made :: "cli_event list \<Rightarrow> string list" where
  "releases_made l = List.map_filter (\<lambda>e. case e of Release_Published i rd \<Rightarrow> Some i | _ \<Rightarrow> None) l"

definition roots_made :: "cli_event list \<Rightarrow> cli_record list" where
  "roots_made l = List.map_filter (\<lambda>e. case e of Root_Published r raw \<Rightarrow> Some r | _ \<Rightarrow> None) l"

lemmas cli_readings = switches_def acts_made_def releases_made_def roots_made_def

lemma cli_readings_Nil [simp]: "switches [] = []" "acts_made [] = []" "releases_made [] = []" "roots_made [] = []"
  by (simp_all add: cli_readings map_filter_def)

lemma switches_snoc [simp]:
  "switches (l @ [e]) = switches l @ (case e of Switched n s \<Rightarrow> [(n, s)] | _ \<Rightarrow> [])"
  by (cases e) (simp_all add: switches_def map_filter_def)

lemma acts_made_snoc [simp]: "acts_made (l @ [e]) = acts_made l @ (case e of Act_Made n \<Rightarrow> [n] | _ \<Rightarrow> [])"
  by (cases e) (simp_all add: acts_made_def map_filter_def)

lemma releases_made_snoc [simp]:
  "releases_made (l @ [e]) = releases_made l @ (case e of Release_Published i rd \<Rightarrow> [i] | _ \<Rightarrow> [])"
  by (cases e) (simp_all add: releases_made_def map_filter_def)

lemma roots_made_snoc [simp]:
  "roots_made (l @ [e]) = roots_made l @ (case e of Root_Published r raw \<Rightarrow> [r] | _ \<Rightarrow> [])"
  by (cases e) (simp_all add: roots_made_def map_filter_def)

definition newest_switch :: "cli_event list \<Rightarrow> (string \<times> selection) option" where
  "newest_switch l = (if switches l = [] then None else Some (last (switches l)))"

lemma newest_switch_snoc [simp]:
  "newest_switch (l @ [e]) = (case e of Switched n s \<Rightarrow> Some (n, s) | _ \<Rightarrow> newest_switch l)"
  by (cases e) (simp_all add: newest_switch_def)

definition current_of :: "(string \<times> selection) option \<Rightarrow> string option" where
  "current_of x = map_option (\<lambda>(n, s). sl_current s) x"

text \<open>Since the last switch.\<close>

definition since_switch :: "cli_event list \<Rightarrow> cli_event list" where
  "since_switch l = rev (takeWhile (\<lambda>e. \<not> (\<exists>n s. e = Switched n s)) (rev l))"

lemma since_switch_snoc [simp]:
  "since_switch (l @ [e]) = (case e of Switched n s \<Rightarrow> [] | _ \<Rightarrow> since_switch l @ [e])"
  by (cases e) (simp_all add: since_switch_def)

definition probed_for :: "string \<Rightarrow> cli_event list \<Rightarrow> bool" where
  "probed_for i l \<longleftrightarrow> (\<exists>p m. Probed p m \<in> set (since_switch l) \<and> i = cli_version m @ ''-'' @ cli_revision m)"

section \<open>What may come next\<close>

text \<open>\<open>selection_made n s l\<close>: the complete selection \<open>s\<close> is in activation \<open>n\<close>.\<close>

definition selection_made :: "('a, 'k) cli_world \<Rightarrow> string \<Rightarrow> selection \<Rightarrow> cli_event list \<Rightarrow> bool" where
  "selection_made w n s l \<longleftrightarrow> Act_Selected n s (cw_print w (json_of_selection s)) \<in> set l \<and>
     Act_Linked n ''bin'' (link_target (sl_current s) ''bin'') \<in> set l \<and>
     Act_Linked n ''share'' (link_target (sl_current s) ''share'') \<in> set l"

definition trusted_under :: "('a, 'k) cli_world \<Rightarrow> cli_trust \<Rightarrow> cli_bundle \<Rightarrow> bool" where
  "trusted_under w t b \<longleftrightarrow> (\<exists>src. trust_verify (cw_crypto w) (cw_key_of w) t src = Inr b)"

definition just_admitted :: "string \<Rightarrow> cli_event list \<Rightarrow> bool" where
  "just_admitted i l \<longleftrightarrow> (\<exists>l0. l = l0 @ [Admitted i] \<or> (\<exists>t. l = l0 @ [Admitted i, Entry_Made t]))"

fun cli_may :: "('a, 'k) cli_world \<Rightarrow> cli_event list \<Rightarrow> cli_event \<Rightarrow> bool" where
  "cli_may w l (Root_Published r raw) \<longleftrightarrow> roots_made l = [] \<and> raw = cw_print w (json_of_cli_record r)"
| "cli_may w l (Supply_Trusted t b) \<longleftrightarrow> trusted_under w t b \<and> (\<forall>r \<in> set (roots_made l). cr_trust r = t)"
| "cli_may w l (Release_Published i rd) \<longleftrightarrow> i \<notin> set (releases_made l) \<and>
     (\<exists>t b. Supply_Trusted t b \<in> set l \<and> (\<exists>r \<in> set (roots_made l). cr_trust r = t) \<and> i = release_id b \<and> probed_for i l \<and>
        rd_admission rd = cw_print w (json_of_admission (new_admission w b (rd_id rd))))"
| "cli_may w l (Admitted i) \<longleftrightarrow> i \<in> set (releases_made l) \<and> release_id_valid i"
| "cli_may w l (Act_Made n) \<longleftrightarrow>
     (\<exists>k. next_activation (acts_made l) = Inr k \<and> n = hex16 k)"
| "cli_may w l (Act_Selected n s raw) \<longleftrightarrow> l \<noteq> [] \<and> last l = Act_Made n \<and> raw = cw_print w (json_of_selection s)"
| "cli_may w l (Act_Linked n c t) \<longleftrightarrow> l \<noteq> [] \<and>
     (c = ''bin'' \<and> (\<exists>s raw. last l = Act_Selected n s raw) \<or> c = ''share'' \<and> (\<exists>t'. last l = Act_Linked n ''bin'' t'))"
| "cli_may w l (Switched n s) \<longleftrightarrow> selection_made w n s l \<and> selection_valid s \<and> sl_current s \<in> set (releases_made l) \<and>
     sl_previous s = current_of (newest_switch l) \<and> sl_previous s \<noteq> Some (sl_current s) \<and>
     just_admitted (sl_current s) l \<and> probed_for (sl_current s) l"
| "cli_may w l _ \<longleftrightarrow> True"

definition no_disk :: "cli_disk" where
  "no_disk = \<lparr>cd_marker = None, cd_releases = [], cd_activations = [], cd_current = None, cd_entry = No_Entry\<rparr>"

abbreviation cli_sound :: "('a, 'k) cli_world \<Rightarrow> (cli_disk, cli_event) site \<Rightarrow> bool" where
  "cli_sound w \<equiv> site_ok cli_apply no_disk (cli_may w)"

abbreviation cli_disk_after :: "cli_event list \<Rightarrow> cli_disk" where
  "cli_disk_after \<equiv> replayed cli_apply no_disk"

abbreviation cli_runs :: "('a, 'k) cli_world \<Rightarrow> (cli_event list \<Rightarrow> bool) \<Rightarrow> 'b cact \<Rightarrow> ('b \<Rightarrow> cli_event list \<Rightarrow> bool) \<Rightarrow> bool" where
  "cli_runs w \<equiv> runs cli_apply no_disk (cli_may w)"

section \<open>The numbering\<close>

lemma hex16_reads:
  assumes "n \<le> u64_max"
  shows "length (hex16 n) = 16" "parse_uint 16 u64_max (hex16 n) = Some n"
proof -
  have n: "n < 16 ^ 16" using assms by simp
  then have l: "length (show_radix 16 n) \<le> 16" by (intro length_show_radix_le) auto
  then show "length (hex16 n) = 16" by (simp add: hex16_def)
  have d: "digit_val c < 16" if c: "c \<in> set (hex16 n)" for c
  proof -
    consider "c = CHR ''0''" | "c \<in> set (show_radix 16 n)" using c by (auto simp: hex16_def)
    then show ?thesis
    proof cases
      case 2
      then obtain d where "d < 16" "c = digit_char d" using show_radix_digits [of 16 c n] by auto
      then show ?thesis by simp
    qed (simp add: digit_val_def is_digit_def)
  qed
  have p: "hex16 n \<noteq> []" by (simp add: hex16_def)
  have "CHR ''+'' \<notin> set (hex16 n)"
    using d [of "CHR ''+''"] by (auto simp: digit_val_def is_digit_def is_lower_def is_upper_def)
  with p have h: "(case hex16 n of c # r \<Rightarrow> if c = CHR ''+'' then r else hex16 n | [] \<Rightarrow> []) = hex16 n"
    by (cases "hex16 n") auto
  have "read_radix 16 (hex16 n) = n" by (simp add: hex16_def)
  then show "parse_uint 16 u64_max (hex16 n) = Some n"
    using p d assms by (simp add: parse_uint_def h list_all_iff)
qed

lemma next_activation_new:
  assumes "next_activation ns = Inr k"
  shows "k \<le> u64_max" "hex16 k \<notin> set ns" "m \<in> set ns \<Longrightarrow> \<exists>j<k. parse_uint 16 u64_max m = Some j"
proof -
  from next_after_bounds [OF assms [unfolded next_activation_def]]
  have b: "\<forall>s\<in>set ns. \<exists>m. parse_uint 16 u64_max s = Some m \<and> m < k" "k \<le> u64_max" by auto
  show "k \<le> u64_max" by (rule b(2))
  show "m \<in> set ns \<Longrightarrow> \<exists>j<k. parse_uint 16 u64_max m = Some j" using b(1) by auto
  show "hex16 k \<notin> set ns" using b hex16_reads(2) [OF b(2)] by auto
qed

section \<open>The disk after a log\<close>

lemma upd_act_simps [simp]:
  "map fst (upd_act n f xs) = map fst xs"
  "map_of (upd_act n f xs) m = (if m = n then map_option f (map_of xs m) else map_of xs m)"
  by (induction xs) (auto simp: upd_act_def split_beta)

lemma disk_names:
  "map fst (cd_releases (cli_disk_after l)) = releases_made l" "map fst (cd_activations (cli_disk_after l)) = acts_made l"
  "cd_current (cli_disk_after l) = map_option (\<lambda>(n, s). ''activations/'' @ n) (newest_switch l)"
proof -
  show "map fst (cd_releases (cli_disk_after l)) = releases_made l"
  proof (induction l rule: rev_induct)
    case (snoc e l)
    then show ?case by (cases e) simp_all
  qed (simp add: no_disk_def)
  show "map fst (cd_activations (cli_disk_after l)) = acts_made l"
  proof (induction l rule: rev_induct)
    case (snoc e l)
    then show ?case by (cases e) simp_all
  qed (simp add: no_disk_def)
  show "cd_current (cli_disk_after l) = map_option (\<lambda>(n, s). ''activations/'' @ n) (newest_switch l)"
  proof (induction l rule: rev_induct)
    case (snoc e l)
    then show ?case by (cases e) simp_all
  qed (simp add: no_disk_def newest_switch_def)
qed

lemma disk_marker:
  assumes "permitted (cli_may w) l"
  shows "cd_marker (cli_disk_after l) =
    (case roots_made l of [] \<Rightarrow> None | r # _ \<Rightarrow> Some (cw_print w (json_of_cli_record r)))"
  using assms
proof (induction rule: permitted.induct)
  case (permitted_snoc l e)
  then show ?case by (cases e) (auto split: list.splits)
qed (simp add: no_disk_def)

lemma at_most_one_root: "permitted (cli_may w) l \<Longrightarrow> length (roots_made l) \<le> 1"
proof (induction rule: permitted.induct)
  case (permitted_snoc l e)
  then show ?case by (cases e) auto
qed simp

lemma made_distinct: "permitted (cli_may w) l \<Longrightarrow> distinct (acts_made l) \<and> distinct (releases_made l)"
proof (induction rule: permitted.induct)
  case (permitted_snoc l e)
  then show ?case by (cases e) (auto dest: next_activation_new(2))
qed simp

lemma last_event: "l \<noteq> [] \<Longrightarrow> last l = e \<Longrightarrow> \<exists>l0. l = l0 @ [e]"
  by (metis append_butlast_last_id)

lemma selected_is_made: "permitted (cli_may w) l \<Longrightarrow> Act_Selected n s raw \<in> set l \<Longrightarrow> n \<in> set (acts_made l)"
proof (induction arbitrary: n s raw rule: permitted.induct)
  case (permitted_snoc l e)
  show ?case
  proof (cases "Act_Selected n s raw \<in> set l")
    case False
    then have e: "e = Act_Selected n s raw" using permitted_snoc.prems by simp
    then obtain l0 where "l = l0 @ [Act_Made n]" using permitted_snoc.hyps(2) last_event [of l "Act_Made n"] by auto
    then show ?thesis using e by (simp add: acts_made_def map_filter_def)
  qed (use permitted_snoc.IH in auto)
qed simp

lemma disk_selection:
  "permitted (cli_may w) l \<Longrightarrow> Act_Selected n s (cw_print w (json_of_selection s)) \<in> set l \<Longrightarrow>
     \<exists>a. map_of (cd_activations (cli_disk_after l)) n = Some a \<and> ac_selection a = Some (cw_print w (json_of_selection s))"
proof (induction arbitrary: n s rule: permitted.induct)
  case (permitted_snoc l e)
  have names: "map fst (cd_activations (cli_disk_after l)) = acts_made l" by (rule disk_names)
  show ?case
  proof (cases "Act_Selected n s (cw_print w (json_of_selection s)) \<in> set l")
    case True
    then obtain a where a: "map_of (cd_activations (cli_disk_after l)) n = Some a"
      "ac_selection a = Some (cw_print w (json_of_selection s))" using permitted_snoc.IH by blast
    show ?thesis
    proof (cases e)
      case (Act_Made m)
      then show ?thesis using a by (simp add: map_add_Some_iff)
    next
      case (Act_Selected m s' raw)
      then obtain l0 where l0: "l = l0 @ [Act_Made m]"
        using permitted_snoc.hyps(2) last_event [of l "Act_Made m"] by auto
      have "m \<notin> set (acts_made l0)"
        using permitted_snoc.hyps(1) l0 by (auto simp: permitted_iff dest: next_activation_new(2))
      moreover have "Act_Selected n s (cw_print w (json_of_selection s)) \<in> set l0"
        using True l0 by simp
      then have "n \<in> set (acts_made l0)" using selected_is_made permitted_snoc.hyps(1) l0 by (metis permitted_iff)
      ultimately show ?thesis using a Act_Selected by auto
    next
      case (Act_Linked m c t)
      then show ?thesis using a by (cases "n = m") auto
    qed (use a in simp_all)
  next
    case False
    then have e: "e = Act_Selected n s (cw_print w (json_of_selection s))"
      using permitted_snoc.prems by simp
    then obtain l0 where l0: "l = l0 @ [Act_Made n]"
      using permitted_snoc.hyps(2) last_event [of l "Act_Made n"] by auto
    have "n \<in> set (map fst (cd_activations (cli_disk_after l)))" unfolding names by (simp add: l0)
    then obtain a where "map_of (cd_activations (cli_disk_after l)) n = Some a"
      by (metis map_of_eq_None_iff not_None_eq set_map)
    then show ?thesis by (simp add: e)
  qed
qed simp

text \<open>The links of an activation.\<close>

definition links_of :: "string \<Rightarrow> cli_event list \<Rightarrow> (string \<times> string) list" where
  "links_of n l = List.map_filter (\<lambda>e. case e of Act_Linked m c t \<Rightarrow> if m = n then Some (c, t) else None | _ \<Rightarrow> None) l"

lemma links_of_simps [simp]:
  "links_of n [] = []"
  "links_of n (l @ [e]) = links_of n l @ (case e of Act_Linked m c t \<Rightarrow> if m = n then [(c, t)] else [] | _ \<Rightarrow> [])"
  by (simp_all add: links_of_def map_filter_def split: cli_event.splits)

lemma links_of_iff: "(c, t) \<in> set (links_of n l) \<longleftrightarrow> Act_Linked n c t \<in> set l"
  by (induction l rule: rev_induct) (auto split: cli_event.splits)

text \<open>Nothing is linked before its activation is made, and an activation has at most the two links.\<close>

lemma ends_with: "l \<noteq> [] \<Longrightarrow> last l = e \<Longrightarrow> l = butlast l @ [e]"
  by (metis append_butlast_last_id)

lemma linked_is_made: "permitted (cli_may w) l \<Longrightarrow> Act_Linked n c t \<in> set l \<Longrightarrow> n \<in> set (acts_made l)"
proof (induction arbitrary: c t rule: permitted.induct)
  case (permitted_snoc l e)
  show ?case
  proof (cases "Act_Linked n c t \<in> set l")
    case False
    then have e: "e = Act_Linked n c t" using permitted_snoc.prems by simp
    with permitted_snoc.hyps(2) have l: "l \<noteq> []" "(\<exists>s raw. last l = Act_Selected n s raw) \<or> (\<exists>t'. last l = Act_Linked n ''bin'' t')"
      by auto
    have "last l \<in> set l" using l(1) by simp
    then have "n \<in> set (acts_made l)" using l(2) permitted_snoc.IH selected_is_made [OF permitted_snoc.hyps(1)] by metis
    then show ?thesis by simp
  qed (use permitted_snoc.IH in auto)
qed simp

lemma links_unmade: "permitted (cli_may w) l \<Longrightarrow> n \<notin> set (acts_made l) \<Longrightarrow> links_of n l = []"
  using linked_is_made links_of_iff by (metis list.set_intros(1) neq_Nil_conv surj_pair)

lemma links_at_selection:
  assumes "permitted (cli_may w) (l @ [Act_Selected n s raw])"
  shows "links_of n l = []"
proof -
  have l: "permitted (cli_may w) l" "l = butlast l @ [Act_Made n]" using assms ends_with by (auto simp: permitted_iff)
  then have "permitted (cli_may w) (butlast l @ [Act_Made n])" by simp
  then have "permitted (cli_may w) (butlast l)" "n \<notin> set (acts_made (butlast l))"
    by (auto simp: permitted_iff dest: next_activation_new(2))
  then have "links_of n (butlast l) = []" by (rule links_unmade)
  then show ?thesis by (subst l(2)) simp
qed

lemma links_at_bin:
  assumes "permitted (cli_may w) (l @ [Act_Linked n ''bin'' t])"
  shows "links_of n l = []"
proof -
  have l0: "permitted (cli_may w) l" "l \<noteq> [] \<and> (\<exists>s raw. last l = Act_Selected n s raw)"
    using assms by (auto simp: permitted_iff)
  then obtain s raw where "l \<noteq> []" "last l = Act_Selected n s raw" by blast
  from ends_with [OF this] l0(1) have l: "permitted (cli_may w) l" "l = butlast l @ [Act_Selected n s raw]" by blast+
  have "links_of n (butlast l) = []" using links_at_selection [of w "butlast l" n s raw] l by simp
  then show ?thesis by (subst l(2)) simp
qed

lemma links_shape:
  "permitted (cli_may w) l \<Longrightarrow> links_of n l = [] \<or> (\<exists>t. links_of n l = [(''bin'', t)]) \<or>
     (\<exists>t t'. links_of n l = [(''bin'', t), (''share'', t')])"
proof (induction rule: permitted.induct)
  case (permitted_snoc l e)
  show ?case
  proof (cases "\<exists>c t. e = Act_Linked n c t")
    case True
    then obtain c t where e: "e = Act_Linked n c t" by blast
    with permitted_snoc.hyps(2) have "c = ''bin'' \<or> c = ''share'' \<and> l \<noteq> [] \<and> (\<exists>t'. last l = Act_Linked n ''bin'' t')" by auto
    then consider "c = ''bin''" | t' where "c = ''share''" "l \<noteq> []" "last l = Act_Linked n ''bin'' t'" by blast
    then show ?thesis
    proof cases
      case 1
      then have "links_of n l = []" using links_at_bin [of w l n t] e permitted_snoc.hyps by (simp add: permitted_iff)
      then show ?thesis using e 1 by simp
    next
      case 2
      note l = ends_with [OF 2(2,3)]
      have "links_of n (butlast l) = []" using links_at_bin [of w "butlast l" n t'] l permitted_snoc.hyps(1) by simp
      then have "links_of n l = [(''bin'', t')]" by (subst l) simp
      then show ?thesis using e 2(1) by simp
    qed
  qed (use permitted_snoc.IH in \<open>auto split: cli_event.splits\<close>)
qed simp

lemma disk_links:
  "permitted (cli_may w) l \<Longrightarrow> map_of (cd_activations (cli_disk_after l)) n = Some a \<Longrightarrow> ac_links a = links_of n l"
proof (induction arbitrary: a rule: permitted.induct)
  case (permitted_snoc l e)
  show ?case
  proof (cases e)
    case (Act_Made m)
    show ?thesis
    proof (cases "n \<in> set (acts_made l)")
      case False
      then have "map_of (cd_activations (cli_disk_after l)) n = None"
        by (metis disk_names(2) map_of_eq_None_iff set_map)
      with Act_Made permitted_snoc.prems links_unmade [OF permitted_snoc.hyps(1) False] show ?thesis
        by (auto simp: map_add_Some_iff split: if_splits)
    next
      case True
      then obtain b where "map_of (cd_activations (cli_disk_after l)) n = Some b"
        by (metis disk_names(2) map_of_eq_None_iff not_None_eq set_map)
      moreover have "m \<noteq> n" using True permitted_snoc.hyps(2) Act_Made by (auto dest: next_activation_new(2))
      ultimately show ?thesis using Act_Made permitted_snoc.prems permitted_snoc.IH
        by (auto simp: map_add_Some_iff split: if_splits)
    qed
  qed (use permitted_snoc in \<open>auto split: if_splits\<close>)
qed (simp add: no_disk_def)

text \<open>A complete activation, as it is on the disk.\<close>

lemma disk_complete:
  assumes "permitted (cli_may w) l" "selection_made w n s l"
  shows "map_of (cd_activations (cli_disk_after l)) n = Some \<lparr>ac_selection = Some (cw_print w (json_of_selection s)),
    ac_links = [(''bin'', link_target (sl_current s) ''bin''), (''share'', link_target (sl_current s) ''share'')]\<rparr>"
proof -
  obtain a where a: "map_of (cd_activations (cli_disk_after l)) n = Some a" "ac_selection a = Some (cw_print w (json_of_selection s))"
    using disk_selection [OF assms(1)] assms(2) unfolding selection_made_def by blast
  have "(''bin'', link_target (sl_current s) ''bin'') \<in> set (links_of n l)" "(''share'', link_target (sl_current s) ''share'') \<in> set (links_of n l)"
    using assms(2) by (simp_all add: links_of_iff selection_made_def)
  then have "links_of n l = [(''bin'', link_target (sl_current s) ''bin''), (''share'', link_target (sl_current s) ''share'')]"
    using links_shape [OF assms(1), of n] by auto
  then show ?thesis using disk_links [OF assms(1) a(1)] a by (cases a) simp
qed

lemma switched_is_made:
  "permitted (cli_may w) l \<Longrightarrow> (n, s) \<in> set (switches l) \<Longrightarrow> selection_made w n s l"
proof (induction rule: permitted.induct)
  case (permitted_snoc l e)
  then show ?case by (cases e) (auto simp: selection_made_def)
qed simp

end
