(* ===== verification/CliOps.thy ===== *)
theory CliOps
  imports CliLog
begin

text \<open>Every operation of the store of management releases keeps to what its log may hold.\<close>

section \<open>Reading\<close>

definition cli_faithful :: "('a, 'k) cli_world \<Rightarrow> bool" where
  "cli_faithful w \<longleftrightarrow>
     (\<forall>s y. cli_decode w selection_of_json (cw_print w (json_of_selection s)) = Inr y \<longrightarrow> y = s) \<and>
     (\<forall>r y. cli_decode w cli_record_of_json (cw_print w (json_of_cli_record r)) = Inr y \<longrightarrow> y = r)"

lemma reads_os [reads_intro]: "reads (os_check w)"
  unfolding os_check_def by (intro reads_intro)

lemma reads_open_root [reads_intro]: "reads (open_root w l)"
  unfolding open_root_def by (intro reads_intro)

lemma reads_lock_root [reads_intro]: "reads (lock_root w)"
  unfolding lock_root_def by (intro reads_intro)

lemma reads_check_entry [reads_intro]: "reads (check_entry w l b)"
  unfolding check_entry_def by (intro reads_intro)

lemma reads_get_selection [reads_intro]: "reads (get_selection w)"
  unfolding get_selection_def by (intro reads_intro)

lemma reads_get_admission [reads_intro]: "reads (get_admission w i)"
  unfolding get_admission_def by (intro reads_intro)

lemma reads_integrity [reads_intro]: "reads (integrity_at w p)"
  unfolding integrity_at_def by (intro reads_intro)

lemma reads_cli_checks [reads_intro]:
  "reads (check_locations w l)" "reads (check_staged w p b)" "reads (same_supply_as w b a)"
  "reads (require_selection w x)" "reads (previous_release w q)" "reads (require_macos w)"
  unfolding check_locations_def check_staged_def same_supply_as_def require_selection_def previous_release_def require_macos_def
  by (intro reads_intro)+

lemma reads_write_files [reads_intro]: "reads (write_files w fs)"
  by (induction fs rule: write_files.induct) (auto intro!: reads_intro)

lemmas cli_step_defs = act_then_Inr os_check_def s_ask_def s_view_def s_check_def ret_def ok_or_def ensure_def fail_def

lemma read_activation_decodes:
  "read_activation w a = Inr y \<Longrightarrow> \<exists>raw. ac_selection a = Some raw \<and> cli_decode w selection_of_json raw = Inr y"
  unfolding read_activation_def and_then_eq_Inr
  by (cases "ac_selection a") (auto simp only: ok_or_def fail_def option.case sum.inject sum.distinct)

lemma get_selection_is:
  assumes "cli_sound w s" "cli_faithful w" "fst (get_selection w s) = Inr x"
  shows "x = newest_switch (so_far s)"
proof (cases "newest_switch (so_far s)")
  case None
  then have "cd_current (on_disk s) = None" using assms(1) disk_names(3) by (simp add: site_ok_def)
  with assms(3) None show ?thesis by (auto simp: get_selection_def cli_step_defs)
next
  case (Some ns)
  then obtain n t where nt: "newest_switch (so_far s) = Some (n, t)" by (cases ns) auto
  have p: "permitted (cli_may w) (so_far s)" "on_disk s = cli_disk_after (so_far s)" using assms(1) by (simp_all add: site_ok_def)
  have "(n, t) \<in> set (switches (so_far s))" using nt unfolding newest_switch_def
    by (metis last_in_set option.distinct(1) option.inject)
  with switched_is_made [OF p(1)] disk_selection [OF p(1)]
  obtain a where a: "map_of (cd_activations (on_disk s)) n = Some a"
    "ac_selection a = Some (cw_print w (json_of_selection t))" unfolding p(2) selection_made_def by blast
  have c: "cd_current (on_disk s) = Some (''activations/'' @ n)" using nt disk_names(3) p(2) by simp
  from assms(3) a(1) c obtain y where "x = Some (n, y)" "read_activation w a = Inr y"
    by (auto simp: get_selection_def activation_of_link_def Let_def cli_step_defs split: if_splits)
  moreover have "cli_decode w selection_of_json (cw_print w (json_of_selection t)) = Inr y"
    if "read_activation w a = Inr y" for y using read_activation_decodes [OF that] a(2) by simp
  ultimately show ?thesis using assms(2) nt unfolding cli_faithful_def by metis
qed

lemma open_root_is:
  assumes "cli_sound w s" "cli_faithful w" "fst (open_root w l s) = Inr x"
  shows "x = (case roots_made (so_far s) of [] \<Rightarrow> None | r # _ \<Rightarrow> Some r)"
proof -
  have p: "permitted (cli_may w) (so_far s)" "on_disk s = cli_disk_after (so_far s)" using assms(1) by (simp_all add: site_ok_def)
  show ?thesis
  proof (cases "roots_made (so_far s)")
    case Nil
    then have "cd_marker (on_disk s) = None" using disk_marker [OF p(1)] p(2) by simp
    with assms(3) Nil show ?thesis by (auto simp: open_root_def cli_step_defs)
  next
    case (Cons r rs)
    then have m: "cd_marker (on_disk s) = Some (cw_print w (json_of_cli_record r))" using disk_marker [OF p(1)] p(2) by simp
    from assms(3) m obtain y where "x = Some y" "cli_decode w cli_record_of_json (cw_print w (json_of_cli_record r)) = Inr y"
      by (auto simp: open_root_def cli_step_defs)
    with assms(2) Cons show ?thesis unfolding cli_faithful_def by auto
  qed
qed

lemma runs_get_selection:
  "cli_faithful w \<Longrightarrow> cli_runs w L (get_selection w) (\<lambda>x l. L l \<and> x = newest_switch l)"
  by (rule runs_fact [OF reads_get_selection]) (rule get_selection_is)

lemma runs_open_root:
  "cli_faithful w \<Longrightarrow> cli_runs w L (open_root w l) (\<lambda>x k. L k \<and> x = (case roots_made k of [] \<Rightarrow> None | r # _ \<Rightarrow> Some r))"
  by (rule runs_fact [OF reads_open_root]) (rule open_root_is)

section \<open>Assertions that last\<close>

definition is_switch :: "cli_event \<Rightarrow> bool" where
  "is_switch e \<longleftrightarrow> (\<exists>n s. e = Switched n s)"

definition lasting :: "(cli_event list \<Rightarrow> bool) \<Rightarrow> bool" where
  "lasting L \<longleftrightarrow> (\<forall>l e. L l \<longrightarrow> \<not> is_switch e \<longrightarrow> L (l @ [e]))"

lemma lastingD: "lasting L \<Longrightarrow> L l \<Longrightarrow> \<not> is_switch e \<Longrightarrow> L (l @ [e])"
  by (simp add: lasting_def)

named_theorems lasting_intro "assertions that survive all events but a switch"

lemma lasting_conj [lasting_intro]: "lasting P \<Longrightarrow> lasting Q \<Longrightarrow> lasting (\<lambda>l. P l \<and> Q l)"
  by (simp add: lasting_def)

lemma lasting_const [lasting_intro]: "lasting (\<lambda>_. b)"
  by (simp add: lasting_def)

lemma lasting_ex [lasting_intro]: "(\<And>x. lasting (P x)) \<Longrightarrow> lasting (\<lambda>l. \<exists>x. P x l)"
  by (auto simp: lasting_def)

lemma lasting_newest [lasting_intro]: "lasting (\<lambda>l. newest_switch l = x)"
  by (auto simp: lasting_def is_switch_def split: cli_event.splits)

lemma lasting_release [lasting_intro]: "lasting (\<lambda>l. i \<in> set (releases_made l))"
  by (auto simp: lasting_def)

lemma lasting_root [lasting_intro]: "lasting (\<lambda>l. r \<in> set (roots_made l))"
  by (auto simp: lasting_def)

lemma lasting_event [lasting_intro]: "lasting (\<lambda>l. e \<in> set l)"
  by (auto simp: lasting_def)

lemma lasting_selection [lasting_intro]: "lasting (selection_made w n s)"
  by (auto simp: lasting_def selection_made_def)

lemma lasting_probed [lasting_intro]: "lasting (probed_for i)"
  unfolding lasting_def probed_for_def is_switch_def by (auto split: cli_event.splits)

section \<open>Steps that leave an event\<close>

lemma get_admission_is:
  assumes "cli_sound w s" "fst (get_admission w i s) = Inr a"
  shows "i \<in> set (releases_made (so_far s)) \<and> release_id_valid i \<and> ri_id (ad_release a) = i \<and>
    i = ri_version (ad_release a) @ ''-'' @ ri_revision (ad_release a)"
proof -
  from assms(2) obtain rd where rd: "map_of (cd_releases (on_disk s)) i = Some rd" "admission_ok i (rd_id rd) a = Inr ()" "release_id_valid i"
    by (auto simp: get_admission_def cli_step_defs split: if_splits option.splits)
  have "i \<in> set (map fst (cd_releases (on_disk s)))" using map_of_SomeD [OF rd(1)] by force
  moreover have "map fst (cd_releases (on_disk s)) = releases_made (so_far s)"
    using assms(1) disk_names(1) by (simp add: site_ok_def)
  moreover have "ri_id (ad_release a) = i" "i = ri_version (ad_release a) @ ''-'' @ ri_revision (ad_release a)"
    using rd(2) unfolding admission_ok_def ensure_def fail_def by (auto split: if_splits)
  ultimately show ?thesis using rd(3) by metis
qed

lemma runs_admitted:
  assumes "lasting L"
  shows "cli_runs w L (admitted w l i) (\<lambda>(a, b) k. L k \<and> i \<in> set (releases_made k) \<and> release_id_valid i \<and> (\<exists>k0. k = k0 @ [Admitted i]) \<and>
     ri_id (ad_release a) = i \<and> i = cli_version (bundle_manifest b) @ ''-'' @ cli_revision (bundle_manifest b))"
proof -
  let ?known = "\<lambda>a k. L k \<and> (i \<in> set (releases_made k) \<and> release_id_valid i \<and> ri_id (ad_release a) = i \<and>
     i = ri_version (ad_release a) @ ''-'' @ ri_revision (ad_release a))"
  have get: "cli_runs w L (get_admission w i) ?known"
    by (rule runs_fact [OF reads_get_admission]) (rule get_admission_is)
  have last: "cli_runs w (\<lambda>k. ?known a k \<and> \<not> (ad_release a \<noteq> (release_of_bundle b)\<lparr>ri_authenticity := ri_authenticity (ad_release a)\<rparr> \<or> g))
      (act_then (os_check w) (\<lambda>_. act_then (s_note (Admitted i)) (\<lambda>_. ret (Inr (a, b)))))
      (\<lambda>(a, b) k. L k \<and> i \<in> set (releases_made k) \<and> release_id_valid i \<and> (\<exists>k0. k = k0 @ [Admitted i]) \<and>
         ri_id (ad_release a) = i \<and> i = cli_version (bundle_manifest b) @ ''-'' @ cli_revision (bundle_manifest b))" for a b g
  proof (rule runs_then_reads [OF reads_os], rule runs_then)
    let ?done = "\<lambda>k. L k \<and> i \<in> set (releases_made k) \<and> release_id_valid i \<and> (\<exists>k0. k = k0 @ [Admitted i]) \<and>
         ri_id (ad_release a) = i \<and> i = cli_version (bundle_manifest b) @ ''-'' @ cli_revision (bundle_manifest b)"
    show "cli_runs w (\<lambda>k. ?known a k \<and> \<not> (ad_release a \<noteq> (release_of_bundle b)\<lparr>ri_authenticity := ri_authenticity (ad_release a)\<rparr> \<or> g))
        (s_note (Admitted i)) (\<lambda>_. ?done)"
    proof (rule runs_note)
      fix k assume k: "?known a k \<and> \<not> (ad_release a \<noteq> (release_of_bundle b)\<lparr>ri_authenticity := ri_authenticity (ad_release a)\<rparr> \<or> g)"
      then have e: "ad_release a = (release_of_bundle b)\<lparr>ri_authenticity := ri_authenticity (ad_release a)\<rparr>" by blast
      have "ri_version (ad_release a) = cli_version (bundle_manifest b)" "ri_revision (ad_release a) = cli_revision (bundle_manifest b)"
        by (subst e, simp add: release_of_bundle_def)+
      moreover have "L (k @ [Admitted i])" using lastingD [OF assms] k by (simp add: is_switch_def)
      moreover have r: "i \<in> set (releases_made k)" using k by blast
      then have "i \<in> set (releases_made (k @ [Admitted i]))" by simp
      moreover note r
      ultimately show "cli_may w k (Admitted i) \<and> ?done (k @ [Admitted i])" using k unfolding cli_may.simps by metis
    qed simp
    show "cli_runs w ?done (ret (Inr (a, b))) (\<lambda>(a, b) k. L k \<and> i \<in> set (releases_made k) \<and> release_id_valid i \<and> (\<exists>k0. k = k0 @ [Admitted i]) \<and>
         ri_id (ad_release a) = i \<and> i = cli_version (bundle_manifest b) @ ''-'' @ cli_revision (bundle_manifest b))"
      by (rule runs_conseq [OF runs_ret]) auto
  qed
  show ?thesis
    unfolding admitted_def Let_def
    by (rule runs_then [OF get], rule runs_then_reads, rule reads_os, rule runs_then_reads, intro reads_intro,
        rule runs_then [OF runs_check], rule last)
qed

lemma runs_keeping_effect:
  assumes "lasting L" "\<not> is_switch e" "\<And>k. L k \<Longrightarrow> cli_may w k e"
  shows "cli_runs w L (cli_effect w e) (\<lambda>_ k. L k \<and> e \<in> set k)"
  unfolding cli_effect_def by (rule runs_effect) (simp add: assms lastingD)

lemma runs_probe:
  assumes "lasting L" "i = cli_version m @ ''-'' @ cli_revision m"
  shows "cli_runs w L (probe_at w p m) (\<lambda>_ k. L k \<and> probed_for i k)"
  unfolding probe_at_def
proof (rule runs_then_reads)
  show "reads (s_ask (\<lambda>t. cw_probe w t (p @ ''/bin/bxdl'') m))" by (intro reads_intro)
  show "cli_runs w L (s_note (Probed p m)) (\<lambda>_ k. L k \<and> probed_for i k)"
    by (rule runs_note) (auto simp: probed_for_def assms(2) is_switch_def lastingD [OF assms(1)])
qed

lemma runs_ensure_entry:
  assumes "\<And>k. L k \<Longrightarrow> Q k \<and> Q (k @ [Entry_Made (entry_target l)])"
  shows "cli_runs w L (ensure_entry w l) (\<lambda>_. Q)"
  unfolding ensure_entry_def
proof (rule runs_then_reads, intro reads_intro, rule runs_then_reads, intro reads_intro, rule runs_then_reads, intro reads_intro,
    rule runs_then)
  let ?make = "act_then (s_map_err entry_conflict (cli_effect w (Entry_Made (entry_target l)))) (\<lambda>_. os_check w)"
  have "cli_runs w L ?make (\<lambda>_. Q)"
  proof (rule runs_then, rule runs_map_err)
    show "cli_runs w L (cli_effect w (Entry_Made (entry_target l))) (\<lambda>_. Q)"
      unfolding cli_effect_def by (rule runs_effect) (simp add: assms)
    show "cli_runs w Q (os_check w) (\<lambda>_. Q)" by (intro runs_reads reads_intro)
  qed
  moreover have "cli_runs w L (ret (Inr ())) (\<lambda>_. Q)" by (rule runs_end [OF keeps_ret]) (simp add: assms)
  ultimately show "cli_runs w L (if missing then ?make else ret (Inr ())) (\<lambda>_. Q)" for missing by simp
  show "cli_runs w Q (check_entry w l False) (\<lambda>_. Q)" by (intro runs_reads reads_intro)
qed

lemma runs_require:
  "cli_faithful w \<Longrightarrow> cli_runs w L (require_selection w x) (\<lambda>_ k. L k \<and> newest_switch k = x)"
  unfolding require_selection_def
  by (rule runs_then [OF runs_get_selection], assumption, rule runs_conseq [OF runs_check]) auto

lemma runs_building:
  assumes "lasting L" "\<not> is_switch e" "\<And>k. L k \<Longrightarrow> P k \<Longrightarrow> cli_may w k e" "\<And>k. L k \<Longrightarrow> P k \<Longrightarrow> R (k @ [e])"
  shows "cli_runs w (\<lambda>k. L k \<and> P k) (cli_effect w e) (\<lambda>_ k. (L k \<and> e \<in> set k) \<and> R k)"
  unfolding cli_effect_def by (rule runs_effect) (auto simp: assms lastingD)

lemma runs_make_activation:
  assumes "lasting L"
  shows "cli_runs w (\<lambda>k. L k \<and> next_activation (acts_made k) = Inr n) (make_activation w (hex16 n) s)
    (\<lambda>_ k. L k \<and> selection_made w (hex16 n) s k)"
proof -
  let ?n = "hex16 n" and ?at = "\<lambda>e k. k \<noteq> [] \<and> last k = e"
  let ?sel = "Act_Selected ?n s (cw_print w (json_of_selection s))"
  let ?link = "\<lambda>c. Act_Linked ?n c (link_target (sl_current s) c)"
  let ?L1 = "\<lambda>k. L k \<and> Act_Made ?n \<in> set k"
  let ?L2 = "\<lambda>k. ?L1 k \<and> ?sel \<in> set k"
  let ?L3 = "\<lambda>k. ?L2 k \<and> ?link ''bin'' \<in> set k"
  have lasts: "lasting ?L1" "lasting ?L2" "lasting ?L3" by (intro lasting_intro assms)+
  have made: "cli_runs w (\<lambda>k. L k \<and> next_activation (acts_made k) = Inr n) (cli_effect w (Act_Made ?n)) (\<lambda>_ k. ?L1 k \<and> ?at (Act_Made ?n) k)"
    by (rule runs_building [OF assms]) (auto simp: is_switch_def)
  have sel: "cli_runs w (\<lambda>k. ?L1 k \<and> ?at (Act_Made ?n) k) (cli_effect w ?sel) (\<lambda>_ k. ?L2 k \<and> ?at ?sel k)"
    by (rule runs_building [OF lasts(1)]) (auto simp: is_switch_def)
  have bin: "cli_runs w (\<lambda>k. ?L2 k \<and> ?at ?sel k) (cli_effect w (?link ''bin'')) (\<lambda>_ k. ?L3 k \<and> ?at (?link ''bin'') k)"
    by (rule runs_building [OF lasts(2)]) (auto simp: is_switch_def)
  have share: "cli_runs w (\<lambda>k. ?L3 k \<and> ?at (?link ''bin'') k) (cli_effect w (?link ''share''))
      (\<lambda>_ k. (?L3 k \<and> ?link ''share'' \<in> set k) \<and> True)"
    by (rule runs_building [OF lasts(3)]) (auto simp: is_switch_def)
  show ?thesis
    unfolding make_activation_def
    by (rule runs_then [OF made], rule runs_then_reads [OF reads_os], rule runs_then [OF sel], rule runs_then_reads [OF reads_os],
        rule runs_then [OF bin], rule runs_then [OF share], rule runs_end [OF reads_os])
      (simp add: selection_made_def)
qed

lemma runs_act_names: "cli_runs w L (s_view (\<lambda>d. map fst (cd_activations d))) (\<lambda>ns k. L k \<and> ns = acts_made k)"
  by (rule runs_conseq [OF runs_view]) (simp_all add: disk_names)

definition may_switch :: "string \<Rightarrow> (string \<times> selection) option \<Rightarrow> cli_event list \<Rightarrow> bool" where
  "may_switch i old k \<longleftrightarrow> i \<in> set (releases_made k) \<and> release_id_valid i \<and> probed_for i k \<and> newest_switch k = old"

lemma lasting_may_switch [lasting_intro]: "lasting (may_switch i old)"
  unfolding may_switch_def by (intro lasting_intro)

lemma runs_admitted_as:
  assumes "lasting L"
  shows "cli_runs w L (admitted w l i) (\<lambda>_ k. L k \<and> just_admitted i k)"
  by (rule runs_conseq [OF runs_admitted [OF assms]]) (auto simp: just_admitted_def)

lemma runs_admitted_keeps: "lasting L \<Longrightarrow> cli_runs w L (admitted w l i) (\<lambda>_. L)"
  by (rule runs_conseq [OF runs_admitted_as [where L = L]]) simp_all

lemma runs_entry_after_admission:
  assumes "lasting L"
  shows "cli_runs w (\<lambda>k. L k \<and> (\<exists>k0. k = k0 @ [Admitted i])) (ensure_entry w l) (\<lambda>_ k. L k \<and> just_admitted i k)"
  by (rule runs_ensure_entry) (auto simp: just_admitted_def is_switch_def dest: lastingD [OF assms])

lemma runs_activate:
  assumes "cli_faithful w" "previous = current_of old" "previous \<noteq> Some i" "\<And>p. previous = Some p \<Longrightarrow> release_id_valid p"
  shows "cli_runs w (may_switch i old) (activate w l i previous old)
    (\<lambda>n k. newest_switch k = Some (n, new_selection i previous))"
proof -
  let ?s = "new_selection i previous"
  let ?ready = "\<lambda>n k. may_switch i old k \<and> selection_made w (hex16 n) ?s k"
  have lasts: "lasting (?ready n)" "lasting (may_switch i old)" for n by (intro lasting_intro)+
  note reading = runs_then_reads [OF reads_os]
  have admit: "cli_runs w (?ready n) (admitted w l i) (\<lambda>_ k. ?ready n k \<and> (\<exists>k0. k = k0 @ [Admitted i]))" for n
    by (rule runs_conseq [OF runs_admitted [OF lasts(1) [of n]]]) auto
  have switch: "cli_runs w (\<lambda>k. (?ready n k \<and> just_admitted i k) \<and> newest_switch k = old) (cli_effect w (Switched (hex16 n) ?s))
      (\<lambda>_ k. newest_switch k = Some (hex16 n, ?s))" for n
    unfolding cli_effect_def
    by (rule runs_effect) (use assms(2-4) in \<open>auto simp: may_switch_def new_selection_def selection_valid_def split: option.splits\<close>)
  have after: "cli_runs w L (s_map_err ''CLI_ACTIVATION_UNKNOWN'' (act_then (os_check w) (\<lambda>_.
       act_then (require_selection w x) (\<lambda>_. check_entry w l False)))) (\<lambda>_. L)" for x L
    by (intro runs_reads reads_intro)
  have rest: "cli_runs w (\<lambda>k. may_switch i old k \<and> next_activation (acts_made k) = Inr n)
    (act_then (make_activation w (hex16 n) ?s) (\<lambda>_.
       act_then (admitted w l i) (\<lambda>_.
       act_then (ensure_entry w l) (\<lambda>_.
       act_then (os_check w) (\<lambda>_.
       act_then (require_selection w old) (\<lambda>_.
       act_then (os_check w) (\<lambda>_.
       act_then (cli_effect w (Switched (hex16 n) ?s)) (\<lambda>_.
       act_then (s_map_err ''CLI_ACTIVATION_UNKNOWN'' (act_then (os_check w) (\<lambda>_.
         act_then (require_selection w (Some (hex16 n, ?s))) (\<lambda>_. check_entry w l False)))) (\<lambda>_.
       ret (Inr (hex16 n)))))))))))
    (\<lambda>m k. newest_switch k = Some (m, ?s))" for n
    by (rule runs_then [OF runs_make_activation [OF lasts(2)]], rule runs_then [OF admit],
        rule runs_then [OF runs_entry_after_admission [OF lasts(1)]], rule reading, rule runs_then [OF runs_require [OF assms(1)]],
        rule reading, rule runs_then [OF switch], rule runs_then [OF after], rule runs_conseq [OF runs_ret]) auto
  have number: "cli_runs w (\<lambda>k. may_switch i old k \<and> ns = acts_made k) (ret (next_activation ns))
      (\<lambda>n k. may_switch i old k \<and> next_activation (acts_made k) = Inr n)" for ns
    by (rule runs_conseq [OF runs_ret [where L = "\<lambda>k. may_switch i old k \<and> ns = acts_made k"]]) auto
  show ?thesis
    unfolding activate_def Let_def
    by (rule reading, rule runs_then_reads [OF reads_check_entry], rule runs_then_reads [OF reads_cli_checks(4)],
        rule runs_then [OF runs_act_names], rule runs_then [OF number], rule rest)
qed

section \<open>Staging and creating\<close>

definition supplied :: "cli_trust \<Rightarrow> cli_bundle \<Rightarrow> cli_event list \<Rightarrow> bool" where
  "supplied trust b k \<longleftrightarrow> Supply_Trusted trust b \<in> set k \<and> (\<exists>r. r \<in> set (roots_made k) \<and> cr_trust r = trust)"

lemma lasting_supplied [lasting_intro]: "lasting (supplied trust b)"
  unfolding supplied_def by (intro lasting_intro)

abbreviation staged :: "cli_bundle \<Rightarrow> cli_event list \<Rightarrow> bool" where
  "staged b k \<equiv> release_id b \<in> set (releases_made k) \<and> release_id_valid (release_id b) \<and> probed_for (release_id b) k"

text \<open>An admission of the very content of a bundle.\<close>

definition admits :: "('a, 'k) cli_world \<Rightarrow> cli_bundle \<Rightarrow> admission \<Rightarrow> bool" where
  "admits w b a \<longleftrightarrow> ri_id (ad_release a) = release_id b \<and> ri_manifest_sha (ad_release a) = bundle_manifest_sha256 b \<and>
     ad_signature a = signature_hash (cw_crypto w) b"

lemma runs_same_supply:
  "cli_runs w (\<lambda>k. L k \<and> ri_id (ad_release a) = release_id b) (same_supply_as w b a) (\<lambda>_ k. L k \<and> admits w b a)"
  unfolding same_supply_as_def
  by (rule runs_conseq [OF runs_check [where L = "\<lambda>k. L k \<and> ri_id (ad_release a) = release_id b"]]) (auto simp: admits_def)

lemma runs_stage_known:
  assumes "lasting L"
  shows "cli_runs w L (stage_known w l b) (\<lambda>a k. (L k \<and> staged b k) \<and> admits w b a)"
proof -
  let ?there = "\<lambda>k. L k \<and> release_id b \<in> set (releases_made k) \<and> release_id_valid (release_id b)"
  let ?known = "\<lambda>a k. ?there k \<and> admits w b a"
  have lasts: "lasting (?known a)" for a by (intro lasting_intro assms)
  have first: "cli_runs w L (admitted w l (release_id b)) (\<lambda>(a, _) k. ?there k \<and> ri_id (ad_release a) = release_id b)"
    by (rule runs_conseq [OF runs_admitted [OF assms]]) auto
  have probe: "cli_runs w (?known a) (probe_at w p (bundle_manifest b)) (\<lambda>_ k. ?known a k \<and> probed_for (release_id b) k)" for a p
    by (rule runs_probe [OF lasts]) (simp add: release_id_def)
  have second: "cli_runs w (\<lambda>k. ?known a k \<and> probed_for (release_id b) k) (admitted w l (release_id b))
      (\<lambda>_ k. ?known a k \<and> probed_for (release_id b) k)" for a
    by (rule runs_admitted_keeps) (intro lasting_intro assms)
  have rest: "cli_runs w (\<lambda>k. ?there k \<and> ri_id (ad_release a) = release_id b)
      (act_then (same_supply_as w b a) (\<lambda>_.
       act_then (probe_at w (release_path l (release_id b)) (bundle_manifest b)) (\<lambda>_.
       act_then (admitted w l (release_id b)) (\<lambda>_. ret (Inr a)))))
      (\<lambda>a k. (L k \<and> staged b k) \<and> admits w b a)" for a
    by (rule runs_then [OF runs_same_supply], rule runs_then [OF probe], rule runs_then [OF second],
        rule runs_conseq [OF runs_ret]) auto
  show ?thesis
    unfolding stage_known_def by (rule runs_then [OF first], rule runs_pair, unfold prod.case, rule rest)
qed

lemma runs_stage_new:
  assumes "lasting L" "\<And>k. L k \<Longrightarrow> supplied trust b k"
  shows "cli_runs w L (stage_new w l b) (\<lambda>a k. (L k \<and> staged b k) \<and> admits w b a)"
proof -
  let ?i = "release_id b" and ?P = "\<lambda>k. L k \<and> probed_for (release_id b) k"
  have probe: "cli_runs w L (probe_at w p (bundle_manifest b)) (\<lambda>_. ?P)" for p
    by (rule runs_probe [OF assms(1)]) (simp add: release_id_def)
  have lasts: "lasting ?P" by (intro lasting_intro assms)
  have absent: "cli_runs w ?P (s_view (\<lambda>d. map_of (cd_releases d) ?i = None)) (\<lambda>x k. ?P k \<and> (x \<longleftrightarrow> ?i \<notin> set (releases_made k)))"
    by (rule runs_conseq [OF runs_view]) (auto simp: map_of_eq_None_iff simp flip: disk_names(1))
  have check: "cli_runs w (\<lambda>k. ?P k \<and> (x \<longleftrightarrow> ?i \<notin> set (releases_made k))) (s_check x c) (\<lambda>_ k. ?P k \<and> ?i \<notin> set (releases_made k))" for x c
    by (rule runs_conseq [OF runs_check [where L = "\<lambda>k. ?P k \<and> (x \<longleftrightarrow> ?i \<notin> set (releases_made k))"]]) auto
  have publish: "cli_runs w (\<lambda>k. ?P k \<and> ?i \<notin> set (releases_made k))
      (cli_effect w (Release_Published ?i \<lparr>rd_id = dir, rd_admission = cw_print w (json_of_admission (new_admission w b dir))\<rparr>))
      (\<lambda>_ k. ?P k \<and> ?i \<in> set (releases_made k))" for dir
    unfolding cli_effect_def
  proof (rule runs_effect)
    fix k assume k: "?P k \<and> ?i \<notin> set (releases_made k)"
    moreover have "supplied trust b k" using assms(2) k by blast
    ultimately show "cli_may w k (Release_Published ?i \<lparr>rd_id = dir, rd_admission = cw_print w (json_of_admission (new_admission w b dir))\<rparr>) \<and>
      (?P (k @ [Release_Published ?i \<lparr>rd_id = dir, rd_admission = cw_print w (json_of_admission (new_admission w b dir))\<rparr>]) \<and>
       ?i \<in> set (releases_made (k @ [Release_Published ?i \<lparr>rd_id = dir, rd_admission = cw_print w (json_of_admission (new_admission w b dir))\<rparr>])))"
      using lastingD [OF lasts] by (auto simp: supplied_def is_switch_def)
  qed
  have again: "cli_runs w (\<lambda>k. ?P k \<and> ?i \<in> set (releases_made k)) (admitted w l ?i)
      (\<lambda>_ k. ?P k \<and> ?i \<in> set (releases_made k) \<and> release_id_valid ?i)"
    by (rule runs_conseq [OF runs_admitted [where L = ?P]]) (intro lasting_intro assms, auto)
  have rest: "cli_runs w L (let path = p; a = new_admission w b dir in
      act_then (write_files w (bundle_files b)) (\<lambda>_.
      act_then (os_check w) (\<lambda>_.
      act_then (check_staged w path b) (\<lambda>_.
      act_then (probe_at w path (bundle_manifest b)) (\<lambda>_.
      act_then (check_staged w path b) (\<lambda>_.
      act_then (os_check w) (\<lambda>_.
      act_then (s_view (\<lambda>d. map_of (cd_releases d) ?i = None)) (\<lambda>absent.
      act_then (s_check absent ''CLI_RELEASE_CONFLICT'') (\<lambda>_.
      act_then (os_check w) (\<lambda>_.
      act_then (cli_effect w (Release_Published ?i \<lparr>rd_id = dir, rd_admission = cw_print w (json_of_admission a)\<rparr>)) (\<lambda>_.
      act_then (os_check w) (\<lambda>_.
      act_then (admitted w l ?i) (\<lambda>_. ret (Inr a))))))))))))))
      (\<lambda>a k. (L k \<and> staged b k) \<and> admits w b a)" for p dir
    unfolding Let_def
    by (rule runs_then_reads [OF reads_write_files], rule runs_then_reads [OF reads_os], rule runs_then_reads [OF reads_cli_checks(2)],
        rule runs_then [OF probe], rule runs_then_reads [OF reads_cli_checks(2)], rule runs_then_reads [OF reads_os],
        rule runs_then [OF absent], rule runs_then [OF check], rule runs_then_reads [OF reads_os], rule runs_then [OF publish],
        rule runs_then_reads [OF reads_os], rule runs_then [OF again], rule runs_conseq [OF runs_ret])
      (auto simp: admits_def new_admission_def release_of_bundle_def)
  show ?thesis
    unfolding stage_new_def
    by (rule runs_then_reads, intro reads_intro, rule runs_then_reads, intro reads_intro, rule runs_then_reads [OF reads_os],
        rule runs_then_reads, intro reads_intro, rule runs_pair [where L = "\<lambda>_. L"], rule runs_then_reads [OF reads_os])
      (insert rest, simp add: Let_def)
qed

lemma runs_stage:
  assumes "lasting L" "\<And>k. L k \<Longrightarrow> supplied trust b k"
  shows "cli_runs w L (stage_release w l b) (\<lambda>a k. (L k \<and> staged b k) \<and> admits w b a)"
  unfolding stage_release_def
  by (rule runs_then_reads [OF reads_os], rule runs_then_reads, intro reads_intro, rule runs_if,
      rule runs_stage_known [OF assms(1)], rule runs_stage_new [OF assms], assumption)

section \<open>The whole operations\<close>

lemma runs_root_record:
  assumes "cli_faithful w"
  shows "cli_runs w L (open_root w l) (\<lambda>x k. L k \<and> (case x of None \<Rightarrow> roots_made k = [] | Some r \<Rightarrow> roots_made k = [r]))"
proof (rule runs_fact [OF reads_open_root])
  fix s x assume s: "cli_sound w s" "fst (open_root w l s) = Inr x"
  have "length (roots_made (so_far s)) \<le> 1" using s(1) at_most_one_root unfolding site_ok_def by blast
  then show "case x of None \<Rightarrow> roots_made (so_far s) = [] | Some r \<Rightarrow> roots_made (so_far s) = [r]"
    using open_root_is [OF s(1) assms s(2)] by (cases "roots_made (so_far s)") auto
qed

lemma runs_no_marker: "cli_runs w L (s_view (\<lambda>d. cd_marker d = None)) (\<lambda>x k. L k \<and> (x \<longleftrightarrow> roots_made k = []))"
proof (rule runs_fact)
  fix s x assume "cli_sound w s" "fst (s_view (\<lambda>d. cd_marker d = None) s) = Inr x"
  then show "x \<longleftrightarrow> roots_made (so_far s) = []"
    using disk_marker [of w "so_far s"] by (auto simp: s_view_def site_ok_def split: list.splits)
qed (intro reads_intro)

lemma runs_create_root:
  assumes "lasting L"
  shows "cli_runs w L (create_root w l trust) (\<lambda>_ k. L k \<and> (\<exists>r. r \<in> set (roots_made k) \<and> cr_trust r = trust))"
proof -
  let ?done = "\<lambda>k. L k \<and> (\<exists>r. r \<in> set (roots_made k) \<and> cr_trust r = trust)"
  have check: "cli_runs w (\<lambda>k. L k \<and> (x \<longleftrightarrow> roots_made k = [])) (s_check x c) (\<lambda>_ k. L k \<and> roots_made k = [])" for x c
    by (rule runs_conseq [OF runs_check [where L = "\<lambda>k. L k \<and> (x \<longleftrightarrow> roots_made k = [])"]]) auto
  have publish: "cli_runs w (\<lambda>k. L k \<and> roots_made k = []) (cli_effect w (Root_Published r (cw_print w (json_of_cli_record r)))) (\<lambda>_. ?done)"
    if "cr_trust r = trust" for r
    unfolding cli_effect_def by (rule runs_effect) (auto simp: is_switch_def that dest: lastingD [OF assms])
  show ?thesis
    unfolding create_root_def
    apply (rule runs_then [OF runs_no_marker], rule runs_then [OF check], rule runs_then_reads [OF reads_os])
    apply (rule runs_then_reads, intro reads_intro)+
    apply (rule runs_pair [where L = "\<lambda>_ k. L k \<and> roots_made k = []"])+
    apply (unfold Let_def)
    apply (rule runs_then_reads [OF reads_os], rule runs_then [OF publish], simp)
    apply (intro runs_reads reads_intro)
    done
qed

text \<open>An event of the part of the log that a call has added to \<open>k0\<close>.\<close>

definition since :: "cli_event list \<Rightarrow> cli_event \<Rightarrow> cli_event list \<Rightarrow> bool" where
  "since k0 e k \<longleftrightarrow> (\<exists>added. k = k0 @ added \<and> e \<in> set added)"

lemma since_grows: "since k0 e k \<Longrightarrow> prefix k k' \<Longrightarrow> since k0 e k'"
  by (auto simp: since_def prefix_def)

lemma lasting_since [lasting_intro]: "lasting (since k0 e)"
  by (auto simp: lasting_def since_def)

lemma since_snoc: "prefix k0 k \<Longrightarrow> since k0 e (k @ [e])"
  by (auto simp: since_def prefix_def)

lemma since_in: "since k0 e k \<Longrightarrow> e \<in> set k"
  by (auto simp: since_def)

text \<open>The bundle is the one the source of the call leads to, verified under the trust.\<close>

definition from_source :: "('a, 'k) cli_world \<Rightarrow> cli_options \<Rightarrow> cli_trust \<Rightarrow> cli_bundle \<Rightarrow> bool" where
  "from_source w p trust b \<longleftrightarrow> (\<exists>i j path. cw_source_path w i (co_from p) = Inr path \<and>
     trust_verify (cw_crypto w) (cw_key_of w) trust (snd (cw_source w j path)) = Inr b)"

lemma runs_trusted_supply:
  assumes "cli_faithful w" "lasting L" "\<And>k. L k \<Longrightarrow> prefix k0 k"
  shows "cli_runs w L (trusted_supply w p update) (\<lambda>(existing, trust, b) k.
     (since k0 (Supply_Trusted trust b) k \<and> from_source w p trust b) \<and>
     (case existing of None \<Rightarrow> True | Some r \<Rightarrow> r \<in> set (roots_made k) \<and> cr_trust r = trust))"
proof -
  let ?open = "\<lambda>x k. L k \<and> (case x of None \<Rightarrow> roots_made k = [] | Some r \<Rightarrow> roots_made k = [r])"
  let ?trust = "\<lambda>x t k. ?open x k \<and> (case x of None \<Rightarrow> True | Some r \<Rightarrow> cr_trust r = t)"
  have old: "cli_runs w (?open (Some r)) (act_then (s_ask q) (\<lambda>_. ret (Inr (cr_trust r)))) (\<lambda>t. ?trust (Some r) t)"
    for r and q :: "nat \<Rightarrow> unit result"
    by (rule runs_then_reads, intro reads_intro, rule runs_conseq [OF runs_ret [where L = "?open (Some r)"]]) auto
  have fresh: "cli_runs w (?open None) (s_ask q) (\<lambda>t. ?trust None t)" for q
    by (rule runs_conseq [OF runs_reads [of "s_ask q" _ _ _ "?open None"]]) (intro reads_intro, auto)
  have noted: "cli_runs w (\<lambda>k. ?trust x t k \<and> from_source w p t b) (s_note (Supply_Trusted t b))
      (\<lambda>_ k. (since k0 (Supply_Trusted t b) k \<and> from_source w p t b) \<and>
        (case x of None \<Rightarrow> True | Some r \<Rightarrow> r \<in> set (roots_made k) \<and> cr_trust r = t))" for x t b
    by (rule runs_note) (cases x, auto simp: trusted_under_def from_source_def since_snoc assms(3))
  have path: "cli_runs w (?trust x t) (s_ask (\<lambda>i. cw_source_path w i (co_from p)))
      (\<lambda>path k. ?trust x t k \<and> (\<exists>i. cw_source_path w i (co_from p) = Inr path))" for x t
    by (rule runs_fact) (intro reads_intro, auto simp: s_ask_def)
  have verified: "cli_runs w (\<lambda>k. ?trust x t k \<and> (\<exists>i. cw_source_path w i (co_from p) = Inr path))
      (s_ask (\<lambda>i. trust_verify (cw_crypto w) (cw_key_of w) t (snd (cw_source w i path))))
      (\<lambda>b k. ?trust x t k \<and> from_source w p t b)" for x t path
    by (rule runs_conseq [OF runs_fact [where L = "\<lambda>k. ?trust x t k \<and> (\<exists>i. cw_source_path w i (co_from p) = Inr path)"
          and F = "\<lambda>b _. \<exists>j. trust_verify (cw_crypto w) (cw_key_of w) t (snd (cw_source w j path)) = Inr b"]])
      (intro reads_intro, auto simp: s_ask_def from_source_def)
  show ?thesis
    unfolding trusted_supply_def Let_def
    apply (rule runs_then_reads [OF reads_cli_checks(1)], rule runs_then [OF runs_root_record [OF assms(1)]])
    apply (rule runs_then_reads, intro reads_intro, rule runs_then_reads, intro reads_intro)
    subgoal for u x
      apply (rule runs_then [where M = "?trust x"])
      subgoal by (cases x) (use old fresh in simp_all)
      apply (rule runs_then [OF path], rule runs_then_reads, intro reads_intro, rule runs_then_reads, intro reads_intro)
      apply (rule runs_then [OF verified], rule runs_then [OF noted], rule runs_conseq [OF runs_ret])
       apply assumption
      apply auto
      done
    done
qed

text \<open>What a report says of the store.\<close>

definition tells_selection :: "cli_report \<Rightarrow> cli_event list \<Rightarrow> bool" where
  "tells_selection r k \<longleftrightarrow> (\<exists>n s. newest_switch k = Some (n, s) \<and> rp_activation r = Some n \<and>
     map_option ri_id (rp_current r) = Some (sl_current s))"

definition tells_content :: "cli_bundle \<Rightarrow> cli_report \<Rightarrow> bool" where
  "tells_content b r \<longleftrightarrow> (\<exists>m. rp_current r = Some m \<and> ri_id m = release_id b \<and> ri_manifest_sha m = bundle_manifest_sha256 b)"

lemma runs_switch_release:
  assumes "cli_faithful w" "current_of old \<noteq> Some (release_id b)" "\<And>p. current_of old = Some p \<Longrightarrow> release_id_valid p"
  shows "cli_runs w (\<lambda>k. newest_switch k = old \<and> supplied trust b k) (switch_release w l update b old)
    (\<lambda>r k. (\<exists>n. newest_switch k = Some (n, new_selection (release_id b) (current_of old))) \<and> tells_selection r k \<and>
      tells_content b r)"
proof -
  let ?L = "\<lambda>k. newest_switch k = old \<and> supplied trust b k"
  let ?staged = "\<lambda>a k. (?L k \<and> staged b k) \<and> admits w b a"
  have act: "cli_runs w (?staged a) (activate w l (ri_id (ad_release a)) (current_of old) old)
      (\<lambda>n k. newest_switch k = Some (n, new_selection (release_id b) (current_of old)) \<and> admits w b a)" for a
  proof (rule runs_precond [where B = "admits w b a"])
    assume a: "admits w b a"
    then have i: "ri_id (ad_release a) = release_id b" by (simp add: admits_def)
    show ?thesis
      by (rule runs_conseq [OF runs_activate [OF assms(1) refl]]) (auto simp: i a assms(2,3) may_switch_def)
  qed simp
  have stage: "cli_runs w ?L (stage_release w l b) ?staged"
    by (rule runs_stage [where trust = trust]) (intro lasting_intro, simp)
  show ?thesis
    unfolding switch_release_def Let_def current_of_def [symmetric]
    by (rule runs_then [OF stage], rule runs_then [OF act], rule runs_then_reads, intro reads_intro,
        rule runs_conseq [OF runs_ret], assumption) (auto simp: tells_selection_def tells_content_def new_selection_def admits_def)
qed

lemma runs_unchanged:
  assumes "lasting L" "\<And>k. L k \<Longrightarrow> newest_switch k = Some (n, s)" "sl_current s = release_id b"
  shows "cli_runs w L (unchanged_release w l update b n s) (\<lambda>r k. L k \<and> tells_selection r k \<and> tells_content b r)"
proof -
  let ?P = "\<lambda>a k. L k \<and> admits w b a"
  have first: "cli_runs w L (admitted w l (sl_current s)) (\<lambda>(a, _) k. L k \<and> ri_id (ad_release a) = release_id b)"
    by (rule runs_conseq [OF runs_admitted [OF assms(1)]]) (auto simp: assms(3))
  have entry: "cli_runs w (?P a) (ensure_entry w l) (\<lambda>_. ?P a)" for a
    by (rule runs_ensure_entry) (auto simp: is_switch_def dest: lastingD [OF assms(1)])
  have rest: "cli_runs w (\<lambda>k. L k \<and> ri_id (ad_release a) = release_id b) (act_then (same_supply_as w b a) (\<lambda>_.
     act_then (s_view (\<lambda>d. cd_entry d = No_Entry)) (\<lambda>missing.
     act_then (ensure_entry w l) (\<lambda>_.
     act_then (previous_release w (sl_previous s)) (\<lambda>previous.
     ret (Inr \<lparr>rp_action = (if update then ''update'' else ''install''), rp_status = ''UNCHANGED'', rp_changed = missing,
              rp_current = Some (ad_release a), rp_previous = previous, rp_activation = Some n\<rparr>))))))
     (\<lambda>r k. L k \<and> tells_selection r k \<and> tells_content b r)" for a
    by (rule runs_then [OF runs_same_supply], rule runs_then_reads, intro reads_intro, rule runs_then [OF entry],
        rule runs_then_reads, intro reads_intro, rule runs_conseq [OF runs_ret], assumption)
      (auto simp: tells_selection_def tells_content_def admits_def assms(2,3))
  show ?thesis
    unfolding unchanged_release_def by (rule runs_then [OF first], rule runs_pair, unfold prod.case, rule rest)
qed

lemma newest_proper:
  "permitted (cli_may w) l \<Longrightarrow> newest_switch l = Some (n, s) \<Longrightarrow>
     sl_current s \<in> set (releases_made l) \<and> selection_valid s"
proof (induction rule: permitted.induct)
  case (permitted_snoc l e)
  then show ?case by (cases e) auto
qed (simp add: newest_switch_def)

lemma runs_selection_proper:
  assumes "cli_faithful w"
  shows "cli_runs w L (get_selection w) (\<lambda>x k. L k \<and> (newest_switch k = x \<and>
     (\<forall>n s. x = Some (n, s) \<longrightarrow> selection_valid s)))"
proof (rule runs_fact [OF reads_get_selection])
  fix s x assume s: "cli_sound w s" "fst (get_selection w s) = Inr x"
  have "permitted (cli_may w) (so_far s)" using s(1) by (simp add: site_ok_def)
  with get_selection_is [OF s(1) assms s(2)] newest_proper
  show "newest_switch (so_far s) = x \<and> (\<forall>n s. x = Some (n, s) \<longrightarrow> selection_valid s)" by metis
qed

text \<open>An installation leaves the selection of the release that this very call has trusted.\<close>

definition installed :: "cli_trust \<Rightarrow> cli_bundle \<Rightarrow> cli_report \<Rightarrow> cli_event list \<Rightarrow> bool" where
  "installed trust b r k \<longleftrightarrow> tells_selection r k \<and> tells_content b r \<and> supplied trust b k \<and>
     current_of (newest_switch k) = Some (release_id b)"

lemma supplied_grows: "supplied t b l \<Longrightarrow> prefix l k \<Longrightarrow> supplied t b k"
  by (auto simp: supplied_def prefix_def cli_readings map_filter_def)

lemma runs_switch_installs:
  assumes "cli_faithful w" "current_of old \<noteq> Some (release_id b)" "\<And>p. current_of old = Some p \<Longrightarrow> release_id_valid p"
  shows "cli_runs w (\<lambda>k. newest_switch k = old \<and> supplied trust b k) (switch_release w l update b old) (installed trust b)"
proof -
  have "cli_runs w (\<lambda>k. (newest_switch k = old \<and> supplied trust b k) \<and> supplied trust b k) (switch_release w l update b old)
      (\<lambda>r k. ((\<exists>n. newest_switch k = Some (n, new_selection (release_id b) (current_of old))) \<and> tells_selection r k \<and>
        tells_content b r) \<and> supplied trust b k)"
    by (rule runs_frame [OF runs_switch_release [OF assms] supplied_grows])
  then show ?thesis
    by (rule runs_conseq) (simp, auto simp: installed_def new_selection_def current_of_def)
qed

lemma runs_choose:
  assumes "cli_faithful w"
  shows "cli_runs w (\<lambda>k. supplied trust b k \<and> (newest_switch k = x \<and> (\<forall>n s. x = Some (n, s) \<longrightarrow> selection_valid s)))
      (case x of None \<Rightarrow> switch_release w l update b x
       | Some (n, s) \<Rightarrow>
           if sl_current s = release_id b then unchanged_release w l update b n s
           else act_then (s_check update ''CLI_ALREADY_INSTALLED'') (\<lambda>_. switch_release w l update b x)) (installed trust b)"
    (is "cli_runs w ?old _ _")
proof -
  have switch: "cli_runs w ?old (switch_release w l update b x) (installed trust b)"
    if "current_of x \<noteq> Some (release_id b)"
  proof (rule runs_precond)
    assume v: "\<forall>n s. x = Some (n, s) \<longrightarrow> selection_valid s"
    have "release_id_valid p" if "current_of x = Some p" for p
      using v that by (auto simp: current_of_def selection_valid_def)
    from runs_switch_installs [OF assms \<open>current_of x \<noteq> Some (release_id b)\<close> this]
    show ?thesis by (rule runs_conseq) auto
  qed simp
  show ?thesis
  proof (cases x)
    case None
    then show ?thesis using switch by (simp add: current_of_def)
  next
    case (Some ns)
    obtain n s where ns: "ns = (n, s)" by (cases ns)
    show ?thesis
    proof (cases "sl_current s = release_id b")
      case False
      then have "current_of x \<noteq> Some (release_id b)" using Some ns by (simp add: current_of_def)
      from runs_then_reads [OF reads_check switch [OF this]] False Some ns show ?thesis by simp
    next
      case True
      have "cli_runs w (\<lambda>k. newest_switch k = Some (n, s) \<and> supplied trust b k) (unchanged_release w l update b n s)
          (\<lambda>r k. (newest_switch k = Some (n, s) \<and> supplied trust b k) \<and> tells_selection r k \<and> tells_content b r)"
        by (rule runs_unchanged [OF _ _ True]) (intro lasting_intro, simp)
      then have "cli_runs w ?old (unchanged_release w l update b n s) (installed trust b)"
        by (rule runs_conseq) (use True Some ns in \<open>auto simp: installed_def current_of_def\<close>)
      then show ?thesis using True Some ns by simp
    qed
  qed
qed

lemma runs_install:
  assumes "cli_faithful w"
  shows "cli_runs w (\<lambda>k. k = k0) (cli_install w p update) (\<lambda>r k. \<exists>trust b.
    (since k0 (Supply_Trusted trust b) k \<and> from_source w p trust b) \<and> installed trust b r k)"
proof -
  let ?call = "\<lambda>trust b k. since k0 (Supply_Trusted trust b) k \<and> from_source w p trust b"
  let ?given = "\<lambda>x trust b k. Supply_Trusted trust b \<in> set k \<and>
     (case x of None \<Rightarrow> True | Some r \<Rightarrow> r \<in> set (roots_made k) \<and> cr_trust r = trust)"
  have root: "cli_runs w (?given x trust b) (case x of Some r \<Rightarrow> ret (Inr r) | None \<Rightarrow> create_root w l trust) (\<lambda>_. supplied trust b)"
    for x trust b l
  proof (cases x)
    case None
    have "cli_runs w (\<lambda>k. Supply_Trusted trust b \<in> set k) (create_root w l trust) (\<lambda>_. supplied trust b)"
      by (rule runs_conseq [OF runs_create_root [where L = "\<lambda>k. Supply_Trusted trust b \<in> set k"]])
        (intro lasting_intro, simp_all add: supplied_def)
    with None show ?thesis by simp
  next
    case (Some r)
    have "cli_runs w (?given (Some r) trust b) (ret (Inr r)) (\<lambda>_. supplied trust b)"
      by (rule runs_end [OF keeps_ret]) (auto simp: supplied_def)
    with Some show ?thesis by simp
  qed
  have rest: "cli_runs w (?given x trust b)
      (act_then (case x of Some r \<Rightarrow> ret (Inr r) | None \<Rightarrow> create_root w l trust) (\<lambda>_.
       act_then (lock_root w) (\<lambda>_.
       act_then (get_selection w) (\<lambda>old.
       act_then (s_check (\<not> (update \<and> old = None)) not_installed) (\<lambda>_.
       case old of
         None \<Rightarrow> switch_release w l update b old
       | Some (n, s) \<Rightarrow>
           if sl_current s = release_id b then unchanged_release w l update b n s
           else act_then (s_check update ''CLI_ALREADY_INSTALLED'') (\<lambda>_. switch_release w l update b old))))))
      (installed trust b)" for x trust b l
    by (rule runs_then [OF root], rule runs_then_reads [OF reads_lock_root], rule runs_then [OF runs_selection_proper [OF assms]],
        rule runs_then_reads, intro reads_intro, rule runs_choose [OF assms])
  have framed: "cli_runs w (\<lambda>k. ?call trust b k \<and> (case x of None \<Rightarrow> True | Some r \<Rightarrow> r \<in> set (roots_made k) \<and> cr_trust r = trust)) m
      (\<lambda>r k. \<exists>trust b. ?call trust b k \<and> installed trust b r k)"
    if "cli_runs w (?given x trust b) m (installed trust b)" for x trust b m
    by (rule runs_conseq [OF runs_frame [OF that, where S = "?call trust b"]]) (auto dest: since_in since_grows)
  show ?thesis
    unfolding cli_install_def Let_def
    apply (rule runs_then_reads, intro reads_intro, rule runs_then_reads, intro reads_intro)
    apply (rule runs_then [OF runs_conseq [OF runs_trusted_supply [OF assms, where L = "prefix k0" and ?k0.0 = k0]]])
        apply (auto simp: lasting_def prefix_def) [3]
     apply assumption
    apply (rule runs_pair, rule runs_pair, unfold prod.case)
    apply (rule framed [OF rest])
    done
qed

text \<open>A rollback exchanges the two releases of the selection.\<close>

definition rolled_back :: "(string \<times> selection) option \<Rightarrow> cli_report \<Rightarrow> cli_event list \<Rightarrow> bool" where
  "rolled_back old r k \<longleftrightarrow> (\<exists>n s i m. old = Some (n, s) \<and> sl_previous s = Some i \<and>
     newest_switch k = Some (m, new_selection i (Some (sl_current s))) \<and> rp_activation r = Some m \<and>
     map_option ri_id (rp_current r) = Some i \<and> map_option ri_id (rp_previous r) = Some (sl_current s))"

lemma runs_known_admission:
  "cli_runs w L (get_admission w i) (\<lambda>a k. L k \<and> ri_id (ad_release a) = i)"
  by (rule runs_fact [OF reads_get_admission]) (blast dest: get_admission_is)

lemma runs_rollback:
  assumes "cli_faithful w"
  shows "cli_runs w (\<lambda>k. newest_switch k = old) (cli_rollback w l) (\<lambda>r. rolled_back old r)"
proof -
  let ?sel = "\<lambda>x k. newest_switch k = old \<and> (newest_switch k = x \<and> (\<forall>n s. x = Some (n, s) \<longrightarrow> selection_valid s))"
  let ?from = "\<lambda>n s k. newest_switch k = old \<and> old = Some (n, s) \<and> selection_valid s"
  let ?to = "\<lambda>n s i k. ?from n s k \<and> sl_previous s = Some i"
  let ?cand = "\<lambda>n s i a k. (?to n s i k \<and> i \<in> set (releases_made k) \<and> release_id_valid i) \<and> ri_id (ad_release a) = i"
  have sel: "cli_runs w (?sel x) (ret (ok_or x c)) (\<lambda>(n, s). ?from n s)" for x c
    by (rule runs_conseq [OF runs_ret [where L = "?sel x"]]) (auto simp: ok_or_def fail_def split: option.splits)
  have prev: "cli_runs w (?from n s) (ret (ok_or (sl_previous s) c)) (\<lambda>i. ?to n s i)" for n s c
    by (rule runs_conseq [OF runs_ret [where L = "?from n s"]]) (auto simp: ok_or_def fail_def split: option.splits)
  have admit: "cli_runs w (?to n s i) (admitted w l i) (\<lambda>(a, b) k. ?cand n s i a k \<and>
      i = cli_version (bundle_manifest b) @ ''-'' @ cli_revision (bundle_manifest b))" for n s i
    by (rule runs_conseq [OF runs_admitted [where L = "?to n s i"]]) (intro lasting_intro, assumption, auto)
  have probe: "cli_runs w (\<lambda>k. ?cand n s i a k \<and> i = cli_version (bundle_manifest b) @ ''-'' @ cli_revision (bundle_manifest b))
      (probe_at w p (bundle_manifest b)) (\<lambda>_ k. ?cand n s i a k \<and> probed_for i k)" for n s i a b p
  proof (rule runs_precond)
    assume i: "i = cli_version (bundle_manifest b) @ ''-'' @ cli_revision (bundle_manifest b)"
    show ?thesis by (rule runs_conseq [OF runs_probe [OF _ i, where L = "?cand n s i a"]]) (intro lasting_intro, auto)
  qed simp
  have switch: "cli_runs w (\<lambda>k. (?cand n s i a k \<and> probed_for i k) \<and> ri_id (ad_release c) = sl_current s)
      (act_then (activate w l i (Some (sl_current s)) (Some (n, s))) (\<lambda>name.
       ret (Inr \<lparr>rp_action = ''rollback'', rp_status = ''ROLLED_BACK'', rp_changed = True,
              rp_current = Some (ad_release a), rp_previous = Some (ad_release c), rp_activation = Some name\<rparr>)))
      (\<lambda>r. rolled_back old r)" for n s i a c
  proof (rule runs_precond)
    let ?facts = "old = Some (n, s) \<and> sl_previous s = Some i \<and> selection_valid s \<and>
        ri_id (ad_release a) = i \<and> ri_id (ad_release c) = sl_current s"
    show ?facts if "(?cand n s i a k \<and> probed_for i k) \<and> ri_id (ad_release c) = sl_current s" for k using that by blast
    assume f: ?facts
    then have act: "cli_runs w (may_switch i old) (activate w l i (Some (sl_current s)) (Some (n, s)))
        (\<lambda>m k. newest_switch k = Some (m, new_selection i (Some (sl_current s))))"
      using runs_activate [OF assms, where previous = "Some (sl_current s)" and old = old and i = i and l = l]
      by (auto simp: current_of_def selection_valid_def)
    have act': "cli_runs w (\<lambda>k. (?cand n s i a k \<and> probed_for i k) \<and> ri_id (ad_release c) = sl_current s)
        (activate w l i (Some (sl_current s)) (Some (n, s))) (\<lambda>m k. newest_switch k = Some (m, new_selection i (Some (sl_current s))))"
      by (rule runs_conseq [OF act]) (auto simp: may_switch_def)
    show ?thesis
      by (rule runs_then [OF act'], rule runs_conseq [OF runs_ret], assumption) (use f in \<open>auto simp: rolled_back_def\<close>)
  qed
  show ?thesis
    unfolding cli_rollback_def
    apply (rule runs_then_reads, intro reads_intro, rule runs_then_reads, intro reads_intro)
    apply (rule runs_then_reads, intro reads_intro, rule runs_then_reads, intro reads_intro)
    apply (rule runs_then_reads, intro reads_intro, rule runs_then_reads, intro reads_intro)
    apply (rule runs_then [OF runs_selection_proper [OF assms]], rule runs_then [OF sel], rule runs_pair, unfold prod.case)
    apply (rule runs_then [OF prev], rule runs_then [OF admit], rule runs_pair, unfold prod.case)
    apply (rule runs_then [OF probe], rule runs_then [OF runs_known_admission], rule switch)
    done
qed

text \<open>A report is about the selection, if there is one.\<close>

definition reports :: "cli_report \<Rightarrow> cli_event list \<Rightarrow> bool" where
  "reports r k \<longleftrightarrow> (if roots_made k = [] \<or> newest_switch k = None then r = nothing_installed
     else rp_status r = ''READY'' \<and> tells_selection r k)"

lemma lasting_some_root [lasting_intro]: "lasting (\<lambda>k. roots_made k \<noteq> [])"
  by (auto simp: lasting_def)

lemma runs_info:
  assumes "cli_faithful w" "lasting L"
  shows "cli_runs w L (cli_info w l) (\<lambda>r k. L k \<and> reports r k)"
proof -
  let ?L = "\<lambda>k. L k \<and> roots_made k \<noteq> []"
  let ?sel = "\<lambda>n s k. ?L k \<and> newest_switch k = Some (n, s)"
  have none: "cli_runs w (\<lambda>k. L k \<and> (roots_made k = [] \<or> newest_switch k = None)) (ret (Inr nothing_installed)) (\<lambda>r k. L k \<and> reports r k)"
    by (rule runs_conseq [OF runs_ret [where L = "\<lambda>k. L k \<and> (roots_made k = [] \<or> newest_switch k = None)"]]) (auto simp: reports_def)
  have admit: "cli_runs w (?sel n s) (admitted w l (sl_current s)) (\<lambda>(a, b) k. ?sel n s k \<and> ri_id (ad_release a) = sl_current s)" for n s
    by (rule runs_conseq [OF runs_admitted [where L = "?sel n s"]]) (intro lasting_intro assms, auto)
  have rest: "cli_runs w (\<lambda>k. ?sel n s k \<and> ri_id (ad_release a) = sl_current s)
      (act_then (previous_release w (sl_previous s)) (\<lambda>previous.
       act_then (require_selection w (Some (n, s))) (\<lambda>_.
       ret (Inr \<lparr>rp_action = ''info'', rp_status = ''READY'', rp_changed = False, rp_current = Some (ad_release a),
                rp_previous = previous, rp_activation = Some n\<rparr>))))
      (\<lambda>r k. L k \<and> reports r k)" for n s a
    by (rule runs_then_reads, intro reads_intro, rule runs_then_reads, intro reads_intro, rule runs_conseq [OF runs_ret], assumption)
      (auto simp: tells_selection_def reports_def)
  have found: "cli_runs w (?sel n s) (act_then (check_entry w l False) (\<lambda>_.
       act_then (admitted w l (sl_current s)) (\<lambda>(a, _).
       act_then (previous_release w (sl_previous s)) (\<lambda>previous.
       act_then (require_selection w (Some (n, s))) (\<lambda>_.
       ret (Inr \<lparr>rp_action = ''info'', rp_status = ''READY'', rp_changed = False, rp_current = Some (ad_release a),
                rp_previous = previous, rp_activation = Some n\<rparr>))))))
      (\<lambda>r k. L k \<and> reports r k)" for n s
    by (rule runs_then_reads, intro reads_intro, rule runs_then [OF admit], rule runs_pair, unfold prod.case, rule rest)
  have opened: "cli_runs w L (open_root w l) (\<lambda>x k. L k \<and> (x = None \<longleftrightarrow> roots_made k = []))"
    by (rule runs_conseq [OF runs_open_root [OF assms(1), where L = L]]) (auto split: list.splits)
  have read: "cli_runs w ?L (get_selection w) (\<lambda>x k. ?L k \<and> newest_switch k = x)"
    by (rule runs_conseq [OF runs_get_selection [OF assms(1), where L = ?L]]) auto
  have selected: "cli_runs w (\<lambda>k. ?L k \<and> newest_switch k = x)
      (case x of None \<Rightarrow> ret (Inr nothing_installed)
       | Some (n, s) \<Rightarrow>
           act_then (check_entry w l False) (\<lambda>_.
           act_then (admitted w l (sl_current s)) (\<lambda>(a, _).
           act_then (previous_release w (sl_previous s)) (\<lambda>previous.
           act_then (require_selection w (Some (n, s))) (\<lambda>_.
           ret (Inr \<lparr>rp_action = ''info'', rp_status = ''READY'', rp_changed = False, rp_current = Some (ad_release a),
                    rp_previous = previous, rp_activation = Some n\<rparr>))))))
      (\<lambda>r k. L k \<and> reports r k)" for x
  proof (cases x)
    case (Some ns)
    obtain n s where "ns = (n, s)" by (cases ns)
    with found [of n s] Some show ?thesis by simp
  next
    case None
    show ?thesis unfolding None option.case by (rule runs_conseq [OF none]) auto
  qed
  have body: "cli_runs w (\<lambda>k. L k \<and> (x = None \<longleftrightarrow> roots_made k = [])) (if x = None then ret (Inr nothing_installed) else m)
      (\<lambda>r k. L k \<and> reports r k)" if "cli_runs w ?L m (\<lambda>r k. L k \<and> reports r k)" for x m
  proof (rule runs_if)
    assume "x = None"
    then show "cli_runs w (\<lambda>k. L k \<and> (x = None \<longleftrightarrow> roots_made k = [])) (ret (Inr nothing_installed)) (\<lambda>r k. L k \<and> reports r k)"
      by (intro runs_conseq [OF none]) auto
  next
    assume "x \<noteq> None"
    then show "cli_runs w (\<lambda>k. L k \<and> (x = None \<longleftrightarrow> roots_made k = [])) m (\<lambda>r k. L k \<and> reports r k)"
      by (intro runs_conseq [OF that]) auto
  qed
  show ?thesis
    unfolding cli_info_def by (rule runs_then [OF opened], rule body, rule runs_then [OF read], rule selected)
qed

end
