(* ===== verification/CliProps.thy ===== *)
theory CliProps
  imports CliOps
begin

text \<open>
  What holds of the store of management releases over its whole life: installations, updates,
  rollbacks and reports in any order, some cut off in the middle.
\<close>

section \<open>Lives of the store\<close>

datatype cli_op = Op_Install cli_options bool | Op_Rollback locations | Op_Info locations

fun run_cli_op :: "('a, 'k) cli_world \<Rightarrow> cli_op \<Rightarrow> cli_report cact" where
  "run_cli_op w (Op_Install p update) = cli_install w p update"
| "run_cli_op w (Op_Rollback l) = cli_rollback w l"
| "run_cli_op w (Op_Info l) = cli_info w l"

text \<open>The operations name one root and hold its lock in turn; the answers of \<open>w\<close> change with the clock.\<close>

inductive cli_life :: "('a, 'k) cli_world \<Rightarrow> (cli_disk, cli_event) site \<Rightarrow> bool" for w where
  cli_life_start: "cli_life w \<lparr>on_disk = no_disk, at_time = t, so_far = []\<rparr>"
| cli_life_op: "cli_life w s \<Longrightarrow> run_cli_op w a s = (r, s') \<Longrightarrow> cli_life w s'"
| cli_life_cut: "cli_life w s \<Longrightarrow> run_cli_op w a s = (r, s') \<Longrightarrow> prefix (so_far s) (so_far c) \<Longrightarrow>
     prefix (so_far c) (so_far s') \<Longrightarrow> on_disk c = replayed cli_apply no_disk (so_far c) \<Longrightarrow> cli_life w c"

text \<open>What runs from every log, one log at a time.\<close>

lemma runs_anywhere:
  assumes "\<And>k0. cli_runs w (L k0) m (Q k0)" "\<And>k. L k k"
  shows "cli_runs w (\<lambda>_. True) m (\<lambda>_ _. True)"
  unfolding runs_def
proof (rule tripleI)
  fix s r s' assume s: "holds cli_apply no_disk (cli_may w) (\<lambda>_. True) s" "m s = (r, s')"
  then have "holds cli_apply no_disk (cli_may w) (L (so_far s)) s" by (simp add: holds_def assms(2))
  from tripleD [OF assms(1) [unfolded runs_def] this s(2)]
  show "onward cli_apply no_disk (cli_may w) s s' \<and>
    (case r of Inl e \<Rightarrow> holds cli_apply no_disk (cli_may w) (\<lambda>_. True) s' | Inr x \<Rightarrow> holds cli_apply no_disk (cli_may w) (\<lambda>_. True) s')"
    by (auto simp: holds_def split: sum.splits)
qed

lemma runs_cli_op:
  assumes "cli_faithful w"
  shows "cli_runs w (\<lambda>_. True) (run_cli_op w a) (\<lambda>_ _. True)"
proof (cases a)
  case (Op_Install p update)
  show ?thesis
    unfolding Op_Install run_cli_op.simps
    by (rule runs_anywhere [where L = "\<lambda>k0 k. k = k0"]) (rule runs_install [OF assms], rule refl)
next
  case (Op_Rollback l)
  show ?thesis
    unfolding Op_Rollback run_cli_op.simps
    by (rule runs_anywhere [where L = "\<lambda>k0 k. newest_switch k = newest_switch k0"]) (rule runs_rollback [OF assms], rule refl)
next
  case (Op_Info l)
  show ?thesis
    unfolding Op_Info run_cli_op.simps by (rule runs_conseq [OF runs_info [OF assms lasting_const]]) simp_all
qed

lemma runs_result:
  assumes "cli_runs w L m Q" "cli_sound w s" "L (so_far s)" "m s = (r, s')"
  shows "cli_sound w s'" "prefix (so_far s) (so_far s')" "r = Inr x \<Longrightarrow> Q x (so_far s')"
  using tripleD [OF assms(1) [unfolded runs_def] _ assms(4)] assms(2,3)
  by (auto simp: holds_def onward_def split: sum.splits)

lemma cli_life_sound: "cli_life w s \<Longrightarrow> cli_faithful w \<Longrightarrow> cli_sound w s"
proof (induction rule: cli_life.induct)
  case (cli_life_op s a r s')
  then show ?case using runs_result(1) [OF runs_cli_op] by blast
next
  case (cli_life_cut s a r s' c)
  then have "cli_sound w s'" using runs_result(1) [OF runs_cli_op] by blast
  then show ?case using cli_life_cut.hyps(4,5) permitted_prefix by (auto simp: site_ok_def)
qed (simp add: site_ok_def permitted_empty)

section \<open>What a permitted log tells\<close>

lemma published_from:
  "permitted (cli_may w) l \<Longrightarrow> i \<in> set (releases_made l) \<Longrightarrow>
     \<exists>t b rd. Supply_Trusted t b \<in> set l \<and> (\<exists>r \<in> set (roots_made l). cr_trust r = t) \<and> trusted_under w t b \<and> i = release_id b \<and>
       Release_Published i rd \<in> set l \<and> rd_admission rd = cw_print w (json_of_admission (new_admission w b (rd_id rd)))"
proof (induction rule: permitted.induct)
  case (permitted_snoc l e)
  show ?case
  proof (cases "i \<in> set (releases_made l)")
    case False
    then obtain rd where e: "e = Release_Published i rd" using permitted_snoc.prems by (cases e) auto
    with permitted_snoc.hyps(2) obtain t b where b: "Supply_Trusted t b \<in> set l" "\<exists>r \<in> set (roots_made l). cr_trust r = t"
      "i = release_id b" "rd_admission rd = cw_print w (json_of_admission (new_admission w b (rd_id rd)))" by auto
    have "trusted_under w t b"
      using b(1) permitted_at permitted_snoc.hyps(1) by (metis cli_may.simps(2) in_set_conv_decomp)
    with b e show ?thesis by auto
  qed (use permitted_snoc.IH in \<open>fastforce\<close>)
qed simp

lemma newest_split: "newest_switch l = Some (n, t) \<Longrightarrow> \<exists>l0 l1. l = l0 @ Switched n t # l1"
proof (induction l rule: rev_induct)
  case (snoc e l)
  then show ?case by (cases e) (auto, (metis append.assoc append_Cons)+)
qed (simp add: newest_switch_def)

lemma previous_published:
  "permitted (cli_may w) l \<Longrightarrow> newest_switch l = Some (n, t) \<Longrightarrow> sl_previous t = Some p \<Longrightarrow> p \<in> set (releases_made l)"
proof (induction arbitrary: n t rule: permitted.induct)
  case (permitted_snoc l e)
  show ?case
  proof (cases "is_switch e")
    case True
    then have "e = Switched n t" using permitted_snoc.prems by (auto simp: is_switch_def)
    then have "current_of (newest_switch l) = Some p" using permitted_snoc by auto
    then obtain m u where "newest_switch l = Some (m, u)" "sl_current u = p" by (auto simp: current_of_def)
    with newest_proper [OF permitted_snoc.hyps(1)] show ?thesis by auto
  qed (use permitted_snoc in \<open>auto simp: is_switch_def split: cli_event.splits\<close>)
qed (simp add: newest_switch_def)

lemma hex16_activation: "k \<le> u64_max \<Longrightarrow> activation_name (hex16 k)"
proof -
  assume "k \<le> u64_max"
  then have "length (hex16 k) = 16" by (rule hex16_reads)
  moreover have d: "\<forall>d \<in> set [0..<16]. is_lower_hex (digit_char d)" by code_simp
  have "is_lower_hex c" if "c \<in> set (hex16 k)" for c
  proof (cases "c \<in> set (show_radix 16 k)")
    case True
    then show ?thesis using d show_radix_digits [of 16 c k] by auto
  next
    case False
    then have "c = CHR ''0''" using that by (simp add: hex16_def)
    then show ?thesis by (simp add: is_lower_hex_def is_digit_def)
  qed
  ultimately show ?thesis by (auto simp: activation_name_def list_all_iff)
qed

lemma made_are_activations: "permitted (cli_may w) l \<Longrightarrow> n \<in> set (acts_made l) \<Longrightarrow> activation_name n"
proof (induction rule: permitted.induct)
  case (permitted_snoc l e)
  then show ?case by (cases e) (auto dest: next_activation_new(1) intro: hex16_activation)
qed simp

section \<open>Properties\<close>

text \<open>C37. Whatever was installed, updated, rolled back or cut off before: the command in the bin
  directory is only ever switched to a release that was verified under the trust recorded at the first
  installation, whose admission is that of the verified bundle, that has been checked on the disk just
  before and probed since the last switch; and the switch records what was current until then.\<close>

theorem switch_only_to_verified_release:
  assumes "cli_life w s" "cli_faithful w" "so_far s = l @ Switched n t # l'"
  shows "(\<exists>src b rd r. roots_made (so_far s) = [r] \<and> trust_verify (cw_crypto w) (cw_key_of w) (cr_trust r) src = Inr b \<and>
      sl_current t = release_id b \<and> Release_Published (release_id b) rd \<in> set l \<and>
      rd_admission rd = cw_print w (json_of_admission (new_admission w b (rd_id rd)))) \<and>
    just_admitted (sl_current t) l \<and> probed_for (sl_current t) l \<and>
    sl_previous t = current_of (newest_switch l) \<and> sl_previous t \<noteq> Some (sl_current t)"
proof (intro conjI)
  have p: "permitted (cli_may w) (l @ Switched n t # l')"
    using cli_life_sound [OF assms(1,2)] assms(3) by (simp add: site_ok_def)
  note at = permitted_at [OF p] and l = permitted_take [OF p]
  from at show "just_admitted (sl_current t) l" "probed_for (sl_current t) l"
    "sl_previous t = current_of (newest_switch l)" "sl_previous t \<noteq> Some (sl_current t)" by auto
  from at published_from [OF l, of "sl_current t"] obtain b rd r where b: "r \<in> set (roots_made l)" "trusted_under w (cr_trust r) b"
    "sl_current t = release_id b" "Release_Published (sl_current t) rd \<in> set l"
    "rd_admission rd = cw_print w (json_of_admission (new_admission w b (rd_id rd)))" by auto
  have "r \<in> set (roots_made (so_far s))" using b(1) by (simp add: assms(3) roots_made_def map_filter_def)
  moreover have "length (roots_made (so_far s)) \<le> 1" using at_most_one_root [OF p] assms(3) by simp
  ultimately have "roots_made (so_far s) = [r]" by (cases "roots_made (so_far s)") auto
  with b show "\<exists>src b rd r. roots_made (so_far s) = [r] \<and> trust_verify (cw_crypto w) (cw_key_of w) (cr_trust r) src = Inr b \<and>
      sl_current t = release_id b \<and> Release_Published (release_id b) rd \<in> set l \<and>
      rd_admission rd = cw_print w (json_of_admission (new_admission w b (rd_id rd)))"
    unfolding trusted_under_def by metis
qed

text \<open>C38. At every moment, also after an operation that was cut off, the link \<open>current\<close> leads to the complete
  activation of the newest switch, which reads as what was selected, and the releases it names are there.\<close>

theorem selection_always_complete:
  assumes "cli_life w s" "cli_faithful w" "newest_switch (so_far s) = Some (n, t)"
    "cli_decode w selection_of_json (cw_print w (json_of_selection t)) = Inr t"
  shows "\<exists>link a. cd_current (on_disk s) = Some link \<and> activation_of_link link = Inr n \<and>
    map_of (cd_activations (on_disk s)) n = Some a \<and> read_activation w a = Inr t \<and>
    (\<forall>i. i = sl_current t \<or> Some i = sl_previous t \<longrightarrow> map_of (cd_releases (on_disk s)) i \<noteq> None)"
proof -
  have p: "permitted (cli_may w) (so_far s)" "on_disk s = cli_disk_after (so_far s)"
    using cli_life_sound [OF assms(1,2)] by (simp_all add: site_ok_def)
  have "(n, t) \<in> set (switches (so_far s))"
    using assms(3) unfolding newest_switch_def by (metis last_in_set option.distinct(1) option.inject)
  then have m: "selection_made w n t (so_far s)" by (rule switched_is_made [OF p(1)])
  have v: "sl_current t \<in> set (releases_made (so_far s))" "selection_valid t" using newest_proper [OF p(1) assms(3)] by simp_all
  have "n \<in> set (acts_made (so_far s))" using m selected_is_made [OF p(1)] unfolding selection_made_def by blast
  then have "activation_of_link (''activations/'' @ n) = Inr n"
    using made_are_activations [OF p(1)] by (simp add: activation_of_link_def Let_def)
  moreover have "cd_current (on_disk s) = Some (''activations/'' @ n)" using disk_names(3) p(2) assms(3) by simp
  moreover have "map_of (cd_releases (on_disk s)) i \<noteq> None" if "i = sl_current t \<or> Some i = sl_previous t" for i
    using that v(1) previous_published [OF p(1) assms(3)] p(2) by (metis disk_names(1) map_of_eq_None_iff set_map)
  moreover note disk_complete [OF p(1) m]
  moreover have "read_activation w \<lparr>ac_selection = Some (cw_print w (json_of_selection t)),
    ac_links = [(''bin'', link_target (sl_current t) ''bin''), (''share'', link_target (sl_current t) ''share'')]\<rparr> = Inr t"
    using assms(4) v(2) by (simp add: read_activation_def ok_or_def act_names_def)
  ultimately show ?thesis using p(2) by simp
qed

text \<open>C39. A rollback that succeeds twice restores the very selection it started from.\<close>

theorem rollback_twice_restores:
  assumes "cli_life w s" "cli_faithful w" "cli_rollback w l s = (Inr r1, s1)" "cli_rollback w l s1 = (Inr r2, s2)"
  shows "\<exists>n t m. newest_switch (so_far s) = Some (n, t) \<and> newest_switch (so_far s2) = Some (m, t) \<and>
    rp_activation r2 = Some m \<and> map_option ri_id (rp_current r2) = Some (sl_current t) \<and>
    map_option ri_id (rp_previous r2) = sl_previous t \<and> map_option ri_id (rp_current r1) = sl_previous t"
proof -
  note s = cli_life_sound [OF assms(1,2)]
  have one: "rolled_back (newest_switch (so_far s)) r1 (so_far s1)" "cli_sound w s1"
    using runs_result(1,3) [OF runs_rollback [OF assms(2)] s _ assms(3)] by auto
  have two: "rolled_back (newest_switch (so_far s1)) r2 (so_far s2)"
    using runs_result(3) [OF runs_rollback [OF assms(2)] one(2) _ assms(4)] by auto
  from one(1) obtain n t i k where t: "newest_switch (so_far s) = Some (n, t)" "sl_previous t = Some i"
    "newest_switch (so_far s1) = Some (k, new_selection i (Some (sl_current t)))" "map_option ri_id (rp_current r1) = Some i"
    unfolding rolled_back_def by blast
  have "permitted (cli_may w) (so_far s)" using s by (simp add: site_ok_def)
  then have "selection_valid t" using newest_proper t(1) by blast
  then have e: "new_selection (sl_current t) (Some i) = t"
    using t(2) by (cases t) (simp add: new_selection_def selection_valid_def)
  from two t(3) obtain m where "newest_switch (so_far s2) = Some (m, new_selection (sl_current t) (Some i))"
    "rp_activation r2 = Some m" "map_option ri_id (rp_current r2) = Some (sl_current t)" "map_option ri_id (rp_previous r2) = Some i"
    unfolding rolled_back_def by (auto simp: new_selection_def)
  with e t show ?thesis by auto
qed

text \<open>C40. An installation or update that succeeds has, in this very call, verified a bundle from the source it
  was given under the one recorded trust; its report names the release of that bundle with the
  hash of the manifest of that bundle, so another content under the name of a known release is not
  reported as installed; and a report that succeeds afterwards says READY with that same release and
  the same activation.\<close>

theorem install_selects_supply:
  assumes "cli_life w s" "cli_faithful w" "cli_install w p update s = (Inr r, s1)" "cli_info w l s1 = (Inr q, s2)"
  shows "\<exists>t b added root i j path m. so_far s1 = so_far s @ added \<and> Supply_Trusted t b \<in> set added \<and>
    roots_made (so_far s1) = [root] \<and> cr_trust root = t \<and>
    cw_source_path w i (co_from p) = Inr path \<and>
    trust_verify (cw_crypto w) (cw_key_of w) t (snd (cw_source w j path)) = Inr b \<and>
    rp_current r = Some m \<and> ri_id m = release_id b \<and> ri_manifest_sha m = bundle_manifest_sha256 b \<and>
    rp_activation r \<noteq> None \<and> rp_status q = ''READY'' \<and> rp_activation q = rp_activation r \<and>
    map_option ri_id (rp_current q) = Some (release_id b)"
proof -
  note s = cli_life_sound [OF assms(1,2)]
  have one: "\<exists>t b. (since (so_far s) (Supply_Trusted t b) (so_far s1) \<and> from_source w p t b) \<and> installed t b r (so_far s1)"
    "cli_sound w s1"
    using runs_result(1,3) [OF runs_install [OF assms(2)] s _ assms(3)] by blast+
  then obtain t b where b: "since (so_far s) (Supply_Trusted t b) (so_far s1)" "from_source w p t b"
    "tells_selection r (so_far s1)" "tells_content b r" "supplied t b (so_far s1)"
    unfolding installed_def by blast
  then obtain n y where y: "newest_switch (so_far s1) = Some (n, y)" "rp_activation r = Some n"
    "map_option ri_id (rp_current r) = Some (sl_current y)"
    unfolding tells_selection_def by blast
  from b(5) obtain root where root: "root \<in> set (roots_made (so_far s1))" "cr_trust root = t" unfolding supplied_def by blast
  moreover have "length (roots_made (so_far s1)) \<le> 1" using one(2) at_most_one_root unfolding site_ok_def by blast
  ultimately have roots: "roots_made (so_far s1) = [root]" by (cases "roots_made (so_far s1)") auto
  let ?L = "\<lambda>k. newest_switch k = Some (n, y) \<and> roots_made k \<noteq> []"
  have "lasting ?L" by (intro lasting_intro)
  from runs_result(3) [OF runs_info [OF assms(2) this] one(2) _ assms(4)] y(1) roots
  have q: "?L (so_far s2)" "reports q (so_far s2)" by auto
  then have "rp_status q = ''READY''" "rp_activation q = Some n" "map_option ri_id (rp_current q) = Some (sl_current y)"
    unfolding reports_def tells_selection_def by auto
  moreover from b(1,2,4) obtain added i j path m where
    "so_far s1 = so_far s @ added" "Supply_Trusted t b \<in> set added" "cw_source_path w i (co_from p) = Inr path"
    "trust_verify (cw_crypto w) (cw_key_of w) t (snd (cw_source w j path)) = Inr b"
    "rp_current r = Some m" "ri_id m = release_id b" "ri_manifest_sha m = bundle_manifest_sha256 b"
    unfolding since_def from_source_def tells_content_def by blast
  ultimately show ?thesis
    using root(2) roots y
    by (intro exI [of _ t] exI [of _ b] exI [of _ added] exI [of _ root] exI [of _ i] exI [of _ j] exI [of _ path] exI [of _ m]) simp
qed

end
