(* ===== verification/CliDemo.thy ===== *)
theory CliDemo
  imports CliProps
begin

text \<open>
  A concrete life of the store of management releases, evaluated on the definitions of \<open>CliStore\<close>:
  an installation, an update and two rollbacks; the properties of \<open>CliProps\<close> are applied to it.
\<close>

section \<open>Two bundles\<close>

definition demo_revision :: string where
  "demo_revision = replicate 40 (CHR ''b'')"

definition demo_files :: "(string \<times> bytes) list" where
  "demo_files = [(''bin/bxdl'', macho_arm64 @ replicate 24 NUL), (''docs/completion.md'', ''c''),
     (''docs/management-cli.md'', ''m''), (''share/zsh/site-functions/_bxdl'', ''z'')]"

definition demo_manifest_json :: "string \<Rightarrow> json" where
  "demo_manifest_json v = JObj [(''schemaVersion'', JInt 1), (''kind'', JStr ''bxdl-management-cli''),
     (''version'', JStr v), (''revision'', JStr demo_revision), (''target'', JStr ''darwin-arm64''),
     (''files'', JArr (map (\<lambda>(p, b). JObj [(''path'', JStr p), (''size'', JInt (int (length b))),
        (''sha256'', JStr sample_hash), (''mode'', JInt (int (the (map_of payloads p))))]) demo_files))]"

definition demo_manifest :: "string \<Rightarrow> cli_manifest" where
  "demo_manifest v = \<lparr>cli_schema = 1, cli_kind = ''bxdl-management-cli'', cli_version = v, cli_revision = demo_revision,
     cli_target = ''darwin-arm64'', cli_files = map (\<lambda>(p, b). \<lparr>file_path = p, file_size = length b, file_sha256 = sample_hash,
        file_mode = the (map_of payloads p)\<rparr>) demo_files\<rparr>"

text \<open>The text of a manifest is its version.\<close>

definition demo_bundle :: "string \<Rightarrow> string \<Rightarrow> cli_bundle" where
  "demo_bundle v how = \<lparr>bundle_manifest = demo_manifest v, bundle_manifest_bytes = v, bundle_signature = None,
     bundle_files = demo_files, bundle_authenticity = how, bundle_manifest_sha256 = sample_hash\<rparr>"

definition demo_dir :: fs_meta where
  "demo_dir = \<lparr>fm_dir = True, fm_regular = False, fm_links = 1, fm_device = 1, fm_inode = 1, fm_len = 1, fm_mode = mode_755,
     fm_modified = (0, 0), fm_changed = (0, 0)\<rparr>"

definition demo_answers :: "nat \<Rightarrow> bytes \<Rightarrow> file_answers" where
  "demo_answers md b = (let m = demo_dir\<lparr>fm_regular := True, fm_dir := False, fm_len := length b, fm_mode := md\<rparr> in
     \<lparr>fa_before = Some m, fa_opened = Some (Some m), fa_content = Some b, fa_after = Some m, fa_current = Some m\<rparr>)"

definition demo_file :: "string \<Rightarrow> nat \<Rightarrow> bytes \<Rightarrow> dir_entry" where
  "demo_file n md b = Dir_Entry n (fa_before (demo_answers md b)) (demo_answers md b) (Dir_Node None None None)"

definition demo_sub :: "dir_entry list \<Rightarrow> dir_node" where
  "demo_sub es = Dir_Node (Some demo_dir) (Some es) (Some demo_dir)"

definition demo_directory :: "string \<Rightarrow> dir_entry list \<Rightarrow> dir_entry" where
  "demo_directory n es = Dir_Entry n (Some demo_dir) (demo_answers 0 []) (demo_sub es)"

definition demo_source :: "string \<Rightarrow> bundle_source" where
  "demo_source v = \<lparr>source_meta = Some demo_dir, source_scan = \<lparr>scan_before = Some demo_dir,
     scan_root = demo_sub [demo_directory ''bin'' [demo_file ''bxdl'' mode_755 (macho_arm64 @ replicate 24 NUL)],
       demo_directory ''docs'' [demo_file ''completion.md'' mode_644 ''c'', demo_file ''management-cli.md'' mode_644 ''m''],
       demo_directory ''share'' [demo_directory ''zsh'' [demo_directory ''site-functions'' [demo_file ''_bxdl'' mode_644 ''z'']]],
       demo_file ''manifest.json'' mode_644 v], scan_after = Some demo_dir\<rparr>, source_file = demo_answers 0 []\<rparr>"

section \<open>The documents\<close>

abbreviation demo_a :: string where "demo_a \<equiv> ''1''"
abbreviation demo_b :: string where "demo_b \<equiv> ''2''"

definition demo_id :: "string \<Rightarrow> string" where
  "demo_id v = v @ ''-'' @ demo_revision"

definition demo_trust :: cli_trust where
  "demo_trust = \<lparr>ct_mode = ''unsigned-development'', ct_key = None\<rparr>"

definition demo_record :: cli_record where
  "demo_record = \<lparr>cr_schema = 1, cr_kind = ''BXDL_CLI_INSTALLATION'', cr_root = (1, 1), cr_lock = (1, 2), cr_releases = (1, 3),
     cr_activations = (1, 4), cr_staging = (1, 5), cr_bin_dir = ''/b'', cr_bin = (1, 6), cr_trust = demo_trust\<rparr>"

definition demo_admission :: "string \<Rightarrow> admission" where
  "demo_admission v = \<lparr>ad_schema = 1, ad_kind = ''BXDL_CLI_ADMISSION'',
     ad_release = release_of_bundle (demo_bundle v ''unsigned-development''), ad_directory = (2, 3), ad_signature = None\<rparr>"

definition demo_first :: selection where "demo_first = new_selection (demo_id demo_a) None"
definition demo_second :: selection where "demo_second = new_selection (demo_id demo_b) (Some (demo_id demo_a))"
definition demo_third :: selection where "demo_third = new_selection (demo_id demo_a) (Some (demo_id demo_b))"

definition demo_texts :: "(json \<times> bytes) list" where
  "demo_texts = [(json_of_cli_record demo_record, ''r''), (json_of_admission (demo_admission demo_a), ''a''),
     (json_of_admission (demo_admission demo_b), ''b''), (json_of_selection demo_first, ''s''),
     (json_of_selection demo_second, ''t''), (json_of_selection demo_third, ''u'')]"

definition demo_print :: "json \<Rightarrow> bytes" where
  "demo_print v = (case map_of demo_texts v of None \<Rightarrow> [] | Some t \<Rightarrow> t)"

definition demo_parse :: "bytes \<Rightarrow> json option" where
  "demo_parse raw =
     (if raw = demo_a then Some (demo_manifest_json demo_a) else if raw = demo_b then Some (demo_manifest_json demo_b)
      else if raw = ''r'' then Some (json_of_cli_record demo_record)
      else if raw = ''a'' then Some (json_of_admission (demo_admission demo_a))
      else if raw = ''b'' then Some (json_of_admission (demo_admission demo_b))
      else if raw = ''s'' then Some (json_of_selection demo_first)
      else if raw = ''t'' then Some (json_of_selection demo_second)
      else if raw = ''u'' then Some (json_of_selection demo_third) else None)"

definition demo_crypto :: "(unit, unit) crypto" where
  "demo_crypto = \<lparr>gunzip = (\<lambda>_. whole_member []), sha256_hex = (\<lambda>_. sample_hash), base64_decode = (\<lambda>_. None),
     signature_of = (\<lambda>_. None), verify_strict = (\<lambda>_ _ _. False), parse_json = demo_parse\<rparr>"

lemma demo_bundles_verify:
  "trust_verify demo_crypto (\<lambda>_. None) demo_trust (demo_source demo_a) = Inr (demo_bundle demo_a ''unsigned-development'')"
  "trust_verify demo_crypto (\<lambda>_. None) demo_trust (demo_source demo_b) = Inr (demo_bundle demo_b ''unsigned-development'')"
  by code_simp+

lemma demo_bundles_intact:
  "verify_integrity demo_crypto (Some demo_dir) (demo_source demo_a) = Inr (demo_bundle demo_a ''previously-admitted-integrity-only'')"
  "verify_integrity demo_crypto (Some demo_dir) (demo_source demo_b) = Inr (demo_bundle demo_b ''previously-admitted-integrity-only'')"
  by code_simp+

lemma demo_printed:
  "demo_print (json_of_cli_record demo_record) = ''r''" "demo_print (json_of_admission (demo_admission demo_a)) = ''a''"
  "demo_print (json_of_admission (demo_admission demo_b)) = ''b''" "demo_print (json_of_selection demo_first) = ''s''"
  "demo_print (json_of_selection demo_second) = ''t''" "demo_print (json_of_selection demo_third) = ''u''"
  by code_simp+

section \<open>The world\<close>

definition demo_fs :: fs where
  "demo_fs ns = (if ns = [] then Directory (1, 1) else Missing)"

definition demo_which :: "string \<Rightarrow> string" where
  "demo_which p = (if p \<in> {''/1'', ''/r/staging/1/payload'', ''/r/releases/'' @ demo_id demo_a @ ''/payload''} then demo_a else demo_b)"

definition demo :: "(unit, unit) cli_world" where
  "demo = \<lparr>cw_crypto = demo_crypto, cw_key_hex = (\<lambda>_. []), cw_key_of = (\<lambda>_. None), cw_load_key = (\<lambda>_ _. fail ''x''),
     cw_print = demo_print, cw_macos = True, cw_eqv = id, cw_fs = (\<lambda>_. demo_fs), cw_os = (\<lambda>_. Inr ()),
     cw_done = (\<lambda>_. (True, Inr ())), cw_destination = (\<lambda>_ _. Inr ()), cw_root_id = (\<lambda>_. Inr (1, 1)),
     cw_bin = (\<lambda>_. Inr (Some (1, 6))), cw_ids = (\<lambda>_. Inr ((1, 1), (1, 2), (1, 3), (1, 4), (1, 5), (1, 6))),
     cw_stage = (\<lambda>t. (if t < 1000 then demo_a else demo_b, (2, 3))), cw_lock = (\<lambda>_. Inr ()),
     cw_source_path = (\<lambda>_ p. ok_or p ''x''), cw_source = (\<lambda>_ p. (Some demo_dir, demo_source (demo_which p))),
     cw_probe = (\<lambda>_ _ _. Inr ())\<rparr>"

lemma demo_world_answers [simp]:
  "cw_crypto demo = demo_crypto" "cw_key_of demo = (\<lambda>_. None)" "cw_print demo = demo_print" "cw_macos demo" "cw_eqv demo = id"
  "cw_fs demo t = demo_fs" "cw_os demo t = Inr ()" "cw_done demo t = (True, Inr ())" "cw_destination demo t p = Inr ()"
  "cw_root_id demo t = Inr (1, 1)" "cw_bin demo t = Inr (Some (1, 6))"
  "cw_ids demo t = Inr ((1, 1), (1, 2), (1, 3), (1, 4), (1, 5), (1, 6))"
  "cw_stage demo t = (if t < 1000 then demo_a else demo_b, (2, 3))" "cw_lock demo t = Inr ()"
  "cw_source_path demo t (Some p) = Inr p" "cw_source demo t p = (Some demo_dir, demo_source (demo_which p))"
  "cw_probe demo t p m = Inr ()"
  by (simp_all add: demo_def ok_or_def)

abbreviation demo_at :: "cli_disk \<Rightarrow> nat \<Rightarrow> cli_event list \<Rightarrow> (cli_disk, cli_event) site" where
  "demo_at d t l \<equiv> \<lparr>on_disk = d, at_time = t, so_far = l\<rparr>"

lemma demo_steps:
  "s_ask q (demo_at d t l) = (q t, demo_at d (Suc t) l)" "s_view f (demo_at d t l) = (Inr (f d), demo_at d t l)"
  "s_check b c (demo_at d t l) = (ensure b c, demo_at d t l)" "ret r (demo_at d t l) = (r, demo_at d t l)"
  "s_note e (demo_at d t l) = (Inr (), demo_at d t (l @ [e]))"
  "os_check demo (demo_at d t l) = (Inr (), demo_at d (Suc t) l)"
  "cli_effect demo e (demo_at d t l) = (Inr (), demo_at (cli_apply e d) (Suc t) (l @ [e]))"
  by (simp_all add: s_ask_def s_view_def s_check_def ret_def s_note_def modify_def os_check_def cli_effect_def s_effect_def)

lemma demo_ids:
  "demo_id demo_a \<noteq> demo_id demo_b" "release_id_valid (demo_id demo_a)" "release_id_valid (demo_id demo_b)"
  "demo_which (''/r/releases/'' @ demo_id demo_a @ ''/payload'') = demo_a"
  "demo_which (''/r/releases/'' @ demo_id demo_b @ ''/payload'') = demo_b"
  "demo_which ''/1'' = demo_a" "demo_which ''/2'' = demo_b"
  "demo_which ''/r/staging/1/payload'' = demo_a" "demo_which ''/r/staging/2/payload'' = demo_b"
  by code_simp+

lemma demo_decodes:
  "cli_decode demo cli_record_of_json ''r'' = Inr demo_record" "cli_decode demo admission_of_json ''a'' = Inr (demo_admission demo_a)"
  "cli_decode demo admission_of_json ''b'' = Inr (demo_admission demo_b)" "cli_decode demo selection_of_json ''s'' = Inr demo_first"
  "cli_decode demo selection_of_json ''t'' = Inr demo_second" "cli_decode demo selection_of_json ''u'' = Inr demo_third"
  by code_simp+

section \<open>Steps\<close>


definition demo_place :: locations where
  "demo_place = \<lparr>lo_root = ''/r'', lo_bin = ''/b''\<rparr>"

definition demo_request :: "string \<Rightarrow> cli_options" where
  "demo_request v = \<lparr>co_locations = demo_place, co_from = Some (''/'' @ v), co_trust = \<lparr>to_key_path = None, to_unsigned = True\<rparr>\<rparr>"

lemma demo_place_simps: "lo_root demo_place = ''/r''" "lo_bin demo_place = ''/b''"
  "overlaps id demo_fs ''/r'' ''/b'' = Inr False" "overlaps id demo_fs ''/r'' ''/1'' = Inr False"
  "overlaps id demo_fs ''/r'' ''/2'' = Inr False" "same_dir ''/b'' ''/b''" "entry_target demo_place = ''/r/current/bin/bxdl''"
  "same_dir (entry_target demo_place) (entry_target demo_place)"
  by code_simp+

lemma demo_paths:
  "demo_which (release_path demo_place (demo_id demo_a)) = demo_a" "demo_which (release_path demo_place (demo_id demo_b)) = demo_b"
  by code_simp+

lemma demo_record_simps:
  "cr_schema demo_record = 1" "cr_kind demo_record = ''BXDL_CLI_INSTALLATION''" "cr_root demo_record = (1, 1)"
  "cr_bin_dir demo_record = ''/b''" "cr_bin demo_record = (1, 6)" "cr_trust demo_record = demo_trust"
  "trust_key_of (\<lambda>_. None :: unit option) demo_trust = Inr None"
  by code_simp+

lemma demo_open: "cd_marker d = Some ''r'' \<Longrightarrow> open_root demo demo_place (demo_at d t l) = (Inr (Some demo_record), demo_at d (Suc (Suc (Suc (Suc (Suc t))))) l)"
  by (simp add: open_root_def act_then_def demo_steps demo_decodes demo_record_simps demo_place_simps)

lemma demo_open_none: "cd_marker d = None \<Longrightarrow> open_root demo demo_place (demo_at d t l) = (Inr None, demo_at d t l)"
  by (simp add: open_root_def act_then_def demo_steps)

lemma demo_selection_none: "cd_current d = None \<Longrightarrow> get_selection demo (demo_at d t l) = (Inr None, demo_at d (Suc t) l)"
  by (simp add: get_selection_def act_then_def demo_steps)

definition demo_act :: "selection \<Rightarrow> bytes \<Rightarrow> act_dir" where
  "demo_act s raw = \<lparr>ac_selection = Some raw, ac_links = [(''bin'', link_target (sl_current s) ''bin''), (''share'', link_target (sl_current s) ''share'')]\<rparr>"

lemma demo_selections_read:
  "read_activation demo (demo_act demo_first ''s'') = Inr demo_first" "read_activation demo (demo_act demo_second ''t'') = Inr demo_second"
  "read_activation demo (demo_act demo_third ''u'') = Inr demo_third"
proof -
  have "selection_valid demo_first" "selection_valid demo_second" "selection_valid demo_third" by code_simp+
  then show "read_activation demo (demo_act demo_first ''s'') = Inr demo_first" "read_activation demo (demo_act demo_second ''t'') = Inr demo_second"
  "read_activation demo (demo_act demo_third ''u'') = Inr demo_third"
    by (simp_all add: read_activation_def demo_act_def demo_decodes ok_or_def act_names_def)
qed

lemma demo_act_names: "activation_of_link (''activations/'' @ hex16 1) = Inr (hex16 1)"
  "activation_of_link (''activations/'' @ hex16 2) = Inr (hex16 2)" "activation_of_link (''activations/'' @ hex16 3) = Inr (hex16 3)"
  "activation_of_link (''activations/'' @ hex16 4) = Inr (hex16 4)"
  "next_activation [] = Inr 1" "next_activation [hex16 1] = Inr 2" "next_activation [hex16 1, hex16 2] = Inr 3"
  "next_activation [hex16 1, hex16 2, hex16 3] = Inr 4"
  "hex16 1 \<noteq> hex16 2" "hex16 1 \<noteq> hex16 3" "hex16 1 \<noteq> hex16 4" "hex16 2 \<noteq> hex16 3" "hex16 2 \<noteq> hex16 4" "hex16 3 \<noteq> hex16 4"
  by code_simp+

lemma demo_selection:
  assumes "cd_current d = Some (''activations/'' @ n)" "activation_of_link (''activations/'' @ n) = Inr n"
    "map_of (cd_activations d) n = Some a" "read_activation demo a = Inr s"
  shows "get_selection demo (demo_at d t l) = (Inr (Some (n, s)), demo_at d (Suc (Suc (Suc t))) l)"
  using assms by (simp add: get_selection_def act_then_def demo_steps ok_or_def)

lemma demo_release_of:
  "release_id (demo_bundle v how) = demo_id v" "ad_release (demo_admission v) = release_of_bundle (demo_bundle v ''unsigned-development'')"
  "bundle_manifest (demo_bundle v how) = demo_manifest v" "ri_id (release_of_bundle (demo_bundle v how)) = demo_id v"
  "bundle_manifest_sha256 (demo_bundle v how) = sample_hash" "signature_hash demo_crypto (demo_bundle v how) = None"
  "ad_signature (demo_admission v) = None" "ri_manifest_sha (release_of_bundle (demo_bundle v how)) = sample_hash"
  "bundle_files (demo_bundle v how) = demo_files"
  "(release_of_bundle (demo_bundle v how))\<lparr>ri_authenticity := ri_authenticity (release_of_bundle (demo_bundle v how'))\<rparr> =
    release_of_bundle (demo_bundle v how')"
  by (simp_all add: release_id_def demo_bundle_def demo_manifest_def demo_id_def demo_admission_def release_of_bundle_def signature_hash_def)

lemma demo_admission_ok: "v \<in> {demo_a, demo_b} \<Longrightarrow> admission_ok (demo_id v) (2, 3) (demo_admission v) = Inr ()"
  by (auto simp: admission_ok_def demo_admission_def release_of_bundle_def release_id_def demo_bundle_def demo_manifest_def demo_id_def)

abbreviation demo_doc :: "string \<Rightarrow> string" where
  "demo_doc v \<equiv> (if v = demo_a then ''a'' else ''b'')"

lemma demo_get_admission:
  assumes "v \<in> {demo_a, demo_b}" "map_of (cd_releases d) (demo_id v) = Some \<lparr>rd_id = (2, 3), rd_admission = demo_doc v\<rparr>"
  shows "get_admission demo (demo_id v) (demo_at d t l) = (Inr (demo_admission v), demo_at d (Suc (Suc t)) l)"
  using assms by (auto simp: get_admission_def act_then_def demo_steps ok_or_def demo_decodes demo_admission_ok demo_ids)

lemma demo_admitted:
  assumes "v \<in> {demo_a, demo_b}" "map_of (cd_releases d) (demo_id v) = Some \<lparr>rd_id = (2, 3), rd_admission = demo_doc v\<rparr>"
  shows "admitted demo demo_place (demo_id v) (demo_at d t l) =
    (Inr (demo_admission v, demo_bundle v ''previously-admitted-integrity-only''), demo_at d (t + 5) (l @ [Admitted (demo_id v)]))"
  using assms
  by (auto simp: demo_ids admitted_def demo_get_admission [OF assms] act_then_def demo_steps ok_or_def Let_def s_map_err_def integrity_at_def
      demo_paths demo_bundles_intact demo_release_of map_err_def)


lemma demo_probe: "probe_at demo p m (demo_at d t l) = (Inr (), demo_at d (Suc t) (l @ [Probed p m]))"
  by (simp add: probe_at_def act_then_def demo_steps)

lemma demo_entry_checks:
  "cd_entry d = No_Entry \<Longrightarrow> check_entry demo demo_place True (demo_at d t l) = (Inr (), demo_at d (Suc t) l)"
  "cd_entry d = Entry_Link (entry_target demo_place) \<Longrightarrow> check_entry demo demo_place m (demo_at d t l) = (Inr (), demo_at d (Suc t) l)"
  using demo_place_simps(8)
  by (auto simp: check_entry_def act_then_def demo_steps s_map_err_def map_err_def)

lemma demo_ensures:
  "cd_entry d = No_Entry \<Longrightarrow> ensure_entry demo demo_place (demo_at d t l) =
    (Inr (), demo_at (d\<lparr>cd_entry := Entry_Link (entry_target demo_place)\<rparr>) (t + 5) (l @ [Entry_Made (entry_target demo_place)]))"
  "cd_entry d = Entry_Link (entry_target demo_place) \<Longrightarrow> ensure_entry demo demo_place (demo_at d t l) = (Inr (), demo_at d (t + 3) l)"
  by (simp_all add: ensure_entry_def demo_entry_checks act_then_def demo_steps s_map_err_def map_err_def)

lemma demo_require:
  "get_selection demo (demo_at d t l) = (Inr x, s) \<Longrightarrow> require_selection demo x (demo_at d t l) = (Inr (), s)"
  by (cases s) (simp add: require_selection_def act_then_def demo_steps s_check_def ret_def)

lemma demo_writes: "write_files demo demo_files (demo_at d t l) = (Inr (), demo_at d (t + 4) l)"
proof -
  have "list_all (\<lambda>f. fst f \<in> set staged_names) demo_files" by code_simp
  moreover have "length demo_files = 4" by (simp add: demo_files_def)
  moreover have "list_all (\<lambda>f. fst f \<in> set staged_names) fs \<Longrightarrow> write_files demo fs (demo_at d t l) = (Inr (), demo_at d (t + length fs) l)" for fs t
    by (induction fs arbitrary: t) (auto simp: act_then_def demo_steps)
  ultimately show ?thesis by metis
qed

abbreviation demo_staged :: "string \<Rightarrow> string" where
  "demo_staged v \<equiv> ''/r/staging/'' @ v @ ''/payload''"

lemma demo_check_staged:
  assumes "v \<in> {demo_a, demo_b}"
  shows "check_staged demo (demo_staged v) (demo_bundle v how) (demo_at d t l) = (Inr (), demo_at d (Suc t) l)"
  using assms
  by (auto simp: check_staged_def integrity_at_def act_then_def demo_steps demo_ids demo_bundles_intact demo_release_of)

definition demo_dir_of :: "string \<Rightarrow> release_dir" where
  "demo_dir_of v = \<lparr>rd_id = (2, 3), rd_admission = demo_doc v\<rparr>"

lemma demo_new_admission: "new_admission demo (demo_bundle v ''unsigned-development'') (2, 3) = demo_admission v"
  by (simp add: new_admission_def demo_admission_def demo_release_of)

lemma demo_admission_text:
  assumes "v \<in> {demo_a, demo_b}"
  shows "\<lparr>rd_id = (2, 3), rd_admission = demo_print (json_of_admission (demo_admission v))\<rparr> = demo_dir_of v"
  using assms by (auto simp: demo_dir_of_def demo_printed)

lemma demo_stage:
  assumes "v \<in> {demo_a, demo_b}" "v = demo_a \<longleftrightarrow> t < 900" "t < 900 \<or> 1000 \<le> t" "length (cd_releases d) < 5"
    "map_of (cd_releases d) (demo_id v) = None"
  shows "stage_release demo demo_place (demo_bundle v ''unsigned-development'') (demo_at d t l) =
    (Inr (demo_admission v), demo_at (d\<lparr>cd_releases := cd_releases d @ [(demo_id v, demo_dir_of v)]\<rparr>) (t + 21)
      (l @ [Probed (demo_staged v) (demo_manifest v), Release_Published (demo_id v) (demo_dir_of v), Admitted (demo_id v)]))"
proof -
  let ?d = "d\<lparr>cd_releases := cd_releases d @ [(demo_id v, demo_dir_of v)]\<rparr>"
  have there: "map_of (cd_releases ?d) (demo_id v) = Some \<lparr>rd_id = (2, 3), rd_admission = demo_doc v\<rparr>"
    using assms(5) by (simp add: map_add_Some_iff demo_dir_of_def)
  have name: "cw_stage demo n = (v, (2, 3))" if "n \<in> {Suc (Suc t), Suc (Suc (Suc t)), Suc t}" for n
    using that assms(1-3) by auto
  have path: "lo_root demo_place @ ''/staging/'' @ v @ ''/payload'' = demo_staged v" by (simp add: demo_place_simps)
  show ?thesis
    using assms(4,5)
    by (simp add: stage_release_def stage_new_def act_then_def demo_steps name demo_release_of path Let_def demo_writes demo_check_staged [OF assms(1)]
        demo_probe demo_new_admission demo_admission_text [OF assms(1)] demo_admitted [OF assms(1) there]
        del: append_Cons demo_world_answers(13))
qed


lemma demo_make:
  assumes "demo_print (json_of_selection s) = raw" "n \<notin> set (map fst (cd_activations d))"
  shows "make_activation demo n s (demo_at d t l) =
    (Inr (), demo_at (d\<lparr>cd_activations := cd_activations d @ [(n, demo_act s raw)]\<rparr>) (t + 7)
      (l @ [Act_Made n, Act_Selected n s raw, Act_Linked n ''bin'' (link_target (sl_current s) ''bin''),
        Act_Linked n ''share'' (link_target (sl_current s) ''share'')]))"
proof -
  have u: "upd_act n f xs = xs" if "n \<notin> set (map fst xs)" for f xs
    using that by (induction xs) (auto simp: upd_act_def)
  have a: "upd_act n f (xs @ ys) = upd_act n f xs @ upd_act n f ys" for f xs ys
    by (simp add: upd_act_def)
  have o: "upd_act n f [(n, x)] = [(n, f x)]" for f x
    by (simp add: upd_act_def)
  show ?thesis
    using assms by (simp add: make_activation_def act_then_def demo_steps u a o demo_act_def)
qed

text \<open>What is read of the selection does not change while an activation is made.\<close>

definition demo_reads :: "cli_disk \<Rightarrow> (string \<times> selection) option \<Rightarrow> nat \<Rightarrow> bool" where
  "demo_reads d x k \<longleftrightarrow> (\<forall>d' t l. cd_current d' = cd_current d \<longrightarrow> prefix (cd_activations d) (cd_activations d') \<longrightarrow>
     get_selection demo (demo_at d' t l) = (Inr x, demo_at d' (t + k) l))"

lemma demo_reads_none: "cd_current d = None \<Longrightarrow> demo_reads d None 1"
  by (simp add: demo_reads_def demo_selection_none)

lemma demo_reads_some:
  assumes "cd_current d = Some (''activations/'' @ n)" "activation_of_link (''activations/'' @ n) = Inr n"
    "map_of (cd_activations d) n = Some a" "read_activation demo a = Inr s"
  shows "demo_reads d (Some (n, s)) 3"
proof -
  show ?thesis
    unfolding demo_reads_def
  proof (intro allI impI)
    fix d' :: cli_disk and t l assume d: "cd_current d' = cd_current d" "prefix (cd_activations d) (cd_activations d')"
    then have "map_of (cd_activations d') n = Some a" using assms(3) by (auto simp: prefix_def map_add_Some_iff)
    from demo_selection [OF _ assms(2) this assms(4)] assms(1) d(1)
    show "get_selection demo (demo_at d' t l) = (Inr (Some (n, s)), demo_at d' (t + 3) l)" by (simp add: numeral_3_eq_3)
  qed
qed

lemma demo_reading: "demo_reads d x k \<Longrightarrow> cd_current d' = cd_current d \<Longrightarrow> prefix (cd_activations d) (cd_activations d') \<Longrightarrow>
     get_selection demo (demo_at d' t l) = (Inr x, demo_at d' (t + k) l)"
  by (simp add: demo_reads_def)

lemma demo_requiring: "demo_reads d x k \<Longrightarrow> cd_current d' = cd_current d \<Longrightarrow> prefix (cd_activations d) (cd_activations d') \<Longrightarrow>
     require_selection demo x (demo_at d' t l) = (Inr (), demo_at d' (t + k) l)"
  by (rule demo_require) (rule demo_reading)

lemma demo_activate:
  assumes "v \<in> {demo_a, demo_b}" "map_of (cd_releases d) (demo_id v) = Some (demo_dir_of v)"
    "cd_entry d = No_Entry \<or> cd_entry d = Entry_Link (entry_target demo_place)"
    "demo_reads d old k" "next_activation (map fst (cd_activations d)) = Inr n" "hex16 n \<notin> set (map fst (cd_activations d))"
    "activation_of_link (''activations/'' @ hex16 n) = Inr (hex16 n)"
    "s = new_selection (demo_id v) previous" "demo_print (json_of_selection s) = raw" "read_activation demo (demo_act s raw) = Inr s"
  shows "\<exists>t'. activate demo demo_place (demo_id v) previous old (demo_at d t l) =
    (Inr (hex16 n), demo_at (d\<lparr>cd_activations := cd_activations d @ [(hex16 n, demo_act s raw)],
        cd_entry := Entry_Link (entry_target demo_place), cd_current := Some (''activations/'' @ hex16 n)\<rparr>) t'
      (l @ [Act_Made (hex16 n), Act_Selected (hex16 n) s raw, Act_Linked (hex16 n) ''bin'' (link_target (sl_current s) ''bin''),
        Act_Linked (hex16 n) ''share'' (link_target (sl_current s) ''share''), Admitted (demo_id v)] @
        (if cd_entry d = No_Entry then [Entry_Made (entry_target demo_place)] else []) @ [Switched (hex16 n) s]))"
proof -
  let ?d1 = "d\<lparr>cd_activations := cd_activations d @ [(hex16 n, demo_act s raw)]\<rparr>"
  let ?d2 = "?d1\<lparr>cd_entry := Entry_Link (entry_target demo_place)\<rparr>"
  let ?d3 = "?d2\<lparr>cd_current := Some (''activations/'' @ hex16 n)\<rparr>"
  have there: "map_of (cd_releases ?d1) (demo_id v) = Some \<lparr>rd_id = (2, 3), rd_admission = demo_doc v\<rparr>"
    using assms(2) by (simp add: demo_dir_of_def)
  have "map_of (cd_activations ?d3) (hex16 n) = Some (demo_act s raw)"
    using assms(6) by (simp add: map_add_Some_iff map_of_eq_None_iff [THEN iffD2])
  then have after: "demo_reads ?d3 (Some (hex16 n, s)) 3" using assms(7,10) by (intro demo_reads_some) simp_all
  have check: "check_entry demo demo_place True (demo_at d t l) = (Inr (), demo_at d (Suc t) l)" for t l
    using assms(3) by (auto intro: demo_entry_checks)
  obtain t1 es where entry: "\<And>t l. ensure_entry demo demo_place (demo_at ?d1 t l) = (Inr (), demo_at ?d2 (t + t1) (l @ es))"
    "es = (if cd_entry d = No_Entry then [Entry_Made (entry_target demo_place)] else [])"
  proof (cases "cd_entry d = No_Entry")
    case True
    then show ?thesis using that [of 5 "[Entry_Made (entry_target demo_place)]"] demo_ensures(1) [of ?d1] by simp
  next
    case False
    then have "?d2 = ?d1" using assms(3) by simp
    then show ?thesis using that [of 3 "[]"] demo_ensures(2) [of ?d1] False assms(3) by simp
  qed
  show ?thesis
    unfolding activate_def Let_def assms(8) [symmetric] entry(2) [symmetric]
    using assms(5)
    by (simp add: act_then_def demo_steps check demo_requiring [OF assms(4)] demo_make [OF assms(9,6)] demo_admitted [OF assms(1) there]
        entry(1) demo_requiring [OF after] demo_entry_checks s_map_err_def map_err_def)
qed


lemma demo_request_simps:
  "co_locations (demo_request v) = demo_place" "co_from (demo_request v) = Some (''/'' @ v)"
  "to_key_path (co_trust (demo_request v)) = None" "to_unsigned (co_trust (demo_request v))"
  by (simp_all add: demo_request_def)

abbreviation demo_unsigned :: "string \<Rightarrow> cli_bundle" where
  "demo_unsigned v \<equiv> demo_bundle v ''unsigned-development''"

lemma demo_supplied:
  assumes "v \<in> {demo_a, demo_b}"
  shows "overlaps id demo_fs ''/r'' (''/'' @ v) = Inr False" "demo_which (''/'' @ v) = v"
    "trust_verify demo_crypto (\<lambda>_. None) demo_trust (demo_source v) = Inr (demo_unsigned v)"
  using assms demo_place_simps(4,5) demo_ids demo_bundles_verify by auto

lemma demo_trust_simps: "ct_mode demo_trust = ''unsigned-development''" "ct_key demo_trust = None"
  by (simp_all add: demo_trust_def)

lemma demo_locations: "check_locations demo demo_place (demo_at d t l) = (Inr (), demo_at d (t + 3) l)"
  by (simp add: check_locations_def act_then_def demo_steps demo_place_simps)

lemma demo_trusted_first:
  assumes "v \<in> {demo_a, demo_b}" "cd_marker d = None" "cd_entry d = No_Entry"
  shows "\<exists>t'\<le>t + 20. trusted_supply demo (demo_request v) False (demo_at d t l) =
    (Inr (None, demo_trust, demo_unsigned v), demo_at d t' (l @ [Supply_Trusted demo_trust (demo_unsigned v)]))"
  using assms
  by (simp add: trusted_supply_def Let_def act_then_def demo_steps demo_locations demo_open_none demo_request_simps demo_place_simps
      demo_supplied [OF assms(1)] trust_initial_def demo_trust_def [symmetric] del: append_Cons)

lemma demo_trusted_again:
  assumes "v \<in> {demo_a, demo_b}" "cd_marker d = Some ''r''" "cd_entry d = Entry_Link (entry_target demo_place)"
  shows "\<exists>t'\<ge>t. trusted_supply demo (demo_request v) True (demo_at d t l) =
    (Inr (Some demo_record, demo_trust, demo_unsigned v), demo_at d t' (l @ [Supply_Trusted demo_trust (demo_unsigned v)]))"
  using assms
  by (simp add: trusted_supply_def Let_def act_then_def demo_steps demo_locations demo_open demo_request_simps demo_place_simps
      demo_supplied [OF assms(1)] accept_options_def demo_entry_checks demo_record_simps demo_trust_simps del: append_Cons)

lemma demo_created:
  assumes "cd_marker d = None" "cd_entry d = No_Entry"
  shows "\<exists>t'\<le>t + 20. create_root demo demo_place demo_trust (demo_at d t l) =
    (Inr demo_record, demo_at (d\<lparr>cd_marker := Some ''r''\<rparr>) t' (l @ [Root_Published demo_record ''r'']))"
proof -
  have "\<lparr>cr_schema = 1, cr_kind = ''BXDL_CLI_INSTALLATION'', cr_root = (1, 1), cr_lock = (1, 2), cr_releases = (1, 3),
     cr_activations = (1, 4), cr_staging = (1, 5), cr_bin_dir = lo_bin demo_place, cr_bin = (1, 6), cr_trust = demo_trust\<rparr> = demo_record"
    by (simp add: demo_record_def demo_place_simps)
  then show ?thesis
    using assms by (simp add: create_root_def Let_def act_then_def demo_steps demo_printed demo_open ok_or_def del: One_nat_def)
qed


section \<open>The life\<close>

abbreviation demo_acts :: "nat \<Rightarrow> selection \<Rightarrow> bytes \<Rightarrow> cli_event list" where
  "demo_acts n s raw \<equiv> [Act_Made (hex16 n), Act_Selected (hex16 n) s raw,
     Act_Linked (hex16 n) ''bin'' (link_target (sl_current s) ''bin''), Act_Linked (hex16 n) ''share'' (link_target (sl_current s) ''share'')]"

abbreviation demo_published :: "string \<Rightarrow> cli_event list" where
  "demo_published v \<equiv> [Probed (demo_staged v) (demo_manifest v), Release_Published (demo_id v) (demo_dir_of v), Admitted (demo_id v)]"

abbreviation demo_held :: "string list \<Rightarrow> (nat \<times> selection \<times> bytes) list \<Rightarrow> nat \<Rightarrow> cli_disk" where
  "demo_held vs as n \<equiv> \<lparr>cd_marker = Some ''r'', cd_releases = map (\<lambda>v. (demo_id v, demo_dir_of v)) vs,
     cd_activations = map (\<lambda>(m, s, raw). (hex16 m, demo_act s raw)) as, cd_current = Some (''activations/'' @ hex16 n),
     cd_entry = Entry_Link (entry_target demo_place)\<rparr>"

lemma demo_lock: "lock_root demo (demo_at d t l) = (Inr (), demo_at d (t + 3) l)"
  by (simp add: lock_root_def act_then_def demo_steps)

lemma demo_news:
  "demo_first = new_selection (demo_id demo_a) None" "demo_second = new_selection (demo_id demo_b) (Some (demo_id demo_a))"
  "demo_third = new_selection (demo_id demo_a) (Some (demo_id demo_b))"
  by (simp_all add: demo_first_def demo_second_def demo_third_def)

lemma demo_selections:
  "sl_current demo_first = demo_id demo_a" "sl_current demo_second = demo_id demo_b" "sl_current demo_third = demo_id demo_a"
  "sl_previous demo_first = None" "sl_previous demo_second = Some (demo_id demo_a)" "sl_previous demo_third = Some (demo_id demo_b)"
  by (simp_all add: demo_news new_selection_def)

lemma demo_macos: "require_macos demo s = (Inr (), s)" "s_check True c s = (Inr (), s)"
  by (simp_all add: require_macos_def s_check_def ret_def)

lemma install_first:
  assumes "trusted_supply demo p False s0 = (Inr (None, tr, b), s1)" "create_root demo (co_locations p) tr s1 = (Inr r, s2)"
    "lock_root demo s2 = (Inr (), s3)" "get_selection demo s3 = (Inr None, s4)"
    "stage_release demo (co_locations p) b s4 = (Inr a, s5)" "activate demo (co_locations p) (ri_id (ad_release a)) None None s5 = (Inr n, s6)"
  shows "cli_install demo p False s0 = (Inr \<lparr>rp_action = ''install'', rp_status = ''INSTALLED'', rp_changed = True,
    rp_current = Some (ad_release a), rp_previous = None, rp_activation = Some n\<rparr>, s6)"
  by (simp add: cli_install_def Let_def act_then_def demo_macos assms switch_release_def s_map_err_def map_err_def previous_release_def ret_def)

lemma install_update:
  assumes "co_from p \<noteq> None" "trusted_supply demo p True s0 = (Inr (Some r, tr, b), s1)"
    "lock_root demo s1 = (Inr (), s3)" "get_selection demo s3 = (Inr (Some (m, s)), s4)" "sl_current s \<noteq> release_id b"
    "stage_release demo (co_locations p) b s4 = (Inr a, s5)"
    "activate demo (co_locations p) (ri_id (ad_release a)) (Some (sl_current s)) (Some (m, s)) s5 = (Inr n, s6)"
    "get_admission demo (sl_current s) s6 = (Inr c, s7)"
  shows "cli_install demo p True s0 = (Inr \<lparr>rp_action = ''update'', rp_status = ''UPDATED'', rp_changed = True,
    rp_current = Some (ad_release a), rp_previous = Some (ad_release c), rp_activation = Some n\<rparr>, s7)"
  using assms(1,5)
  by (simp add: cli_install_def Let_def act_then_def demo_macos assms(2-4,6-8) switch_release_def s_map_err_def map_err_def previous_release_def ret_def)

lemma rollback_steps:
  assumes "check_locations demo l s0 = (Inr (), s1)" "open_root demo l s1 = (Inr (Some r), s2)" "lock_root demo s2 = (Inr (), s3)"
    "check_entry demo l False s3 = (Inr (), s4)" "get_selection demo s4 = (Inr (Some (n, s)), s5)" "sl_previous s = Some i"
    "admitted demo l i s5 = (Inr (a, b), s6)" "probe_at demo (release_path l i) (bundle_manifest b) s6 = (Inr (), s7)"
    "get_admission demo (sl_current s) s7 = (Inr c, s8)"
    "activate demo l i (Some (sl_current s)) (Some (n, s)) s8 = (Inr m, s9)"
  shows "cli_rollback demo l s0 = (Inr \<lparr>rp_action = ''rollback'', rp_status = ''ROLLED_BACK'', rp_changed = True,
    rp_current = Some (ad_release a), rp_previous = Some (ad_release c), rp_activation = Some m\<rparr>, s9)"
  using assms by (simp add: cli_rollback_def act_then_def demo_macos ok_or_def ret_def)

lemma info_steps:
  assumes "open_root demo l s0 = (Inr (Some r), s1)" "get_selection demo s1 = (Inr (Some (n, s)), s2)"
    "check_entry demo l False s2 = (Inr (), s3)" "admitted demo l (sl_current s) s3 = (Inr (a, b), s4)" "sl_previous s = None"
    "require_selection demo (Some (n, s)) s4 = (Inr (), s5)"
  shows "cli_info demo l s0 = (Inr \<lparr>rp_action = ''info'', rp_status = ''READY'', rp_changed = False,
    rp_current = Some (ad_release a), rp_previous = None, rp_activation = Some n\<rparr>, s5)"
  using assms by (simp add: cli_info_def act_then_def ret_def previous_release_def)

text \<open>The events of an installation or update, and of a rollback.\<close>

definition demo_switching :: "string \<Rightarrow> nat \<Rightarrow> selection \<Rightarrow> bytes \<Rightarrow> bool \<Rightarrow> cli_event list" where
  "demo_switching v n s raw fresh = [Act_Made (hex16 n), Act_Selected (hex16 n) s raw,
     Act_Linked (hex16 n) ''bin'' (link_target (sl_current s) ''bin''), Act_Linked (hex16 n) ''share'' (link_target (sl_current s) ''share''),
     Admitted (demo_id v)] @ (if fresh then [Entry_Made (entry_target demo_place)] else []) @ [Switched (hex16 n) s]"

definition demo_switched :: "cli_disk \<Rightarrow> nat \<Rightarrow> selection \<Rightarrow> bytes \<Rightarrow> cli_disk" where
  "demo_switched d n s raw = d\<lparr>cd_activations := cd_activations d @ [(hex16 n, demo_act s raw)],
     cd_entry := Entry_Link (entry_target demo_place), cd_current := Some (''activations/'' @ hex16 n)\<rparr>"

lemmas demo_activates = demo_activate [folded demo_switched_def, unfolded append_assoc, folded demo_switching_def]

lemma demo_switched_simps [simp]:
  "cd_marker (demo_switched d n s raw) = cd_marker d" "cd_releases (demo_switched d n s raw) = cd_releases d"
  "cd_entry (demo_switched d n s raw) = Entry_Link (entry_target demo_place)"
  "map fst (cd_activations (demo_switched d n s raw)) = map fst (cd_activations d) @ [hex16 n]"
  by (simp_all add: demo_switched_def)

lemma demo_switched_reads:
  assumes "activation_of_link (''activations/'' @ hex16 n) = Inr (hex16 n)" "hex16 n \<notin> set (map fst (cd_activations d))"
    "read_activation demo (demo_act s raw) = Inr s"
  shows "demo_reads (demo_switched d n s raw) (Some (hex16 n, s)) 3"
  by (rule demo_reads_some [where a = "demo_act s raw"])
    (use assms in \<open>simp_all add: demo_switched_def map_add_Some_iff map_of_eq_None_iff [THEN iffD2]\<close>)

definition demo_base :: cli_disk where
  "demo_base = no_disk\<lparr>cd_marker := Some ''r''\<rparr>"

definition demo_with :: "cli_disk \<Rightarrow> string \<Rightarrow> cli_disk" where
  "demo_with d v = d\<lparr>cd_releases := cd_releases d @ [(demo_id v, demo_dir_of v)]\<rparr>"

lemma demo_with_simps [simp]:
  "cd_marker (demo_with d v) = cd_marker d" "cd_activations (demo_with d v) = cd_activations d" "cd_entry (demo_with d v) = cd_entry d"
  "cd_current (demo_with d v) = cd_current d" "cd_releases (demo_with d v) = cd_releases d @ [(demo_id v, demo_dir_of v)]"
  by (simp_all add: demo_with_def)

lemma demo_base_simps [simp]:
  "cd_marker demo_base = Some ''r''" "cd_activations demo_base = []" "cd_entry demo_base = No_Entry" "cd_current demo_base = None"
  "cd_releases demo_base = []"
  by (simp_all add: demo_base_def no_disk_def)

definition demo_new :: "string \<Rightarrow> cli_event list" where
  "demo_new v = [Probed (demo_staged v) (demo_manifest v), Release_Published (demo_id v) (demo_dir_of v), Admitted (demo_id v)]"

lemmas demo_stages = demo_stage [folded demo_with_def demo_new_def]

definition demo_d1 :: cli_disk where "demo_d1 = demo_switched (demo_with demo_base demo_a) 1 demo_first ''s''"
definition demo_d2 :: cli_disk where "demo_d2 = demo_switched (demo_with demo_d1 demo_b) 2 demo_second ''t''"
definition demo_d3 :: cli_disk where "demo_d3 = demo_switched demo_d2 3 demo_third ''u''"
definition demo_d4 :: cli_disk where "demo_d4 = demo_switched demo_d3 4 demo_second ''t''"

definition demo_l1 :: "cli_event list" where
  "demo_l1 = (([Supply_Trusted demo_trust (demo_unsigned demo_a)] @ [Root_Published demo_record ''r'']) @ demo_new demo_a) @
     demo_switching demo_a 1 demo_first ''s'' True"
definition demo_l2 :: "cli_event list" where
  "demo_l2 = ((demo_l1 @ [Supply_Trusted demo_trust (demo_unsigned demo_b)]) @ demo_new demo_b) @ demo_switching demo_b 2 demo_second ''t'' False"
definition demo_back :: "string \<Rightarrow> cli_event list" where
  "demo_back v = [Admitted (demo_id v), Probed (release_path demo_place (demo_id v)) (demo_manifest v)]"
definition demo_l3 :: "cli_event list" where
  "demo_l3 = (demo_l2 @ demo_back demo_a) @ demo_switching demo_a 3 demo_third ''u'' False"
definition demo_l4 :: "cli_event list" where
  "demo_l4 = (demo_l3 @ demo_back demo_b) @ demo_switching demo_b 4 demo_second ''t'' False"

lemma demo_install:
  "\<exists>r t. cli_install demo (demo_request demo_a) False (demo_at no_disk 0 []) = (Inr r, demo_at demo_d1 t demo_l1) \<and>
     rp_current r = Some (release_of_bundle (demo_unsigned demo_a)) \<and> rp_activation r = Some (hex16 1)"
proof -
  let ?l1 = "[Supply_Trusted demo_trust (demo_unsigned demo_a)]"
  have none: "cd_marker no_disk = None" "cd_entry no_disk = No_Entry" by (simp_all add: no_disk_def)
  obtain t1 where t1: "t1 \<le> 20" "trusted_supply demo (demo_request demo_a) False (demo_at no_disk 0 []) =
    (Inr (None, demo_trust, demo_unsigned demo_a), demo_at no_disk t1 ?l1)"
    using demo_trusted_first [of demo_a no_disk 0 "[]"] none by auto
  let ?l2 = "?l1 @ [Root_Published demo_record ''r'']"
  obtain t2 where t2: "t2 \<le> 40" "create_root demo demo_place demo_trust (demo_at no_disk t1 ?l1) = (Inr demo_record, demo_at demo_base t2 ?l2)"
    using demo_created [OF none, of t1 ?l1, folded demo_base_def] t1(1) by force
  have t3: "get_selection demo (demo_at demo_base (t2 + 3) ?l2) = (Inr None, demo_at demo_base (t2 + 4) ?l2)"
    by (simp add: demo_selection_none numeral_eq_Suc)
  have "t2 + 4 < 900" using t2(1) by simp
  then have staged: "stage_release demo demo_place (demo_unsigned demo_a) (demo_at demo_base (t2 + 4) ?l2) =
      (Inr (demo_admission demo_a), demo_at (demo_with demo_base demo_a) (t2 + 4 + 21) (?l2 @ demo_new demo_a))"
    by (intro demo_stages) simp_all
  obtain t4 where t4: "activate demo demo_place (demo_id demo_a) None None (demo_at (demo_with demo_base demo_a) (t2 + 4 + 21) (?l2 @ demo_new demo_a)) =
    (Inr (hex16 1), demo_at demo_d1 t4 demo_l1)"
    using demo_activates [of demo_a "demo_with demo_base demo_a" None 1 1 demo_first None "''s''" "t2 + 4 + 21" "?l2 @ demo_new demo_a"]
    by (auto simp: demo_reads_none demo_act_names demo_news(1) [symmetric] demo_selections_read demo_printed demo_d1_def demo_l1_def
        simp del: One_nat_def append_Cons)
  have "ri_id (ad_release (demo_admission demo_a)) = demo_id demo_a" by (simp only: demo_release_of)
  from install_first [where p = "demo_request demo_a", unfolded demo_request_simps, OF t1(2) t2(2) demo_lock t3 staged, unfolded this, OF t4]
  show ?thesis by (simp add: demo_release_of)
qed

lemma demo_disks:
  "cd_marker demo_d1 = Some ''r''" "cd_marker demo_d2 = Some ''r''" "cd_marker demo_d3 = Some ''r''"
  "cd_entry demo_d1 = Entry_Link (entry_target demo_place)" "cd_entry demo_d2 = Entry_Link (entry_target demo_place)"
  "cd_entry demo_d3 = Entry_Link (entry_target demo_place)"
  "map fst (cd_activations demo_d1) = [hex16 1]" "map fst (cd_activations demo_d2) = [hex16 1, hex16 2]"
  "map fst (cd_activations demo_d3) = [hex16 1, hex16 2, hex16 3]"
  "cd_releases demo_d1 = [(demo_id demo_a, demo_dir_of demo_a)]"
  "cd_releases demo_d2 = [(demo_id demo_a, demo_dir_of demo_a), (demo_id demo_b, demo_dir_of demo_b)]" "cd_releases demo_d3 = cd_releases demo_d2"
  "cd_releases demo_d4 = cd_releases demo_d2"
  by (simp_all add: demo_d1_def demo_d2_def demo_d3_def demo_d4_def)

lemma demo_disk_reads:
  "demo_reads demo_d1 (Some (hex16 1, demo_first)) 3" "demo_reads demo_d2 (Some (hex16 2, demo_second)) 3"
  "demo_reads demo_d3 (Some (hex16 3, demo_third)) 3"
proof -
  show "demo_reads demo_d1 (Some (hex16 1, demo_first)) 3"
    unfolding demo_d1_def by (rule demo_switched_reads) (simp_all add: demo_act_names demo_selections_read del: append_Cons One_nat_def)
  show "demo_reads demo_d2 (Some (hex16 2, demo_second)) 3"
    unfolding demo_d2_def
    by (rule demo_switched_reads) (simp_all only: demo_act_names demo_selections_read demo_with_simps demo_disks, simp add: demo_act_names(9) [symmetric] del: One_nat_def)
  show "demo_reads demo_d3 (Some (hex16 3, demo_third)) 3"
    unfolding demo_d3_def
    by (rule demo_switched_reads) (simp_all only: demo_act_names demo_selections_read demo_with_simps demo_disks, simp add: demo_act_names(10,12) [symmetric] del: One_nat_def)
qed

lemma demo_dirs: "v \<in> {demo_a, demo_b} \<Longrightarrow> map_of (cd_releases demo_d2) (demo_id v) = Some (demo_dir_of v)"
  using demo_ids(1) by (auto simp: demo_disks)

lemma demo_dir_docs: "demo_dir_of v = \<lparr>rd_id = (2, 3), rd_admission = demo_doc v\<rparr>"
  by (rule demo_dir_of_def)

lemma demo_update:
  "\<exists>r t. cli_install demo (demo_request demo_b) True (demo_at demo_d1 1000 demo_l1) = (Inr r, demo_at demo_d2 t demo_l2)"
proof -
  let ?l1 = "demo_l1 @ [Supply_Trusted demo_trust (demo_unsigned demo_b)]" and ?d = "demo_with demo_d1 demo_b"
  obtain t1 where t1: "1000 \<le> t1" "trusted_supply demo (demo_request demo_b) True (demo_at demo_d1 1000 demo_l1) =
    (Inr (Some demo_record, demo_trust, demo_unsigned demo_b), demo_at demo_d1 t1 ?l1)"
    using demo_trusted_again [of demo_b demo_d1 1000 demo_l1] by (auto simp: demo_disks)
  have t3: "get_selection demo (demo_at demo_d1 (t1 + 3) ?l1) = (Inr (Some (hex16 1, demo_first)), demo_at demo_d1 (t1 + 3 + 3) ?l1)"
    by (rule demo_reading [OF demo_disk_reads(1)]) simp_all
  have "\<not> t1 + 3 + 3 < 900" "1000 \<le> t1 + 3 + 3" using t1(1) by simp_all
  then have staged: "stage_release demo demo_place (demo_unsigned demo_b) (demo_at demo_d1 (t1 + 3 + 3) ?l1) =
      (Inr (demo_admission demo_b), demo_at ?d (t1 + 3 + 3 + 21) (?l1 @ demo_new demo_b))"
    by (intro demo_stages) (simp_all add: demo_disks demo_ids(1) [symmetric])
  have "demo_reads ?d (Some (hex16 1, demo_first)) 3"
    using demo_disk_reads(1) by (simp add: demo_reads_def)
  then have "\<exists>t4. activate demo demo_place (demo_id demo_b) (Some (demo_id demo_a)) (Some (hex16 1, demo_first))
      (demo_at ?d (t1 + 3 + 3 + 21) (?l1 @ demo_new demo_b)) = (Inr (hex16 2), demo_at (demo_switched ?d 2 demo_second ''t'') t4
        ((?l1 @ demo_new demo_b) @ demo_switching demo_b 2 demo_second ''t'' (cd_entry ?d = No_Entry)))"
    by (intro demo_activates [where k = 3])
      (simp_all add: demo_disks demo_act_names demo_news(2) [symmetric] demo_selections_read demo_printed demo_ids(1) [symmetric]
        demo_act_names(9) [symmetric] del: One_nat_def append_Cons)
  then obtain t4 where t4: "activate demo demo_place (demo_id demo_b) (Some (demo_id demo_a)) (Some (hex16 1, demo_first))
      (demo_at ?d (t1 + 3 + 3 + 21) (?l1 @ demo_new demo_b)) = (Inr (hex16 2), demo_at demo_d2 t4 demo_l2)"
    by (auto simp: demo_d2_def demo_l2_def demo_disks)
  have adm: "get_admission demo (sl_current demo_first) (demo_at demo_d2 t4 demo_l2) = (Inr (demo_admission demo_a), demo_at demo_d2 (Suc (Suc t4)) demo_l2)"
    unfolding demo_selections by (rule demo_get_admission) (simp_all add: demo_dirs demo_dir_docs)
  have i: "ri_id (ad_release (demo_admission demo_b)) = demo_id demo_b" "sl_current demo_first = demo_id demo_a"
    by (simp_all only: demo_release_of demo_selections)
  have "sl_current demo_first \<noteq> release_id (demo_unsigned demo_b)" "co_from (demo_request demo_b) \<noteq> None"
    using demo_ids(1) by (simp_all add: demo_release_of demo_selections demo_request_simps)
  from install_update [where p = "demo_request demo_b", OF this(2), unfolded demo_request_simps, OF t1(2) demo_lock t3 this(1) staged, unfolded i, OF t4 adm [unfolded i]]
  show ?thesis by blast
qed


text \<open>A rollback from the selection of one of the two to the other.\<close>

lemma demo_rolls:
  assumes "v \<in> {demo_a, demo_b}" "u \<in> {demo_a, demo_b}" "cd_marker d = Some ''r''" "cd_entry d = Entry_Link (entry_target demo_place)"
    "cd_releases d = cd_releases demo_d2" "demo_reads d (Some (m, s)) 3" "sl_previous s = Some (demo_id v)" "sl_current s = demo_id u"
    "next_activation (map fst (cd_activations d)) = Inr n" "hex16 n \<notin> set (map fst (cd_activations d))"
    "activation_of_link (''activations/'' @ hex16 n) = Inr (hex16 n)" "x = new_selection (demo_id v) (Some (demo_id u))"
    "demo_print (json_of_selection x) = raw" "read_activation demo (demo_act x raw) = Inr x"
  shows "\<exists>r t'. cli_rollback demo demo_place (demo_at d t l) =
    (Inr r, demo_at (demo_switched d n x raw) t' ((l @ demo_back v) @ demo_switching v n x raw False))"
proof -
  have there: "map_of (cd_releases d) (demo_id v) = Some \<lparr>rd_id = (2, 3), rd_admission = demo_doc v\<rparr>"
    "map_of (cd_releases d) (demo_id u) = Some \<lparr>rd_id = (2, 3), rd_admission = demo_doc u\<rparr>"
    using demo_dirs assms(1,2,5) by (simp_all only: demo_dir_docs)
  let ?t1 = "Suc (Suc (Suc (Suc (Suc (t + 3)))))" and ?l1 = "l @ [Admitted (demo_id v)]"
  let ?t2 = "Suc (?t1 + 3) + 3"
  have read: "get_selection demo (demo_at d (Suc (?t1 + 3)) l) = (Inr (Some (m, s)), demo_at d ?t2 l)"
    by (rule demo_reading [OF assms(6)]) simp_all
  have adm: "get_admission demo (sl_current s) (demo_at d (Suc (?t2 + 5)) (l @ demo_back v)) =
      (Inr (demo_admission u), demo_at d (Suc (Suc (Suc (?t2 + 5)))) (l @ demo_back v))"
    unfolding assms(8) by (rule demo_get_admission [OF assms(2) there(2)])
  have probe: "probe_at demo (release_path demo_place (demo_id v)) (bundle_manifest (demo_bundle v how)) (demo_at d k ?l1) =
      (Inr (), demo_at d (Suc k) (l @ demo_back v))" for k how
    by (simp add: demo_probe demo_back_def demo_release_of)
  have "\<exists>t4. activate demo demo_place (demo_id v) (Some (demo_id u)) (Some (m, s)) (demo_at d (Suc (Suc (Suc (?t2 + 5)))) (l @ demo_back v)) =
      (Inr (hex16 n), demo_at (demo_switched d n x raw) t4 ((l @ demo_back v) @ demo_switching v n x raw (cd_entry d = No_Entry)))"
    by (rule demo_activates [OF assms(1) _ disjI2 [OF assms(4)] assms(6,9,10,11,12,13,14)])
      (simp only: assms(1,5) demo_dirs)
  then obtain t4 where act: "activate demo demo_place (demo_id v) (Some (sl_current s)) (Some (m, s))
      (demo_at d (Suc (Suc (Suc (?t2 + 5)))) (l @ demo_back v)) =
      (Inr (hex16 n), demo_at (demo_switched d n x raw) t4 ((l @ demo_back v) @ demo_switching v n x raw False))"
    using assms(4,8) by auto
  from rollback_steps [OF demo_locations demo_open [OF assms(3)] demo_lock demo_entry_checks(2) [OF assms(4)] read assms(7)
      demo_admitted [OF assms(1) there(1)] probe adm act]
  show ?thesis by blast
qed

lemma demo_rollbacks:
  "\<exists>r t'. cli_rollback demo demo_place (demo_at demo_d2 t demo_l2) = (Inr r, demo_at demo_d3 t' demo_l3)"
  "\<exists>r t'. cli_rollback demo demo_place (demo_at demo_d3 t demo_l3) = (Inr r, demo_at demo_d4 t' demo_l4)"
proof -
  show "\<exists>r t'. cli_rollback demo demo_place (demo_at demo_d2 t demo_l2) = (Inr r, demo_at demo_d3 t' demo_l3)"
    unfolding demo_d3_def demo_l3_def
    by (rule demo_rolls [OF _ _ _ _ _ demo_disk_reads(2), where u = demo_b])
      (simp_all add: demo_disks demo_selections demo_act_names demo_news [symmetric] demo_printed demo_selections_read
        demo_act_names(10,12) [symmetric] del: One_nat_def append_Cons)
  show "\<exists>r t'. cli_rollback demo demo_place (demo_at demo_d3 t demo_l3) = (Inr r, demo_at demo_d4 t' demo_l4)"
    unfolding demo_d4_def demo_l4_def
    by (rule demo_rolls [OF _ _ _ _ _ demo_disk_reads(3), where u = demo_a])
      (simp_all add: demo_disks demo_selections demo_act_names demo_news [symmetric] demo_printed demo_selections_read
        demo_act_names(11,13,14) [symmetric] del: One_nat_def append_Cons)
qed

lemma demo_reports:
  "\<exists>q t'. cli_info demo demo_place (demo_at demo_d1 t demo_l1) = (Inr q, demo_at demo_d1 t' (demo_l1 @ [Admitted (demo_id demo_a)])) \<and> rp_status q = ''READY''"
proof -
  have sel: "get_selection demo (demo_at demo_d1 k l) = (Inr (Some (hex16 1, demo_first)), demo_at demo_d1 (k + 3) l)" for k l
    by (rule demo_reading [OF demo_disk_reads(1)]) simp_all
  have there: "map_of (cd_releases demo_d1) (demo_id demo_a) = Some \<lparr>rd_id = (2, 3), rd_admission = demo_doc demo_a\<rparr>"
    by (simp only: demo_disks demo_dir_docs) simp
  have i: "sl_current demo_first = demo_id demo_a" "sl_previous demo_first = None" by (simp_all only: demo_selections)
  from info_steps [OF demo_open [OF demo_disks(1)] sel demo_entry_checks(2) [OF demo_disks(4)], unfolded i, OF demo_admitted [OF _ there] refl
      demo_require [OF sel]]
  show ?thesis by fastforce
qed


lemma demo_texts_distinct: "distinct (map fst demo_texts)"
  by code_simp

lemma demo_prints: "demo_print v \<noteq> [] \<Longrightarrow> v \<in> set (map fst demo_texts)"
  by (auto simp: demo_print_def split: option.splits dest!: map_of_SomeD intro: rev_image_eqI)

lemma demo_decodes_nothing: "cli_decode demo typed [] \<noteq> Inr y"
  by (simp add: cli_decode_def demo_crypto_def decode_strict_json_def demo_parse_def map_err_def fail_def ok_or_def)

lemma json_of_selection_inject: "json_of_selection x = json_of_selection y \<Longrightarrow> x = y"
  by (cases x; cases y) (auto simp: json_of_selection_def opt_field_def split: option.splits)

lemma json_of_record_inject: "json_of_cli_record x = json_of_cli_record y \<Longrightarrow> x = y"
  by (cases x; cases y; cases "cr_trust x"; cases "cr_trust y")
    (auto simp: json_of_cli_record_def json_of_node_def json_of_trust_def opt_field_def prod_eq_iff split: option.splits)

lemma demo_faithful: "cli_faithful demo"
  unfolding cli_faithful_def
proof (intro conjI allI impI)
  fix s y assume d: "cli_decode demo selection_of_json (cw_print demo (json_of_selection s)) = Inr y"
  then have "demo_print (json_of_selection s) \<noteq> []" using demo_decodes_nothing by (metis demo_world_answers(3))
  from demo_prints [OF this] have "json_of_selection s \<in> json_of_selection ` {demo_first, demo_second, demo_third}"
    by (auto simp: demo_texts_def json_of_selection_def [of s] json_of_cli_record_def json_of_admission_def)
  then have "s \<in> {demo_first, demo_second, demo_third}" using json_of_selection_inject by blast
  with d show "y = s" by (auto simp: demo_printed demo_decodes)
next
  fix s y assume d: "cli_decode demo cli_record_of_json (cw_print demo (json_of_cli_record s)) = Inr y"
  then have "demo_print (json_of_cli_record s) \<noteq> []" using demo_decodes_nothing by (metis demo_world_answers(3))
  from demo_prints [OF this] have "json_of_cli_record s = json_of_cli_record demo_record"
    by (auto simp: demo_texts_def json_of_selection_def json_of_admission_def json_of_cli_record_def [of s])
  then have "s = demo_record" by (rule json_of_record_inject)
  with d show "y = s" by (auto simp: demo_printed demo_decodes)
qed

section \<open>The properties applied\<close>

lemma demo_moment:
  assumes "cli_life demo s" "run_cli_op demo a s = (r, demo_at d t l)"
  shows "cli_life demo (demo_at d t' l)"
proof (rule cli_life_cut [OF assms])
  have "cli_sound demo s" by (rule cli_life_sound [OF assms(1) demo_faithful])
  from runs_result(1,2) [OF runs_cli_op [OF demo_faithful] this _ assms(2)]
  show "prefix (so_far s) (so_far (demo_at d t' l))" "on_disk (demo_at d t' l) = replayed cli_apply no_disk (so_far (demo_at d t' l))"
    by (simp_all add: site_ok_def)
qed simp

lemma demo_lives: "cli_life demo (demo_at demo_d1 t demo_l1)" "cli_life demo (demo_at demo_d2 t demo_l2)"
proof -
  obtain r t1 where "run_cli_op demo (Op_Install (demo_request demo_a) False) (demo_at no_disk 0 []) = (Inr r, demo_at demo_d1 t1 demo_l1)"
    using demo_install by auto
  from demo_moment [OF cli_life_start this] show first: "cli_life demo (demo_at demo_d1 t demo_l1)" for t .
  obtain r t2 where "run_cli_op demo (Op_Install (demo_request demo_b) True) (demo_at demo_d1 1000 demo_l1) = (Inr r, demo_at demo_d2 t2 demo_l2)"
    using demo_update by auto
  from demo_moment [OF first this] show "cli_life demo (demo_at demo_d2 t demo_l2)" for t .
qed

lemma demo_newest: "newest_switch (demo_l @ demo_switching v n s raw f) = Some (hex16 n, s)"
  by (simp add: demo_switching_def newest_switch_def switches_def map_filter_def)

lemma demo_ends: "\<exists>l. demo_l @ demo_switching v n s raw f = l @ [Switched (hex16 n) s]"
  by (simp add: demo_switching_def)

theorem switch_only_to_verified_release_witness:
  "\<exists>l src b. demo_l2 = l @ [Switched (hex16 2) demo_second] \<and> trust_verify demo_crypto (\<lambda>_. None) demo_trust src = Inr b \<and>
     release_id b = demo_id demo_b \<and> just_admitted (demo_id demo_b) l \<and> probed_for (demo_id demo_b) l"
proof -
  obtain l where l: "demo_l2 = l @ [Switched (hex16 2) demo_second]"
    using demo_ends unfolding demo_l2_def by blast
  have at: "so_far (demo_at demo_d2 0 demo_l2) = l @ Switched (hex16 2) demo_second # []" using l by simp
  note claim = switch_only_to_verified_release [OF demo_lives(2) demo_faithful at]
  from conjunct1 [OF claim] obtain src b r where "roots_made demo_l2 = [r]" "trust_verify demo_crypto (\<lambda>_. None) (cr_trust r) src = Inr b"
    "sl_current demo_second = release_id b" by auto
  moreover have "roots_made demo_l2 = [demo_record]"
    by (simp add: demo_l2_def demo_l1_def demo_switching_def demo_new_def roots_made_def map_filter_def)
  ultimately show ?thesis using l conjunct2 [OF claim] by (auto simp: demo_selections demo_record_simps)
qed

theorem selection_always_complete_witness:
  "\<exists>a. map_of (cd_activations demo_d2) (hex16 2) = Some a \<and> read_activation demo a = Inr demo_second \<and>
     map_of (cd_releases demo_d2) (demo_id demo_a) \<noteq> None"
proof -
  have n: "newest_switch (so_far (demo_at demo_d2 0 demo_l2)) = Some (hex16 2, demo_second)"
    by (simp only: site.simps demo_l2_def demo_newest)
  have "cli_decode demo selection_of_json (cw_print demo (json_of_selection demo_second)) = Inr demo_second"
    by (simp add: demo_printed demo_decodes)
  from selection_always_complete [OF demo_lives(2) demo_faithful n this] show ?thesis
    by (auto simp: demo_selections)
qed

theorem rollback_twice_restores_witness:
  "\<exists>r1 r2 t1 t2 m. cli_rollback demo demo_place (demo_at demo_d2 0 demo_l2) = (Inr r1, demo_at demo_d3 t1 demo_l3) \<and>
     cli_rollback demo demo_place (demo_at demo_d3 t1 demo_l3) = (Inr r2, demo_at demo_d4 t2 demo_l4) \<and>
     newest_switch demo_l2 = Some (hex16 2, demo_second) \<and> newest_switch demo_l4 = Some (m, demo_second)"
proof -
  obtain r1 t1 where r1: "cli_rollback demo demo_place (demo_at demo_d2 0 demo_l2) = (Inr r1, demo_at demo_d3 t1 demo_l3)"
    using demo_rollbacks(1) by blast
  obtain r2 t2 where r2: "cli_rollback demo demo_place (demo_at demo_d3 t1 demo_l3) = (Inr r2, demo_at demo_d4 t2 demo_l4)"
    using demo_rollbacks(2) by blast
  have n: "newest_switch demo_l2 = Some (hex16 2, demo_second)" by (simp only: demo_l2_def demo_newest)
  from rollback_twice_restores [OF demo_lives(2) demo_faithful r1 r2] n obtain m where "newest_switch demo_l4 = Some (m, demo_second)"
    by auto
  with r1 r2 n show ?thesis by blast
qed

theorem install_selects_supply_witness:
  "\<exists>r q t t'. cli_install demo (demo_request demo_a) False (demo_at no_disk 0 []) = (Inr r, demo_at demo_d1 t demo_l1) \<and>
     cli_info demo demo_place (demo_at demo_d1 t demo_l1) = (Inr q, demo_at demo_d1 t' (demo_l1 @ [Admitted (demo_id demo_a)])) \<and>
     map_option ri_id (rp_current r) = Some (demo_id demo_a) \<and> rp_status q = ''READY'' \<and>
     rp_activation q = rp_activation r \<and> map_option ri_id (rp_current q) = Some (demo_id demo_a)"
proof -
  obtain r t where r: "cli_install demo (demo_request demo_a) False (demo_at no_disk 0 []) = (Inr r, demo_at demo_d1 t demo_l1)"
    "rp_current r = Some (release_of_bundle (demo_unsigned demo_a))"
    using demo_install by blast
  then have i: "map_option ri_id (rp_current r) = Some (demo_id demo_a)" by (simp add: demo_release_of)
  obtain q t' where q: "cli_info demo demo_place (demo_at demo_d1 t demo_l1) = (Inr q, demo_at demo_d1 t' (demo_l1 @ [Admitted (demo_id demo_a)]))"
    using demo_reports by blast
  from install_selects_supply [OF cli_life_start demo_faithful r(1) q] i
  have "rp_status q = ''READY''" "rp_activation q = rp_activation r" "map_option ri_id (rp_current q) = Some (demo_id demo_a)"
    by auto
  with r(1) q i show ?thesis by blast
qed

end
