(* ===== verification/Spec2Isabelle.thy ===== *)
theory Spec2Isabelle
  imports Bundle DiagEvents InitReport WorkflowProps NetworkProps StoreProps HealthProps InstanceDemo CliDemo
begin

text \<open>
  Verification of the BXDL operations tool (\<open>src/src\<close>, Rust): a command line that installs node packages,
  writes and checks their configuration, initialises and runs a node through its engine, and installs itself.

  \<^bold>\<open>Parts and how they interact.\<close> A package is an archive with a signed manifest; the setup workflow verifies and
  installs it, has an instance registered and initialised, and records every step in a checkpoint store. An
  instance pins its package, configuration and keys in a binding and its progress in a journal; the engine reports
  what it did in JSON lines that the tool checks before it believes them. The tool itself is delivered as a
  management bundle, kept in a store of releases with one selection.

  \<^bold>\<open>Shared theories.\<close>
  \<^item> \<open>Prelude\<close>: \<open>BxdlError\<close> as a sum type, \<open>?\<close> as \<open>and_then\<close>, loops over lists, file metadata.
  \<^item> \<open>Text\<close>, \<open>IpText\<close>: the parts of Rust's standard library on byte strings and addresses that the sources use.
  \<^item> \<open>Json\<close>: JSON values, the strict decoder of \<open>artifact/json.rs\<close> and \<open>engine/json.rs\<close>, and what \<open>serde\<close> derives for a struct.
  \<^item> \<open>Acts\<close>: operations that change a state and may fail after changing it, their triples, and the locale
    \<open>advancing\<close> of states that only move forward; interpreted by the workflow, the instance and the sites.
  \<^item> \<open>Sites\<close>: a disk with a log of durable events, an automaton of permitted logs, and one rule per kind of step.

  \<^bold>\<open>Packages.\<close>
  \<^item> \<open>Package\<close> (\<open>artifact/types.rs\<close>): the manifest, its limits, path policy and checks, equal to a declarative policy.
  \<^item> \<open>Ustar\<close>, \<open>Verify\<close> (\<open>artifact/verify.rs\<close>): header blocks with the locale \<open>header_codec\<close>, and the streaming verifier;
    it accepts exactly the specified streams, what it delivers is the inventory, and a key means a signature.
  \<^item> \<open>Build\<close> (\<open>artifact/build.rs\<close>): the staging scan and the writer, whose output the verifier accepts.
  \<^item> \<open>BundleTar\<close>, \<open>Bundle\<close> (\<open>management/bundle.rs\<close>, \<open>management/bundle/tar.rs\<close>): the management bundle, its readers, its
    verification and its build; a second interpretation of \<open>header_codec\<close>.

  \<^bold>\<open>Configuration.\<close>
  \<^item> \<open>ConfigShape\<close>, \<open>ConfigProduct\<close> (\<open>config/mod.rs\<close>, \<open>config/preflight.rs\<close>): the shape scan, which always returns and
    decides a grammar; decoding, normal forms (addresses described by their numbers), and the read-only checks of files and secrets.
  \<^item> \<open>Certificate\<close>, \<open>Network\<close>, \<open>NetworkProps\<close> (\<open>config/network.rs\<close>): hosts, certificate envelopes, the network document
    and the native settings prepared from it.

  \<^bold>\<open>Setup.\<close>
  \<^item> \<open>SetupPaths\<close> (\<open>setup/paths.rs\<close>): whether two paths may share files.
  \<^item> \<open>SetupStore\<close>, \<open>StoreRuns\<close>, \<open>StoreProto\<close>, \<open>StoreLog\<close>, \<open>StoreAlone\<close>, \<open>StoreProps\<close> (\<open>setup/store.rs\<close>): every operation of the
    checkpoint store as a tree of system calls; any number of sessions interleave, fail and are killed. The
    directory refines an append-only log (locale \<open>append_only\<close>) whose entries are, whole, what the sessions were
    asked to save, and a lone session recovers it. A kill ends a session between two calls, and a failing write
    leaves a part; the two calls that force data to the medium (\<open>Sync_File\<close>, \<open>Sync_Dir\<close>) change nothing here,
    so what a power failure may lose of data that was not forced is not modelled.
  \<^item> \<open>Workflow\<close>, \<open>WorkflowProps\<close> (\<open>setup/workflow.rs\<close>, \<open>setup/workflow/application.rs\<close>): the journal of the workflow with all its
    operations; every effect follows a durable announcement with all earlier stages confirmed, the results of
    installation and registration stay, nothing is installed twice.

  \<^bold>\<open>Engine.\<close>
  \<^item> \<open>Engine\<close> (\<open>engine/mod.rs\<close>), \<open>InitReport\<close> (\<open>engine/init_result.rs\<close>), \<open>RunReport\<close>, \<open>Health\<close>, \<open>HealthProps\<close>
    (\<open>engine/runtime_result.rs\<close>), \<open>DiagEvents\<close> (\<open>engine/diagnostic_events.rs\<close>): the consumers of what the engine writes.
    An accepted run report is a path of the life cycle (locale \<open>consuming_loop\<close>).
  \<^item> \<open>InstanceData\<close>, \<open>Instance\<close>, \<open>InstanceLog\<close>, \<open>InstanceProps\<close>, \<open>InstanceDemo\<close> (\<open>engine/instance.rs\<close>,
    \<open>engine/instance/supply.rs\<close>): registration, initialisation and the reads of an instance. The automaton \<open>may_follow\<close>
    says what may become durable after what; over every life an initial start happens at most once, is announced, and
    INITIALIZED rests on accepted evidence.

  \<^bold>\<open>The store of management releases.\<close>
  \<^item> \<open>CliData\<close>, \<open>CliStore\<close> (\<open>management/store.rs\<close>, \<open>management/mod.rs\<close>): the recorded trust, releases, activations and the link
    \<open>current\<close>; installation, update, rollback and report. A call that becomes durable is an event
    (\<open>cli_event\<close>); it may be durable although it reports an error.
  \<^item> \<open>CliLog\<close>, \<open>CliOps\<close>: the automaton \<open>cli_may\<close>, what the disk is after a permitted log, and that each operation keeps to it.
  \<^item> \<open>CliProps\<close>, \<open>CliDemo\<close>: over every life with cut-offs the selection is complete and of a release verified under the first
    trust; an installation reports the content it has verified in that call; two rollbacks restore the selection. \<open>CliDemo\<close> evaluates a life of four operations.

  \<^bold>\<open>Parameters.\<close> Code that is not in the repository, and the system, are arguments: the tokenizer of \<open>serde_json\<close>
  (\<open>parse\<close>), SHA-256, Ed25519, gzip and base64 (records of functions such as \<open>crypto\<close>), and the answers of the operating system. The
  latter are functions of a clock that each question advances, so two questions may be answered differently; a call with an
  effect answers whether it happened and what it reported. Where a property needs it, a hypothesis states that
  what is printed reads back only as itself (\<open>faithful\<close>, \<open>cli_faithful\<close>), as \<open>serde_json\<close> documents it; each such
  property is applied to a concrete instance.

  \<^bold>\<open>Bounds and fuel.\<close> Limits are those of the code: sixteen hexadecimal digits of activation names and \<open>u64\<close> bounds in
  \<open>CliData\<close>, sizes and counts of archives in \<open>Package\<close>, \<open>Verify\<close> and \<open>Bundle\<close>, sixteen events in \<open>DiagEvents\<close>, sequence numbers
  of reports in \<open>RunReport\<close>. Loops are structural or have a measure; the stream verifier reads a finite stream and the
  shape scan is shown to return with the fuel it is given (\<open>strict_json_shape_returns\<close>).

  \<^bold>\<open>Not modelled.\<close> Console dialogues and rendering (\<open>operator\<close>, \<open>setup/wizard.rs\<close>, \<open>setup/install_wizard.rs\<close>,
  \<open>setup/network_wizard.rs\<close>), argument definitions and dispatch (\<open>cli.rs\<close>), drafts of configurations (\<open>setup/preparation.rs\<close>), the
  serialisation of the workflow journal (\<open>setup/workflow_store.rs\<close>), the runtime store (\<open>install.rs\<close>, \<open>runtime.rs\<close>), and process
  supervision through launchd, sockets and pipes (\<open>engine/launchd.rs\<close>, \<open>engine/instance/service.rs\<close>, \<open>engine/instance/executor\<close>): text
  and system calls around the modelled decisions. File access through guarded handles (\<open>engine/instance_fs.rs\<close>,
  \<open>management/fs.rs\<close>) is a parameter of the components that use it.
\<close>

end
